(* ===== verification/Prelude.thy ===== *)
theory Prelude
  imports Main "HOL-Library.Word" "HOL-Library.Monad_Syntax"
begin

text \<open>
  What the component theories share.

  \<^item> \<^bold>\<open>Types.\<close> A C \<open>char\<close>/\<open>u8\<close> is a \<open>byte\<close>, \<open>u16\<close>/\<open>u32\<close>/\<open>u64\<close> and \<open>unsigned\<close> values
    are words of their width, so that addition wraps as it does on the target (a 32 bit ARM,
    where \<open>char\<close> is unsigned and \<open>int\<close>, \<open>long\<close> and pointers have 32 bits).
  \<^item> \<^bold>\<open>Buffers.\<close> A C array is a list of bytes of the array's length; \<open>load\<close> and \<open>store\<close>
    read and write a range of it and return \<^const>\<open>None\<close> outside its bounds. Code that calls
    them is written in the option monad, so that \<^const>\<open>None\<close> means: the C program has
    left its objects, or polls for ever. A theorem that a function returns
    \<^const>\<open>Some\<close> value therefore states that it ends and stays inside its buffers.
  \<^item> \<^bold>\<open>Byte order.\<close> \<open>le16\<close>, \<open>le32\<close>, \<open>le64\<close> and their inverses: how the little-endian
    target lays an integer out in memory.
\<close>

unbundle bit_operations_syntax

type_synonym byte = "8 word"
type_synonym u16 = "16 word"
type_synonym u32 = "32 word"
type_synonym u64 = "64 word"

named_theorems buf_simps \<open>reading, writing and measuring buffers\<close>
named_theorems le_simps \<open>little-endian layout\<close>

section \<open>Byte strings of string literals\<close>

definition bytes :: "string \<Rightarrow> byte list" where
  "bytes s = map of_char s"

lemma bytes_Nil [simp]: "bytes [] = []"
  by (simp add: bytes_def)

lemma bytes_Cons [simp]: "bytes (c # cs) = of_char c # bytes cs"
  by (simp add: bytes_def)

lemma length_bytes [simp]: "length (bytes s) = length s"
  by (simp add: bytes_def)

section \<open>Ranges of a buffer\<close>

definition bslice :: "nat \<Rightarrow> nat \<Rightarrow> 'a list \<Rightarrow> 'a list" where
  "bslice off n buf = take n (drop off buf)"

definition patch :: "nat \<Rightarrow> 'a list \<Rightarrow> 'a list \<Rightarrow> 'a list" where
  "patch off xs buf = take off buf @ xs @ drop (off + length xs) buf"

definition load :: "nat \<Rightarrow> nat \<Rightarrow> 'a list \<Rightarrow> 'a list option" where
  "load off n buf = (if off + n \<le> length buf then Some (bslice off n buf) else None)"

definition store :: "nat \<Rightarrow> 'a list \<Rightarrow> 'a list \<Rightarrow> 'a list option" where
  "store off xs buf = (if off + length xs \<le> length buf then Some (patch off xs buf) else None)"

lemma length_bslice [simp, buf_simps]: "off + n \<le> length buf \<Longrightarrow> length (bslice off n buf) = n"
  by (simp add: bslice_def)

lemma length_patch [simp, buf_simps]:
  "off + length xs \<le> length buf \<Longrightarrow> length (patch off xs buf) = length buf"
  by (simp add: patch_def)

lemma nth_bslice [buf_simps]: "off + n \<le> length buf \<Longrightarrow> i < n \<Longrightarrow> bslice off n buf ! i = buf ! (off + i)"
  by (simp add: bslice_def)

lemma nth_patch [buf_simps]:
  assumes "off + length xs \<le> length buf" and "i < length buf"
  shows "patch off xs buf ! i
    = (if off \<le> i \<and> i < off + length xs then xs ! (i - off) else buf ! i)"
  using assms by (auto simp: patch_def nth_append)

lemma bslice_patch_same [simp]:
  "off + length xs \<le> length buf \<Longrightarrow> bslice off (length xs) (patch off xs buf) = xs"
  by (simp add: bslice_def patch_def)

lemma bslice_patch_disjoint:
  assumes "off + length xs \<le> length buf" and "o' + n \<le> length buf"
    and "o' + n \<le> off \<or> off + length xs \<le> o'"
  shows "bslice o' n (patch off xs buf) = bslice o' n buf"
proof (rule nth_equalityI)
  show "length (bslice o' n (patch off xs buf)) = length (bslice o' n buf)"
    using assms by simp
  fix i assume "i < length (bslice o' n (patch off xs buf))"
  with assms have i: "i < n" by simp
  have "bslice o' n (patch off xs buf) ! i = patch off xs buf ! (o' + i)"
    using assms i by (simp add: nth_bslice)
  also have "\<dots> = buf ! (o' + i)"
    using assms i by (auto simp: nth_patch)
  also have "\<dots> = bslice o' n buf ! i"
    using assms i by (simp add: nth_bslice)
  finally show "bslice o' n (patch off xs buf) ! i = bslice o' n buf ! i" .
qed

lemma bslice_all [simp]: "n = length buf \<Longrightarrow> bslice 0 n buf = buf"
  by (simp add: bslice_def)

lemma bslice_0 [simp]: "bslice off 0 buf = []"
  by (simp add: bslice_def)

lemma patch_append:
  "off + length xs + length ys \<le> length buf \<Longrightarrow> patch (off + length xs) ys (patch off xs buf) = patch off (xs @ ys) buf"
  by (simp add: patch_def add.commute add.left_commute)

lemma drop_patch: "i + length xs \<le> j \<Longrightarrow> i + length xs \<le> length a \<Longrightarrow> drop j (patch i xs a) = drop j a"
  by (auto simp: patch_def)

lemma bslice_add: "bslice off (m + n) buf = bslice off m buf @ bslice (off + m) n buf"
  by (simp add: bslice_def take_add add.commute)

lemma bslice_sub: "i + j \<le> a \<Longrightarrow> bslice (off + i) j x = bslice i j (bslice off a x)"
  by (simp add: bslice_def drop_take add.commute min_def)

lemma bslice_append1: "off + n \<le> length xs \<Longrightarrow> bslice off n (xs @ ys) = bslice off n xs"
  by (simp add: bslice_def)

lemma bslice_append2: "length xs \<le> off \<Longrightarrow> bslice off n (xs @ ys) = bslice (off - length xs) n ys"
  by (simp add: bslice_def)

lemma bslice_replicate: "off + n \<le> m \<Longrightarrow> bslice off n (replicate m x) = replicate n x"
  by (simp add: bslice_def min_def)

lemma load_eq_Some [simp]:
  "load off n buf = Some xs \<longleftrightarrow> off + n \<le> length buf \<and> xs = bslice off n buf"
  by (auto simp: load_def)

lemma store_eq_Some [simp]:
  "store off xs buf = Some buf' \<longleftrightarrow> off + length xs \<le> length buf \<and> buf' = patch off xs buf"
  by (auto simp: store_def)

lemma load_Some [simp]: "off + n \<le> length buf \<Longrightarrow> load off n buf = Some (bslice off n buf)"
  by simp

lemma store_Some [simp]: "off + length xs \<le> length buf \<Longrightarrow> store off xs buf = Some (patch off xs buf)"
  by simp

lemma load_Some_iff: "(\<exists>xs. load off n buf = Some xs) \<longleftrightarrow> off + n \<le> length buf"
  by (auto simp: load_def)

lemma store_Some_iff: "(\<exists>b. store off xs buf = Some b) \<longleftrightarrow> off + length xs \<le> length buf"
  by (auto simp: store_def)

lemmas opt_bind = Option.bind_eq_Some_conv bind_eq_None_conv

lemma unat_of_nat32: "n < 2 ^ 32 \<Longrightarrow> unat (of_nat n :: u32) = n"
  by (simp add: unat_of_nat)

section \<open>Little-endian integers\<close>

definition le_bytes :: "nat \<Rightarrow> 'w::len word \<Rightarrow> byte list" where
  "le_bytes k w = map (\<lambda>i. ucast (drop_bit (8 * i) w)) [0..<k]"

abbreviation le16 :: "u16 \<Rightarrow> byte list" where "le16 \<equiv> le_bytes 2"
abbreviation le32 :: "u32 \<Rightarrow> byte list" where "le32 \<equiv> le_bytes 4"
abbreviation le64 :: "u64 \<Rightarrow> byte list" where "le64 \<equiv> le_bytes 8"

fun of_le :: "byte list \<Rightarrow> 'w::len word" where
  "of_le [] = 0"
| "of_le (b # bs) = ucast b OR push_bit 8 (of_le bs)"

lemma length_le_bytes [simp, le_simps]: "length (le_bytes k w) = k"
  by (simp add: le_bytes_def)

lemma nth_le_bytes [le_simps]: "i < k \<Longrightarrow> le_bytes k w ! i = ucast (drop_bit (8 * i) w)"
  by (simp add: le_bytes_def)

lemma bit_of_le:
  "bit (of_le bs :: 'w::len word) n \<longleftrightarrow>
     n < LENGTH('w) \<and> n div 8 < length bs \<and> bit (bs ! (n div 8)) (n mod 8)"
proof (induction bs arbitrary: n)
  case Nil
  then show ?case by simp
next
  case (Cons b bs)
  show ?case
  proof (cases "n < 8")
    case True
    then show ?thesis by (auto simp: bit_simps)
  next
    case False
    then obtain m where n: "n = m + 8" by (metis add.commute le_Suc_ex not_less)
    have "\<not> bit b n" using False bit_imp_le_length[of b n] by auto
    then show ?thesis using Cons.IH[of m]
      by (auto simp: n bit_simps div_add1_eq)
  qed
qed

lemma of_le_le_bytes [simp, le_simps]:
  assumes "LENGTH('w) \<le> 8 * k"
  shows "of_le (le_bytes k w) = (w :: 'w::len word)"
proof (rule bit_word_eqI)
  fix n assume n: "n < LENGTH('w)"
  with assms have "n div 8 < k" by linarith
  moreover have "8 * (n div 8) + n mod 8 = n" by simp
  ultimately show "bit (of_le (le_bytes k w) :: 'w word) n = bit w n"
    using n by (auto simp: bit_of_le nth_le_bytes bit_simps)
qed

lemma le_bytes_of_le [simp, le_simps]:
  assumes "8 * length bs \<le> LENGTH('w)"
  shows "le_bytes (length bs) (of_le bs :: 'w::len word) = bs"
proof (rule nth_equalityI)
  fix i assume i: "i < length (le_bytes (length bs) (of_le bs :: 'w word))"
  show "le_bytes (length bs) (of_le bs :: 'w word) ! i = bs ! i"
  proof (rule bit_word_eqI)
    fix n assume n: "n < LENGTH(8)"
    then have n8: "n < 8" by simp
    have "(8 * i + n) div 8 = i" "(8 * i + n) mod 8 = n" using n8 by simp_all
    moreover have "8 * i + n < LENGTH('w)" using i n8 assms by simp
    ultimately show "bit (le_bytes (length bs) (of_le bs :: 'w word) ! i) n = bit (bs ! i) n"
      using i n by (simp add: nth_le_bytes bit_simps bit_of_le)
  qed
qed simp

end
