(* ===== verification/CString.thy ===== *)
theory CString
  imports Prelude
begin

text \<open>
  The string and memory routines of \<^verbatim>\<open>lib_generic/string.c\<close>, over an explicit memory.

  A memory maps the addresses that belong to some object to their byte; reading or
  writing any other address has no behaviour (\<^const>\<open>None\<close>). Address 0 is \<open>NULL\<close>. Objects
  do not wrap around the end of the address space, so addresses are natural numbers.
  Loops that run to a terminator are \<^theory_text>\<open>partial_function (option)\<close>s, loops with a count
  recurse on it.

  The second half gives the list-level meaning of the routines: a string in memory is
  described by \<open>cstr\<close>, an area by \<open>blk\<close>, and each routine is shown to compute, and to end on,
  what the list functions \<open>strcmp_s\<close>, \<open>strncmp_s\<close>, \<open>tok_s\<close> and the library's list functions
  compute. The other theories work with these list-level functions.
\<close>

type_synonym mem = "nat \<Rightarrow> byte option"

definition wr :: "mem \<Rightarrow> nat \<Rightarrow> byte \<Rightarrow> mem option" where
  "wr m p b = (if m p = None then None else Some (m(p := Some b)))"

section \<open>The routines\<close>

partial_function (option) strcpy_loop :: "mem \<Rightarrow> nat \<Rightarrow> nat \<Rightarrow> mem option" where
  "strcpy_loop m dest src = do {
     c \<leftarrow> m src;
     m' \<leftarrow> wr m dest c;
     if c = 0 then Some m' else strcpy_loop m' (dest + 1) (src + 1) }"

definition strcpy :: "mem \<Rightarrow> nat \<Rightarrow> nat \<Rightarrow> (mem \<times> nat) option" where
  "strcpy m dest src = do { m' \<leftarrow> strcpy_loop m dest src; Some (m', dest) }"

fun strncpy_loop :: "mem \<Rightarrow> nat \<Rightarrow> nat \<Rightarrow> nat \<Rightarrow> mem option" where
  "strncpy_loop m dest src 0 = Some m"
| "strncpy_loop m dest src (Suc count) = do {
     c \<leftarrow> m src;
     m' \<leftarrow> wr m dest c;
     if c = 0 then Some m' else strncpy_loop m' (dest + 1) (src + 1) count }"

definition strncpy :: "mem \<Rightarrow> nat \<Rightarrow> nat \<Rightarrow> nat \<Rightarrow> (mem \<times> nat) option" where
  "strncpy m dest src count = do { m' \<leftarrow> strncpy_loop m dest src count; Some (m', dest) }"

text \<open>The scan \<^verbatim>\<open>for (sc = s; *sc != '\0'; ++sc)\<close> that \<open>strlen\<close>, \<open>strcat\<close> and \<open>strncat\<close> share.\<close>

partial_function (option) scan_nul :: "mem \<Rightarrow> nat \<Rightarrow> nat option" where
  "scan_nul m sc = do { c \<leftarrow> m sc; if c = 0 then Some sc else scan_nul m (sc + 1) }"

definition strcat :: "mem \<Rightarrow> nat \<Rightarrow> nat \<Rightarrow> (mem \<times> nat) option" where
  "strcat m dest src = do {
     d \<leftarrow> scan_nul m dest;
     m' \<leftarrow> strcpy_loop m d src;
     Some (m', dest) }"

fun strncat_loop :: "mem \<Rightarrow> nat \<Rightarrow> nat \<Rightarrow> nat \<Rightarrow> mem option" where
  "strncat_loop m dest src 0 = Some m"
| "strncat_loop m dest src (Suc count) = do {
     c \<leftarrow> m src;
     m' \<leftarrow> wr m dest c;
     if c = 0 then Some m'
     else if count = 0 then wr m' (dest + 1) 0
     else strncat_loop m' (dest + 1) (src + 1) count }"

definition strncat :: "mem \<Rightarrow> nat \<Rightarrow> nat \<Rightarrow> nat \<Rightarrow> (mem \<times> nat) option" where
  "strncat m dest src count =
     (if count = 0 then Some (m, dest)
      else do {
        d \<leftarrow> scan_nul m dest;
        m' \<leftarrow> strncat_loop m d src count;
        Some (m', dest) })"

text \<open>The result variable \<open>__res\<close> is a \<^verbatim>\<open>signed char\<close>: the difference is cut to 8 bits.\<close>

partial_function (option) strcmp :: "mem \<Rightarrow> nat \<Rightarrow> nat \<Rightarrow> int option" where
  "strcmp m cs ct = do {
     a \<leftarrow> m cs;
     b \<leftarrow> m ct;
     if a - b \<noteq> 0 \<or> a = 0 then Some (sint (a - b))
     else strcmp m (cs + 1) (ct + 1) }"

fun strncmp_loop :: "mem \<Rightarrow> nat \<Rightarrow> nat \<Rightarrow> nat \<Rightarrow> byte \<Rightarrow> int option" where
  "strncmp_loop m cs ct 0 res = Some (sint res)"
| "strncmp_loop m cs ct (Suc count) res = do {
     a \<leftarrow> m cs;
     b \<leftarrow> m ct;
     if a - b \<noteq> 0 \<or> a = 0 then Some (sint (a - b))
     else strncmp_loop m (cs + 1) (ct + 1) count (a - b) }"

definition strncmp :: "mem \<Rightarrow> nat \<Rightarrow> nat \<Rightarrow> nat \<Rightarrow> int option" where
  "strncmp m cs ct count = strncmp_loop m cs ct count 0"

partial_function (option) strchr :: "mem \<Rightarrow> nat \<Rightarrow> byte \<Rightarrow> nat option" where
  "strchr m s c = do {
     x \<leftarrow> m s;
     if x \<noteq> c then (if x = 0 then Some 0 else strchr m (s + 1) c)
     else Some s }"

definition strlen :: "mem \<Rightarrow> nat \<Rightarrow> nat option" where
  "strlen m s = do { sc \<leftarrow> scan_nul m s; Some (sc - s) }"

text \<open>The \<^verbatim>\<open>do ... while (--p >= s)\<close> loop of \<open>strrchr\<close>, with \<^verbatim>\<open>p = s + k\<close>.\<close>

fun strrchr_loop :: "mem \<Rightarrow> nat \<Rightarrow> byte \<Rightarrow> nat \<Rightarrow> nat option" where
  "strrchr_loop m s c k = do {
     x \<leftarrow> m (s + k);
     if x = c then Some (s + k)
     else (case k of 0 \<Rightarrow> Some 0 | Suc k' \<Rightarrow> strrchr_loop m s c k') }"

definition strrchr :: "mem \<Rightarrow> nat \<Rightarrow> byte \<Rightarrow> nat option" where
  "strrchr m s c = do { n \<leftarrow> strlen m s; strrchr_loop m s c n }"

fun strnlen_loop :: "mem \<Rightarrow> nat \<Rightarrow> nat \<Rightarrow> nat option" where
  "strnlen_loop m sc 0 = Some sc"
| "strnlen_loop m sc (Suc count) = do {
     c \<leftarrow> m sc;
     if c = 0 then Some sc else strnlen_loop m (sc + 1) count }"

definition strnlen :: "mem \<Rightarrow> nat \<Rightarrow> nat \<Rightarrow> nat option" where
  "strnlen m s count = do { sc \<leftarrow> strnlen_loop m s count; Some (sc - s) }"

text \<open>The inner loop of \<open>strspn\<close> and \<open>strpbrk\<close>: does \<open>c\<close> occur in the string at \<open>a\<close>?\<close>

partial_function (option) in_set :: "mem \<Rightarrow> byte \<Rightarrow> nat \<Rightarrow> bool option" where
  "in_set m c a = do {
     x \<leftarrow> m a;
     if x = 0 then Some False else if c = x then Some True else in_set m c (a + 1) }"

partial_function (option) strspn_loop :: "mem \<Rightarrow> nat \<Rightarrow> nat \<Rightarrow> nat \<Rightarrow> nat option" where
  "strspn_loop m p accept count = do {
     c \<leftarrow> m p;
     if c = 0 then Some count
     else do {
       b \<leftarrow> in_set m c accept;
       if \<not> b then Some count else strspn_loop m (p + 1) accept (count + 1) } }"

definition strspn :: "mem \<Rightarrow> nat \<Rightarrow> nat \<Rightarrow> nat option" where
  "strspn m s accept = strspn_loop m s accept 0"

partial_function (option) strpbrk :: "mem \<Rightarrow> nat \<Rightarrow> nat \<Rightarrow> nat option" where
  "strpbrk m cs ct = do {
     c \<leftarrow> m cs;
     if c = 0 then Some 0
     else do {
       b \<leftarrow> in_set m c ct;
       if b then Some cs else strpbrk m (cs + 1) ct } }"

text \<open>\<open>strtok\<close> also takes and returns the static pointer \<^verbatim>\<open>___strtok\<close>.\<close>

definition strtok :: "mem \<Rightarrow> nat \<Rightarrow> nat \<Rightarrow> nat \<Rightarrow> (mem \<times> nat \<times> nat) option" where
  "strtok m tok s ct =
     (let sbegin = (if s \<noteq> 0 then s else tok) in
      if sbegin = 0 then Some (m, tok, 0)
      else do {
        n \<leftarrow> strspn m sbegin ct;
        let sbegin = sbegin + n;
        c \<leftarrow> m sbegin;
        if c = 0 then Some (m, 0, 0)
        else do {
          send \<leftarrow> strpbrk m sbegin ct;
          if send \<noteq> 0 then do {
            e \<leftarrow> m send;
            if e \<noteq> 0 then do { m' \<leftarrow> wr m send 0; Some (m', send + 1, sbegin) }
            else Some (m, send, sbegin) }
          else Some (m, send, sbegin) } })"

text \<open>\<open>strsep\<close> updates the caller's pointer: it returns the memory, the new pointer, the token.\<close>

definition strsep :: "mem \<Rightarrow> nat \<Rightarrow> nat \<Rightarrow> (mem \<times> nat \<times> nat) option" where
  "strsep m s ct =
     (if s = 0 then Some (m, s, 0)
      else do {
        end \<leftarrow> strpbrk m s ct;
        if end \<noteq> 0 then do { m' \<leftarrow> wr m end 0; Some (m', end + 1, s) }
        else Some (m, 0, s) })"

fun memset :: "mem \<Rightarrow> nat \<Rightarrow> byte \<Rightarrow> nat \<Rightarrow> mem option" where
  "memset m xs c 0 = Some m"
| "memset m xs c (Suc count) = do { m' \<leftarrow> wr m xs c; memset m' (xs + 1) c count }"

fun memcpy_loop :: "mem \<Rightarrow> nat \<Rightarrow> nat \<Rightarrow> nat \<Rightarrow> mem option" where
  "memcpy_loop m tmp s 0 = Some m"
| "memcpy_loop m tmp s (Suc count) = do {
     c \<leftarrow> m s;
     m' \<leftarrow> wr m tmp c;
     memcpy_loop m' (tmp + 1) (s + 1) count }"

definition memcpy :: "mem \<Rightarrow> nat \<Rightarrow> nat \<Rightarrow> nat \<Rightarrow> (mem \<times> nat) option" where
  "memcpy m dest src count = do { m' \<leftarrow> memcpy_loop m dest src count; Some (m', dest) }"

text \<open>The downward loop \<^verbatim>\<open>*--tmp = *--s\<close>, with \<open>tmp = dest + count\<close> and \<open>s = src + count\<close>.\<close>

fun memmove_down :: "mem \<Rightarrow> nat \<Rightarrow> nat \<Rightarrow> nat \<Rightarrow> mem option" where
  "memmove_down m dest src 0 = Some m"
| "memmove_down m dest src (Suc count) = do {
     c \<leftarrow> m (src + count);
     m' \<leftarrow> wr m (dest + count) c;
     memmove_down m' dest src count }"

definition memmove :: "mem \<Rightarrow> nat \<Rightarrow> nat \<Rightarrow> nat \<Rightarrow> (mem \<times> nat) option" where
  "memmove m dest src count =
     (if dest \<le> src then do { m' \<leftarrow> memcpy_loop m dest src count; Some (m', dest) }
      else do { m' \<leftarrow> memmove_down m dest src count; Some (m', dest) })"

fun memcmp_loop :: "mem \<Rightarrow> nat \<Rightarrow> nat \<Rightarrow> nat \<Rightarrow> int option" where
  "memcmp_loop m su1 su2 0 = Some 0"
| "memcmp_loop m su1 su2 (Suc count) = do {
     a \<leftarrow> m su1;
     b \<leftarrow> m su2;
     if uint a - uint b \<noteq> 0 then Some (uint a - uint b)
     else memcmp_loop m (su1 + 1) (su2 + 1) count }"

definition memcmp :: "mem \<Rightarrow> nat \<Rightarrow> nat \<Rightarrow> nat \<Rightarrow> int option" where
  "memcmp m cs ct count = memcmp_loop m cs ct count"

fun memscan :: "mem \<Rightarrow> nat \<Rightarrow> byte \<Rightarrow> nat \<Rightarrow> nat option" where
  "memscan m p c 0 = Some p"
| "memscan m p c (Suc n) = do {
     x \<leftarrow> m p;
     if x = c then Some p else memscan m (p + 1) c n }"

text \<open>The loop of \<open>strstr\<close>, entered with \<open>l2 > 0\<close> only, so \<open>l1\<close> is positive whenever the body runs.\<close>

function strstr_loop :: "mem \<Rightarrow> nat \<Rightarrow> nat \<Rightarrow> nat \<Rightarrow> nat \<Rightarrow> nat option" where
  "strstr_loop m s1 s2 l1 l2 =
     (if l1 < l2 \<or> l1 = 0 then Some 0
      else do {
        r \<leftarrow> memcmp m s1 s2 l2;
        if r = 0 then Some s1 else strstr_loop m (s1 + 1) s2 (l1 - 1) l2 })"
  by pat_completeness auto
termination
  by (relation "measure (\<lambda>(m, s1, s2, l1, l2). l1)") auto

definition strstr :: "mem \<Rightarrow> nat \<Rightarrow> nat \<Rightarrow> nat option" where
  "strstr m s1 s2 = do {
     l2 \<leftarrow> strlen m s2;
     if l2 = 0 then Some s1
     else do { l1 \<leftarrow> strlen m s1; strstr_loop m s1 s2 l1 l2 } }"

fun memchr :: "mem \<Rightarrow> nat \<Rightarrow> byte \<Rightarrow> nat \<Rightarrow> nat option" where
  "memchr m p c 0 = Some 0"
| "memchr m p c (Suc n) = do {
     x \<leftarrow> m p;
     if c = x then Some p else memchr m (p + 1) c n }"

declare strstr_loop.simps [simp del]

section \<open>Strings and areas in memory\<close>

fun cstr :: "mem \<Rightarrow> nat \<Rightarrow> byte list \<Rightarrow> bool" where
  "cstr m p [] = (m p = Some 0)"
| "cstr m p (c # cs) = (m p = Some c \<and> c \<noteq> 0 \<and> cstr m (p + 1) cs)"

fun blk :: "mem \<Rightarrow> nat \<Rightarrow> byte list \<Rightarrow> bool" where
  "blk m p [] = True"
| "blk m p (b # bs) = (m p = Some b \<and> blk m (p + 1) bs)"

definition mapped :: "mem \<Rightarrow> nat \<Rightarrow> nat \<Rightarrow> bool" where
  "mapped m p n \<longleftrightarrow> (\<forall>a\<in>{p..<p + n}. m a \<noteq> None)"

definition upd_blk :: "mem \<Rightarrow> nat \<Rightarrow> byte list \<Rightarrow> mem" where
  "upd_blk m p bs = (\<lambda>a. if p \<le> a \<and> a < p + length bs then Some (bs ! (a - p)) else m a)"

lemma cstr_no_nul: "cstr m p s \<Longrightarrow> 0 \<notin> set s"
  by (induction s arbitrary: p) auto

lemma cstr_blk: "cstr m p s \<longleftrightarrow> blk m p (s @ [0]) \<and> 0 \<notin> set s"
  by (induction s arbitrary: p) auto

lemma blk_nth: "blk m p bs \<longleftrightarrow> (\<forall>i<length bs. m (p + i) = Some (bs ! i))"
proof (induction bs arbitrary: p)
  case (Cons b bs)
  show ?case by (auto simp: Cons.IH nth_Cons split: nat.splits)
qed simp

lemma blk_append: "blk m p (xs @ ys) \<longleftrightarrow> blk m p xs \<and> blk m (p + length xs) ys"
  by (induction xs arbitrary: p) (auto simp: add.commute add.left_commute)

lemma blk_cong: "blk m p bs \<Longrightarrow> (\<And>a. p \<le> a \<Longrightarrow> a < p + length bs \<Longrightarrow> m' a = m a) \<Longrightarrow> blk m' p bs"
  by (auto simp: blk_nth)

lemma blk_upd_other:
  "blk m p bs \<Longrightarrow> q < p \<or> p + length bs \<le> q \<Longrightarrow> blk (m(q := x)) p bs"
  by (auto simp: blk_nth)

lemma blk_upd_blk [simp]: "blk (upd_blk m p bs) p bs"
  by (simp add: blk_nth upd_blk_def)

lemma upd_blk_Nil [simp]: "upd_blk m p [] = m"
  by (rule ext) (auto simp: upd_blk_def)

lemma upd_blk_Cons: "upd_blk m p (b # bs) = upd_blk (m(p := Some b)) (p + 1) bs"
  by (rule ext) (auto simp: upd_blk_def nth_Cons' Suc_diff_le)

lemma upd_blk_snoc: "upd_blk m p (bs @ [b]) = upd_blk (m(p + length bs := Some b)) p bs"
  by (rule ext) (auto simp: upd_blk_def nth_append)

lemma mapped_Suc: "mapped m p (Suc n) \<longleftrightarrow> m p \<noteq> None \<and> mapped m (p + 1) n"
  by (auto simp: mapped_def Ball_def) (metis Suc_leI le_antisym not_less not_Some_eq)

lemma mapped_Suc_top: "mapped m p (Suc n) \<longleftrightarrow> m (p + n) \<noteq> None \<and> mapped m p n"
  by (auto simp: mapped_def less_Suc_eq)

lemma mapped_upd [simp]: "mapped m p n \<Longrightarrow> mapped (m(q := Some b)) p n"
  by (auto simp: mapped_def)

section \<open>Copying\<close>

lemma memcpy_loop_eq:
  assumes "blk m s bs" and "mapped m tmp (length bs)"
    and "tmp \<le> s \<or> s + length bs \<le> tmp"
  shows "memcpy_loop m tmp s (length bs) = Some (upd_blk m tmp bs)"
  using assms
proof (induction bs arbitrary: m tmp s)
  case (Cons b bs)
  let ?m = "m(tmp := Some b)"
  have b: "blk ?m (s + 1) bs"
    using Cons.prems by (intro blk_upd_other) auto
  have w: "mapped ?m (tmp + 1) (length bs)"
    using Cons.prems by (simp add: mapped_Suc)
  have "memcpy_loop ?m (tmp + 1) (s + 1) (length bs) = Some (upd_blk ?m (tmp + 1) bs)"
    by (rule Cons.IH[OF b w]) (use Cons.prems in auto)
  moreover have "m s = Some b" "m tmp \<noteq> None"
    using Cons.prems by (simp_all add: mapped_Suc)
  ultimately show ?case by (simp add: wr_def upd_blk_Cons)
qed simp

lemma memmove_down_eq:
  assumes "blk m src bs" and "mapped m dest (length bs)" and "src \<le> dest"
  shows "memmove_down m dest src (length bs) = Some (upd_blk m dest bs)"
  using assms
proof (induction bs arbitrary: m rule: rev_induct)
  case (snoc b bs)
  let ?m = "m(dest + length bs := Some b)"
  have b: "blk ?m src bs"
    using snoc.prems by (intro blk_upd_other) (auto simp: blk_append)
  have w: "mapped ?m dest (length bs)"
    using snoc.prems by (simp add: mapped_Suc_top)
  have "memmove_down ?m dest src (length bs) = Some (upd_blk ?m dest bs)"
    by (rule snoc.IH[OF b w]) (use snoc.prems in auto)
  moreover have "m (src + length bs) = Some b" "m (dest + length bs) \<noteq> None"
    using snoc.prems by (simp_all add: blk_append mapped_Suc_top)
  ultimately show ?case by (simp add: wr_def upd_blk_snoc)
qed simp

lemma memmove_eq:
  assumes "blk m src bs" and "mapped m dest (length bs)"
  shows "memmove m dest src (length bs) = Some (upd_blk m dest bs, dest)"
  using assms by (cases "dest \<le> src") (simp_all add: memmove_def memcpy_loop_eq memmove_down_eq)

lemma memset_eq: "mapped m xs n \<Longrightarrow> memset m xs c n = Some (upd_blk m xs (replicate n c))"
  by (induction n arbitrary: m xs) (auto simp: wr_def mapped_Suc upd_blk_Cons)

lemma strcpy_loop_eq:
  assumes "cstr m src s" and "mapped m dest (length s + 1)"
    and "dest + length s < src \<or> src + length s < dest"
  shows "strcpy_loop m dest src = Some (upd_blk m dest (s @ [0]))"
  using assms
proof (induction s arbitrary: m dest src)
  case Nil
  then show ?case
    by (subst strcpy_loop.simps) (auto simp: wr_def mapped_Suc upd_blk_Cons)
next
  case (Cons c s)
  let ?m = "m(dest := Some c)"
  have "blk ?m (src + 1) (s @ [0])"
    using Cons.prems by (intro blk_upd_other) (auto simp: cstr_blk)
  then have b: "cstr ?m (src + 1) s"
    using Cons.prems by (auto simp: cstr_blk)
  have w: "mapped ?m (dest + 1) (length s + 1)"
    using Cons.prems by (simp add: mapped_Suc)
  have "strcpy_loop ?m (dest + 1) (src + 1) = Some (upd_blk ?m (dest + 1) (s @ [0]))"
    by (rule Cons.IH[OF b w]) (use Cons.prems in auto)
  moreover have "m src = Some c" "c \<noteq> 0" "m dest \<noteq> None"
    using Cons.prems by (simp_all add: mapped_Suc)
  ultimately show ?case by (subst strcpy_loop.simps) (simp add: wr_def upd_blk_Cons)
qed

section \<open>Lengths and comparisons\<close>

lemma scan_nul_eq: "cstr m p s \<Longrightarrow> scan_nul m p = Some (p + length s)"
  by (induction s arbitrary: p) (subst scan_nul.simps, simp)+

lemma strlen_eq [simp]: "cstr m p s \<Longrightarrow> strlen m p = Some (length s)"
  by (simp add: strlen_def scan_nul_eq)

fun strcmp_s :: "byte list \<Rightarrow> byte list \<Rightarrow> int" where
  "strcmp_s [] [] = 0"
| "strcmp_s [] (b # bs) = sint (- b)"
| "strcmp_s (a # as) [] = sint a"
| "strcmp_s (a # as) (b # bs) = (if a \<noteq> b then sint (a - b) else strcmp_s as bs)"

lemma strcmp_eq: "cstr m p a \<Longrightarrow> cstr m q b \<Longrightarrow> strcmp m p q = Some (strcmp_s a b)"
proof (induction a b arbitrary: p q rule: strcmp_s.induct)
  case (4 a as b bs)
  then show ?case by (subst strcmp.simps) auto
qed (subst strcmp.simps, simp)+

lemma sint_eq_0 [simp]: "sint (w :: 'w::len word) = 0 \<longleftrightarrow> w = 0"
  by (rule signed_eq_0_iff)

lemma strcmp_s_zero: "0 \<notin> set a \<Longrightarrow> 0 \<notin> set b \<Longrightarrow> strcmp_s a b = 0 \<longleftrightarrow> a = b"
  by (induction a b rule: strcmp_s.induct) auto

definition strncmp_s :: "byte list \<Rightarrow> byte list \<Rightarrow> nat \<Rightarrow> int" where
  "strncmp_s a b n = strcmp_s (take n a) (take n b)"

lemma strncmp_loop_eq:
  "cstr m p a \<Longrightarrow> cstr m q b \<Longrightarrow> strncmp_loop m p q n 0 = Some (strncmp_s a b n)"
proof (induction n arbitrary: p q a b)
  case (Suc n)
  then show ?case by (cases a; cases b) (auto simp: strncmp_s_def)
qed (simp add: strncmp_s_def)

lemma strncmp_eq: "cstr m p a \<Longrightarrow> cstr m q b \<Longrightarrow> strncmp m p q n = Some (strncmp_s a b n)"
  by (simp add: strncmp_def strncmp_loop_eq)

lemma strncmp_s_zero:
  "0 \<notin> set a \<Longrightarrow> 0 \<notin> set b \<Longrightarrow> strncmp_s a b n = 0 \<longleftrightarrow> take n a = take n b"
  unfolding strncmp_s_def by (rule strcmp_s_zero) (meson in_set_takeD)+

fun memcmp_s :: "byte list \<Rightarrow> byte list \<Rightarrow> int" where
  "memcmp_s (a # as) (b # bs) = (if a \<noteq> b then uint a - uint b else memcmp_s as bs)"
| "memcmp_s _ _ = 0"

lemma memcmp_eq:
  "blk m p a \<Longrightarrow> blk m q b \<Longrightarrow> length a = length b \<Longrightarrow> memcmp m p q (length a) = Some (memcmp_s a b)"
  unfolding memcmp_def
  by (induction a b arbitrary: p q rule: memcmp_s.induct) (auto simp: word_uint_eq_iff)

lemma memcmp_s_zero: "length a = length b \<Longrightarrow> memcmp_s a b = 0 \<longleftrightarrow> a = b"
  by (induction a b rule: memcmp_s.induct) (auto simp: word_uint_eq_iff)

section \<open>Searching and splitting\<close>

lemma cstr_append: "cstr m p (xs @ ys) \<Longrightarrow> cstr m (p + length xs) ys"
proof (induction xs arbitrary: p)
  case (Cons x xs)
  from Cons.IH[of "p + 1"] Cons.prems show ?case by simp
qed simp

lemma in_set_eq: "cstr m a d \<Longrightarrow> c \<noteq> 0 \<Longrightarrow> in_set m c a = Some (c \<in> set d)"
  by (induction d arbitrary: a) (subst in_set.simps, simp)+

lemma strspn_loop_eq:
  "cstr m p s \<Longrightarrow> cstr m a d \<Longrightarrow>
   strspn_loop m p a k = Some (k + length (takeWhile (\<lambda>c. c \<in> set d) s))"
  by (induction s arbitrary: p k) (subst strspn_loop.simps, simp add: in_set_eq)+

lemma strspn_eq:
  "cstr m p s \<Longrightarrow> cstr m a d \<Longrightarrow> strspn m p a = Some (length (takeWhile (\<lambda>c. c \<in> set d) s))"
  by (simp add: strspn_def strspn_loop_eq)

lemma strpbrk_eq:
  "cstr m p s \<Longrightarrow> cstr m a d \<Longrightarrow>
   strpbrk m p a = Some (if \<forall>c\<in>set s. c \<notin> set d then 0
                         else p + length (takeWhile (\<lambda>c. c \<notin> set d) s))"
  by (induction s arbitrary: p) (subst strpbrk.simps, simp add: in_set_eq)+

lemma strchr_eq:
  "cstr m p s \<Longrightarrow> c \<noteq> 0 \<Longrightarrow>
   strchr m p c = Some (if c \<in> set s then p + length (takeWhile (\<lambda>x. x \<noteq> c) s) else 0)"
  by (induction s arbitrary: p) (subst strchr.simps, simp)+

text \<open>One call of \<open>strtok\<close> on lists: skip delimiters, take the token, drop the delimiter after it.\<close>

definition next_tok :: "byte list \<Rightarrow> byte list \<Rightarrow> (byte list \<times> byte list) option" where
  "next_tok d s =
     (let r = dropWhile (\<lambda>c. c \<in> set d) s in
      if r = [] then None
      else Some (takeWhile (\<lambda>c. c \<notin> set d) r, drop 1 (dropWhile (\<lambda>c. c \<notin> set d) r)))"

lemma cstr_split:
  assumes "cstr m p (t @ c # u)"
  shows "cstr (m(p + length t := Some 0)) p t"
    and "cstr (m(p + length t := Some 0)) (p + length t + 1) u"
proof -
  have b: "blk m p (t @ (c # (u @ [0])))" and n: "0 \<notin> set t" "0 \<notin> set u"
    using assms by (auto simp: cstr_blk)
  from b have "blk m p t" "blk m (p + length t + 1) (u @ [0])" by (simp_all add: blk_append)
  then have "blk (m(p + length t := Some 0)) p t"
    and "blk (m(p + length t := Some 0)) (p + length t + 1) (u @ [0])"
    by (auto intro: blk_upd_other)
  with n show "cstr (m(p + length t := Some 0)) p t"
    and "cstr (m(p + length t := Some 0)) (p + length t + 1) u"
    by (simp_all add: cstr_blk blk_append)
qed

lemma strtok_eq:
  assumes s: "cstr m p s" and d: "cstr m ct d" and p: "p \<noteq> 0"
    and sep: "ct + length d < p \<or> p + length s < ct"
  shows "case next_tok d s of
      None \<Rightarrow> strtok m tok p ct = Some (m, 0, 0)
    | Some (t, u) \<Rightarrow> \<exists>m' tok' q. strtok m tok p ct = Some (m', tok', q) \<and> q \<noteq> 0 \<and> cstr m' q t
        \<and> cstr m' ct d \<and> (tok' = 0 \<and> u = [] \<or> tok' \<noteq> 0 \<and> cstr m' tok' u)"
proof -
  let ?in = "\<lambda>c. c \<in> set d" and ?out = "\<lambda>c. c \<notin> set d"
  define k where "k = length (takeWhile ?in s)"
  define r where "r = dropWhile ?in s"
  have sr: "s = takeWhile ?in s @ r" by (simp add: r_def)
  have cr: "cstr m (p + k) r" using s cstr_append[of m p "takeWhile ?in s" r] sr by (simp add: k_def)
  show ?thesis
  proof (cases r)
    case Nil
    with cr have "m (p + k) = Some 0" by simp
    with Nil show ?thesis using p strspn_eq[OF s d]
      by (simp add: next_tok_def r_def[symmetric] strtok_def k_def[symmetric] Let_def)
  next
    case (Cons c r')
    with cr have c: "m (p + k) = Some c" "c \<noteq> 0" by auto
    show ?thesis
    proof (cases "\<forall>c\<in>set r. ?out c")
      case True
      then have "strtok m tok p ct = Some (m, 0, p + k)"
        using c p strspn_eq[OF s d] strpbrk_eq[OF cr d] by (simp add: strtok_def k_def)
      moreover have "takeWhile ?out r = r" "dropWhile ?out r = []" using True by auto
      ultimately show ?thesis using cr d p Cons
        by (auto simp: next_tok_def r_def[symmetric])
    next
      case False
      then have ne: "dropWhile ?out r \<noteq> []" by (simp add: dropWhile_eq_Nil_conv)
      then obtain e u where eu: "dropWhile ?out r = e # u" by (cases "dropWhile ?out r") auto
      define t where "t = takeWhile ?out r"
      have rt: "r = t @ e # u" unfolding t_def eu[symmetric] by simp
      define q where "q = p + k + length t"
      have qe: "cstr m q (e # u)" using cstr_append[of m "p + k" t "e # u"] cr rt by (simp add: q_def)
      let ?m = "m(q := Some 0)"
      have "strtok m tok p ct = Some (?m, q + 1, p + k)"
        using c p strspn_eq[OF s d] strpbrk_eq[OF cr d] False qe
        by (simp add: strtok_def k_def t_def[symmetric] q_def wr_def Let_def)
      moreover have "cstr ?m (p + k) t" "cstr ?m (q + 1) u"
        using cstr_split[of m "p + k" t e u] cr rt by (simp_all add: q_def)
      moreover have "cstr ?m ct d"
      proof -
        have "length s = k + length t + 1 + length u"
          using arg_cong[OF sr, of length] rt by (simp add: k_def)
        then have "q < ct \<or> ct + length (d @ [0]) \<le> q" using sep by (auto simp: q_def)
        then show ?thesis using d by (auto simp: cstr_blk intro: blk_upd_other)
      qed
      moreover have "next_tok d s = Some (t, u)"
      proof -
        have "r \<noteq> []" by (simp add: rt)
        then show ?thesis by (simp add: next_tok_def r_def[symmetric] t_def[symmetric] eu Let_def)
      qed
      ultimately show ?thesis using p by fastforce
    qed
  qed
qed

section \<open>Copying and swapping whole strings\<close>

text \<open>\<^verbatim>\<open>bcopy\<close> with a count that is not negative.\<close>

definition bcopy :: "mem \<Rightarrow> nat \<Rightarrow> nat \<Rightarrow> nat \<Rightarrow> (mem \<times> nat) option" where
  "bcopy m src dest count = do { m' \<leftarrow> memcpy_loop m dest src count; Some (m', dest) }"

text \<open>The allocator is an argument: the memory with the new object, and its address or \<^verbatim>\<open>NULL\<close>.\<close>

definition strdup :: "(mem \<Rightarrow> nat \<Rightarrow> mem \<times> nat) \<Rightarrow> mem \<Rightarrow> nat \<Rightarrow> (mem \<times> nat) option" where
  "strdup malloc m s =
     (if s = 0 then Some (m, 0)
      else do {
        n \<leftarrow> strlen m s;
        let (m, new) = malloc m (n + 1);
        if new = 0 then Some (m, 0)
        else do { (m, _) \<leftarrow> strcpy m new s; Some (m, new) } })"

partial_function (option) strswab_loop :: "mem \<Rightarrow> nat \<Rightarrow> mem option" where
  "strswab_loop m p = do {
     a \<leftarrow> m p;
     if a = 0 then Some m
     else do {
       b \<leftarrow> m (p + 1);
       if b = 0 then Some m
       else do {
         m \<leftarrow> wr m p b;
         m \<leftarrow> wr m (p + 1) a;
         strswab_loop m (p + 2) } } }"

definition strswab :: "mem \<Rightarrow> nat \<Rightarrow> (mem \<times> nat) option" where
  "strswab m s =
     (if s = 0 then Some (m, 0)
      else do {
        c \<leftarrow> m s;
        if c = 0 then Some (m, 0) else do { m \<leftarrow> strswab_loop m s; Some (m, s) } })"

fun swap_pairs :: "byte list \<Rightarrow> byte list" where
  "swap_pairs (a # b # cs) = b # a # swap_pairs cs"
| "swap_pairs cs = cs"

lemma set_swap_pairs [simp]: "set (swap_pairs s) = set s"
  by (induction s rule: swap_pairs.induct) auto

lemma swap_pairs_twice: "swap_pairs (swap_pairs s) = s"
  by (induction s rule: swap_pairs.induct) auto

lemma strswab_loop_eq:
  "cstr m p s \<Longrightarrow> \<exists>m'. strswab_loop m p = Some m' \<and> cstr m' p (swap_pairs s) \<and> (\<forall>a. a < p \<or> p + length s \<le> a \<longrightarrow> m' a = m a)"
proof (induction s arbitrary: m p rule: swap_pairs.induct)
  case (1 a b cs)
  let ?m = "m(p := Some b, p + 1 := Some a)"
  have m: "m p = Some a" "m (p + 1) = Some b" "a \<noteq> 0" "b \<noteq> 0" "cstr m (p + 2) cs" using 1(2) by auto
  have "cstr ?m (p + 2) cs" using m(5) by (auto simp: cstr_blk intro!: blk_upd_other)
  then obtain m' where m': "strswab_loop ?m (p + 2) = Some m'" "cstr m' (p + 2) (swap_pairs cs)"
      "\<forall>a. a < p + 2 \<or> p + 2 + length cs \<le> a \<longrightarrow> m' a = ?m a"
    using 1(1) by blast
  have "strswab_loop m p = Some m'" using m m'(1) by (subst strswab_loop.simps) (simp add: wr_def)
  then show ?case using m m'(2,3) by auto
qed (subst strswab_loop.simps, auto)+

lemma strswab_eq:
  assumes "cstr m p s" and "p \<noteq> 0" and "s \<noteq> []"
  shows "\<exists>m'. strswab m p = Some (m', p) \<and> cstr m' p (swap_pairs s)"
  using strswab_loop_eq[OF assms(1)] assms by (cases s) (auto simp: strswab_def)

lemma bcopy_eq:
  assumes "blk m s bs" and "mapped m dest (length bs)" and "dest \<le> s \<or> s + length bs \<le> dest"
  shows "bcopy m s dest (length bs) = Some (upd_blk m dest bs, dest)"
  using memcpy_loop_eq[OF assms] by (simp add: bcopy_def)

lemma strdup_eq:
  assumes "cstr m p s" and "p \<noteq> 0" and "malloc m (length s + 1) = (m1, new)" "new \<noteq> 0"
    and "mapped m1 new (length s + 1)" "cstr m1 p s" "new + length s < p \<or> p + length s < new"
  shows "strdup malloc m p = Some (upd_blk m1 new (s @ [0]), new)"
  using assms(2-4) strlen_eq[OF assms(1)] strcpy_loop_eq[OF assms(6,5,7)] by (simp add: strdup_def strcpy_def)

end
