(* ===== verification/Vsprintf.thy ===== *)
theory Vsprintf
  imports CString
begin

text \<open>
  Number parsing and formatted output: \<^verbatim>\<open>lib_generic/ctype.c\<close>, \<^verbatim>\<open>lib_generic/vsprintf.c\<close> and the
  character macros of \<^verbatim>\<open>include/linux/ctype.h\<close>.

  A string argument is its list of bytes; reading at its end gives the terminator
  (\<open>chr0\<close>). \<open>number\<close> and \<open>vsprintf\<close> return the bytes they append to the output buffer.
  The variable arguments of \<open>vsprintf\<close> are a list of \<open>va\<close> values; taking an argument of the
  wrong kind, or one that is not there, has no behaviour. \<^verbatim>\<open>CFG_64BIT_VSPRINTF\<close> and
  \<^verbatim>\<open>CFG_64BIT_STRTOUL\<close> are not set for this board: numbers have 32 bits.
\<close>

section \<open>Character classes\<close>

definition C_U :: byte where "C_U = 0x01"
definition C_L :: byte where "C_L = 0x02"
definition C_D :: byte where "C_D = 0x04"
definition C_C :: byte where "C_C = 0x08"
definition C_P :: byte where "C_P = 0x10"
definition C_S :: byte where "C_S = 0x20"
definition C_X :: byte where "C_X = 0x40"
definition C_SP :: byte where "C_SP = 0x80"

lemmas ctype_bits = C_U_def C_L_def C_D_def C_C_def C_P_def C_S_def C_X_def C_SP_def

definition ctype_table :: "byte list" where
  "ctype_table =
     replicate 8 C_C @
     [C_C, C_C OR C_S, C_C OR C_S, C_C OR C_S, C_C OR C_S, C_C OR C_S, C_C, C_C] @
     replicate 16 C_C @
     [C_S OR C_SP] @ replicate 15 C_P @
     replicate 10 C_D @ replicate 6 C_P @
     [C_P] @ replicate 6 (C_U OR C_X) @ replicate 20 C_U @ replicate 5 C_P @
     [C_P] @ replicate 6 (C_L OR C_X) @ replicate 20 C_L @ replicate 4 C_P @ [C_C] @
     replicate 32 0 @
     [C_S OR C_SP] @ replicate 31 C_P @
     replicate 23 C_U @ [C_P] @ replicate 7 C_U @ [C_L] @
     replicate 23 C_L @ [C_P] @ replicate 8 C_L"

definition ismask :: "byte \<Rightarrow> byte" where
  "ismask x = ctype_table ! unat x"

definition isdigit :: "byte \<Rightarrow> bool" where "isdigit c \<longleftrightarrow> ismask c AND C_D \<noteq> 0"
definition isxdigit :: "byte \<Rightarrow> bool" where "isxdigit c \<longleftrightarrow> ismask c AND (C_D OR C_X) \<noteq> 0"
definition islower :: "byte \<Rightarrow> bool" where "islower c \<longleftrightarrow> ismask c AND C_L \<noteq> 0"
definition isupper :: "byte \<Rightarrow> bool" where "isupper c \<longleftrightarrow> ismask c AND C_U \<noteq> 0"
definition isspace :: "byte \<Rightarrow> bool" where "isspace c \<longleftrightarrow> ismask c AND C_S \<noteq> 0"

definition toupper :: "byte \<Rightarrow> byte" where
  "toupper c = (if islower c then c - (0x61 - 0x41) else c)"

definition tolower :: "byte \<Rightarrow> byte" where
  "tolower c = (if isupper c then c - (0x41 - 0x61) else c)"

section \<open>Parsing numbers\<close>

fun chr0 :: "byte list \<Rightarrow> byte" where
  "chr0 [] = 0"
| "chr0 (c # _) = c"

definition digit_value :: "byte \<Rightarrow> u32" where
  "digit_value c =
     (if isdigit c then ucast c - 0x30
      else ucast (if islower c then toupper c else c) - 0x41 + 10)"

fun strtoul_digits :: "u32 \<Rightarrow> u32 \<Rightarrow> byte list \<Rightarrow> u32 \<times> byte list" where
  "strtoul_digits base result [] = (result, [])"
| "strtoul_digits base result (c # cp) =
     (if isxdigit c \<and> digit_value c < base
      then strtoul_digits base (result * base + digit_value c) cp
      else (result, c # cp))"

definition simple_strtoul :: "byte list \<Rightarrow> u32 \<Rightarrow> u32 \<times> byte list" where
  "simple_strtoul cp base =
     (let (cp, base) =
        (if chr0 cp = 0x30
         then let cp = tl cp;
                  (cp, base) = (if chr0 cp = 0x78 \<and> isxdigit (chr0 (tl cp)) then (tl cp, 16) else (cp, base))
              in (cp, if base = 0 then 8 else base)
         else (cp, base));
        base = (if base = 0 then 10 else base)
      in strtoul_digits base 0 cp)"

definition simple_strtol :: "byte list \<Rightarrow> u32 \<Rightarrow> u32 \<times> byte list" where
  "simple_strtol cp base =
     (if chr0 cp = 0x2d
      then (let (r, e) = simple_strtoul (tl cp) base in (- r, e))
      else simple_strtoul cp base)"

section \<open>Printing numbers\<close>

definition is_digit :: "byte \<Rightarrow> bool" where
  "is_digit c \<longleftrightarrow> 0x30 \<le> c \<and> c \<le> 0x39"

fun skip_atoi_loop :: "int \<Rightarrow> byte list \<Rightarrow> int \<times> byte list" where
  "skip_atoi_loop i [] = (i, [])"
| "skip_atoi_loop i (c # s) =
     (if is_digit c then skip_atoi_loop (i * 10 + uint c - 0x30) s else (i, c # s))"

definition skip_atoi :: "byte list \<Rightarrow> int \<times> byte list" where
  "skip_atoi s = skip_atoi_loop 0 s"

record fmt_flags =
  ZEROPAD :: bool
  SIGN :: bool
  PLUS :: bool
  SPACE :: bool
  LEFT :: bool
  SPECIAL :: bool
  LARGE :: bool

definition no_flags :: fmt_flags where
  "no_flags = \<lparr>ZEROPAD = False, SIGN = False, PLUS = False, SPACE = False, LEFT = False,
     SPECIAL = False, LARGE = False\<rparr>"

definition digits :: "bool \<Rightarrow> byte list" where
  "digits large = bytes (if large then ''0123456789ABCDEFGHIJKLMNOPQRSTUVWXYZ''
                         else ''0123456789abcdefghijklmnopqrstuvwxyz'')"

text \<open>The digit loop: \<open>tmp\<close> holds the digits, least significant first.\<close>

function number_digits :: "byte list \<Rightarrow> nat \<Rightarrow> nat \<Rightarrow> byte list" where
  "number_digits ds base num =
     (if num = 0 \<or> base < 2 then [] else ds ! (num mod base) # number_digits ds base (num div base))"
  by pat_completeness auto
termination
  by (relation "measure (\<lambda>(ds, base, num). num)") auto

declare number_digits.simps [simp del]

definition number :: "u32 \<Rightarrow> nat \<Rightarrow> int \<Rightarrow> int \<Rightarrow> fmt_flags \<Rightarrow> byte list option" where
  "number num base sz precision ty =
     (if base < 2 \<or> 36 < base then None
      else
        (let ds = digits (LARGE ty);
             zeropad = ZEROPAD ty \<and> \<not> LEFT ty;
             c = (if zeropad then 0x30 else 0x20);
             neg = SIGN ty \<and> sint num < 0;
             sign = (if neg then 0x2d
                     else if SIGN ty \<and> PLUS ty then 0x2b
                     else if SIGN ty \<and> SPACE ty then 0x20 else (0::byte));
             num = (if neg then - num else num);
             sz = (if sign \<noteq> 0 then sz - 1 else sz);
             sz = (if SPECIAL ty then (if base = 16 then sz - 2 else if base = 8 then sz - 1 else sz)
                     else sz);
             tmp = (if num = 0 then [0x30] else number_digits ds base (unat num));
             precision = (if int (length tmp) > precision then int (length tmp) else precision);
             sz = sz - precision;
             pad1 = (if \<not> zeropad \<and> \<not> LEFT ty then nat sz else 0);
             sz = (if \<not> zeropad \<and> \<not> LEFT ty then -1 else sz);
             pad2 = (if \<not> LEFT ty then nat sz else 0);
             sz = (if \<not> LEFT ty then -1 else sz)
         in Some (replicate pad1 0x20
              @ (if sign \<noteq> 0 then [sign] else [])
              @ (if SPECIAL ty then (if base = 8 then [0x30] else if base = 16 then [0x30, ds ! 33] else []) else [])
              @ replicate pad2 c
              @ replicate (nat precision - length tmp) 0x30
              @ rev tmp
              @ replicate (nat sz) 0x20)))"

text \<open>In \<open>number\<close>, a \<^verbatim>\<open>while (size-- > 0)\<close> loop leaves a negative \<open>size\<close>, written -1 above: the later
  loops on it do not run.\<close>

datatype va = VInt u32 | VStr "byte list option" | VIntPtr

fun get_flags :: "fmt_flags \<Rightarrow> byte list \<Rightarrow> fmt_flags \<times> byte list" where
  "get_flags fl [] = (fl, [])"
| "get_flags fl (c # fmt) =
     (if c = 0x2d then get_flags (fl\<lparr>LEFT := True\<rparr>) fmt
      else if c = 0x2b then get_flags (fl\<lparr>PLUS := True\<rparr>) fmt
      else if c = 0x20 then get_flags (fl\<lparr>SPACE := True\<rparr>) fmt
      else if c = 0x23 then get_flags (fl\<lparr>SPECIAL := True\<rparr>) fmt
      else if c = 0x30 then get_flags (fl\<lparr>ZEROPAD := True\<rparr>) fmt
      else (fl, c # fmt))"

fun take_int :: "va list \<Rightarrow> (u32 \<times> va list) option" where
  "take_int (VInt i # as) = Some (i, as)"
| "take_int _ = None"

definition get_width ::
  "fmt_flags \<Rightarrow> byte list \<Rightarrow> va list \<Rightarrow> (int \<times> fmt_flags \<times> byte list \<times> va list) option" where
  "get_width fl fmt as =
     (if is_digit (chr0 fmt) then (let (w, fmt) = skip_atoi fmt in Some (w, fl, fmt, as))
      else if chr0 fmt = 0x2a then do {
        (i, as) \<leftarrow> take_int as;
        Some (if sint i < 0 then (- sint i, fl\<lparr>LEFT := True\<rparr>, tl fmt, as) else (sint i, fl, tl fmt, as)) }
      else Some (-1, fl, fmt, as))"

definition get_precision :: "byte list \<Rightarrow> va list \<Rightarrow> (int \<times> byte list \<times> va list) option" where
  "get_precision fmt as =
     (if chr0 fmt = 0x2e then
        (let fmt = tl fmt in
         if is_digit (chr0 fmt)
         then (let (p, fmt) = skip_atoi fmt in Some (if p < 0 then 0 else p, fmt, as))
         else if chr0 fmt = 0x2a then do {
           (i, as) \<leftarrow> take_int as;
           Some (if sint i < 0 then 0 else sint i, tl fmt, as) }
         else Some (0, fmt, as))
      else Some (-1, fmt, as))"

definition get_qualifier :: "byte list \<Rightarrow> byte \<times> byte list" where
  "get_qualifier fmt =
     (if chr0 fmt = 0x68 \<or> chr0 fmt = 0x6c \<or> chr0 fmt = 0x71 then (chr0 fmt, tl fmt) else (0, fmt))"

text \<open>The number conversions, after the second \<^verbatim>\<open>switch (*fmt)\<close> has set \<open>base\<close> and the flags.\<close>

definition fmt_number :: "byte \<Rightarrow> nat \<Rightarrow> int \<Rightarrow> int \<Rightarrow> fmt_flags \<Rightarrow> va list \<Rightarrow> (byte list \<times> va list) option" where
  "fmt_number qual base width prec fl as = do {
     (i, as) \<leftarrow> take_int as;
     let num = (if qual = 0x6c then i
                else if qual = 0x68
                then (let h = ucast i :: u16 in if SIGN fl then scast h else ucast h)
                else i);
     o' \<leftarrow> number num base width prec fl;
     Some (o', as) }"

text \<open>One conversion, from behind the \<^verbatim>\<open>%\<close>: output, the value stored by \<^verbatim>\<open>%n\<close> if any, rest of the
  format, remaining arguments. \<open>pos\<close> is \<^verbatim>\<open>str - buf\<close>.\<close>

definition conv ::
  "nat \<Rightarrow> byte list \<Rightarrow> va list \<Rightarrow> (byte list \<times> nat list \<times> byte list \<times> va list) option" where
  "conv pos fmt as =
     (let (fl, fmt) = get_flags no_flags fmt in do {
      (width, fl, fmt, as) \<leftarrow> get_width fl fmt as;
      (prec, fmt, as) \<leftarrow> get_precision fmt as;
      let (qual, fmt) = get_qualifier fmt;
      let c = chr0 fmt;
      let rest = tl fmt;
      if c = 0x63 then do {
        (i, as) \<leftarrow> take_int as;
        Some (if LEFT fl then [ucast i] @ replicate (nat (width - 1)) 0x20
              else replicate (nat (width - 1)) 0x20 @ [ucast i], [], rest, as) }
      else if c = 0x73 then
        (case as of
           VStr so # as \<Rightarrow>
             (let s = (case so of None \<Rightarrow> bytes ''<NULL>'' | Some s \<Rightarrow> s);
                  s = (if prec < 0 then s else take (nat prec) s);
                  pad = replicate (nat (width - int (length s))) 0x20
              in Some (if LEFT fl then s @ pad else pad @ s, [], rest, as))
         | _ \<Rightarrow> None)
      else if c = 0x70 then do {
        (i, as) \<leftarrow> take_int as;
        o' \<leftarrow> (if width = -1 then number i 16 8 prec (fl\<lparr>ZEROPAD := True\<rparr>) else number i 16 width prec fl);
        Some (o', [], rest, as) }
      else if c = 0x6e then
        (case as of VIntPtr # as \<Rightarrow> Some ([], [pos], rest, as) | _ \<Rightarrow> None)
      else if c = 0x25 then Some ([0x25], [], rest, as)
      else if c = 0x6f then do { (o', as) \<leftarrow> fmt_number qual 8 width prec fl as; Some (o', [], rest, as) }
      else if c = 0x58 then do { (o', as) \<leftarrow> fmt_number qual 16 width prec (fl\<lparr>LARGE := True\<rparr>) as; Some (o', [], rest, as) }
      else if c = 0x78 then do { (o', as) \<leftarrow> fmt_number qual 16 width prec fl as; Some (o', [], rest, as) }
      else if c = 0x64 \<or> c = 0x69 then do { (o', as) \<leftarrow> fmt_number qual 10 width prec (fl\<lparr>SIGN := True\<rparr>) as; Some (o', [], rest, as) }
      else if c = 0x75 then do { (o', as) \<leftarrow> fmt_number qual 10 width prec fl as; Some (o', [], rest, as) }
      else if fmt = [] then Some ([0x25], [], [], as)
      else Some ([0x25, c], [], rest, as) })"

lemma get_flags_length: "get_flags fl fmt = (fl', rest) \<Longrightarrow> length rest \<le> length fmt"
  by (induction fl fmt rule: get_flags.induct) (auto split: if_splits)

lemma skip_atoi_loop_length: "skip_atoi_loop i s = (r, rest) \<Longrightarrow> length rest \<le> length s"
  by (induction i s rule: skip_atoi_loop.induct) (auto split: if_splits)

lemma get_width_length: "get_width fl fmt as = Some (w, fl', rest, as') \<Longrightarrow> length rest \<le> length fmt"
  by (auto simp: get_width_def skip_atoi_def opt_bind split: if_splits prod.splits dest: skip_atoi_loop_length)

lemma get_precision_length: "get_precision fmt as = Some (w, rest, as') \<Longrightarrow> length rest \<le> length fmt"
  by (fastforce simp: get_precision_def skip_atoi_def Let_def opt_bind split: if_splits prod.splits dest: skip_atoi_loop_length)

lemma get_qualifier_length: "get_qualifier fmt = (q, rest) \<Longrightarrow> length rest \<le> length fmt"
  by (auto simp: get_qualifier_def split: if_splits)

lemma conv_length:
  assumes "conv pos fmt as = Some (out, ws, rest, as')"
  shows "length rest \<le> length fmt"
proof -
  obtain fl f1 where 1: "get_flags no_flags fmt = (fl, f1)" by (cases "get_flags no_flags fmt")
  from assms 1 obtain w fl2 f2 a2 where 2: "get_width fl f1 as = Some (w, fl2, f2, a2)"
    by (auto simp: conv_def opt_bind)
  from assms 1 2 obtain pr f3 a3 where 3: "get_precision f2 a2 = Some (pr, f3, a3)"
    by (auto simp: conv_def opt_bind)
  obtain q f4 where 4: "get_qualifier f3 = (q, f4)" by (cases "get_qualifier f3")
  have "rest = tl f4 \<or> rest = []"
    using assms 1 2 3 4 by (auto simp: conv_def opt_bind Let_def split: if_splits list.splits va.splits prod.splits)
  moreover have "length f4 \<le> length fmt"
    using get_flags_length[OF 1] get_width_length[OF 2] get_precision_length[OF 3] get_qualifier_length[OF 4]
    by linarith
  ultimately show ?thesis by auto
qed

function vsprintf_loop ::
  "byte list \<Rightarrow> nat list \<Rightarrow> byte list \<Rightarrow> va list \<Rightarrow> (byte list \<times> nat list) option" where
  "vsprintf_loop out ws [] as = Some (out, ws)"
| "vsprintf_loop out ws (c # fmt) as =
     (if c \<noteq> 0x25 then vsprintf_loop (out @ [c]) ws fmt as
      else (case conv (length out) fmt as of
              None \<Rightarrow> None
            | Some (o', w, rest, as') \<Rightarrow> vsprintf_loop (out @ o') (ws @ w) rest as'))"
  by pat_completeness auto
termination
  by (relation "measure (\<lambda>(out, ws, fmt, as). length fmt)") (auto dest: conv_length)

text \<open>\<open>vsprintf\<close> returns what it stores in \<open>buf\<close> (without the terminator it adds) and the values
  stored through \<^verbatim>\<open>%n\<close>; its C result is the length. \<open>sprintf\<close> is the same call.\<close>

definition vsprintf :: "byte list \<Rightarrow> va list \<Rightarrow> (byte list \<times> nat list) option" where
  "vsprintf fmt as = vsprintf_loop [] [] fmt as"

definition sprintf :: "string \<Rightarrow> va list \<Rightarrow> byte list option" where
  "sprintf fmt as = map_option fst (vsprintf (bytes fmt) as)"

section \<open>Printing a number and reading it back\<close>

lemma all_bytes:
  assumes "list_all P (map of_nat [0..<256])"
  shows "P (c :: byte)"
proof -
  have "unat c < 256" using unsigned_less[of c] by simp
  then have "P (of_nat (unat c))" using assms unfolding list_all_iff by force
  then show ?thesis by simp
qed

lemma isxdigit_iff [simp]:
  "isxdigit c \<longleftrightarrow> 0x30 \<le> c \<and> c \<le> 0x39 \<or> 0x41 \<le> c \<and> c \<le> 0x46 \<or> 0x61 \<le> c \<and> c \<le> 0x66"
  by (rule all_bytes) code_simp

lemma digits_xdigit:
  assumes "d < 16"
  shows "isxdigit (digits l ! d)" and "digit_value (digits l ! d) = of_nat d"
proof -
  have "\<forall>l. \<forall>d\<in>set [0..<16]. isxdigit (digits l ! d) \<and> digit_value (digits l ! d) = of_nat d"
    by code_simp
  with assms show "isxdigit (digits l ! d)" and "digit_value (digits l ! d) = of_nat d" by auto
qed

lemma strtoul_digits_number:
  assumes "2 \<le> b" and "b \<le> 16"
  shows "strtoul_digits (of_nat b) r (rev (number_digits (digits l) b n) @ rest)
    = strtoul_digits (of_nat b) (r * of_nat b ^ length (number_digits (digits l) b n) + of_nat n) rest"
proof (induction n arbitrary: rest rule: less_induct)
  case (less n)
  show ?case
  proof (cases "n = 0")
    case True
    then show ?thesis by (simp add: number_digits.simps)
  next
    case False
    let ?ds = "number_digits (digits l) b (n div b)" and ?d = "digits l ! (n mod b)"
    have nd: "number_digits (digits l) b n = ?d # ?ds"
      using False assms by (subst number_digits.simps) simp
    have m: "n mod b < b" "n mod b < 16" using assms mod_less_divisor[of b n] by linarith+
    have lt: "(of_nat (n mod b) :: u32) < of_nat b"
      using assms m by (simp add: word_less_nat_alt unat_of_nat)
    have "strtoul_digits (of_nat b) r (rev ?ds @ ?d # rest)
       = strtoul_digits (of_nat b) (r * of_nat b ^ length ?ds + of_nat (n div b)) (?d # rest)"
      using less.IH[of "n div b" "?d # rest"] False assms by simp
    also have "\<dots> = strtoul_digits (of_nat b)
        ((r * of_nat b ^ length ?ds + of_nat (n div b)) * of_nat b + of_nat (n mod b)) rest"
      using digits_xdigit[OF m(2), of l] lt by (simp del: isxdigit_iff)
    also have "(r * of_nat b ^ length ?ds + of_nat (n div b)) * of_nat b + of_nat (n mod b)
       = r * of_nat b ^ Suc (length ?ds) + (of_nat n :: u32)"
    proof -
      have "(of_nat (n mod b) + of_nat b * of_nat (n div b) :: u32) = of_nat n"
        by (metis add.commute div_mult_mod_eq mult.commute of_nat_add of_nat_mult)
      then show ?thesis by (simp add: algebra_simps)
    qed
    finally show ?thesis by (simp add: nd)
  qed
qed

text \<open>The hexadecimal numeral without leading zeros.\<close>

definition hexs :: "u32 \<Rightarrow> byte list" where
  "hexs n = (if n = 0 then [0x30] else rev (number_digits (digits False) 16 (unat n)))"

lemma number_digits_length:
  "2 \<le> b \<Longrightarrow> n < b ^ k \<Longrightarrow> length (number_digits ds b n) \<le> k"
proof (induction k arbitrary: n)
  case 0
  then show ?case by (simp add: number_digits.simps)
next
  case (Suc k)
  then have "n div b < b ^ k" by (simp add: less_mult_imp_div_less mult.commute)
  with Suc show ?case by (subst number_digits.simps) simp
qed

lemma length_hexs: "1 \<le> length (hexs n)" "length (hexs n) \<le> 8"
proof -
  have "unat n < 16 ^ 8" using unsigned_less[of n] by simp
  then have "length (number_digits (digits False) 16 (unat n)) \<le> 8" by (intro number_digits_length) simp_all
  then show "length (hexs n) \<le> 8" by (simp add: hexs_def)
  show "1 \<le> length (hexs n)"
    by (auto simp: hexs_def) (subst number_digits.simps, auto simp: unat_eq_0)
qed

lemma digit_value_0 [simp]: "digit_value 0x30 = 0"
  using digits_xdigit(2)[of 0 False] by (simp add: digits_def)

lemma strtoul_hexs: "strtoul_digits 16 0 (replicate k 0x30 @ hexs n @ rest) = strtoul_digits 16 n rest"
proof -
  have z: "strtoul_digits 16 0 (replicate k 0x30 @ xs) = strtoul_digits 16 0 xs" for xs
    by (induction k) simp_all
  show ?thesis
  proof (cases "n = 0")
    case True
    then show ?thesis using z[of "[0x30] @ rest"] by (simp add: hexs_def)
  next
    case False
    then show ?thesis using strtoul_digits_number[of 16 0 False "unat n" rest] z by (simp add: hexs_def)
  qed
qed

lemma number_hex: "number n 16 (-1) (-1) no_flags = Some (hexs n)"
  by (auto simp: number_def no_flags_def hexs_def Let_def)

lemma number_hex8:
  "number n 16 8 (-1) (no_flags\<lparr>ZEROPAD := True\<rparr>)
    = Some (replicate (8 - length (hexs n)) 0x30 @ hexs n)"
  using length_hexs[of n] by (auto simp: number_def no_flags_def hexs_def Let_def nat_diff_distrib)

lemmas sprintf_eval = sprintf_def vsprintf_def conv_def get_width_def is_digit_def skip_atoi_def
  get_precision_def get_qualifier_def fmt_number_def Let_def

lemma sprintf_0x: "sprintf ''0x%x'' [VInt n] = Some (bytes ''0x'' @ hexs n)"
  by (simp add: sprintf_eval number_hex[unfolded no_flags_def] no_flags_def)

lemma sprintf_DATA:
  "sprintf ''DATA%08x'' [VInt n]
    = Some (bytes ''DATA'' @ replicate (8 - length (hexs n)) 0x30 @ hexs n)"
  by (simp add: sprintf_eval number_hex8[unfolded no_flags_def, simplified] no_flags_def)

lemma set_number_digits: "2 \<le> b \<Longrightarrow> b \<le> 16 \<Longrightarrow> c \<in> set (number_digits (digits l) b n) \<Longrightarrow> isxdigit c"
proof (induction n rule: less_induct)
  case (less n)
  from less.prems have n: "n \<noteq> 0" by (subst (asm) number_digits.simps) (auto split: if_splits)
  then have "number_digits (digits l) b n = digits l ! (n mod b) # number_digits (digits l) b (n div b)"
    using less.prems by (subst number_digits.simps) simp
  moreover have "n mod b < 16" using less.prems mod_less_divisor[of b n] by linarith
  ultimately show ?case
    using n less.prems less.IH[of "n div b"] digits_xdigit(1)[of "n mod b" l]
    by (auto simp del: isxdigit_iff)
qed

lemma hexs_xdigit: "c \<in> set (hexs n) \<Longrightarrow> isxdigit c"
  by (auto simp: hexs_def simp del: isxdigit_iff split: if_splits dest!: set_number_digits[rotated 2]) simp_all

lemma hexs_Cons: "\<exists>c cs. hexs n = c # cs \<and> isxdigit c \<and> c \<noteq> 0x78 \<and> chr0 cs \<noteq> 0x78"
proof -
  obtain c cs where c: "hexs n = c # cs" using length_hexs(1)[of n] by (cases "hexs n") auto
  have x: "isxdigit x" if "x \<in> set (c # cs)" for x using hexs_xdigit[of x n] that c by simp
  have "\<not> isxdigit 0x78" by simp
  with x[of c] x[of "chr0 cs"] c show ?thesis by (cases cs) (auto simp del: isxdigit_iff)
qed

lemma strtoul_0x: "simple_strtoul (bytes ''0x'' @ hexs n) b = (n, [])"
proof -
  obtain c cs where "hexs n = c # cs" "isxdigit c" using hexs_Cons by blast
  then have "chr0 (hexs n) = c" "isxdigit c" by simp_all
  then show ?thesis using strtoul_hexs[of 0 n "[]"]
    by (simp add: simple_strtoul_def del: isxdigit_iff)
qed

lemma strtoul_hex: "simple_strtoul (replicate k 0x30 @ hexs n) 16 = (n, [])"
proof (cases "chr0 (replicate k 0x30 @ hexs n) = 0x30")
  case False
  then show ?thesis using strtoul_hexs[of k n "[]"] by (simp add: simple_strtoul_def)
next
  case True
  obtain c cs where c: "hexs n = c # cs" "c \<noteq> 0x78" "chr0 cs \<noteq> 0x78" using hexs_Cons by blast
  define r where "r = tl (replicate k 0x30 @ hexs n)"
  have r: "replicate k 0x30 @ hexs n = 0x30 # r"
    using True c by (cases k) (auto simp: r_def)
  moreover have "chr0 r \<noteq> 0x78"
    using c True by (cases k rule: nat.exhaust; cases "k - 1") (auto simp: r_def)
  moreover have "strtoul_digits 16 0 r = (n, [])"
    using strtoul_hexs[of k n "[]"] r by simp
  ultimately show ?thesis by (simp add: simple_strtoul_def)
qed

end
