(* ===== verification/PartDos.thy ===== *)
theory PartDos
  imports CString Vsprintf
begin

text \<open>
  DOS partition tables (\<^verbatim>\<open>disk/part_dos.c\<close>, the \<^verbatim>\<open>PART_TYPE_DOS\<close> case of \<^verbatim>\<open>get_partition_info\<close>
  in \<^verbatim>\<open>disk/part.c\<close>) and \<^verbatim>\<open>fat_register_device\<close> of \<^verbatim>\<open>fs/fat/fat.c\<close>, which the eMMC driver calls
  at the end of its initialisation.

  The block read function pointer of the descriptor is the argument \<open>rd\<close>: start block, block
  count and the buffer give the result, the filled buffer and the new device state. An
  uninitialised buffer on the stack is a buffer of zeros, which the read fills.

  \<^verbatim>\<open>get_partition_info_extended\<close> follows chains of extended partitions without a bound; it is a
  partial function, and a table whose extended entry leads back to itself has no result.
\<close>

type_synonym 's bread = "'s \<Rightarrow> u32 \<Rightarrow> u32 \<Rightarrow> byte list \<Rightarrow> (u32 \<times> byte list \<times> 's) option"

record block_dev_desc =
  if_type :: u32
  bd_dev :: u32
  part_type :: byte
  lun :: byte
  dev_type :: byte
  removable :: byte
  lba :: u32
  blksz :: u32

record disk_partition =
  dp_start :: u32
  dp_size :: u32
  dp_blksz :: u32
  dp_name :: "byte list"
  dp_type :: "byte list"

definition IF_TYPE_MMC :: u32 where "IF_TYPE_MMC = 6"
definition PART_TYPE_DOS :: byte where "PART_TYPE_DOS = 2"
definition DOS_PART_TBL_OFFSET :: nat where "DOS_PART_TBL_OFFSET = 0x1be"
definition DOS_PART_MAGIC_OFFSET :: nat where "DOS_PART_MAGIC_OFFSET = 0x1fe"
definition DOS_PBR_FSTYPE_OFFSET :: nat where "DOS_PBR_FSTYPE_OFFSET = 0x36"
definition DOS_FS_TYPE_OFFSET :: nat where "DOS_FS_TYPE_OFFSET = 0x52"

lemmas dos_offsets = DOS_PART_TBL_OFFSET_def DOS_PART_MAGIC_OFFSET_def DOS_PBR_FSTYPE_OFFSET_def
  DOS_FS_TYPE_OFFSET_def

definition stack_buf :: "nat \<Rightarrow> byte list" where
  "stack_buf n = replicate n 0"

lemma length_stack_buf [simp]: "length (stack_buf n) = n"
  by (simp add: stack_buf_def)

section \<open>Entries and signatures\<close>

definition le32_to_int :: "byte list \<Rightarrow> u32" where
  "le32_to_int le = push_bit 24 (ucast (le ! 3)) + push_bit 16 (ucast (le ! 2))
     + push_bit 8 (ucast (le ! 1)) + ucast (le ! 0)"

definition is_extended :: "byte \<Rightarrow> bool" where
  "is_extended part_ty \<longleftrightarrow> part_ty = 0x5 \<or> part_ty = 0xf \<or> part_ty = 0x85"

text \<open>The four 16 byte entries of a table; \<open>sys_ind\<close>, \<open>start4\<close> and \<open>size4\<close> of an entry.\<close>

definition dos_entries :: "byte list \<Rightarrow> byte list list" where
  "dos_entries buf = map (\<lambda>i. bslice (DOS_PART_TBL_OFFSET + 16 * i) 16 buf) [0..<4]"

definition sys_ind :: "byte list \<Rightarrow> byte" where "sys_ind pt = pt ! 4"
definition start4 :: "byte list \<Rightarrow> byte list" where "start4 pt = bslice 8 4 pt"
definition size4 :: "byte list \<Rightarrow> byte list" where "size4 pt = bslice 12 4 pt"

definition dos_magic :: "byte list \<Rightarrow> bool" where
  "dos_magic buf \<longleftrightarrow> buf ! DOS_PART_MAGIC_OFFSET = 0x55 \<and> buf ! (DOS_PART_MAGIC_OFFSET + 1) = 0xaa"

definition fat_at :: "nat \<Rightarrow> byte list \<Rightarrow> bool" where
  "fat_at off buf \<longleftrightarrow> strncmp_s (bslice off 3 buf) (bytes ''FAT'') 3 = 0"

definition test_block_type :: "byte list \<Rightarrow> int" where
  "test_block_type buf =
     (if \<not> dos_magic buf then -1 else if fat_at DOS_PBR_FSTYPE_OFFSET buf then 1 else 0)"

definition test_part_dos :: "'s bread \<Rightarrow> 's \<Rightarrow> (int \<times> 's) option" where
  "test_part_dos rd s = do {
     (r, buf, s) \<leftarrow> rd s 0 1 (stack_buf 512);
     Some (if r \<noteq> 1 \<or> \<not> dos_magic buf then -1 else 0, s) }"

section \<open>Looking a partition up\<close>

text \<open>The first loop over the entries: the wanted partition, or the number the next one gets.\<close>

fun find_part :: "u32 \<Rightarrow> u32 \<Rightarrow> byte list list \<Rightarrow> u32 \<Rightarrow> byte list + u32" where
  "find_part ext which [] part_num = Inr part_num"
| "find_part ext which (pt # pts) part_num =
     (if sys_ind pt \<noteq> 0 \<and> part_num = which \<and> \<not> is_extended (sys_ind pt) then Inl pt
      else find_part ext which pts
        (if ext = 0 \<or> (sys_ind pt \<noteq> 0 \<and> \<not> is_extended (sys_ind pt)) then part_num + 1 else part_num))"

definition part_name_fmt :: "u32 \<Rightarrow> string" where
  "part_name_fmt ift = (if ift = 1 \<or> ift = 3 then ''hd%c%d'' else if ift = 2 then ''sd%c%d''
     else if ift = 4 then ''usbd%c%d'' else if ift = 5 then ''docd%c%d'' else ''xx%c%d'') @ [CHR 10]"

definition fill_info :: "block_dev_desc \<Rightarrow> u32 \<Rightarrow> byte list \<Rightarrow> u32 \<Rightarrow> disk_partition option" where
  "fill_info d ext pt part_num = do {
     name \<leftarrow> sprintf (part_name_fmt (if_type d)) [VInt (0x61 + bd_dev d), VInt part_num];
     ty \<leftarrow> sprintf ''U-Boot'' [];
     Some \<lparr>dp_start = ext + le32_to_int (start4 pt), dp_size = le32_to_int (size4 pt), dp_blksz = 512,
           dp_name = name, dp_type = ty\<rparr> }"

partial_function (option) get_partition_info_extended ::
  "'s bread \<Rightarrow> block_dev_desc \<Rightarrow> u32 \<Rightarrow> u32 \<Rightarrow> u32 \<Rightarrow> u32 \<Rightarrow> 's \<Rightarrow> (disk_partition option \<times> 's) option" where
  "get_partition_info_extended rd d ext relative part_num which s = do {
     (r, buf, s) \<leftarrow> rd s ext 1 (stack_buf 512);
     if r \<noteq> 1 then Some (None, s)
     else if \<not> dos_magic buf then Some (None, s)
     else case find_part ext which (dos_entries buf) part_num of
       Inl pt \<Rightarrow> do { info \<leftarrow> fill_info d ext pt which; Some (Some info, s) }
     | Inr part_num \<Rightarrow>
         (case filter (\<lambda>pt. is_extended (sys_ind pt)) (dos_entries buf) of
            [] \<Rightarrow> Some (None, s)
          | pt # _ \<Rightarrow>
              (let lba_start = le32_to_int (start4 pt) + relative
               in get_partition_info_extended rd d lba_start (if ext = 0 then lba_start else relative)
                    part_num which s)) }"

definition get_partition_info_dos ::
  "'s bread \<Rightarrow> block_dev_desc \<Rightarrow> u32 \<Rightarrow> 's \<Rightarrow> (disk_partition option \<times> 's) option" where
  "get_partition_info_dos rd d part s = get_partition_info_extended rd d 0 0 1 part s"

definition get_partition_info ::
  "'s bread \<Rightarrow> block_dev_desc \<Rightarrow> u32 \<Rightarrow> 's \<Rightarrow> (disk_partition option \<times> 's) option" where
  "get_partition_info rd d part s =
     (if part_type d = PART_TYPE_DOS then get_partition_info_dos rd d part s else Some (None, s))"

text \<open>The variables of \<^verbatim>\<open>fs/fat/fat.c\<close>: \<^verbatim>\<open>cur_dev\<close> (the device number), \<^verbatim>\<open>part_offset\<close>, \<^verbatim>\<open>cur_part\<close>.\<close>

record fat_vars =
  cur_dev :: "u32 option"
  part_offset :: u32
  cur_part :: u32

definition fat_register_device ::
  "'s bread \<Rightarrow> block_dev_desc \<Rightarrow> u32 \<Rightarrow> fat_vars \<Rightarrow> 's \<Rightarrow> (int \<times> fat_vars \<times> 's) option" where
  "fat_register_device rd d part_no fv s = (let fv = fv\<lparr>cur_dev := Some (bd_dev d)\<rparr> in do {
     (r, buf, s) \<leftarrow> rd s 0 1 (stack_buf 512);
     if r \<noteq> 1 then Some (-1, fv, s)
     else if \<not> dos_magic buf then Some (-1, fv, s)
     else if fat_at DOS_FS_TYPE_OFFSET buf then Some (0, fv\<lparr>cur_part := 1, part_offset := 0\<rparr>, s)
     else do {
       (info, s) \<leftarrow> get_partition_info rd d part_no s;
       case info of
         Some i \<Rightarrow> Some (0, fv\<lparr>part_offset := dp_start i, cur_part := part_no\<rparr>, s)
       | None \<Rightarrow> Some (-1, fv, s) } })"

section \<open>Lemmas\<close>

text \<open>The entry's address bytes are read as a little-endian integer.\<close>

lemma le32_to_int_of_le: "length le = 4 \<Longrightarrow> le32_to_int le = of_le le"
proof -
  assume "length le = 4"
  then obtain a b c d where le: "le = [a, b, c, d]"
    by (auto simp: length_Suc_conv numeral_eq_Suc)
  have dj: "(x :: u32) + y = x OR y" if "x AND y = 0" for x y
    using that disjunctive_add[of x y] by (metis bit_and_iff bit_0_eq bot_apply bot_bool_def)
  have "push_bit 24 (ucast d :: u32) + push_bit 16 (ucast c) = push_bit 24 (ucast d) OR push_bit 16 (ucast c)"
    by (rule dj, rule bit_word_eqI) (auto simp: bit_simps dest: bit_imp_le_length)
  moreover have "(push_bit 24 (ucast d :: u32) OR push_bit 16 (ucast c)) + push_bit 8 (ucast b)
      = (push_bit 24 (ucast d) OR push_bit 16 (ucast c)) OR push_bit 8 (ucast b)"
    by (rule dj, rule bit_word_eqI) (auto simp: bit_simps dest: bit_imp_le_length)
  moreover have "(push_bit 24 (ucast d :: u32) OR push_bit 16 (ucast c) OR push_bit 8 (ucast b)) + ucast a
      = (push_bit 24 (ucast d) OR push_bit 16 (ucast c) OR push_bit 8 (ucast b)) OR ucast a"
    by (rule dj, rule bit_word_eqI) (auto simp: bit_simps dest: bit_imp_le_length)
  ultimately have "le32_to_int le = push_bit 24 (ucast d) OR push_bit 16 (ucast c) OR push_bit 8 (ucast b) OR ucast a"
    by (simp add: le le32_to_int_def numeral_eq_Suc or.assoc)
  also have "\<dots> = of_le le"
    by (rule bit_word_eqI) (auto simp: le bit_simps dest: bit_imp_le_length)
  finally show ?thesis .
qed

lemma number_Some: "2 \<le> base \<Longrightarrow> base \<le> 36 \<Longrightarrow> \<exists>o'. number n base w p fl = Some o'"
  by (simp add: number_def Let_def)

lemma fill_info_Some: "\<exists>i. fill_info d ext pt n = Some i"
  using number_Some[of 10 n "-1" "-1" "no_flags\<lparr>SIGN := True\<rparr>"]
  by (auto simp: fill_info_def part_name_fmt_def opt_bind sprintf_eval)

text \<open>A table without an extended partition is searched in one step.\<close>

definition plain_mbr :: "byte list \<Rightarrow> bool" where
  "plain_mbr buf \<longleftrightarrow> list_all (\<lambda>pt. \<not> is_extended (sys_ind pt)) (dos_entries buf)"

lemma get_partition_info_plain:
  assumes "rd s ext 1 (stack_buf 512) = Some (r, buf, s')" and "plain_mbr buf"
  shows "\<exists>i. get_partition_info_extended rd d ext rel part_num which s = Some (i, s')"
proof -
  have e: "filter (\<lambda>pt. is_extended (sys_ind pt)) (dos_entries buf) = []"
    using assms(2) by (simp add: plain_mbr_def list_all_iff filter_empty_conv)
  show ?thesis
    using fill_info_Some[of d ext _ which]
    by (subst get_partition_info_extended.simps)
      (auto simp: assms(1) e opt_bind split: sum.split)
qed

lemma fat_register_device_plain:
  assumes "rd s 0 1 (stack_buf 512) = Some (r, buf, s1)"
    and "rd s1 0 1 (stack_buf 512) = Some (r, buf, s2)" and "plain_mbr buf"
  shows "\<exists>res fv' s'. fat_register_device rd d part_no fv s = Some (res, fv', s') \<and> s' \<in> {s1, s2}"
proof -
  obtain i s' where "get_partition_info rd d part_no s1 = Some (i, s')" "s' \<in> {s1, s2}"
    using get_partition_info_plain[of rd s1 0 r buf s2 d 0 1 part_no] assms(2,3)
    by (cases "part_type d = PART_TYPE_DOS") (auto simp: get_partition_info_def get_partition_info_dos_def)
  then show ?thesis
    by (cases i) (auto simp: fat_register_device_def assms(1) Let_def)
qed

text \<open>An extended entry that starts at its own table is followed for ever.\<close>

lemma find_part_Inr:
  "list_all (\<lambda>pt. sys_ind pt = 0 \<or> is_extended (sys_ind pt)) pts \<Longrightarrow> \<exists>n. find_part ext which pts k = Inr n"
  by (induction pts arbitrary: k) auto

text \<open>A master boot record whose entries are empty or extended, and whose first extended one starts at sector 0, at the record itself.\<close>

definition self_extended :: "byte list \<Rightarrow> bool" where
  "self_extended buf \<longleftrightarrow> dos_magic buf \<and> list_all (\<lambda>pt. sys_ind pt = 0 \<or> is_extended (sys_ind pt)) (dos_entries buf)
     \<and> (case filter (\<lambda>pt. is_extended (sys_ind pt)) (dos_entries buf) of [] \<Rightarrow> False | pt # _ \<Rightarrow> le32_to_int (start4 pt) = 0)"

lemma get_partition_info_self:
  assumes rd: "\<And>s. ok s \<Longrightarrow> \<exists>s'. rd s 0 1 (stack_buf 512) = Some (1, buf, s') \<and> ok s'" and se: "self_extended buf" and "ok s"
  shows "get_partition_info_extended rd d 0 0 n which s = None"
proof -
  obtain pt pts where self: "dos_magic buf" "filter (\<lambda>pt. is_extended (sys_ind pt)) (dos_entries buf) = pt # pts" "le32_to_int (start4 pt) = 0"
    and only: "list_all (\<lambda>pt. sys_ind pt = 0 \<or> is_extended (sys_ind pt)) (dos_entries buf)"
    using se by (auto simp: self_extended_def split: list.splits)
  define P where "P = (\<lambda>(rd :: 'a bread) (d :: block_dev_desc) (ext :: u32) (rel :: u32) (n :: u32) (which :: u32) (s :: 'a)
      (y :: disk_partition option \<times> 'a).
     \<not> (ext = 0 \<and> rel = 0 \<and> ok s \<and> (\<forall>s. ok s \<longrightarrow> (\<exists>s'. rd s 0 1 (stack_buf 512) = Some (1, buf, s') \<and> ok s'))))"
  have "P rd d ext rel n which s y" if "get_partition_info_extended rd d ext rel n which s = Some y"
    for rd d ext rel n which s y
  proof (rule get_partition_info_extended.raw_induct[of P, OF _ that])
    fix f :: "'a bread \<Rightarrow> block_dev_desc \<Rightarrow> u32 \<Rightarrow> u32 \<Rightarrow> u32 \<Rightarrow> u32 \<Rightarrow> 'a \<Rightarrow> (disk_partition option \<times> 'a) option"
      and rd :: "'a bread" and d ext rel n which s y
    assume IH: "\<And>rd d ext rel n which s y. f rd d ext rel n which s = Some y \<Longrightarrow> P rd d ext rel n which s y"
      and eq: "do {
        (r, buf, s) \<leftarrow> rd s ext 1 (stack_buf 512);
        if r \<noteq> 1 then Some (None, s)
        else if \<not> dos_magic buf then Some (None, s)
        else case find_part ext which (dos_entries buf) n of
          Inl pt \<Rightarrow> do { info \<leftarrow> fill_info d ext pt which; Some (Some info, s) }
        | Inr part_num \<Rightarrow>
            (case filter (\<lambda>pt. is_extended (sys_ind pt)) (dos_entries buf) of
               [] \<Rightarrow> Some (None, s)
             | pt # _ \<Rightarrow>
                 (let lba_start = le32_to_int (start4 pt) + rel
                  in f rd d lba_start (if ext = 0 then lba_start else rel) part_num which s)) } = Some y"
    obtain k where k: "find_part 0 which (dos_entries buf) n = Inr k"
      using find_part_Inr[OF only] by blast
    show "P rd d ext rel n which s y"
      unfolding P_def
    proof (rule notI, elim conjE)
      assume a: "ext = 0" "rel = 0" "ok s" "\<forall>s. ok s \<longrightarrow> (\<exists>s'. rd s 0 1 (stack_buf 512) = Some (1, buf, s') \<and> ok s')"
      then obtain s' where s': "rd s 0 1 (stack_buf 512) = Some (1, buf, s')" "ok s'" by blast
      then have "f rd d 0 0 k which s' = Some y"
        using eq a(1,2) by (simp add: k self)
      then have "P rd d 0 0 k which s' y" by (rule IH)
      with a(4) s'(2) show False unfolding P_def by blast
    qed
  qed
  then have "\<not> (\<exists>y. get_partition_info_extended rd d 0 0 n which s = Some y)"
    using rd assms(3) unfolding P_def by blast
  then show ?thesis by (metis option.exhaust)
qed

text \<open>Registering the device for the FAT code does not come back either.\<close>

lemma fat_register_device_self:
  assumes rd: "\<And>s. ok s \<Longrightarrow> \<exists>s'. rd s 0 1 (stack_buf 512) = Some (1, buf, s') \<and> ok s'" and "self_extended buf" "ok s"
    and "part_type d = PART_TYPE_DOS" "\<not> fat_at DOS_FS_TYPE_OFFSET buf"
  shows "fat_register_device rd d n fv s = None"
proof -
  obtain s1 where s1: "rd s 0 1 (stack_buf 512) = Some (1, buf, s1)" "ok s1" using rd[OF assms(3)] by blast
  have "get_partition_info_extended rd d 0 0 1 n s1 = None" by (rule get_partition_info_self[where ok = ok and rd = rd and buf = buf, OF rd assms(2) s1(2)])
  then show ?thesis using s1(1) assms(2,4,5)
    by (simp add: fat_register_device_def get_partition_info_def get_partition_info_dos_def self_extended_def)
qed

end
