(* ===== verification/BlockDev.thy ===== *)
theory BlockDev
  imports PartDos
begin

text \<open>
  The interface between the eMMC driver (\<^verbatim>\<open>include/mmc.h\<close>, provided by \<^verbatim>\<open>cpu/omap4/mmc.c\<close>) and its
  clients: the partition table, the IDME store, the sparse writer, the boot message and
  fastboot. \<open>blk_ops\<close> lists the calls the clients make; \<open>'s\<close> is the state of the driver and the
  hardware behind it.

  A transfer names the client's buffer and the offset in it; \<open>op_read\<close> returns the
  buffer as the transfer leaves it. \<^const>\<open>None\<close> is a transfer that never ends or leaves the
  buffer. The \<open>int\<close> is the C result.

  \<open>block_device\<close> states what the driver promises on a card that works: \<open>sect s p n\<close> is the
  content of sector \<open>n\<close> of hardware partition \<open>p\<close>, \<open>part s\<close> the partition that is switched in,
  \<open>cap\<close> the number of sectors of a partition. \<open>pre\<close> holds where the driver may be initialised,
  \<open>inv\<close> where it is. Initialisation resets the card, which switches the user area in (partition 0),
  and looks for a DOS partition table there: with an extended partition in that table its end is not
  promised.
\<close>

definition SECTOR :: nat where "SECTOR = 512"

record 's blk_ops =
  op_init :: "'s \<Rightarrow> nat \<Rightarrow> (int \<times> 's) option"
  op_read :: "'s \<Rightarrow> nat \<Rightarrow> u32 \<Rightarrow> byte list \<Rightarrow> nat \<Rightarrow> u32 \<Rightarrow> (int \<times> byte list \<times> 's) option"
  op_write :: "'s \<Rightarrow> nat \<Rightarrow> byte list \<Rightarrow> nat \<Rightarrow> u32 \<Rightarrow> u32 \<Rightarrow> (int \<times> 's) option"
  op_erase :: "'s \<Rightarrow> nat \<Rightarrow> u32 \<Rightarrow> u32 \<Rightarrow> (int \<times> 's) option"
  op_info :: "'s \<Rightarrow> nat \<Rightarrow> u32 \<times> u32"
  op_sw_part :: "'s \<Rightarrow> nat \<Rightarrow> u32 \<Rightarrow> (int \<times> 's) option"

definition nsect :: "nat \<Rightarrow> nat" where
  "nsect sz = (sz + 511) div 512"

lemma nsect_exact [simp]: "nsect (512 * n) = n"
  by (simp add: nsect_def)

lemma nsect_512 [simp]: "nsect 512 = 1"
  by (simp add: nsect_def)

definition sectors :: "(nat \<Rightarrow> byte list) \<Rightarrow> nat \<Rightarrow> nat \<Rightarrow> byte list" where
  "sectors d a n = concat (map d [a..<a + n])"

lemma sectors_0 [simp]: "sectors d a 0 = []"
  by (simp add: sectors_def)

lemma sectors_Suc: "sectors d a (Suc n) = d a @ sectors d (Suc a) n"
  by (simp add: sectors_def upt_conv_Cons del: upt_Suc)

lemma sectors_1 [simp]: "sectors d a 1 = d a" "sectors d a (Suc 0) = d a"
  by (simp_all add: sectors_Suc)

lemma sectors_add: "sectors d a (m + n) = sectors d a m @ sectors d (a + m) n"
  using upt_add_eq_append[of a "a + m" n] by (simp add: sectors_def add.assoc)

lemma length_sectors: "(\<And>i. i < n \<Longrightarrow> length (d (a + i)) = 512) \<Longrightarrow> length (sectors d a n) = 512 * n"
proof (induction n arbitrary: a)
  case (Suc n)
  have "length (sectors d (Suc a) n) = 512 * n"
    by (rule Suc.IH) (use Suc.prems[of "Suc _"] in simp)
  with Suc.prems[of 0] show ?case by (simp add: sectors_Suc)
qed simp

text \<open>Writing whole sectors: sector \<open>a + i\<close> becomes the \<open>i\<close>th block of \<open>bs\<close>.\<close>

definition upd_sectors :: "(nat \<Rightarrow> byte list) \<Rightarrow> nat \<Rightarrow> byte list \<Rightarrow> nat \<Rightarrow> byte list" where
  "upd_sectors d a bs = (\<lambda>i. if a \<le> i \<and> i < a + length bs div 512 then bslice (512 * (i - a)) 512 bs else d i)"

lemma upd_sectors_append:
  assumes "length xs = 512 * k"
  shows "upd_sectors (upd_sectors d a xs) (a + k) ys = upd_sectors d a (xs @ ys)"
proof
  fix i
  have l: "length (xs @ ys) div 512 = k + length ys div 512" using assms by simp
  consider "i < a" | "a \<le> i" "i < a + k" | "a + k \<le> i" by linarith
  then show "upd_sectors (upd_sectors d a xs) (a + k) ys i = upd_sectors d a (xs @ ys) i"
  proof cases
    case 2
    then have "512 * (i - a) + 512 \<le> length xs" using assms by linarith
    with 2 show ?thesis using assms l by (simp add: upd_sectors_def bslice_append1)
  next
    case 3
    then have "512 * (i - a) - length xs = 512 * (i - (a + k))" "length xs \<le> 512 * (i - a)"
      using assms by (simp_all add: diff_mult_distrib2)
    with 3 show ?thesis using assms l by (simp add: upd_sectors_def bslice_append2)
  qed (use assms in \<open>simp add: upd_sectors_def\<close>)
qed

lemma upd_sectors_Nil [simp]: "upd_sectors d a [] = d"
  by (rule ext) (auto simp: upd_sectors_def)

lemma upd_sectors_one: "length xs = 512 \<Longrightarrow> upd_sectors d a xs = d(a := xs)"
  by (auto simp: upd_sectors_def)

lemma length_upd_sectors: "(\<And>n. length (d n) = 512) \<Longrightarrow> length (upd_sectors d a bs n) = 512"
proof -
  assume d: "\<And>n. length (d n) = 512"
  have "512 * (n - a) + 512 \<le> length bs" if "a \<le> n" "n < a + length bs div 512"
  proof -
    have "Suc (n - a) \<le> length bs div 512" using that by linarith
    then have "512 * Suc (n - a) \<le> 512 * (length bs div 512)" by (simp only: mult_le_mono2)
    also have "\<dots> \<le> length bs" by simp
    finally show ?thesis by simp
  qed
  then show ?thesis using d by (simp add: upd_sectors_def)
qed
locale block_device =
  fixes dev :: "'s blk_ops"
    and pre :: "'s \<Rightarrow> bool"
    and inv :: "'s \<Rightarrow> bool"
    and part :: "'s \<Rightarrow> nat"
    and sect :: "'s \<Rightarrow> nat \<Rightarrow> nat \<Rightarrow> byte list"
    and cap :: nat
  assumes sect_length: "pre s \<Longrightarrow> length (sect s p n) = 512"
    and inv_pre: "inv s \<Longrightarrow> pre s"
    and cap_bound: "0 < cap \<and> cap < 2 ^ 31"
    and init_ok: "pre s \<Longrightarrow> plain_mbr (sect s 0 0)
      \<Longrightarrow> \<exists>s'. op_init dev s 1 = Some (0, s') \<and> inv s' \<and> part s' = 0 \<and> sect s' = sect s"
    and read_ok: "inv s \<Longrightarrow> 0 < sz \<Longrightarrow> unat sz + 511 < 2 ^ 32 \<Longrightarrow> unat a + nsect (unat sz) \<le> cap
      \<Longrightarrow> off + 512 * nsect (unat sz) \<le> length buf
      \<Longrightarrow> \<exists>s'. op_read dev s 1 a buf off sz
            = Some (1, patch off (sectors (sect s (part s)) (unat a) (nsect (unat sz))) buf, s')
          \<and> inv s' \<and> part s' = part s \<and> sect s' = sect s"
    and write_ok: "inv s \<Longrightarrow> 0 < sz \<Longrightarrow> unat sz + 511 < 2 ^ 32 \<Longrightarrow> unat a + nsect (unat sz) \<le> cap
      \<Longrightarrow> off + 512 * nsect (unat sz) \<le> length buf
      \<Longrightarrow> \<exists>s'. op_write dev s 1 buf off a sz = Some (1, s') \<and> inv s' \<and> part s' = part s
          \<and> sect s' = (sect s)(part s := upd_sectors (sect s (part s)) (unat a)
                (bslice off (512 * nsect (unat sz)) buf))"
    and write_none: "inv s \<Longrightarrow> op_write dev s 1 buf off a 0 = Some (1, s)"
    and erase_ok: "inv s \<Longrightarrow> 0 < sz \<Longrightarrow> unat sz + 511 < 2 ^ 31 \<Longrightarrow> unat a + nsect (unat sz) \<le> cap
      \<Longrightarrow> \<exists>s'. op_erase dev s 1 a sz = Some (1, s') \<and> inv s' \<and> part s' = part s
          \<and> sect s' = (sect s)(part s := upd_sectors (sect s (part s)) (unat a)
                (replicate (512 * nsect (unat sz)) 0xFF))"
    and info_ok: "inv s \<Longrightarrow> op_info dev s 1 = (512, of_nat cap)"
    and sw_part_ok: "inv s \<Longrightarrow> q < 8 \<Longrightarrow> \<exists>s'. op_sw_part dev s 1 q = Some (1, s') \<and> inv s'
          \<and> part s' = unat q \<and> sect s' = sect s"
begin

text \<open>Two facts every client uses: one block read into a block buffer, one block written from it.\<close>

lemma read_block:
  assumes "inv s" and "unat a < cap" and "length buf = 512"
  shows "\<exists>s'. op_read dev s 1 a buf 0 512 = Some (1, sect s (part s) (unat a), s')
    \<and> inv s' \<and> part s' = part s \<and> sect s' = sect s"
  using read_ok[of s 512 a 0 buf] assms sect_length[OF inv_pre, of s "part s" "unat a"]
  by (auto simp: patch_def)

lemma write_block:
  assumes "inv s" and "unat a < cap" and "length buf = 512"
  shows "\<exists>s'. op_write dev s 1 buf 0 a 512 = Some (1, s') \<and> inv s' \<and> part s' = part s
    \<and> sect s' = (sect s)(part s := (sect s (part s))(unat a := buf))"
proof -
  have "upd_sectors (sect s (part s)) (unat a) buf = (sect s (part s))(unat a := buf)"
    using assms(3) by (auto simp: upd_sectors_def)
  then show ?thesis
    using write_ok[of s 512 a 0 buf] assms by simp
qed

text \<open>A write of any number of whole sectors, none included.\<close>

lemma write_multi:
  assumes "inv s" and "unat sz = 512 * m" and "unat a + m \<le> cap" and "off + 512 * m \<le> length buf"
  shows "\<exists>s'. op_write dev s 1 buf off a sz = Some (1, s') \<and> inv s' \<and> part s' = part s
    \<and> sect s' = (sect s)(part s := upd_sectors (sect s (part s)) (unat a) (bslice off (512 * m) buf))"
proof (cases "m = 0")
  case True
  then have "sz = 0" using assms(2) by (simp add: unat_eq_zero)
  then show ?thesis using True assms(1) write_none[OF assms(1), of buf off a] by simp
next
  case False
  have "512 * m < 2 ^ 32" using assms(2) unsigned_less[of sz, where 'a = nat] by simp
  then have "m \<le> 8388607" by simp
  then have "512 * m + 511 < 2 ^ 32" by simp
  then show ?thesis
    using write_ok[of s sz a off buf] assms False by (simp add: word_less_nat_alt)
qed

end

end
