(* ===== verification/Mmc.thy ===== *)
theory Mmc
  imports BlockDev "HOL-Library.Signed_Division"
begin

text \<open>
  The eMMC driver, \<^verbatim>\<open>cpu/omap4/mmc.c\<close> with \<^verbatim>\<open>mmc_host_def.h\<close> and \<^verbatim>\<open>mmc_protocol.h\<close>, down to the
  registers of the HSMMC controller.

  The controller and the card are not code of this repository: \<open>hw\<close> gives the effect of
  a register read and a register write on their state \<open>'h\<close>, and of the I2C writes and delays
  the driver makes. A read may change the state: status bits come and go, the data
  register is a FIFO. A polling loop is \<open>poll_until\<close>; a controller that never raises the
  awaited bit makes it, and everything above it, \<^const>\<open>None\<close>.

  \<open>'h mmc\<close> is the state of the driver: the hardware, \<^verbatim>\<open>mmc_stat_last\<close>, the three arrays
  \<^verbatim>\<open>cur_card_data\<close>, \<^verbatim>\<open>cur_controller_data\<close> and \<^verbatim>\<open>mmc_blk_dev\<close>, and the variables of the FAT code that
  \<^verbatim>\<open>mmc_init\<close> sets. Each array has two elements; an index above 1 has no behaviour. A response
  buffer \<^verbatim>\<open>resp[4]\<close> is the list of its elements that have been written; reading an element that
  never was has no behaviour either. What the driver prints is not modelled, the register reads
  in the arguments of \<^verbatim>\<open>printf\<close> are.
\<close>

section \<open>Registers and constants\<close>

record 'h hw =
  reg_rd :: "'h \<Rightarrow> u32 \<Rightarrow> u32 \<times> 'h"
  reg_wr :: "'h \<Rightarrow> u32 \<Rightarrow> u32 \<Rightarrow> 'h"
  i2c_wr :: "'h \<Rightarrow> u32 \<Rightarrow> u32 \<Rightarrow> byte \<Rightarrow> 'h"
  delay :: "'h \<Rightarrow> nat \<Rightarrow> 'h"

definition OMAP_HSMMC1_BASE :: u32 where "OMAP_HSMMC1_BASE = 0x4809C100"
definition OMAP_HSMMC2_BASE :: u32 where "OMAP_HSMMC2_BASE = 0x480B4100"
definition R_SYSCONFIG :: u32 where "R_SYSCONFIG = 0x010"
definition R_SYSSTATUS :: u32 where "R_SYSSTATUS = 0x014"
definition R_CON :: u32 where "R_CON = 0x02C"
definition R_BLK :: u32 where "R_BLK = 0x104"
definition R_ARG :: u32 where "R_ARG = 0x108"
definition R_CMD :: u32 where "R_CMD = 0x10C"
definition R_RSP10 :: u32 where "R_RSP10 = 0x110"
definition R_RSP32 :: u32 where "R_RSP32 = 0x114"
definition R_RSP54 :: u32 where "R_RSP54 = 0x118"
definition R_RSP76 :: u32 where "R_RSP76 = 0x11C"
definition R_DATA :: u32 where "R_DATA = 0x120"
definition R_PSTATE :: u32 where "R_PSTATE = 0x124"
definition R_HCTL :: u32 where "R_HCTL = 0x128"
definition R_SYSCTL :: u32 where "R_SYSCTL = 0x12C"
definition R_STAT :: u32 where "R_STAT = 0x130"
definition R_IE :: u32 where "R_IE = 0x134"
definition R_CAPA :: u32 where "R_CAPA = 0x140"
definition CONTROL_PBIAS_LITE :: u32 where "CONTROL_PBIAS_LITE = 0x4A100600"
definition CONTROL_CONF_MMC1 :: u32 where "CONTROL_CONF_MMC1 = 0x4A100628"

lemmas reg_defs = R_SYSCONFIG_def R_SYSSTATUS_def R_CON_def R_BLK_def R_ARG_def R_CMD_def
  R_RSP10_def R_RSP32_def R_RSP54_def R_RSP76_def R_DATA_def R_PSTATE_def R_HCTL_def
  R_SYSCTL_def R_STAT_def R_IE_def R_CAPA_def

definition CC_MASK :: u32 where "CC_MASK = 0x1"
definition TC_MASK :: u32 where "TC_MASK = 0x2"
definition BWR_MASK :: u32 where "BWR_MASK = 0x10"
definition BRR_MASK :: u32 where "BRR_MASK = 0x20"
definition ERRI_MASK :: u32 where "ERRI_MASK = 0x8000"
definition DATI_MASK :: u32 where "DATI_MASK = 0x2"
definition RSP_TYPE_MASK :: u32 where "RSP_TYPE_MASK = 0x30000"
definition RSP_TYPE_LGHT136 :: u32 where "RSP_TYPE_LGHT136 = 0x10000"

lemmas mask_defs = CC_MASK_def TC_MASK_def BWR_MASK_def BRR_MASK_def ERRI_MASK_def DATI_MASK_def

text \<open>Command words: index, response type with its checks, data present, direction.\<close>

definition RSP_TYPE_NONE :: u32 where "RSP_TYPE_NONE = 0"
definition RSP_TYPE_R1 :: u32 where "RSP_TYPE_R1 = 0x20000 OR 0x80000 OR 0x100000"
definition RSP_TYPE_R1B :: u32 where "RSP_TYPE_R1B = 0x30000 OR 0x80000 OR 0x100000"
definition RSP_TYPE_R2 :: u32 where "RSP_TYPE_R2 = 0x10000 OR 0x80000"
definition RSP_TYPE_R3 :: u32 where "RSP_TYPE_R3 = 0x20000"
definition RSP_TYPE_R6 :: u32 where "RSP_TYPE_R6 = 0x20000 OR 0x80000 OR 0x100000"
definition RSP_TYPE_R7 :: u32 where "RSP_TYPE_R7 = 0x20000 OR 0x80000 OR 0x100000"

definition mmc_index :: "u32 \<Rightarrow> u32" where "mmc_index i = push_bit 24 i"
definition DP_DATA :: u32 where "DP_DATA = 0x200000"
definition DDIR_READ :: u32 where "DDIR_READ = 0x10"

definition MMC_CMD0 :: u32 where "MMC_CMD0 = mmc_index 0 OR RSP_TYPE_NONE"
definition MMC_CMD1 :: u32 where "MMC_CMD1 = mmc_index 1 OR RSP_TYPE_R3"
definition MMC_CMD2 :: u32 where "MMC_CMD2 = mmc_index 2 OR RSP_TYPE_R2"
definition MMC_CMD3 :: u32 where "MMC_CMD3 = mmc_index 3 OR RSP_TYPE_R1"
definition MMC_SDCMD3 :: u32 where "MMC_SDCMD3 = mmc_index 3 OR RSP_TYPE_R6"
definition MMC_CMD4 :: u32 where "MMC_CMD4 = mmc_index 4 OR RSP_TYPE_NONE"
definition MMC_CMD6 :: u32 where "MMC_CMD6 = mmc_index 6 OR RSP_TYPE_R1B"
definition MMC_CMD7_SELECT :: u32 where "MMC_CMD7_SELECT = mmc_index 7 OR RSP_TYPE_R1B"
definition MMC_CMD8 :: u32 where "MMC_CMD8 = mmc_index 8 OR RSP_TYPE_R1 OR DP_DATA OR DDIR_READ"
definition MMC_SDCMD8 :: u32 where "MMC_SDCMD8 = mmc_index 8 OR RSP_TYPE_R7"
definition MMC_CMD9 :: u32 where "MMC_CMD9 = mmc_index 9 OR RSP_TYPE_R2"
definition MMC_CMD12 :: u32 where "MMC_CMD12 = mmc_index 12 OR RSP_TYPE_R1B"
definition MMC_CMD13 :: u32 where "MMC_CMD13 = mmc_index 13 OR RSP_TYPE_R1"
definition MMC_CMD16 :: u32 where "MMC_CMD16 = mmc_index 16 OR RSP_TYPE_R1"
definition MMC_CMD17 :: u32 where "MMC_CMD17 = mmc_index 17 OR RSP_TYPE_R1 OR DP_DATA OR DDIR_READ"
definition MMC_CMD23 :: u32 where "MMC_CMD23 = mmc_index 23 OR RSP_TYPE_R1"
definition MMC_CMD24 :: u32 where "MMC_CMD24 = mmc_index 24 OR RSP_TYPE_R1 OR DP_DATA"
definition MMC_CMD25 :: u32 where "MMC_CMD25 = mmc_index 25 OR RSP_TYPE_R1 OR DP_DATA"
definition MMC_ACMD41 :: u32 where "MMC_ACMD41 = mmc_index 41 OR RSP_TYPE_R3"
definition MMC_CMD55 :: u32 where "MMC_CMD55 = mmc_index 55 OR RSP_TYPE_R1"

lemmas cmd_defs = MMC_CMD6_def MMC_CMD12_def MMC_CMD13_def MMC_CMD17_def MMC_CMD23_def MMC_CMD24_def MMC_CMD25_def
  mmc_index_def RSP_TYPE_R1_def RSP_TYPE_R1B_def DP_DATA_def DDIR_READ_def

section \<open>Commands and data transfers\<close>

definition rmw :: "'h hw \<Rightarrow> 'h \<Rightarrow> u32 \<Rightarrow> (u32 \<Rightarrow> u32) \<Rightarrow> 'h" where
  "rmw c h r f = (let (v, h) = reg_rd c h r in reg_wr c h r (f v))"

partial_function (option) poll_until :: "'h hw \<Rightarrow> u32 \<Rightarrow> (u32 \<Rightarrow> bool) \<Rightarrow> 'h \<Rightarrow> (u32 \<times> 'h) option" where
  "poll_until c r P h = (let (v, h') = reg_rd c h r in if P v then Some (v, h') else poll_until c r P h')"

text \<open>The wait for the command to complete; on success the response registers that are read.\<close>

partial_function (option) cmd_wait :: "'h hw \<Rightarrow> u32 \<Rightarrow> u32 \<Rightarrow> 'h \<Rightarrow> (byte \<times> u32 list \<times> 'h) option" where
  "cmd_wait c base cmd h = do {
     (mmc_stat, h) \<leftarrow> poll_until c (base + R_STAT) (\<lambda>v. v \<noteq> 0) h;
     if mmc_stat AND ERRI_MASK \<noteq> 0 then Some (ucast mmc_stat, [], h)
     else if mmc_stat AND CC_MASK \<noteq> 0 then
       (let h = reg_wr c h (base + R_STAT) CC_MASK;
            (r0, h) = reg_rd c h (base + R_RSP10)
        in if cmd AND RSP_TYPE_MASK = RSP_TYPE_LGHT136
           then (let (r1, h) = reg_rd c h (base + R_RSP32);
                     (r2, h) = reg_rd c h (base + R_RSP54);
                     (r3, h) = reg_rd c h (base + R_RSP76)
                 in Some (1, [r0, r1, r2, r3], h))
           else Some (1, [r0], h))
     else cmd_wait c base cmd h }"

definition mmc_send_cmd :: "'h hw \<Rightarrow> 'h \<Rightarrow> u32 \<Rightarrow> u32 \<Rightarrow> u32 \<Rightarrow> (byte \<times> u32 list \<times> 'h) option" where
  "mmc_send_cmd c h base cmd arg = do {
     (_, h) \<leftarrow> poll_until c (base + R_PSTATE) (\<lambda>v. v AND DATI_MASK \<noteq> DATI_MASK) h;
     let h = reg_wr c h (base + R_STAT) 0xFFFFFFFF;
     let h = reg_wr c h (base + R_ARG) arg;
     let cmd_index = drop_bit 24 cmd;
     let h = (if cmd_index = 0x19 then reg_wr c h (base + R_CMD) (cmd OR 0x20 OR 0x2)
              else if cmd_index = 0xC then reg_wr c h (base + R_CMD) (cmd OR push_bit 22 3)
              else reg_wr c (reg_wr c h (base + R_BLK) 0x200) (base + R_CMD) cmd);
     cmd_wait c base cmd h }"

fun read_fifo :: "'h hw \<Rightarrow> u32 \<Rightarrow> nat \<Rightarrow> 'h \<Rightarrow> u32 list \<times> 'h" where
  "read_fifo c base 0 h = ([], h)"
| "read_fifo c base (Suc k) h =
     (let (w, h) = reg_rd c h (base + R_DATA); (ws, h) = read_fifo c base k h in (w # ws, h))"

fun write_fifo :: "'h hw \<Rightarrow> u32 \<Rightarrow> u32 list \<Rightarrow> 'h \<Rightarrow> 'h" where
  "write_fifo c base [] h = h"
| "write_fifo c base (w # ws) h = write_fifo c base ws (reg_wr c h (base + R_DATA) w)"

definition words_to_bytes :: "u32 list \<Rightarrow> byte list" where
  "words_to_bytes ws = concat (map le32 ws)"

fun bytes_to_words :: "byte list \<Rightarrow> u32 list" where
  "bytes_to_words (a # b # c # d # bs) = of_le [a, b, c, d] # bytes_to_words bs"
| "bytes_to_words _ = []"

text \<open>The polled read into \<open>buf\<close> at \<open>off\<close>; the last result is the status kept in \<^verbatim>\<open>mmc_stat_last\<close>.\<close>

partial_function (option) mmc_read_data ::
  "'h hw \<Rightarrow> u32 \<Rightarrow> byte list \<Rightarrow> nat \<Rightarrow> 'h \<Rightarrow> (byte \<times> byte list \<times> 'h \<times> u32) option" where
  "mmc_read_data c base buf off h = do {
     (mmc_stat, h) \<leftarrow> poll_until c (base + R_STAT) (\<lambda>v. v \<noteq> 0) h;
     if mmc_stat AND ERRI_MASK \<noteq> 0 then Some (ucast mmc_stat, buf, h, mmc_stat)
     else do {
       (buf, off, h) \<leftarrow>
         (if mmc_stat AND BRR_MASK \<noteq> 0
          then (let h = rmw c h (base + R_STAT) (\<lambda>v. v OR BRR_MASK);
                    (ws, h) = read_fifo c base 128 h
                in do { buf \<leftarrow> store off (words_to_bytes ws) buf; Some (buf, off + 512, h) })
          else Some (buf, off, h));
       let h = (if mmc_stat AND BWR_MASK \<noteq> 0 then rmw c h (base + R_STAT) (\<lambda>v. v OR BWR_MASK) else h);
       if mmc_stat AND TC_MASK \<noteq> 0
       then Some (1, buf, rmw c h (base + R_STAT) (\<lambda>v. v OR TC_MASK), mmc_stat)
       else mmc_read_data c base buf off h } }"

text \<open>The polled write from \<open>buf\<close> at \<open>off\<close>: the number of blocks sent, or -1.\<close>

partial_function (option) mmc_write_data ::
  "'h hw \<Rightarrow> u32 \<Rightarrow> byte list \<Rightarrow> nat \<Rightarrow> int \<Rightarrow> 'h \<Rightarrow> (int \<times> 'h) option" where
  "mmc_write_data c base buf off count h = do {
     (mmc_stat, h) \<leftarrow> poll_until c (base + R_STAT) (\<lambda>v. v \<noteq> 0) h;
     if mmc_stat AND ERRI_MASK \<noteq> 0 then Some (-1, h)
     else do {
       (off, count, h) \<leftarrow>
         (if mmc_stat AND BWR_MASK \<noteq> 0
          then (let h = rmw c h (base + R_STAT) (\<lambda>v. v OR BWR_MASK)
                in do { bs \<leftarrow> load off 512 buf;
                        Some (off + 512, count + 1, write_fifo c base (bytes_to_words bs) h) })
          else Some (off, count, h));
       let h = (if mmc_stat AND BRR_MASK \<noteq> 0 then rmw c h (base + R_STAT) (\<lambda>v. v OR BRR_MASK) else h);
       if mmc_stat AND TC_MASK \<noteq> 0
       then Some (count, rmw c h (base + R_STAT) (\<lambda>v. v OR TC_MASK))
       else mmc_write_data c base buf off count h } }"

section \<open>Clock and controller set-up\<close>

definition reg_out :: "'h hw \<Rightarrow> 'h \<Rightarrow> u32 \<Rightarrow> u32 \<Rightarrow> u32 \<Rightarrow> 'h" where
  "reg_out c h r msk val = rmw c h r (\<lambda>v. (v AND NOT msk) OR (val AND msk))"

definition mmc_board_init :: "'h hw \<Rightarrow> u32 \<Rightarrow> 'h \<Rightarrow> 'h" where
  "mmc_board_init c slot h =
     (if slot = 0 then
        (let h = i2c_wr c h 0x48 0x98 0x01;
             h = i2c_wr c h 0x48 0x99 0x03;
             h = i2c_wr c h 0x48 0x9A 0x21;
             h = i2c_wr c h 0x48 0x9B 0x15;
             h = rmw c h CONTROL_PBIAS_LITE (\<lambda>v. v OR push_bit 22 (1::u32) OR push_bit 26 1)
         in rmw c h CONTROL_CONF_MMC1
              (\<lambda>v. v OR push_bit 31 1 OR push_bit 30 1 OR push_bit 27 1 OR push_bit 26 1 OR push_bit 25 1))
      else h)"

definition mmc_init_stream :: "'h hw \<Rightarrow> u32 \<Rightarrow> 'h \<Rightarrow> 'h option" where
  "mmc_init_stream c base h = (let
     h = rmw c h (base + R_CON) (\<lambda>v. v OR 0x2);
     h = reg_wr c h (base + R_CMD) MMC_CMD0 in do {
     (_, h) \<leftarrow> poll_until c (base + R_STAT) (\<lambda>v. v AND CC_MASK \<noteq> 0) h;
     let h = reg_wr c h (base + R_STAT) CC_MASK;
     let h = reg_wr c h (base + R_CMD) MMC_CMD0;
     (_, h) \<leftarrow> poll_until c (base + R_STAT) (\<lambda>v. v AND CC_MASK \<noteq> 0) h;
     let h = rmw c h (base + R_STAT) (\<lambda>v. v);
     Some (rmw c h (base + R_CON) (\<lambda>v. v AND NOT 0x2)) })"

text \<open>\<open>iclk\<close> is \<^verbatim>\<open>CLK_INITSEQ\<close> (0), \<^verbatim>\<open>CLK_400KHZ\<close> (1) or \<^verbatim>\<open>CLK_MISC\<close> (2).\<close>

definition mmc_clock_config :: "'h hw \<Rightarrow> u32 \<Rightarrow> nat \<Rightarrow> u16 \<Rightarrow> 'h \<Rightarrow> (byte \<times> 'h) option" where
  "mmc_clock_config c base iclk clk_div h = (let
     h = reg_out c h (base + R_SYSCTL) (0x1 OR 0xF0000 OR 0x4) (0 OR 0xE0000 OR 0) in
     if iclk > 2 then Some (0, h)
     else let val = (if iclk = 0 then (96 * 1000 div 80) div 2 else if iclk = 1 then 96 * 1000 div 400 else ucast clk_div);
              h = reg_out c h (base + R_SYSCTL) (0x1 OR 0xFFC0) (push_bit 6 val OR 0x1) in do {
       (_, h) \<leftarrow> poll_until c (base + R_SYSCTL) (\<lambda>v. v AND 0x2 \<noteq> 0) h;
       Some (1, rmw c h (base + R_SYSCTL) (\<lambda>v. v OR 0x4)) })"

definition mmc_init_setup :: "'h hw \<Rightarrow> u32 \<Rightarrow> u32 \<Rightarrow> 'h \<Rightarrow> (byte \<times> 'h) option" where
  "mmc_init_setup c slot base h = (let
     h = mmc_board_init c slot h;
     h = rmw c h (base + R_SYSCONFIG) (\<lambda>v. v OR 0x2) in do {
     (_, h) \<leftarrow> poll_until c (base + R_SYSSTATUS) (\<lambda>v. v AND 0x1 \<noteq> 0) h;
     let h = rmw c h (base + R_SYSCTL) (\<lambda>v. v OR 0x1000000);
     (_, h) \<leftarrow> poll_until c (base + R_SYSCTL) (\<lambda>v. v AND 0x1000000 = 0) h;
     let h = reg_wr c h (base + R_HCTL) 0xC00;
     let h = rmw c h (base + R_CAPA) (\<lambda>v. v OR 0x2000000 OR 0x4000000);
     let h = rmw c h (base + R_CON) (\<lambda>v. v AND 0x600);
     (_, h) \<leftarrow> mmc_clock_config c base 0 0 h;
     let h = rmw c h (base + R_HCTL) (\<lambda>v. v OR 0x100);
     let h = reg_wr c h (base + R_IE) 0x307f0033;
     h \<leftarrow> mmc_init_stream c base h;
     Some (1, h) })"

section \<open>Card detection and size\<close>

record mmc_card_data =
  card_type :: u32
  version :: u32
  card_mode :: u32
  card_size :: u32
  RCA :: u32

record mmc_controller_data =
  cslot :: u32
  cbase :: u32

definition MMC_CARD :: u32 where "MMC_CARD = 0"
definition SD_CARD :: u32 where "SD_CARD = 1"
definition BYTE_MODE :: u32 where "BYTE_MODE = 0"
definition SECTOR_MODE :: u32 where "SECTOR_MODE = 1"

definition resp_upd :: "u32 list \<Rightarrow> u32 list \<Rightarrow> u32 list" where
  "resp_upd old new = new @ drop (length new) old"

definition resp_get :: "u32 list \<Rightarrow> nat \<Rightarrow> u32 option" where
  "resp_get resp i = (if i < length resp then Some (resp ! i) else None)"

fun detect_loop ::
  "'h hw \<Rightarrow> u32 \<Rightarrow> bool \<Rightarrow> u32 \<Rightarrow> u32 \<Rightarrow> nat \<Rightarrow> u32 list \<Rightarrow> u32 \<Rightarrow> 'h \<Rightarrow> (byte \<times> u32 list \<times> u32 \<times> 'h) option" where
  "detect_loop c base sd cmd41 ocr_value 0 resp ocr h = Some (1, resp, ocr, h)"
| "detect_loop c base sd cmd41 ocr_value (Suc retry_cnt) resp ocr h =
     (if ocr AND 0x80000000 \<noteq> 0 then Some (1, resp, ocr, h) else do {
        (resp, h) \<leftarrow> (if sd then do { (_, r, h) \<leftarrow> mmc_send_cmd c h base MMC_CMD55 0; Some (resp_upd resp r, h) }
                    else Some (resp, h));
        (err, r, h) \<leftarrow> mmc_send_cmd c h base cmd41 ocr_value;
        let resp = resp_upd resp r;
        if err \<noteq> 1 then Some (err, resp, ocr, h)
        else do { ocr \<leftarrow> resp_get resp 0; detect_loop c base sd cmd41 ocr_value retry_cnt resp ocr h } })"

text \<open>\<^verbatim>\<open>mmc_detect_card\<close> from the evaluation of the OCR on: mode, voltage, CMD2, CMD3.\<close>

definition detect_finish ::
  "'h hw \<Rightarrow> u32 \<Rightarrow> mmc_card_data \<Rightarrow> u32 \<Rightarrow> u32 \<Rightarrow> u32 list \<Rightarrow> 'h \<Rightarrow> (byte \<times> mmc_card_data \<times> 'h) option" where
  "detect_finish c base cd ocr_value ocr resp h =
     (if ocr AND 0x80000000 = 0 then Some (0, cd, h) else
      let (mode, ocr) = (if card_type cd = MMC_CARD
             then (if ocr AND 0x60000000 = 0x40000000 then SECTOR_MODE else BYTE_MODE, ocr AND NOT 0x60000000)
             else (if ocr AND 0x40000000 = 0x40000000 then SECTOR_MODE else BYTE_MODE, ocr AND NOT 0x40000000));
          cd = cd\<lparr>card_mode := mode\<rparr>;
          ocr = ocr AND NOT 0x80000000
      in if ocr AND ocr_value = 0 then Some (0, cd, h) else do {
        (err, r, h) \<leftarrow> mmc_send_cmd c h base MMC_CMD2 ocr_value;
        let resp = resp_upd resp r;
        if err \<noteq> 1 then Some (err, cd, h) else do {
        (err, r, h) \<leftarrow> (if card_type cd = MMC_CARD
             then mmc_send_cmd c h base MMC_CMD3 (push_bit 16 (RCA cd))
             else mmc_send_cmd c h base MMC_SDCMD3 0);
        let resp = resp_upd resp r;
        if err \<noteq> 1 then Some (err, cd, h) else do {
        cd \<leftarrow> (if card_type cd = MMC_CARD then Some cd
                 else do { r0 \<leftarrow> resp_get resp 0; Some (cd\<lparr>RCA := drop_bit 16 r0\<rparr>) });
        let h = rmw c h (base + R_CON) (\<lambda>v. v AND NOT 0x1);
        let h = rmw c h (base + R_CON) (\<lambda>v. v OR 0);
        Some (1, cd, h) } } })"

definition mmc_detect_card ::
  "'h hw \<Rightarrow> u32 \<Rightarrow> u32 \<Rightarrow> mmc_card_data \<Rightarrow> 'h \<Rightarrow> (byte \<times> mmc_card_data \<times> 'h) option" where
  "mmc_detect_card c slot base cd h = do {
     (err, h) \<leftarrow> mmc_clock_config c base 1 0 h;
     if err \<noteq> 1 then Some (err, cd, h) else do {
     let cd = cd\<lparr>RCA := 0x1234\<rparr>;
     let ocr_value = (if slot = 0 then push_bit 15 0x1FF else if slot = 1 then 0x80 else 0);
     (err, resp, h) \<leftarrow> mmc_send_cmd c h base MMC_CMD0 0;
     if err \<noteq> 1 then Some (err, cd, h) else do {
     (err, r, h) \<leftarrow> mmc_send_cmd c h base MMC_SDCMD8 (0xAA OR 0x100);
     let resp = resp_upd resp r;
     let hcs_val = (if err = 1 then 0x40000000 else 0);
     (err, r, h) \<leftarrow> mmc_send_cmd c h base MMC_CMD55 0;
     let resp = resp_upd resp r;
     let (cd, ocr_value, ret_cmd41, h) =
       (if err = 1 then (cd\<lparr>card_type := SD_CARD\<rparr>, ocr_value OR hcs_val, MMC_ACMD41, h)
        else (cd\<lparr>card_type := MMC_CARD\<rparr>, ocr_value OR 0x40000000, MMC_CMD1,
              rmw c (rmw c h (base + R_CON) (\<lambda>v. v AND NOT 0x1)) (base + R_CON) (\<lambda>v. v OR 0x1)));
     (err, r, h) \<leftarrow> mmc_send_cmd c h base ret_cmd41 ocr_value;
     let resp = resp_upd resp r;
     if err \<noteq> 1 then Some (err, cd, h) else do {
     ocr_recvd \<leftarrow> resp_get resp 0;
     (err, resp, ocr_recvd, h) \<leftarrow>
       detect_loop c base (card_type cd = SD_CARD) ret_cmd41 ocr_value 2000 resp ocr_recvd h;
     if err \<noteq> 1 then Some (err, cd, h)
     else detect_finish c base cd ocr_value ocr_recvd resp h } } } }"

text \<open>Bit fields of the CSD: \<open>n\<close> bits of the 128 from bit \<open>i\<close> on, none of them crossing a word.\<close>

definition csd_field :: "u32 list \<Rightarrow> nat \<Rightarrow> nat \<Rightarrow> u32" where
  "csd_field csd i n = take_bit n (drop_bit (i mod 32) (csd ! (i div 32)))"

definition mmc_read_cardsize ::
  "'h hw \<Rightarrow> u32 \<Rightarrow> mmc_card_data \<Rightarrow> u32 list \<Rightarrow> u32 \<Rightarrow> 'h \<Rightarrow> (byte \<times> mmc_card_data \<times> u32 \<times> 'h) option" where
  "mmc_read_cardsize c base cd csd stat_last h =
     (if card_mode cd = SECTOR_MODE then
        (if card_type cd = SD_CARD then
           (let sz = (csd_field csd 48 16 AND 0xFFFF) OR push_bit 16 (csd_field csd 64 6 AND 0x3F);
                cd = cd\<lparr>card_size := (sz + 1) * 1024\<rparr>
            in Some (if card_size cd = 0 then 0 else 1, cd, stat_last, h))
         else do {
           (err, _, h) \<leftarrow> mmc_send_cmd c h base MMC_CMD8 0;
           if err \<noteq> 1 then Some (err, cd, stat_last, h) else do {
           (err, ext_csd, h, stat_last) \<leftarrow> mmc_read_data c base (stack_buf 512) 0 h;
           if err \<noteq> 1 then Some (err, cd, stat_last, h) else
             (let sectorcount = of_le (bslice 212 4 ext_csd)
              in Some (1, cd\<lparr>card_size := if sectorcount = 0 then 8388608 else sectorcount\<rparr>, stat_last, h)) } })
      else
        (let c_size_mult = csd_field csd 47 3; read_bl_len = csd_field csd 80 4 in
         if c_size_mult \<ge> 8 then Some (0, cd, stat_last, h)
         else if read_bl_len \<ge> 12 then Some (0, cd, stat_last, h)
         else let count = push_bit (unat (c_size_mult + 2)) 1;
                  sz = (csd_field csd 62 2 AND 0x3) OR push_bit 2 (csd_field csd 64 10 AND 0x3FF);
                  blk_no = (sz + 1) * count;
                  blk_len = push_bit (unat read_bl_len) 1;
                  cd = cd\<lparr>card_size := (blk_no * blk_len) div 512\<rparr>
              in Some (if card_size cd = 0 then 0 else 1, cd, stat_last, h)))"

section \<open>Sectors\<close>

text \<open>Results carry the hardware state and \<^verbatim>\<open>mmc_stat_last\<close>. \<open>dump_regs\<close> are the two register reads
  of the error messages.\<close>

definition num_sec :: "u32 \<Rightarrow> u32" where
  "num_sec num_bytes = (num_bytes + 511) div 512"

definition sec_arg :: "mmc_card_data \<Rightarrow> u32 \<Rightarrow> u32 \<times> u32" where
  "sec_arg cd start_sec = (if card_mode cd = SECTOR_MODE then (start_sec, 1) else (start_sec * 512, 512))"

definition dump_regs :: "'h hw \<Rightarrow> u32 \<Rightarrow> 'h \<Rightarrow> 'h" where
  "dump_regs c base h = (let (_, h) = reg_rd c h (base + R_SYSCTL); (_, h) = reg_rd c h (base + R_CAPA) in h)"

fun read_sect_loop ::
  "'h hw \<Rightarrow> u32 \<Rightarrow> u32 \<Rightarrow> nat \<Rightarrow> u32 \<Rightarrow> byte list \<Rightarrow> nat \<Rightarrow> 'h \<Rightarrow> u32 \<Rightarrow> (byte \<times> byte list \<times> 'h \<times> u32) option" where
  "read_sect_loop c base sec_inc 0 arg buf off h sl = Some (1, buf, h, sl)"
| "read_sect_loop c base sec_inc (Suc n) arg buf off h sl = do {
     (err, _, h) \<leftarrow> mmc_send_cmd c h base MMC_CMD17 arg;
     if err \<noteq> 1 then Some (err, buf, dump_regs c base h, sl) else do {
     (err, buf, h, sl) \<leftarrow> mmc_read_data c base buf off h;
     if err \<noteq> 1 then Some (err, buf, dump_regs c base h, sl)
     else read_sect_loop c base sec_inc n (arg + sec_inc) buf (off + 512) h sl } }"

definition omap_mmc_read_sect ::
  "'h hw \<Rightarrow> u32 \<Rightarrow> u32 \<Rightarrow> mmc_controller_data \<Rightarrow> mmc_card_data \<Rightarrow> byte list \<Rightarrow> nat \<Rightarrow> 'h \<Rightarrow> u32
    \<Rightarrow> (byte \<times> byte list \<times> 'h \<times> u32) option" where
  "omap_mmc_read_sect c start_sec num_bytes ctl cd buf off h sl =
     (if num_sec num_bytes = 0 then Some (1, buf, h, sl)
      else let (arg, sec_inc) = sec_arg cd start_sec
           in read_sect_loop c (cbase ctl) sec_inc (unat (num_sec num_bytes)) arg buf off h sl)"

definition blk_cnt :: "u32 \<Rightarrow> u32" where
  "blk_cnt num_sec_val = (if num_sec_val > 0xFFFF then 0xFFFF else num_sec_val)"

partial_function (option) write_sect_loop ::
  "'h hw \<Rightarrow> u32 \<Rightarrow> u32 \<Rightarrow> u32 \<Rightarrow> u32 \<Rightarrow> byte list \<Rightarrow> nat \<Rightarrow> 'h \<Rightarrow> (byte \<times> 'h) option" where
  "write_sect_loop c base sec_inc n arg buf off h =
     (if n = 0 then Some (1, h) else do {
        (err, h) \<leftarrow>
          (if blk_cnt n > 1 then do {
             (err, _, h) \<leftarrow> mmc_send_cmd c h base MMC_CMD23 (blk_cnt n);
             if err \<noteq> 1 then Some (err, h) else do {
             (err, _, h) \<leftarrow> mmc_send_cmd c (reg_wr c h (base + R_BLK) (0x200 OR push_bit 16 (blk_cnt n)))
                                base MMC_CMD25 arg;
             Some (err, h) } }
           else do { (err, _, h) \<leftarrow> mmc_send_cmd c h base MMC_CMD24 arg; Some (err, h) });
        if err \<noteq> 1 then Some (err, h) else do {
        (r, h) \<leftarrow> mmc_write_data c base buf off 0 h;
        if r < 0 then Some (1, h)
        else write_sect_loop c base sec_inc (n - word_of_int r) (arg + sec_inc * word_of_int r)
               buf (off + 512 * nat r) h } })"

definition omap_mmc_write_sect ::
  "'h hw \<Rightarrow> byte list \<Rightarrow> nat \<Rightarrow> u32 \<Rightarrow> mmc_controller_data \<Rightarrow> mmc_card_data \<Rightarrow> u32 \<Rightarrow> 'h \<Rightarrow> (byte \<times> 'h) option" where
  "omap_mmc_write_sect c buf off num_bytes ctl cd start_sec h =
     (if num_sec num_bytes = 0 then Some (1, h)
      else let (arg, sec_inc) = sec_arg cd start_sec
           in write_sect_loop c (cbase ctl) sec_inc (num_sec num_bytes) arg buf off h)"

text \<open>Erasing writes sectors of ones. The transfer of \<open>erase_data\<close> is a loop of \<^verbatim>\<open>omap_mmc_erase_sect\<close>,
  which it leaves by \<open>return\<close> with a status byte on an error.\<close>

partial_function (option) erase_data :: "'h hw \<Rightarrow> u32 \<Rightarrow> 'h \<Rightarrow> (byte option \<times> 'h) option" where
  "erase_data c base h = do {
     (mmc_stat, h) \<leftarrow> poll_until c (base + R_STAT) (\<lambda>v. v \<noteq> 0) h;
     if mmc_stat AND ERRI_MASK \<noteq> 0 then Some (Some (ucast mmc_stat), h)
     else
       let h = (if mmc_stat AND BWR_MASK \<noteq> 0
                then write_fifo c base (replicate 128 0xFFFFFFFF) (rmw c h (base + R_STAT) (\<lambda>v. v OR BWR_MASK))
                else h);
           h = (if mmc_stat AND BRR_MASK \<noteq> 0 then rmw c h (base + R_STAT) (\<lambda>v. v OR BRR_MASK) else h)
       in if mmc_stat AND TC_MASK \<noteq> 0
          then Some (None, rmw c h (base + R_STAT) (\<lambda>v. v OR TC_MASK))
          else erase_data c base h }"

partial_function (option) erase_sect_loop ::
  "'h hw \<Rightarrow> u32 \<Rightarrow> u32 \<Rightarrow> u32 \<Rightarrow> u32 \<Rightarrow> 'h \<Rightarrow> (byte \<times> 'h) option" where
  "erase_sect_loop c base sec_inc n arg h =
     (if n = 0 then Some (1, h) else do {
        (err, _, h) \<leftarrow>
          (if blk_cnt n > 1
           then mmc_send_cmd c (reg_wr c h (base + R_BLK) (0x200 OR push_bit 16 (blk_cnt n))) base MMC_CMD25 arg
           else mmc_send_cmd c h base MMC_CMD24 arg);
        if err \<noteq> 1 then Some (err, h) else do {
        (ret, h) \<leftarrow> erase_data c base h;
        case ret of
          Some err \<Rightarrow> Some (err, h)
        | None \<Rightarrow> do {
            (err, h) \<leftarrow> (if blk_cnt n > 1
                        then do { (err, _, h) \<leftarrow> mmc_send_cmd c h base MMC_CMD12 0; Some (err, h) }
                        else Some (1, h));
            if err \<noteq> 1 then Some (err, h)
            else erase_sect_loop c base sec_inc (n - blk_cnt n) (arg + sec_inc * blk_cnt n) h } } })"

definition omap_mmc_erase_sect ::
  "'h hw \<Rightarrow> u32 \<Rightarrow> mmc_controller_data \<Rightarrow> mmc_card_data \<Rightarrow> u32 \<Rightarrow> 'h \<Rightarrow> (byte \<times> 'h) option" where
  "omap_mmc_erase_sect c start ctl cd sz h =
     (if start div 512 > card_size cd \<or> (start + sz) div 512 > card_size cd then Some (1, h)
      else let n = word_of_int (sint (sz + 511) sdiv 512); (arg, sec_inc) = sec_arg cd start
           in erase_sect_loop c (cbase ctl) sec_inc n arg h)"

section \<open>Configuration\<close>

definition configure_controller :: "mmc_controller_data \<Rightarrow> u32 \<Rightarrow> byte \<times> mmc_controller_data" where
  "configure_controller ctl slot = (let ctl = ctl\<lparr>cslot := slot\<rparr> in
     if slot = 0 then (0, ctl\<lparr>cbase := OMAP_HSMMC1_BASE\<rparr>)
     else if slot = 1 then (0, ctl\<lparr>cbase := OMAP_HSMMC2_BASE\<rparr>)
     else (1, ctl))"

definition mmc_send_status :: "'h hw \<Rightarrow> mmc_card_data \<Rightarrow> u32 \<Rightarrow> u32 \<Rightarrow> 'h \<Rightarrow> (byte \<times> u32 \<times> 'h) option" where
  "mmc_send_status c cd base sl h = do {
     (ret, resp, h) \<leftarrow> mmc_send_cmd c h base MMC_CMD13 (push_bit 16 (RCA cd));
     if ret \<noteq> 1 then Some (ret, sl, h)
     else do { r0 \<leftarrow> resp_get resp 0; Some (1, r0, h) } }"

fun wait_prg_loop :: "'h hw \<Rightarrow> mmc_card_data \<Rightarrow> u32 \<Rightarrow> u32 \<Rightarrow> nat \<Rightarrow> 'h \<Rightarrow> (byte \<times> 'h) option" where
  "wait_prg_loop c cd base sl 0 h = Some (0, h)"
| "wait_prg_loop c cd base sl (Suc n) h = do {
     (err, status, h) \<leftarrow> mmc_send_status c cd base sl h;
     if err \<noteq> 1 then Some (err, h)
     else if drop_bit 9 (status AND 0x1E00) \<noteq> 7 then Some (1, h)
     else wait_prg_loop c cd base sl n (delay c h 1000) }"

definition wait_card_state_prg :: "'h hw \<Rightarrow> mmc_card_data \<Rightarrow> u32 \<Rightarrow> u32 \<Rightarrow> 'h \<Rightarrow> (byte \<times> 'h) option" where
  "wait_card_state_prg c cd base sl h = wait_prg_loop c cd base sl 100 h"

definition tran_exp :: "u32 list" where
  "tran_exp = [10000, 100000, 1000000, 10000000, 0, 0, 0, 0]"

definition tran_mant :: "u32 list" where
  "tran_mant = [0, 10, 12, 13, 15, 20, 25, 30, 35, 40, 45, 50, 55, 60, 70, 80]"

text \<open>The clock divisor for a \<^verbatim>\<open>TRAN_SPEED\<close> byte: \<^verbatim>\<open>return 0\<close> is \<open>Inl\<close>; a division by zero, which
  happens when the card is faster than the 96 MHz master clock, has no result.\<close>

definition clock_divisor :: "byte \<Rightarrow> (byte + u32) option" where
  "clock_divisor trans_speed =
     (let trans_unit = ucast (trans_speed AND 0x07) :: u32; trans_fact = ucast (trans_speed AND 0x78) :: u32 in
      if trans_unit > 3 then Some (Inl 0)
      else if trans_fact < 0x08 \<or> trans_fact > 0x78 then Some (Inl 0)
      else let max_dtr = tran_exp ! unat trans_unit * tran_mant ! unat (drop_bit 3 trans_fact) in
        if max_dtr = 0 then None else
        let dsor = 96000000 div max_dtr in
        if dsor = 0 then None
        else Some (Inr (if 96000000 div dsor > max_dtr then dsor + 1 else dsor)))"

definition switch_arg :: "u32 \<Rightarrow> u32 \<Rightarrow> u32" where
  "switch_arg index value = push_bit 24 3 OR push_bit 16 index OR push_bit 8 value OR 1"

text \<open>\<^verbatim>\<open>configure_mmc\<close> in three steps: set-up and identification; speed, selection and HS timing;
  block length, size and bus width. \<open>Inl\<close> is an early return.\<close>

definition configure_identify ::
  "'h hw \<Rightarrow> mmc_card_data \<Rightarrow> mmc_controller_data \<Rightarrow> 'h \<Rightarrow> (byte \<times> mmc_card_data \<times> 'h) option" where
  "configure_identify c cd ctl h = do {
     (ret, cd, h) \<leftarrow> mmc_detect_card c (cslot ctl) (cbase ctl) cd h;
     if ret \<noteq> 1 then mmc_detect_card c (cslot ctl) (cbase ctl) cd h else Some (ret, cd, h) }"

definition configure_speed ::
  "'h hw \<Rightarrow> mmc_card_data \<Rightarrow> mmc_controller_data \<Rightarrow> byte \<Rightarrow> u32 \<Rightarrow> 'h \<Rightarrow> (byte \<times> 'h) option" where
  "configure_speed c cd ctl trans_speed sl h = do {
     (ret, _, h) \<leftarrow> mmc_send_cmd c h (cbase ctl) MMC_CMD4 (push_bit 16 0x0404);
     if ret \<noteq> 1 then Some (ret, h) else do {
     d \<leftarrow> clock_divisor trans_speed;
     case d of Inl r \<Rightarrow> Some (r, h) | Inr dsor \<Rightarrow> do {
     (ret, h) \<leftarrow> mmc_clock_config c (cbase ctl) 2 (ucast dsor) h;
     if ret \<noteq> 1 then Some (ret, h) else do {
     (ret, _, h) \<leftarrow> mmc_send_cmd c h (cbase ctl) MMC_CMD7_SELECT (push_bit 16 (RCA cd));
     if ret \<noteq> 1 then Some (ret, h)
     else if cslot ctl \<noteq> 1 then Some (1, h)
     else do {
     (ret, _, h) \<leftarrow> mmc_send_cmd c h (cbase ctl) MMC_CMD6 (switch_arg 185 1);
     if ret \<noteq> 1 then Some (ret, h) else do {
     (_, h) \<leftarrow> wait_card_state_prg c cd (cbase ctl) sl h;
     mmc_clock_config c (cbase ctl) 2 2 h } } } } } }"

definition configure_bus ::
  "'h hw \<Rightarrow> mmc_card_data \<Rightarrow> mmc_controller_data \<Rightarrow> u32 list \<Rightarrow> u32 \<Rightarrow> 'h \<Rightarrow> (byte \<times> mmc_card_data \<times> u32 \<times> 'h) option" where
  "configure_bus c cd ctl csd sl h = do {
     (ret, _, h) \<leftarrow> mmc_send_cmd c h (cbase ctl) MMC_CMD16 512;
     if ret \<noteq> 1 then Some (ret, cd, sl, h) else do {
     (ret, cd, sl, h) \<leftarrow> mmc_read_cardsize c (cbase ctl) cd csd sl h;
     if ret \<noteq> 1 then Some (ret, cd, sl, h)
     else if cslot ctl \<noteq> 1 then Some (1, cd, sl, h)
     else do {
     (ret, _, h) \<leftarrow> mmc_send_cmd c h (cbase ctl) MMC_CMD6 (switch_arg 183 2);
     if ret \<noteq> 1 then Some (ret, cd, sl, h) else do {
     let h = rmw c h (cbase ctl + R_CON) (\<lambda>v. v OR 0x20);
     (_, h) \<leftarrow> wait_card_state_prg c cd (cbase ctl) sl h;
     Some (1, cd, sl, h) } } } }"

definition configure_mmc ::
  "'h hw \<Rightarrow> mmc_card_data \<Rightarrow> mmc_controller_data \<Rightarrow> u32 \<Rightarrow> 'h \<Rightarrow> (byte \<times> mmc_card_data \<times> u32 \<times> 'h) option" where
  "configure_mmc c cd ctl sl h = do {
     (ret, h) \<leftarrow> mmc_init_setup c (cslot ctl) (cbase ctl) h;
     if ret \<noteq> 1 then Some (ret, cd, sl, h) else do {
     (_, cd, h) \<leftarrow> configure_identify c cd ctl h;
     (ret, resp, h) \<leftarrow> mmc_send_cmd c h (cbase ctl) MMC_CMD9 (push_bit 16 (RCA cd));
     if ret \<noteq> 1 then Some (ret, cd, sl, h) else do {
     r3 \<leftarrow> resp_get resp 3; r2 \<leftarrow> resp_get resp 2; r1 \<leftarrow> resp_get resp 1; r0 \<leftarrow> resp_get resp 0;
     let csd = [r0, r1, r2, r3];
     let cd = (if card_type cd = MMC_CARD then cd\<lparr>version := csd_field csd 122 4\<rparr> else cd);
     (ret, h) \<leftarrow> configure_speed c cd ctl (ucast (csd_field csd 96 8)) sl h;
     if ret \<noteq> 1 then Some (ret, cd, sl, h)
     else configure_bus c cd ctl csd sl h } } }"

section \<open>The driver's interface\<close>

record 'h mmc =
  m_hw :: 'h
  mmc_stat_last :: u32
  cur_card_data :: "nat \<Rightarrow> mmc_card_data"
  cur_controller_data :: "nat \<Rightarrow> mmc_controller_data"
  mmc_blk_dev :: "nat \<Rightarrow> block_dev_desc"
  m_fat :: fat_vars

definition mmc_read_at ::
  "'h hw \<Rightarrow> 'h mmc \<Rightarrow> nat \<Rightarrow> u32 \<Rightarrow> byte list \<Rightarrow> nat \<Rightarrow> u32 \<Rightarrow> (byte \<times> byte list \<times> 'h mmc) option" where
  "mmc_read_at c s slot src buf off sz = do {
     (ret, buf, h, sl) \<leftarrow> omap_mmc_read_sect c src sz (cur_controller_data s slot) (cur_card_data s slot)
                            buf off (m_hw s) (mmc_stat_last s);
     Some (ret, buf, s\<lparr>m_hw := h, mmc_stat_last := sl\<rparr>) }"

definition mmc_bread :: "'h hw \<Rightarrow> nat \<Rightarrow> 'h mmc bread" where
  "mmc_bread c dev_num = (\<lambda>s blknr blkcnt dst. do {
     (ret, dst, s) \<leftarrow> mmc_read_at c s dev_num blknr dst 0 (blkcnt * 512);
     Some (ucast ret, dst, s) })"

definition mmc_init :: "'h hw \<Rightarrow> 'h mmc \<Rightarrow> nat \<Rightarrow> (int \<times> 'h mmc) option" where
  "mmc_init c s slot =
     (if slot > 1 then None else do {
        let (_, ctl) = configure_controller (cur_controller_data s slot) (of_nat slot);
        let s = s\<lparr>cur_controller_data := (cur_controller_data s)(slot := ctl)\<rparr>;
        (ret, cd, sl, h) \<leftarrow> configure_mmc c (cur_card_data s slot) ctl (mmc_stat_last s) (m_hw s);
        let s = s\<lparr>m_hw := h, mmc_stat_last := sl, cur_card_data := (cur_card_data s)(slot := cd)\<rparr>;
        if ret \<noteq> 1
        then Some (0, s\<lparr>mmc_blk_dev := (mmc_blk_dev s)(slot := (mmc_blk_dev s slot)\<lparr>bd_dev := 0xFFFFFFFF\<rparr>)\<rparr>)
        else
          let d = (mmc_blk_dev s slot)\<lparr>if_type := IF_TYPE_MMC, part_type := PART_TYPE_DOS, bd_dev := cslot ctl,
                    lun := 0, dev_type := 0, blksz := 512, lba := 0x10000, removable := 0\<rparr>;
              s = s\<lparr>mmc_blk_dev := (mmc_blk_dev s)(slot := d)\<rparr>
          in do { (_, fv, s) \<leftarrow> fat_register_device (mmc_bread c slot) d 1 (m_fat s) s;
                  Some (0, s\<lparr>m_fat := fv\<rparr>) } })"

definition not_initialised :: "'h mmc \<Rightarrow> nat \<Rightarrow> bool" where
  "not_initialised s slot \<longleftrightarrow> bd_dev (mmc_blk_dev s slot) = 0xFFFFFFFF"

definition mmc_read ::
  "'h hw \<Rightarrow> 'h mmc \<Rightarrow> nat \<Rightarrow> u32 \<Rightarrow> byte list \<Rightarrow> nat \<Rightarrow> u32 \<Rightarrow> (int \<times> byte list \<times> 'h mmc) option" where
  "mmc_read c s slot src buf off sz =
     (if slot > 1 then None
      else if not_initialised s slot then Some (1, buf, s)
      else do { (ret, buf, s) \<leftarrow> mmc_read_at c s slot src buf off sz; Some (uint ret, buf, s) })"

definition mmc_write ::
  "'h hw \<Rightarrow> 'h mmc \<Rightarrow> nat \<Rightarrow> byte list \<Rightarrow> nat \<Rightarrow> u32 \<Rightarrow> u32 \<Rightarrow> (int \<times> 'h mmc) option" where
  "mmc_write c s slot buf off dst sz =
     (if slot > 1 then None
      else if not_initialised s slot then Some (1, s)
      else do {
        (ret, h) \<leftarrow> omap_mmc_write_sect c buf off sz (cur_controller_data s slot) (cur_card_data s slot) dst (m_hw s);
        Some (uint ret, s\<lparr>m_hw := h\<rparr>) })"

definition mmc_erase :: "'h hw \<Rightarrow> 'h mmc \<Rightarrow> nat \<Rightarrow> u32 \<Rightarrow> u32 \<Rightarrow> (int \<times> 'h mmc) option" where
  "mmc_erase c s slot start sz =
     (if slot > 1 then None
      else if not_initialised s slot then Some (1, s)
      else do {
        (ret, h) \<leftarrow> omap_mmc_erase_sect c start (cur_controller_data s slot) (cur_card_data s slot) sz (m_hw s);
        Some (uint ret, s\<lparr>m_hw := h\<rparr>) })"

definition mmc_info :: "'h mmc \<Rightarrow> nat \<Rightarrow> u32 \<times> u32" where
  "mmc_info s slot = (blksz (mmc_blk_dev s slot), card_size (cur_card_data s slot))"

definition mmc_sw_part :: "'h hw \<Rightarrow> 'h mmc \<Rightarrow> nat \<Rightarrow> u32 \<Rightarrow> (int \<times> 'h mmc) option" where
  "mmc_sw_part c s slot p =
     (if slot > 1 then None
      else if not_initialised s slot then Some (1, s)
      else do {
        (ret, _, h) \<leftarrow> mmc_send_cmd c (m_hw s) (cbase (cur_controller_data s slot)) MMC_CMD6
                        (push_bit 24 3 OR push_bit 16 0xb3 OR push_bit 8 (p AND 7));
        Some (uint ret, s\<lparr>m_hw := h\<rparr>) })"

definition mmc_get_status :: "'h hw \<Rightarrow> 'h mmc \<Rightarrow> nat \<Rightarrow> (int \<times> u32 \<times> 'h mmc) option" where
  "mmc_get_status c s slot =
     (if slot > 1 \<or> not_initialised s slot then None
      else do {
        (ret, status, h) \<leftarrow> mmc_send_status c (cur_card_data s slot) (cbase (cur_controller_data s slot))
                              (mmc_stat_last s) (m_hw s);
        Some (if ret \<noteq> 1 then 0 else 1, status, s\<lparr>m_hw := h\<rparr>) })"

definition mmc_ops :: "'h hw \<Rightarrow> 'h mmc blk_ops" where
  "mmc_ops c = \<lparr>op_init = mmc_init c, op_read = mmc_read c, op_write = mmc_write c, op_erase = mmc_erase c,
     op_info = mmc_info, op_sw_part = mmc_sw_part c\<rparr>"

end
