(* ===== verification/EmmcHw.thy ===== *)
theory EmmcHw
  imports Mmc
begin

text \<open>
  A controller with an eMMC on it: the hardware the driver of theory \<open>Mmc\<close> is run on, and the proof
  that the driver then keeps the promises of \<open>block_device\<close>.

  The register behaviour is that of the OMAP4 HSMMC controller as far as the driver uses it: status
  bits are cleared by writing ones, a command raises CC or, if the card does not answer, an error
  with a command time-out; once CC is acknowledged a data command raises BRR or BWR for each block
  and TC after the last; the data register is a FIFO of 32 bit words; the number of blocks of a
  multiple block write is in the upper half of BLK. The card answers the MMC commands, not the SD
  ones; CMD0 switches the user area in, CMD6 on byte 179 of the extended CSD selects a partition.
\<close>

datatype xfer = XIdle | XRead "u32 list" | XWrite nat nat "u32 list"

record emmc =
  e_misc :: "u32 \<Rightarrow> u32"
  e_arg :: u32
  e_blk :: u32
  e_stat :: u32
  e_rsp :: "u32 list"
  e_xfer :: xfer
  e_part :: nat
  e_sect :: "nat \<Rightarrow> nat \<Rightarrow> byte list"

abbreviation B :: u32 where "B \<equiv> OMAP_HSMMC2_BASE"

definition EMMC_SECTORS :: nat where "EMMC_SECTORS = 15269888"

definition ext_csd :: "byte list" where
  "ext_csd = replicate 212 0 @ le32 (of_nat EMMC_SECTORS) @ replicate 296 0"

definition CTO_ERR :: u32 where "CTO_ERR = 0x18000"

definition hs_exec :: "u32 \<Rightarrow> emmc \<Rightarrow> emmc" where
  "hs_exec cmd h = (let i = drop_bit 24 cmd; ok = h\<lparr>e_stat := CC_MASK, e_rsp := [0x900, 0, 0, 0]\<rparr> in
     if i = 0 then ok\<lparr>e_part := 0, e_xfer := XIdle\<rparr>
     else if i = 1 then ok\<lparr>e_rsp := [0xC0FF8080, 0, 0, 0]\<rparr>
     else if i = 6 then (if drop_bit 16 (e_arg h) AND 0xFF = 0xb3
                         then ok\<lparr>e_part := unat (drop_bit 8 (e_arg h) AND 7)\<rparr> else ok)
     else if i = 8 then (if cmd AND DP_DATA \<noteq> 0 then ok\<lparr>e_xfer := XRead (bytes_to_words ext_csd)\<rparr>
                         else h\<lparr>e_stat := CTO_ERR\<rparr>)
     else if i = 9 then ok\<lparr>e_rsp := [0, 0, 0, 0x10000032]\<rparr>
     else if i = 17 then ok\<lparr>e_xfer := XRead (bytes_to_words (e_sect h (e_part h) (unat (e_arg h))))\<rparr>
     else if i = 24 then ok\<lparr>e_xfer := XWrite 1 (unat (e_arg h)) []\<rparr>
     else if i = 25 then ok\<lparr>e_xfer := XWrite (unat (drop_bit 16 (e_blk h))) (unat (e_arg h)) []\<rparr>
     else if i = 55 then h\<lparr>e_stat := CTO_ERR\<rparr>
     else ok)"

definition hs_rd :: "emmc \<Rightarrow> u32 \<Rightarrow> u32 \<times> emmc" where
  "hs_rd h r =
     (if r = B + R_STAT then (e_stat h, h)
      else if r = B + R_PSTATE then (0, h)
      else if r = B + R_SYSSTATUS then (1, h)
      else if r = B + R_SYSCTL then ((e_misc h r AND NOT 0x1000000) OR 0x2, h)
      else if r = B + R_RSP10 then (e_rsp h ! 0, h)
      else if r = B + R_RSP32 then (e_rsp h ! 1, h)
      else if r = B + R_RSP54 then (e_rsp h ! 2, h)
      else if r = B + R_RSP76 then (e_rsp h ! 3, h)
      else if r = B + R_ARG then (e_arg h, h)
      else if r = B + R_BLK then (e_blk h, h)
      else if r = B + R_DATA then
        (case e_xfer h of
           XRead [w] \<Rightarrow> (w, h\<lparr>e_xfer := XIdle, e_stat := e_stat h OR TC_MASK\<rparr>)
         | XRead (w # ws) \<Rightarrow> (w, h\<lparr>e_xfer := XRead ws\<rparr>)
         | _ \<Rightarrow> (0, h))
      else (e_misc h r, h))"

definition hs_ack :: "u32 \<Rightarrow> emmc \<Rightarrow> emmc" where
  "hs_ack v h = (let h' = h\<lparr>e_stat := e_stat h AND NOT v\<rparr> in
     if e_stat h AND v AND CC_MASK = 0 then h'
     else case e_xfer h of
       XIdle \<Rightarrow> h'
     | XRead _ \<Rightarrow> h'\<lparr>e_stat := e_stat h' OR BRR_MASK\<rparr>
     | XWrite _ _ _ \<Rightarrow> h'\<lparr>e_stat := e_stat h' OR BWR_MASK\<rparr>)"

definition hs_push :: "u32 \<Rightarrow> emmc \<Rightarrow> emmc" where
  "hs_push v h =
     (case e_xfer h of
        XWrite n a ws \<Rightarrow>
          (let ws = ws @ [v] in
           if length ws < 128 then h\<lparr>e_xfer := XWrite n a ws\<rparr>
           else let h = h\<lparr>e_sect := (e_sect h)(e_part h := (e_sect h (e_part h))(a := words_to_bytes ws))\<rparr>
                in if n \<le> 1 then h\<lparr>e_xfer := XIdle, e_stat := e_stat h OR TC_MASK\<rparr>
                   else h\<lparr>e_xfer := XWrite (n - 1) (a + 1) [], e_stat := e_stat h OR BWR_MASK\<rparr>)
      | _ \<Rightarrow> h)"

definition hs_wr :: "emmc \<Rightarrow> u32 \<Rightarrow> u32 \<Rightarrow> emmc" where
  "hs_wr h r v =
     (if r = B + R_STAT then hs_ack v h
      else if r = B + R_ARG then h\<lparr>e_arg := v\<rparr>
      else if r = B + R_BLK then h\<lparr>e_blk := v\<rparr>
      else if r = B + R_CMD then hs_exec v h
      else if r = B + R_DATA then hs_push v h
      else h\<lparr>e_misc := (e_misc h)(r := v)\<rparr>)"

definition hsmmc :: "emmc hw" where
  "hsmmc = \<lparr>reg_rd = hs_rd, reg_wr = hs_wr, i2c_wr = (\<lambda>h _ _ _. h), delay = (\<lambda>h _. h)\<rparr>"

lemma hsmmc_sel [simp]: "reg_rd hsmmc = hs_rd" "reg_wr hsmmc = hs_wr" "i2c_wr hsmmc h a b d = h" "delay hsmmc h n = h"
  by (simp_all add: hsmmc_def)

section \<open>Registers\<close>

lemma hs_rd_simps [simp]:
  "hs_rd h (B + R_STAT) = (e_stat h, h)"
  "hs_rd h (B + R_PSTATE) = (0, h)"
  "hs_rd h (B + R_SYSSTATUS) = (1, h)"
  "hs_rd h (B + R_SYSCTL) = ((e_misc h (B + R_SYSCTL) AND NOT 0x1000000) OR 0x2, h)"
  "hs_rd h (B + R_RSP10) = (e_rsp h ! 0, h)"
  "hs_rd h (B + R_RSP32) = (e_rsp h ! 1, h)"
  "hs_rd h (B + R_RSP54) = (e_rsp h ! 2, h)"
  "hs_rd h (B + R_RSP76) = (e_rsp h ! 3, h)"
  by (simp_all add: hs_rd_def reg_defs)

lemma hs_wr_simps [simp]:
  "hs_wr h (B + R_STAT) v = hs_ack v h"
  "hs_wr h (B + R_ARG) v = h\<lparr>e_arg := v\<rparr>"
  "hs_wr h (B + R_BLK) v = h\<lparr>e_blk := v\<rparr>"
  "hs_wr h (B + R_CMD) v = hs_exec v h"
  "hs_wr h (B + R_DATA) v = hs_push v h"
  by (simp_all add: hs_wr_def reg_defs)

lemma hs_plain:
  assumes "r \<in> {B + R_SYSCONFIG, B + R_SYSCTL, B + R_CON, B + R_HCTL, B + R_IE, B + R_CAPA}"
  shows "\<exists>m. hs_wr h r v = h\<lparr>e_misc := m\<rparr>" and "\<exists>w. hs_rd h r = (w, h)"
  using assms by (auto simp: hs_wr_def hs_rd_def reg_defs)

lemma rmw_plain:
  assumes "r \<in> {B + R_SYSCONFIG, B + R_SYSCTL, B + R_CON, B + R_HCTL, B + R_IE, B + R_CAPA}"
  shows "\<exists>m. rmw hsmmc h r f = h\<lparr>e_misc := m\<rparr>"
  using hs_plain[OF assms, of h] by (auto simp: rmw_def split: prod.split)

section \<open>Commands\<close>

lemma poll_hit: "reg_rd c h r = (v, h') \<Longrightarrow> P v \<Longrightarrow> poll_until c r P h = Some (v, h')"
  by (subst poll_until.simps) simp

lemma ack_idle:
  "e_xfer h = XIdle \<Longrightarrow> hs_ack v h = h\<lparr>e_stat := e_stat h AND NOT v\<rparr>"
  by (simp add: hs_ack_def Let_def)

lemma neg_ones [simp]: "(- 4294967296 :: u32) = 0"
  by code_simp

lemma hs_ack_all [simp]: "e_xfer h = XIdle \<Longrightarrow> hs_ack 0xFFFFFFFF h = h\<lparr>e_stat := 0\<rparr>"
  by (simp add: ack_idle)

lemma send_start:
  assumes "e_xfer h = XIdle" and "drop_bit 24 cmd \<noteq> 0x19" and "drop_bit 24 cmd \<noteq> 0xC"
  shows "mmc_send_cmd hsmmc h B cmd arg
    = cmd_wait hsmmc B cmd (hs_exec cmd (h\<lparr>e_stat := 0, e_arg := arg, e_blk := 0x200\<rparr>))"
  using assms by (simp add: mmc_send_cmd_def poll_hit[of hsmmc h "B + R_PSTATE" 0 h] DATI_MASK_def)

lemma wait_ok:
  assumes "e_stat h = CC_MASK"
  shows "cmd_wait hsmmc B cmd h
    = Some (1, if cmd AND RSP_TYPE_MASK = RSP_TYPE_LGHT136 then map ((!) (e_rsp h)) [0, 1, 2, 3] else [e_rsp h ! 0],
            hs_ack CC_MASK h)"
proof -
  have r: "e_rsp (hs_ack CC_MASK h) = e_rsp h"
    by (simp add: hs_ack_def Let_def split: xfer.split)
  show ?thesis
    by (subst cmd_wait.simps)
      (simp add: poll_hit[of hsmmc h "B + R_STAT" CC_MASK h] assms mask_defs r[unfolded CC_MASK_def])
qed

lemma wait_err:
  assumes "e_stat h = CTO_ERR"
  shows "cmd_wait hsmmc B cmd h = Some (0, [], h)"
  by (subst cmd_wait.simps)
    (simp add: poll_hit[of hsmmc h "B + R_STAT" CTO_ERR h] assms CTO_ERR_def mask_defs)

text \<open>A command without data that the card answers.\<close>

definition answered :: "u32 \<Rightarrow> emmc \<Rightarrow> emmc" where
  "answered arg h = h\<lparr>e_stat := 0, e_arg := arg, e_blk := 0x200\<rparr>"

lemma CC_not [simp]: "CC_MASK AND NOT CC_MASK = 0"
  by (simp add: CC_MASK_def)

lemma send_nodata:
  assumes "e_xfer h = XIdle"
    and "drop_bit 24 cmd \<notin> {0, 6, 8, 17, 24, 25, 55, 12}"
  shows "\<exists>rsp. mmc_send_cmd hsmmc h B cmd arg
    = Some (1, if cmd AND RSP_TYPE_MASK = RSP_TYPE_LGHT136 then map ((!) rsp) [0, 1, 2, 3] else [rsp ! 0],
        (answered arg h)\<lparr>e_rsp := rsp\<rparr>)
    \<and> rsp = (if drop_bit 24 cmd = 1 then [0xC0FF8080, 0, 0, 0]
           else if drop_bit 24 cmd = 9 then [0, 0, 0, 0x10000032] else [0x900, 0, 0, 0])"
  using assms by (simp add: send_start wait_ok hs_exec_def ack_idle answered_def)

section \<open>Reading\<close>

lemma words_bytes [simp]: "length bs mod 4 = 0 \<Longrightarrow> words_to_bytes (bytes_to_words bs) = bs"
proof (induction bs rule: bytes_to_words.induct)
  case (1 a b c d bs)
  have "le32 (of_le [a, b, c, d]) = [a, b, c, d]"
    using le_bytes_of_le[of "[a, b, c, d]", where 'w = 32] by (simp add: eval_nat_numeral del: of_le.simps)
  then show ?case using 1 by (simp add: words_to_bytes_def del: of_le.simps)
qed (simp_all add: words_to_bytes_def)

lemma length_bytes_to_words [simp]: "length (bytes_to_words bs) = length bs div 4"
  by (induction bs rule: bytes_to_words.induct) simp_all

lemma length_words_to_bytes [simp]: "length (words_to_bytes ws) = 4 * length ws"
  by (induction ws) (simp_all add: words_to_bytes_def)

lemma hs_rd_data [simp]:
  "e_xfer h = XRead (w # ws) \<Longrightarrow> hs_rd h (B + R_DATA)
    = (w, if ws = [] then h\<lparr>e_xfer := XIdle, e_stat := e_stat h OR TC_MASK\<rparr> else h\<lparr>e_xfer := XRead ws\<rparr>)"
  by (simp add: hs_rd_def reg_defs split: list.split)

lemma read_fifo_hs:
  assumes "e_xfer h = XRead ws" and "ws \<noteq> []"
  shows "read_fifo hsmmc B (length ws) h = (ws, h\<lparr>e_xfer := XIdle, e_stat := e_stat h OR TC_MASK\<rparr>)"
  using assms
proof (induction ws arbitrary: h)
  case (Cons w ws)
  then show ?case by (cases "ws = []") simp_all
qed simp

lemma read_data_hs:
  assumes "e_xfer h = XRead ws" and "length ws = 128" and "e_stat h = BRR_MASK" and "off + 512 \<le> length buf"
  shows "mmc_read_data hsmmc B buf off h
    = Some (1, patch off (words_to_bytes ws) buf, h\<lparr>e_xfer := XIdle, e_stat := 0\<rparr>, TC_MASK)"
proof -
  have a: "rmw hsmmc h (B + R_STAT) (\<lambda>v. v OR BRR_MASK) = h\<lparr>e_stat := 0\<rparr>"
    using assms(1,3) by (simp add: rmw_def hs_ack_def mask_defs Let_def)
  have f: "read_fifo hsmmc B 128 (h\<lparr>e_stat := 0\<rparr>) = (ws, h\<lparr>e_xfer := XIdle, e_stat := TC_MASK\<rparr>)"
    using read_fifo_hs[of "h\<lparr>e_stat := 0\<rparr>" ws] assms(1,2) by force
  have 2: "mmc_read_data hsmmc B b k (h\<lparr>e_xfer := XIdle, e_stat := TC_MASK\<rparr>)
      = Some (1, b, h\<lparr>e_xfer := XIdle, e_stat := 0\<rparr>, TC_MASK)" for b k
    by (subst mmc_read_data.simps)
      (simp add: poll_hit[of hsmmc _ "B + R_STAT" 2 "h\<lparr>e_xfer := XIdle, e_stat := 2\<rparr>"] mask_defs rmw_def ack_idle)
  have "store off (words_to_bytes ws) buf = Some (patch off (words_to_bytes ws) buf)"
    using assms(2,4) by simp
  then show ?thesis
    by (subst mmc_read_data.simps)
      (use a f 2 assms(3) in \<open>simp add: poll_hit[of hsmmc h "B + R_STAT" 32 h] mask_defs store_def\<close>)
qed

text \<open>CMD17 and the data of the sector.\<close>

lemma read_one:
  assumes "e_xfer h = XIdle" and "length (e_sect h (e_part h) (unat a)) = 512"
  shows "\<exists>h1. mmc_send_cmd hsmmc h B MMC_CMD17 a = Some (1, [0x900], h1)
    \<and> (\<forall>buf off. off + 512 \<le> length buf \<longrightarrow> mmc_read_data hsmmc B buf off h1
      = Some (1, patch off (e_sect h (e_part h) (unat a)) buf, (answered a h)\<lparr>e_rsp := [0x900, 0, 0, 0]\<rparr>, TC_MASK))"
proof -
  have "MMC_CMD17 AND RSP_TYPE_MASK \<noteq> RSP_TYPE_LGHT136" "drop_bit 24 MMC_CMD17 = 17"
    by (simp_all add: cmd_defs RSP_TYPE_MASK_def RSP_TYPE_LGHT136_def)
  then show ?thesis using assms
    by (auto simp: send_start wait_ok hs_exec_def hs_ack_def Let_def mask_defs read_data_hs answered_def)
qed

definition card_ok :: "emmc \<Rightarrow> bool" where
  "card_ok h \<longleftrightarrow> e_xfer h = XIdle \<and> (\<forall>p n. length (e_sect h p n) = 512)"

lemma card_ok_answered [simp]: "card_ok ((answered a h)\<lparr>e_rsp := r\<rparr>) = card_ok h"
  by (simp add: card_ok_def answered_def)

lemma unat_Suc_word: "unat (a :: u32) + Suc n < 2 ^ 32 \<Longrightarrow> unat (a + 1) = Suc (unat a)"
  by (subst unat_add_lem[THEN iffD1]) auto

lemma read_loop_hs:
  assumes "card_ok h" and "off + 512 * n \<le> length buf" and "unat a + n < 2 ^ 32"
  shows "\<exists>h' sl'. read_sect_loop hsmmc B 1 n a buf off h sl
      = Some (1, patch off (sectors (e_sect h (e_part h)) (unat a) n) buf, h', sl')
    \<and> card_ok h' \<and> e_part h' = e_part h \<and> e_sect h' = e_sect h"
  using assms
proof (induction n arbitrary: a buf off h sl)
  case 0
  then show ?case by (simp add: patch_def)
next
  case (Suc n)
  let ?d = "e_sect h (e_part h)" and ?h = "(answered a h)\<lparr>e_rsp := [0x900, 0, 0, 0]\<rparr>"
  have len: "length (?d k) = 512" for k using Suc.prems(1) by (simp add: card_ok_def)
  obtain h1 where h1: "mmc_send_cmd hsmmc h B MMC_CMD17 a = Some (1, [0x900], h1)"
    "mmc_read_data hsmmc B buf off h1 = Some (1, patch off (?d (unat a)) buf, ?h, TC_MASK)"
    using read_one[of h a] Suc.prems(1,2) len by (force simp: card_ok_def)
  have same: "e_part ?h = e_part h" "e_sect ?h = e_sect h" by (simp_all add: answered_def)
  have "card_ok ?h" using Suc.prems(1) by simp
  moreover have "off + 512 + 512 * n \<le> length (patch off (?d (unat a)) buf)" using Suc.prems(2) len by simp
  moreover have "unat (a + 1) + n < 2 ^ 32" using Suc.prems(3) unat_Suc_word[of a n] by simp
  ultimately obtain h' sl' where IH: "read_sect_loop hsmmc B 1 n (a + 1) (patch off (?d (unat a)) buf) (off + 512) ?h TC_MASK
      = Some (1, patch (off + 512) (sectors ?d (unat (a + 1)) n) (patch off (?d (unat a)) buf), h', sl')"
    "card_ok h'" "e_part h' = e_part h" "e_sect h' = e_sect h"
    using Suc.IH[of ?h "off + 512" "patch off (?d (unat a)) buf" "a + 1" TC_MASK] unfolding same by auto
  have "length (sectors ?d (Suc (unat a)) n) = 512 * n" by (rule length_sectors) (simp add: len)
  then have "patch (off + 512) (sectors ?d (unat (a + 1)) n) (patch off (?d (unat a)) buf)
      = patch off (sectors ?d (unat a) (Suc n)) buf"
    using patch_append[of off "?d (unat a)" "sectors ?d (Suc (unat a)) n" buf] Suc.prems(2,3) len
      unat_Suc_word[of a n] by (simp add: sectors_Suc)
  with IH h1 show ?case by simp
qed

section \<open>Writing and erasing\<close>

definition written :: "nat \<Rightarrow> byte list \<Rightarrow> emmc \<Rightarrow> emmc" where
  "written a bs h = h\<lparr>e_sect := (e_sect h)(e_part h := upd_sectors (e_sect h (e_part h)) a bs)\<rparr>"

lemma written_sel [simp]:
  "e_part (written a bs h) = e_part h" "e_xfer (written a bs h) = e_xfer h" "e_stat (written a bs h) = e_stat h"
  "e_sect (written a bs h) = (e_sect h)(e_part h := upd_sectors (e_sect h (e_part h)) a bs)"
  by (simp_all add: written_def)

lemma written_append:
  "length xs = 512 * k \<Longrightarrow> written (a + k) ys (written a xs h) = written a (xs @ ys) h"
  by (simp add: written_def upd_sectors_append)

lemma card_ok_written [simp]: "card_ok h \<Longrightarrow> card_ok (written a bs h)"
  by (simp add: card_ok_def length_upd_sectors)

lemma write_fifo_hs:
  assumes "e_xfer h = XWrite n a ws0" and "length ws0 + length ws = 128" and "ws \<noteq> []"
  shows "write_fifo hsmmc B ws h
    = (let h = written a (words_to_bytes (ws0 @ ws)) h in
       if n \<le> 1 then h\<lparr>e_xfer := XIdle, e_stat := e_stat h OR TC_MASK\<rparr>
       else h\<lparr>e_xfer := XWrite (n - 1) (a + 1) [], e_stat := e_stat h OR BWR_MASK\<rparr>)"
  using assms
proof (induction ws arbitrary: ws0 h)
  case (Cons w ws)
  show ?case
  proof (cases "ws = []")
    case True
    then show ?thesis using Cons.prems
      by (simp add: hs_push_def Let_def written_def upd_sectors_one)
  next
    case False
    then have "length ws0 < 127" using Cons.prems(2) by (cases ws) simp_all
    with False show ?thesis using Cons.prems Cons.IH[of "h\<lparr>e_xfer := XWrite n a (ws0 @ [w])\<rparr>" "ws0 @ [w]"]
      by (simp add: hs_push_def Let_def written_def)
  qed
qed simp

lemma write_data_hs:
  assumes "e_xfer h = XWrite n a []" and "0 < n" and "e_stat h = BWR_MASK" and "off + 512 * n \<le> length buf"
  shows "mmc_write_data hsmmc B buf off cnt h
    = Some (cnt + int n, (written a (bslice off (512 * n) buf) h)\<lparr>e_xfer := XIdle, e_stat := 0\<rparr>)"
  using assms
proof (induction n arbitrary: a off cnt h)
  case (Suc n)
  let ?bs = "bslice off 512 buf"
  have ld: "load off 512 buf = Some ?bs" using Suc.prems(4) by simp
  have len: "length ?bs = 512" using Suc.prems(4) by simp
  have a: "rmw hsmmc h (B + R_STAT) (\<lambda>v. v OR BWR_MASK) = h\<lparr>e_stat := 0\<rparr>"
    using Suc.prems(1,3) by (simp add: rmw_def hs_ack_def mask_defs Let_def)
  have f: "write_fifo hsmmc B (bytes_to_words ?bs) (h\<lparr>e_stat := 0\<rparr>)
    = (let h = written a ?bs (h\<lparr>e_stat := 0\<rparr>) in
       if n = 0 then h\<lparr>e_xfer := XIdle, e_stat := TC_MASK\<rparr>
       else h\<lparr>e_xfer := XWrite n (a + 1) [], e_stat := BWR_MASK\<rparr>)"
    using write_fifo_hs[of "h\<lparr>e_stat := 0\<rparr>" "Suc n" a "[]" "bytes_to_words ?bs"] Suc.prems(1) len
    by (auto simp: Let_def simp flip: length_0_conv)
  have step: "mmc_write_data hsmmc B buf off cnt h = mmc_write_data hsmmc B buf (off + 512) (cnt + 1)
      (write_fifo hsmmc B (bytes_to_words ?bs) (h\<lparr>e_stat := 0\<rparr>))"
    by (subst mmc_write_data.simps)
      (use a Suc.prems(3) ld in \<open>simp add: poll_hit[of hsmmc h "B + R_STAT" 16 h] mask_defs load_def split: if_splits\<close>)
  show ?case
  proof (cases "n = 0")
    case True
    have "mmc_write_data hsmmc B buf k c (g\<lparr>e_xfer := XIdle, e_stat := TC_MASK\<rparr>)
      = Some (c, g\<lparr>e_xfer := XIdle, e_stat := 0\<rparr>)" for k c g
      by (subst mmc_write_data.simps)
        (simp add: poll_hit[of hsmmc _ "B + R_STAT" 2 "g\<lparr>e_xfer := XIdle, e_stat := 2\<rparr>"] mask_defs rmw_def ack_idle)
    with True show ?thesis using step f by (simp add: Let_def written_def)
  next
    case False
    let ?g = "(written a ?bs (h\<lparr>e_stat := 0\<rparr>))\<lparr>e_xfer := XWrite n (a + 1) [], e_stat := BWR_MASK\<rparr>"
    have "mmc_write_data hsmmc B buf (off + 512) (cnt + 1) ?g
      = Some (cnt + 1 + int n, (written (a + 1) (bslice (off + 512) (512 * n) buf) ?g)\<lparr>e_xfer := XIdle, e_stat := 0\<rparr>)"
      by (rule Suc.IH) (use False Suc.prems(4) in simp_all)
    moreover have "(written (a + 1) (bslice (off + 512) (512 * n) buf) ?g)\<lparr>e_xfer := XIdle, e_stat := 0\<rparr>
      = (written a (bslice off (512 * Suc n) buf) h)\<lparr>e_xfer := XIdle, e_stat := 0\<rparr>"
      using len by (simp add: written_def bslice_add flip: upd_sectors_append[of _ 1])
    ultimately show ?thesis using step f False by simp
  qed
qed simp

lemma words_ones: "words_to_bytes (replicate k 0xFFFFFFFF) = replicate (4 * k) 0xFF"
proof (induction k)
  case (Suc k)
  have "le32 0xFFFFFFFF = [0xFF, 0xFF, 0xFF, 0xFF]" by code_simp
  with Suc show ?case by (simp add: words_to_bytes_def eval_nat_numeral)
qed (simp add: words_to_bytes_def)

lemma erase_data_hs:
  assumes "e_xfer h = XWrite n a []" and "0 < n" and "e_stat h = BWR_MASK"
  shows "erase_data hsmmc B h
    = Some (None, (written a (replicate (512 * n) 0xFF) h)\<lparr>e_xfer := XIdle, e_stat := 0\<rparr>)"
  using assms
proof (induction n arbitrary: a h)
  case (Suc n)
  let ?bs = "replicate 512 0xFF :: byte list"
  have a: "rmw hsmmc h (B + R_STAT) (\<lambda>v. v OR BWR_MASK) = h\<lparr>e_stat := 0\<rparr>"
    using Suc.prems(1,3) by (simp add: rmw_def hs_ack_def mask_defs Let_def)
  have f: "write_fifo hsmmc B (replicate 128 0xFFFFFFFF) (h\<lparr>e_stat := 0\<rparr>)
    = (let h = written a ?bs (h\<lparr>e_stat := 0\<rparr>) in
       if n = 0 then h\<lparr>e_xfer := XIdle, e_stat := TC_MASK\<rparr>
       else h\<lparr>e_xfer := XWrite n (a + 1) [], e_stat := BWR_MASK\<rparr>)"
    using write_fifo_hs[of "h\<lparr>e_stat := 0\<rparr>" "Suc n" a "[]" "replicate 128 0xFFFFFFFF"] Suc.prems(1)
    by (auto simp: Let_def words_ones)
  have step: "erase_data hsmmc B h = erase_data hsmmc B
      (write_fifo hsmmc B (replicate 128 0xFFFFFFFF) (h\<lparr>e_stat := 0\<rparr>))"
    by (subst erase_data.simps)
      (use a Suc.prems(3) in \<open>simp add: poll_hit[of hsmmc h "B + R_STAT" 16 h] mask_defs split: if_splits\<close>)
  show ?case
  proof (cases "n = 0")
    case True
    have "erase_data hsmmc B (g\<lparr>e_xfer := XIdle, e_stat := TC_MASK\<rparr>)
      = Some (None, g\<lparr>e_xfer := XIdle, e_stat := 0\<rparr>)" for g
      by (subst erase_data.simps)
        (simp add: poll_hit[of hsmmc _ "B + R_STAT" 2 "g\<lparr>e_xfer := XIdle, e_stat := 2\<rparr>"] mask_defs rmw_def ack_idle)
    with True show ?thesis using step f by (simp add: Let_def written_def)
  next
    case False
    let ?g = "(written a ?bs (h\<lparr>e_stat := 0\<rparr>))\<lparr>e_xfer := XWrite n (a + 1) [], e_stat := BWR_MASK\<rparr>"
    have "erase_data hsmmc B ?g
      = Some (None, (written (a + 1) (replicate (512 * n) 0xFF) ?g)\<lparr>e_xfer := XIdle, e_stat := 0\<rparr>)"
      by (rule Suc.IH) (use False in simp_all)
    moreover have "(written (a + 1) (replicate (512 * n) 0xFF) ?g)\<lparr>e_xfer := XIdle, e_stat := 0\<rparr>
      = (written a (replicate (512 * Suc n) 0xFF) h)\<lparr>e_xfer := XIdle, e_stat := 0\<rparr>"
      by (simp add: written_def replicate_add flip: upd_sectors_append[of _ 1])
    ultimately show ?thesis using step f False by simp
  qed
qed simp

text \<open>The command phase of a write: CMD24 for one block, CMD25 with the block count in BLK.\<close>

lemma cmd_words [simp]:
  "drop_bit 24 MMC_CMD24 = 24" "MMC_CMD24 AND RSP_TYPE_MASK \<noteq> RSP_TYPE_LGHT136"
  "drop_bit 24 MMC_CMD25 = 25" "MMC_CMD25 AND RSP_TYPE_MASK \<noteq> RSP_TYPE_LGHT136"
  "drop_bit 24 MMC_CMD23 = 23" "MMC_CMD23 AND RSP_TYPE_MASK \<noteq> RSP_TYPE_LGHT136"
  "drop_bit 24 (MMC_CMD25 OR 0x20 OR 0x2) = 25"
  "drop_bit 24 MMC_CMD12 = 12" "MMC_CMD12 AND RSP_TYPE_MASK \<noteq> RSP_TYPE_LGHT136"
  "drop_bit 24 (MMC_CMD12 OR push_bit 22 3) = 12"
  by (simp_all add: cmd_defs RSP_TYPE_MASK_def RSP_TYPE_LGHT136_def)

lemma start_write1:
  assumes "e_xfer h = XIdle"
  shows "mmc_send_cmd hsmmc h B MMC_CMD24 a = Some (1, [0x900],
    (answered a h)\<lparr>e_rsp := [0x900, 0, 0, 0], e_xfer := XWrite 1 (unat a) [], e_stat := BWR_MASK\<rparr>)"
  using assms by (simp add: send_start wait_ok hs_exec_def hs_ack_def Let_def mask_defs answered_def)

lemma start_writen:
  assumes "e_xfer h = XIdle"
  shows "mmc_send_cmd hsmmc h B MMC_CMD25 a = Some (1, [0x900],
    h\<lparr>e_stat := BWR_MASK, e_arg := a, e_rsp := [0x900, 0, 0, 0],
      e_xfer := XWrite (unat (drop_bit 16 (e_blk h))) (unat a) []\<rparr>)"
  using assms
  by (simp add: mmc_send_cmd_def poll_hit[of hsmmc h "B + R_PSTATE" 0 h] DATI_MASK_def wait_ok hs_exec_def
      hs_ack_def Let_def mask_defs del: One_nat_def)

lemma send_stop:
  assumes "e_xfer h = XIdle"
  shows "mmc_send_cmd hsmmc h B MMC_CMD12 a = Some (1, [0x900],
    h\<lparr>e_stat := 0, e_arg := a, e_rsp := [0x900, 0, 0, 0]\<rparr>)"
  using assms
  by (simp add: mmc_send_cmd_def poll_hit[of hsmmc h "B + R_PSTATE" 0 h] DATI_MASK_def wait_ok hs_exec_def
      ack_idle)

lemma blk_word: "k \<le> 0xFFFF \<Longrightarrow> drop_bit 16 (push_bit 16 k :: u32) = k"
proof -
  assume "k \<le> 0xFFFF"
  then have "uint k < 2 ^ 16" by (simp add: word_le_def)
  then have "take_bit 16 (uint k) = uint k" by (intro take_bit_int_eq_self) simp_all
  then have k: "take_bit 16 k = k" by (metis unsigned_take_bit_eq unsigned_word_eqI)
  have b: "bit k n \<longleftrightarrow> n < 16 \<and> bit k n" for n using arg_cong[OF k, of "\<lambda>x. bit x n"] by (simp add: bit_simps)
  show ?thesis
  proof (rule bit_word_eqI)
    fix n assume "n < LENGTH(32)"
    then show "bit (drop_bit 16 (push_bit 16 k)) n = bit k n" using b[of n] by (auto simp: bit_simps)
  qed
qed

text \<open>\<open>armed h k a h1\<close>: the hardware waits for \<open>k\<close> blocks for the sectors from \<open>a\<close> on.\<close>

definition armed :: "emmc \<Rightarrow> u32 \<Rightarrow> u32 \<Rightarrow> emmc \<Rightarrow> bool" where
  "armed h k a h1 \<longleftrightarrow> e_xfer h1 = XWrite (unat k) (unat a) [] \<and> e_stat h1 = BWR_MASK
     \<and> e_part h1 = e_part h \<and> e_sect h1 = e_sect h"

lemma start_write:
  assumes "e_xfer h = XIdle" and "0 < k" and "k \<le> 0xFFFF"
  shows "\<exists>h1. (if k > 1 then do {
             (err, _, h) \<leftarrow> mmc_send_cmd hsmmc h B MMC_CMD23 k;
             if err \<noteq> 1 then Some (err, h) else do {
             (err, _, h) \<leftarrow> mmc_send_cmd hsmmc (reg_wr hsmmc h (B + R_BLK) (0x200 OR push_bit 16 k))
                                B MMC_CMD25 a;
             Some (err, h) } }
           else do { (err, _, h) \<leftarrow> mmc_send_cmd hsmmc h B MMC_CMD24 a; Some (err, h) }) = Some (1, h1)
    \<and> armed h k a h1"
proof (cases "k > 1")
  case True
  let ?h = "(answered k h)\<lparr>e_rsp := [0x900, 0, 0, 0]\<rparr>"
  have "mmc_send_cmd hsmmc h B MMC_CMD23 k = Some (1, [0x900], ?h)"
    using send_nodata[of h MMC_CMD23 k] assms(1) by simp
  with True assms show ?thesis
    by (simp add: start_writen blk_word armed_def answered_def)
next
  case False
  then have "unat k = 1" using assms(2) by (simp add: word_less_nat_alt)
  with False assms(1) show ?thesis
    by (simp add: start_write1 armed_def answered_def)
qed

lemma blk_cnt_le: "blk_cnt n \<le> n" "blk_cnt n \<le> 0xFFFF" "0 < n \<Longrightarrow> 0 < blk_cnt n"
  by (auto simp: blk_cnt_def)

text \<open>What is left after a chunk of \<open>k\<close> blocks.\<close>

lemma chunk_words:
  fixes a n k :: u32
  assumes "k \<le> n" and "unat a + unat n < 2 ^ 32"
  shows "unat (n - k) = unat n - unat k" "unat (a + k) = unat a + unat k" "unat k \<le> unat n"
proof -
  show "unat k \<le> unat n" using assms(1) by (simp add: word_le_nat_alt)
  then show "unat (a + k) = unat a + unat k" using assms(2) by (subst unat_add_lem[THEN iffD1]) auto
  show "unat (n - k) = unat n - unat k" using assms(1) by (rule unat_sub)
qed

lemma write_loop_hs:
  assumes "card_ok h" and "off + 512 * unat n \<le> length buf" and "unat a + unat n < 2 ^ 32"
  shows "\<exists>h'. write_sect_loop hsmmc B 1 n a buf off h = Some (1, h') \<and> card_ok h' \<and> e_part h' = e_part h
    \<and> e_sect h' = e_sect (written (unat a) (bslice off (512 * unat n) buf) h)"
  using assms
proof (induction "unat n" arbitrary: n a off h rule: less_induct)
  case less
  show ?case
  proof (cases "n = 0")
    case True
    then show ?thesis using less.prems(1) by (subst write_sect_loop.simps) simp
  next
    case False
    let ?k = "blk_cnt n"
    have k: "0 < ?k" "?k \<le> n" "?k \<le> 0xFFFF" using False blk_cnt_le[of n] by (simp_all add: word_greater_zero_iff)
    note w = chunk_words[OF k(2) less.prems(3)]
    have k0: "0 < unat ?k" using k(1) by (simp add: word_less_nat_alt)
    obtain h1 where h1: "armed h ?k a h1" and cmds: "(if ?k > 1 then do {
             (err, _, h) \<leftarrow> mmc_send_cmd hsmmc h B MMC_CMD23 ?k;
             if err \<noteq> 1 then Some (err, h) else do {
             (err, _, h) \<leftarrow> mmc_send_cmd hsmmc (reg_wr hsmmc h (B + R_BLK) (0x200 OR push_bit 16 ?k))
                                B MMC_CMD25 a;
             Some (err, h) } }
           else do { (err, _, h) \<leftarrow> mmc_send_cmd hsmmc h B MMC_CMD24 a; Some (err, h) }) = Some (1, h1)"
      using start_write[OF _ k(1,3)] less.prems(1) unfolding card_ok_def by blast
    let ?xs = "bslice off (512 * unat ?k) buf" and ?m = "n - ?k"
    let ?h = "(written (unat a) ?xs h1)\<lparr>e_xfer := XIdle, e_stat := 0\<rparr>"
    have "512 * unat ?k \<le> 512 * unat n" using w(3) by simp
    then have ok: "off + 512 * unat ?k \<le> length buf" using less.prems(2) by linarith
    have data: "mmc_write_data hsmmc B buf off 0 h1 = Some (int (unat ?k), ?h)"
      using write_data_hs[of h1 "unat ?k" "unat a" off buf 0] h1 k0 ok by (simp add: armed_def)
    have step: "write_sect_loop hsmmc B 1 n a buf off h
        = write_sect_loop hsmmc B 1 ?m (a + ?k) buf (off + 512 * unat ?k) ?h"
      by (subst write_sect_loop.simps) (simp only: cmds data False if_False Option.bind.bind_lunit split_conv, simp add: data)
    have "card_ok ?h" using less.prems(1) h1 by (simp add: card_ok_def armed_def length_upd_sectors)
    moreover have "off + 512 * unat ?k + 512 * unat ?m \<le> length buf"
      using less.prems(2) w by (simp add: diff_mult_distrib2)
    moreover have "unat (a + ?k) + unat ?m < 2 ^ 32" using w less.prems(3) by simp
    ultimately obtain h' where h': "write_sect_loop hsmmc B 1 ?m (a + ?k) buf (off + 512 * unat ?k) ?h = Some (1, h')"
        "card_ok h'" "e_part h' = e_part ?h"
        "e_sect h' = e_sect (written (unat (a + ?k)) (bslice (off + 512 * unat ?k) (512 * unat ?m) buf) ?h)"
      using less.hyps[of ?m ?h "off + 512 * unat ?k" "a + ?k"] w k0 by auto
    have "bslice off (512 * unat n) buf = ?xs @ bslice (off + 512 * unat ?k) (512 * unat ?m) buf"
      using bslice_add[of off "512 * unat ?k" "512 * unat ?m" buf] w by (simp add: diff_mult_distrib2)
    then have "e_sect h' = e_sect (written (unat a) (bslice off (512 * unat n) buf) h)"
      using h'(4) h1 w(2) ok upd_sectors_append[of ?xs "unat ?k"] by (simp add: armed_def)
    then show ?thesis using step h' h1 by (simp add: armed_def)
  qed
qed

lemma start_erase:
  assumes "e_xfer h = XIdle" and "0 < k" and "k \<le> 0xFFFF"
  shows "\<exists>rsp h1. (if k > 1 then mmc_send_cmd hsmmc (reg_wr hsmmc h (B + R_BLK) (0x200 OR push_bit 16 k)) B MMC_CMD25 a
           else mmc_send_cmd hsmmc h B MMC_CMD24 a) = Some (1, rsp, h1) \<and> armed h k a h1"
proof (cases "k > 1")
  case True
  with assms show ?thesis by (simp add: start_writen blk_word armed_def)
next
  case False
  then have "unat k = 1" using assms(2) by (simp add: word_less_nat_alt)
  with False assms(1) show ?thesis by (simp add: start_write1 armed_def answered_def)
qed

lemma end_erase:
  assumes "e_xfer h = XIdle"
  shows "\<exists>h1. (if k > (1 :: u32) then do { (err, _, h) \<leftarrow> mmc_send_cmd hsmmc h B MMC_CMD12 0; Some (err, h) }
                    else Some (1, h)) = Some (1, h1)
    \<and> e_xfer h1 = XIdle \<and> e_part h1 = e_part h \<and> e_sect h1 = e_sect h"
  using assms by (simp add: send_stop)

lemma erase_loop_hs:
  assumes "card_ok h" and "unat a + unat n < 2 ^ 32"
  shows "\<exists>h'. erase_sect_loop hsmmc B 1 n a h = Some (1, h') \<and> card_ok h' \<and> e_part h' = e_part h
    \<and> e_sect h' = e_sect (written (unat a) (replicate (512 * unat n) 0xFF) h)"
  using assms
proof (induction "unat n" arbitrary: n a h rule: less_induct)
  case less
  show ?case
  proof (cases "n = 0")
    case True
    then show ?thesis using less.prems(1) by (subst erase_sect_loop.simps) simp
  next
    case False
    let ?k = "blk_cnt n" and ?m = "n - blk_cnt n"
    have k: "0 < ?k" "?k \<le> n" "?k \<le> 0xFFFF" using False blk_cnt_le[of n] by (simp_all add: word_greater_zero_iff)
    note w = chunk_words[OF k(2) less.prems(2)]
    have k0: "0 < unat ?k" using k(1) by (simp add: word_less_nat_alt)
    obtain rsp h1 where h1: "armed h ?k a h1" and cmds: "(if ?k > 1
           then mmc_send_cmd hsmmc (reg_wr hsmmc h (B + R_BLK) (0x200 OR push_bit 16 ?k)) B MMC_CMD25 a
           else mmc_send_cmd hsmmc h B MMC_CMD24 a) = Some (1, rsp, h1)"
      using start_erase[OF _ k(1,3)] less.prems(1) unfolding card_ok_def by blast
    let ?xs = "replicate (512 * unat ?k) 0xFF :: byte list"
    let ?h = "(written (unat a) ?xs h1)\<lparr>e_xfer := XIdle, e_stat := 0\<rparr>"
    have data: "erase_data hsmmc B h1 = Some (None, ?h)"
      using erase_data_hs[of h1 "unat ?k" "unat a"] h1 k0 by (simp add: armed_def)
    obtain h2 where fin: "(if ?k > 1 then do { (err, _, h) \<leftarrow> mmc_send_cmd hsmmc ?h B MMC_CMD12 0; Some (err, h) }
                    else Some (1, ?h)) = Some (1, h2)"
      and h2: "e_xfer h2 = XIdle" "e_part h2 = e_part ?h" "e_sect h2 = e_sect ?h"
      using end_erase[of ?h ?k] by auto
    have step: "erase_sect_loop hsmmc B 1 n a h = erase_sect_loop hsmmc B 1 ?m (a + ?k) h2"
      by (subst erase_sect_loop.simps)
        (simp only: cmds data fin False if_False Option.bind.bind_lunit split_conv option.case, simp)
    have "card_ok h2" using less.prems(1) h1 h2 by (simp add: card_ok_def armed_def length_upd_sectors)
    moreover have "unat (a + ?k) + unat ?m < 2 ^ 32" using w less.prems(2) by simp
    ultimately obtain h' where h': "erase_sect_loop hsmmc B 1 ?m (a + ?k) h2 = Some (1, h')"
        "card_ok h'" "e_part h' = e_part h2"
        "e_sect h' = e_sect (written (unat (a + ?k)) (replicate (512 * unat ?m) 0xFF) h2)"
      using less.hyps[of ?m h2 "a + ?k"] w k0 by auto
    have "replicate (512 * unat n) 0xFF = ?xs @ replicate (512 * unat ?m) 0xFF"
      using w by (simp add: diff_mult_distrib2 flip: replicate_add)
    then have "e_sect h' = e_sect (written (unat a) (replicate (512 * unat n) 0xFF) h)"
      using h'(4) h1 h2 w(2) upd_sectors_append[of ?xs "unat ?k"] by (simp add: armed_def)
    then show ?thesis using step h' h1 h2 by (simp add: armed_def)
  qed
qed

section \<open>Initialisation\<close>

text \<open>Every step keeps the card's content; \<open>kept h h'\<close> also has the data lines idle in \<open>h'\<close>.\<close>

definition kept :: "emmc \<Rightarrow> emmc \<Rightarrow> bool" where
  "kept h h' \<longleftrightarrow> e_xfer h' = XIdle \<and> e_sect h' = e_sect h"

lemma kept_trans: "kept h h' \<Longrightarrow> kept h' h'' \<Longrightarrow> kept h h''"
  by (simp add: kept_def)

lemma plain_sel:
  assumes "r \<in> {B + R_SYSCONFIG, B + R_SYSCTL, B + R_CON, B + R_HCTL, B + R_IE, B + R_CAPA}"
  shows "e_sect (rmw hsmmc h r f) = e_sect h" "e_sect (hs_wr h r v) = e_sect h"
    "e_part (rmw hsmmc h r f) = e_part h" "e_part (hs_wr h r v) = e_part h"
    "e_stat (rmw hsmmc h r f) = e_stat h" "e_stat (hs_wr h r v) = e_stat h"
    "e_xfer (rmw hsmmc h r f) = e_xfer h" "e_xfer (hs_wr h r v) = e_xfer h"
  using rmw_plain[OF assms, of h f] hs_plain(1)[OF assms, of h v] by auto

lemma clock_config_hs:
  assumes "iclk \<le> 2"
  shows "\<exists>h'. mmc_clock_config hsmmc B iclk d h = Some (1, h') \<and> e_part h' = e_part h
    \<and> e_sect h' = e_sect h \<and> e_xfer h' = e_xfer h"
proof -
  define h1 where "h1 = reg_out hsmmc h (B + R_SYSCTL) (0x1 OR 0xF0000 OR 0x4) (0 OR 0xE0000 OR 0)"
  define h2 where "h2 = reg_out hsmmc h1 (B + R_SYSCTL) (0x1 OR 0xFFC0)
     (push_bit 6 (if iclk = 0 then (96 * 1000 div 80) div 2 else if iclk = 1 then 96 * 1000 div 400 else ucast d) OR 0x1)"
  have p: "poll_until hsmmc (B + R_SYSCTL) (\<lambda>v. v AND 0x2 \<noteq> 0) h2
      = Some ((e_misc h2 (B + R_SYSCTL) AND NOT 0x1000000) OR 0x2, h2)"
    by (rule poll_hit) (simp_all add: bit.conj_disj_distrib2)
  have "mmc_clock_config hsmmc B iclk d h = Some (1, rmw hsmmc h2 (B + R_SYSCTL) (\<lambda>v. v OR 0x4))"
    using assms p unfolding mmc_clock_config_def Let_def h2_def h1_def by simp
  then show ?thesis by (simp add: plain_sel h1_def h2_def reg_out_def)
qed

lemma exec_cmd0 [simp]:
  "hs_exec MMC_CMD0 h = h\<lparr>e_stat := CC_MASK, e_rsp := [0x900, 0, 0, 0], e_part := 0, e_xfer := XIdle\<rparr>"
  by (simp add: hs_exec_def MMC_CMD0_def mmc_index_def RSP_TYPE_NONE_def Let_def)

lemma init_stream_hs: "\<exists>h'. mmc_init_stream hsmmc B h = Some h' \<and> kept h h' \<and> e_part h' = 0"
proof -
  have p: "poll_until hsmmc (B + R_STAT) (\<lambda>v. v AND CC_MASK \<noteq> 0) g = Some (CC_MASK, g)" if "e_stat g = CC_MASK" for g
    by (rule poll_hit) (simp_all add: that CC_MASK_def)
  define h0 where "h0 = rmw hsmmc h (B + R_CON) (\<lambda>v. v OR 0x2)"
  let ?h1 = "h0\<lparr>e_rsp := [0x900, 0, 0, 0], e_part := 0, e_xfer := XIdle, e_stat := 0\<rparr>"
  have "mmc_init_stream hsmmc B h = Some (rmw hsmmc ?h1 (B + R_CON) (\<lambda>v. v AND NOT 0x2))"
    unfolding mmc_init_stream_def h0_def[symmetric] Let_def by (simp add: p ack_idle rmw_def[of hsmmc _ "B + R_STAT"])
  then show ?thesis by (simp add: kept_def plain_sel h0_def)
qed

lemma init_setup_hs: "\<exists>h'. mmc_init_setup hsmmc 1 B h = Some (1, h') \<and> kept h h' \<and> e_part h' = 0"
proof -
  have p1: "poll_until hsmmc (B + R_SYSSTATUS) (\<lambda>v. v AND 0x1 \<noteq> 0) g = Some (1, g)" for g
    by (rule poll_hit) simp_all
  have p2: "poll_until hsmmc (B + R_SYSCTL) (\<lambda>v. v AND 0x1000000 = 0) g
      = Some ((e_misc g (B + R_SYSCTL) AND NOT 0x1000000) OR 0x2, g)" for g
    by (rule poll_hit) (simp_all add: bit.conj_disj_distrib2 and.assoc)
  define h1 where "h1 = rmw hsmmc (rmw hsmmc (hs_wr (rmw hsmmc (rmw hsmmc h (B + R_SYSCONFIG) (\<lambda>v. v OR 0x2))
      (B + R_SYSCTL) (\<lambda>v. v OR 0x1000000)) (B + R_HCTL) 0xC00)
      (B + R_CAPA) (\<lambda>v. v OR 0x2000000 OR 0x4000000)) (B + R_CON) (\<lambda>v. v AND 0x600)"
  obtain h2 where h2: "mmc_clock_config hsmmc B 0 0 h1 = Some (1, h2)" "e_sect h2 = e_sect h1"
    using clock_config_hs[of 0 0 h1] by auto
  define h3 where "h3 = hs_wr (rmw hsmmc h2 (B + R_HCTL) (\<lambda>v. v OR 0x100)) (B + R_IE) 0x307f0033"
  obtain h' where h': "mmc_init_stream hsmmc B h3 = Some h'" "kept h3 h'" "e_part h' = 0"
    using init_stream_hs by blast
  have "mmc_init_setup hsmmc 1 B h = Some (1, h')"
    using h2(1) h'(1) unfolding mmc_init_setup_def h1_def h3_def
    by (simp add: mmc_board_init_def p1 p2 Let_def)
  then show ?thesis using h' h2(2) by (simp add: kept_def h3_def h1_def plain_sel)
qed

text \<open>The commands of the identification: those the card answers, and the two SD commands it does not.\<close>

lemma send_answered:
  assumes "e_xfer h = XIdle" and "drop_bit 24 cmd \<in> {2, 3, 4, 7, 13, 16}" and "cmd AND RSP_TYPE_MASK \<noteq> RSP_TYPE_LGHT136"
  shows "\<exists>h'. mmc_send_cmd hsmmc h B cmd arg = Some (1, [0x900], h') \<and> kept h h' \<and> e_part h' = e_part h"
  using send_nodata[OF assms(1), of cmd arg] assms(1,2,3)
  by (auto simp: kept_def answered_def)

lemma send_unanswered:
  assumes "e_xfer h = XIdle" and "cmd \<in> {MMC_SDCMD8, MMC_CMD55}"
  shows "\<exists>h'. mmc_send_cmd hsmmc h B cmd arg = Some (0, [], h') \<and> kept h h' \<and> e_part h' = e_part h"
proof -
  have "drop_bit 24 cmd = 8 \<and> cmd AND DP_DATA = 0 \<or> drop_bit 24 cmd = 55"
    using assms(2) by (auto simp: MMC_SDCMD8_def MMC_CMD55_def mmc_index_def RSP_TYPE_R7_def RSP_TYPE_R1_def DP_DATA_def)
  then show ?thesis using assms(1) by (auto simp: send_start wait_err hs_exec_def kept_def)
qed

lemma send_cmd6:
  assumes "e_xfer h = XIdle"
  shows "mmc_send_cmd hsmmc h B MMC_CMD6 arg = Some (1, [0x900], (answered arg h)\<lparr>e_rsp := [0x900, 0, 0, 0],
    e_part := if drop_bit 16 arg AND 0xFF = 0xb3 then unat (drop_bit 8 arg AND 7) else e_part h\<rparr>)"
proof -
  have "drop_bit 24 MMC_CMD6 = 6" "MMC_CMD6 AND RSP_TYPE_MASK \<noteq> RSP_TYPE_LGHT136"
    by (simp_all add: cmd_defs RSP_TYPE_MASK_def RSP_TYPE_LGHT136_def)
  then show ?thesis using assms by (simp add: send_start wait_ok hs_exec_def ack_idle answered_def)
qed

lemma ident_words:
  "drop_bit 24 MMC_CMD1 = 1" "MMC_CMD1 AND RSP_TYPE_MASK \<noteq> RSP_TYPE_LGHT136"
  "drop_bit 24 MMC_CMD2 = 2" "MMC_CMD2 AND RSP_TYPE_MASK = RSP_TYPE_LGHT136"
  "drop_bit 24 MMC_CMD3 = 3" "MMC_CMD3 AND RSP_TYPE_MASK \<noteq> RSP_TYPE_LGHT136"
  "drop_bit 24 MMC_CMD4 = 4" "MMC_CMD4 AND RSP_TYPE_MASK \<noteq> RSP_TYPE_LGHT136"
  "drop_bit 24 MMC_CMD7_SELECT = 7" "MMC_CMD7_SELECT AND RSP_TYPE_MASK \<noteq> RSP_TYPE_LGHT136"
  "drop_bit 24 MMC_CMD9 = 9" "MMC_CMD9 AND RSP_TYPE_MASK = RSP_TYPE_LGHT136"
  "drop_bit 24 MMC_CMD13 = 13" "MMC_CMD13 AND RSP_TYPE_MASK \<noteq> RSP_TYPE_LGHT136"
  "drop_bit 24 MMC_CMD16 = 16" "MMC_CMD16 AND RSP_TYPE_MASK \<noteq> RSP_TYPE_LGHT136"
  "drop_bit 24 MMC_CMD8 = 8" "MMC_CMD8 AND RSP_TYPE_MASK \<noteq> RSP_TYPE_LGHT136" "MMC_CMD8 AND DP_DATA \<noteq> 0"
  by (simp_all add: MMC_CMD1_def MMC_CMD2_def MMC_CMD3_def MMC_CMD4_def MMC_CMD7_SELECT_def MMC_CMD9_def MMC_CMD13_def
      MMC_CMD16_def MMC_CMD8_def mmc_index_def RSP_TYPE_R1_def RSP_TYPE_R1B_def RSP_TYPE_R2_def RSP_TYPE_R3_def
      RSP_TYPE_NONE_def DP_DATA_def DDIR_READ_def RSP_TYPE_MASK_def RSP_TYPE_LGHT136_def)

lemma send_cmd0:
  assumes "e_xfer h = XIdle"
  shows "\<exists>r h'. mmc_send_cmd hsmmc h B MMC_CMD0 arg = Some (1, r, h') \<and> kept h h' \<and> e_part h' = 0"
proof -
  have "drop_bit 24 MMC_CMD0 = 0" by (simp add: MMC_CMD0_def mmc_index_def RSP_TYPE_NONE_def)
  then show ?thesis using assms by (simp add: send_start wait_ok ack_idle kept_def)
qed

lemma send_cmd_rsp:
  assumes "e_xfer h = XIdle"
  shows "\<exists>h'. mmc_send_cmd hsmmc h B MMC_CMD1 arg = Some (1, [0xC0FF8080], h') \<and> kept h h' \<and> e_part h' = e_part h"
    and "\<exists>h'. mmc_send_cmd hsmmc h B MMC_CMD2 arg = Some (1, [0x900, 0, 0, 0], h') \<and> kept h h' \<and> e_part h' = e_part h"
    and "\<exists>h'. mmc_send_cmd hsmmc h B MMC_CMD9 arg = Some (1, [0, 0, 0, 0x10000032], h') \<and> kept h h' \<and> e_part h' = e_part h"
  using send_nodata[OF assms, of MMC_CMD1 arg] send_nodata[OF assms, of MMC_CMD2 arg] send_nodata[OF assms, of MMC_CMD9 arg] assms
  by (auto simp: ident_words kept_def answered_def)

lemma detect_loop_done: "ocr AND 0x80000000 \<noteq> 0 \<Longrightarrow> detect_loop c base sd cmd v n resp ocr h = Some (1, resp, ocr, h)"
  by (cases n) simp_all

lemma detect_card_hs:
  assumes "e_xfer h = XIdle"
  shows "\<exists>h'. mmc_detect_card hsmmc 1 B cd h
      = Some (1, cd\<lparr>RCA := 0x1234, card_type := MMC_CARD, card_mode := SECTOR_MODE\<rparr>, h')
    \<and> kept h h' \<and> e_part h' = 0"
proof -
  obtain h1 where h1: "mmc_clock_config hsmmc B 1 0 h = Some (1, h1)" "kept h h1"
    using clock_config_hs[of 1 0 h] assms by (auto simp: kept_def)
  obtain r h2 where h2: "mmc_send_cmd hsmmc h1 B MMC_CMD0 0 = Some (1, r, h2)" "kept h1 h2" "e_part h2 = 0"
    using send_cmd0[of h1 0] h1(2) by (auto simp: kept_def)
  obtain h3 where h3: "mmc_send_cmd hsmmc h2 B MMC_SDCMD8 (0xAA OR 0x100) = Some (0, [], h3)" "kept h2 h3" "e_part h3 = 0"
    using send_unanswered[of h2 MMC_SDCMD8 "0xAA OR 0x100"] h2(2,3) by (auto simp: kept_def)
  obtain h4 where h4: "mmc_send_cmd hsmmc h3 B MMC_CMD55 0 = Some (0, [], h4)" "kept h3 h4" "e_part h4 = 0"
    using send_unanswered[of h3 MMC_CMD55 0] h3(2,3) by (auto simp: kept_def)
  define h5 where "h5 = rmw hsmmc (rmw hsmmc h4 (B + R_CON) (\<lambda>v. v AND NOT 0x1)) (B + R_CON) (\<lambda>v. v OR 0x1)"
  have k5: "kept h4 h5" "e_part h5 = 0" using h4(2,3) by (simp_all add: h5_def kept_def plain_sel)
  obtain h6 where h6: "mmc_send_cmd hsmmc h5 B MMC_CMD1 (0x80 OR 0x40000000) = Some (1, [0xC0FF8080], h6)"
      "kept h5 h6" "e_part h6 = 0"
    using send_cmd_rsp(1)[of h5 "0x80 OR 0x40000000"] k5 by (auto simp: kept_def)
  obtain h7 where h7: "mmc_send_cmd hsmmc h6 B MMC_CMD2 (0x80 OR 0x40000000) = Some (1, [0x900, 0, 0, 0], h7)"
      "kept h6 h7" "e_part h7 = 0"
    using send_cmd_rsp(2)[of h6 "0x80 OR 0x40000000"] h6 by (auto simp: kept_def)
  obtain h8 where h8: "mmc_send_cmd hsmmc h7 B MMC_CMD3 (push_bit 16 0x1234) = Some (1, [0x900], h8)"
      "kept h7 h8" "e_part h8 = 0"
    using send_answered[of h7 MMC_CMD3 "push_bit 16 0x1234"] h7 by (auto simp: kept_def ident_words)
  define h9 where "h9 = rmw hsmmc (rmw hsmmc h8 (B + R_CON) (\<lambda>v. v AND NOT 0x1)) (B + R_CON) (\<lambda>v. v OR 0)"
  let ?cd = "cd\<lparr>RCA := 0x1234, card_type := MMC_CARD\<rparr>"
  have fin: "detect_finish hsmmc B ?cd (0x80 OR 0x40000000) 0xC0FF8080 rr h6
      = Some (1, ?cd\<lparr>card_mode := SECTOR_MODE\<rparr>, h9)" for rr
    using h7(1) h8(1) unfolding detect_finish_def h9_def by (simp add: SECTOR_MODE_def BYTE_MODE_def Let_def)
  have "mmc_detect_card hsmmc 1 B cd h = Some (1, ?cd\<lparr>card_mode := SECTOR_MODE\<rparr>, h9)"
    using h1(1) h2(1) h3(1) h4(1) h6(1) fin unfolding mmc_detect_card_def h5_def
    by (simp add: resp_upd_def resp_get_def detect_loop_done)
  moreover have "kept h h9" using h1(2) h2(2) h3(2) h4(2) k5(1) h6(2) h7(2) h8(2) by (simp add: kept_def h9_def plain_sel)
  ultimately show ?thesis using h8(3) by (simp add: h9_def plain_sel)
qed

lemma wait_prg_hs:
  assumes "e_xfer h = XIdle"
  shows "\<exists>h'. wait_card_state_prg hsmmc cd B sl h = Some (1, h') \<and> kept h h' \<and> e_part h' = e_part h"
proof -
  obtain h' where "mmc_send_cmd hsmmc h B MMC_CMD13 (push_bit 16 (RCA cd)) = Some (1, [0x900], h')"
      "kept h h'" "e_part h' = e_part h"
    using send_answered[OF assms, of MMC_CMD13 "push_bit 16 (RCA cd)"] by (auto simp: ident_words)
  then have "wait_prg_loop hsmmc cd B sl (Suc n) h = Some (1, h')" for n
    by (simp add: mmc_send_status_def resp_get_def)
  from this[of 99] show ?thesis using \<open>kept h h'\<close> \<open>e_part h' = e_part h\<close>
    by (simp add: wait_card_state_prg_def del: wait_prg_loop.simps)
qed

lemma cardsize_hs:
  assumes "e_xfer h = XIdle" and "card_mode cd = SECTOR_MODE" and "card_type cd = MMC_CARD"
  shows "\<exists>sl' h'. mmc_read_cardsize hsmmc B cd csd sl h
      = Some (1, cd\<lparr>card_size := of_nat EMMC_SECTORS\<rparr>, sl', h') \<and> kept h h' \<and> e_part h' = e_part h"
proof -
  have len: "length ext_csd = 512" by (simp add: ext_csd_def)
  let ?h1 = "(answered 0 h)\<lparr>e_rsp := [0x900, 0, 0, 0], e_xfer := XRead (bytes_to_words ext_csd), e_stat := BRR_MASK\<rparr>"
  have c: "mmc_send_cmd hsmmc h B MMC_CMD8 0 = Some (1, [0x900], ?h1)"
    using assms(1) by (simp add: send_start wait_ok hs_exec_def hs_ack_def Let_def ident_words answered_def)
      (simp add: mask_defs)
  have d: "mmc_read_data hsmmc B (stack_buf 512) 0 ?h1
      = Some (1, ext_csd, ?h1\<lparr>e_xfer := XIdle, e_stat := 0\<rparr>, TC_MASK)"
    using read_data_hs[of ?h1 "bytes_to_words ext_csd" 0 "stack_buf 512"] len by (simp add: patch_def)
  have s: "of_le (bslice 212 4 ext_csd) = (of_nat EMMC_SECTORS :: u32)"
    by (simp add: ext_csd_def bslice_def)
  have "(of_nat EMMC_SECTORS :: u32) \<noteq> 0" by (simp add: EMMC_SECTORS_def)
  then show ?thesis using assms(2,3) c d s
    by (simp add: mmc_read_cardsize_def MMC_CARD_def SD_CARD_def kept_def answered_def)
qed

lemma clock_divisor_25MHz: "clock_divisor 0x32 = Some (Inr 4)"
  by code_simp

lemma configure_speed_hs:
  assumes "e_xfer h = XIdle" and "cslot ctl = 1" and "cbase ctl = B"
  shows "\<exists>h'. configure_speed hsmmc cd ctl 0x32 sl h = Some (1, h') \<and> kept h h' \<and> e_part h' = e_part h"
proof -
  obtain h1 where h1: "mmc_send_cmd hsmmc h B MMC_CMD4 (push_bit 16 0x0404) = Some (1, [0x900], h1)" "kept h h1" "e_part h1 = e_part h"
    using send_answered[OF assms(1), of MMC_CMD4 "push_bit 16 0x0404"] by (auto simp: ident_words)
  obtain h2 where h2: "mmc_clock_config hsmmc B 2 (ucast (4 :: u32)) h1 = Some (1, h2)" "kept h1 h2" "e_part h2 = e_part h1"
    using clock_config_hs[of 2 "ucast (4 :: u32)" h1] h1(2) by (auto simp: kept_def)
  obtain h3 where h3: "mmc_send_cmd hsmmc h2 B MMC_CMD7_SELECT (push_bit 16 (RCA cd)) = Some (1, [0x900], h3)"
      "kept h2 h3" "e_part h3 = e_part h2"
    using send_answered[of h2 MMC_CMD7_SELECT "push_bit 16 (RCA cd)"] h2(2) by (auto simp: ident_words kept_def)
  obtain h4 where h4: "mmc_send_cmd hsmmc h3 B MMC_CMD6 (switch_arg 185 1) = Some (1, [0x900], h4)"
      "kept h3 h4" "e_part h4 = e_part h3"
    using send_cmd6[of h3 "switch_arg 185 1"] h3(2) by (simp add: kept_def answered_def switch_arg_def)
  obtain h5 where h5: "wait_card_state_prg hsmmc cd B sl h4 = Some (1, h5)" "kept h4 h5" "e_part h5 = e_part h4"
    using wait_prg_hs[of h4 cd sl] h4(2) by (auto simp: kept_def)
  obtain h6 where h6: "mmc_clock_config hsmmc B 2 2 h5 = Some (1, h6)" "kept h5 h6" "e_part h6 = e_part h5"
    using clock_config_hs[of 2 2 h5] h5(2) by (auto simp: kept_def)
  have "configure_speed hsmmc cd ctl 0x32 sl h = Some (1, h6)"
    using h1(1) h2(1) h3(1) h4(1) h5(1) h6(1) by (simp add: configure_speed_def assms clock_divisor_25MHz)
  then show ?thesis using h1 h2 h3 h4 h5 h6 by (simp add: kept_def)
qed

lemma configure_bus_hs:
  assumes "e_xfer h = XIdle" and "cslot ctl = 1" and "cbase ctl = B"
    and "card_mode cd = SECTOR_MODE" and "card_type cd = MMC_CARD"
  shows "\<exists>sl' h'. configure_bus hsmmc cd ctl csd sl h = Some (1, cd\<lparr>card_size := of_nat EMMC_SECTORS\<rparr>, sl', h')
    \<and> kept h h' \<and> e_part h' = e_part h"
proof -
  let ?cd = "cd\<lparr>card_size := of_nat EMMC_SECTORS\<rparr>"
  obtain h1 where h1: "mmc_send_cmd hsmmc h B MMC_CMD16 512 = Some (1, [0x900], h1)" "kept h h1" "e_part h1 = e_part h"
    using send_answered[OF assms(1), of MMC_CMD16 512] by (auto simp: ident_words)
  obtain sl' h2 where h2: "mmc_read_cardsize hsmmc B cd csd sl h1 = Some (1, ?cd, sl', h2)" "kept h1 h2" "e_part h2 = e_part h1"
    using cardsize_hs[of h1 cd csd sl] h1(2) assms(4,5) by (auto simp: kept_def)
  obtain h3 where h3: "mmc_send_cmd hsmmc h2 B MMC_CMD6 (switch_arg 183 2) = Some (1, [0x900], h3)"
      "kept h2 h3" "e_part h3 = e_part h2"
    using send_cmd6[of h2 "switch_arg 183 2"] h2(2) by (simp add: kept_def answered_def switch_arg_def)
  let ?h3 = "rmw hsmmc h3 (B + R_CON) (\<lambda>v. v OR 0x20)"
  have k3: "kept h3 ?h3" "e_part ?h3 = e_part h3" using h3(2) by (simp_all add: kept_def plain_sel)
  obtain h4 where h4: "wait_card_state_prg hsmmc ?cd B sl' ?h3 = Some (1, h4)" "kept ?h3 h4" "e_part h4 = e_part ?h3"
    using wait_prg_hs[of ?h3 ?cd sl'] k3 by (auto simp: kept_def)
  have "configure_bus hsmmc cd ctl csd sl h = Some (1, ?cd, sl', h4)"
    using h1(1) h2(1) h3(1) h4(1) by (simp add: configure_bus_def assms)
  then show ?thesis using h1 h2 h3 h4 k3 by (simp add: kept_def)
qed

lemma configure_mmc_hs:
  assumes "cslot ctl = 1" and "cbase ctl = B"
  shows "\<exists>cd' sl' h'. configure_mmc hsmmc cd ctl sl h = Some (1, cd', sl', h') \<and> kept h h' \<and> e_part h' = 0
    \<and> card_mode cd' = SECTOR_MODE \<and> card_size cd' = of_nat EMMC_SECTORS"
proof -
  let ?csd = "[0, 0, 0, 0x10000032] :: u32 list"
  define cd1 where "cd1 = cd\<lparr>RCA := 0x1234, card_type := MMC_CARD, card_mode := SECTOR_MODE\<rparr>"
  define cd2 where "cd2 = cd1\<lparr>version := csd_field ?csd 122 4\<rparr>"
  have cd: "RCA cd1 = 0x1234" "card_type cd1 = MMC_CARD" "card_mode cd2 = SECTOR_MODE" "card_type cd2 = MMC_CARD"
    by (simp_all add: cd2_def cd1_def)
  obtain h1 where h1: "mmc_init_setup hsmmc 1 B h = Some (1, h1)" "kept h h1" "e_part h1 = 0"
    using init_setup_hs by blast
  obtain h2 where h2: "mmc_detect_card hsmmc 1 B cd h1 = Some (1, cd1, h2)" "kept h1 h2" "e_part h2 = 0"
    using detect_card_hs[of h1 cd] h1(2) unfolding cd1_def by (auto simp: kept_def)
  obtain h3 where h3: "mmc_send_cmd hsmmc h2 B MMC_CMD9 (push_bit 16 0x1234) = Some (1, ?csd, h3)" "kept h2 h3" "e_part h3 = 0"
    using send_cmd_rsp(3)[of h2 "push_bit 16 0x1234"] h2(2,3) by (auto simp: kept_def)
  obtain h4 where h4: "configure_speed hsmmc cd2 ctl 0x32 sl h3 = Some (1, h4)" "kept h3 h4" "e_part h4 = 0"
    using configure_speed_hs[of h3 ctl cd2 sl] h3(2,3) assms by (auto simp: kept_def)
  obtain sl' h5 where h5: "configure_bus hsmmc cd2 ctl ?csd sl h4
      = Some (1, cd2\<lparr>card_size := of_nat EMMC_SECTORS\<rparr>, sl', h5)" "kept h4 h5" "e_part h5 = 0"
    using configure_bus_hs[of h4 ctl cd2 ?csd sl] h4(2,3) assms cd(3,4) by (auto simp: kept_def)
  have id: "configure_identify hsmmc cd ctl h1 = Some (1, cd1, h2)"
    using h2(1) by (simp add: configure_identify_def assms)
  have sp: "ucast (csd_field ?csd 96 8) = (0x32 :: byte)" by (simp add: csd_field_def)
  have "configure_mmc hsmmc cd ctl sl h = Some (1, cd2\<lparr>card_size := of_nat EMMC_SECTORS\<rparr>, sl', h5)"
    using h1(1) id h3(1) h4(1) h5(1) sp cd(1,2)
    by (simp add: configure_mmc_def assms resp_get_def numeral_3_eq_3 cd2_def)
  then show ?thesis using cd h1 h2 h3 h4 h5 by (simp add: kept_def)
qed

section \<open>The driver is a block device\<close>

definition emmc_pre :: "emmc mmc \<Rightarrow> bool" where
  "emmc_pre s \<longleftrightarrow> (\<forall>p n. length (e_sect (m_hw s) p n) = 512)"

definition emmc_inv :: "emmc mmc \<Rightarrow> bool" where
  "emmc_inv s \<longleftrightarrow> card_ok (m_hw s) \<and> cbase (cur_controller_data s 1) = B
     \<and> card_mode (cur_card_data s 1) = SECTOR_MODE \<and> card_size (cur_card_data s 1) = of_nat EMMC_SECTORS
     \<and> bd_dev (mmc_blk_dev s 1) = 1 \<and> blksz (mmc_blk_dev s 1) = 512"

definition emmc_part :: "emmc mmc \<Rightarrow> nat" where "emmc_part s = e_part (m_hw s)"
definition emmc_sect :: "emmc mmc \<Rightarrow> nat \<Rightarrow> nat \<Rightarrow> byte list" where "emmc_sect s = e_sect (m_hw s)"

lemmas emmc_defs = emmc_pre_def emmc_inv_def emmc_part_def emmc_sect_def

lemma num_sec_nsect:
  assumes "unat sz + 511 < 2 ^ 32"
  shows "unat (num_sec sz) = nsect (unat sz)"
proof -
  have "unat (sz + 511) = unat sz + 511" using assms by (subst unat_add_lem[THEN iffD1]) auto
  then show ?thesis by (simp add: num_sec_def nsect_def unat_div)
qed

lemma nsect_pos: "0 < sz \<Longrightarrow> 0 < nsect (unat (sz :: u32))"
  by (simp add: nsect_def word_less_nat_alt)

lemma num_sec_nz: "0 < sz \<Longrightarrow> unat sz + 511 < 2 ^ 32 \<Longrightarrow> num_sec sz \<noteq> 0"
  using num_sec_nsect[of sz] nsect_pos[of sz] by auto

lemma read_at_hs:
  assumes "emmc_inv s" and "0 < sz" and "unat sz + 511 < 2 ^ 32" and "unat a + nsect (unat sz) \<le> EMMC_SECTORS"
    and "off + 512 * nsect (unat sz) \<le> length buf"
  shows "\<exists>s'. mmc_read_at hsmmc s 1 a buf off sz
      = Some (1, patch off (sectors (emmc_sect s (emmc_part s)) (unat a) (nsect (unat sz))) buf, s')
    \<and> emmc_inv s' \<and> emmc_part s' = emmc_part s \<and> emmc_sect s' = emmc_sect s"
proof -
  have "unat a + nsect (unat sz) < 2 ^ 32" using assms(4) by (simp add: EMMC_SECTORS_def)
  then obtain h' sl' where "read_sect_loop hsmmc B 1 (nsect (unat sz)) a buf off (m_hw s) (mmc_stat_last s)
      = Some (1, patch off (sectors (emmc_sect s (emmc_part s)) (unat a) (nsect (unat sz))) buf, h', sl')"
    "card_ok h'" "e_part h' = e_part (m_hw s)" "e_sect h' = e_sect (m_hw s)"
    using read_loop_hs[of "m_hw s" off "nsect (unat sz)" buf a "mmc_stat_last s"] assms(1,5)
    by (auto simp: emmc_defs)
  then show ?thesis
    using assms(1) num_sec_nz[OF assms(2,3)] num_sec_nsect[OF assms(3)]
    by (simp add: mmc_read_at_def omap_mmc_read_sect_def sec_arg_def emmc_defs)
qed

lemma bread_hs:
  assumes "emmc_inv s"
  shows "\<exists>s'. mmc_bread hsmmc 1 s 0 1 (stack_buf 512) = Some (1, emmc_sect s (emmc_part s) 0, s')
    \<and> emmc_inv s' \<and> emmc_part s' = emmc_part s \<and> emmc_sect s' = emmc_sect s"
proof -
  have "length (emmc_sect s (emmc_part s) 0) = 512" using assms by (simp add: emmc_defs card_ok_def)
  then show ?thesis
    using read_at_hs[OF assms, of 512 0 0 "stack_buf 512"] by (auto simp: mmc_bread_def patch_def EMMC_SECTORS_def)
qed

lemma mmc_init_card:
  assumes "emmc_pre s"
  shows "\<exists>s1 d. mmc_init hsmmc s 1 = do {
        (_, fv, s) \<leftarrow> fat_register_device (mmc_bread hsmmc 1) d 1 (m_fat s1) s1;
        Some (0, s\<lparr>m_fat := fv\<rparr>) }
    \<and> part_type d = PART_TYPE_DOS \<and> emmc_inv s1 \<and> emmc_part s1 = 0 \<and> emmc_sect s1 = emmc_sect s"
proof -
  let ?ctl = "(cur_controller_data s 1)\<lparr>cslot := 1, cbase := B\<rparr>"
  obtain cd' sl' h' where c: "configure_mmc hsmmc (cur_card_data s 1) ?ctl (mmc_stat_last s) (m_hw s) = Some (1, cd', sl', h')"
      "kept (m_hw s) h'" "e_part h' = 0" "card_mode cd' = SECTOR_MODE" "card_size cd' = of_nat EMMC_SECTORS"
    using configure_mmc_hs[of ?ctl "cur_card_data s 1" "mmc_stat_last s" "m_hw s"] by auto
  let ?d = "(mmc_blk_dev s 1)\<lparr>if_type := IF_TYPE_MMC, part_type := PART_TYPE_DOS, bd_dev := 1,
                    lun := 0, dev_type := 0, blksz := 512, lba := 0x10000, removable := 0\<rparr>"
  define s1 where "s1 = s\<lparr>cur_controller_data := (cur_controller_data s)(1 := ?ctl), m_hw := h', mmc_stat_last := sl',
      cur_card_data := (cur_card_data s)(1 := cd'), mmc_blk_dev := (mmc_blk_dev s)(1 := ?d)\<rparr>"
  have "emmc_inv s1" "emmc_part s1 = 0" "emmc_sect s1 = emmc_sect s"
    using assms(1) c(2-5) by (simp_all add: emmc_defs s1_def card_ok_def kept_def)
  moreover have "mmc_init hsmmc s 1 = do {
        (_, fv, s) \<leftarrow> fat_register_device (mmc_bread hsmmc 1) ?d 1 (m_fat s1) s1;
        Some (0, s\<lparr>m_fat := fv\<rparr>) }"
    using c(1) unfolding s1_def by (simp add: mmc_init_def configure_controller_def Let_def cong: if_cong)
  ultimately show ?thesis by (intro exI[of _ s1] exI[of _ ?d]) simp
qed

lemma mmc_init_hs:
  assumes "emmc_pre s" and "plain_mbr (emmc_sect s 0 0)"
  shows "\<exists>s'. mmc_init hsmmc s 1 = Some (0, s') \<and> emmc_inv s' \<and> emmc_part s' = 0 \<and> emmc_sect s' = emmc_sect s"
proof -
  obtain s1 d where r: "mmc_init hsmmc s 1 = do {
        (_, fv, s) \<leftarrow> fat_register_device (mmc_bread hsmmc 1) d 1 (m_fat s1) s1;
        Some (0, s\<lparr>m_fat := fv\<rparr>) }"
    and s1: "emmc_inv s1" "emmc_part s1 = 0" "emmc_sect s1 = emmc_sect s"
    using mmc_init_card[OF assms(1)] by blast
  obtain s2 where s2: "mmc_bread hsmmc 1 s1 0 1 (stack_buf 512) = Some (1, emmc_sect s 0 0, s2)"
      "emmc_inv s2" "emmc_part s2 = 0" "emmc_sect s2 = emmc_sect s"
    using bread_hs[OF s1(1)] s1 by auto
  obtain s3 where s3: "mmc_bread hsmmc 1 s2 0 1 (stack_buf 512) = Some (1, emmc_sect s 0 0, s3)"
      "emmc_inv s3" "emmc_part s3 = 0" "emmc_sect s3 = emmc_sect s"
    using bread_hs[OF s2(2)] s2 by auto
  obtain res fv' s' where f: "fat_register_device (mmc_bread hsmmc 1) d 1 (m_fat s1) s1 = Some (res, fv', s')" "s' \<in> {s2, s3}"
    using fat_register_device_plain[of "mmc_bread hsmmc 1" s1 1 "emmc_sect s 0 0" s2 s3 d 1 "m_fat s1"] s2(1) s3(1) assms(2) by blast
  have "mmc_init hsmmc s 1 = Some (0, s'\<lparr>m_fat := fv'\<rparr>)" using r f(1) by simp
  moreover have "emmc_inv (s'\<lparr>m_fat := fv'\<rparr>) \<and> emmc_part (s'\<lparr>m_fat := fv'\<rparr>) = 0 \<and> emmc_sect (s'\<lparr>m_fat := fv'\<rparr>) = emmc_sect s"
    using f(2) s2 s3 by (auto simp: emmc_defs)
  ultimately show ?thesis by blast
qed

text \<open>With a partition table that refers to itself the initialisation does not come back.\<close>

lemma mmc_init_self:
  assumes "emmc_pre s" and "self_extended (emmc_sect s 0 0)" "\<not> fat_at DOS_FS_TYPE_OFFSET (emmc_sect s 0 0)"
  shows "mmc_init hsmmc s 1 = None"
proof -
  obtain s1 d where r: "mmc_init hsmmc s 1 = do {
        (_, fv, s) \<leftarrow> fat_register_device (mmc_bread hsmmc 1) d 1 (m_fat s1) s1;
        Some (0, s\<lparr>m_fat := fv\<rparr>) }"
    and d: "part_type d = PART_TYPE_DOS" and s1: "emmc_inv s1 \<and> emmc_part s1 = 0 \<and> emmc_sect s1 = emmc_sect s"
    using mmc_init_card[OF assms(1)] by blast
  have rd: "\<exists>t'. mmc_bread hsmmc 1 t 0 1 (stack_buf 512) = Some (1, emmc_sect s 0 0, t') \<and> emmc_inv t' \<and> emmc_part t' = 0 \<and> emmc_sect t' = emmc_sect s"
    if "emmc_inv t \<and> emmc_part t = 0 \<and> emmc_sect t = emmc_sect s" for t
    using bread_hs[of t] that by auto
  show ?thesis
    using fat_register_device_self[where ok = "\<lambda>t. emmc_inv t \<and> emmc_part t = 0 \<and> emmc_sect t = emmc_sect s" and rd = "mmc_bread hsmmc 1",
      OF rd assms(2) s1 d assms(3)] r by simp
qed

lemma mmc_write_hs:
  assumes "emmc_inv s" and "0 < sz" and "unat sz + 511 < 2 ^ 32" and "unat a + nsect (unat sz) \<le> EMMC_SECTORS"
    and "off + 512 * nsect (unat sz) \<le> length buf"
  shows "\<exists>s'. mmc_write hsmmc s 1 buf off a sz = Some (1, s') \<and> emmc_inv s' \<and> emmc_part s' = emmc_part s
    \<and> emmc_sect s' = (emmc_sect s)(emmc_part s := upd_sectors (emmc_sect s (emmc_part s)) (unat a)
          (bslice off (512 * nsect (unat sz)) buf))"
proof -
  note n = num_sec_nsect[OF assms(3)]
  have "unat a + nsect (unat sz) < 2 ^ 32" using assms(4) by (simp add: EMMC_SECTORS_def)
  then obtain h' where "write_sect_loop hsmmc B 1 (num_sec sz) a buf off (m_hw s) = Some (1, h')" "card_ok h'"
      "e_part h' = e_part (m_hw s)"
      "e_sect h' = e_sect (written (unat a) (bslice off (512 * nsect (unat sz)) buf) (m_hw s))"
    using write_loop_hs[of "m_hw s" off "num_sec sz" buf a] assms(1,5) n by (auto simp: emmc_defs)
  then show ?thesis
    using assms(1) num_sec_nz[OF assms(2,3)]
    by (simp add: mmc_write_def not_initialised_def omap_mmc_write_sect_def sec_arg_def emmc_defs)
qed

lemma erase_count:
  assumes "unat sz + 511 < 2 ^ 31"
  shows "word_of_int (sint (sz + 511) sdiv 512) = num_sec (sz :: u32)"
proof -
  have "unat (sz + 511) = unat sz + 511" using assms by (subst unat_add_lem[THEN iffD1]) auto
  then have lt: "uint (sz + 511) < 2 ^ 31" using assms by (simp add: uint_nat del: of_nat_unat)
  have "sint (sz + 511) = signed_take_bit 31 (uint (sz + 511))" by (simp add: sint_uint)
  also have "\<dots> = uint (sz + 511)" by (rule signed_take_bit_int_eq_self) (use lt uint_ge_0[of "sz + 511"] in linarith)+
  finally have "sint (sz + 511) = uint (sz + 511)" .
  moreover have "uint (sz + 511) sdiv 512 = uint (sz + 511) div 512"
    by (auto simp: signed_divide_int_def)
  ultimately show ?thesis
    by (simp add: num_sec_def word_div_def)
qed

lemma mmc_erase_hs:
  assumes "emmc_inv s" and "0 < sz" and "unat sz + 511 < 2 ^ 31" and "unat a + nsect (unat sz) \<le> EMMC_SECTORS"
  shows "\<exists>s'. mmc_erase hsmmc s 1 a sz = Some (1, s') \<and> emmc_inv s' \<and> emmc_part s' = emmc_part s
    \<and> emmc_sect s' = (emmc_sect s)(emmc_part s := upd_sectors (emmc_sect s (emmc_part s)) (unat a)
          (replicate (512 * nsect (unat sz)) 0xFF))"
proof -
  have n: "unat (num_sec sz) = nsect (unat sz)" using num_sec_nsect[of sz] assms(3) by simp
  have cap: "unat (of_nat EMMC_SECTORS :: u32) = EMMC_SECTORS" by (simp add: EMMC_SECTORS_def)
  have "unat a + unat sz < 2 ^ 32" using assms(3,4) by (simp add: EMMC_SECTORS_def)
  then have s: "unat (a + sz) = unat a + unat sz" by (subst unat_add_lem[THEN iffD1]) auto
  have "unat sz \<le> 512 * nsect (unat sz)" unfolding nsect_def by linarith
  then have "(unat a + unat sz) div 512 \<le> EMMC_SECTORS" using assms(4) by linarith
  then have r2: "\<not> (a + sz) div 512 > of_nat EMMC_SECTORS"
    by (simp add: word_less_nat_alt s unat_div cap not_less)
  have r1: "\<not> a div 512 > of_nat EMMC_SECTORS"
    using assms(4) by (simp add: word_less_nat_alt unat_div cap not_less)
  have "unat a + nsect (unat sz) < 2 ^ 32" using assms(4) by (simp add: EMMC_SECTORS_def)
  then obtain h' where "erase_sect_loop hsmmc B 1 (num_sec sz) a (m_hw s) = Some (1, h')" "card_ok h'"
      "e_part h' = e_part (m_hw s)"
      "e_sect h' = e_sect (written (unat a) (replicate (512 * nsect (unat sz)) 0xFF) (m_hw s))"
    using erase_loop_hs[of "m_hw s" a "num_sec sz"] assms(1) n by (auto simp: emmc_defs)
  then show ?thesis
    using assms(1) r1 r2 erase_count[OF assms(3)]
    by (simp add: mmc_erase_def not_initialised_def omap_mmc_erase_sect_def sec_arg_def emmc_defs)
qed

lemma mmc_sw_part_hs:
  assumes "emmc_inv s" and "q < 8"
  shows "\<exists>s'. mmc_sw_part hsmmc s 1 q = Some (1, s') \<and> emmc_inv s' \<and> emmc_part s' = unat q \<and> emmc_sect s' = emmc_sect s"
proof -
  have "q \<in> set (map of_nat [0..<8])"
    using assms(2) by (auto simp: word_less_nat_alt image_iff intro!: bexI[of _ "unat q"])
  then have q: "q = 0 \<or> q = 1 \<or> q = 2 \<or> q = 3 \<or> q = 4 \<or> q = 5 \<or> q = 6 \<or> q = 7"
    by (simp add: upt_rec[of _ 8])
  have "e_xfer (m_hw s) = XIdle" using assms(1) by (simp add: emmc_defs card_ok_def)
  with q show ?thesis using assms(1)
    by (elim disjE) (simp_all add: mmc_sw_part_def not_initialised_def emmc_defs send_cmd6 card_ok_def answered_def)
qed

interpretation emmc: block_device "mmc_ops hsmmc" emmc_pre emmc_inv emmc_part emmc_sect EMMC_SECTORS
proof unfold_locales
  fix s :: "emmc mmc" and p n
  show "emmc_pre s \<Longrightarrow> length (emmc_sect s p n) = 512" by (simp add: emmc_defs)
  show "emmc_inv s \<Longrightarrow> emmc_pre s" by (simp add: emmc_defs card_ok_def)
  show "0 < EMMC_SECTORS \<and> EMMC_SECTORS < 2 ^ 31" by (simp add: EMMC_SECTORS_def)
  show "emmc_inv s \<Longrightarrow> op_write (mmc_ops hsmmc) s 1 buf off a 0 = Some (1, s)" for buf off a
    by (simp add: mmc_ops_def mmc_write_def not_initialised_def emmc_inv_def omap_mmc_write_sect_def num_sec_def)
  show "emmc_inv s \<Longrightarrow> op_info (mmc_ops hsmmc) s 1 = (512, of_nat EMMC_SECTORS)"
    by (simp add: mmc_ops_def mmc_info_def emmc_defs)
next
  fix s :: "emmc mmc" and sz a :: u32 and off :: nat and buf :: "byte list"
  assume "emmc_inv s" "0 < sz" "unat sz + 511 < 2 ^ 32" "unat a + nsect (unat sz) \<le> EMMC_SECTORS"
    "off + 512 * nsect (unat sz) \<le> length buf"
  then show "\<exists>s'. op_read (mmc_ops hsmmc) s 1 a buf off sz
      = Some (1, patch off (sectors (emmc_sect s (emmc_part s)) (unat a) (nsect (unat sz))) buf, s')
    \<and> emmc_inv s' \<and> emmc_part s' = emmc_part s \<and> emmc_sect s' = emmc_sect s"
    using read_at_hs[of s sz a off buf] by (auto simp: mmc_ops_def mmc_read_def not_initialised_def emmc_inv_def)
qed (simp_all only: mmc_ops_def blk_ops.select_convs mmc_init_hs mmc_write_hs mmc_erase_hs mmc_sw_part_hs)

section \<open>An initialised eMMC\<close>

text \<open>The driver and the card with the user area selected and the contents \<open>d\<close>.\<close>

definition emmc_on :: "(nat \<Rightarrow> nat \<Rightarrow> byte list) \<Rightarrow> emmc mmc" where
  "emmc_on d = \<lparr>m_hw = \<lparr>e_misc = (\<lambda>_. 0), e_arg = 0, e_blk = 0, e_stat = 0, e_rsp = [0, 0, 0, 0], e_xfer = XIdle,
       e_part = 0, e_sect = d\<rparr>,
     mmc_stat_last = 0,
     cur_card_data = (\<lambda>_. \<lparr>card_type = MMC_CARD, version = 4, card_mode = SECTOR_MODE, card_size = of_nat EMMC_SECTORS,
       RCA = 0x1234\<rparr>),
     cur_controller_data = (\<lambda>_. \<lparr>cslot = 1, cbase = OMAP_HSMMC2_BASE\<rparr>),
     mmc_blk_dev = (\<lambda>_. \<lparr>if_type = IF_TYPE_MMC, bd_dev = 1, part_type = PART_TYPE_DOS, lun = 0, dev_type = 0,
       removable = 0, lba = 0x10000, blksz = 512\<rparr>),
     m_fat = \<lparr>cur_dev = None, part_offset = 0, cur_part = 0\<rparr>\<rparr>"

lemma emmc_on_inv: "(\<And>p n. length (d p n) = 512) \<Longrightarrow> emmc_inv (emmc_on d)"
  by (simp add: emmc_on_def emmc_inv_def card_ok_def)

lemma emmc_on_sel [simp]: "emmc_part (emmc_on d) = 0" "emmc_sect (emmc_on d) = d"
  by (simp_all add: emmc_on_def emmc_part_def emmc_sect_def)

definition zeros :: "nat \<Rightarrow> nat \<Rightarrow> byte list" where
  "zeros = (\<lambda>_ _. replicate 512 0)"

lemma emmc_zeros: "emmc_inv (emmc_on zeros)" "emmc_pre (emmc_on zeros)" "plain_mbr (zeros p n)"
proof -
  show i: "emmc_inv (emmc_on zeros)" by (rule emmc_on_inv) (simp add: zeros_def)
  then show "emmc_pre (emmc_on zeros)" by (rule emmc.inv_pre)
  show "plain_mbr (zeros p n)"
    by (simp add: zeros_def plain_mbr_def dos_entries_def bslice_replicate sys_ind_def is_extended_def
        DOS_PART_TBL_OFFSET_def upt_conv_Cons)
qed

end
