(* ===== verification/Ptn.thy ===== *)
theory Ptn
  imports CString
begin

text \<open>
  The table of flash partitions (\<^verbatim>\<open>ptable\<close>, \<^verbatim>\<open>pcount\<close> and the \<^verbatim>\<open>fastboot_flash_*\<close> functions of
  \<^verbatim>\<open>common/cmd_fastboot.c\<close>). The partition table code fills it; the boot message, the boot
  command and fastboot look partitions up in it.

  \<open>ptn_table\<close> is the interface: the table behaves as a list of at most 16 entries in which \<open>find\<close> gives
  the first one with the name. \<^verbatim>\<open>ptable[16]\<close> with \<^verbatim>\<open>pcount\<close> implements it.
\<close>

record fastboot_ptentry =
  pt_name :: "byte list"
  pt_start :: u32
  pt_length :: u64
  pt_flags :: u32

definition FLAGS_WRITE_I :: u32 where "FLAGS_WRITE_I = 0x100"
definition FLAGS_WRITE_YAFFS :: u32 where "FLAGS_WRITE_YAFFS = 0x200"
definition FLAGS_WRITE_ENV :: u32 where "FLAGS_WRITE_ENV = 0x400"

text \<open>The C string in a \<open>char\<close> array.\<close>

definition cstr_of :: "byte list \<Rightarrow> byte list" where
  "cstr_of bs = takeWhile (\<lambda>b. b \<noteq> 0) bs"

lemma cstr_of_no_nul [simp]: "0 \<notin> set (cstr_of bs)"
  by (auto simp: cstr_of_def dest: set_takeWhileD)

lemma cstr_of_id [simp]: "0 \<notin> set bs \<Longrightarrow> cstr_of bs = bs"
  by (auto simp: cstr_of_def takeWhile_eq_all_conv)

lemma cstr_of_term: "0 \<notin> set bs \<Longrightarrow> cstr_of (bs @ 0 # cs) = bs"
  by (induction bs) (auto simp: cstr_of_def)

definition MAX_PTN :: nat where "MAX_PTN = 16"

record ptab =
  ptable :: "fastboot_ptentry list"
  pcount :: nat

definition fastboot_flash_reset_ptn :: "ptab \<Rightarrow> ptab" where
  "fastboot_flash_reset_ptn t = t\<lparr>pcount := 0\<rparr>"

definition fastboot_flash_add_ptn :: "ptab \<Rightarrow> fastboot_ptentry \<Rightarrow> ptab" where
  "fastboot_flash_add_ptn t ptn =
     (if pcount t < MAX_PTN then t\<lparr>ptable := (ptable t)[pcount t := ptn], pcount := pcount t + 1\<rparr> else t)"

text \<open>The search loop, over the entries from index \<open>n\<close> on.\<close>

fun find_ptn_loop :: "fastboot_ptentry list \<Rightarrow> byte list \<Rightarrow> fastboot_ptentry option" where
  "find_ptn_loop [] name = None"
| "find_ptn_loop (e # es) name =
     (if length name = length (cstr_of (pt_name e)) \<and> strcmp_s (cstr_of (pt_name e)) name = 0
      then Some e else find_ptn_loop es name)"

definition fastboot_flash_find_ptn :: "ptab \<Rightarrow> byte list \<Rightarrow> fastboot_ptentry option" where
  "fastboot_flash_find_ptn t name = find_ptn_loop (take (pcount t) (ptable t)) name"

definition fastboot_flash_get_ptn :: "ptab \<Rightarrow> nat \<Rightarrow> fastboot_ptentry option" where
  "fastboot_flash_get_ptn t n = (if n < pcount t then Some (ptable t ! n) else None)"

definition fastboot_flash_get_ptn_count :: "ptab \<Rightarrow> nat" where
  "fastboot_flash_get_ptn_count t = pcount t"

definition ptab_inv :: "ptab \<Rightarrow> bool" where
  "ptab_inv t \<longleftrightarrow> length (ptable t) = MAX_PTN \<and> pcount t \<le> MAX_PTN"

definition ptab_entries :: "ptab \<Rightarrow> fastboot_ptentry list" where
  "ptab_entries t = take (pcount t) (ptable t)"

section \<open>The interface\<close>

locale ptn_table =
  fixes reset :: "'t \<Rightarrow> 't"
    and add :: "'t \<Rightarrow> fastboot_ptentry \<Rightarrow> 't"
    and find :: "'t \<Rightarrow> byte list \<Rightarrow> fastboot_ptentry option"
    and entries :: "'t \<Rightarrow> fastboot_ptentry list"
    and inv :: "'t \<Rightarrow> bool"
  assumes reset_inv: "inv t \<Longrightarrow> inv (reset t)"
    and add_inv: "inv t \<Longrightarrow> inv (add t e)"
    and reset_entries: "inv t \<Longrightarrow> entries (reset t) = []"
    and add_entries: "inv t \<Longrightarrow> entries (add t e) = take 16 (entries t @ [e])"
    and bounded: "inv t \<Longrightarrow> length (entries t) \<le> 16"
    and find_entries: "inv t \<Longrightarrow> 0 \<notin> set name
      \<Longrightarrow> find t name = List.find (\<lambda>e. cstr_of (pt_name e) = name) (entries t)"
begin

lemma adds_inv: "inv t \<Longrightarrow> inv (foldl add t es)"
  by (induction es arbitrary: t) (simp_all add: add_inv)

lemma adds_entries: "inv t \<Longrightarrow> entries (foldl add t es) = take 16 (entries t @ es)"
proof (induction es arbitrary: t)
  case Nil
  then show ?case using bounded[of t] by simp
next
  case (Cons e es)
  then show ?case by (simp add: add_inv add_entries min_def take_Cons')
qed

text \<open>A name is found iff one of the first 16 added entries has it, and then the first of these.\<close>

lemma find_adds:
  assumes "inv t" and "0 \<notin> set name"
  shows "find (foldl add (reset t) es) name = List.find (\<lambda>e. cstr_of (pt_name e) = name) (take 16 es)"
  using find_entries[OF adds_inv[OF reset_inv[OF assms(1)]] assms(2)]
    adds_entries[OF reset_inv[OF assms(1)]] reset_entries[OF assms(1)] by simp

lemma find_distinct:
  assumes "inv t" and "e \<in> set (entries t)" and "distinct (map (\<lambda>e. cstr_of (pt_name e)) (entries t))"
  shows "find t (cstr_of (pt_name e)) = Some e"
proof -
  have "List.find (\<lambda>x. cstr_of (pt_name x) = cstr_of (pt_name e)) es = Some e"
    if "e \<in> set es" "distinct (map (\<lambda>e. cstr_of (pt_name e)) es)" for es
    using that by (induction es) auto
  then show ?thesis using assms by (simp add: find_entries)
qed

end

lemma find_ptn_loop_find:
  "0 \<notin> set name \<Longrightarrow> find_ptn_loop es name = List.find (\<lambda>e. cstr_of (pt_name e) = name) es"
  by (induction es) (auto simp: strcmp_s_zero)

interpretation ptab: ptn_table fastboot_flash_reset_ptn fastboot_flash_add_ptn fastboot_flash_find_ptn
    ptab_entries ptab_inv
proof unfold_locales
  fix t :: ptab and e name
  assume t: "ptab_inv t"
  show "ptab_inv (fastboot_flash_reset_ptn t)" "ptab_inv (fastboot_flash_add_ptn t e)"
    "ptab_entries (fastboot_flash_reset_ptn t) = []" "length (ptab_entries t) \<le> 16"
    using t by (auto simp: ptab_inv_def ptab_entries_def fastboot_flash_reset_ptn_def fastboot_flash_add_ptn_def MAX_PTN_def)
  show "ptab_entries (fastboot_flash_add_ptn t e) = take 16 (ptab_entries t @ [e])"
    using t by (auto simp: ptab_inv_def ptab_entries_def fastboot_flash_add_ptn_def MAX_PTN_def take_Suc_conv_app_nth
        list_update_append)
  show "0 \<notin> set name \<Longrightarrow> fastboot_flash_find_ptn t name
    = List.find (\<lambda>e. cstr_of (pt_name e) = name) (ptab_entries t)"
    by (simp add: fastboot_flash_find_ptn_def ptab_entries_def find_ptn_loop_find)
qed

end
