(* ===== verification/Idme.thy ===== *)
theory Idme
  imports BlockDev Ptn
begin

text \<open>
  The identity variables of the device, \<^verbatim>\<open>common/cmd_idme.c\<close>: a table of named fields at fixed
  offsets of a 16 KiB area that is kept in the first boot partition of the eMMC and mirrored to its
  user area.

  \<open>idme\<close> holds the static buffers of the file. The operations take the eMMC as the operations record
  \<open>dev\<close> and its state, and return the C result with the new buffers and the new state. A console
  message is not modelled except for the listing of \<^verbatim>\<open>idme ?\<close>, which is returned. \<^const>\<open>None\<close>
  stands for an access outside a buffer, among them \<^verbatim>\<open>gblock_buff\<close> with its 512 bytes.

  The configuration is the one of \<^verbatim>\<open>include/configs/tate.h\<close>: the eMMC is slot 1, the variables are in
  partition 1, the user copy and the recovery key are compiled in, the other keys and the update of
  \<^verbatim>\<open>idme_check_update\<close> are not.
\<close>

section \<open>The table of variables\<close>

record nvram_t =
  nv_name :: string
  nv_offset :: nat
  nv_size :: nat

definition nvram_info :: "nvram_t list" where
  "nvram_info = map (\<lambda>(n, a, l). \<lparr>nv_name = n, nv_offset = a, nv_size = l\<rparr>)
    [(''version'', 0, 4), (''boardid'', 4, 16), (''serial'', 20, 16), (''mac'', 36, 16), (''sec'', 52, 32),
     (''bt'', 84, 16), (''pid'', 0x200, 32), (''pid2'', 0x220, 32), (''bootmode'', 0x1000, 16),
     (''postmode'', 0x1010, 16), (''gyrocal'', 100, 36), (''camcal'', 0x1020, 2560), (''mfg'', 0x1A20, 512)]"

definition nvram_sig :: "byte list" where "nvram_sig = bytes ''adbdefg12345''"

definition nvram_sig_info :: nvram_t where
  "nvram_sig_info = \<lparr>nv_name = ''writesig'', nv_offset = 0x1f0, nv_size = 12\<rparr>"

definition nvram_sig_info_bitmap :: nvram_t where
  "nvram_sig_info_bitmap = \<lparr>nv_name = ''writesig_bitmap'', nv_offset = 0x1fc, nv_size = 4\<rparr>"

definition IDME_MAGIC_NUMBER :: "byte list" where "IDME_MAGIC_NUMBER = bytes ''beefdeed''"
definition IDME_BASE_ADDR :: nat where "IDME_BASE_ADDR = 8"
definition CONFIG_USERDATA_IDME_ADDR :: nat where "CONFIG_USERDATA_IDME_ADDR = 0x80000"
definition CONFIG_IDME_SIZE :: nat where "CONFIG_IDME_SIZE = 0x4000"
definition CONFIG_IDME_PARTITION_NUM :: u32 where "CONFIG_IDME_PARTITION_NUM = 1"
definition IDME_VERSION_STR :: "byte list" where "IDME_VERSION_STR = bytes ''1.2''"

record idme =
  gblock_buff :: "byte list"
  gidme_buff :: "byte list"
  gidme_buff_valid :: int
  board_id :: "byte list"
  board_serial :: "byte list"

section \<open>Numbers\<close>

function itoa_loop :: "u32 \<Rightarrow> byte list \<Rightarrow> byte list" where
  "itoa_loop i acc =
     (let acc = (0x30 + ucast (i mod 10)) # acc; i = i div 10
      in if 0 < i then itoa_loop i acc else acc)"
  by pat_completeness auto
termination
  by (relation "measure (\<lambda>(i, _). unat i)")
    (auto simp: unat_div word_less_nat_alt intro!: div_less_dividend)

declare itoa_loop.simps [simp del]

definition simple_itoa :: "u32 \<Rightarrow> byte list" where
  "simple_itoa i = itoa_loop i []"

text \<open>\<^verbatim>\<open>simple_atoi(s, e)\<close> on the characters from \<^verbatim>\<open>s\<close> up to \<^verbatim>\<open>e\<close>.\<close>

definition simple_atoi :: "byte list \<Rightarrow> u32" where
  "simple_atoi s = foldl (\<lambda>result c. result * 10 + (ucast c - 0x30)) 0 (dropWhile (\<lambda>c. c = 0x30) s)"

section \<open>Reading and writing the area\<close>

definition idme_get_magic_size ::
    "'s blk_ops \<Rightarrow> byte list \<Rightarrow> idme \<Rightarrow> 's \<Rightarrow> (int \<times> byte list \<times> idme \<times> 's) option" where
  "idme_get_magic_size dev buf i s = do {
     (r, s) \<leftarrow> op_sw_part dev s 1 CONFIG_IDME_PARTITION_NUM;
     if r \<noteq> 1 then Some (-1, buf, i, s) else do {
     (ret, b, s) \<leftarrow> op_read dev s 1 0 (gblock_buff i) 0 512;
     let i = i\<lparr>gblock_buff := b\<rparr>;
     (r, s) \<leftarrow> op_sw_part dev s 1 0;
     if r \<noteq> 1 then Some (-1, buf, i, s)
     else if ret \<noteq> 1 then Some (ret, buf, i, s)
     else do {
       m \<leftarrow> load 0 IDME_BASE_ADDR (gblock_buff i);
       buf \<leftarrow> store 0 m buf;
       Some (0, buf, i, s) } } }"

function idme_read_loop ::
    "'s blk_ops \<Rightarrow> nat \<Rightarrow> u32 \<Rightarrow> int \<Rightarrow> byte list \<Rightarrow> 's \<Rightarrow> (int \<times> byte list \<times> 's) option" where
  "idme_read_loop dev len block_addr ret pbuf s =
     (if len < CONFIG_IDME_SIZE then do {
        (ret, pbuf, s) \<leftarrow> op_read dev s 1 block_addr pbuf len 512;
        if ret \<noteq> 1 then Some (ret, pbuf, s)
        else idme_read_loop dev (len + 512) (block_addr + 1) ret pbuf s }
      else Some (ret, pbuf, s))"
  by pat_completeness auto
termination by (relation "measure (\<lambda>(_, len, _). CONFIG_IDME_SIZE - len)") auto

declare idme_read_loop.simps [simp del]

text \<open>\<open>is_boot\<close> selects the boot partition at block 0, else the copy of the user area is meant.\<close>

definition idme_read :: "'s blk_ops \<Rightarrow> byte list \<Rightarrow> bool \<Rightarrow> 's \<Rightarrow> (int \<times> byte list \<times> 's) option" where
  "idme_read dev pbuf is_boot s = do {
     (r, s) \<leftarrow> (if is_boot then op_sw_part dev s 1 CONFIG_IDME_PARTITION_NUM else Some (1, s));
     if r \<noteq> 1 then Some (-1, pbuf, s) else do {
     (ret, pbuf, s) \<leftarrow> idme_read_loop dev 0
         (if is_boot then 0 else of_nat (CONFIG_USERDATA_IDME_ADDR div 512)) 0 pbuf s;
     (r, s) \<leftarrow> (if is_boot then op_sw_part dev s 1 0 else Some (1, s));
     if r \<noteq> 1 then Some (-1, pbuf, s)
     else Some (if ret \<noteq> 1 then -1 else 0, pbuf, s) } }"

function idme_write_loop ::
    "'s blk_ops \<Rightarrow> nat \<Rightarrow> u32 \<Rightarrow> int \<Rightarrow> byte list \<Rightarrow> 's \<Rightarrow> (int \<times> 's) option" where
  "idme_write_loop dev len block_addr ret pbuf s =
     (if len < CONFIG_IDME_SIZE then do {
        (ret, s) \<leftarrow> op_write dev s 1 pbuf len block_addr 512;
        if ret \<noteq> 1 then Some (ret, s)
        else idme_write_loop dev (len + 512) (block_addr + 1) ret pbuf s }
      else Some (ret, s))"
  by pat_completeness auto
termination by (relation "measure (\<lambda>(_, len, _). CONFIG_IDME_SIZE - len)") auto

declare idme_write_loop.simps [simp del]

definition idme_write :: "'s blk_ops \<Rightarrow> byte list \<Rightarrow> bool \<Rightarrow> 's \<Rightarrow> (int \<times> 's) option" where
  "idme_write dev pbuf is_boot s = do {
     (r, s) \<leftarrow> (if is_boot then op_sw_part dev s 1 CONFIG_IDME_PARTITION_NUM else Some (1, s));
     if r \<noteq> 1 then Some (-1, s) else do {
     (ret, s) \<leftarrow> idme_write_loop dev 0
         (if is_boot then 0 else of_nat (CONFIG_USERDATA_IDME_ADDR div 512)) 0 pbuf s;
     (r, s) \<leftarrow> (if is_boot then op_sw_part dev s 1 0 else Some (1, s));
     if r \<noteq> 1 then Some (-1, s)
     else Some (if ret \<noteq> 1 then -1 else 0, s) } }"

definition idme_magic :: "byte list \<Rightarrow> bool" where
  "idme_magic buffer \<longleftrightarrow> strncmp_s (cstr_of buffer) IDME_MAGIC_NUMBER (length IDME_MAGIC_NUMBER) = 0"

section \<open>Variables\<close>

fun find_var_loop :: "nvram_t list \<Rightarrow> byte list \<Rightarrow> nvram_t option" where
  "find_var_loop [] name = None"
| "find_var_loop (v # vs) name =
     (let len = length (bytes (nv_name v)) in
      if length name = len \<and> strncmp_s name (bytes (nv_name v)) len = 0 then Some v else find_var_loop vs name)"

definition idme_find_var :: "byte list \<Rightarrow> nvram_t option" where
  "idme_find_var name = find_var_loop nvram_info name"

text \<open>A variable of an area in memory. \<open>base\<close> is the offset of \<^verbatim>\<open>pbuf\<close> in its buffer.\<close>

definition idme_get_var_ex ::
    "byte list \<Rightarrow> nat \<Rightarrow> byte list \<Rightarrow> byte list \<Rightarrow> nat \<Rightarrow> (int \<times> byte list) option" where
  "idme_get_var_ex mem base name buf buflen =
     (case idme_find_var name of
        None \<Rightarrow> Some (-1, buf)
      | Some nv \<Rightarrow>
          if nv_size nv + 1 > buflen then Some (int (nv_size nv + 1), buf)
          else do {
            v \<leftarrow> load (base + nv_offset nv) (nv_size nv) mem;
            buf \<leftarrow> store 0 v buf;
            Some (0, buf) })"

text \<open>The loop of \<^verbatim>\<open>idme_print_vars_ex\<close>; the lines printed are the third component.\<close>

fun print_loop_ex ::
    "nvram_t list \<Rightarrow> byte list \<Rightarrow> byte list \<Rightarrow> (byte list \<times> byte list) list
      \<Rightarrow> (int \<times> (byte list \<times> byte list) list) option" where
  "print_loop_ex [] buffer value out = Some (0, out)"
| "print_loop_ex (v # vs) buffer value out = do {
     (r, value) \<leftarrow> idme_get_var_ex buffer IDME_BASE_ADDR (bytes (nv_name v)) value (length value);
     if r = 0 then do {
       value \<leftarrow> store (nv_size v) [0] value;
       print_loop_ex vs buffer value (out @ [(bytes (nv_name v), cstr_of value)]) }
     else Some (0, out) }"

definition idme_print_vars_ex ::
    "'s blk_ops \<Rightarrow> 's \<Rightarrow> (int \<times> (byte list \<times> byte list) list \<times> 's) option" where
  "idme_print_vars_ex dev s = do {
     (r, buffer, s) \<leftarrow> idme_read dev (replicate CONFIG_IDME_SIZE 0) True s;
     if r \<noteq> 0 then Some (-1, [], s)
     else if \<not> idme_magic buffer then Some (-1, [], s)
     else do {
       (r, out) \<leftarrow> print_loop_ex nvram_info buffer (stack_buf CONFIG_IDME_SIZE) [];
       Some (r, out, s) } }"

text \<open>\<^verbatim>\<open>idme_get_var\<close>: \<open>buf\<close> is the caller's buffer, \<open>buflen\<close> the length it is given with.\<close>

definition idme_get_var ::
    "'s blk_ops \<Rightarrow> byte list \<Rightarrow> byte list \<Rightarrow> nat \<Rightarrow> idme \<Rightarrow> 's \<Rightarrow> (int \<times> byte list \<times> idme \<times> 's) option" where
  "idme_get_var dev name buf buflen i s = do {
     buf \<leftarrow> store 0 [0] buf;
     case idme_find_var name of
       None \<Rightarrow> Some (-1, buf, i, s)
     | Some nv \<Rightarrow> do {
         let block = (nv_offset nv + IDME_BASE_ADDR) div 512;
         let offset = (nv_offset nv + IDME_BASE_ADDR) mod 512;
         let sz = nv_size nv;
         (r, s) \<leftarrow> op_sw_part dev s 1 CONFIG_IDME_PARTITION_NUM;
         if r \<noteq> 1 then Some (-1, buf, i, s) else do {
         (ret, b, s) \<leftarrow> op_read dev s 1 (of_nat block) (gblock_buff i) 0 512;
         let i = i\<lparr>gblock_buff := b\<rparr>;
         (r, s) \<leftarrow> op_sw_part dev s 1 0;
         if r \<noteq> 1 then Some (-1, buf, i, s)
         else if ret \<noteq> 1 then Some (ret, buf, i, s)
         else if sz + 1 > buflen then Some (int (sz + 1), buf, i, s)
         else do {
           v \<leftarrow> load offset sz (gblock_buff i);
           buf \<leftarrow> store 0 v buf;
           buf \<leftarrow> store sz [0] buf;
           Some (0, buf, i, s) } } } }"

fun print_loop ::
    "'s blk_ops \<Rightarrow> nvram_t list \<Rightarrow> byte list \<Rightarrow> (byte list \<times> byte list) list \<Rightarrow> idme \<Rightarrow> 's
      \<Rightarrow> (int \<times> (byte list \<times> byte list) list \<times> idme \<times> 's) option" where
  "print_loop dev [] value out i s = Some (0, out, i, s)"
| "print_loop dev (v # vs) value out i s = do {
     (r, value, i, s) \<leftarrow> idme_get_var dev (bytes (nv_name v)) value (length value) i s;
     if r = 0 then do {
       value \<leftarrow> store (nv_size v) [0] value;
       print_loop dev vs value (out @ [(bytes (nv_name v), cstr_of value)]) i s }
     else Some (0, out, i, s) }"

definition idme_print_vars ::
    "'s blk_ops \<Rightarrow> idme \<Rightarrow> 's \<Rightarrow> (int \<times> (byte list \<times> byte list) list \<times> idme \<times> 's) option" where
  "idme_print_vars dev i s = do {
     (r, value, i, s) \<leftarrow> idme_get_magic_size dev (stack_buf CONFIG_IDME_SIZE) i s;
     if r \<noteq> 0 then Some (-1, [], i, s)
     else if \<not> idme_magic value then Some (-1, [], i, s)
     else print_loop dev nvram_info value [] i s }"

text \<open>\<^verbatim>\<open>idme_update_var\<close>: \<open>value\<close> is \<^const>\<open>None\<close> for \<^verbatim>\<open>NULL\<close>. A read error jumps to \<^verbatim>\<open>out\<close>.\<close>

definition idme_update_var ::
    "'s blk_ops \<Rightarrow> byte list \<Rightarrow> byte list option \<Rightarrow> idme \<Rightarrow> 's \<Rightarrow> (int \<times> idme \<times> 's) option" where
  "idme_update_var dev name value i s =
     (case idme_find_var name of
        None \<Rightarrow> Some (-1, i, s)
      | Some nv \<Rightarrow> do {
          let block = of_nat ((nv_offset nv + IDME_BASE_ADDR) div 512);
          let offset = (nv_offset nv + IDME_BASE_ADDR) mod 512;
          let sz = nv_size nv;
          (r, s) \<leftarrow> op_sw_part dev s 1 CONFIG_IDME_PARTITION_NUM;
          if r \<noteq> 1 then Some (-1, i, s) else do {
          (ret, b, s) \<leftarrow> op_read dev s 1 block (gblock_buff i) 0 512;
          let i = i\<lparr>gblock_buff := b\<rparr>;
          (ret, i, s) \<leftarrow> (if ret \<noteq> 1 then Some (ret, i, s) else do {
              b \<leftarrow> store offset (replicate sz 0) (gblock_buff i);
              b \<leftarrow> (case value of None \<Rightarrow> Some b | Some v \<Rightarrow> store offset (take sz v) b);
              (ret, s) \<leftarrow> op_write dev s 1 b 0 block 512;
              Some (ret, i\<lparr>gblock_buff := b\<rparr>, s) });
          (r, s) \<leftarrow> op_sw_part dev s 1 0;
          if r \<noteq> 1 \<or> ret \<noteq> 1 then Some (-1, i, s) else Some (ret, i, s) } })"

definition idme_clean :: "'s blk_ops \<Rightarrow> 's \<Rightarrow> (int \<times> 's) option" where
  "idme_clean dev s = do {
     let buffer = replicate CONFIG_IDME_SIZE 0;
     (_, s) \<leftarrow> idme_write dev buffer False s;
     (_, s) \<leftarrow> idme_write dev buffer True s;
     Some (0, s) }"

text \<open>The default contents. \<open>default_var\<close> is one turn of the loop over the variables from index 2 on.\<close>

definition default_var :: "nvram_t \<Rightarrow> byte list \<Rightarrow> byte list option" where
  "default_var v pbuf =
     (let at = IDME_BASE_ADDR + nv_offset v in
      if strncmp_s (bytes (nv_name v)) (bytes ''bootmode'') 8 = 0 then store at (bytes ''2'') pbuf
      else if strncmp_s (bytes (nv_name v)) (bytes ''postmode'') 8 = 0 then store at (replicate (nv_size v) 0) pbuf
      else store at (replicate (nv_size v) 0x30) pbuf)"

fun default_loop :: "nvram_t list \<Rightarrow> byte list \<Rightarrow> byte list option" where
  "default_loop [] pbuf = Some pbuf"
| "default_loop (v # vs) pbuf = do { pbuf \<leftarrow> default_var v pbuf; default_loop vs pbuf }"

definition idme_generate_default_vars :: "byte list \<Rightarrow> (int \<times> byte list) option" where
  "idme_generate_default_vars pbuf = do {
     pbuf \<leftarrow> store 0 (replicate CONFIG_IDME_SIZE 0) pbuf;
     pbuf \<leftarrow> store 0 IDME_MAGIC_NUMBER pbuf;
     pbuf \<leftarrow> store (IDME_BASE_ADDR + nv_offset (nvram_info ! 0)) IDME_VERSION_STR pbuf;
     pbuf \<leftarrow> store (IDME_BASE_ADDR + nv_offset (nvram_info ! 1)) (bytes ''0000400000000000'') pbuf;
     pbuf \<leftarrow> default_loop (drop 2 nvram_info) pbuf;
     Some (0, pbuf) }"

definition idme_write_magic_size :: "'s blk_ops \<Rightarrow> idme \<Rightarrow> 's \<Rightarrow> (int \<times> idme \<times> 's) option" where
  "idme_write_magic_size dev i s = do {
     b \<leftarrow> store 0 (replicate 512 0) (gblock_buff i);
     b \<leftarrow> store 0 IDME_MAGIC_NUMBER b;
     let i = i\<lparr>gblock_buff := b\<rparr>;
     (r, s) \<leftarrow> op_sw_part dev s 1 CONFIG_IDME_PARTITION_NUM;
     if r \<noteq> 1 then Some (-1, i, s) else do {
     (ret, s) \<leftarrow> op_write dev s 1 b 0 0 512;
     (r, s) \<leftarrow> op_sw_part dev s 1 0;
     if r \<noteq> 1 \<or> ret \<noteq> 1 then Some (-1, i, s) else Some (0, i, s) } }"

text \<open>
  The requested update: the user copy carries a signature and a bitmap of the variables to be taken
  over into the boot area. \<open>merge_vars\<close> is the loop over the variables, \<open>k\<close> the index of the first.
\<close>

fun merge_vars :: "nvram_t list \<Rightarrow> nat \<Rightarrow> u32 \<Rightarrow> byte list \<Rightarrow> byte list \<Rightarrow> byte list option" where
  "merge_vars [] k bitmap buffer boot_buffer = Some boot_buffer"
| "merge_vars (v # vs) k bitmap buffer boot_buffer =
     (if bitmap AND push_bit k 1 \<noteq> 0 then do {
        x \<leftarrow> load (IDME_BASE_ADDR + nv_offset v) (nv_size v) buffer;
        boot_buffer \<leftarrow> store (IDME_BASE_ADDR + nv_offset v) x boot_buffer;
        merge_vars vs (k + 1) bitmap buffer boot_buffer }
      else merge_vars vs (k + 1) bitmap buffer boot_buffer)"

definition idme_update_vars_ex :: "'s blk_ops \<Rightarrow> 's \<Rightarrow> (int \<times> 's) option" where
  "idme_update_vars_ex dev s = do {
     (r, buffer, s) \<leftarrow> idme_read dev (replicate CONFIG_IDME_SIZE 0) False s;
     if r \<noteq> 0 then Some (-1, s) else do {
     (r, boot_buffer, s) \<leftarrow> idme_read dev (replicate CONFIG_IDME_SIZE 0) True s;
     if r \<noteq> 0 then Some (-1, s)
     else if \<not> idme_magic buffer then Some (-1, s)
     else do {
     let psig = IDME_BASE_ADDR + nv_offset nvram_sig_info;
     let pbitmap = IDME_BASE_ADDR + nv_offset nvram_sig_info_bitmap;
     sig \<leftarrow> load psig (nv_size nvram_sig_info) buffer;
     if memcmp_s sig nvram_sig \<noteq> 0 then Some (0, s) else do {
       bm \<leftarrow> load pbitmap 4 buffer;
       boot_buffer \<leftarrow> merge_vars nvram_info 0 (of_le bm) buffer boot_buffer;
       buffer \<leftarrow> store psig (replicate (nv_size nvram_sig_info) 0) buffer;
       buffer \<leftarrow> store pbitmap (le32 0) buffer;
       (r, s) \<leftarrow> idme_write dev boot_buffer True s;
       if r \<noteq> 0 then Some (-1, s) else do {
       (r, s) \<leftarrow> idme_write dev buffer False s;
       Some (if r \<noteq> 0 then -1 else 0, s) } } } } }"

definition idme_load :: "'s blk_ops \<Rightarrow> idme \<Rightarrow> 's \<Rightarrow> (int \<times> idme \<times> 's) option" where
  "idme_load dev i s = do {
     (r, b, s) \<leftarrow> idme_read dev (gidme_buff i) True s;
     let i = i\<lparr>gidme_buff := b\<rparr>;
     if r \<noteq> 0 then Some (-1, i, s)
     else do {
       (_, b) \<leftarrow> (if idme_magic b then Some (0, b) else idme_generate_default_vars b);
       Some (0, i\<lparr>gidme_buff := b, gidme_buff_valid := 1\<rparr>, s) } }"

section \<open>Boot mode\<close>

definition pdkernel :: "byte list" where "pdkernel = bytes ''dkernel''"
definition precovery :: "byte list" where "precovery = bytes ''recovery''"

text \<open>\<open>gpio\<close> gives the level of an input; the keys are low when they are pressed.\<close>

definition idme_select_bootmode_by_key :: "(nat \<Rightarrow> int) \<Rightarrow> byte list \<Rightarrow> byte list" where
  "idme_select_bootmode_by_key gpio ptn =
     (let val_vol_up = gpio 1; val_vol_down = gpio 50
      in if val_vol_up = 0 \<and> val_vol_down \<noteq> 0 then precovery else ptn)"

text \<open>
  The loop of \<^verbatim>\<open>idme_select_boot_image\<close>. \<open>bootmode\<close> is the local array with what the compiler leaves unused behind it; the
  terminator goes to index 17, one byte past the 17 of the array.
\<close>

fun select_loop ::
    "'s blk_ops \<Rightarrow> nvram_t list \<Rightarrow> byte list \<Rightarrow> byte list \<Rightarrow> idme \<Rightarrow> 's
      \<Rightarrow> (byte list \<times> byte list \<times> idme \<times> 's) option" where
  "select_loop dev [] buffer bootmode i s = Some (buffer, bootmode, i, s)"
| "select_loop dev (v # vs) buffer bootmode i s =
     (let at = IDME_BASE_ADDR + nv_offset v in
      if strncmp_s (bytes (nv_name v)) (bytes ''bootmode'') 8 = 0 then do {
        x \<leftarrow> load at (nv_size v) buffer;
        bootmode \<leftarrow> store 0 x bootmode;
        bootmode \<leftarrow> store (nv_size v + 1) [0] bootmode;
        select_loop dev vs buffer bootmode i s }
      else if strncmp_s (bytes (nv_name v)) (bytes ''postmode'') 8 = 0 then do {
        boot_count \<leftarrow> load at 4 buffer;
        buffer \<leftarrow> store at (le32 1) buffer;
        (_, i, s) \<leftarrow> idme_update_var dev (bytes ''postmode'') (Some (cstr_of (drop at buffer))) i s;
        select_loop dev vs buffer bootmode i s }
      else select_loop dev vs buffer bootmode i s)"

text \<open>The \<^verbatim>\<open>switch\<close> over the mode.\<close>

definition bootmode_switch ::
    "'s blk_ops \<Rightarrow> byte \<Rightarrow> byte list \<Rightarrow> idme \<Rightarrow> 's \<Rightarrow> (byte list \<times> idme \<times> 's) option" where
  "bootmode_switch dev m ptn i s =
     (if m = 0x31 then Some (ptn, i, s)
      else if m = 0x32 then Some (pdkernel, i, s)
      else if m = 0x33 then Some (precovery, i, s)
      else if m = 0x36 then Some (pdkernel, i, s)
      else if m = 0x37 then do {
        (_, i, s) \<leftarrow> idme_update_var dev (bytes ''bootmode'') (Some (bytes ''1'')) i s;
        Some (precovery, i, s) }
      else Some (ptn, i, s))"

text \<open>
  \<^verbatim>\<open>bootmode\<close> is an array of 17 bytes on the stack, and the code writes a terminator to its index 17. Where that byte lies is up to the compiler:
  \<open>slack\<close> is the number of bytes it leaves unused behind the array in the frame. Without any, the write hits another object (\<^const>\<open>None\<close>).
\<close>

definition bootmode_array :: "nat \<Rightarrow> byte list" where
  "bootmode_array slack = stack_buf (17 + slack)"

definition idme_select_boot_image ::
    "nat \<Rightarrow> 's blk_ops \<Rightarrow> (nat \<Rightarrow> int) \<Rightarrow> byte list \<Rightarrow> idme \<Rightarrow> 's \<Rightarrow> (int \<times> byte list \<times> idme \<times> 's) option" where
  "idme_select_boot_image slack dev gpio ptn i s = do {
     (r, buffer, s) \<leftarrow> idme_read dev (replicate CONFIG_IDME_SIZE 0) True s;
     if r \<noteq> 0 then Some (-1, ptn, i, s) else do {
     (buffer, s) \<leftarrow> (if idme_magic buffer then Some (buffer, s) else do {
         (_, buffer) \<leftarrow> idme_generate_default_vars buffer;
         (_, s) \<leftarrow> idme_write dev buffer True s;
         Some (buffer, s) });
     (_, s) \<leftarrow> idme_write dev buffer False s;
     bootmode \<leftarrow> store 0 (replicate 16 0) (bootmode_array slack);
     (buffer, bootmode, i, s) \<leftarrow> select_loop dev nvram_info buffer bootmode i s;
     (ptn, i, s) \<leftarrow> bootmode_switch dev (bootmode ! 0) ptn i s;
     Some (0, idme_select_bootmode_by_key gpio ptn, i, s) } }"

fun getbootmode_loop :: "nvram_t list \<Rightarrow> byte list \<Rightarrow> byte list \<Rightarrow> int \<Rightarrow> int option" where
  "getbootmode_loop [] buffer bootmode val = Some val"
| "getbootmode_loop (v # vs) buffer bootmode val =
     (if strncmp_s (bytes (nv_name v)) (bytes ''bootmode'') 8 = 0 then do {
        x \<leftarrow> load (IDME_BASE_ADDR + nv_offset v) (nv_size v) buffer;
        bootmode \<leftarrow> store 0 x bootmode;
        bootmode \<leftarrow> store (nv_size v + 1) [0] bootmode;
        getbootmode_loop vs buffer bootmode (uint (bootmode ! 0) - 48) }
      else getbootmode_loop vs buffer bootmode val)"

definition getbootmode :: "nat \<Rightarrow> 's blk_ops \<Rightarrow> 's \<Rightarrow> (int \<times> 's) option" where
  "getbootmode slack dev s = do {
     (r, buffer, s) \<leftarrow> idme_read dev (replicate CONFIG_IDME_SIZE 0) True s;
     if r \<noteq> 0 then Some (-1, s) else do {
     bootmode \<leftarrow> store 0 (replicate 16 0) (bootmode_array slack);
     val \<leftarrow> getbootmode_loop nvram_info buffer bootmode (-1);
     Some (val, s) } }"

definition idme_boot_count :: "'s blk_ops \<Rightarrow> idme \<Rightarrow> 's \<Rightarrow> (int \<times> idme \<times> 's) option" where
  "idme_boot_count dev i s = do {
     let postmode_buf = replicate 17 0;
     (r, postmode_buf, i, s) \<leftarrow> idme_get_var dev (bytes ''postmode'') postmode_buf 17 i s;
     if r = 0 then do {
       postmode_buf \<leftarrow> store 16 [0] postmode_buf;
       count \<leftarrow> load 0 4 postmode_buf;
       postmode_buf \<leftarrow> store 0 (le32 1) postmode_buf;
       (_, i, s) \<leftarrow> idme_update_var dev (bytes ''postmode'') (Some (cstr_of postmode_buf)) i s;
       Some (0, i, s) }
     else Some (0, i, s) }"

section \<open>Board identity\<close>

fun is_valid_board_info :: "byte list \<Rightarrow> bool" where
  "is_valid_board_info [] = True"
| "is_valid_board_info (c # cs) =
     (if c = 0 then True
      else if c < 0x30 \<and> 0x39 < c \<and> c < 0x41 \<and> 0x5A < c then False
      else is_valid_board_info cs)"

text \<open>The 17 byte array \<open>b\<close> after \<^verbatim>\<open>memset(b, '0', sizeof(b)-1); b[sizeof(b)] = '\0'\<close>.\<close>

definition invalid_info :: "byte list \<Rightarrow> byte list option" where
  "invalid_info b = do { b \<leftarrow> store 0 (replicate 16 0x30) b; store 17 [0] b }"

definition get_board_info ::
    "'s blk_ops \<Rightarrow> string \<Rightarrow> byte list \<Rightarrow> idme \<Rightarrow> 's \<Rightarrow> (byte list \<times> idme \<times> 's) option" where
  "get_board_info dev name b i s = do {
     b \<leftarrow> store 0 (replicate 17 0) b;
     (r, b, i, s) \<leftarrow> idme_get_var dev (bytes name) b 17 i s;
     b \<leftarrow> (if r \<noteq> 0 then invalid_info b else Some b);
     b \<leftarrow> (if \<not> is_valid_board_info b then invalid_info b else Some b);
     b \<leftarrow> store 16 [0] b;
     Some (b, i, s) }"

definition idme_get_board_id :: "'s blk_ops \<Rightarrow> idme \<Rightarrow> 's \<Rightarrow> (byte list \<times> idme \<times> 's) option" where
  "idme_get_board_id dev i s = do {
     (b, i, s) \<leftarrow> get_board_info dev ''boardid'' (board_id i) i s;
     Some (b, i\<lparr>board_id := b\<rparr>, s) }"

definition idme_get_board_serial :: "'s blk_ops \<Rightarrow> idme \<Rightarrow> 's \<Rightarrow> (byte list \<times> idme \<times> 's) option" where
  "idme_get_board_serial dev i s = do {
     (b, i, s) \<leftarrow> get_board_info dev ''serial'' (board_serial i) i s;
     Some (b, i\<lparr>board_serial := b\<rparr>, s) }"

text \<open>
  The chain of prefixes: the digits that are compared, the text and how many of its characters
  are copied.
\<close>

definition board_types :: "(string \<times> string \<times> nat) list" where
  "board_types =
    [(''000'', ''Bowser-'', length ''Bowser-''), (''001'', ''Jem-PreEVT2-'', length ''Jem-PreEVT2-''),
     (''801'', ''Jem-PostEVT2-'', length ''Jem-EVT2-''), (''802'', ''Jem-PostEVT2-'', length ''Jem-EVT2-''),
     (''002'', ''Tate-PreEVT2.1-'', length ''Tate-PreEVT2.1-''),
     (''80304'', ''Tate-PostEVT2.1-'', length ''Tate-PostEVT2.1-''),
     (''80305'', ''Tate-PostEVT2.1-'', length ''Tate-PostEVT2.1-''),
     (''80306'', ''Tate-EVT3HS2-'', length ''Tate-EVT3HS2-''), (''80307'', ''Tate-DVT-'', length ''Tate-DVT-''),
     (''80308'', ''Tate-PVT-'', length ''Tate-PVT-''), (''804'', ''Radley-'', length ''Radley-'')]"

fun board_type_chain :: "(string \<times> string \<times> nat) list \<Rightarrow> byte list \<Rightarrow> byte list option" where
  "board_type_chain [] bd = None"
| "board_type_chain ((p, txt, n) # ts) bd =
     (if strncmp_s bd (bytes p) (length p) = 0 then Some (take n (bytes txt)) else board_type_chain ts bd)"

text \<open>\<^verbatim>\<open>strncpy(bt, &pBd[3], 2)\<close> copies up to the terminator, which is copied as well.\<close>

definition idme_get_board_type_rev_string ::
    "'s blk_ops \<Rightarrow> byte list \<Rightarrow> idme \<Rightarrow> 's \<Rightarrow> (int \<times> byte list \<times> idme \<times> 's) option" where
  "idme_get_board_type_rev_string dev bt i s = do {
     (b, i, s) \<leftarrow> idme_get_board_id dev i s;
     let pBd = cstr_of b;
     case (if pBd \<noteq> [] then board_type_chain board_types pBd else None) of
       Some t \<Rightarrow> do {
         bt \<leftarrow> store 0 t bt;
         bt \<leftarrow> store (length t) (take 2 (drop 3 (pBd @ [0]))) bt;
         Some (0, bt, i, s) }
     | None \<Rightarrow> do {
         bt \<leftarrow> store 0 (bytes ''unknown'') bt;
         Some (0, bt, i, s) } }"

section \<open>The command\<close>

text \<open>
  \<open>cmdtp\<close> says whether the command table entry is not \<^verbatim>\<open>NULL\<close>: the usage message reads it.
  The listing of \<^verbatim>\<open>idme ?\<close> is the second component.
\<close>

definition do_idme ::
    "'s blk_ops \<Rightarrow> bool \<Rightarrow> nat \<Rightarrow> byte list list \<Rightarrow> idme \<Rightarrow> 's
      \<Rightarrow> (int \<times> (byte list \<times> byte list) list \<times> idme \<times> 's) option" where
  "do_idme dev cmdtp argc argv i s =
     (let pfx = (\<lambda>p. strncmp_s (argv ! 1) (bytes p) (length p) = 0);
          quiet = map_option (\<lambda>(r, i, s). (r, [], i, s)) in
      if argc = 1 \<or> pfx ''?'' then do {
        (r, out, s) \<leftarrow> idme_print_vars_ex dev s;
        Some (r, out, i, s) }
      else if argc \<le> 3 then
        if argc = 3 then quiet (idme_update_var dev (argv ! 1) (Some (argv ! 2)) i s)
        else if argc = 2 then
          if pfx ''version'' then quiet (idme_update_var dev (argv ! 1) (Some IDME_VERSION_STR) i s)
          else if pfx ''magic'' then quiet (idme_write_magic_size dev i s)
          else if pfx ''clean'' then map_option (\<lambda>(r, s). (r, [], i, s)) (idme_clean dev s)
          else if pfx ''count'' then quiet (idme_boot_count dev i s)
          else quiet (idme_update_var dev (argv ! 1) None i s)
        else quiet (idme_update_var dev (argv ! 1) None i s)
      else if cmdtp then Some (1, [], i, s) else None)"

text \<open>
  \<^verbatim>\<open>fastboot oem idme\<close>: the words of the command become the arguments. \<open>idme_words\<close> is the loop; each
  word is printed into \<^verbatim>\<open>value\<close>, an array of 32 bytes.
\<close>

definition word32 :: "byte list option \<Rightarrow> byte list option" where
  "word32 t = (let w = (case t of None \<Rightarrow> bytes ''<NULL>'' | Some w \<Rightarrow> w) in if length w < 32 then Some w else None)"

lemma next_tok_shorter: "next_tok d s = Some (t, u) \<Longrightarrow> length u < length s"
proof -
  assume a: "next_tok d s = Some (t, u)"
  define r where "r = dropWhile (\<lambda>c. c \<in> set d) s"
  have "r \<noteq> []" and u: "u = drop 1 (dropWhile (\<lambda>c. c \<notin> set d) r)"
    using a by (auto simp: next_tok_def r_def[symmetric] Let_def split: if_splits)
  then have "length u < length r"
    using length_dropWhile_le[of "\<lambda>c. c \<notin> set d" r] by (cases r) auto
  also have "\<dots> \<le> length s" by (simp add: r_def length_dropWhile_le)
  finally show ?thesis .
qed

function idme_words :: "byte list \<Rightarrow> nat \<Rightarrow> byte list \<Rightarrow> (nat \<times> byte list) option" where
  "idme_words rest i value =
     (case next_tok (bytes '' '') rest of
        None \<Rightarrow> Some (i, value)
      | Some (t, rest) \<Rightarrow> do { value \<leftarrow> word32 (Some t); idme_words rest (i + 1) value })"
  by pat_completeness auto
termination by (relation "measure (\<lambda>(r, _). length r)") (auto dest: next_tok_shorter)

declare idme_words.simps [simp del]

definition fastboot_idme ::
    "'s blk_ops \<Rightarrow> byte list \<Rightarrow> idme \<Rightarrow> 's \<Rightarrow> (int \<times> (byte list \<times> byte list) list \<times> idme \<times> 's) option" where
  "fastboot_idme dev cmd i s =
     (case next_tok (bytes '' '') cmd of
        None \<Rightarrow> do { ver \<leftarrow> word32 None; do_idme dev False 2 [bytes ''idme'', ver, []] i s }
      | Some (t, rest) \<Rightarrow> do {
          ver \<leftarrow> word32 (Some t);
          (n, value) \<leftarrow> idme_words rest 2 [];
          do_idme dev False n [bytes ''idme'', ver, value] i s })"

end
