(* ===== verification/IdmeStore.thy ===== *)
theory IdmeStore
  imports Idme
begin

text \<open>
  What the identity store does on a block device: reading and writing the 16 KiB area, the variables
  as fields of the area, the default contents, the choice of the boot image, the update requested
  through the user copy. The boot partition is seen as \<open>idme_area (sect s 1) 0\<close> and the user copy as
  \<open>idme_area (sect s 0) USER_BLOCK\<close>; a variable is its slice \<open>var_at\<close> of the area, so that an operation on
  the disk is described by one \<^const>\<open>patch\<close> of the area.
\<close>

section \<open>Numbers\<close>

lemma itoa_loop_unfold:
  "itoa_loop i acc = (if i < 10 then (0x30 + ucast i) # acc else itoa_loop (i div 10) ((0x30 + ucast (i mod 10)) # acc))"
proof -
  have "(0 < i div 10) = (\<not> i < 10)"
    by (simp add: word_less_nat_alt unat_div div_greater_zero_iff not_less)
  moreover have "i < 10 \<Longrightarrow> i mod 10 = i"
    by (simp add: word_arith_nat_mod word_less_nat_alt)
  ultimately show ?thesis by (subst itoa_loop.simps) (auto simp: Let_def)
qed

lemma ucast_digit: "d < 10 \<Longrightarrow> ucast (0x30 + ucast d :: byte) - 0x30 = (d :: u32)"
proof -
  assume "d < 10"
  then have d: "unat d < 10" by (simp add: word_less_nat_alt)
  then have "unat (0x30 + ucast d :: byte) = 48 + unat d"
    by (simp add: unat_word_ariths(1) unsigned_ucast_eq take_bit_nat_def)
  then have "unat (ucast (0x30 + ucast d :: byte) :: u32) = unat (0x30 + d)"
    using d by (simp add: unat_word_ariths(1) unsigned_ucast_eq take_bit_nat_def)
  then have "(ucast (0x30 + ucast d :: byte) :: u32) = 0x30 + d" by (simp add: word_unat_eq_iff)
  then show ?thesis by simp
qed

abbreviation atoi_step :: "u32 \<Rightarrow> byte \<Rightarrow> u32" where
  "atoi_step result c \<equiv> result * 10 + (ucast c - 0x30)"

lemma atoi_itoa_loop: "foldl atoi_step 0 (itoa_loop i acc) = foldl atoi_step i acc"
proof (induction "unat i" arbitrary: i acc rule: less_induct)
  case less
  show ?case
  proof (cases "i < 10")
    case True
    then show ?thesis by (subst itoa_loop_unfold) (simp add: ucast_digit)
  next
    case False
    have m: "i mod 10 < 10" by (simp add: word_less_nat_alt unat_mod)
    have "unat (i div 10) < unat i" using False by (simp add: unat_div word_less_nat_alt)
    then have "foldl atoi_step 0 (itoa_loop i acc) = foldl atoi_step (i div 10) ((0x30 + ucast (i mod 10)) # acc)"
      using False less by (subst itoa_loop_unfold) simp
    also have "\<dots> = foldl atoi_step i acc"
      using ucast_digit[OF m] by (simp add: word_mod_div_equality[of i 10] div_mult_mod_eq)
    finally show ?thesis .
  qed
qed

lemma foldl_skip_zero: "foldl atoi_step 0 (dropWhile (\<lambda>c. c = 0x30) s) = foldl atoi_step 0 s"
  by (induction s) auto

lemma atoi_itoa: "simple_atoi (simple_itoa i) = i"
  by (simp add: simple_atoi_def simple_itoa_def foldl_skip_zero atoi_itoa_loop)

section \<open>The area on the disk\<close>

lemma sectors_split:
  assumes "k < n" shows "sectors d a n = sectors d a k @ d (a + k) @ sectors d (a + k + 1) (n - k - 1)"
  using sectors_add[of d a k "Suc (n - k - 1)"] assms by (simp add: sectors_Suc)

lemma sectors_cong: "(\<And>i. i < n \<Longrightarrow> d (a + i) = e (a + i)) \<Longrightarrow> sectors d a n = sectors e a n"
  by (auto simp: sectors_def intro!: arg_cong[of _ _ concat]) (metis le_Suc_ex nat_add_left_cancel_less)

lemma bslice_sectors:
  assumes "\<And>i. length (d i) = 512" and "k < n" and "off + m \<le> 512"
  shows "bslice (512 * k + off) m (sectors d a n) = bslice off m (d (a + k))"
  using assms length_sectors[of k d a] by (simp add: sectors_split[OF assms(2)] bslice_append1 bslice_append2)

lemma patch_sectors:
  assumes "\<And>i. length (d i) = 512" and "k < n" and "off + length v \<le> 512"
  shows "patch (512 * k + off) v (sectors d a n) = sectors (d(a + k := patch off v (d (a + k)))) a n"
proof -
  let ?e = "d(a + k := patch off v (d (a + k)))"
  have "sectors ?e a k = sectors d a k" "sectors ?e (a + k + 1) (n - k - 1) = sectors d (a + k + 1) (n - k - 1)"
    by (intro sectors_cong; simp)+
  then show ?thesis
    using assms length_sectors[of k d a] by (simp add: sectors_split[OF assms(2)] patch_def)
qed

lemma sectors_upd_sectors:
  assumes "length bs = 512 * n" shows "sectors (upd_sectors d a bs) a n = bs"
proof -
  have "sectors (\<lambda>i. bslice (512 * (i - a)) 512 bs) a m = bslice 0 (512 * m) bs" if "m \<le> n" for m
    using that
  proof (induction m)
    case (Suc m)
    then show ?case using bslice_add[of 0 "512 * m" 512 bs] by (simp add: sectors_def add.commute)
  qed simp
  moreover have "sectors (upd_sectors d a bs) a n = sectors (\<lambda>i. bslice (512 * (i - a)) 512 bs) a n"
    by (rule sectors_cong) (simp add: upd_sectors_def assms)
  ultimately show ?thesis using assms by simp
qed

lemma sectors_upd_other: "a + n \<le> b \<or> b + length bs div 512 \<le> a \<Longrightarrow> sectors (upd_sectors d b bs) a n = sectors d a n"
  by (rule sectors_cong) (auto simp: upd_sectors_def)

definition idme_area :: "(nat \<Rightarrow> byte list) \<Rightarrow> nat \<Rightarrow> byte list" where
  "idme_area d a = sectors d a 32"

abbreviation USER_BLOCK :: nat where "USER_BLOCK \<equiv> 1024"

definition pad :: "nat \<Rightarrow> byte list \<Rightarrow> byte list" where
  "pad n v = take n v @ replicate (n - length v) 0"

lemma length_pad [simp]: "length (pad n v) = n"
  by (simp add: pad_def)

lemma patch_pad:
  "off + n \<le> length b \<Longrightarrow> patch off (take n v) (patch off (replicate n 0) b) = patch off (pad n v) b"
  by (cases "length v \<le> n") (simp_all add: patch_def pad_def add.commute)

text \<open>The name and place of a variable.\<close>

lemma find_var_find:
  assumes "0 \<notin> set name" and "list_all (\<lambda>v. 0 \<notin> set (bytes (nv_name v))) vs"
  shows "find_var_loop vs name = List.find (\<lambda>v. bytes (nv_name v) = name) vs"
  using assms(2)
proof (induction vs)
  case (Cons v vs)
  have "length name = length (bytes (nv_name v)) \<and> strncmp_s name (bytes (nv_name v)) (length (bytes (nv_name v))) = 0
      \<longleftrightarrow> bytes (nv_name v) = name"
    using assms(1) Cons.prems by (subst strncmp_s_zero) auto
  then show ?case using Cons by (auto simp: Let_def)
qed simp

lemma idme_find_var_find:
  "0 \<notin> set name \<Longrightarrow> idme_find_var name = List.find (\<lambda>v. bytes (nv_name v) = name) nvram_info"
  unfolding idme_find_var_def by (rule find_var_find) (simp_all add: nvram_info_def)

lemma idme_find_var_names: "map (\<lambda>v. idme_find_var (bytes (nv_name v))) nvram_info = map Some nvram_info"
  by (simp add: nvram_info_def idme_find_var_find)

lemma idme_find_var_in: "v \<in> set nvram_info \<Longrightarrow> idme_find_var (bytes (nv_name v)) = Some v"
  using idme_find_var_names by (auto simp: map_eq_conv[symmetric] in_set_conv_nth list_eq_iff_nth_eq)

definition in_block :: "nvram_t \<Rightarrow> bool" where
  "in_block nv \<longleftrightarrow> (nv_offset nv + IDME_BASE_ADDR) mod 512 + nv_size nv \<le> 512"

definition var_at :: "nvram_t \<Rightarrow> byte list \<Rightarrow> byte list" where
  "var_at nv area = bslice (IDME_BASE_ADDR + nv_offset nv) (nv_size nv) area"

lemma nvram_range: "nv \<in> set nvram_info \<Longrightarrow> IDME_BASE_ADDR + nv_offset nv + nv_size nv \<le> CONFIG_IDME_SIZE"
  by (auto simp: nvram_info_def IDME_BASE_ADDR_def CONFIG_IDME_SIZE_def)

lemma nvram_disjoint:
  assumes "v \<in> set nvram_info" and "w \<in> set nvram_info" and "v \<noteq> w"
  shows "nv_offset v + nv_size v \<le> nv_offset w \<or> nv_offset w + nv_size w \<le> nv_offset v"
proof -
  define L where "L = map (\<lambda>v. (nv_offset v, nv_size v)) nvram_info"
  have L: "L = [(0, 4), (4, 16), (20, 16), (36, 16), (52, 32), (84, 16), (0x200, 32), (0x220, 32), (0x1000, 16),
      (0x1010, 16), (100, 36), (0x1020, 2560), (0x1A20, 512)]" by (simp add: L_def nvram_info_def)
  have "list_all (\<lambda>(a, l). list_all (\<lambda>(b, m). a = b \<or> a + l \<le> b \<or> b + m \<le> a) L) L" unfolding L by simp
  moreover have "distinct (map nv_offset nvram_info)" by (simp add: nvram_info_def)
  then have "nv_offset v \<noteq> nv_offset w" using assms by (auto simp: distinct_map dest: inj_onD)
  ultimately show ?thesis using assms(1,2) by (fastforce simp: list_all_iff L_def)
qed

lemma nvram_distinct: "distinct nvram_info"
  by (simp add: nvram_info_def)

lemma nvram_place:
  assumes "nv \<in> set nvram_info"
  shows "(nv_offset nv + IDME_BASE_ADDR) div 512 < 32"
    and "512 * ((nv_offset nv + IDME_BASE_ADDR) div 512) + (nv_offset nv + IDME_BASE_ADDR) mod 512 = IDME_BASE_ADDR + nv_offset nv"
proof -
  have "list_all (\<lambda>v. (nv_offset v + IDME_BASE_ADDR) div 512 < 32) nvram_info"
    by (simp add: nvram_info_def IDME_BASE_ADDR_def)
  then show "(nv_offset nv + IDME_BASE_ADDR) div 512 < 32" using assms by (simp add: list_all_iff)
qed simp

context block_device
begin

lemma idme_read_loop_ok:
  assumes "inv s" and "m = 32 - k" and "k \<le> 32" and "unat a + m \<le> cap" and "length pbuf = CONFIG_IDME_SIZE"
  shows "\<exists>s'. idme_read_loop dev (512 * k) a ret pbuf s
      = Some (if m = 0 then ret else 1, patch (512 * k) (sectors (sect s (part s)) (unat a) m) pbuf, s')
    \<and> inv s' \<and> part s' = part s \<and> sect s' = sect s"
  using assms
proof (induction m arbitrary: k a ret pbuf s)
  case 0
  then have "idme_read_loop dev (512 * k) a ret pbuf s = Some (ret, pbuf, s)"
    by (subst idme_read_loop.simps) (simp add: CONFIG_IDME_SIZE_def)
  then show ?case using 0 by (simp add: patch_def)
next
  case (Suc m)
  have k: "k < 32" "m = 32 - (k + 1)" using Suc.prems(2,3) by auto
  have ua: "unat (a + 1) = unat a + 1"
    using Suc.prems(4) cap_bound by (simp add: unat_word_ariths(1))
  let ?b = "sect s (part s) (unat a)"
  have l: "length ?b = 512" using sect_length inv_pre Suc.prems(1) by blast
  obtain s1 where s1: "op_read dev s 1 a pbuf (512 * k) 512 = Some (1, patch (512 * k) ?b pbuf, s1)"
      "inv s1" "part s1 = part s" "sect s1 = sect s"
    using read_ok[of s 512 a "512 * k" pbuf] Suc.prems k by (auto simp: CONFIG_IDME_SIZE_def)
  let ?p = "patch (512 * k) ?b pbuf"
  have lp: "length ?p = CONFIG_IDME_SIZE" using Suc.prems(5) l k by (simp add: CONFIG_IDME_SIZE_def)
  obtain s' where s': "idme_read_loop dev (512 * (k + 1)) (a + 1) 1 ?p s1
      = Some (if m = 0 then 1 else 1, patch (512 * (k + 1)) (sectors (sect s1 (part s1)) (unat (a + 1)) m) ?p, s')"
      "inv s'" "part s' = part s1" "sect s' = sect s1"
    using Suc.IH[OF s1(2) k(2), of "a + 1" ?p 1] k(1) Suc.prems(4) lp ua by auto
  have "idme_read_loop dev (512 * k) a ret pbuf s = idme_read_loop dev (512 * (k + 1)) (a + 1) 1 ?p s1"
    using s1(1) k(1) by (subst idme_read_loop.simps) (simp add: CONFIG_IDME_SIZE_def add.commute)
  moreover have "patch (512 * (k + 1)) (sectors (sect s (part s)) (unat a + 1) m) ?p
      = patch (512 * k) (sectors (sect s (part s)) (unat a) (Suc m)) pbuf"
    using patch_append[of "512 * k" ?b "sectors (sect s (part s)) (unat a + 1) m" pbuf] l Suc.prems(5) k
      length_sectors[of m "sect s (part s)" "unat a + 1"] sect_length[OF inv_pre[OF Suc.prems(1)]]
    by (simp add: sectors_Suc CONFIG_IDME_SIZE_def algebra_simps)
  ultimately show ?case using s' s1 ua by auto
qed

lemma idme_write_loop_ok:
  assumes "inv s" and "m = 32 - k" and "k \<le> 32" and "unat a + m \<le> cap" and "length pbuf = CONFIG_IDME_SIZE"
  shows "\<exists>s'. idme_write_loop dev (512 * k) a ret pbuf s = Some (if m = 0 then ret else 1, s')
    \<and> inv s' \<and> part s' = part s
    \<and> sect s' = (sect s)(part s := upd_sectors (sect s (part s)) (unat a) (bslice (512 * k) (512 * m) pbuf))"
  using assms
proof (induction m arbitrary: k a ret s)
  case 0
  then have "idme_write_loop dev (512 * k) a ret pbuf s = Some (ret, s)"
    by (subst idme_write_loop.simps) (simp add: CONFIG_IDME_SIZE_def)
  then show ?case using 0 by simp
next
  case (Suc m)
  have k: "k < 32" "m = 32 - (k + 1)" using Suc.prems(2,3) by auto
  have ua: "unat (a + 1) = unat a + 1" using Suc.prems(4) cap_bound by (simp add: unat_word_ariths(1))
  let ?b = "bslice (512 * k) 512 pbuf"
  have l: "length ?b = 512" using k Suc.prems(5) by (simp add: CONFIG_IDME_SIZE_def)
  obtain s1 where s1: "op_write dev s 1 pbuf (512 * k) a 512 = Some (1, s1)" "inv s1" "part s1 = part s"
      "sect s1 = (sect s)(part s := upd_sectors (sect s (part s)) (unat a) ?b)"
    using write_ok[of s 512 a "512 * k" pbuf] Suc.prems k by (auto simp: CONFIG_IDME_SIZE_def)
  obtain s' where s': "idme_write_loop dev (512 * (k + 1)) (a + 1) 1 pbuf s1 = Some (1, s')"
      "inv s'" "part s' = part s1"
      "sect s' = (sect s1)(part s1 := upd_sectors (sect s1 (part s1)) (unat (a + 1)) (bslice (512 * (k + 1)) (512 * m) pbuf))"
  proof -
    have "k + 1 \<le> 32" "unat (a + 1) + m \<le> cap" using k(1) Suc.prems(4) ua by auto
    from Suc.IH[OF s1(2) k(2) this Suc.prems(5), of 1] show thesis using that unfolding if_cancel by blast
  qed
  have "idme_write_loop dev (512 * k) a ret pbuf s = idme_write_loop dev (512 * (k + 1)) (a + 1) 1 pbuf s1"
    using s1(1) k(1) by (subst idme_write_loop.simps) (simp add: CONFIG_IDME_SIZE_def add.commute)
  moreover have "upd_sectors (upd_sectors d (unat a) ?b) (unat a + 1) (bslice (512 * (k + 1)) (512 * m) pbuf)
      = upd_sectors d (unat a) (bslice (512 * k) (512 * Suc m) pbuf)" for d
    using upd_sectors_append[of ?b 1 d "unat a" "bslice (512 * (k + 1)) (512 * m) pbuf"] l
      bslice_add[of "512 * k" 512 "512 * m" pbuf] by (simp add: add.commute)
  ultimately show ?case using s' s1 ua by (intro exI[of _ s']) auto
qed

lemma to_boot:
  assumes "inv s"
  shows "\<exists>s'. op_sw_part dev s 1 CONFIG_IDME_PARTITION_NUM = Some (1, s') \<and> inv s' \<and> part s' = 1 \<and> sect s' = sect s"
  using sw_part_ok[OF assms, of 1] by (auto simp: CONFIG_IDME_PARTITION_NUM_def)

lemma to_user:
  assumes "inv s"
  shows "\<exists>s'. op_sw_part dev s 1 0 = Some (1, s') \<and> inv s' \<and> part s' = 0 \<and> sect s' = sect s"
  using sw_part_ok[OF assms, of 0] by auto

lemma idme_read_ok:
  assumes s: "inv s" "part s = 0" and room: "1056 \<le> cap" and l: "length pbuf = CONFIG_IDME_SIZE"
  shows "\<exists>s'. idme_read dev pbuf is_boot s
      = Some (0, idme_area (sect s (if is_boot then 1 else 0)) (if is_boot then 0 else USER_BLOCK), s')
    \<and> inv s' \<and> part s' = 0 \<and> sect s' = sect s"
proof -
  let ?a = "if is_boot then 0 else of_nat (CONFIG_USERDATA_IDME_ADDR div 512) :: u32"
  let ?p = "if is_boot then 1 else 0 :: nat"
  obtain s1 where s1: "(if is_boot then op_sw_part dev s 1 CONFIG_IDME_PARTITION_NUM else Some (1, s)) = Some (1, s1)"
      "inv s1" "part s1 = ?p" "sect s1 = sect s"
    using to_boot[OF s(1)] s by (cases is_boot) auto
  have ua: "unat ?a = (if is_boot then 0 else USER_BLOCK)" by (simp add: CONFIG_USERDATA_IDME_ADDR_def)
  then have ra: "unat ?a + 32 \<le> cap" using room by simp
  obtain s2 where s2: "idme_read_loop dev 0 ?a 0 pbuf s1 = Some (1, idme_area (sect s ?p) (unat ?a), s2)"
      "inv s2" "part s2 = part s1" "sect s2 = sect s1"
    using idme_read_loop_ok[OF s1(2) _ _ ra, of 0 pbuf 0] l s1
      length_sectors[of 32 "sect s ?p" "unat ?a"] sect_length[OF inv_pre[OF s(1)]]
    by (auto simp: idme_area_def patch_def CONFIG_IDME_SIZE_def)
  obtain s3 where s3: "(if is_boot then op_sw_part dev s2 1 0 else Some (1, s2)) = Some (1, s3)"
      "inv s3" "part s3 = 0" "sect s3 = sect s2"
    using to_user[OF s2(2)] s2 s1 by (cases is_boot) auto
  show ?thesis using s1 s2 s3 ua unfolding idme_read_def by simp
qed

lemma idme_write_ok:
  fixes is_boot :: bool
  assumes s: "inv s" "part s = 0" and room: "1056 \<le> cap" and l: "length pbuf = CONFIG_IDME_SIZE"
  defines "p \<equiv> if is_boot then 1 else 0 :: nat" and "a \<equiv> if is_boot then 0 else USER_BLOCK"
  shows "\<exists>s'. idme_write dev pbuf is_boot s = Some (0, s') \<and> inv s' \<and> part s' = 0
    \<and> sect s' = (sect s)(p := upd_sectors (sect s p) a pbuf)"
proof -
  let ?a = "if is_boot then 0 else of_nat (CONFIG_USERDATA_IDME_ADDR div 512) :: u32"
  obtain s1 where s1: "(if is_boot then op_sw_part dev s 1 CONFIG_IDME_PARTITION_NUM else Some (1, s)) = Some (1, s1)"
      "inv s1" "part s1 = p" "sect s1 = sect s"
    using to_boot[OF s(1)] s by (cases is_boot) (auto simp: p_def)
  have ua: "unat ?a = a" by (simp add: CONFIG_USERDATA_IDME_ADDR_def a_def)
  then have ra: "unat ?a + 32 \<le> cap" using room by (simp add: a_def)
  obtain s2 where s2: "idme_write_loop dev 0 ?a 0 pbuf s1 = Some (1, s2)" "inv s2" "part s2 = part s1"
      "sect s2 = (sect s1)(p := upd_sectors (sect s1 p) a pbuf)"
    using idme_write_loop_ok[OF s1(2) _ _ ra, of 0 pbuf 0] l s1 unfolding ua
    by (auto simp: CONFIG_IDME_SIZE_def)
  obtain s3 where s3: "(if is_boot then op_sw_part dev s2 1 0 else Some (1, s2)) = Some (1, s3)"
      "inv s3" "part s3 = 0" "sect s3 = sect s2"
    using to_user[OF s2(2)] s2 s1 by (cases is_boot) (auto simp: p_def)
  show ?thesis using s1 s2 s3 unfolding idme_write_def by simp
qed


lemma idme_get_var_ok:
  assumes s: "inv s" and room: "32 \<le> cap" and nv: "idme_find_var name = Some nv" "nv \<in> set nvram_info" "in_block nv"
    and l: "length (gblock_buff i) = 512" "nv_size nv < length buf"
  shows "\<exists>b s'. idme_get_var dev name buf (length buf) i s
      = Some (0, var_at nv (idme_area (sect s 1) 0) @ [0] @ drop (nv_size nv + 1) buf, i\<lparr>gblock_buff := b\<rparr>, s')
    \<and> length b = 512 \<and> inv s' \<and> part s' = 0 \<and> sect s' = sect s"
proof -
  define k where "k = (nv_offset nv + IDME_BASE_ADDR) div 512"
  define f where "f = (nv_offset nv + IDME_BASE_ADDR) mod 512"
  have k: "k < 32" "512 * k + f = IDME_BASE_ADDR + nv_offset nv" "f + nv_size nv \<le> 512"
    using nvram_place[OF nv(2)] nv(3) by (simp_all add: k_def f_def in_block_def)
  have len: "length (sect s p n) = 512" for p n by (rule sect_length[OF inv_pre[OF s]])
  obtain s1 where s1: "op_sw_part dev s 1 CONFIG_IDME_PARTITION_NUM = Some (1, s1)" "inv s1" "part s1 = 1" "sect s1 = sect s"
    using to_boot[OF s] by blast
  obtain s2 where s2: "op_read dev s1 1 (of_nat k) (gblock_buff i) 0 512 = Some (1, sect s 1 k, s2)"
      "inv s2" "sect s2 = sect s"
    using read_block[OF s1(2), of "of_nat k" "gblock_buff i"] k(1) room l(1) s1 unat_of_nat32[of k] by auto
  obtain s3 where s3: "op_sw_part dev s2 1 0 = Some (1, s3)" "inv s3" "part s3 = 0" "sect s3 = sect s"
    using to_user[OF s2(2)] s2(3) by auto
  have v: "bslice f (nv_size nv) (sect s 1 k) = var_at nv (idme_area (sect s 1) 0)"
    using bslice_sectors[of "sect s 1" k 32 f "nv_size nv" 0] len k by (simp add: var_at_def idme_area_def)
  have lv: "length (var_at nv (idme_area (sect s 1) 0)) = nv_size nv"
    unfolding v[symmetric] using k len by simp
  have "idme_get_var dev name buf (length buf) i s
      = Some (0, patch (nv_size nv) [0] (patch 0 (bslice f (nv_size nv) (sect s 1 k)) (patch 0 [0] buf)),
          i\<lparr>gblock_buff := sect s 1 k\<rparr>, s3)"
    using s1(1) s2(1) s3(1) nv(1) l(2) len[of 1 k] k(3) unfolding idme_get_var_def k_def[symmetric] f_def[symmetric]
    by (simp add: k_def[symmetric] f_def[symmetric] Let_def)
  also have "patch (nv_size nv) [0] (patch 0 (bslice f (nv_size nv) (sect s 1 k)) (patch 0 [0] buf))
      = var_at nv (idme_area (sect s 1) 0) @ [0] @ drop (nv_size nv + 1) buf"
    using lv l(2) unfolding v by (cases buf) (simp_all add: patch_def)
  finally show ?thesis using s3 len by blast
qed

lemma idme_update_var_ok:
  assumes s: "inv s" and room: "32 \<le> cap" and nv: "idme_find_var name = Some nv" "nv \<in> set nvram_info" "in_block nv"
    and l: "length (gblock_buff i) = 512"
  shows "\<exists>b d s'. idme_update_var dev name value i s = Some (1, i\<lparr>gblock_buff := b\<rparr>, s')
    \<and> length b = 512 \<and> inv s' \<and> part s' = 0 \<and> sect s' = (sect s)(1 := d)
    \<and> idme_area d 0 = patch (IDME_BASE_ADDR + nv_offset nv)
          (pad (nv_size nv) (case value of None \<Rightarrow> [] | Some v \<Rightarrow> v)) (idme_area (sect s 1) 0)
    \<and> (\<forall>j\<ge>32. d j = sect s 1 j)"
proof -
  define k where "k = (nv_offset nv + IDME_BASE_ADDR) div 512"
  define f where "f = (nv_offset nv + IDME_BASE_ADDR) mod 512"
  define v where "v = (case value of None \<Rightarrow> [] | Some v \<Rightarrow> v)"
  have k: "k < 32" "512 * k + f = IDME_BASE_ADDR + nv_offset nv" "f + nv_size nv \<le> 512"
    using nvram_place[OF nv(2)] nv(3) by (simp_all add: k_def f_def in_block_def)
  have len: "length (sect s p n) = 512" for p n by (rule sect_length[OF inv_pre[OF s]])
  have uk: "unat (of_nat k :: u32) = k" using k(1) by (intro unat_of_nat32) simp
  let ?b = "patch f (pad (nv_size nv) v) (sect s 1 k)"
  have lb: "length ?b = 512" using k len by simp
  obtain s1 where s1: "op_sw_part dev s 1 CONFIG_IDME_PARTITION_NUM = Some (1, s1)" "inv s1" "part s1 = 1" "sect s1 = sect s"
    using to_boot[OF s] by blast
  obtain s2 where s2: "op_read dev s1 1 (of_nat k) (gblock_buff i) 0 512 = Some (1, sect s 1 k, s2)"
      "inv s2" "part s2 = 1" "sect s2 = sect s"
    using read_block[OF s1(2), of "of_nat k" "gblock_buff i"] k(1) room l(1) s1 uk by auto
  obtain s3 where s3: "op_write dev s2 1 ?b 0 (of_nat k) 512 = Some (1, s3)" "inv s3"
      "sect s3 = (sect s)(1 := (sect s 1)(k := ?b))"
    using write_block[OF s2(2) _ lb, of "of_nat k"] k(1) room s2 uk by auto
  obtain s4 where s4: "op_sw_part dev s3 1 0 = Some (1, s4)" "inv s4" "part s4 = 0" "sect s4 = sect s3"
    using to_user[OF s3(2)] by blast
  have st: "(do { b \<leftarrow> store f (replicate (nv_size nv) 0) (sect s 1 k);
        (case value of None \<Rightarrow> Some b | Some v \<Rightarrow> store f (take (nv_size nv) v) b) }) = Some ?b"
    using k(3) len[of 1 k] patch_pad[of f "nv_size nv" "sect s 1 k"]
    by (cases "value") (simp_all add: v_def pad_def)
  have "idme_update_var dev name value i s = Some (1, i\<lparr>gblock_buff := ?b\<rparr>, s4)"
    using s1(1) s2(1) s3(1) s4(1) nv(1) st unfolding idme_update_var_def
    by (simp add: k_def[symmetric] f_def[symmetric] opt_bind)
  moreover have "idme_area ((sect s 1)(k := ?b)) 0
      = patch (IDME_BASE_ADDR + nv_offset nv) (pad (nv_size nv) v) (idme_area (sect s 1) 0)"
    using patch_sectors[of "sect s 1" k 32 f "pad (nv_size nv) v" 0] len k by (simp add: idme_area_def)
  ultimately show ?thesis using s3 s4 lb k(1) unfolding v_def by (intro exI[of _ ?b] exI[of _ "(sect s 1)(k := ?b)"] exI[of _ s4]) (simp add: v_def)
qed


end

section \<open>The default contents\<close>

definition default_value :: "nvram_t \<Rightarrow> byte list" where
  "default_value v =
     (if nv_name v = ''version'' then pad 4 IDME_VERSION_STR
      else if nv_name v = ''boardid'' then bytes ''0000400000000000''
      else if nv_name v = ''bootmode'' then pad 16 (bytes ''2'')
      else if nv_name v = ''postmode'' then replicate 16 0
      else replicate (nv_size v) 0x30)"

definition default_fill :: "nvram_t \<Rightarrow> byte list" where
  "default_fill v = (if nv_name v = ''bootmode'' then bytes ''2'' else if nv_name v = ''postmode'' then replicate 16 0
            else replicate (nv_size v) 0x30)"

definition put_var :: "byte list \<Rightarrow> nvram_t \<Rightarrow> byte list" where
  "put_var p v = patch (IDME_BASE_ADDR + nv_offset v) (default_fill v) p"

definition default_start :: "byte list" where
  "default_start = patch 12 (bytes ''0000400000000000'') (patch 8 IDME_VERSION_STR
     (patch 0 IDME_MAGIC_NUMBER (replicate CONFIG_IDME_SIZE 0)))"

definition default_area :: "byte list" where
  "default_area = foldl put_var default_start (drop 2 nvram_info)"

lemma idme_magic_iff: "8 \<le> length buf \<Longrightarrow> idme_magic buf \<longleftrightarrow> take 8 buf = IDME_MAGIC_NUMBER"
proof -
  assume l: "8 \<le> length buf"
  have m: "0 \<notin> set IDME_MAGIC_NUMBER" "length IDME_MAGIC_NUMBER = 8" by (simp_all add: IDME_MAGIC_NUMBER_def)
  have "idme_magic buf \<longleftrightarrow> take 8 (cstr_of buf) = IDME_MAGIC_NUMBER"
    using m by (simp add: idme_magic_def strncmp_s_zero)
  also have "\<dots> \<longleftrightarrow> take 8 buf = IDME_MAGIC_NUMBER"
  proof
    assume "take 8 (cstr_of buf) = IDME_MAGIC_NUMBER"
    then show "take 8 buf = IDME_MAGIC_NUMBER"
    proof -
      have "8 \<le> length (cstr_of buf)" using \<open>take 8 (cstr_of buf) = _\<close> m(2)
        by (metis length_take min.bounded_iff order_refl)
      then have "take 8 (cstr_of buf @ dropWhile (\<lambda>b. b \<noteq> 0) buf) = take 8 (cstr_of buf)" by simp
      moreover have "cstr_of buf @ dropWhile (\<lambda>b. b \<noteq> 0) buf = buf" by (simp add: cstr_of_def)
      ultimately show ?thesis using \<open>take 8 (cstr_of buf) = _\<close> by simp
    qed
  next
    assume t: "take 8 buf = IDME_MAGIC_NUMBER"
    have "buf = IDME_MAGIC_NUMBER @ drop 8 buf" by (metis append_take_drop_id t)
    moreover have "cstr_of (IDME_MAGIC_NUMBER @ r) = IDME_MAGIC_NUMBER @ cstr_of r" for r
      using m(1) by (auto simp: cstr_of_def intro!: takeWhile_append2)
    ultimately have "cstr_of buf = IDME_MAGIC_NUMBER @ cstr_of (drop 8 buf)" by metis
    then show "take 8 (cstr_of buf) = IDME_MAGIC_NUMBER" using m(2) by simp
  qed
  finally show ?thesis .
qed


lemma length_default_fill: "v \<in> set nvram_info \<Longrightarrow> length (default_fill v) \<le> nv_size v"
  by (auto simp: nvram_info_def default_fill_def)

lemma length_put_var [simp]:
  "v \<in> set nvram_info \<Longrightarrow> length p = CONFIG_IDME_SIZE \<Longrightarrow> length (put_var p v) = CONFIG_IDME_SIZE"
  using length_default_fill[of v] nvram_range[of v] by (simp add: put_var_def)

lemma default_var_eq:
  assumes "v \<in> set nvram_info" and "length p = CONFIG_IDME_SIZE"
  shows "default_var v p = Some (put_var p v)"
proof -
  have "default_var v p = store (IDME_BASE_ADDR + nv_offset v) (default_fill v) p"
    using assms(1) by (auto simp: nvram_info_def default_var_def default_fill_def strncmp_s_def)
  then show ?thesis using assms length_default_fill[of v] nvram_range[of v] by (simp add: put_var_def)
qed

lemma default_loop_eq:
  "set vs \<subseteq> set nvram_info \<Longrightarrow> length p = CONFIG_IDME_SIZE \<Longrightarrow> default_loop vs p = Some (foldl put_var p vs)"
  by (induction vs arbitrary: p) (simp_all add: default_var_eq)

lemma length_default_start [simp]: "length default_start = CONFIG_IDME_SIZE"
  by (simp add: default_start_def IDME_VERSION_STR_def IDME_MAGIC_NUMBER_def CONFIG_IDME_SIZE_def)

lemma generate_default:
  assumes "length pbuf = CONFIG_IDME_SIZE"
  shows "idme_generate_default_vars pbuf = Some (0, default_area)"
proof -
  have "patch 0 (replicate CONFIG_IDME_SIZE 0) pbuf = replicate CONFIG_IDME_SIZE (0 :: byte)"
    using assms by (simp add: patch_def)
  moreover have "nv_offset (nvram_info ! 0) = 0" "nv_offset (nvram_info ! 1) = 4" by (simp_all add: nvram_info_def)
  moreover have "default_loop (drop 2 nvram_info) default_start = Some default_area"
    unfolding default_area_def by (rule default_loop_eq) (simp_all add: set_drop_subset)
  ultimately show ?thesis
    using assms unfolding idme_generate_default_vars_def default_start_def
    by (simp add: IDME_BASE_ADDR_def CONFIG_IDME_SIZE_def IDME_MAGIC_NUMBER_def IDME_VERSION_STR_def)
qed

lemma bslice_patch_prefix:
  "length xs \<le> n \<Longrightarrow> off + n \<le> length b
    \<Longrightarrow> bslice off n (patch off xs b) = xs @ bslice (off + length xs) (n - length xs) b"
  by (simp add: bslice_def patch_def add.commute)

lemma fold_put_other:
  assumes "off + n \<le> CONFIG_IDME_SIZE" "set vs \<subseteq> set nvram_info" "length p = CONFIG_IDME_SIZE"
    and "\<And>v. v \<in> set vs \<Longrightarrow> off + n \<le> IDME_BASE_ADDR + nv_offset v \<or> IDME_BASE_ADDR + nv_offset v + nv_size v \<le> off"
  shows "bslice off n (foldl put_var p vs) = bslice off n p"
  using assms(2-4)
proof (induction vs arbitrary: p)
  case (Cons v vs)
  have v: "v \<in> set nvram_info" using Cons.prems(1) by simp
  have "bslice off n (foldl put_var p (v # vs)) = bslice off n (put_var p v)" using Cons v by simp
  also have "\<dots> = bslice off n p"
    unfolding put_var_def using Cons.prems(2) Cons.prems(3)[of v] assms(1) length_default_fill[OF v] nvram_range[OF v]
    by (intro bslice_patch_disjoint) auto
  finally show ?case .
qed simp

lemma fold_put_in:
  assumes "v \<in> set vs" "set vs \<subseteq> set nvram_info" "distinct vs" "length p = CONFIG_IDME_SIZE"
    and "bslice (IDME_BASE_ADDR + nv_offset v) (nv_size v) p = replicate (nv_size v) 0"
  shows "var_at v (foldl put_var p vs) = pad (nv_size v) (default_fill v)"
proof -
  obtain as bs where vs: "vs = as @ v # bs" using split_list[OF assms(1)] by blast
  have v: "v \<in> set nvram_info" using assms(1,2) by blast
  have len: "length (foldl put_var p as) = CONFIG_IDME_SIZE" if "set as \<subseteq> set nvram_info" for as
    using that assms(4) by (induction as rule: rev_induct) auto
  have dis: "IDME_BASE_ADDR + nv_offset v + nv_size v \<le> IDME_BASE_ADDR + nv_offset w
      \<or> IDME_BASE_ADDR + nv_offset w + nv_size w \<le> IDME_BASE_ADDR + nv_offset v"
    if "w \<in> set as \<union> set bs" for w
    using nvram_disjoint[OF v, of w] that assms(2,3) vs by auto
  let ?o = "IDME_BASE_ADDR + nv_offset v"
  let ?q = "foldl put_var p as"
  have q: "bslice ?o (nv_size v) ?q = replicate (nv_size v) 0"
    using fold_put_other[of ?o "nv_size v" as p] dis nvram_range[OF v] assms(2,4,5) vs by simp
  have "var_at v (foldl put_var p vs) = bslice ?o (nv_size v) (put_var ?q v)"
    using fold_put_other[of ?o "nv_size v" bs "put_var ?q v"] dis nvram_range[OF v] assms(2) vs len v
    by (simp add: var_at_def)
  also have "\<dots> = default_fill v @ bslice (?o + length (default_fill v)) (nv_size v - length (default_fill v)) ?q"
    using bslice_patch_prefix[of "default_fill v" "nv_size v" ?o ?q] put_var_def[of ?q v]
      length_default_fill[OF v] nvram_range[OF v] len[of as] assms(2) vs by simp
  also have "bslice (?o + length (default_fill v)) (nv_size v - length (default_fill v)) ?q
      = replicate (nv_size v - length (default_fill v)) 0"
    using bslice_sub[of "length (default_fill v)" "nv_size v - length (default_fill v)" "nv_size v" ?o ?q]
      length_default_fill[OF v] by (simp add: q bslice_replicate)
  finally show ?thesis using length_default_fill[OF v] by (simp add: pad_def)
qed

lemma default_area_values:
  "length default_area = CONFIG_IDME_SIZE" "take 8 default_area = IDME_MAGIC_NUMBER"
  "v \<in> set nvram_info \<Longrightarrow> var_at v default_area = default_value v"
proof -
  have sub: "set (drop 2 nvram_info) \<subseteq> set nvram_info" by (rule set_drop_subset)
  have "length (foldl put_var default_start vs) = CONFIG_IDME_SIZE" if "set vs \<subseteq> set nvram_info" for vs
    using that by (induction vs rule: rev_induct) auto
  then show "length default_area = CONFIG_IDME_SIZE" using sub by (simp add: default_area_def)
  have far: "28 \<le> IDME_BASE_ADDR + nv_offset w" if "w \<in> set (drop 2 nvram_info)" for w
    using that by (auto simp: nvram_info_def IDME_BASE_ADDR_def)
  have head: "bslice off n default_area = bslice off n default_start" if "off + n \<le> 28" for off n
    unfolding default_area_def using that far by (intro fold_put_other sub) (force simp: CONFIG_IDME_SIZE_def)+
  note sim = default_start_def bslice_patch_disjoint bslice_patch_prefix bslice_replicate
    IDME_VERSION_STR_def IDME_MAGIC_NUMBER_def CONFIG_IDME_SIZE_def
  have "bslice 0 8 default_area = IDME_MAGIC_NUMBER" unfolding head[of 0 8, simplified] by (simp add: sim)
  then show "take 8 default_area = IDME_MAGIC_NUMBER" by (simp add: bslice_def)
  assume v: "v \<in> set nvram_info"
  moreover have "nvram_info = nvram_info ! 0 # nvram_info ! 1 # drop 2 nvram_info" by (simp add: nvram_info_def)
  ultimately consider "v = nvram_info ! 0" | "v = nvram_info ! 1" | "v \<in> set (drop 2 nvram_info)"
    by (metis set_ConsD)
  then show "var_at v default_area = default_value v"
  proof cases
    case 3
    have "bslice (IDME_BASE_ADDR + nv_offset v) (nv_size v) default_start = replicate (nv_size v) 0"
      unfolding default_start_def using nvram_range[OF v] far[OF 3]
      by (simp add: bslice_patch_disjoint bslice_replicate IDME_VERSION_STR_def IDME_MAGIC_NUMBER_def CONFIG_IDME_SIZE_def)
    moreover have "distinct (drop 2 nvram_info)" by (rule distinct_drop) (simp add: nvram_info_def)
    ultimately have "var_at v default_area = pad (nv_size v) (default_fill v)"
      unfolding default_area_def using 3 sub by (intro fold_put_in) simp_all
    also have "\<dots> = default_value v" using 3 by (auto simp: nvram_info_def default_fill_def default_value_def pad_def)
    finally show ?thesis .
  qed (simp_all add: nvram_info_def var_at_def IDME_BASE_ADDR_def head default_value_def pad_def sim)
qed


section \<open>The choice of the boot image\<close>

definition boot_choice :: "(nat \<Rightarrow> int) \<Rightarrow> byte \<Rightarrow> byte list \<Rightarrow> byte list" where
  "boot_choice gpio m ptn =
     (if gpio 1 = 0 \<and> gpio 50 \<noteq> 0 then bytes ''recovery''
      else if m \<in> {0x32, 0x36} then bytes ''dkernel''
      else if m \<in> {0x33, 0x37} then bytes ''recovery'' else ptn)"

text \<open>What reading and writing variables keeps of the driver's own state.\<close>

definition same_idme :: "idme \<Rightarrow> idme \<Rightarrow> bool" where
  "same_idme i i' \<longleftrightarrow> length (gblock_buff i') = 512 \<and> board_id i' = board_id i \<and> board_serial i' = board_serial i"

lemma same_idme_upd [simp]: "same_idme i (j\<lparr>gblock_buff := b\<rparr>) \<longleftrightarrow> length b = 512 \<and> board_id j = board_id i \<and> board_serial j = board_serial i"
  "same_idme (i\<lparr>gblock_buff := b\<rparr>) j \<longleftrightarrow> same_idme i j" "same_idme i i \<longleftrightarrow> length (gblock_buff i) = 512"
  by (auto simp: same_idme_def)

abbreviation nv_bootmode :: nvram_t where "nv_bootmode \<equiv> \<lparr>nv_name = ''bootmode'', nv_offset = 0x1000, nv_size = 16\<rparr>"
abbreviation nv_postmode :: nvram_t where "nv_postmode \<equiv> \<lparr>nv_name = ''postmode'', nv_offset = 0x1010, nv_size = 16\<rparr>"

lemma nv_modes:
  "idme_find_var (bytes ''bootmode'') = Some nv_bootmode" "idme_find_var (bytes ''postmode'') = Some nv_postmode"
  "nv_bootmode \<in> set nvram_info" "nv_postmode \<in> set nvram_info" "in_block nv_bootmode" "in_block nv_postmode"
  by (simp_all add: nvram_info_def idme_find_var_find in_block_def IDME_BASE_ADDR_def)

lemma cstr_le32_1: "at + 4 \<le> length buf \<Longrightarrow> cstr_of (drop at (patch at (le32 1) buf)) = [1]"
proof -
  assume "at + 4 \<le> length buf"
  then have "drop at (patch at (le32 1) buf) = le32 1 @ drop (at + 4) buf" by (simp add: patch_def)
  moreover have "le32 1 = [1, 0, 0, 0]" by code_simp
  ultimately show ?thesis by (simp add: cstr_of_def)
qed

definition no_mode :: "nvram_t \<Rightarrow> bool" where
  "no_mode v \<longleftrightarrow> strncmp_s (bytes (nv_name v)) (bytes ''bootmode'') 8 \<noteq> 0
     \<and> strncmp_s (bytes (nv_name v)) (bytes ''postmode'') 8 \<noteq> 0"

lemma select_loop_skip:
  assumes "list_all no_mode vs"
  shows "select_loop dev (vs @ ws) buffer bootmode i s = select_loop dev ws buffer bootmode i s"
    and "getbootmode_loop (vs @ ws) buffer bootmode val = getbootmode_loop ws buffer bootmode val"
  using assms by (induction vs) (simp_all add: no_mode_def)

lemma nvram_modes: "nvram_info = take 8 nvram_info @ nv_bootmode # nv_postmode # drop 10 nvram_info @ []"
  "list_all no_mode (take 8 nvram_info)" "list_all no_mode (drop 10 nvram_info)"
  by (simp_all add: nvram_info_def no_mode_def strncmp_s_def)

lemma mode_names: "strncmp_s (bytes ''bootmode'') (bytes ''bootmode'') 8 = 0"
  "strncmp_s (bytes ''postmode'') (bytes ''bootmode'') 8 \<noteq> 0" "strncmp_s (bytes ''postmode'') (bytes ''postmode'') 8 = 0"
  by (simp_all add: strncmp_s_def)

context block_device
begin

lemma select_loop_ok:
  assumes s: "inv s" "part s = 0" and room: "32 \<le> cap" and l: "length buffer = CONFIG_IDME_SIZE" "18 \<le> length bootmode"
    "length (gblock_buff i) = 512"
  shows "\<exists>bm b d s'. select_loop dev nvram_info buffer bootmode i s
      = Some (patch 0x1018 (le32 1) buffer, bm, i\<lparr>gblock_buff := b\<rparr>, s')
    \<and> bm ! 0 = buffer ! 0x1008 \<and> length b = 512 \<and> inv s' \<and> part s' = 0 \<and> sect s' = (sect s)(1 := d)
    \<and> idme_area d 0 = patch 0x1018 (pad 16 [1]) (idme_area (sect s 1) 0) \<and> (\<forall>j\<ge>32. d j = sect s 1 j)"
proof -
  let ?bm = "patch 17 [0] (patch 0 (bslice 0x1008 16 buffer) bootmode)"
  let ?bf = "patch 0x1018 (le32 1) buffer"
  have c: "cstr_of (drop 0x1018 ?bf) = [1]" using l(1) by (intro cstr_le32_1) (simp add: CONFIG_IDME_SIZE_def)
  obtain b d s' where u: "idme_update_var dev (bytes ''postmode'') (Some [1]) i s = Some (1, i\<lparr>gblock_buff := b\<rparr>, s')"
      "length b = 512" "inv s'" "part s' = 0" "sect s' = (sect s)(1 := d)"
      "idme_area d 0 = patch 0x1018 (pad 16 [1]) (idme_area (sect s 1) 0)" "\<forall>j\<ge>32. d j = sect s 1 j"
    using idme_update_var_ok[OF s(1) room nv_modes(2,4,6) l(3), of "Some [1]"] by (auto simp: IDME_BASE_ADDR_def)
  have "select_loop dev nvram_info buffer bootmode i s
      = select_loop dev (nv_bootmode # nv_postmode # drop 10 nvram_info @ []) buffer bootmode i s"
    by (subst nvram_modes(1)) (simp only: select_loop_skip(1)[OF nvram_modes(2)])
  also have "\<dots> = select_loop dev (nv_postmode # drop 10 nvram_info @ []) buffer ?bm i s"
    using l by (simp only: select_loop.simps nvram_t.simps mode_names Let_def)
      (simp add: CONFIG_IDME_SIZE_def IDME_BASE_ADDR_def)
  also have "\<dots> = select_loop dev (drop 10 nvram_info @ []) ?bf ?bm (i\<lparr>gblock_buff := b\<rparr>) s'"
    using l c u(1) by (simp only: select_loop.simps nvram_t.simps mode_names Let_def)
      (simp add: CONFIG_IDME_SIZE_def IDME_BASE_ADDR_def)
  also have "\<dots> = Some (?bf, ?bm, i\<lparr>gblock_buff := b\<rparr>, s')"
    unfolding select_loop_skip(1)[OF nvram_modes(3)] by simp
  finally have r: "select_loop dev nvram_info buffer bootmode i s = Some (?bf, ?bm, i\<lparr>gblock_buff := b\<rparr>, s')" .
  have "0 < length bootmode" using l(2) by linarith
  then have "?bm ! 0 = buffer ! 0x1008" using l by (simp add: nth_patch nth_bslice CONFIG_IDME_SIZE_def)
  with r u show ?thesis by blast
qed

text \<open>With an array of exactly 17 bytes the loop writes outside.\<close>

lemma select_loop_overrun:
  assumes "length buffer = CONFIG_IDME_SIZE" "length bootmode = 17"
  shows "select_loop dev nvram_info buffer bootmode i s = None"
proof -
  have "select_loop dev nvram_info buffer bootmode i s
      = select_loop dev (nv_bootmode # nv_postmode # drop 10 nvram_info @ []) buffer bootmode i s"
    by (subst nvram_modes(1)) (simp only: select_loop_skip(1)[OF nvram_modes(2)])
  also have "\<dots> = None"
    using assms by (simp only: select_loop.simps nvram_t.simps mode_names Let_def)
      (simp add: CONFIG_IDME_SIZE_def IDME_BASE_ADDR_def store_def)
  finally show ?thesis .
qed

lemma length_idme_area: "pre s \<Longrightarrow> length (idme_area (sect s p) a) = CONFIG_IDME_SIZE"
  using length_sectors[of 32 "sect s p" a] sect_length[of s p] by (simp add: idme_area_def CONFIG_IDME_SIZE_def)

lemma idme_area_write:
  assumes "length B = CONFIG_IDME_SIZE"
  shows "idme_area (upd_sectors d a B) a = B"
  using assms by (simp add: idme_area_def sectors_upd_sectors CONFIG_IDME_SIZE_def)

lemma bootmode_switch_ok:
  assumes s: "inv s" "part s = 0" and room: "32 \<le> cap" and l: "length (gblock_buff i) = 512"
  shows "\<exists>ptn' i' d s'. bootmode_switch dev m ptn i s = Some (ptn', i', s')
    \<and> idme_select_bootmode_by_key gpio ptn' = boot_choice gpio m ptn
    \<and> inv s' \<and> part s' = 0 \<and> sect s' = (sect s)(1 := d) \<and> same_idme i i'
    \<and> idme_area d 0 = (if m = 0x37 then patch 0x1008 (pad 16 (bytes ''1'')) (idme_area (sect s 1) 0) else idme_area (sect s 1) 0)"
proof (cases "m = 0x37")
  case True
  obtain b d s' where "idme_update_var dev (bytes ''bootmode'') (Some (bytes ''1'')) i s = Some (1, i\<lparr>gblock_buff := b\<rparr>, s')" "length b = 512"
      "inv s'" "part s' = 0" "sect s' = (sect s)(1 := d)"
      "idme_area d 0 = patch 0x1008 (pad 16 (bytes ''1'')) (idme_area (sect s 1) 0)"
    using idme_update_var_ok[OF s(1) room nv_modes(1,3,5) l, of "Some (bytes ''1'')"] by (auto simp: IDME_BASE_ADDR_def)
  then show ?thesis using True
    by (intro exI[of _ precovery] exI[of _ "i\<lparr>gblock_buff := b\<rparr>"] exI[of _ d] exI[of _ s'])
      (simp add: bootmode_switch_def idme_select_bootmode_by_key_def boot_choice_def precovery_def Let_def)
next
  case False
  then have "bootmode_switch dev m ptn i s
      = Some (if m \<in> {0x32, 0x36} then pdkernel else if m = 0x33 then precovery else ptn, i, s)"
    by (auto simp: bootmode_switch_def)
  then show ?thesis using False s l
    by (intro exI conjI)
      (assumption | auto simp: idme_select_bootmode_by_key_def boot_choice_def precovery_def pdkernel_def Let_def)+
qed

theorem select_boot_image_ok:
  assumes s: "inv s" "part s = 0" and room: "1056 \<le> cap" and l: "length (gblock_buff i) = 512"
  defines "A \<equiv> idme_area (sect s 1) 0"
  defines "B \<equiv> if idme_magic A then A else default_area"
  shows "0 < slack \<Longrightarrow> \<exists>i' s'. idme_select_boot_image slack dev gpio ptn i s = Some (0, boot_choice gpio (B ! 0x1008) ptn, i', s')
    \<and> inv s' \<and> part s' = 0 \<and> same_idme i i' \<and> idme_area (sect s' 0) USER_BLOCK = B
    \<and> idme_area (sect s' 1) 0 = (let P = patch 0x1018 (pad 16 [1]) B
        in if B ! 0x1008 = 0x37 then patch 0x1008 (pad 16 (bytes ''1'')) P else P)
    \<and> (\<forall>j. j < USER_BLOCK \<or> USER_BLOCK + 32 \<le> j \<longrightarrow> sect s' 0 j = sect s 0 j)"
    and "idme_select_boot_image 0 dev gpio ptn i s = None"
proof -
  have lA: "length A = CONFIG_IDME_SIZE" unfolding A_def using length_idme_area inv_pre s by blast
  then have lB: "length B = CONFIG_IDME_SIZE" by (simp add: B_def default_area_values)
  obtain s1 where s1: "idme_read dev (replicate CONFIG_IDME_SIZE 0) True s = Some (0, A, s1)"
      "inv s1" "part s1 = 0" "sect s1 = sect s"
    using idme_read_ok[OF s room, of "replicate CONFIG_IDME_SIZE 0" True] unfolding A_def by auto
  obtain s2 where s2: "(if idme_magic A then Some (A, s1) else do {
         (_, buffer) \<leftarrow> idme_generate_default_vars A;
         (_, s) \<leftarrow> idme_write dev buffer True s1;
         Some (buffer, s) }) = Some (B, s2)" "inv s2" "part s2 = 0"
      "sect s2 0 = sect s 0" "idme_area (sect s2 1) 0 = B"
    using idme_write_ok[OF s1(2,3) room default_area_values(1), of True] s1 generate_default[OF lA]
    by (cases "idme_magic A") (auto simp: B_def A_def idme_area_write default_area_values)
  obtain s3 where s3: "idme_write dev B False s2 = Some (0, s3)" "inv s3" "part s3 = 0"
      "sect s3 = (sect s2)(0 := upd_sectors (sect s2 0) USER_BLOCK B)"
    using idme_write_ok[OF s2(2,3) room lB, of False] by auto
  have "select_loop dev nvram_info B (patch 0 (replicate 16 0) (bootmode_array 0)) i s3 = None"
    by (rule select_loop_overrun[OF lB]) (simp add: bootmode_array_def)
  then show "idme_select_boot_image 0 dev gpio ptn i s = None"
    unfolding idme_select_boot_image_def
    using s1(1) s2(1) s3(1) by (simp only: Option.bind.bind_lunit prod.case) (simp add: bootmode_array_def)
  assume slack: "0 < slack"
  obtain bm b d s4 where s4: "select_loop dev nvram_info B (patch 0 (replicate 16 0) (bootmode_array slack)) i s3
      = Some (patch 0x1018 (le32 1) B, bm, i\<lparr>gblock_buff := b\<rparr>, s4)" "bm ! 0 = B ! 0x1008" "length b = 512"
      "inv s4" "part s4 = 0" "sect s4 = (sect s3)(1 := d)"
      "idme_area d 0 = patch 0x1018 (pad 16 [1]) (idme_area (sect s3 1) 0)"
    using select_loop_ok[OF s3(2,3) _ lB _ l, of "patch 0 (replicate 16 0) (bootmode_array slack)"] room slack by (auto simp: bootmode_array_def)
  obtain ptn' i' d' s5 where s5: "bootmode_switch dev (B ! 0x1008) ptn (i\<lparr>gblock_buff := b\<rparr>) s4 = Some (ptn', i', s5)"
      "idme_select_bootmode_by_key gpio ptn' = boot_choice gpio (B ! 0x1008) ptn"
      "inv s5" "part s5 = 0" "sect s5 = (sect s4)(1 := d')" "same_idme i i'"
      "idme_area d' 0 = (if B ! 0x1008 = 0x37 then patch 0x1008 (pad 16 (bytes ''1'')) (idme_area (sect s4 1) 0) else idme_area (sect s4 1) 0)"
    using bootmode_switch_ok[OF s4(4,5), of "i\<lparr>gblock_buff := b\<rparr>" "B ! 0x1008" ptn gpio] room s4(3) by auto
  have r: "idme_select_boot_image slack dev gpio ptn i s = Some (0, boot_choice gpio (B ! 0x1008) ptn, i', s5)"
    unfolding idme_select_boot_image_def
    using s1(1) s2(1) s3(1) s4(1,2) s5(1,2) by (simp only: Option.bind.bind_lunit prod.case) (simp add: bootmode_array_def)
  have "idme_area (sect s5 0) USER_BLOCK = B"
    using lB by (simp add: s5 s4 s3 idme_area_write)
  moreover have "sect s5 0 j = sect s 0 j" if "j < USER_BLOCK \<or> USER_BLOCK + 32 \<le> j" for j
    using that lB by (auto simp: s5 s4 s3 s2 upd_sectors_def CONFIG_IDME_SIZE_def)
  moreover have "idme_area (sect s5 1) 0 = (let P = patch 0x1018 (pad 16 [1]) B
        in if B ! 0x1008 = 0x37 then patch 0x1008 (pad 16 (bytes ''1'')) P else P)"
    using s2(5) by (simp add: s5 s4 s3 Let_def)
  ultimately show "\<exists>i' s'. idme_select_boot_image slack dev gpio ptn i s = Some (0, boot_choice gpio (B ! 0x1008) ptn, i', s')
    \<and> inv s' \<and> part s' = 0 \<and> same_idme i i' \<and> idme_area (sect s' 0) USER_BLOCK = B
    \<and> idme_area (sect s' 1) 0 = (let P = patch 0x1018 (pad 16 [1]) B
        in if B ! 0x1008 = 0x37 then patch 0x1008 (pad 16 (bytes ''1'')) P else P)
    \<and> (\<forall>j. j < USER_BLOCK \<or> USER_BLOCK + 32 \<le> j \<longrightarrow> sect s' 0 j = sect s 0 j)" using r s5 by blast
qed

end

section \<open>The requested update\<close>

lemma merge_vars_eq:
  assumes "vs = drop k nvram_info" and "length U = CONFIG_IDME_SIZE" "length A = CONFIG_IDME_SIZE"
  shows "\<exists>M. merge_vars vs k bm U A = Some M \<and> length M = CONFIG_IDME_SIZE \<and> take 8 M = take 8 A
    \<and> (\<forall>j<length nvram_info. var_at (nvram_info ! j) M
        = (if k \<le> j \<and> bm AND push_bit j 1 \<noteq> 0 then var_at (nvram_info ! j) U else var_at (nvram_info ! j) A))"
  using assms
proof (induction vs arbitrary: k A)
  case Nil
  then have "length nvram_info \<le> k" by simp
  then show ?case using Nil by auto
next
  case (Cons v vs)
  have k1: "k < length nvram_info" using Cons.prems(1) by (cases "k < length nvram_info") simp_all
  have "v # vs = nvram_info ! k # drop (Suc k) nvram_info" using Cons.prems(1) Cons_nth_drop_Suc[OF k1] by metis
  then have k: "k < length nvram_info" "v = nvram_info ! k" "vs = drop (k + 1) nvram_info" using k1 by simp_all
  have v: "v \<in> set nvram_info" using k by simp
  let ?o = "IDME_BASE_ADDR + nv_offset v"
  define A' where "A' = (if bm AND push_bit k 1 \<noteq> 0 then patch ?o (bslice ?o (nv_size v) U) A else A)"
  have l: "length (bslice ?o (nv_size v) U) = nv_size v" using nvram_range[OF v] Cons.prems(2) by simp
  have lA: "length A' = CONFIG_IDME_SIZE" using nvram_range[OF v] Cons.prems l by (simp add: A'_def)
  have "merge_vars (v # vs) k bm U A = merge_vars vs (k + 1) bm U A'"
    using nvram_range[OF v] Cons.prems(2,3) l by (simp add: A'_def)
  moreover obtain M where M: "merge_vars vs (k + 1) bm U A' = Some M" "length M = CONFIG_IDME_SIZE" "take 8 M = take 8 A'"
      "\<forall>j<length nvram_info. var_at (nvram_info ! j) M
        = (if k + 1 \<le> j \<and> bm AND push_bit j 1 \<noteq> 0 then var_at (nvram_info ! j) U else var_at (nvram_info ! j) A')"
    using Cons.IH[OF k(3) Cons.prems(2) lA] by blast
  have "take 8 A' = take 8 A" using l nvram_range[OF v] Cons.prems by (simp add: A'_def patch_def IDME_BASE_ADDR_def)
  moreover have "var_at v A' = (if bm AND push_bit k 1 \<noteq> 0 then var_at v U else var_at v A)"
    using bslice_patch_same[of ?o "bslice ?o (nv_size v) U" A] nvram_range[OF v] Cons.prems l by (simp add: A'_def var_at_def)
  moreover have "var_at w A' = var_at w A" if "w \<in> set nvram_info" "w \<noteq> v" for w
    using bslice_patch_disjoint[of ?o "bslice ?o (nv_size v) U" A "IDME_BASE_ADDR + nv_offset w" "nv_size w"]
      nvram_disjoint[OF v that(1)] that nvram_range[OF v] nvram_range[OF that(1)] Cons.prems l
    by (auto simp: A'_def var_at_def)
  moreover have "nvram_info ! j \<noteq> v" if "j < length nvram_info" "j \<noteq> k" for j
    using that k by (auto simp: nth_eq_iff_index_eq nvram_distinct)
  ultimately have "var_at (nvram_info ! j) M
        = (if k \<le> j \<and> bm AND push_bit j 1 \<noteq> 0 then var_at (nvram_info ! j) U else var_at (nvram_info ! j) A)"
    if "j < length nvram_info" for j
    using M(4)[rule_format, OF that] that k by (cases "j = k") (auto simp: nth_mem)
  then show ?case using M \<open>merge_vars (v # vs) k bm U A = _\<close> \<open>take 8 A' = take 8 A\<close> by auto
qed


context block_device
begin

theorem update_vars_ex_ok:
  assumes s: "inv s" "part s = 0" and room: "1056 \<le> cap"
  defines "U \<equiv> idme_area (sect s 0) USER_BLOCK" and "A \<equiv> idme_area (sect s 1) 0"
  shows "\<exists>r s'. idme_update_vars_ex dev s = Some (r, s') \<and> inv s' \<and> part s' = 0
    \<and> (if \<not> idme_magic U then r = -1 \<and> sect s' = sect s
       else if bslice 0x1f8 12 U \<noteq> bytes ''adbdefg12345'' then r = 0 \<and> sect s' = sect s
       else r = 0 \<and> idme_area (sect s' 0) USER_BLOCK = patch 0x204 (le32 0) (patch 0x1f8 (replicate 12 0) U)
         \<and> take 8 (idme_area (sect s' 1) 0) = take 8 A
         \<and> (\<forall>j<length nvram_info. var_at (nvram_info ! j) (idme_area (sect s' 1) 0)
              = var_at (nvram_info ! j) (if (of_le (bslice 0x204 4 U) :: u32) AND push_bit j 1 \<noteq> 0 then U else A)))"
proof -
  have lU: "length U = CONFIG_IDME_SIZE" and lA: "length A = CONFIG_IDME_SIZE"
    unfolding U_def A_def using length_idme_area inv_pre s by blast+
  obtain s1 where s1: "idme_read dev (replicate CONFIG_IDME_SIZE 0) False s = Some (0, U, s1)"
      "inv s1" "part s1 = 0" "sect s1 = sect s"
    using idme_read_ok[OF s room, of "replicate CONFIG_IDME_SIZE 0" False] unfolding U_def by auto
  obtain s2 where s2: "idme_read dev (replicate CONFIG_IDME_SIZE 0) True s1 = Some (0, A, s2)"
      "inv s2" "part s2 = 0" "sect s2 = sect s"
    using idme_read_ok[OF s1(2,3) room, of "replicate CONFIG_IDME_SIZE 0" True] s1(4) unfolding A_def by auto
  have sig: "load 0x1f8 12 U = Some (bslice 0x1f8 12 U)" "load 0x204 4 U = Some (bslice 0x204 4 U)"
    using lU by (simp_all add: CONFIG_IDME_SIZE_def)
  have cmp: "memcmp_s (bslice 0x1f8 12 U) nvram_sig = 0 \<longleftrightarrow> bslice 0x1f8 12 U = bytes ''adbdefg12345''"
    unfolding nvram_sig_def using lU by (intro memcmp_s_zero) (simp add: CONFIG_IDME_SIZE_def)
  let ?bm = "of_le (bslice 0x204 4 U) :: u32"
  let ?U = "patch 0x204 (le32 0) (patch 0x1f8 (replicate 12 0) U)"
  obtain M where M: "merge_vars nvram_info 0 ?bm U A = Some M" "length M = CONFIG_IDME_SIZE" "take 8 M = take 8 A"
      "\<forall>j<length nvram_info. var_at (nvram_info ! j) M = var_at (nvram_info ! j) (if ?bm AND push_bit j 1 \<noteq> 0 then U else A)"
    using merge_vars_eq[of nvram_info 0 U A ?bm] lU lA by (auto simp: if_distrib)
  have lU': "length ?U = CONFIG_IDME_SIZE" using lU by (simp add: CONFIG_IDME_SIZE_def)
  obtain s3 where s3: "idme_write dev M True s2 = Some (0, s3)" "inv s3" "part s3 = 0"
      "sect s3 = (sect s2)(1 := upd_sectors (sect s2 1) 0 M)"
    using idme_write_ok[OF s2(2,3) room M(2), of True] by auto
  obtain s4 where s4: "idme_write dev ?U False s3 = Some (0, s4)" "inv s4" "part s4 = 0"
      "sect s4 = (sect s3)(0 := upd_sectors (sect s3 0) USER_BLOCK ?U)"
    using idme_write_ok[OF s3(2,3) room lU', of False] by auto
  have st: "store 0x1f8 (replicate 12 0) U = Some (patch 0x1f8 (replicate 12 0) U)"
    "store 0x204 (le32 0) (patch 0x1f8 (replicate 12 0) U) = Some ?U" using lU by (simp_all add: CONFIG_IDME_SIZE_def)
  note eval = s1(1) s2(1) sig cmp st M(1) s3(1) s4(1) nvram_sig_info_def nvram_sig_info_bitmap_def IDME_BASE_ADDR_def
  consider "\<not> idme_magic U" | "idme_magic U" "bslice 0x1f8 12 U \<noteq> bytes ''adbdefg12345''"
    | "idme_magic U" "bslice 0x1f8 12 U = bytes ''adbdefg12345''" by blast
  then show ?thesis
  proof cases
    case 1
    then have "idme_update_vars_ex dev s = Some (-1, s2)" unfolding idme_update_vars_ex_def by (simp add: eval)
    then show ?thesis using 1 s2 by (intro exI[of _ "-1"] exI[of _ s2]) simp
  next
    case 2
    then have "idme_update_vars_ex dev s = Some (0, s2)" unfolding idme_update_vars_ex_def by (simp add: eval del: bytes_Cons)
    then show ?thesis using 2 s2 by (intro exI[of _ 0] exI[of _ s2]) (simp del: bytes_Cons)
  next
    case 3
    then have "memcmp_s (bytes ''adbdefg12345'') nvram_sig = 0" using cmp by metis
    with 3 have "idme_update_vars_ex dev s = Some (0, s4)" unfolding idme_update_vars_ex_def by (simp add: eval del: bytes_Cons)
    moreover have "idme_area (sect s4 0) USER_BLOCK = ?U" using lU' by (simp add: s4 s3 idme_area_write)
    moreover have "idme_area (sect s4 1) 0 = M" using M(2) by (simp add: s4 s3 idme_area_write)
    ultimately show ?thesis using 3 s4 M by (intro exI[of _ 0] exI[of _ s4]) (simp del: bytes_Cons)
  qed
qed

lemma getbootmode_ok:
  assumes s: "inv s" "part s = 0" and room: "1056 \<le> cap"
  shows "0 < slack \<Longrightarrow> \<exists>s'. getbootmode slack dev s = Some (uint (idme_area (sect s 1) 0 ! 0x1008) - 48, s')
    \<and> inv s' \<and> part s' = 0 \<and> sect s' = sect s"
    and "getbootmode 0 dev s = None"
proof -
  let ?A = "idme_area (sect s 1) 0"
  have lA: "length ?A = CONFIG_IDME_SIZE" using length_idme_area inv_pre s by blast
  obtain s1 where s1: "idme_read dev (replicate CONFIG_IDME_SIZE 0) True s = Some (0, ?A, s1)"
      "inv s1" "part s1 = 0" "sect s1 = sect s"
    using idme_read_ok[OF s room, of "replicate CONFIG_IDME_SIZE 0" True] by auto
  have loop: "getbootmode_loop nvram_info ?A b0 (-1) = getbootmode_loop (nv_bootmode # nv_postmode # drop 10 nvram_info @ []) ?A b0 (-1)" for b0
    by (subst nvram_modes(1)) (simp only: select_loop_skip(2)[OF nvram_modes(2)])
  have "getbootmode_loop nvram_info ?A (patch 0 (replicate 16 0) (bootmode_array 0)) (-1) = None"
    unfolding loop using lA by (simp only: getbootmode_loop.simps nvram_t.simps mode_names)
      (simp add: CONFIG_IDME_SIZE_def IDME_BASE_ADDR_def bootmode_array_def store_def)
  then show "getbootmode 0 dev s = None" using s1(1) by (simp add: getbootmode_def bootmode_array_def)
  assume slack: "0 < slack"
  let ?b0 = "patch 0 (replicate 16 0) (bootmode_array slack)"
  let ?bm = "patch 17 [0] (patch 0 (bslice 0x1008 16 ?A) ?b0)"
  have "getbootmode_loop nvram_info ?A ?b0 (-1)
      = getbootmode_loop (nv_bootmode # nv_postmode # drop 10 nvram_info @ []) ?A ?b0 (-1)"
    by (rule loop)
  also have "\<dots> = getbootmode_loop (nv_postmode # drop 10 nvram_info @ []) ?A ?bm (uint (?bm ! 0) - 48)"
    using lA slack by (simp only: getbootmode_loop.simps nvram_t.simps mode_names)
      (simp add: CONFIG_IDME_SIZE_def IDME_BASE_ADDR_def bootmode_array_def)
  also have "\<dots> = Some (uint (?bm ! 0) - 48)"
    by (simp only: getbootmode_loop.simps nvram_t.simps mode_names if_False select_loop_skip(2)[OF nvram_modes(3)])
  also have "?bm ! 0 = ?A ! 0x1008" using lA slack by (simp add: nth_patch nth_bslice CONFIG_IDME_SIZE_def bootmode_array_def)
  finally show "\<exists>s'. getbootmode slack dev s = Some (uint (?A ! 0x1008) - 48, s') \<and> inv s' \<and> part s' = 0 \<and> sect s' = sect s"
    using s1 unfolding getbootmode_def by (simp add: bootmode_array_def)
qed


lemma var_at_patch:
  assumes "v \<in> set nvram_info" "w \<in> set nvram_info" and "length a = CONFIG_IDME_SIZE" and "length x = nv_size v"
  shows "var_at w (patch (IDME_BASE_ADDR + nv_offset v) x a) = (if w = v then x else var_at w a)"
proof (cases "w = v")
  case True
  then show ?thesis
    using bslice_patch_same[of "IDME_BASE_ADDR + nv_offset v" x a] nvram_range[OF assms(1)] assms(3,4)
    by (simp add: var_at_def)
next
  case False
  then show ?thesis
    using bslice_patch_disjoint[of "IDME_BASE_ADDR + nv_offset v" x a "IDME_BASE_ADDR + nv_offset w" "nv_size w"]
      nvram_disjoint[OF assms(1,2)] nvram_range[OF assms(1)] nvram_range[OF assms(2)] assms(3,4)
    by (auto simp: var_at_def)
qed

theorem update_then_get:
  assumes s: "inv s" and room: "32 \<le> cap" and v: "v \<in> set nvram_info" "in_block v" and w: "w \<in> set nvram_info" "in_block w"
    and l: "length (gblock_buff i) = 512" "nv_size w < length buf"
  shows "\<exists>i' s' i'' s''. idme_update_var dev (bytes (nv_name v)) (Some x) i s = Some (1, i', s')
    \<and> idme_get_var dev (bytes (nv_name w)) buf (length buf) i' s'
        = Some (0, (if w = v then pad (nv_size v) x else var_at w (idme_area (sect s 1) 0)) @ [0] @ drop (nv_size w + 1) buf, i'', s'')
    \<and> inv s'' \<and> part s'' = 0 \<and> sect s'' = sect s' \<and> sect s' 0 = sect s 0"
proof -
  obtain b d s' where u: "idme_update_var dev (bytes (nv_name v)) (Some x) i s = Some (1, i\<lparr>gblock_buff := b\<rparr>, s')"
      "length b = 512" "inv s'" "sect s' = (sect s)(1 := d)"
      "idme_area d 0 = patch (IDME_BASE_ADDR + nv_offset v) (pad (nv_size v) x) (idme_area (sect s 1) 0)"
    using idme_update_var_ok[OF s room idme_find_var_in[OF v(1)] v l(1), of "Some x"] by auto
  have "var_at w (idme_area (sect s' 1) 0) = (if w = v then pad (nv_size v) x else var_at w (idme_area (sect s 1) 0))"
    using var_at_patch[OF v(1) w(1), of "idme_area (sect s 1) 0" "pad (nv_size v) x"] length_idme_area[OF inv_pre[OF s]]
    by (simp add: u)
  then obtain b' s'' where "idme_get_var dev (bytes (nv_name w)) buf (length buf) (i\<lparr>gblock_buff := b\<rparr>) s'
        = Some (0, (if w = v then pad (nv_size v) x else var_at w (idme_area (sect s 1) 0)) @ [0] @ drop (nv_size w + 1) buf,
            i\<lparr>gblock_buff := b'\<rparr>, s'')" "inv s''" "part s'' = 0" "sect s'' = sect s'"
    using idme_get_var_ok[OF u(3) room idme_find_var_in[OF w(1)] w, of "i\<lparr>gblock_buff := b\<rparr>" buf] u(2) l(2) by auto
  then show ?thesis using u by (intro exI[of _ "i\<lparr>gblock_buff := b\<rparr>"] exI[of _ s'] exI[of _ "i\<lparr>gblock_buff := b'\<rparr>"] exI[of _ s'']) simp
qed

text \<open>A variable that leaves its block takes both operations out of \<^verbatim>\<open>gblock_buff\<close>.\<close>

lemma var_overrun:
  assumes s: "inv s" and room: "32 \<le> cap" and nv: "nv \<in> set nvram_info" "\<not> in_block nv"
    and l: "length (gblock_buff i) = 512" "nv_size nv < length buf"
  shows "idme_update_var dev (bytes (nv_name nv)) x i s = None"
    and "idme_get_var dev (bytes (nv_name nv)) buf (length buf) i s = None"
proof -
  define k where "k = (nv_offset nv + IDME_BASE_ADDR) div 512"
  define f where "f = (nv_offset nv + IDME_BASE_ADDR) mod 512"
  have k: "k < 32" "512 < f + nv_size nv"
    using nvram_place[OF nv(1)] nv(2) by (simp_all add: k_def f_def in_block_def)
  note find = idme_find_var_in[OF nv(1)]
  have len: "length (sect s p n) = 512" for p n by (rule sect_length[OF inv_pre[OF s]])
  obtain s1 where s1: "op_sw_part dev s 1 CONFIG_IDME_PARTITION_NUM = Some (1, s1)" "inv s1" "part s1 = 1" "sect s1 = sect s"
    using to_boot[OF s] by blast
  obtain s2 where s2: "op_read dev s1 1 (of_nat k) (gblock_buff i) 0 512 = Some (1, sect s 1 k, s2)" "inv s2"
    using read_block[OF s1(2), of "of_nat k" "gblock_buff i"] k(1) room l(1) s1 unat_of_nat32[of k] by auto
  obtain s3 where s3: "op_sw_part dev s2 1 0 = Some (1, s3)" using to_user[OF s2(2)] by auto
  have "store f (replicate (nv_size nv) 0) (sect s 1 k) = None" "load f (nv_size nv) (sect s 1 k) = None"
    using k(2) len by (simp_all add: store_def load_def)
  then show "idme_update_var dev (bytes (nv_name nv)) x i s = None"
    and "idme_get_var dev (bytes (nv_name nv)) buf (length buf) i s = None"
    using s1(1) s2(1) s3(1) find l(2) unfolding idme_update_var_def idme_get_var_def
    by (simp_all add: k_def[symmetric] f_def[symmetric] opt_bind Let_def)
qed

end

end
