(* ===== verification/Env.thy ===== *)
theory Env
  imports Vsprintf
begin

text \<open>
  The environment (\<^verbatim>\<open>common/cmd_nvedit.c\<close>, \<^verbatim>\<open>common/env_common.c\<close>, \<^verbatim>\<open>common/env_nowhere.c\<close>): a block
  of \<^verbatim>\<open>name=value\<close> strings, each ended by a zero byte, closed by an empty string. The tate configuration keeps it in
  memory only (\<^verbatim>\<open>CFG_ENV_IS_NOWHERE\<close>).

  The functions work on the array as the code does, index by index; \<^const>\<open>None\<close> is an access outside an
  array. \<open>EnvStore\<close> shows that they implement a list of entries.

  The console (\<^verbatim>\<open>console_assign\<close> of \<^verbatim>\<open>common/console.c\<close>, the serial port) is the argument \<open>io\<close>, with the
  state \<open>'c\<close>.
\<close>

definition CFG_ENV_SIZE :: nat where "CFG_ENV_SIZE = 0x20000"
definition ENV_SIZE :: nat where "ENV_SIZE = CFG_ENV_SIZE - 4"

definition EQ :: byte where "EQ = 0x3d"

definition default_environment :: "byte list" where
  "default_environment =
     bytes (''bootargs='' @ ''console=ttyO2,115200n8 mem=456M@0x80000000 mem=512M@0xA0000000''
       @ '' init=/init vram=10M omapfb.vram=0:4M androidboot.console=ttyO2'') @ [0] @
     bytes ''bootcmd=booti mmc1'' @ [0] @
     bytes ''recoverycmd=booti mmc1 recovery'' @ [0] @
     bytes ''bootdelay=1'' @ [0] @
     bytes ''baudrate=115200'' @ [0] @
     bytes ''bootfile=\"uImage\"'' @ [0] @ [0] @ [0]"

record bd_info =
  bi_enetaddr :: "byte list"
  bi_ip_addr :: u32
  bi_arch_number :: u32
  bi_boot_params :: u32
  bi_dram :: "(u32 \<times> u32) list"
  bi_board_revision :: u32

record env =
  env_valid :: bool
  env_crc :: u32
  env_data :: "byte list"
  default_env :: "byte list"
  baudrate :: u32
  load_addr :: u32
  bd :: bd_info

record 'c env_io =
  io_console_assign :: "nat \<Rightarrow> byte list \<Rightarrow> 'c \<Rightarrow> int \<times> 'c"
  io_serial_setbrg :: "u32 \<Rightarrow> 'c \<Rightarrow> 'c"
  io_getc :: "'c \<Rightarrow> byte \<times> 'c"
  io_ctrlc :: "'c \<Rightarrow> bool \<times> 'c"
  io_puts :: "byte list \<Rightarrow> 'c \<Rightarrow> 'c"

section \<open>Where the environment is\<close>

definition env_init :: "env \<Rightarrow> env" where
  "env_init e = e\<lparr>env_valid := False\<rparr>"

text \<open>The array \<^verbatim>\<open>env_get_addr(0)\<close> points to, and storing it back.\<close>

definition env_arr :: "env \<Rightarrow> byte list" where
  "env_arr e = (if env_valid e then env_data e else default_env e)"

definition env_set_arr :: "byte list \<Rightarrow> env \<Rightarrow> env" where
  "env_set_arr a e = (if env_valid e then e\<lparr>env_data := a\<rparr> else e\<lparr>default_env := a\<rparr>)"

definition at :: "byte list \<Rightarrow> nat \<Rightarrow> byte option" where
  "at a i = (if i < length a then Some (a ! i) else None)"

text \<open>The heap block \<^verbatim>\<open>malloc\<close> gives is the argument \<open>heap\<close>; its first 4 bytes are the checksum.\<close>

definition env_relocate :: "byte list \<Rightarrow> env \<Rightarrow> env option" where
  "env_relocate heap e =
     (if \<not> env_valid e then
        if length (default_env e) > ENV_SIZE then Some (e\<lparr>env_data := drop 4 heap\<rparr>)
        else do {
          d \<leftarrow> store 0 (replicate ENV_SIZE 0) (drop 4 heap);
          d \<leftarrow> store 0 (default_env e) d;
          Some (e\<lparr>env_crc := 0, env_data := d, env_valid := True\<rparr>) }
      else Some (e\<lparr>env_data := drop 4 heap\<rparr>))"

section \<open>Looking a variable up\<close>

fun envmatch :: "byte list \<Rightarrow> byte list \<Rightarrow> nat \<Rightarrow> nat option option" where
  "envmatch s1 a i2 =
     (case at a i2 of
        None \<Rightarrow> None
      | Some c \<Rightarrow>
          (case s1 of
             [] \<Rightarrow> if c = 0 then None else if c = EQ then Some (Some (i2 + 1)) else Some None
           | s # ss \<Rightarrow>
               if s = c then if s = EQ then Some (Some (i2 + 1)) else envmatch ss a (i2 + 1)
               else Some None))"

text \<open>The end of the string at \<open>i\<close>: the loop \<^verbatim>\<open>for (nxt=i; env_get_char(nxt) != 0; ++nxt)\<close>.\<close>

function str_end :: "byte list \<Rightarrow> nat \<Rightarrow> nat option" where
  "str_end a i =
     (if i < length a then if a ! i = 0 then Some i else str_end a (i + 1) else None)"
  by pat_completeness auto
termination by (relation "measure (\<lambda>(a, i). length a - i)") auto

declare envmatch.simps [simp del] str_end.simps [simp del]

lemma str_end_ge: "str_end a i = Some j \<Longrightarrow> i \<le> j \<and> j < length a"
proof (induction a i rule: str_end.induct)
  case (1 a i)
  then show ?case by (subst (asm) (2) str_end.simps) (auto split: if_splits)
qed

text \<open>The search loop the readers and \<^verbatim>\<open>_do_setenv\<close> share: the start of the matching entry, its end, and the
  index of its value.\<close>

function env_find :: "byte list \<Rightarrow> byte list \<Rightarrow> nat \<Rightarrow> (nat \<times> nat \<times> nat) option option" where
  "env_find name a i = do {
     c \<leftarrow> at a i;
     if c = 0 then Some None else
     (case str_end a i of
        None \<Rightarrow> None
      | Some nxt \<Rightarrow>
          (case envmatch name a i of
             None \<Rightarrow> None
           | Some (Some val) \<Rightarrow> Some (Some (i, nxt, val))
           | Some None \<Rightarrow> env_find name a (nxt + 1))) }"
  by pat_completeness auto
termination
  by (relation "measure (\<lambda>(name, a, i). length a - i)")
    (auto simp: at_def dest!: str_end_ge split: if_splits)

declare env_find.simps [simp del]

text \<open>The result is the string at the address the function returns.\<close>

definition getenv :: "byte list \<Rightarrow> env \<Rightarrow> byte list option option" where
  "getenv name e = do {
     r \<leftarrow> env_find name (env_arr e) 0;
     case r of
       None \<Rightarrow> Some None
     | Some (i, nxt, val) \<Rightarrow> Some (Some (bslice val (nxt - val) (env_arr e))) }"

text \<open>The copy loop of \<^verbatim>\<open>getenv_r\<close>: \<open>n\<close> counts the rounds, \<open>p\<close> is the position in \<open>buf\<close>.\<close>

function getenv_copy :: "byte list \<Rightarrow> nat \<Rightarrow> nat \<Rightarrow> byte list \<Rightarrow> nat \<Rightarrow> (nat \<times> nat \<times> byte list) option" where
  "getenv_copy a val len buf n =
     (if len > n then do {
        c \<leftarrow> at a val;
        buf \<leftarrow> store n [c] buf;
        if c \<noteq> 0 then getenv_copy a (val + 1) len buf (n + 1) else Some (n + 1, n + 1, buf) }
      else Some (n + 1, n, buf))"
  by pat_completeness auto
termination by (relation "measure (\<lambda>(a, val, len, buf, n). len - n)") auto

declare getenv_copy.simps [simp del]

definition getenv_r :: "byte list \<Rightarrow> byte list \<Rightarrow> nat \<Rightarrow> env \<Rightarrow> (int \<times> byte list) option" where
  "getenv_r name buf len e = do {
     r \<leftarrow> env_find name (env_arr e) 0;
     case r of
       None \<Rightarrow> Some (-1, buf)
     | Some (i, nxt, val) \<Rightarrow> do {
         (n, p, buf) \<leftarrow> getenv_copy (env_arr e) val len buf 0;
         buf \<leftarrow> (if len = n then store p [0] buf else Some buf);
         Some (int n, buf) } }"

section \<open>Setting a variable\<close>

text \<open>Moving the strings behind a deleted one to its place.\<close>

function env_shift :: "byte list \<Rightarrow> nat \<Rightarrow> nat \<Rightarrow> (byte list \<times> nat) option" where
  "env_shift a env nxt = do {
     c \<leftarrow> at a nxt;
     a \<leftarrow> store env [c] a;
     d \<leftarrow> at a (nxt + 1);
     if c = 0 \<and> d = 0 then Some (a, env) else env_shift a (env + 1) (nxt + 1) }"
  by pat_completeness auto
termination
  by (relation "measure (\<lambda>(a, env, nxt). length a - nxt)") (auto simp: at_def split: if_splits)

declare env_shift.simps [simp del]

definition env_delete :: "byte list \<Rightarrow> nat \<Rightarrow> nat \<Rightarrow> byte list option" where
  "env_delete a env nxt = do {
     c \<leftarrow> at a (nxt + 1);
     (a, env) \<leftarrow>
       (if c = 0 then
          if env > 0 then Some (a, env - 1)
          else do { a \<leftarrow> store env [0] a; Some (a, env) }
        else env_shift a env (nxt + 1));
     store (env + 1) [0] a }"

function env_end :: "byte list \<Rightarrow> nat \<Rightarrow> nat option" where
  "env_end a env = do {
     c \<leftarrow> at a env;
     if c \<noteq> 0 then env_end a (env + 1) else do {
     d \<leftarrow> at a (env + 1);
     if d \<noteq> 0 then env_end a (env + 1) else Some env } }"
  by pat_completeness auto
termination
  by (relation "measure (\<lambda>(a, env). length a - env)") (auto simp: at_def split: if_splits)

declare env_end.simps [simp del]

fun put_values :: "byte list list \<Rightarrow> byte \<Rightarrow> byte list \<Rightarrow> nat \<Rightarrow> (byte list \<times> nat) option" where
  "put_values [] sep a env = Some (a, env)"
| "put_values (v # vs) sep a env = do {
     a \<leftarrow> store env (sep # v @ [0]) a;
     put_values vs 0x20 a (env + 1 + length v) }"

text \<open>Appending: \<open>Inl\<close> is the overflow.\<close>

definition env_append :: "byte list \<Rightarrow> byte list list \<Rightarrow> byte list \<Rightarrow> (unit + byte list) option" where
  "env_append name vals a = do {
     env \<leftarrow> env_end a 0;
     let env = (if env > 0 then env + 1 else env);
     let len = length name + 2 + sum_list (map (\<lambda>v. length v + 1) vals);
     if len > ENV_SIZE - env then Some (Inl ()) else do {
     a \<leftarrow> store env (name @ [0]) a;
     (a, env) \<leftarrow> put_values vals EQ a (env + length name);
     a \<leftarrow> store (env + 1) [0] a;
     Some (Inr a) } }"

definition baudrate_table :: "u32 list" where
  "baudrate_table = [4800, 9600, 19200, 38400, 57600, 115200]"

partial_function (option) wait_cr :: "'c env_io \<Rightarrow> 'c \<Rightarrow> 'c option" where
  "wait_cr io c = (let (ch, c) = io_getc io c in if ch = 13 then Some c else wait_cr io c)"

text \<open>The fields of an address: \<open>n\<close> numbers in \<open>base\<close>, each after one separator.\<close>

fun addr_fields :: "nat \<Rightarrow> u32 \<Rightarrow> byte list \<Rightarrow> u32 list" where
  "addr_fields 0 base s = []"
| "addr_fields (Suc n) base s = (let (v, e) = simple_strtoul s base in v # addr_fields n base (drop 1 e))"

definition htonl :: "u32 \<Rightarrow> u32" where
  "htonl x = of_le (rev (le32 x))"

text \<open>The code before and after the change of the array. \<open>argv\<close> starts with the command name; \<^const>\<open>None\<close> is
  a null pointer. \<open>Inl\<close> is an early return.\<close>

definition setenv_checks :: "'c env_io \<Rightarrow> byte list \<Rightarrow> byte list option list \<Rightarrow> env \<Rightarrow> 'c \<Rightarrow> ((int, unit) sum \<times> env \<times> 'c) option" where
  "setenv_checks io name argv e c = do {
     let console = (if strcmp_s name (bytes ''stdin'') = 0 then Some 0
                    else if strcmp_s name (bytes ''stdout'') = 0 then Some 1
                    else if strcmp_s name (bytes ''stderr'') = 0 then Some 2 else None);
     (stop, c) \<leftarrow>
       (case console of
          None \<Rightarrow> Some (False, c)
        | Some k \<Rightarrow>
            if length argv < 3 then Some (True, c) else do {
            v \<leftarrow> argv ! 2;
            let (r, c) = io_console_assign io k v c;
            Some (r < 0, c) });
     if stop then Some (Inl 1, e, c) else
     if strcmp_s name (bytes ''baudrate'') = 0 then do {
       v \<leftarrow> (if length argv < 3 then None else argv ! 2);
       let rate = fst (simple_strtoul v 10);
       if rate \<notin> set baudrate_table then Some (Inl 1, e, c) else do {
       let e = e\<lparr>baudrate := rate\<rparr>;
       c \<leftarrow> wait_cr io (io_serial_setbrg io rate c);
       Some (Inr (), e, c) } }
     else Some (Inr (), e, c) }"

definition setenv_effects :: "byte list \<Rightarrow> byte list \<Rightarrow> env \<Rightarrow> env" where
  "setenv_effects name value e =
     (if strcmp_s name (bytes ''ethaddr'') = 0 then
        e\<lparr>bd := (bd e)\<lparr>bi_enetaddr := map ucast (addr_fields 6 16 value)\<rparr>\<rparr>
      else if strcmp_s name (bytes ''ipaddr'') = 0 then
        e\<lparr>bd := (bd e)\<lparr>bi_ip_addr := htonl (foldl (\<lambda>ad v. push_bit 8 ad OR (v AND 0xFF)) 0 (addr_fields 4 10 value))\<rparr>\<rparr>
      else if strcmp_s name (bytes ''loadaddr'') = 0 then
        e\<lparr>load_addr := fst (simple_strtoul value 16)\<rparr>
      else e)"

text \<open>The search and the deletion of the old definition.\<close>

definition setenv_old :: "'c env_io \<Rightarrow> byte list \<Rightarrow> byte list option list \<Rightarrow> env \<Rightarrow> 'c \<Rightarrow> ((int, unit) sum \<times> env \<times> 'c) option" where
  "setenv_old io name argv e c = do {
     old \<leftarrow> env_find name (env_arr e) 0;
     case old of
       None \<Rightarrow> Some (Inr (), e, c)
     | Some (i, nxt, val) \<Rightarrow> do {
         (stop, e, c) \<leftarrow> setenv_checks io name argv e c;
         case stop of
           Inl r \<Rightarrow> Some (Inl r, e, c)
         | Inr _ \<Rightarrow> do {
             a \<leftarrow> env_delete (env_arr e) i nxt;
             Some (Inr (), env_set_arr a e, c) } } }"

definition do_setenv_impl :: "'c env_io \<Rightarrow> byte list option list \<Rightarrow> env \<Rightarrow> 'c \<Rightarrow> (int \<times> env \<times> 'c) option" where
  "do_setenv_impl io argv e c = do {
     name \<leftarrow> argv ! 1;
     (stop, e, c) \<leftarrow> setenv_old io name argv e c;
     case stop of
       Inl r \<Rightarrow> Some (r, e, c)
     | Inr _ \<Rightarrow>
         (case drop 2 argv of
            [] \<Rightarrow> Some (0, e, c)
          | None # _ \<Rightarrow> Some (0, e, c)
          | Some v # vs \<Rightarrow> do {
              r \<leftarrow> (if None \<in> set vs then None else env_append name (v # map the vs) (env_arr e));
              case r of
                Inl _ \<Rightarrow> Some (1, e, c)
              | Inr a \<Rightarrow> Some (0, setenv_effects name v (env_set_arr a e), c) }) }"

definition setenv :: "'c env_io \<Rightarrow> byte list \<Rightarrow> byte list option \<Rightarrow> env \<Rightarrow> 'c \<Rightarrow> (env \<times> 'c) option" where
  "setenv io varname varvalue e c = do {
     (_, e, c) \<leftarrow> do_setenv_impl io [Some (bytes ''setenv''), Some varname, varvalue] e c;
     Some (e, c) }"

definition do_setenv :: "'c env_io \<Rightarrow> byte list option list \<Rightarrow> env \<Rightarrow> 'c \<Rightarrow> (int \<times> env \<times> 'c) option" where
  "do_setenv io argv e c = (if length argv < 2 then Some (1, e, c) else do_setenv_impl io argv e c)"

section \<open>Printing and saving\<close>

function print_all :: "'c env_io \<Rightarrow> byte list \<Rightarrow> nat \<Rightarrow> 'c \<Rightarrow> (int \<times> 'c) option" where
  "print_all io a i c = do {
     ch \<leftarrow> at a i;
     if ch = 0 then Some (0, c) else
     (case str_end a i of
        None \<Rightarrow> None
      | Some nxt \<Rightarrow>
          (let c = io_puts io (bslice i (nxt - i) a @ [10]) c; (stop, c) = io_ctrlc io c
           in if stop then Some (1, c) else print_all io a (nxt + 1) c)) }"
  by pat_completeness auto
termination
  by (relation "measure (\<lambda>(io, a, i, c). length a - i)") (auto simp: at_def dest!: str_end_ge split: if_splits)

declare print_all.simps [simp del]

fun print_vars :: "'c env_io \<Rightarrow> byte list \<Rightarrow> byte list list \<Rightarrow> int \<Rightarrow> 'c \<Rightarrow> (int \<times> 'c) option" where
  "print_vars io a [] rcode c = Some (rcode, c)"
| "print_vars io a (name # names) rcode c = do {
     r \<leftarrow> env_find name a 0;
     case r of
       None \<Rightarrow> print_vars io a names (rcode + 1) c
     | Some (i, nxt, val) \<Rightarrow>
         print_vars io a names rcode (io_puts io (name @ [EQ] @ bslice val (nxt - val) a @ [10]) c) }"

definition do_printenv :: "'c env_io \<Rightarrow> byte list list \<Rightarrow> env \<Rightarrow> 'c \<Rightarrow> (int \<times> 'c) option" where
  "do_printenv io argv e c =
     (if length argv = 1 then print_all io (env_arr e) 0 c
      else print_vars io (env_arr e) (drop 1 argv) 0 c)"

definition saveenv :: int where "saveenv = -1"

definition do_saveenv :: "'c env_io \<Rightarrow> byte list list \<Rightarrow> 'c \<Rightarrow> (int \<times> 'c) option" where
  "do_saveenv io argv c =
     (if length argv > 2 then Some (1, c)
      else if length argv = 1 then
        (let (ch, c) = io_getc io c
         in if ch = 0x79 \<or> ch = 0x59 then Some ((if saveenv \<noteq> 0 then 1 else 0), c) else Some (1, c))
      else if length argv = 2 then
        if strncmp_s (argv ! 1) (bytes ''-f'') 2 \<noteq> 0 then Some (1, c)
        else Some ((if saveenv \<noteq> 0 then 1 else 0), c)
      else Some (1, c))"

end
