(* ===== verification/EnvStore.thy ===== *)
theory EnvStore
  imports Env
begin

text \<open>
  The environment as a store of variables: \<open>env_rep es d\<close> relates the array \<open>d\<close> with the list \<open>es\<close> of its
  entries, whose names differ. The loops of \<open>Env\<close> are shown to implement looking up, deleting and appending on
  this list.
\<close>

section \<open>The entries of an environment\<close>

definition entry_ok :: "byte list \<Rightarrow> bool" where
  "entry_ok x \<longleftrightarrow> 0 \<notin> set x \<and> EQ \<in> set x"

definition key_of :: "byte list \<Rightarrow> byte list" where
  "key_of x = takeWhile (\<lambda>c. c \<noteq> EQ) x"

definition val_of :: "byte list \<Rightarrow> byte list" where
  "val_of x = drop (Suc (length (key_of x))) x"

definition entry_bytes :: "byte list list \<Rightarrow> byte list" where
  "entry_bytes es = concat (map (\<lambda>x. x @ [0]) es)"

definition env_rep :: "byte list list \<Rightarrow> byte list \<Rightarrow> bool" where
  "env_rep es d \<longleftrightarrow> list_all entry_ok es \<and> distinct (map key_of es) \<and> length d = ENV_SIZE
     \<and> (\<exists>rest. d = entry_bytes es @ 0 # rest \<and> (es = [] \<longrightarrow> take 1 rest = [0]))"

definition name_ok :: "byte list \<Rightarrow> bool" where
  "name_ok x \<longleftrightarrow> 0 \<notin> set x \<and> EQ \<notin> set x"

lemma EQ_nz [simp]: "EQ \<noteq> 0"
  by (simp add: EQ_def)

lemma entry_bytes_simps [simp]:
  "entry_bytes [] = []" "entry_bytes (x # xs) = x @ 0 # entry_bytes xs"
  "entry_bytes (xs @ ys) = entry_bytes xs @ entry_bytes ys"
  by (simp_all add: entry_bytes_def)

lemma entry_ok_ne: "entry_ok x \<Longrightarrow> x \<noteq> []"
  by (auto simp: entry_ok_def)

lemma key_val: "EQ \<in> set x \<Longrightarrow> x = key_of x @ EQ # val_of x"
  unfolding key_of_def val_of_def by (induction x) auto

lemma key_pair [simp]: "EQ \<notin> set n \<Longrightarrow> key_of (n @ EQ # v) = n" "EQ \<notin> set n \<Longrightarrow> val_of (n @ EQ # v) = v"
proof -
  assume n: "EQ \<notin> set n"
  then show k: "key_of (n @ EQ # v) = n" unfolding key_of_def by (induction n) auto
  show "val_of (n @ EQ # v) = v" unfolding val_of_def k by simp
qed

section \<open>The loops on a represented environment\<close>

lemma at_drop [simp]: "drop i a = x # xs \<Longrightarrow> at a i = Some x"
  by (metis at_def drop_eq_Nil linorder_not_less list.distinct(1) nth_via_drop)

lemma drop_Suc_Cons: "drop i a = x # xs \<Longrightarrow> drop (Suc i) a = xs"
  by (metis drop_Suc list.sel(3) tl_drop)

lemma at_drop_Suc [simp]: "drop i a = x # y # ys \<Longrightarrow> at a (Suc i) = Some y"
  by (rule at_drop[OF drop_Suc_Cons])

lemma str_end_at: "0 \<notin> set x \<Longrightarrow> drop i a = x @ 0 # r \<Longrightarrow> str_end a i = Some (i + length x)"
proof (induction x arbitrary: i)
  case Nil
  then have "at a i = Some 0" by simp
  then show ?case by (subst str_end.simps) (auto simp: at_def split: if_splits)
next
  case (Cons c x)
  have "at a i = Some c" using Cons.prems(2) by simp
  moreover have "str_end a (i + 1) = Some (i + 1 + length x)"
    using Cons drop_Suc_Cons[of i a] by simp
  ultimately show ?case using Cons.prems(1) by (subst str_end.simps) (auto simp: at_def split: if_splits)
qed

lemma envmatch_at:
  "name_ok n \<Longrightarrow> entry_ok x \<Longrightarrow> drop i a = x @ r
    \<Longrightarrow> envmatch n a i = Some (if key_of x = n then Some (i + length n + 1) else None)"
proof (induction n arbitrary: x i)
  case Nil
  then obtain c xs where "x = c # xs" using entry_ok_ne by (cases x) auto
  then show ?case using Nil by (subst envmatch.simps) (auto simp: entry_ok_def key_of_def)
next
  case (Cons s n)
  then obtain c xs where x: "x = c # xs" using entry_ok_ne by (cases x) auto
  have s: "s \<noteq> EQ" "name_ok n" using Cons.prems(1) by (auto simp: name_ok_def)
  show ?case
  proof (cases "s = c")
    case True
    then have "entry_ok xs" using Cons.prems(2) s x by (auto simp: entry_ok_def)
    then have "envmatch n a (i + 1) = Some (if key_of xs = n then Some (i + 1 + length n + 1) else None)"
      using Cons.IH[OF s(2), of xs "i + 1"] Cons.prems(3) x drop_Suc_Cons[of i a c "xs @ r"] by simp
    then show ?thesis using Cons.prems(3) x s True by (subst envmatch.simps) (auto simp: key_of_def)
  next
    case False
    then show ?thesis using Cons.prems(3) x by (subst envmatch.simps) (auto simp: key_of_def)
  qed
qed

fun entry_idx :: "byte list \<Rightarrow> byte list list \<Rightarrow> nat \<Rightarrow> (nat \<times> nat \<times> nat) option" where
  "entry_idx n [] i = None"
| "entry_idx n (x # xs) i =
     (if key_of x = n then Some (i, i + length x, i + length n + 1) else entry_idx n xs (i + length x + 1))"

lemma env_find_at:
  "name_ok n \<Longrightarrow> list_all entry_ok es \<Longrightarrow> drop i a = entry_bytes es @ 0 # r
    \<Longrightarrow> env_find n a i = Some (entry_idx n es i)"
proof (induction es arbitrary: i)
  case Nil
  then show ?case by (subst env_find.simps) simp
next
  case (Cons x es)
  then obtain c xs where x: "x = c # xs" using entry_ok_ne by (cases x) auto
  have d: "drop i a = x @ 0 # entry_bytes es @ 0 # r" using Cons.prems by simp
  have "c \<noteq> 0" using Cons.prems(2) x by (auto simp: entry_ok_def)
  moreover have "str_end a i = Some (i + length x)"
    using str_end_at[OF _ d] Cons.prems(2) by (simp add: entry_ok_def)
  moreover have "envmatch n a i = Some (if key_of x = n then Some (i + length n + 1) else None)"
    using envmatch_at[OF Cons.prems(1) _ d] Cons.prems(2) by simp
  moreover have "env_find n a (i + length x + 1) = Some (entry_idx n es (i + length x + 1))"
  proof (rule Cons.IH[OF Cons.prems(1)])
    have "drop (i + length x + 1) a = drop (Suc (length x)) (drop i a)" by (simp add: add.commute)
    then show "drop (i + length x + 1) a = entry_bytes es @ 0 # r" by (simp add: d)
  qed (use Cons.prems(2) in simp)
  ultimately show ?case using d by (subst env_find.simps) (simp add: x)
qed

lemma entry_idx_Some:
  "entry_idx n es i = Some (b, e, v) \<Longrightarrow> \<exists>xs x ys. es = xs @ x # ys \<and> key_of x = n \<and> n \<notin> set (map key_of xs)
     \<and> b = i + length (entry_bytes xs) \<and> e = b + length x \<and> v = b + length n + 1"
proof (induction es arbitrary: i)
  case (Cons y es)
  show ?case
  proof (cases "key_of y = n")
    case True
    then show ?thesis using Cons.prems by - (rule exI[of _ "[]"], rule exI[of _ y], rule exI[of _ es], auto)
  next
    case False
    then obtain xs x ys where "es = xs @ x # ys" "key_of x = n" "n \<notin> set (map key_of xs)"
      "b = i + length y + 1 + length (entry_bytes xs)" "e = b + length x" "v = b + length n + 1"
      using Cons by fastforce
    then show ?thesis using False by - (rule exI[of _ "y # xs"], rule exI[of _ x], rule exI[of _ ys], simp)
  qed
qed simp

lemma entry_idx_None: "entry_idx n es i = None \<longleftrightarrow> n \<notin> set (map key_of es)"
  by (induction es arbitrary: i) auto

lemma env_find_rep:
  assumes "name_ok n" and "env_rep es d"
  shows "env_find n d 0 = Some (entry_idx n es 0)"
  using env_find_at[OF assms(1), of es 0 d] assms(2) by (auto simp: env_rep_def)

definition lookup :: "byte list \<Rightarrow> byte list list \<Rightarrow> byte list option" where
  "lookup n es = map_option val_of (List.find (\<lambda>x. key_of x = n) es)"

lemma lookup_split: "n \<notin> set (map key_of xs) \<Longrightarrow> lookup n (xs @ ys) = lookup n ys"
  by (induction xs) (auto simp: lookup_def)

theorem getenv_rep:
  assumes "name_ok n" and "env_rep es (env_arr e)"
  shows "getenv n e = Some (lookup n es)"
proof (cases "entry_idx n es 0")
  case None
  then have "lookup n es = None" using lookup_split[of n es "[]"] by (simp add: entry_idx_None lookup_def)
  with None show ?thesis by (simp add: getenv_def env_find_rep[OF assms])
next
  case (Some p)
  then obtain b e' v where p: "entry_idx n es 0 = Some (b, e', v)" by (cases p) auto
  obtain xs x ys where s: "es = xs @ x # ys" "key_of x = n" "n \<notin> set (map key_of xs)"
      "b = length (entry_bytes xs)" "e' = b + length x" "v = b + length n + 1"
    using entry_idx_Some[OF p] by auto
  have "entry_ok x" using assms(2) s(1) by (simp add: env_rep_def)
  then have x: "x = n @ EQ # val_of x" using key_val[of x] s(2) by (simp add: entry_ok_def)
  obtain r where r: "env_arr e = entry_bytes xs @ x @ 0 # r" using assms(2) s(1) by (auto simp: env_rep_def)
  have "length x = length n + 1 + length (val_of x)" by (subst x) simp
  then have "bslice v (e' - v) (env_arr e) = val_of x"
    using s by (subst r, subst x) (simp add: bslice_def)
  moreover have "lookup n es = Some (val_of x)" using s by (simp add: lookup_split) (simp add: lookup_def)
  ultimately show ?thesis by (simp add: getenv_def env_find_rep[OF assms] p)
qed

text \<open>The bytes of one or more entries: they end with a zero byte and have no two zero bytes in a row.\<close>

fun packed :: "byte list \<Rightarrow> bool" where
  "packed [] = False"
| "packed [x] = (x = 0)"
| "packed (x # y # ys) = (\<not> (x = 0 \<and> y = 0) \<and> packed (y # ys))"

lemma packed_entry: "0 \<notin> set x \<Longrightarrow> packed (x @ [0])"
  by (induction x rule: packed.induct) auto

lemma packed_append: "packed a \<Longrightarrow> packed b \<Longrightarrow> hd b \<noteq> 0 \<Longrightarrow> packed (a @ b)"
proof (induction a rule: packed.induct)
  case (2 x)
  then show ?case by (cases b) auto
qed auto

lemma packed_entries: "list_all entry_ok es \<Longrightarrow> es \<noteq> [] \<Longrightarrow> packed (entry_bytes es)"
proof (induction es)
  case (Cons x es)
  then have x: "packed (x @ [0])" by (auto simp: entry_ok_def intro: packed_entry)
  show ?case
  proof (cases es)
    case Nil
    then show ?thesis using x by simp
  next
    case (Cons y ys)
    have "hd (entry_bytes es) \<noteq> 0"
      using Cons.prems Cons.IH \<open>list_all entry_ok (x # es)\<close> Cons by (cases y) (auto simp: entry_ok_def)
    then show ?thesis
      using packed_append[OF x, of "entry_bytes es"] Cons.IH \<open>list_all entry_ok (x # es)\<close> Cons by simp
  qed
qed simp

lemma env_end_at: "packed y \<Longrightarrow> drop i a = y @ 0 # r \<Longrightarrow> env_end a i = Some (i + length y - 1)"
proof (induction y arbitrary: i rule: packed.induct)
  case (2 x)
  then show ?case by (subst env_end.simps) simp
next
  case (3 x z ys)
  have "env_end a (i + 1) = Some (i + 1 + length (z # ys) - 1)"
    using 3 drop_Suc_Cons[of i a x] by simp
  then show ?case using 3 by (subst env_end.simps) auto
qed simp

lemma patch_Cons: "i + length (x # xs) \<le> length a \<Longrightarrow> patch i (x # xs) a = patch (Suc i) xs (patch i [x] a)"
  using patch_append[of i "[x]" xs a] by simp

lemma patch_overlap:
  assumes "k \<le> length xs" and "length xs \<le> k + length ys" and "i + length xs \<le> length a"
  shows "patch (i + k) ys (patch i xs a) = patch i (take k xs @ ys) a"
proof -
  have "drop (i + k + length ys) (take i a @ xs @ drop (i + length xs) a) = drop (i + k + length ys) a"
    using assms by (simp add: ac_simps)
  then show ?thesis using assms by (simp add: patch_def add.assoc)
qed

lemma env_shift_at:
  "packed y \<Longrightarrow> drop nxt a = y @ 0 # r \<Longrightarrow> i < nxt \<Longrightarrow> env_shift a i nxt = Some (patch i y a, i + length y - 1)"
proof (induction y arbitrary: i nxt a rule: packed.induct)
  case (2 x)
  then have l: "nxt < length a" by (metis append_Cons drop_eq_Nil linorder_not_less list.distinct(1))
  have "drop nxt (patch i [x] a) = x # 0 # r" using 2 l by (subst drop_patch) auto
  then show ?case using 2 l by (subst env_shift.simps) simp
next
  case (3 x z ys)
  have "length (drop nxt a) = length (x # z # ys) + Suc (length r)" using 3 by simp
  then have l: "nxt + length (x # z # ys) < length a" by simp
  have d: "drop nxt (patch i [x] a) = x # z # ys @ 0 # r" using 3 l by (subst drop_patch) auto
  then have "env_shift (patch i [x] a) (Suc i) (Suc nxt) = Some (patch (Suc i) (z # ys) (patch i [x] a), Suc i + length (z # ys) - 1)"
    using 3 drop_Suc_Cons[OF d] by simp
  then show ?case using 3 l d patch_Cons[of i x "z # ys" a] by (subst env_shift.simps) auto
qed simp

section \<open>Deleting and appending\<close>

lemma env_delete_rep:
  assumes "env_rep (xs @ x # ys) d"
  shows "\<exists>d'. env_delete d (length (entry_bytes xs)) (length (entry_bytes xs) + length x) = Some d' \<and> env_rep (xs @ ys) d'"
proof -
  obtain rest where d: "d = entry_bytes xs @ x @ 0 # entry_bytes ys @ 0 # rest" and len: "length d = ENV_SIZE"
    using assms by (auto simp: env_rep_def)
  have es: "list_all entry_ok (xs @ x # ys)" "distinct (map key_of (xs @ x # ys))" using assms by (simp_all add: env_rep_def)
  let ?b = "length (entry_bytes xs)"
  let ?n = "?b + length x"
  have dn: "drop (Suc ?n) d = entry_bytes ys @ 0 # rest" by (simp add: d)
  have x: "x \<noteq> []" using es(1) entry_ok_ne by simp
  show ?thesis
  proof (cases ys)
    case Nil
    have c: "at d (Suc ?n) = Some 0" using dn Nil by simp
    show ?thesis
    proof (cases xs)
      case Nil
      have "env_delete d ?b ?n = Some (patch 1 [0] (patch 0 [0] d))"
        using c Nil \<open>ys = []\<close> x by (simp add: env_delete_def d)
      moreover have "patch 1 [0] (patch 0 [0] d) = 0 # 0 # drop 2 d"
        using x by (cases d) (auto simp: patch_def d numeral_2_eq_2)
      ultimately show ?thesis using es len Nil \<open>ys = []\<close> x by (auto simp: env_rep_def d)
    next
      case (Cons z zs)
      then have b: "0 < ?b" by simp
      have "env_delete d ?b ?n = Some (patch ?b [0] d)" using c b by (simp add: env_delete_def) (simp add: d)
      moreover have "patch ?b [0] d = entry_bytes xs @ 0 # drop (Suc ?b) d" by (simp add: patch_def d)
      ultimately show ?thesis using es len Cons \<open>ys = []\<close> by (auto simp: env_rep_def) (simp add: d)
    qed
  next
    case (Cons z zs)
    have pk: "packed (entry_bytes ys)" using packed_entries[of ys] es(1) Cons by simp
    have "hd (entry_bytes ys) \<noteq> 0" "entry_bytes ys \<noteq> []"
      using es(1) Cons by (cases z; auto simp: entry_ok_def)+
    then have c: "at d (Suc ?n) = Some (hd (entry_bytes ys))" "hd (entry_bytes ys) \<noteq> 0"
      using at_drop[of "Suc ?n" d "hd (entry_bytes ys)" "tl (entry_bytes ys) @ 0 # rest"] dn by simp_all
    let ?d = "patch ?b (entry_bytes ys) d"
    have p: "0 < length (entry_bytes ys)" using \<open>entry_bytes ys \<noteq> []\<close> by simp
    have sh: "env_shift d ?b (Suc ?n) = Some (?d, ?b + length (entry_bytes ys) - 1)"
      using env_shift_at[OF pk dn, of ?b] by simp
    have l: "length ?d = length d" by (rule length_patch) (simp add: d)
    have "env_delete d ?b ?n = Some (patch (?b + length (entry_bytes ys)) [0] ?d)"
      using c sh p l by (simp add: env_delete_def) (simp add: d)
    moreover have "patch (?b + length (entry_bytes ys)) [0] ?d = patch ?b (entry_bytes ys @ [0]) d"
      by (rule patch_append) (simp add: d)
    moreover have "patch ?b (entry_bytes ys @ [0]) d = entry_bytes (xs @ ys) @ 0 # drop (?b + length (entry_bytes ys) + 1) d"
      by (simp add: patch_def d)
    moreover have "length (patch ?b (entry_bytes ys @ [0]) d) = ENV_SIZE" using len by (subst length_patch) (simp_all add: d)
    ultimately show ?thesis using es Cons by (auto simp: env_rep_def)
  qed
qed

fun values_text :: "byte \<Rightarrow> byte list list \<Rightarrow> byte list" where
  "values_text sep [] = []"
| "values_text sep (v # vs) = sep # v @ values_text 0x20 vs"

lemma length_values_text: "length (values_text sep vs) = sum_list (map (\<lambda>v. length v + 1) vs)"
  by (induction vs arbitrary: sep) auto

lemma put_values_eq:
  "vs \<noteq> [] \<Longrightarrow> i + length (values_text sep vs) + 1 \<le> length a
    \<Longrightarrow> put_values vs sep a i = Some (patch i (values_text sep vs @ [0]) a, i + length (values_text sep vs))"
proof (induction vs arbitrary: sep a i)
  case (Cons v vs)
  show ?case
  proof (cases vs)
    case Nil
    then show ?thesis using Cons.prems by simp
  next
    case vs: (Cons w ws)
    let ?a = "patch i (sep # v @ [0]) a" and ?t = "values_text 0x20 vs"
    have l: "length ?a = length a" using Cons.prems vs by (subst length_patch) auto
    have "put_values vs 0x20 ?a (i + 1 + length v) = Some (patch (i + 1 + length v) (?t @ [0]) ?a, i + 1 + length v + length ?t)"
      using Cons.IH[of "i + 1 + length v" "0x20" ?a] Cons.prems vs l by simp
    moreover have "patch (i + 1 + length v) (?t @ [0]) ?a = patch i (sep # v @ ?t @ [0]) a"
      using patch_overlap[of "1 + length v" "sep # v @ [0]" "?t @ [0]" i a] Cons.prems vs by simp
    ultimately show ?thesis using Cons.prems vs by simp
  qed
qed simp

lemma env_append_rep:
  assumes "env_rep es d" and "name_ok n" "n \<notin> set (map key_of es)" and "vs \<noteq> []" "list_all (\<lambda>v. 0 \<notin> set v) vs"
  shows "if length (entry_bytes es) + length n + length (values_text EQ vs) + 2 \<le> ENV_SIZE
    then \<exists>d'. env_append n vs d = Some (Inr d') \<and> env_rep (es @ [n @ values_text EQ vs]) d'
    else env_append n vs d = Some (Inl ())"
proof -
  obtain rest where d: "d = entry_bytes es @ 0 # rest" "es = [] \<Longrightarrow> take 1 rest = [0]" and len: "length d = ENV_SIZE"
    and es: "list_all entry_ok es" "distinct (map key_of es)"
    using assms(1) by (auto simp: env_rep_def)
  let ?E = "length (entry_bytes es)" and ?t = "values_text EQ vs"
  obtain k where k: "env_end d 0 = Some k" "(if 0 < k then k + 1 else k) = ?E"
  proof (cases es)
    case Nil
    then obtain r where "rest = 0 # r" using d(2) by (cases rest) auto
    then have "env_end d 0 = Some 0" using Nil d(1) by (subst env_end.simps) (simp add: at_def)
    then show ?thesis using Nil that by simp
  next
    case (Cons x xs)
    then have "1 < ?E" using es(1) by (cases x) (auto simp: entry_ok_def)
    moreover have "env_end d 0 = Some (0 + ?E - 1)"
      using env_end_at[OF packed_entries[OF es(1)], of 0 d] d(1) Cons by simp
    ultimately show ?thesis using that[of "?E - 1"] by simp
  qed
  have ts: "sum_list (map (\<lambda>v. length v + 1) vs) = length ?t" by (simp add: length_values_text)
  have ap: "env_append n vs d = (if length n + 2 + length ?t > ENV_SIZE - ?E then Some (Inl ()) else do {
     a \<leftarrow> store ?E (n @ [0]) d;
     (a, env) \<leftarrow> put_values vs EQ a (?E + length n);
     a \<leftarrow> store (env + 1) [0] a;
     Some (Inr a) })"
    by (simp only: env_append_def k Option.bind.simps Let_def ts)
  have E: "?E \<le> ENV_SIZE" using d(1) len by simp
  show ?thesis
  proof (cases "?E + length n + length ?t + 2 \<le> ENV_SIZE")
    case False
    then have "ENV_SIZE - ?E < length n + 2 + length ?t" using E by linarith
    then have "env_append n vs d = Some (Inl ())" by (simp add: ap)
    with False show ?thesis by simp
  next
    case True
    let ?d1 = "patch ?E (n @ [0]) d"
    have l1: "length ?d1 = ENV_SIZE" using True len by (subst length_patch) auto
    let ?d2 = "patch (?E + length n) (?t @ [0]) ?d1"
    have p: "put_values vs EQ ?d1 (?E + length n) = Some (?d2, ?E + length n + length ?t)"
      using True l1 by (intro put_values_eq[OF assms(4)]) simp
    have l2: "length ?d2 = ENV_SIZE" using True l1 by (subst length_patch) auto
    let ?d3 = "patch (?E + length n + length ?t + 1) [0] ?d2"
    have "?d2 = patch ?E (n @ ?t @ [0]) d"
      using patch_overlap[of "length n" "n @ [0]" "?t @ [0]" ?E d] True len by simp
    then have d3: "?d3 = patch ?E (n @ ?t @ [0, 0]) d"
      using patch_append[of ?E "n @ ?t @ [0]" "[0]" d] True len by (simp add: add.assoc)
    then have "?d3 = entry_bytes (es @ [n @ ?t]) @ 0 # drop (?E + length n + length ?t + 2) d"
      by (simp add: patch_def d(1))
    moreover have "length ?d3 = ENV_SIZE" using True l2 by (subst length_patch) auto
    moreover have k: "?t = EQ # tl ?t" using assms(4) by (cases vs) auto
    have "entry_ok (n @ ?t)"
    proof -
      have "0 \<notin> set (values_text sep vs)" if "sep \<noteq> 0" for sep
        using assms(5) that by (induction vs arbitrary: sep) auto
      then show ?thesis using assms(2) k by (auto simp: entry_ok_def name_ok_def) (metis list.set_intros(1))
    qed
    moreover have "key_of (n @ ?t) = n" by (subst k) (use assms(2) in \<open>simp add: name_ok_def\<close>)
    ultimately have "env_rep (es @ [n @ ?t]) ?d3" using es assms(3) by (auto simp: env_rep_def)
    moreover have "env_append n vs d = Some (Inr ?d3)"
      using True len l1 l2 p by (simp add: ap)
    ultimately show ?thesis using True by auto
  qed
qed

section \<open>The refinement\<close>

definition del_var :: "byte list \<Rightarrow> byte list list \<Rightarrow> byte list list" where
  "del_var n es = filter (\<lambda>x. key_of x \<noteq> n) es"

text \<open>Names the function treats specially.\<close>

definition plain_name :: "byte list \<Rightarrow> bool" where
  "plain_name n \<longleftrightarrow> name_ok n \<and> n \<noteq> bytes ''stdin'' \<and> n \<noteq> bytes ''stdout'' \<and> n \<noteq> bytes ''stderr''
     \<and> n \<noteq> bytes ''baudrate''"

definition env_fits :: "byte list \<Rightarrow> byte list \<Rightarrow> byte list list \<Rightarrow> bool" where
  "env_fits n v es \<longleftrightarrow> length (entry_bytes (del_var n es)) + length n + length v + 3 \<le> ENV_SIZE"

lemma env_set_arr_simps [simp]:
  "env_arr (env_set_arr a e) = a" "env_arr (setenv_effects n v e) = env_arr e"
  "env_valid (env_set_arr a e) = env_valid e" "env_valid (setenv_effects n v e) = env_valid e"
  by (simp_all add: env_arr_def env_set_arr_def setenv_effects_def)

lemma del_var_none: "n \<notin> set (map key_of es) \<Longrightarrow> del_var n es = es"
  by (auto simp: del_var_def filter_id_conv image_iff)

lemma del_var_append: "del_var n (xs @ ys) = del_var n xs @ del_var n ys"
  by (simp add: del_var_def)

lemma del_var_split:
  assumes "distinct (map key_of (xs @ x # ys))"
  shows "del_var (key_of x) (xs @ x # ys) = xs @ ys"
proof -
  have "del_var (key_of x) xs = xs" "del_var (key_of x) ys = ys" using assms by (intro del_var_none; auto)+
  moreover have "del_var (key_of x) (x # ys) = del_var (key_of x) ys" by (simp add: del_var_def)
  ultimately show ?thesis by (simp add: del_var_append)
qed

lemma setenv_old_rep:
  assumes "env_rep es (env_arr e)" and "plain_name n"
  shows "\<exists>e'. setenv_old io n argv e c = Some (Inr (), e', c) \<and> env_rep (del_var n es) (env_arr e')
    \<and> env_valid e' = env_valid e"
proof -
  have n: "name_ok n" using assms(2) by (simp add: plain_name_def)
  have ck: "setenv_checks io n argv e c = Some (Inr (), e, c)"
    using assms(2) n by (auto simp: setenv_checks_def plain_name_def name_ok_def strcmp_s_zero)
  show ?thesis
  proof (cases "entry_idx n es 0")
    case None
    then have "del_var n es = es" using entry_idx_None del_var_none by blast
    then show ?thesis using assms(1) env_find_rep[OF n assms(1)] None by (simp add: setenv_old_def)
  next
    case (Some p)
    then obtain b z v where p: "entry_idx n es 0 = Some (b, z, v)" by (cases p) auto
    then obtain xs x ys where s: "es = xs @ x # ys" "key_of x = n" "b = length (entry_bytes xs)" "z = b + length x"
      using entry_idx_Some[OF p] by auto
    obtain d where "env_delete (env_arr e) b z = Some d" "env_rep (xs @ ys) d"
      using env_delete_rep[of xs x ys "env_arr e"] assms(1) s by auto
    moreover have "del_var n es = xs @ ys"
      using del_var_split[of xs x ys] assms(1) s by (simp add: env_rep_def)
    ultimately show ?thesis using env_find_rep[OF n assms(1)] ck by (simp add: setenv_old_def p)
  qed
qed

lemma do_setenv_rep:
  assumes "env_rep es (env_arr e)" and "plain_name n" and "0 \<notin> set v"
  shows "\<exists>e'. do_setenv io [Some cmd, Some n, Some v] e c = Some (if env_fits n v es then 0 else 1, e', c)
    \<and> env_rep (del_var n es @ (if env_fits n v es then [n @ EQ # v] else [])) (env_arr e') \<and> env_valid e' = env_valid e"
proof -
  have n: "name_ok n" using assms(2) by (simp add: plain_name_def)
  obtain e1 where e1: "setenv_old io n [Some cmd, Some n, Some v] e c = Some (Inr (), e1, c)"
      "env_rep (del_var n es) (env_arr e1)" "env_valid e1 = env_valid e"
    using setenv_old_rep[OF assms(1,2), of io "[Some cmd, Some n, Some v]" c] by auto
  have "n \<notin> set (map key_of (del_var n es))" by (auto simp: del_var_def)
  moreover have "env_fits n v es \<longleftrightarrow> length (entry_bytes (del_var n es)) + length n + length (values_text EQ [v]) + 2 \<le> ENV_SIZE"
    "values_text EQ [v] = EQ # v" by (simp_all add: env_fits_def eval_nat_numeral)
  ultimately have ap: "if env_fits n v es
    then \<exists>d'. env_append n [v] (env_arr e1) = Some (Inr d') \<and> env_rep (del_var n es @ [n @ EQ # v]) d'
    else env_append n [v] (env_arr e1) = Some (Inl ())"
    using env_append_rep[OF e1(2) n, of "[v]"] assms(3) by (cases "env_fits n v es") simp_all
  have "do_setenv io [Some cmd, Some n, Some v] e c = do {
      r \<leftarrow> env_append n [v] (env_arr e1);
      case r of
        Inl _ \<Rightarrow> Some (1, e1, c)
      | Inr a \<Rightarrow> Some (0, setenv_effects n v (env_set_arr a e1), c) }"
    using e1(1) by (simp add: do_setenv_def do_setenv_impl_def)
  then show ?thesis using ap e1(2,3) by (auto split: if_splits)
qed

lemma do_unsetenv_rep:
  assumes "env_rep es (env_arr e)" and "plain_name n"
  shows "\<exists>e'. do_setenv io [Some cmd, Some n, None] e c = Some (0, e', c)
    \<and> env_rep (del_var n es) (env_arr e') \<and> env_valid e' = env_valid e"
  using setenv_old_rep[OF assms, of io "[Some cmd, Some n, None]" c] by (auto simp: do_setenv_def do_setenv_impl_def)

lemma lookup_del_var: "lookup m (del_var n es) = (if m = n then None else lookup m es)"
  by (induction es) (auto simp: lookup_def del_var_def)

lemma lookup_set: "EQ \<notin> set n \<Longrightarrow> lookup m (del_var n es @ [n @ EQ # v]) = (if m = n then Some v else lookup m es)"
proof -
  assume n: "EQ \<notin> set n"
  have "lookup m (xs @ ys) = (case lookup m xs of None \<Rightarrow> lookup m ys | Some x \<Rightarrow> Some x)" for xs ys
    by (induction xs) (auto simp: lookup_def)
  then show ?thesis using n lookup_del_var[of m n es] by (auto simp: lookup_def split: option.splits)
qed

section \<open>Copying a value out\<close>

lemma getenv_copy_at:
  "0 \<notin> set w \<Longrightarrow> drop i a = w @ 0 # r \<Longrightarrow> n \<le> len \<Longrightarrow> len \<le> length buf
    \<Longrightarrow> getenv_copy a i len buf n = Some (if n + length w < len then (n + length w + 1, n + length w + 1, patch n (w @ [0]) buf)
         else (len + 1, len, patch n (take (len - n) w) buf))"
proof (induction w arbitrary: i n buf)
  case Nil
  then show ?case by (subst getenv_copy.simps) (auto simp: patch_def)
next
  case (Cons c w)
  show ?case
  proof (cases "n < len")
    case False
    then show ?thesis using Cons.prems by (subst getenv_copy.simps) (simp add: patch_def)
  next
    case True
    let ?b = "patch n [c] buf"
    have "getenv_copy a (i + 1) len ?b (n + 1)
      = Some (if n + 1 + length w < len then (n + 1 + length w + 1, n + 1 + length w + 1, patch (n + 1) (w @ [0]) ?b)
         else (len + 1, len, patch (n + 1) (take (len - (n + 1)) w) ?b))"
      using Cons True drop_Suc_Cons[of i a c] by (intro Cons.IH) auto
    moreover have "take (len - n) (c # w) = c # take (len - (n + 1)) w" using True Suc_diff_Suc[of n len] by (metis Suc_eq_plus1 take_Suc_Cons)
    moreover have "patch (n + 1) (w @ [0]) ?b = patch n ((c # w) @ [0]) buf" if "n + 1 + length w < len"
      using patch_Cons[of n c "w @ [0]" buf] that Cons.prems by simp
    moreover have "patch (n + 1) (take (len - (n + 1)) w) ?b = patch n (c # take (len - (n + 1)) w) buf"
      using patch_Cons[of n c "take (len - (n + 1)) w" buf] True Cons.prems by simp
    ultimately show ?thesis using True Cons.prems by (subst getenv_copy.simps) auto
  qed
qed

lemma getenv_r_rep:
  assumes "name_ok n" and "env_rep es (env_arr e)" and "length buf = len"
  shows "getenv_r n buf len e = (case lookup n es of
      None \<Rightarrow> Some (-1, buf)
    | Some v \<Rightarrow> if length v + 1 < len then Some (int (length v + 1), patch 0 (v @ [0]) buf)
        else if length v + 1 = len then None
        else Some (int len + 1, take len v))"
proof (cases "entry_idx n es 0")
  case None
  then have "lookup n es = None" using lookup_split[of n es "[]"] by (simp add: entry_idx_None lookup_def)
  with None show ?thesis by (simp add: getenv_r_def env_find_rep[OF assms(1,2)])
next
  case (Some p)
  then obtain b z v where p: "entry_idx n es 0 = Some (b, z, v)" by (cases p) auto
  obtain xs x ys where s: "es = xs @ x # ys" "key_of x = n" "n \<notin> set (map key_of xs)"
      "b = length (entry_bytes xs)" "v = b + length n + 1"
    using entry_idx_Some[OF p] by auto
  have ok: "entry_ok x" using assms(2) s(1) by (simp add: env_rep_def)
  then have x: "x = n @ EQ # val_of x" using key_val[of x] s(2) by (simp add: entry_ok_def)
  obtain r where r: "env_arr e = entry_bytes xs @ x @ 0 # r" using assms(2) s(1) by (auto simp: env_rep_def)
  have d: "drop v (env_arr e) = val_of x @ 0 # r" using s by (subst r, subst x) simp
  have "0 \<notin> set (val_of x)" using ok x by (metis entry_ok_def in_set_conv_decomp list.set_intros(2) Un_iff set_append)
  then have c: "getenv_copy (env_arr e) v len buf 0 = Some (if length (val_of x) < len
      then (length (val_of x) + 1, length (val_of x) + 1, patch 0 (val_of x @ [0]) buf)
      else (len + 1, len, patch 0 (take len (val_of x)) buf))"
    using getenv_copy_at[OF _ d, of 0 len buf] assms(3) by simp
  have "lookup n es = Some (val_of x)" using s by (simp add: lookup_split) (simp add: lookup_def)
  moreover have "patch 0 (take len (val_of x)) buf = take len (val_of x)" if "\<not> length (val_of x) < len"
    using that assms(3) by (simp add: patch_def)
  moreover have "store len [0] b = None" if "length b = len" for b :: "byte list" using that by (simp add: store_def)
  ultimately show ?thesis using c assms(3) by (auto simp: getenv_r_def env_find_rep[OF assms(1,2)] p)
qed

section \<open>The environment after start-up\<close>

definition default_entries :: "byte list list" where
  "default_entries =
     [bytes (''bootargs='' @ ''console=ttyO2,115200n8 mem=456M@0x80000000 mem=512M@0xA0000000''
        @ '' init=/init vram=10M omapfb.vram=0:4M androidboot.console=ttyO2''),
      bytes ''bootcmd=booti mmc1'', bytes ''recoverycmd=booti mmc1 recovery'', bytes ''bootdelay=1'',
      bytes ''baudrate=115200'', bytes ''bootfile=\"uImage\"'']"

lemma default_entries: "default_environment = entry_bytes default_entries @ [0, 0]"
  by (simp add: default_environment_def default_entries_def del: bytes_Cons)

lemma default_entries_ok: "list_all entry_ok default_entries" "distinct (map key_of default_entries)"
  "length default_environment \<le> ENV_SIZE"
  by (simp_all add: default_entries_def entry_ok_def EQ_def key_of_def default_environment_def ENV_SIZE_def CFG_ENV_SIZE_def)

definition default_block :: "byte list" where
  "default_block = patch 0 default_environment (replicate ENV_SIZE 0)"

lemma default_block_rep: "env_rep default_entries default_block"
proof -
  have "default_block = entry_bytes default_entries @ 0 # 0 # drop (length default_environment) (replicate ENV_SIZE 0)"
    by (simp add: default_block_def patch_def default_entries)
  moreover have "length default_block = ENV_SIZE"
    using default_entries_ok(3) unfolding default_block_def by (subst length_patch) auto
  ultimately show ?thesis using default_entries_ok by (auto simp: env_rep_def)
qed

lemma env_relocate_block:
  assumes "default_env e = default_environment" and "length heap = CFG_ENV_SIZE"
  shows "env_relocate heap (env_init e) = Some (e\<lparr>env_crc := 0, env_data := default_block, env_valid := True\<rparr>)"
proof -
  have "length (drop 4 heap) = ENV_SIZE" using assms(2) by (simp add: ENV_SIZE_def)
  moreover from this have "patch 0 (replicate ENV_SIZE 0) (drop 4 heap) = replicate ENV_SIZE 0" by (simp add: patch_def)
  ultimately show ?thesis
    using assms(1) default_entries_ok(3) by (auto simp: env_relocate_def env_init_def default_block_def)
qed

lemma env_relocate_rep:
  assumes "default_env e = default_environment" and "length heap = CFG_ENV_SIZE"
  shows "\<exists>e'. env_relocate heap (env_init e) = Some e' \<and> env_valid e' \<and> env_rep default_entries (env_arr e')"
  by (simp add: env_relocate_block[OF assms] env_arr_def default_block_rep)

section \<open>The laws of the environment\<close>

text \<open>A console that accepts every device and reports a return key at once.\<close>

definition quiet_io :: "unit env_io" where
  "quiet_io = \<lparr>io_console_assign = (\<lambda>_ _ c. (0, c)), io_serial_setbrg = (\<lambda>_ c. c), io_getc = (\<lambda>c. (13, c)),
     io_ctrlc = (\<lambda>c. (False, c)), io_puts = (\<lambda>_ c. c)\<rparr>"

definition started_env :: env where
  "started_env = \<lparr>env_valid = True, env_crc = 0, env_data = default_block, default_env = default_environment, baudrate = 115200,
     load_addr = 0, bd = \<lparr>bi_enetaddr = [], bi_ip_addr = 0, bi_arch_number = 2967,
       bi_boot_params = 0x80000100, bi_dram = [(0x80000000, 0x40000000)], bi_board_revision = 0\<rparr>\<rparr>"

lemma started_env_rep: "env_rep default_entries (env_arr started_env)"
  by (simp add: started_env_def env_arr_def default_block_rep)

text \<open>
  C12. The environment is a map: after \<^verbatim>\<open>setenv\<close> of a variable (other than the console ones and \<^verbatim>\<open>baudrate\<close>,
  which have effects of their own), \<^verbatim>\<open>getenv\<close> returns the value for it and what it returned before for every other
  name. When the new entry does not fit, the command fails, and the variable is gone: its old value has been deleted
  first.
\<close>

theorem environment_law:
  assumes "env_rep es (env_arr e)" and "plain_name n" and "0 \<notin> set v" and "name_ok m"
  shows "\<exists>e'. do_setenv io [Some cmd, Some n, Some v] e c = Some (if env_fits n v es then 0 else 1, e', c)
    \<and> getenv m e' = (if m = n then Some (if env_fits n v es then Some v else None) else getenv m e)
    \<and> env_rep (del_var n es @ (if env_fits n v es then [n @ EQ # v] else [])) (env_arr e')"
proof -
  obtain e' where e': "do_setenv io [Some cmd, Some n, Some v] e c = Some (if env_fits n v es then 0 else 1, e', c)"
      "env_rep (del_var n es @ (if env_fits n v es then [n @ EQ # v] else [])) (env_arr e')"
    using do_setenv_rep[OF assms(1-3), of io cmd c] by blast
  have n: "EQ \<notin> set n" using assms(2) by (simp add: plain_name_def name_ok_def)
  have "getenv m e' = (if m = n then Some (if env_fits n v es then Some v else None) else getenv m e)"
    unfolding getenv_rep[OF assms(4) e'(2)] getenv_rep[OF assms(4,1)] using n
    by (simp add: lookup_set lookup_del_var)
  then show ?thesis using e' by blast
qed

theorem environment_law_witness:
  "\<exists>e'. do_setenv quiet_io [Some [], Some (bytes ''bootdelay''), Some (bytes ''5'')] started_env () = Some (0, e', ())
    \<and> getenv (bytes ''bootdelay'') e' = Some (Some (bytes ''5''))"
proof -
  have "env_fits (bytes ''bootdelay'') (bytes ''5'') default_entries"
    by (simp add: env_fits_def del_var_def default_entries_def key_of_def EQ_def entry_bytes_def ENV_SIZE_def CFG_ENV_SIZE_def)
  moreover have "plain_name (bytes ''bootdelay'')" "0 \<notin> set (bytes ''5'')" "name_ok (bytes ''bootdelay'')"
    by (simp_all add: plain_name_def name_ok_def EQ_def)
  ultimately show ?thesis
    using environment_law[OF started_env_rep, of "bytes ''bootdelay''" "bytes ''5''" "bytes ''bootdelay''" quiet_io "[]" "()"]
    by (auto simp del: bytes_Cons)
qed

text \<open>
  C37. \<^verbatim>\<open>getenv_r\<close> with a buffer of \<open>len\<close> bytes: a shorter value is copied with its terminator and its
  length with it is returned; a longer one is cut, not terminated, and \<open>len + 1\<close> is returned; a value that fills
  the buffer exactly with its terminator makes the function write one byte behind the buffer; an unknown name gives -1.
\<close>

theorem getenv_r_bounds:
  assumes "name_ok n" and "env_rep es (env_arr e)" and "length buf = len"
  shows "getenv_r n buf len e = (case getenv n e of
      None \<Rightarrow> None
    | Some None \<Rightarrow> Some (-1, buf)
    | Some (Some v) \<Rightarrow> if length v + 1 < len then Some (int (length v + 1), patch 0 (v @ [0]) buf)
        else if length v + 1 = len then None
        else Some (int len + 1, take len v))"
  unfolding getenv_rep[OF assms(1,2)] getenv_r_rep[OF assms] by (simp split: option.split)

theorem getenv_r_bounds_witness:
  "getenv_r (bytes ''bootdelay'') [7, 7, 7] 3 started_env = Some (2, [0x31, 0, 7])
    \<and> getenv_r (bytes ''bootdelay'') [7, 7] 2 started_env = None"
proof -
  have n: "name_ok (bytes ''bootdelay'')" by (simp add: name_ok_def EQ_def)
  have l: "lookup (bytes ''bootdelay'') default_entries = Some [0x31]"
    by (simp add: lookup_def default_entries_def key_of_def val_of_def EQ_def)
  note g = getenv_rep[OF n started_env_rep, unfolded l]
  show ?thesis
    using getenv_r_bounds[OF n started_env_rep, of "[7, 7, 7]" 3] getenv_r_bounds[OF n started_env_rep, of "[7, 7]" 2]
    by (simp add: g patch_def del: bytes_Cons)
qed

lemma lookup_map_of: "lookup n es = map_of (map (\<lambda>x. (key_of x, val_of x)) es) n"
  by (induction es) (auto simp: lookup_def)

definition default_vars :: "(string \<times> string) list" where
  "default_vars =
     [(''bootargs'', ''console=ttyO2,115200n8 mem=456M@0x80000000 mem=512M@0xA0000000 init=/init vram=10M omapfb.vram=0:4M androidboot.console=ttyO2''),
      (''bootcmd'', ''booti mmc1''), (''recoverycmd'', ''booti mmc1 recovery''), (''bootdelay'', ''1''), (''baudrate'', ''115200''),
      (''bootfile'', ''\"uImage\"'')]"

lemma default_entries_vars:
  "map (\<lambda>x. (key_of x, val_of x)) default_entries = map (\<lambda>(k, v). (bytes k, bytes v)) default_vars"
  by (simp add: default_entries_def default_vars_def key_of_def val_of_def EQ_def)

text \<open>
  Start-up: \<^verbatim>\<open>env_init\<close> and \<^verbatim>\<open>env_relocate\<close> load the built-in environment, whatever the heap block
  held; the variables have the values of the configuration and no others exist.
\<close>

lemma environment_loaded:
  assumes "default_env e = default_environment" and "length heap = CFG_ENV_SIZE" and "name_ok n"
  shows "\<exists>e'. env_relocate heap (env_init e) = Some e' \<and> env_rep default_entries (env_arr e')
    \<and> getenv n e' = Some (map_of (map (\<lambda>(k, v). (bytes k, bytes v)) default_vars) n)"
proof -
  obtain e' where e': "env_relocate heap (env_init e) = Some e'" "env_rep default_entries (env_arr e')"
    using env_relocate_rep[OF assms(1,2)] by blast
  then show ?thesis using getenv_rep[OF assms(3) e'(2)]
    by (simp add: lookup_map_of default_entries_vars)
qed

end
