(* ===== verification/Crc32.thy ===== *)
theory Crc32
  imports Prelude
begin

text \<open>
  The CRC-32 of \<^verbatim>\<open>lib_generic/crc32.c\<close>: the constant table, the table generator it was made
  with (\<^verbatim>\<open>make_crc_table\<close>, compiled only with \<^verbatim>\<open>DYNAMIC_CRC_TABLE\<close>) and the byte-wise routine
  with its eightfold unrolled loop, against the bit-wise shift register of the comment
  that documents them. The GPT code of the board uses the routine for the header and
  the entry array.
\<close>

section \<open>The routine\<close>

definition crc_table :: "u32 list" where
  "crc_table =
    [0x00000000, 0x77073096, 0xee0e612c, 0x990951ba, 0x076dc419, 0x706af48f, 0xe963a535, 0x9e6495a3,
     0x0edb8832, 0x79dcb8a4, 0xe0d5e91e, 0x97d2d988, 0x09b64c2b, 0x7eb17cbd, 0xe7b82d07, 0x90bf1d91,
     0x1db71064, 0x6ab020f2, 0xf3b97148, 0x84be41de, 0x1adad47d, 0x6ddde4eb, 0xf4d4b551, 0x83d385c7,
     0x136c9856, 0x646ba8c0, 0xfd62f97a, 0x8a65c9ec, 0x14015c4f, 0x63066cd9, 0xfa0f3d63, 0x8d080df5,
     0x3b6e20c8, 0x4c69105e, 0xd56041e4, 0xa2677172, 0x3c03e4d1, 0x4b04d447, 0xd20d85fd, 0xa50ab56b,
     0x35b5a8fa, 0x42b2986c, 0xdbbbc9d6, 0xacbcf940, 0x32d86ce3, 0x45df5c75, 0xdcd60dcf, 0xabd13d59,
     0x26d930ac, 0x51de003a, 0xc8d75180, 0xbfd06116, 0x21b4f4b5, 0x56b3c423, 0xcfba9599, 0xb8bda50f,
     0x2802b89e, 0x5f058808, 0xc60cd9b2, 0xb10be924, 0x2f6f7c87, 0x58684c11, 0xc1611dab, 0xb6662d3d,
     0x76dc4190, 0x01db7106, 0x98d220bc, 0xefd5102a, 0x71b18589, 0x06b6b51f, 0x9fbfe4a5, 0xe8b8d433,
     0x7807c9a2, 0x0f00f934, 0x9609a88e, 0xe10e9818, 0x7f6a0dbb, 0x086d3d2d, 0x91646c97, 0xe6635c01,
     0x6b6b51f4, 0x1c6c6162, 0x856530d8, 0xf262004e, 0x6c0695ed, 0x1b01a57b, 0x8208f4c1, 0xf50fc457,
     0x65b0d9c6, 0x12b7e950, 0x8bbeb8ea, 0xfcb9887c, 0x62dd1ddf, 0x15da2d49, 0x8cd37cf3, 0xfbd44c65,
     0x4db26158, 0x3ab551ce, 0xa3bc0074, 0xd4bb30e2, 0x4adfa541, 0x3dd895d7, 0xa4d1c46d, 0xd3d6f4fb,
     0x4369e96a, 0x346ed9fc, 0xad678846, 0xda60b8d0, 0x44042d73, 0x33031de5, 0xaa0a4c5f, 0xdd0d7cc9,
     0x5005713c, 0x270241aa, 0xbe0b1010, 0xc90c2086, 0x5768b525, 0x206f85b3, 0xb966d409, 0xce61e49f,
     0x5edef90e, 0x29d9c998, 0xb0d09822, 0xc7d7a8b4, 0x59b33d17, 0x2eb40d81, 0xb7bd5c3b, 0xc0ba6cad,
     0xedb88320, 0x9abfb3b6, 0x03b6e20c, 0x74b1d29a, 0xead54739, 0x9dd277af, 0x04db2615, 0x73dc1683,
     0xe3630b12, 0x94643b84, 0x0d6d6a3e, 0x7a6a5aa8, 0xe40ecf0b, 0x9309ff9d, 0x0a00ae27, 0x7d079eb1,
     0xf00f9344, 0x8708a3d2, 0x1e01f268, 0x6906c2fe, 0xf762575d, 0x806567cb, 0x196c3671, 0x6e6b06e7,
     0xfed41b76, 0x89d32be0, 0x10da7a5a, 0x67dd4acc, 0xf9b9df6f, 0x8ebeeff9, 0x17b7be43, 0x60b08ed5,
     0xd6d6a3e8, 0xa1d1937e, 0x38d8c2c4, 0x4fdff252, 0xd1bb67f1, 0xa6bc5767, 0x3fb506dd, 0x48b2364b,
     0xd80d2bda, 0xaf0a1b4c, 0x36034af6, 0x41047a60, 0xdf60efc3, 0xa867df55, 0x316e8eef, 0x4669be79,
     0xcb61b38c, 0xbc66831a, 0x256fd2a0, 0x5268e236, 0xcc0c7795, 0xbb0b4703, 0x220216b9, 0x5505262f,
     0xc5ba3bbe, 0xb2bd0b28, 0x2bb45a92, 0x5cb36a04, 0xc2d7ffa7, 0xb5d0cf31, 0x2cd99e8b, 0x5bdeae1d,
     0x9b64c2b0, 0xec63f226, 0x756aa39c, 0x026d930a, 0x9c0906a9, 0xeb0e363f, 0x72076785, 0x05005713,
     0x95bf4a82, 0xe2b87a14, 0x7bb12bae, 0x0cb61b38, 0x92d28e9b, 0xe5d5be0d, 0x7cdcefb7, 0x0bdbdf21,
     0x86d3d2d4, 0xf1d4e242, 0x68ddb3f8, 0x1fda836e, 0x81be16cd, 0xf6b9265b, 0x6fb077e1, 0x18b74777,
     0x88085ae6, 0xff0f6a70, 0x66063bca, 0x11010b5c, 0x8f659eff, 0xf862ae69, 0x616bffd3, 0x166ccf45,
     0xa00ae278, 0xd70dd2ee, 0x4e048354, 0x3903b3c2, 0xa7672661, 0xd06016f7, 0x4969474d, 0x3e6e77db,
     0xaed16a4a, 0xd9d65adc, 0x40df0b66, 0x37d83bf0, 0xa9bcae53, 0xdebb9ec5, 0x47b2cf7f, 0x30b5ffe9,
     0xbdbdf21c, 0xcabac28a, 0x53b39330, 0x24b4a3a6, 0xbad03605, 0xcdd70693, 0x54de5729, 0x23d967bf,
     0xb3667a2e, 0xc4614ab8, 0x5d681b02, 0x2a6f2b94, 0xb40bbe37, 0xc30c8ea1, 0x5a05df1b, 0x2d02ef8d]"

definition poly :: u32 where
  "poly = foldl (\<lambda>q n. q OR push_bit (31 - n) 1) 0 [0, 1, 2, 4, 5, 7, 8, 10, 11, 12, 16, 22, 23, 26]"

definition crc_shift :: "u32 \<Rightarrow> u32" where
  "crc_shift c = (if c AND 1 \<noteq> 0 then poly XOR drop_bit 1 c else drop_bit 1 c)"

definition make_crc_table :: "u32 list" where
  "make_crc_table = map (\<lambda>n. (crc_shift ^^ 8) (of_nat n)) [0..<256]"

fun do1 :: "u32 \<times> byte list \<Rightarrow> u32 \<times> byte list" where
  "do1 (crc, b # buf) = (crc_table ! unat ((crc XOR ucast b) AND 0xff) XOR drop_bit 8 crc, buf)"
| "do1 (crc, []) = (crc, [])"

definition do2 :: "u32 \<times> byte list \<Rightarrow> u32 \<times> byte list" where "do2 s = do1 (do1 s)"
definition do4 :: "u32 \<times> byte list \<Rightarrow> u32 \<times> byte list" where "do4 s = do2 (do2 s)"
definition do8 :: "u32 \<times> byte list \<Rightarrow> u32 \<times> byte list" where "do8 s = do4 (do4 s)"

text \<open>The two loops; \<open>len\<close> counts the bytes left, and \<open>buf\<close> holds at least that many.\<close>

fun crc32_tail :: "u32 \<Rightarrow> byte list \<Rightarrow> nat \<Rightarrow> u32" where
  "crc32_tail crc buf 0 = crc"
| "crc32_tail crc buf (Suc len) = (let (crc, buf) = do1 (crc, buf) in crc32_tail crc buf len)"

function crc32_loop :: "u32 \<Rightarrow> byte list \<Rightarrow> nat \<Rightarrow> u32" where
  "crc32_loop crc buf len =
     (if 8 \<le> len then (let (crc, buf) = do8 (crc, buf) in crc32_loop crc buf (len - 8))
      else crc32_tail crc buf len)"
  by pat_completeness auto
termination
  by (relation "measure (\<lambda>(crc, buf, len). len)") auto

declare crc32_loop.simps [simp del]

definition crc32 :: "u32 \<Rightarrow> byte list \<Rightarrow> nat \<Rightarrow> u32" where
  "crc32 crc buf len = crc32_loop (crc XOR 0xffffffff) buf len XOR 0xffffffff"

section \<open>The bit-wise shift register\<close>

text \<open>Each message bit is added to the register's low bit, then the register is multiplied by x.\<close>

definition crc_byte :: "u32 \<Rightarrow> byte \<Rightarrow> u32" where
  "crc_byte crc b = (crc_shift ^^ 8) (crc XOR ucast b)"

definition crc_ref :: "u32 \<Rightarrow> byte list \<Rightarrow> u32" where
  "crc_ref crc buf = NOT (foldl crc_byte (NOT crc) buf)"

lemma poly_eq [simp]: "poly = 0xedb88320"
  by (simp add: poly_def)

lemma funpow8: "(f ^^ 8) x = f (f (f (f (f (f (f (f x)))))))"
  by (simp add: eval_nat_numeral)

lemma crc_basis: "(crc_shift ^^ 8) 1 = 0x77073096" "(crc_shift ^^ 8) 2 = 0xee0e612c"
  "(crc_shift ^^ 8) 4 = 0x076dc419" "(crc_shift ^^ 8) 8 = 0x0edb8832"
  "(crc_shift ^^ 8) 16 = 0x1db71064" "(crc_shift ^^ 8) 32 = 0x3b6e20c8"
  "(crc_shift ^^ 8) 64 = 0x76dc4190" "(crc_shift ^^ 8) 128 = 0xedb88320"
  by (simp_all add: funpow8 crc_shift_def)

lemma and_one_bit: "c AND 1 \<noteq> 0 \<longleftrightarrow> bit (c :: u32) 0"
  unfolding and_one_eq bit_0 by (simp add: mod_2_eq_odd)

lemma crc_shift_xor: "crc_shift (a XOR b) = crc_shift a XOR crc_shift b"
  unfolding crc_shift_def and_one_bit by (rule bit_word_eqI) (auto simp: bit_simps)

lemma crc_shift_funpow_xor: "(crc_shift ^^ k) (a XOR b) = (crc_shift ^^ k) a XOR (crc_shift ^^ k) b"
  by (induction k) (simp_all add: crc_shift_xor)

lemma crc_shift_funpow_high:
  assumes "\<And>i. i < k \<Longrightarrow> \<not> bit c i"
  shows "(crc_shift ^^ k) c = drop_bit k c"
  using assms
proof (induction k)
  case (Suc k)
  then have "(crc_shift ^^ k) c = drop_bit k c" by simp
  moreover have "\<not> bit (drop_bit k c) 0" using Suc.prems[of k] by (simp add: bit_simps)
  ultimately show ?case
    by (simp add: crc_shift_def[of "drop_bit k c"] and_one_bit del: funpow.simps add: funpow.simps(2))
qed simp

lemma of_nat_pow2_xor:
  assumes "n < 2 ^ k"
  shows "(of_nat (2 ^ k + n) :: u32) = of_nat n XOR 2 ^ k"
proof -
  have "(of_nat n :: u32) AND 2 ^ k = 0"
  proof (rule bit_word_eqI)
    fix i assume "i < LENGTH(32)"
    have "\<not> bit n k" using assms by (simp add: bit_iff_odd)
    then show "bit ((of_nat n :: u32) AND 2 ^ k) i = bit (0 :: u32) i"
      by (auto simp: bit_simps)
  qed
  then show ?thesis by (simp add: disjunctive_add_eq_xor add.commute)
qed

lemma crc_table_step:
  "map (\<lambda>n. (crc_shift ^^ 8) (of_nat n)) [0..<2 ^ k]
     @ map (\<lambda>x. x XOR (crc_shift ^^ 8) (2 ^ k)) (map (\<lambda>n. (crc_shift ^^ 8) (of_nat n)) [0..<2 ^ k])
   = map (\<lambda>n. (crc_shift ^^ 8) (of_nat n)) [0..<2 ^ Suc k]"
proof -
  have "[0..<2 ^ Suc k] = [0..<2 ^ k] @ map (\<lambda>i. i + 2 ^ k) [0..<2 ^ k]"
    by (simp add: map_add_upt upt_add_eq_append[symmetric] mult_2)
  moreover have "(crc_shift ^^ 8) (of_nat n) XOR (crc_shift ^^ 8) (2 ^ k)
      = (crc_shift ^^ 8) (of_nat (n + 2 ^ k))" if "n < 2 ^ k" for n
    using of_nat_pow2_xor[OF that] by (metis add.commute crc_shift_funpow_xor)
  ultimately show ?thesis by (simp del: upt_Suc of_nat_add)
qed

lemma crc_table_double: "crc_table = foldl (\<lambda>L t. L @ map (\<lambda>x. x XOR t) L) [0]
   [0x77073096, 0xee0e612c, 0x076dc419, 0x0edb8832, 0x1db71064, 0x3b6e20c8, 0x76dc4190, 0xedb88320]"
  by (simp add: crc_table_def)

lemma crc_table_make: "crc_table = make_crc_table"
proof -
  have z: "[0] = map (\<lambda>n. (crc_shift ^^ 8) (of_nat n)) [0..<2 ^ 0]"
    by (simp add: funpow8 crc_shift_def)
  note st = crc_table_step[of 0] crc_table_step[of 1] crc_table_step[of 2] crc_table_step[of 3]
    crc_table_step[of 4] crc_table_step[of 5] crc_table_step[of 6] crc_table_step[of 7]
  show ?thesis
    unfolding crc_table_double make_crc_table_def
    unfolding z foldl.simps crc_basis[symmetric]
    using st by (simp del: map_map upt_Suc)
qed

lemma crc_table_nth: "n < 256 \<Longrightarrow> crc_table ! n = (crc_shift ^^ 8) (of_nat n)"
  by (simp add: crc_table_make make_crc_table_def)

lemma do1_byte: "do1 (crc, b # buf) = (crc_byte crc b, buf)"
proof -
  define x where "x = crc XOR (ucast b :: u32)"
  define M where "M = (0xff :: u32)"
  have lt: "unat (x AND M) < 256"
    using word_and_le1[of x M] by (simp add: word_le_nat_alt M_def)
  have lo: "crc_table ! unat (x AND M) = (crc_shift ^^ 8) (x AND M)"
    using crc_table_nth[OF lt] by simp
  have m: "bit M i \<longleftrightarrow> i < 8" for i
  proof -
    have e: "M = mask 8" by (simp add: mask_eq_exp_minus_1 M_def)
    show ?thesis unfolding e bit_mask_iff by auto
  qed
  have "(crc_shift ^^ 8) (x AND NOT M) = drop_bit 8 (x AND NOT M)"
    by (rule crc_shift_funpow_high) (auto simp: bit_and_iff bit_not_iff m)
  also have "\<dots> = drop_bit 8 crc"
    by (rule bit_word_eqI) (auto simp: x_def bit_drop_bit_eq bit_and_iff bit_not_iff m bit_xor_iff bit_unsigned_iff dest: bit_imp_le_length)
  finally have hi: "(crc_shift ^^ 8) (x AND NOT M) = drop_bit 8 crc" .
  have "x = (x AND M) XOR (x AND NOT M)"
    by (rule bit_word_eqI) (auto simp: bit_and_iff bit_not_iff bit_xor_iff)
  then have "(crc_shift ^^ 8) x = (crc_shift ^^ 8) (x AND M) XOR (crc_shift ^^ 8) (x AND NOT M)"
    by (metis crc_shift_funpow_xor)
  then show ?thesis by (simp add: crc_byte_def x_def[symmetric] M_def[symmetric] lo hi)
qed

lemma crc32_tail_foldl: "len \<le> length buf \<Longrightarrow> crc32_tail crc buf len = foldl crc_byte crc (take len buf)"
proof (induction len arbitrary: crc buf)
  case (Suc len)
  then obtain b bs where "buf = b # bs" by (cases buf) auto
  with Suc show ?case by (simp add: do1_byte del: do1.simps)
qed simp

lemma do8_foldl:
  assumes "8 \<le> length buf"
  shows "do8 (crc, buf) = (foldl crc_byte crc (take 8 buf), drop 8 buf)"
proof -
  have two: "do2 (c, x # y # r) = (foldl crc_byte c [x, y], r)" for c x y r
    by (simp add: do2_def do1_byte del: do1.simps)
  obtain a b c d e f g h r where "buf = a # b # c # d # e # f # g # h # r"
    using assms by (metis (no_types) Suc_le_length_iff eval_nat_numeral(2,3) semiring_norm(26,27,28) numeral_eq_Suc pred_numeral_simps)
  then show ?thesis by (simp add: do8_def do4_def two)
qed

lemma crc32_loop_foldl: "len \<le> length buf \<Longrightarrow> crc32_loop crc buf len = foldl crc_byte crc (take len buf)"
proof (induction crc buf len rule: crc32_loop.induct)
  case (1 crc buf len)
  show ?case
  proof (cases "8 \<le> len")
    case True
    then have "take len buf = take 8 buf @ take (len - 8) (drop 8 buf)"
      using take_add[of 8 "len - 8" buf] by simp
    with 1 True show ?thesis
      by (subst crc32_loop.simps) (simp add: do8_foldl)
  next
    case False
    with 1 show ?thesis by (subst crc32_loop.simps) (simp add: crc32_tail_foldl)
  qed
qed

lemma xor_ones: "x XOR 0xffffffff = NOT (x :: u32)"
proof -
  have e: "(0xffffffff :: u32) = - 1" by simp
  show ?thesis unfolding e by (rule bit.xor_one_right)
qed

lemma crc32_ref: "len \<le> length buf \<Longrightarrow> crc32 crc buf len = crc_ref crc (take len buf)"
  by (simp add: crc32_def crc_ref_def crc32_loop_foldl xor_ones)

lemma crc_ref_append: "crc_ref (crc_ref crc xs) ys = crc_ref crc (xs @ ys)"
  by (simp add: crc_ref_def)

end
