(* ===== verification/Gpt.thy ===== *)
theory Gpt
  imports BlockDev Crc32 Ptn
begin

text \<open>
  The GUID partition table of the eMMC, \<^verbatim>\<open>board/bowser/mmc.c\<close> with \<^verbatim>\<open>include/flash_part.h\<close>.

  \<^verbatim>\<open>struct ptable\<close> is the byte list of its 17408 bytes: the MBR, the block of the header, and 128
  entries of 128 bytes; fields are read and written at their offsets. \<open>gpt\<close> holds the static
  variables of the file (\<^verbatim>\<open>the_ptable\<close> and the two buffers of \<^verbatim>\<open>load_ptbl\<close>) and the fastboot
  partition table.

  \<^verbatim>\<open>load_ptbl\<close> and \<^verbatim>\<open>do_format\<close> call each other: a disk without a table is formatted, and a
  formatted disk is loaded again. The recursion is \<open>load_ptbl\<close>, a partial function.
\<close>

record gpt =
  the_ptable :: "byte list"
  gp_data :: "byte list"
  gp_entry :: "byte list"
  gp_ptn :: ptab

definition EFI_ENTRIES :: nat where "EFI_ENTRIES = 128"
definition EFI_NAMELEN :: nat where "EFI_NAMELEN = 36"
definition PTABLE_SIZE :: nat where "PTABLE_SIZE = 17408"

definition partition_type :: "byte list" where
  "partition_type = [0xa2, 0xa0, 0xd0, 0xeb, 0xe5, 0xb9, 0x33, 0x44,
     0x87, 0xc0, 0x68, 0xb6, 0xb7, 0x26, 0x99, 0xc7]"

definition random_uuid :: "byte list" where
  "random_uuid = [0xff, 0x1f, 0xf2, 0xf9, 0xd4, 0xa8, 0x0e, 0x5f,
     0x97, 0x46, 0x59, 0x48, 0x69, 0xae, 0xc3, 0x4e]"

section \<open>Building a table\<close>

definition init_mbr :: "byte list \<Rightarrow> u32 \<Rightarrow> byte list" where
  "init_mbr mbr blocks =
     (let mbr = patch 0x1be [0x00, 0xFF, 0xFF, 0xFF] mbr;
          mbr = patch 0x1c2 [0xEE, 0xFF, 0xFF, 0xFF] mbr;
          mbr = patch 0x1c6 [0x01, 0x00, 0x00, 0x00] mbr;
          mbr = patch 0x1ca (le32 blocks) mbr
      in patch 0x1fe [0x55, 0xaa] mbr)"

text \<open>Offsets of the header's fields in the table.\<close>

definition H_LAST_LBA :: nat where "H_LAST_LBA = 512 + 48"

definition start_ptbl :: "u32 \<Rightarrow> byte list" where
  "start_ptbl blocks =
     (let pt = init_mbr (replicate PTABLE_SIZE 0) (blocks - 1);
          pt = patch 512 (bytes ''EFI PART'') pt;
          pt = patch (512 + 8) (le32 0x00010000) pt;
          pt = patch (512 + 12) (le32 92) pt;
          pt = patch (512 + 24) (le64 1) pt;
          pt = patch (512 + 32) (le64 (ucast (blocks - 1))) pt;
          pt = patch (512 + 40) (le64 34) pt;
          pt = patch H_LAST_LBA (le64 (ucast (blocks - 1))) pt;
          pt = patch (512 + 56) random_uuid pt;
          pt = patch (512 + 72) (le64 2) pt;
          pt = patch (512 + 80) (le32 128) pt
      in patch (512 + 84) (le32 128) pt)"

definition end_ptbl :: "byte list \<Rightarrow> byte list" where
  "end_ptbl pt =
     (let n = crc32 0 [] 0;
          n = crc32 n (bslice 1024 16384 pt) 16384;
          pt = patch (512 + 88) (le32 n) pt;
          n = crc32 0 (bslice 512 92 pt) 92
      in patch (512 + 16) (le32 n) pt)"

text \<open>The search for a free entry, and the entry that is filled in.\<close>

definition e_last_lba :: "nat \<Rightarrow> byte list \<Rightarrow> u64" where
  "e_last_lba n pt = of_le (bslice (1024 + 128 * n + 40) 8 pt)"

fun put_name :: "nat \<Rightarrow> nat \<Rightarrow> byte list \<Rightarrow> byte list \<Rightarrow> byte list" where
  "put_name off n [] pt = pt"
| "put_name off n (c # name) pt =
     (if n < EFI_NAMELEN \<and> c \<noteq> 0 then put_name off (n + 1) name (patch (off + 2 * n) (le16 (ucast c)) pt) else pt)"

definition fill_entry :: "nat \<Rightarrow> u64 \<Rightarrow> u64 \<Rightarrow> byte list \<Rightarrow> byte list \<Rightarrow> byte list" where
  "fill_entry n fst_lba lst_lba name pt =
     (let e = 1024 + 128 * n;
          pt = patch e partition_type pt;
          pt = patch (e + 16) random_uuid pt;
          pt = patch (e + 16) [of_nat n] pt;
          pt = patch (e + 32) (le64 fst_lba) pt;
          pt = patch (e + 40) (le64 lst_lba) pt
      in put_name (e + 56) 0 name pt)"

fun free_entry :: "nat \<Rightarrow> nat \<Rightarrow> byte list \<Rightarrow> nat option" where
  "free_entry 0 n pt = None"
| "free_entry (Suc k) n pt = (if e_last_lba n pt \<noteq> 0 then free_entry k (n + 1) pt else Some n)"

definition add_ptn :: "byte list \<Rightarrow> u64 \<Rightarrow> u64 \<Rightarrow> byte list \<Rightarrow> int \<times> byte list" where
  "add_ptn pt fst_lba lst_lba name =
     (if fst_lba < 34 then (-1, pt)
      else if lst_lba > of_le (bslice H_LAST_LBA 8 pt) then (-1, pt)
      else case free_entry EFI_ENTRIES 0 pt of
        Some n \<Rightarrow> (0, fill_entry n fst_lba lst_lba name pt)
      | None \<Rightarrow> (-1, pt))"

section \<open>Reading a table\<close>

definition import_efi_partition :: "ptab \<Rightarrow> byte list \<Rightarrow> ptab" where
  "import_efi_partition t entry =
     (if memcmp_s (bslice 0 16 entry) partition_type \<noteq> 0 then t
      else let first_lba = of_le (bslice 32 8 entry) :: u64;
               last_lba = of_le (bslice 40 8 entry) :: u64;
               name = map (\<lambda>n. ucast (of_le (bslice (56 + 2 * n) 2 entry) :: u16)) [0..<15] @ [0];
               flags = (if strcmp_s (cstr_of name) (bytes ''environment'') = 0 then FLAGS_WRITE_ENV else 0)
           in fastboot_flash_add_ptn t \<lparr>pt_name = name, pt_start = ucast first_lba,
                pt_length = (last_lba - first_lba + 1) * 512, pt_flags = flags\<rparr>)"

definition import_sector :: "ptab \<Rightarrow> byte list \<Rightarrow> ptab" where
  "import_sector t b = foldl import_efi_partition t (map (\<lambda>m. bslice (128 * m) 128 b) [0..<4])"

text \<open>The loop over the sectors: \<^verbatim>\<open>1 + n\<close> is read, for \<open>n\<close> below 32.\<close>

fun load_loop :: "'s blk_ops \<Rightarrow> nat \<Rightarrow> nat \<Rightarrow> gpt \<Rightarrow> 's \<Rightarrow> (int \<times> gpt \<times> 's) option" where
  "load_loop dev 0 n g s = Some (0, g, s)"
| "load_loop dev (Suc k) n g s = do {
     (r, b, s) \<leftarrow> op_read dev s 1 (1 + of_nat n) (gp_entry g) 0 512;
     let g = g\<lparr>gp_entry := b\<rparr>;
     if r \<noteq> 1 then Some (1, g, s)
     else load_loop dev k (n + 1) (g\<lparr>gp_ptn := import_sector (gp_ptn g) b\<rparr>) s }"

section \<open>Formatting\<close>

definition partitions :: "(string \<times> u32) list" where
  "partitions = [(''-'', 128), (''xloader'', 128), (''bootloader'', 256), (''idme'', 64), (''crypto'', 16),
     (''misc'', 2), (''-'', 430), (''dkernel'', 10 * 1024), (''dfs'', 192 * 1024), (''efs'', 16 * 1024),
     (''recovery'', 8 * 1024), (''boot'', 8 * 1024), (''system'', 886 * 1024), (''cache'', 650 * 1024),
     (''userdata'', 0)]"

fun format_loop :: "u32 \<Rightarrow> (string \<times> u32) list \<Rightarrow> u32 \<Rightarrow> byte list \<Rightarrow> int \<times> byte list" where
  "format_loop blocks [] next pt = (0, pt)"
| "format_loop blocks ((name, size_kb) # ps) next pt =
     (let sz = size_kb * 2 in
      if strcmp_s (bytes name) (bytes ''-'') = 0 then format_loop blocks ps (next + sz) pt
      else let sz = (if sz = 0 then blocks - next else sz);
               (r, pt) = add_ptn pt (ucast next) (ucast (next + sz - 1)) (bytes name)
           in if r \<noteq> 0 then (-1, pt) else format_loop blocks ps (next + sz) pt)"

text \<open>\<^verbatim>\<open>do_format\<close> up to the call of \<^verbatim>\<open>load_ptbl\<close>: \<open>Inl\<close> is a return.\<close>

definition format_write :: "'s blk_ops \<Rightarrow> gpt \<Rightarrow> 's \<Rightarrow> (int option \<times> gpt \<times> 's) option" where
  "format_write dev g s = do {
     (r, s) \<leftarrow> op_init dev s 1;
     if r \<noteq> 0 then Some (Some (-1), g, s) else do {
     let (sector_sz, blocks) = op_info dev s 1;
     let (r, pt) = format_loop blocks partitions 0 (start_ptbl blocks);
     if r \<noteq> 0 then Some (Some (-1), g\<lparr>the_ptable := pt\<rparr>, s) else do {
     let pt = end_ptbl pt;
     let g = g\<lparr>the_ptable := pt, gp_ptn := fastboot_flash_reset_ptn (gp_ptn g)\<rparr>;
     (r, s) \<leftarrow> op_write dev s 1 pt 0 0 (of_nat PTABLE_SIZE);
     if r \<noteq> 1 then Some (Some (-1), g, s) else Some (None, g, s) } } }"

partial_function (option) load_ptbl :: "'s blk_ops \<Rightarrow> gpt \<Rightarrow> 's \<Rightarrow> (int \<times> gpt \<times> 's) option" where
  "load_ptbl dev g s = do {
     (r, b, s) \<leftarrow> op_read dev s 1 1 (gp_data g) 0 512;
     let g = g\<lparr>gp_data := b\<rparr>;
     if r \<noteq> 1 then Some (-1, g, s)
     else if memcmp_s (bslice 0 8 b) (bytes ''EFI PART'') \<noteq> 0 then do {
       (ret, g, s) \<leftarrow> format_write dev g s;
       case ret of
         Some _ \<Rightarrow> Some (-1, g, s)
       | None \<Rightarrow> do { (_, g, s) \<leftarrow> load_ptbl dev g s; Some (-1, g, s) } }
     else load_loop dev 32 0 g s }"

definition do_format :: "'s blk_ops \<Rightarrow> gpt \<Rightarrow> 's \<Rightarrow> (int \<times> gpt \<times> 's) option" where
  "do_format dev g s = do {
     (ret, g, s) \<leftarrow> format_write dev g s;
     case ret of
       Some r \<Rightarrow> Some (r, g, s)
     | None \<Rightarrow> do { (_, g, s) \<leftarrow> load_ptbl dev g s; Some (0, g, s) } }"

definition fastboot_oem :: "'s blk_ops \<Rightarrow> byte list \<Rightarrow> gpt \<Rightarrow> 's \<Rightarrow> (int \<times> gpt \<times> 's) option" where
  "fastboot_oem dev cmd g s =
     (if strcmp_s cmd (bytes ''format'') = 0 then do_format dev g s else Some (-1, g, s))"

section \<open>The layout of a table\<close>

lemma patch_end: "off = length a \<Longrightarrow> length xs \<le> k \<Longrightarrow> patch off xs (a @ replicate k z) = a @ xs @ replicate (k - length xs) z"
  by (simp add: patch_def)

lemma patch_in: "length a \<le> off \<Longrightarrow> off + length xs \<le> length a + length b
    \<Longrightarrow> patch off xs (a @ b @ c) = a @ patch (off - length a) xs b @ c"
  by (simp add: patch_def)

definition mbr_bytes :: "u32 \<Rightarrow> byte list" where
  "mbr_bytes n = replicate 446 0 @ [0x00, 0xFF, 0xFF, 0xFF] @ [0xEE, 0xFF, 0xFF, 0xFF] @ [0x01, 0x00, 0x00, 0x00]
     @ le32 n @ replicate 48 0 @ [0x55, 0xaa]"

definition header_bytes :: "u32 \<Rightarrow> u32 \<Rightarrow> u32 \<Rightarrow> byte list" where
  "header_bytes crc n ecrc = bytes ''EFI PART'' @ le32 0x00010000 @ le32 92 @ le32 crc @ replicate 4 0 @ le64 1
     @ le64 (ucast n) @ le64 34 @ le64 (ucast n) @ random_uuid @ le64 2 @ le32 128 @ le32 128 @ le32 ecrc
     @ replicate 420 0"

lemma le32_0: "le32 0 = replicate 4 0"
  by code_simp

lemma mbr_len [simp]: "length (mbr_bytes n) = 512"
  by (simp add: mbr_bytes_def)

lemma header_len [simp]: "length (header_bytes c n e) = 512"
  by (simp add: header_bytes_def random_uuid_def)

lemma rep_split: "i \<le> k \<Longrightarrow> replicate k z = replicate i z @ replicate (k - i) z"
  by (simp flip: replicate_add)

lemma patch_gap:
  "length a \<le> off \<Longrightarrow> off + length xs \<le> length a + k
    \<Longrightarrow> patch off xs (a @ replicate k z)
      = (a @ replicate (off - length a) z @ xs) @ replicate (length a + k - off - length xs) z"
  by (auto simp: patch_def min_def add.commute)

lemma init_mbr_bytes:
  assumes "512 \<le> k" shows "init_mbr (replicate k 0) n = mbr_bytes n @ replicate (k - 512) 0"
proof -
  have "init_mbr ([] @ replicate k 0) n = mbr_bytes n @ replicate (k - 512) 0"
    using assms unfolding init_mbr_def Let_def
    by (simp add: patch_gap del: append_assoc append_Nil) (simp add: mbr_bytes_def)
  then show ?thesis by simp
qed

lemma start_ptbl_bytes:
  "start_ptbl blocks = mbr_bytes (blocks - 1) @ header_bytes 0 (blocks - 1) 0 @ replicate 16384 0"
proof -
  have u: "length random_uuid = 16" by (simp add: random_uuid_def)
  have "start_ptbl blocks = (let pt = mbr_bytes (blocks - 1) @ replicate 16896 0;
          pt = patch 512 (bytes ''EFI PART'') pt;
          pt = patch (512 + 8) (le32 0x00010000) pt;
          pt = patch (512 + 12) (le32 92) pt;
          pt = patch (512 + 24) (le64 1) pt;
          pt = patch (512 + 32) (le64 (ucast (blocks - 1))) pt;
          pt = patch (512 + 40) (le64 34) pt;
          pt = patch (512 + 48) (le64 (ucast (blocks - 1))) pt;
          pt = patch (512 + 56) random_uuid pt;
          pt = patch (512 + 72) (le64 2) pt;
          pt = patch (512 + 80) (le32 128) pt
      in patch (512 + 84) (le32 128) pt)"
    unfolding start_ptbl_def by (simp only: init_mbr_bytes PTABLE_SIZE_def H_LAST_LBA_def) simp
  also have "\<dots> = mbr_bytes (blocks - 1) @ header_bytes 0 (blocks - 1) 0 @ replicate 16384 0"
    unfolding Let_def
    by (simp add: patch_gap u del: append_assoc) (simp add: header_bytes_def le32_0 flip: replicate_add)
  finally show ?thesis .
qed

lemma patch_header:
  "length a = 512 \<Longrightarrow> patch (512 + 16) (le32 c) (a @ header_bytes c' n e @ r) = a @ header_bytes c n e @ r"
  "length a = 512 \<Longrightarrow> patch (512 + 88) (le32 e) (a @ header_bytes c n e' @ r) = a @ header_bytes c n e @ r"
  by (simp_all add: patch_def header_bytes_def random_uuid_def)

definition table :: "u32 \<Rightarrow> byte list \<Rightarrow> byte list" where
  "table n ents = (let e = crc32 0 ents 16384 in
     mbr_bytes n @ header_bytes (crc32 0 (bslice 0 92 (header_bytes 0 n e)) 92) n e @ ents)"

lemma end_ptbl_bytes:
  assumes "length ents = 16384"
  shows "end_ptbl (mbr_bytes n @ header_bytes 0 n 0 @ ents) = table n ents"
proof -
  have z: "crc32 0 [] 0 = 0" by code_simp
  have "bslice 1024 16384 (mbr_bytes n @ header_bytes 0 n 0 @ ents) = ents" using assms by (simp add: bslice_def)
  moreover have "bslice 512 92 (mbr_bytes n @ header_bytes 0 n e @ ents) = bslice 0 92 (header_bytes 0 n e)" for e
    by (simp add: bslice_def)
  ultimately show ?thesis
    by (simp only: end_ptbl_def table_def Let_def z patch_header mbr_len)
qed
section \<open>Entries\<close>

type_synonym efi_ent = "u64 \<times> u64 \<times> byte list"

definition enc_entry :: "nat \<Rightarrow> efi_ent \<Rightarrow> byte list" where
  "enc_entry n = (\<lambda>(f, l, name). partition_type @ (of_nat n # tl random_uuid) @ le64 f @ le64 l @ replicate 8 0
     @ concat (map (\<lambda>c. le16 (ucast c)) name) @ replicate (72 - 2 * length name) 0)"

definition ent_ok :: "efi_ent \<Rightarrow> bool" where
  "ent_ok = (\<lambda>(f, l, name). l \<noteq> 0 \<and> 0 \<notin> set name \<and> length name \<le> EFI_NAMELEN)"

definition enc_entries :: "efi_ent list \<Rightarrow> byte list" where
  "enc_entries es = concat (map (\<lambda>(n, e). enc_entry n e) (enumerate 0 es))"

definition area :: "efi_ent list \<Rightarrow> byte list" where
  "area es = enc_entries es @ replicate (128 * (128 - length es)) 0"

lemma length_le16s: "length (concat (map (\<lambda>c. le16 (g c)) name)) = 2 * length name"
  by (induction name) simp_all

lemma uuid_len [simp]: "length partition_type = 16" "length random_uuid = 16"
  by (simp_all add: partition_type_def random_uuid_def)

lemma length_enc_entry [simp]: "ent_ok e \<Longrightarrow> length (enc_entry n e) = 128"
  by (auto simp: enc_entry_def ent_ok_def EFI_NAMELEN_def length_le16s)

lemma enc_entries_simps [simp]: "enc_entries [] = []"
  "enc_entries (es @ [e]) = enc_entries es @ enc_entry (length es) e"
  by (simp_all add: enc_entries_def enumerate_append_eq)

lemma length_enc_entries [simp]: "list_all ent_ok es \<Longrightarrow> length (enc_entries es) = 128 * length es"
  by (induction es rule: rev_induct) simp_all

lemma length_area [simp]: "list_all ent_ok es \<Longrightarrow> length es \<le> 128 \<Longrightarrow> length (area es) = 16384"
  by (simp add: area_def)

lemma area_entry:
  assumes "list_all ent_ok es" and "i < length es"
  shows "bslice (128 * i) 128 (enc_entries es @ r) = enc_entry i (es ! i)"
  using assms
proof (induction es arbitrary: r rule: rev_induct)
  case (snoc e es)
  show ?case
  proof (cases "i < length es")
    case True
    then show ?thesis using snoc by (simp add: nth_append)
  next
    case False
    then have "i = length es" using snoc.prems(2) by simp
    then show ?thesis using snoc.prems(1) by (simp add: bslice_def)
  qed
qed simp

lemma area_zero:
  assumes "list_all ent_ok es" and "length es \<le> i" and "i < 128"
  shows "bslice (128 * i) 128 (area es) = replicate 128 0"
proof -
  obtain k where k: "i = length es + k" using assms(2) by (auto simp: le_iff_add)
  show ?thesis using assms by (simp add: area_def bslice_def k min_def)
qed

lemma put_name_patch:
  assumes "0 \<notin> set name" and "n + length name \<le> EFI_NAMELEN" and "off + 72 \<le> length pt"
  shows "put_name off n name pt = patch (off + 2 * n) (concat (map (\<lambda>c. le16 (ucast c)) name)) pt"
  using assms
proof (induction name arbitrary: n pt)
  case Nil
  then show ?case by (simp add: patch_def EFI_NAMELEN_def)
next
  case (Cons c name)
  then have "off + 2 * n + length (le16 (ucast c)) + length (concat (map (\<lambda>c. le16 (ucast c)) name)) \<le> length pt"
    unfolding length_le16s by (simp add: EFI_NAMELEN_def)
  from patch_append[OF this] show ?case using Cons by (simp add: EFI_NAMELEN_def)
qed

lemma fill_entry_area:
  assumes "length h = 1024" and "list_all ent_ok es" and "length es < 128" and "ent_ok (f, l, name)"
  shows "fill_entry (length es) f l name (h @ area es) = h @ area (es @ [(f, l, name)])"
proof -
  define a K where "a = h @ enc_entries es" and "K = 128 * (128 - length es)"
  have la: "length a = 1024 + 128 * length es" using assms(1,2) by (simp add: a_def)
  have K: "128 \<le> K" using assms(3) by (simp add: K_def)
  have nm: "0 \<notin> set name" "length name \<le> 36" using assms(4) by (simp_all add: ent_ok_def EFI_NAMELEN_def)
  let ?nm = "concat (map (\<lambda>c. le16 (ucast c)) name)"
  have ln: "length ?nm = 2 * length name" by (rule length_le16s)
  have u: "patch (length x) [b] (x @ random_uuid @ r) = x @ (b # tl random_uuid) @ r" for x b r
    by (simp add: patch_def random_uuid_def)
  define x where "x = a @ partition_type"
  have lx: "length x = 1024 + 128 * length es + 16" by (simp add: x_def la)
  define y where "y = (x @ (of_nat (length es) # tl random_uuid) @ le64 f @ le64 l)"
  have ly: "length y = 1024 + 128 * length es + 48" by (simp add: y_def lx)
  have "fill_entry (length es) f l name (h @ area es) = put_name (1024 + 128 * length es + 56) 0 name (y @ replicate (K - 48) 0)"
  proof -
    have "patch (1024 + 128 * length es) partition_type (h @ area es) = x @ replicate (K - 16) 0"
      using patch_gap[of a "1024 + 128 * length es" partition_type K 0] K la by (simp add: x_def a_def area_def K_def)
    moreover have "patch (1024 + 128 * length es + 16) random_uuid (x @ replicate (K - 16) 0) = x @ random_uuid @ replicate (K - 32) 0"
      using patch_gap[of x "1024 + 128 * length es + 16" random_uuid "K - 16" 0] K lx by simp
    moreover note u[of x "of_nat (length es)" "replicate (K - 32) 0", unfolded lx]
    moreover have "patch (1024 + 128 * length es + 32) (le64 f) (x @ (of_nat (length es) # tl random_uuid) @ replicate (K - 32) 0)
        = x @ (of_nat (length es) # tl random_uuid) @ le64 f @ replicate (K - 40) 0"
      using patch_gap[of "x @ (of_nat (length es) # tl random_uuid)" "1024 + 128 * length es + 32" "le64 f" "K - 32" 0] K lx by simp
    moreover have "patch (1024 + 128 * length es + 40) (le64 l) (x @ (of_nat (length es) # tl random_uuid) @ le64 f @ replicate (K - 40) 0)
        = y @ replicate (K - 48) 0"
      using patch_gap[of "x @ (of_nat (length es) # tl random_uuid) @ le64 f" "1024 + 128 * length es + 40" "le64 l" "K - 40" 0] K lx
      by (simp add: y_def)
    ultimately show ?thesis by (simp only: fill_entry_def Let_def)
  qed
  also have "\<dots> = patch (1024 + 128 * length es + 56) ?nm (y @ replicate (K - 48) 0)"
    using put_name_patch[of name 0 "1024 + 128 * length es + 56" "y @ replicate (K - 48) 0"] nm K ly by (simp add: EFI_NAMELEN_def)
  also have "\<dots> = (y @ replicate 8 0 @ ?nm) @ replicate (K - 56 - 2 * length name) 0"
    using patch_gap[of y "1024 + 128 * length es + 56" ?nm "K - 48" 0] nm(2) K ly ln by simp
  also have "\<dots> = h @ area (es @ [(f, l, name)])"
  proof -
    have "K - 56 - 2 * length name = (72 - 2 * length name) + 128 * (128 - Suc (length es))"
      using nm(2) assms(3) by (simp add: K_def)
    then show ?thesis by (simp add: y_def x_def a_def area_def enc_entry_def replicate_add)
  qed
  finally show ?thesis .
qed

lemma last_lba_area:
  assumes "length h = 1024" and "list_all ent_ok es" and "i < 128"
  shows "e_last_lba i (h @ area es) = (if i < length es then fst (snd (es ! i)) else 0)"
proof -
  have "bslice (1024 + 128 * i + 40) 8 (h @ area es) = bslice 40 8 (bslice (128 * i) 128 (area es))"
    using assms(1) bslice_sub[of 40 8 128 "128 * i" "area es"] by (simp add: bslice_append2 add.commute)
  moreover have "of_le (bslice 40 8 (enc_entry i (f, l, name))) = l" for f l name
    by (simp add: enc_entry_def bslice_def)
  moreover have "of_le (replicate 8 0) = (0 :: u64)" by code_simp
  ultimately show ?thesis using assms area_zero[OF assms(2), of i] area_entry[OF assms(2), of i "replicate (128 * (128 - length es)) 0"]
    by (cases "es ! i") (auto simp: e_last_lba_def bslice_replicate area_def)
qed

lemma free_entry_area:
  assumes "length h = 1024" and "list_all ent_ok es" and "n \<le> length es" and "length es < n + k" and "n + k \<le> 128"
  shows "free_entry k n (h @ area es) = Some (length es)"
  using assms(3-5)
proof (induction k arbitrary: n)
  case (Suc k)
  have "ent_ok (es ! n)" if "n < length es" using that assms(2) by (simp add: list_all_length)
  then show ?case
    using Suc last_lba_area[OF assms(1,2), of n] by (cases "n < length es") (auto simp: ent_ok_def split: prod.splits)
qed simp

lemma add_ptn_ok:
  assumes es: "list_all ent_ok es" "length es < 128" and e: "ent_ok (f, l, name)" and r: "34 \<le> f" "l \<le> ucast n"
  shows "add_ptn (mbr_bytes n @ header_bytes 0 n 0 @ area es) f l name
    = (0, mbr_bytes n @ header_bytes 0 n 0 @ area (es @ [(f, l, name)]))"
proof -
  let ?h = "mbr_bytes n @ header_bytes 0 n 0"
  have h: "length ?h = 1024" by simp
  have "bslice H_LAST_LBA 8 (mbr_bytes n @ header_bytes 0 n 0 @ area es) = le64 (ucast n)"
    by (simp add: H_LAST_LBA_def bslice_append2) (simp add: header_bytes_def random_uuid_def bslice_def)
  then show ?thesis
    using free_entry_area[OF h es(1), of 0 128] es(2) fill_entry_area[OF h es e] r
    by (simp add: add_ptn_def EFI_ENTRIES_def not_less)
qed
section \<open>Reading a table back\<close>

definition to_pt :: "efi_ent \<Rightarrow> fastboot_ptentry" where
  "to_pt = (\<lambda>(f, l, name). let nm = take 15 (name @ replicate 15 0) @ [0] in
     \<lparr>pt_name = nm, pt_start = ucast f, pt_length = (l - f + 1) * 512,
      pt_flags = if cstr_of nm = bytes ''environment'' then FLAGS_WRITE_ENV else 0\<rparr>)"

lemma cstr_to_pt:
  assumes "0 \<notin> set name" and "length name \<le> 15"
  shows "cstr_of (pt_name (to_pt (f, l, name))) = name"
proof -
  have "take 15 (name @ replicate 15 0) @ [0] = name @ replicate (16 - length name) 0"
    using assms(2) by (simp add: Suc_diff_le replicate_append_same flip: replicate_Suc)
  moreover obtain k where "16 - length name = Suc k" using assms(2) by (cases "16 - length name") auto
  ultimately have "take 15 (name @ replicate 15 0) @ [0] = name @ 0 # replicate k 0" by simp
  then show ?thesis using cstr_of_term[OF assms(1), of "replicate k 0"] by (simp add: to_pt_def Let_def)
qed

lemma memcmp_neq: "a \<noteq> b \<Longrightarrow> memcmp_s (a # as) (b # bs) \<noteq> 0"
  by (auto simp: word_uint_eq_iff)

lemma import_skip:
  assumes "entry \<noteq> []" and "hd entry \<noteq> 0xa2"
  shows "import_efi_partition t entry = t"
proof -
  obtain b bs where "entry = b # bs" using assms(1) by (cases entry) auto
  then have e: "bslice 0 16 entry = b # take 15 bs" "b \<noteq> 0xa2" using assms(2) by (simp_all add: bslice_def)
  have "memcmp_s (bslice 0 16 entry) partition_type \<noteq> 0"
    unfolding partition_type_def e(1) using e(2) by (rule memcmp_neq)
  then show ?thesis by (simp add: import_efi_partition_def)
qed

lemma name_chars:
  assumes "2 * n + 2 \<le> 2 * length name + k"
  shows "(of_le (bslice (2 * n) 2 (concat (map (\<lambda>c. le16 (ucast (c :: byte))) name) @ replicate k 0)) :: u16)
    = (if n < length name then ucast (name ! n) else 0)"
  using assms
proof (induction name arbitrary: n)
  case Nil
  have "of_le [0, 0] = (0 :: u16)" by code_simp
  then show ?case using Nil by (simp add: bslice_replicate numeral_2_eq_2)
next
  case (Cons c name)
  show ?case
  proof (cases n)
    case 0
    then show ?thesis by (simp add: bslice_def)
  next
    case (Suc m)
    have "bslice (2 * n) 2 (concat (map (\<lambda>c. le16 (ucast c)) (c # name)) @ replicate k 0)
      = bslice (2 * m) 2 (concat (map (\<lambda>c. le16 (ucast c)) name) @ replicate k 0)"
      unfolding Suc by (simp add: bslice_append2)
    then show ?thesis using Cons Suc by simp
  qed
qed

lemma enc_fields:
  assumes "ent_ok (f, l, name)"
  shows "bslice 0 16 (enc_entry n (f, l, name)) = partition_type"
    and "of_le (bslice 32 8 (enc_entry n (f, l, name))) = f" and "of_le (bslice 40 8 (enc_entry n (f, l, name))) = l"
    and "map (\<lambda>i. ucast (of_le (bslice (56 + 2 * i) 2 (enc_entry n (f, l, name))) :: u16)) [0..<15] = take 15 (name @ replicate 15 0)"
proof -
  show "bslice 0 16 (enc_entry n (f, l, name)) = partition_type"
    "of_le (bslice 32 8 (enc_entry n (f, l, name))) = f" "of_le (bslice 40 8 (enc_entry n (f, l, name))) = l"
    by (simp_all add: enc_entry_def bslice_def)
  have len: "length name \<le> 36" using assms by (simp add: ent_ok_def EFI_NAMELEN_def)
  have uu: "ucast (ucast x :: u16) = x" for x :: byte by (rule bit_word_eqI) (simp add: bit_simps)
  have c: "ucast (of_le (bslice (56 + 2 * i) 2 (enc_entry n (f, l, name))) :: u16)
      = (if i < length name then name ! i else 0)" if "i < 15" for i
  proof -
    have "bslice (56 + 2 * i) 2 (enc_entry n (f, l, name))
      = bslice (2 * i) 2 (concat (map (\<lambda>c. le16 (ucast c)) name) @ replicate (72 - 2 * length name) 0)"
    proof -
      let ?p = "partition_type @ (of_nat n # tl random_uuid) @ le64 f @ le64 l @ replicate 8 0"
      have "enc_entry n (f, l, name) = ?p @ concat (map (\<lambda>c. le16 (ucast c)) name) @ replicate (72 - 2 * length name) 0"
        by (simp add: enc_entry_def)
      moreover have "length ?p = 56" by simp
      ultimately show ?thesis by (simp only: bslice_append2) simp
    qed
    then show ?thesis using name_chars[of i name "72 - 2 * length name"] that len by (simp add: uu)
  qed
  show "map (\<lambda>i. ucast (of_le (bslice (56 + 2 * i) 2 (enc_entry n (f, l, name))) :: u16)) [0..<15] = take 15 (name @ replicate 15 0)"
    by (rule nth_equalityI) (auto simp: c nth_append)
qed

lemma memcmp_same [simp]: "memcmp_s a a = 0"
  by (induction a) simp_all

lemma import_enc:
  assumes "ent_ok e"
  shows "import_efi_partition t (enc_entry n e) = fastboot_flash_add_ptn t (to_pt e)"
proof -
  obtain f l name where e: "e = (f, l, name)" by (cases e)
  have z: "strcmp_s (cstr_of x) (bytes ''environment'') = 0 \<longleftrightarrow> cstr_of x = bytes ''environment''" for x
    by (rule strcmp_s_zero) simp_all
  show ?thesis
    unfolding e import_efi_partition_def to_pt_def Let_def prod.case enc_fields[OF assms[unfolded e]] z by simp
qed

lemma import_zero: "import_efi_partition t (replicate 128 0) = t"
  by (rule import_skip) (simp_all add: hd_replicate)

lemma import_header: "import_sector t (header_bytes c n e) = t"
proof -
  have "map (\<lambda>m. bslice (128 * m) 128 (header_bytes c n e)) [0..<4]
      = [take 128 (header_bytes c n e), replicate 128 0, replicate 128 0, replicate 128 0]"
    by (simp add: upt_rec[of _ 4]) (simp add: header_bytes_def bslice_def random_uuid_def)
  moreover have "import_efi_partition t (take 128 (header_bytes c n e)) = t"
    by (rule import_skip) (simp_all add: header_bytes_def)
  ultimately show ?thesis by (simp add: import_sector_def import_zero)
qed

lemma import_entries:
  assumes "list_all ent_ok es" and "m \<le> 128"
  shows "foldl import_efi_partition t (map (\<lambda>i. bslice (128 * i) 128 (area es)) [0..<m])
    = foldl fastboot_flash_add_ptn t (map to_pt (take m es))"
  using assms(2)
proof (induction m)
  case (Suc m)
  show ?case
  proof (cases "m < length es")
    case True
    then have "ent_ok (es ! m)" using assms(1) by (simp add: list_all_length)
    then show ?thesis using Suc True area_entry[OF assms(1) True]
      by (simp add: area_def take_Suc_conv_app_nth import_enc)
  next
    case False
    then show ?thesis using Suc area_zero[OF assms(1), of m] by (simp add: import_zero)
  qed
qed simp
lemma import_area:
  assumes "list_all ent_ok es" and "j < 32"
  shows "import_sector t (bslice (512 * j) 512 (area es))
    = foldl import_efi_partition t (map (\<lambda>i. bslice (128 * i) 128 (area es)) [4 * j..<4 * j + 4])"
proof -
  have "bslice (128 * m) 128 (bslice (512 * j) 512 (area es)) = bslice (128 * (m + 4 * j)) 128 (area es)" if "m < 4" for m
    using bslice_sub[of "128 * m" 128 512 "512 * j" "area es"] that by (simp add: distrib_left add.commute)
  moreover have "[4 * j..<4 * j + 4] = map (\<lambda>m. m + 4 * j) [0..<4]"
    unfolding map_add_upt by (simp only: add.commute)
  moreover from calculation(1) have "map (\<lambda>m. bslice (128 * m) 128 (bslice (512 * j) 512 (area es))) [0..<4]
      = map (\<lambda>m. bslice (128 * (m + 4 * j)) 128 (area es)) [0..<4]"
    by (intro map_cong refl) simp
  ultimately show ?thesis by (simp only: import_sector_def map_map comp_def)
qed

lemma import_areas:
  assumes "list_all ent_ok es" and "k \<le> 32"
  shows "foldl import_sector t (map (\<lambda>j. bslice (512 * j) 512 (area es)) [0..<k])
    = foldl fastboot_flash_add_ptn t (map to_pt (take (4 * k) es))"
proof -
  have "foldl import_sector t (map (\<lambda>j. bslice (512 * j) 512 (area es)) [0..<k])
      = foldl import_efi_partition t (map (\<lambda>i. bslice (128 * i) 128 (area es)) [0..<4 * k])"
    using assms(2)
  proof (induction k)
    case (Suc k)
    have "[0..<4 * Suc k] = [0..<4 * k] @ [4 * k..<4 * k + 4]" using upt_add_eq_append[of 0 "4 * k" 4] by (simp add: add.commute)
    then show ?case using Suc import_area[OF assms(1), of k] by (simp del: upt_Suc add: upt_Suc_append)
  qed simp
  then show ?thesis using import_entries[OF assms(1), of "4 * k"] assms(2) by simp
qed

context block_device
begin

lemma load_loop_ok:
  assumes "inv s" and "length (gp_entry g) = 512" and "1 + n + k \<le> cap"
  shows "\<exists>b s'. load_loop dev k n g s = Some (0, g\<lparr>gp_entry := b,
      gp_ptn := foldl import_sector (gp_ptn g) (map (\<lambda>i. sect s (part s) (1 + i)) [n..<n + k])\<rparr>, s')
    \<and> length b = 512 \<and> inv s' \<and> part s' = part s \<and> sect s' = sect s"
  using assms
proof (induction k arbitrary: n g s)
  case 0
  then show ?case by (intro exI[of _ "gp_entry g"] exI[of _ s]) simp
next
  case (Suc k)
  have u: "unat (1 + of_nat n :: u32) = 1 + n"
    using Suc.prems(3) cap_bound unat_of_nat32[of "Suc n"] by simp
  obtain s1 where s1: "op_read dev s 1 (1 + of_nat n) (gp_entry g) 0 512 = Some (1, sect s (part s) (1 + n), s1)"
      "inv s1" "part s1 = part s" "sect s1 = sect s"
    using read_block[OF Suc.prems(1), of "1 + of_nat n" "gp_entry g"] Suc.prems(2,3) unfolding u by auto
  let ?b = "sect s (part s) (1 + n)"
  let ?g = "g\<lparr>gp_entry := ?b, gp_ptn := import_sector (gp_ptn g) ?b\<rparr>"
  have "length ?b = 512" using sect_length inv_pre Suc.prems(1) by blast
  then obtain b s' where "load_loop dev k (n + 1) ?g s1 = Some (0, ?g\<lparr>gp_entry := b,
      gp_ptn := foldl import_sector (gp_ptn ?g) (map (\<lambda>i. sect s1 (part s1) (1 + i)) [n + 1..<n + 1 + k])\<rparr>, s')"
     "length b = 512" "inv s'" "part s' = part s1" "sect s' = sect s1"
    using Suc.IH[OF s1(2), of ?g "n + 1"] Suc.prems(3) by auto
  moreover have "[n..<n + Suc k] = n # [n + 1..<n + 1 + k]" by (simp add: upt_conv_Cons del: upt_Suc)
  ultimately show ?case using s1 by (intro exI[of _ b] exI[of _ s']) simp
qed

lemma load_table:
  assumes s: "inv s" and g: "length (gp_entry g) = 512" "length (gp_data g) = 512" and es: "list_all ent_ok es" "length es \<le> 128"
    and disk: "\<And>i. i < 34 \<Longrightarrow> sect s (part s) i = bslice (512 * i) 512 (table n (area es))" and room: "34 \<le> cap"
  shows "\<exists>g' s'. load_ptbl dev g s = Some (0, g', s') \<and> inv s' \<and> part s' = part s \<and> sect s' = sect s
    \<and> the_ptable g' = the_ptable g \<and> gp_ptn g' = foldl fastboot_flash_add_ptn (gp_ptn g) (map to_pt (take 124 es))"
proof -
  obtain c e where tb: "table n (area es) = mbr_bytes n @ header_bytes c n e @ area es" by (auto simp: table_def Let_def)
  have hs: "sect s (part s) 1 = header_bytes c n e" using disk[of 1] by (simp add: tb bslice_def)
  have as: "sect s (part s) (2 + j) = bslice (512 * j) 512 (area es)" if "j < 32" for j
    using disk[of "2 + j"] that by (simp add: tb bslice_append2)
  obtain s1 where s1: "op_read dev s 1 1 (gp_data g) 0 512 = Some (1, header_bytes c n e, s1)"
      "inv s1" "part s1 = part s" "sect s1 = sect s"
    using read_block[OF s, of 1 "gp_data g"] g(2) room hs by auto
  have magic: "memcmp_s (bslice 0 8 (header_bytes c n e)) (bytes ''EFI PART'') = 0"
    by (simp add: header_bytes_def bslice_def)
  let ?g = "g\<lparr>gp_data := header_bytes c n e\<rparr>"
  obtain b s2 where s2: "load_loop dev 32 0 ?g s1 = Some (0, ?g\<lparr>gp_entry := b,
      gp_ptn := foldl import_sector (gp_ptn ?g) (map (\<lambda>i. sect s1 (part s1) (1 + i)) [0..<0 + 32])\<rparr>, s2)"
     "inv s2" "part s2 = part s1" "sect s2 = sect s1"
    using load_loop_ok[OF s1(2), of ?g 0 32] g(1) room by auto
  have "map (\<lambda>i. sect s1 (part s1) (1 + i)) [0..<0 + 32]
      = header_bytes c n e # map (\<lambda>j. bslice (512 * j) 512 (area es)) [0..<31]"
  proof -
    have "[0..<32] = 0 # map Suc [0..<31]" by (simp add: map_Suc_upt upt_conv_Cons)
    then show ?thesis using hs as by (simp add: s1 comp_def)
  qed
  then have "load_ptbl dev g s = Some (0, ?g\<lparr>gp_entry := b,
      gp_ptn := foldl fastboot_flash_add_ptn (gp_ptn g) (map to_pt (take 124 es))\<rparr>, s2)"
    using s1(1) s2(1) magic import_areas[OF es(1), of 31 "gp_ptn g"]
    by (subst load_ptbl.simps) (simp add: import_header)
  then show ?thesis using s1 s2 by simp
qed

end

section \<open>The table \<^verbatim>\<open>do_format\<close> writes\<close>

fun lay :: "u32 \<Rightarrow> (string \<times> u32) list \<Rightarrow> u32 \<Rightarrow> efi_ent list" where
  "lay blocks [] nxt = []"
| "lay blocks ((name, kb) # ps) nxt =
     (if bytes name = bytes ''-'' then lay blocks ps (nxt + kb * 2)
      else let sz = (if kb * 2 = 0 then blocks - nxt else kb * 2)
           in (ucast nxt, ucast (nxt + sz - 1), bytes name) # lay blocks ps (nxt + sz))"

lemma format_loop_lay:
  assumes "list_all ent_ok es" and "length es + length (lay blocks ps nxt) \<le> 128"
    and "list_all ent_ok (lay blocks ps nxt)" and "list_all (\<lambda>(name, _). 0 \<notin> set (bytes name)) ps"
    and "list_all (\<lambda>(f, l, _). 34 \<le> f \<and> l \<le> ucast n) (lay blocks ps nxt)"
  shows "format_loop blocks ps nxt (mbr_bytes n @ header_bytes 0 n 0 @ area es)
    = (0, mbr_bytes n @ header_bytes 0 n 0 @ area (es @ lay blocks ps nxt))"
  using assms
proof (induction ps arbitrary: nxt es)
  case (Cons p ps)
  obtain name kb where p: "p = (name, kb)" by (cases p)
  have z: "strcmp_s (bytes name) (bytes ''-'') = 0 \<longleftrightarrow> bytes name = bytes ''-''"
    using Cons.prems(4) p by (intro strcmp_s_zero) simp_all
  show ?case
  proof (cases "bytes name = bytes ''-''")
    case True
    then show ?thesis using Cons z unfolding p by simp
  next
    case False
    define sz where "sz = (if kb * 2 = 0 then blocks - nxt else kb * 2)"
    let ?e = "(ucast nxt, ucast (nxt + sz - 1), bytes name) :: efi_ent"
    have l: "lay blocks (p # ps) nxt = ?e # lay blocks ps (nxt + sz)"
      using False by (simp add: p sz_def Let_def)
    have "add_ptn (mbr_bytes n @ header_bytes 0 n 0 @ area es) (ucast nxt) (ucast (nxt + sz - 1)) (bytes name)
        = (0, mbr_bytes n @ header_bytes 0 n 0 @ area (es @ [?e]))"
      by (rule add_ptn_ok) (use Cons.prems in \<open>simp_all add: l\<close>)
    then have "format_loop blocks (p # ps) nxt (mbr_bytes n @ header_bytes 0 n 0 @ area es)
        = format_loop blocks ps (nxt + sz) (mbr_bytes n @ header_bytes 0 n 0 @ area (es @ [?e]))"
      using False z by (simp only: p format_loop.simps Let_def sz_def[symmetric]) simp
    then show ?thesis using Cons.IH[of "es @ [?e]" "nxt + sz"] Cons.prems unfolding l by simp
  qed
qed simp

definition layout :: "u32 \<Rightarrow> efi_ent list" where
  "layout blocks = lay blocks partitions 0"

lemma layout_list:
  "layout blocks =
     [(256, 511, bytes ''xloader''), (512, 1023, bytes ''bootloader''), (1024, 1151, bytes ''idme''),
      (1152, 1183, bytes ''crypto''), (1184, 1187, bytes ''misc''), (2048, 22527, bytes ''dkernel''),
      (22528, 415743, bytes ''dfs''), (415744, 448511, bytes ''efs''), (448512, 464895, bytes ''recovery''),
      (464896, 481279, bytes ''boot''), (481280, 2295807, bytes ''system''),
      (2295808, 3627007, bytes ''cache''), (3627008, ucast (blocks - 1), bytes ''userdata'')]"
  by (simp add: layout_def partitions_def bytes_def Let_def)

lemma user_start:
  fixes blocks :: u32
  assumes "3627008 < unat blocks"
  shows "3627008 \<le> (ucast (blocks - 1) :: u64)"
proof -
  have "unat (ucast (blocks - 1) :: u64) = unat (blocks - 1)"
    using order_less_trans[OF unsigned_less[of "blocks - 1", where 'a = nat], of "2 ^ 64"]
    by (simp add: unsigned_ucast_eq take_bit_nat_eq_self)
  also have "\<dots> = unat blocks - 1" using assms by (subst unat_sub) (simp_all add: word_le_nat_alt)
  finally show ?thesis using assms by (simp add: word_le_nat_alt)
qed

lemma layout_ok:
  assumes "3627008 < unat blocks"
  shows "list_all ent_ok (layout blocks)" and "list_all (\<lambda>(f, l, _). 34 \<le> f \<and> l \<le> ucast (blocks - 1)) (layout blocks)"
proof -
  note us = user_start[OF assms]
  have "x \<le> (ucast (blocks - 1) :: u64)" if "x \<le> 3627008" for x
    by (rule order_trans[OF that us])
  moreover have "(ucast (blocks - 1) :: u64) \<noteq> 0" using us by auto
  ultimately show "list_all ent_ok (layout blocks)"
     "list_all (\<lambda>(f, l, _). 34 \<le> f \<and> l \<le> ucast (blocks - 1)) (layout blocks)"
    by (simp_all add: layout_list ent_ok_def bytes_def EFI_NAMELEN_def)
qed

lemma length_layout [simp]: "length (layout blocks) = 13"
  by (simp add: layout_list)

lemma format_table:
  assumes "3627008 < unat blocks"
  shows "format_loop blocks partitions 0 (start_ptbl blocks)
    = (0, mbr_bytes (blocks - 1) @ header_bytes 0 (blocks - 1) 0 @ area (layout blocks))"
proof -
  have a: "area [] = replicate 16384 0" by (simp add: area_def)
  show ?thesis
    using format_loop_lay[of "[]" blocks partitions 0 "blocks - 1"] layout_ok[OF assms]
    unfolding a layout_def[symmetric] start_ptbl_bytes by (simp add: partitions_def bytes_def)
qed

lemma length_table [simp]: "length ents = 16384 \<Longrightarrow> length (table n ents) = 17408"
  by (simp add: table_def Let_def)

context block_device
begin

lemma format_write_ok:
  assumes s: "pre s" "plain_mbr (sect s 0 0)" and cap: "3627008 < cap"
  defines "tb \<equiv> table (of_nat cap - 1) (area (layout (of_nat cap)))"
  shows "\<exists>s'. format_write dev g s = Some (None, g\<lparr>the_ptable := tb, gp_ptn := fastboot_flash_reset_ptn (gp_ptn g)\<rparr>, s')
    \<and> inv s' \<and> part s' = 0 \<and> sect s' = (sect s)(0 := upd_sectors (sect s 0) 0 tb)"
proof -
  have u: "unat (of_nat cap :: u32) = cap" using cap_bound by (intro unat_of_nat32) simp
  have l: "length (area (layout (of_nat cap))) = 16384" using layout_ok[of "of_nat cap"] cap u by simp
  obtain s1 where s1: "op_init dev s 1 = Some (0, s1)" "inv s1" "part s1 = 0" "sect s1 = sect s"
    using init_ok[OF s] by blast
  have e: "end_ptbl (mbr_bytes (of_nat cap - 1) @ header_bytes 0 (of_nat cap - 1) 0 @ area (layout (of_nat cap))) = tb"
    unfolding tb_def by (rule end_ptbl_bytes[OF l])
  have "length tb = 17408" using l by (simp add: tb_def)
  then obtain s2 where s2: "op_write dev s1 1 tb 0 0 (of_nat PTABLE_SIZE) = Some (1, s2)" "inv s2" "part s2 = part s1"
     "sect s2 = (sect s1)(part s1 := upd_sectors (sect s1 (part s1)) 0 tb)"
    using write_multi[OF s1(2), of "of_nat PTABLE_SIZE" 34 0 0 tb] cap by (auto simp: PTABLE_SIZE_def bslice_def)
  have "format_write dev g s = Some (None, g\<lparr>the_ptable := tb, gp_ptn := fastboot_flash_reset_ptn (gp_ptn g)\<rparr>, s2)"
    using s1(1) info_ok[OF s1(2)] format_table[of "of_nat cap"] cap u s2(1) unfolding format_write_def
    by (simp add: e)
  then show ?thesis using s1 s2 by auto
qed

theorem format_ok:
  assumes s: "pre s" "plain_mbr (sect s 0 0)" and cap: "3627008 < cap"
    and g: "length (gp_entry g) = 512" "length (gp_data g) = 512" "ptab_inv (gp_ptn g)"
  defines "tb \<equiv> table (of_nat cap - 1) (area (layout (of_nat cap)))"
  shows "\<exists>g' s'. do_format dev g s = Some (0, g', s') \<and> inv s' \<and> part s' = 0
    \<and> sect s' = (sect s)(0 := upd_sectors (sect s 0) 0 tb)
    \<and> ptab_inv (gp_ptn g') \<and> ptab_entries (gp_ptn g') = map to_pt (layout (of_nat cap))"
proof -
  have u: "unat (of_nat cap :: u32) = cap" using cap_bound by (intro unat_of_nat32) simp
  note lo = layout_ok[of "of_nat cap", unfolded u, OF cap]
  obtain s1 where s1: "format_write dev g s = Some (None, g\<lparr>the_ptable := tb, gp_ptn := fastboot_flash_reset_ptn (gp_ptn g)\<rparr>, s1)"
    "inv s1" "part s1 = 0" "sect s1 = (sect s)(0 := upd_sectors (sect s 0) 0 tb)"
    using format_write_ok[OF s cap] unfolding tb_def by blast
  have d: "sect s1 (part s1) i = bslice (512 * i) 512 tb" if "i < 34" for i
    using that lo by (simp add: s1 upd_sectors_def tb_def)
  let ?g = "g\<lparr>the_ptable := tb, gp_ptn := fastboot_flash_reset_ptn (gp_ptn g)\<rparr>"
  obtain g' s' where r: "load_ptbl dev ?g s1 = Some (0, g', s')" "inv s'" "part s' = part s1" "sect s' = sect s1"
    "gp_ptn g' = foldl fastboot_flash_add_ptn (fastboot_flash_reset_ptn (gp_ptn g)) (map to_pt (layout (of_nat cap)))"
    using load_table[OF s1(2), of ?g "layout (of_nat cap)" "of_nat cap - 1"] d g lo(1) cap unfolding tb_def
    by auto
  have "do_format dev g s = Some (0, g', s')" by (simp add: do_format_def s1(1) r(1))
  moreover have "ptab_inv (gp_ptn g')" unfolding r(5) by (intro ptab.adds_inv ptab.reset_inv g(3))
  moreover have "ptab_entries (gp_ptn g') = map to_pt (layout (of_nat cap))"
    unfolding r(5) ptab.adds_entries[OF ptab.reset_inv[OF g(3)]] ptab.reset_entries[OF g(3)] by simp
  ultimately show ?thesis using r(2-4) s1 by auto
qed

end


lemma layout_disjoint:
  assumes "3627008 < unat blocks"
  shows "sorted_wrt (\<lambda>(f, l, _) (f', l', _). l < f') (layout blocks)"
    and "list_all (\<lambda>(f, l, _). f \<le> l) (layout blocks)"
    and "distinct (map (\<lambda>(f, l, nm). nm) (layout blocks))"
proof -
  have "list_all (\<lambda>(f, l, _). 34 \<le> f \<and> l \<le> ucast (blocks - 1)) (layout blocks)" by (rule layout_ok(2)[OF assms])
  have "3627008 \<le> (ucast (blocks - 1) :: u64)" by (rule user_start[OF assms])
  then show "sorted_wrt (\<lambda>(f, l, _) (f', l', _). l < f') (layout blocks)"
     "list_all (\<lambda>(f, l, _). f \<le> l) (layout blocks)" by (simp_all add: layout_list)
  show "distinct (map (\<lambda>(f, l, nm). nm) (layout blocks))" by (simp add: layout_list bytes_def)
qed

text \<open>The sectors of a registered partition.\<close>

definition pt_end :: "fastboot_ptentry \<Rightarrow> nat" where
  "pt_end p = unat (pt_start p) + unat (pt_length p) div 512"

lemma to_pt_range:
  assumes "f \<le> l" and "unat l < 2 ^ 32"
  shows "unat (pt_start (to_pt (f, l, nm))) = unat f" and "unat (pt_length (to_pt (f, l, nm))) = 512 * (unat l + 1 - unat f)"
    and "pt_end (to_pt (f, l, nm)) = unat l + 1"
proof -
  have fl: "unat f \<le> unat l" using assms(1) by (simp add: word_le_nat_alt)
  show s: "unat (pt_start (to_pt (f, l, nm))) = unat f"
    using fl assms(2) by (simp add: to_pt_def Let_def unsigned_ucast_eq take_bit_nat_eq_self)
  have "unat (l - f) = unat l - unat f" using assms(1) by (rule unat_sub)
  moreover have "unat (l - f + 1) = unat (l - f) + 1"
    using assms(2) \<open>unat (l - f) = unat l - unat f\<close> by (subst unat_add_lem[THEN iffD1]) auto
  ultimately have u: "unat (l - f + 1) = unat l + 1 - unat f" using fl by simp
  have "unat ((l - f + 1) * 512) = unat (l - f + 1) * 512"
    using assms(2) u by (subst unat_mult_lem[THEN iffD1]) auto
  then show n: "unat (pt_length (to_pt (f, l, nm))) = 512 * (unat l + 1 - unat f)"
    using u by (simp add: to_pt_def Let_def)
  show "pt_end (to_pt (f, l, nm)) = unat l + 1" using s n fl by (simp add: pt_end_def)
qed

lemma layout_names: "list_all (\<lambda>(f, l, nm). 0 \<notin> set nm \<and> length nm \<le> 15) (layout blocks)"
  by (simp add: layout_list bytes_def)

text \<open>The partitions of the layout, as fastboot sees them.\<close>

lemma layout_partitions:
  assumes cap: "3627008 < cap" "cap < 2 ^ 31"
  defines "ps \<equiv> map to_pt (layout (of_nat cap))"
  shows "sorted_wrt (\<lambda>p q. pt_end p \<le> unat (pt_start q)) ps"
    and "list_all (\<lambda>p. 34 \<le> unat (pt_start p) \<and> 512 \<le> unat (pt_length p) \<and> pt_end p \<le> cap) ps"
    and "distinct (map (\<lambda>p. cstr_of (pt_name p)) ps)"
proof -
  have u: "unat (of_nat cap :: u32) = cap" using cap(2) by (intro unat_of_nat32) simp
  have last: "unat (ucast (of_nat cap - 1 :: u32) :: u64) = cap - 1"
  proof -
    have "unat (of_nat cap - 1 :: u32) = cap - 1" using cap u by (subst unat_sub) (simp_all add: word_le_nat_alt)
    then show ?thesis using cap by (simp add: unsigned_ucast_eq take_bit_nat_eq_self)
  qed
  note D = layout_disjoint[of "of_nat cap", unfolded u, OF cap(1)]
  have e: "f \<le> l \<and> 34 \<le> unat f \<and> unat l < cap \<and> unat l < 2 ^ 32 \<and> 0 \<notin> set nm \<and> length nm \<le> 15" if "(f, l, nm) \<in> set (layout (of_nat cap))" for f l nm
  proof -
    have "34 \<le> f" "l \<le> ucast (of_nat cap - 1 :: u32)" "f \<le> l" "0 \<notin> set nm \<and> length nm \<le> 15"
      using that layout_ok(2)[of "of_nat cap", unfolded u, OF cap(1)] D(2) layout_names[of "of_nat cap"] by (auto simp: list_all_iff)
    then show ?thesis using last cap by (auto simp: word_le_nat_alt)
  qed
  show "list_all (\<lambda>p. 34 \<le> unat (pt_start p) \<and> 512 \<le> unat (pt_length p) \<and> pt_end p \<le> cap) ps"
  proof -
    have "34 \<le> unat (pt_start (to_pt (f, l, nm))) \<and> 512 \<le> unat (pt_length (to_pt (f, l, nm))) \<and> pt_end (to_pt (f, l, nm)) \<le> cap"
      if "(f, l, nm) \<in> set (layout (of_nat cap))" for f l nm
      using e[OF that] to_pt_range[of f l nm] by (auto simp: word_le_nat_alt Suc_diff_le)
    then show ?thesis unfolding ps_def by (fastforce simp: list_all_iff)
  qed
  show "sorted_wrt (\<lambda>p q. pt_end p \<le> unat (pt_start q)) ps"
    unfolding ps_def sorted_wrt_map
  proof (rule sorted_wrt_mono_rel[OF _ D(1)])
    fix x y :: efi_ent
    assume x: "x \<in> set (layout (of_nat cap))" and y: "y \<in> set (layout (of_nat cap))" and lt: "(case x of (f, l, _) \<Rightarrow> \<lambda>(f', l', _). l < f') y"
    obtain f l nm f' l' nm' where xy: "x = (f, l, nm)" "y = (f', l', nm')" by (cases x, cases y) blast
    show "pt_end (to_pt x) \<le> unat (pt_start (to_pt y))"
      using e[OF x[unfolded xy]] e[OF y[unfolded xy]] lt to_pt_range[of f l nm] to_pt_range[of f' l' nm'] unfolding xy by (simp add: word_less_nat_alt)
  qed
  have "map (\<lambda>p. cstr_of (pt_name p)) ps = map (\<lambda>(f, l, nm). nm) (layout (of_nat cap))"
    unfolding ps_def map_map using e cstr_to_pt by (intro map_cong) auto
  then show "distinct (map (\<lambda>p. cstr_of (pt_name p)) ps)" using D(3) by simp
qed

lemma plain_mbr_table: "plain_mbr (bslice 0 512 (table n ents))"
proof -
  have "bslice 0 512 (table n ents) = mbr_bytes n" by (simp add: table_def Let_def bslice_def)
  then show ?thesis
    by (simp add: plain_mbr_def dos_entries_def bslice_def mbr_bytes_def is_extended_def sys_ind_def DOS_PART_TBL_OFFSET_def
        upt_conv_Cons nth_append)
qed

context block_device
begin

theorem load_unformatted:
  assumes s: "inv s" "part s = 0" "plain_mbr (sect s 0 0)" and cap: "3627008 < cap"
    and g: "length (gp_entry g) = 512" "length (gp_data g) = 512" "ptab_inv (gp_ptn g)"
    and none: "take 8 (sect s 0 1) \<noteq> bytes ''EFI PART''"
  shows "\<exists>g' s'. load_ptbl dev g s = Some (-1, g', s') \<and> inv s' \<and> part s' = 0
    \<and> sect s' = (sect s)(0 := upd_sectors (sect s 0) 0 (table (of_nat cap - 1) (area (layout (of_nat cap)))))
    \<and> ptab_inv (gp_ptn g') \<and> ptab_entries (gp_ptn g') = map to_pt (layout (of_nat cap))"
proof -
  obtain s1 where s1: "op_read dev s 1 1 (gp_data g) 0 512 = Some (1, sect s 0 1, s1)"
      "inv s1" "part s1 = part s" "sect s1 = sect s"
    using read_block[OF s(1), of 1 "gp_data g"] g(2) s(2) cap by auto
  have l: "length (sect s 0 1) = 512" by (rule sect_length[OF inv_pre[OF s(1)]])
  have z: "memcmp_s (bslice 0 8 (sect s 0 1)) (bytes ''EFI PART'') \<noteq> 0"
    using none l by (subst memcmp_s_zero) (simp_all add: bslice_def bytes_def)
  let ?g = "g\<lparr>gp_data := sect s 0 1\<rparr>"
  obtain g' s' where r: "do_format dev ?g s1 = Some (0, g', s')" "inv s'" "part s' = 0"
    "sect s' = (sect s1)(0 := upd_sectors (sect s1 0) 0 (table (of_nat cap - 1) (area (layout (of_nat cap)))))"
    "ptab_inv (gp_ptn g')" "ptab_entries (gp_ptn g') = map to_pt (layout (of_nat cap))"
    using format_ok[of s1 ?g] inv_pre[OF s1(2)] s1(4) s(3) cap g l by auto
  have "load_ptbl dev g s = Some (-1, g', s')"
    using r(1) s1(1) z by (subst load_ptbl.simps) (auto simp: do_format_def split: option.splits bind_splits prod.splits)
  then show ?thesis using r s1 by auto
qed

end

end
