(* ===== verification/Sparse.thy ===== *)
theory Sparse
  imports BlockDev
begin

text \<open>
  The writer for Android sparse images, \<^verbatim>\<open>cpu/omap4/sparse.c\<close>. An image arrives in sections of any
  size; \<^verbatim>\<open>state\<close> keeps what is needed to go on in the middle of a chunk header or of a
  sector.

  A section is the part of the download buffer \<open>src\<close> from an offset on; \<open>n\<close> is \<^verbatim>\<open>*section_size\<close>, a 64 bit
  number that only ever decreases. The 32 bit sizes of a chunk are words: their products and
  differences wrap. \<open>wrt\<close> is the \<^verbatim>\<open>WRITE\<close> argument; its result is ignored, as it is in the code.

  The specification is \<open>expand\<close>: what a list of chunks does to the sectors. The main lemma,
  \<open>unsparse_sections\<close> in \<open>block_device\<close>, says that an image fed in sections has the effect of
  its chunk list, however it is cut, if no section but the last is shorter than a sector.
\<close>

record sparse_state =
  remaining_chunks :: u32
  chunk_offset :: u32
  sp_sector :: u32
  last_header :: "byte list"
  block_size :: u32
  slot_no :: nat
  sp_data :: "byte list"

definition SPARSE_HEADER_MAGIC :: u32 where "SPARSE_HEADER_MAGIC = 0xed26ff3a"
definition CHUNK_TYPE_RAW :: u16 where "CHUNK_TYPE_RAW = 0xCAC1"
definition CHUNK_TYPE_DONT_CARE :: u16 where "CHUNK_TYPE_DONT_CARE = 0xCAC3"

definition u16_at :: "nat \<Rightarrow> byte list \<Rightarrow> u16" where "u16_at off b = of_le (bslice off 2 b)"
definition u32_at :: "nat \<Rightarrow> byte list \<Rightarrow> u32" where "u32_at off b = of_le (bslice off 4 b)"

text \<open>Fields of the chunk header.\<close>

definition chunk_type :: "byte list \<Rightarrow> u16" where "chunk_type h = u16_at 0 h"
definition chunk_sz :: "byte list \<Rightarrow> u32" where "chunk_sz h = u32_at 4 h"
definition total_sz :: "byte list \<Rightarrow> u32" where "total_sz h = u32_at 8 h"

type_synonym 's writer = "'s \<Rightarrow> nat \<Rightarrow> byte list \<Rightarrow> nat \<Rightarrow> u32 \<Rightarrow> u32 \<Rightarrow> (int \<times> 's) option"

definition unsparse_read_header ::
  "byte list \<Rightarrow> nat \<Rightarrow> nat \<Rightarrow> sparse_state \<Rightarrow> (int \<times> nat \<times> nat \<times> sparse_state) option" where
  "unsparse_read_header src off n st =
     (if 28 > n then Some (1, off, n, st)
      else do {
        header \<leftarrow> load off 28 src;
        if u32_at 0 header \<noteq> SPARSE_HEADER_MAGIC then Some (1, off, n, st)
        else if u16_at 4 header \<noteq> 1 \<or> u16_at 8 header \<noteq> 28 \<or> u16_at 10 header \<noteq> 12 then Some (1, off, n, st)
        else Some (0, off + unat (u16_at 8 header), n - unat (u16_at 8 header),
                   st\<lparr>remaining_chunks := u32_at 20 header, chunk_offset := 0, block_size := u32_at 12 header\<rparr>) })"

text \<open>Completing the chunk header.\<close>

definition chunk_header_part ::
  "byte list \<Rightarrow> nat \<Rightarrow> nat \<Rightarrow> sparse_state \<Rightarrow> (nat \<times> nat \<times> sparse_state) option" where
  "chunk_header_part src off n st =
     (if chunk_offset st < 12 then
        (let missing_bytes = 12 - unat (chunk_offset st);
             available_bytes = (if n > missing_bytes then missing_bytes else n)
         in do {
           bs \<leftarrow> load off available_bytes src;
           h \<leftarrow> store (unat (chunk_offset st)) bs (last_header st);
           Some (off + available_bytes, n - available_bytes,
                 st\<lparr>last_header := h, chunk_offset := chunk_offset st + of_nat available_bytes\<rparr>) })
      else Some (off, n, st))"

text \<open>A raw chunk: complete the pending sector, write the whole sectors, keep the rest.\<close>

definition process_raw ::
  "'s writer \<Rightarrow> byte list \<Rightarrow> nat \<Rightarrow> nat \<Rightarrow> sparse_state \<Rightarrow> 's \<Rightarrow> (int \<times> nat \<times> nat \<times> sparse_state \<times> 's) option" where
  "process_raw wrt src off n st s =
     (if n = 0 then Some (0, off, n, st, s) else
      let chunk_size = chunk_sz (last_header st) * block_size st;
          chunk_cur_size = chunk_offset st - 12;
          chunk_rem_size = chunk_size - chunk_cur_size;
          chunk_end = (n \<ge> unat chunk_rem_size);
          chunk_avl_size = (if chunk_end then chunk_rem_size else of_nat n);
          prev_rem_data = chunk_cur_size mod 512;
          missing_bytes = (if prev_rem_data \<noteq> 0 then 512 - prev_rem_data else 0)
      in if total_sz (last_header st) \<noteq> chunk_size + 12 then Some (1, off, n, st, s)
      else do {
        r \<leftarrow> (if missing_bytes > 0 then
                (if chunk_avl_size < missing_bytes then Some None
                 else do {
                   bs \<leftarrow> load off (unat missing_bytes) src;
                   d \<leftarrow> store (unat prev_rem_data) bs (sp_data st);
                   (_, s) \<leftarrow> wrt s (slot_no st) d 0 (sp_sector st) 512;
                   Some (Some (off + unat missing_bytes, n - unat missing_bytes,
                               st\<lparr>sp_data := d, sp_sector := sp_sector st + 1\<rparr>, s)) })
              else Some (Some (off, n, st, s)));
        case r of
          None \<Rightarrow> Some (1, off, n, st, s)
        | Some (off, n, st, s) \<Rightarrow>
            (let copy_len = ((chunk_avl_size - missing_bytes) div 512) * 512;
                 rem_data = chunk_avl_size - copy_len - missing_bytes
             in do {
               (_, s) \<leftarrow> wrt s (slot_no st) src off (sp_sector st) copy_len;
               let st = st\<lparr>sp_sector := sp_sector st + copy_len div 512\<rparr>;
               let off = off + unat copy_len;
               let n = n - unat copy_len;
               st \<leftarrow> (if rem_data > 0 then do {
                        bs \<leftarrow> load off (unat rem_data) src;
                        d \<leftarrow> store 0 bs (sp_data st);
                        Some (st\<lparr>sp_data := d\<rparr>) }
                      else Some st);
               let off = off + unat rem_data;
               let n = n - unat rem_data;
               Some (0, off, n,
                     if chunk_end then st\<lparr>chunk_offset := 0, remaining_chunks := remaining_chunks st - 1\<rparr>
                     else st\<lparr>chunk_offset := chunk_offset st + chunk_avl_size\<rparr>, s) }) })"

definition process_dont_care :: "sparse_state \<Rightarrow> int \<times> sparse_state" where
  "process_dont_care st =
     (if total_sz (last_header st) \<noteq> 12 then (1, st)
      else let skip = chunk_sz (last_header st) * block_size st
           in (0, st\<lparr>sp_sector := sp_sector st + skip div 512, chunk_offset := 0,
                     remaining_chunks := remaining_chunks st - 1\<rparr>))"

definition unsparse_process_chunk ::
  "'s writer \<Rightarrow> byte list \<Rightarrow> nat \<Rightarrow> nat \<Rightarrow> sparse_state \<Rightarrow> 's \<Rightarrow> (int \<times> nat \<times> nat \<times> sparse_state \<times> 's) option" where
  "unsparse_process_chunk wrt src off n st s = do {
     (off, n, st) \<leftarrow> chunk_header_part src off n st;
     if chunk_offset st \<ge> 12 then
       (if chunk_type (last_header st) = CHUNK_TYPE_RAW then process_raw wrt src off n st s
        else if chunk_type (last_header st) = CHUNK_TYPE_DONT_CARE
        then (let (r, st) = process_dont_care st in Some (r, off, n, st, s))
        else Some (1, off, n, st, s))
     else Some (0, off, n, st, s) }"

partial_function (option) unsparse_loop ::
  "'s writer \<Rightarrow> byte list \<Rightarrow> nat \<Rightarrow> nat \<Rightarrow> sparse_state \<Rightarrow> 's \<Rightarrow> (int \<times> sparse_state \<times> 's) option" where
  "unsparse_loop wrt src off n st s =
     (if remaining_chunks st > 0 \<and> n > 0 then do {
        (ret, off, n, st, s) \<leftarrow> unsparse_process_chunk wrt src off n st s;
        if ret = 0 then unsparse_loop wrt src off n st s else Some (ret, st, s) }
      else Some (0, st, s))"

definition unsparse ::
  "'s writer \<Rightarrow> byte list \<Rightarrow> nat \<Rightarrow> nat \<Rightarrow> sparse_state \<Rightarrow> 's \<Rightarrow> (int \<times> sparse_state \<times> 's) option" where
  "unsparse wrt src off n st s = do {
     (ret, off, n, st) \<leftarrow> (if remaining_chunks st = 0 then unsparse_read_header src off n st else Some (0, off, n, st));
     if ret \<noteq> 0 then Some (ret, st, s) else unsparse_loop wrt src off n st s }"

definition do_unsparse_process ::
  "'s blk_ops \<Rightarrow> byte list \<Rightarrow> nat \<Rightarrow> nat \<Rightarrow> sparse_state \<Rightarrow> 's \<Rightarrow> (byte \<times> sparse_state \<times> 's) option" where
  "do_unsparse_process dev src off n st s = do {
     (ret, st, s) \<leftarrow> unsparse (op_write dev) src off n st s;
     Some (if ret \<noteq> 0 then 1 else 0, st, s) }"

definition do_unsparse_start :: "u32 \<Rightarrow> nat \<Rightarrow> sparse_state \<Rightarrow> sparse_state" where
  "do_unsparse_start sector slot st =
     st\<lparr>remaining_chunks := 0, chunk_offset := 0, sp_sector := sector, slot_no := slot\<rparr>"

text \<open>The read-back check that the debug build runs in place of the writes.\<close>

function mmc_compare :: "'s blk_ops \<Rightarrow> nat \<Rightarrow> byte list \<Rightarrow> nat \<Rightarrow> u32 \<Rightarrow> int \<Rightarrow> 's \<Rightarrow> (int \<times> 's) option" where
  "mmc_compare dev slot src off sector len s =
     (if len > 0 then do {
        (r, dat, s) \<leftarrow> op_read dev s slot sector (stack_buf 512) 0 512;
        if r \<noteq> 1 then Some (-1, s) else do {
        bs \<leftarrow> load off 512 src;
        if memcmp_s dat bs \<noteq> 0 then Some (-1, s)
        else mmc_compare dev slot src (off + 512) (sector + 1) (len - 512) s } }
      else Some (0, s))"
  by pat_completeness auto
termination
  by (relation "measure (\<lambda>(dev, slot, src, off, sector, len, s). nat len)") auto

declare mmc_compare.simps [simp del]

section \<open>What an image means\<close>

datatype chunk = Raw "byte list" | Skip u32

fun enc_chunk :: "nat \<Rightarrow> chunk \<Rightarrow> byte list" where
  "enc_chunk bsz (Raw bs) = le16 CHUNK_TYPE_RAW @ le16 0 @ le32 (of_nat (length bs div bsz))
     @ le32 (of_nat (length bs + 12)) @ bs"
| "enc_chunk bsz (Skip k) = le16 CHUNK_TYPE_DONT_CARE @ le16 0 @ le32 k @ le32 12"

definition stream :: "nat \<Rightarrow> chunk list \<Rightarrow> byte list" where
  "stream bsz cs = concat (map (enc_chunk bsz) cs)"

definition image_header :: "nat \<Rightarrow> u16 \<Rightarrow> u32 \<Rightarrow> u32 \<Rightarrow> nat \<Rightarrow> byte list" where
  "image_header bsz minor tot csum n = le32 SPARSE_HEADER_MAGIC @ le16 1 @ le16 minor @ le16 28 @ le16 12
     @ le32 (of_nat bsz) @ le32 tot @ le32 (of_nat n) @ le32 csum"

fun expand :: "nat \<Rightarrow> (nat \<Rightarrow> byte list) \<Rightarrow> nat \<Rightarrow> chunk list \<Rightarrow> nat \<Rightarrow> byte list" where
  "expand bsz d p [] = d"
| "expand bsz d p (Raw bs # cs) = expand bsz (upd_sectors d p bs) (p + length bs div 512) cs"
| "expand bsz d p (Skip k # cs) = expand bsz d (p + unat k * bsz div 512) cs"

fun span :: "nat \<Rightarrow> chunk list \<Rightarrow> nat" where
  "span bsz [] = 0"
| "span bsz (Raw bs # cs) = length bs div 512 + span bsz cs"
| "span bsz (Skip k # cs) = unat k * bsz div 512 + span bsz cs"

fun chunk_ok :: "nat \<Rightarrow> chunk \<Rightarrow> bool" where
  "chunk_ok bsz (Raw bs) \<longleftrightarrow> bs \<noteq> [] \<and> length bs mod bsz = 0 \<and> length bs + 524 < 2 ^ 32"
| "chunk_ok bsz (Skip k) \<longleftrightarrow> unat k * bsz < 2 ^ 32"

definition blk_ok :: "nat \<Rightarrow> bool" where
  "blk_ok bsz \<longleftrightarrow> 0 < bsz \<and> bsz mod 512 = 0 \<and> bsz < 2 ^ 32"

lemma stream_simps [simp]: "stream bsz [] = []" "stream bsz (c # cs) = enc_chunk bsz c @ stream bsz cs"
  by (simp_all add: stream_def)

lemma length_enc [simp]: "length (enc_chunk bsz (Raw bs)) = 12 + length bs" "length (enc_chunk bsz (Skip k)) = 12"
  by simp_all

lemma raw_512: "blk_ok bsz \<Longrightarrow> chunk_ok bsz (Raw bs) \<Longrightarrow> length bs mod 512 = 0"
  by (auto simp: blk_ok_def mod_eq_0_iff_dvd intro: dvd_trans)

text \<open>The header fields of an encoded chunk.\<close>

lemma u16_at_0: "u16_at 0 (le16 a @ r) = a"
  by (simp add: u16_at_def bslice_def)

lemma header_fields:
  "chunk_type (take 12 (enc_chunk bsz (Raw bs))) = CHUNK_TYPE_RAW"
  "chunk_sz (take 12 (enc_chunk bsz (Raw bs))) = of_nat (length bs div bsz)"
  "total_sz (take 12 (enc_chunk bsz (Raw bs))) = of_nat (length bs + 12)"
  "chunk_type (take 12 (enc_chunk bsz (Skip k))) = CHUNK_TYPE_DONT_CARE"
  "chunk_sz (take 12 (enc_chunk bsz (Skip k))) = k"
  "total_sz (take 12 (enc_chunk bsz (Skip k))) = 12"
  by (simp_all add: chunk_type_def chunk_sz_def total_sz_def u16_at_def u32_at_def bslice_def del: of_nat_add)

section \<open>Where the writer stands\<close>

definition cur :: "nat \<Rightarrow> nat" where "cur k = k - 12"

fun left :: "chunk list \<Rightarrow> nat \<Rightarrow> chunk list" where
  "left (Raw bs # cs) k = Raw (drop (512 * (cur k div 512)) bs) # cs"
| "left cs k = cs"

fun pend_chunk :: "nat \<Rightarrow> chunk list \<Rightarrow> nat \<Rightarrow> sparse_state \<Rightarrow> bool" where
  "pend_chunk bsz [] k st \<longleftrightarrow> k = 0"
| "pend_chunk bsz (c # cs) k st \<longleftrightarrow> k < length (enc_chunk bsz c)
     \<and> take k (take 12 (last_header st)) = take k (take 12 (enc_chunk bsz c))
     \<and> (case c of Skip _ \<Rightarrow> True
        | Raw bs \<Rightarrow> take (cur k mod 512) (sp_data st) = bslice (512 * (cur k div 512)) (cur k mod 512) bs)"

definition writer_ok :: "nat \<Rightarrow> chunk list \<Rightarrow> sparse_state \<Rightarrow> bool" where
  "writer_ok bsz cs st \<longleftrightarrow> remaining_chunks st = of_nat (length cs) \<and> length cs < 2 ^ 32
     \<and> block_size st = of_nat bsz \<and> blk_ok bsz \<and> list_all (chunk_ok bsz) cs
     \<and> length (last_header st) = 12 \<and> length (sp_data st) = 512 \<and> slot_no st = 1"

definition pend :: "nat \<Rightarrow> chunk list \<Rightarrow> nat \<Rightarrow> sparse_state \<Rightarrow> bool" where
  "pend bsz cs k st \<longleftrightarrow> writer_ok bsz cs st \<and> unat (chunk_offset st) = k \<and> pend_chunk bsz cs k st"

text \<open>One call has gone from chunk list \<open>cs\<close>, \<open>k\<close> bytes into it, with \<open>n\<close> bytes to come, to \<open>cs'\<close>, \<open>k'\<close> and \<open>n'\<close>:
  the stream still to be read and the final content of the sectors are the same.\<close>

definition advanced ::
  "('s \<Rightarrow> bool) \<Rightarrow> ('s \<Rightarrow> nat) \<Rightarrow> ('s \<Rightarrow> nat \<Rightarrow> nat \<Rightarrow> byte list) \<Rightarrow> nat
    \<Rightarrow> chunk list \<times> nat \<times> nat \<times> sparse_state \<times> 's \<Rightarrow> chunk list \<times> nat \<times> nat \<times> sparse_state \<times> 's \<Rightarrow> bool" where
  "advanced ok part sect bsz = (\<lambda>(cs, k, n, st, s) (cs', k', n', st', s').
     n' \<le> n \<and> ok s' \<and> part s' = part s \<and> pend bsz cs' k' st'
     \<and> drop k' (stream bsz cs') = drop (k + (n - n')) (stream bsz cs)
     \<and> (n' = 0 \<or> k' = 0) \<and> n' + length cs' < n + length cs
     \<and> unat (sp_sector st') + span bsz (left cs' k') = unat (sp_sector st) + span bsz (left cs k)
     \<and> (\<exists>d. sect s' = (sect s)(part s := d)
          \<and> expand bsz d (unat (sp_sector st')) (left cs' k')
            = expand bsz (sect s (part s)) (unat (sp_sector st)) (left cs k)))"

lemma left_start: "cur k div 512 = 0 \<Longrightarrow> left cs k = cs"
  by (induction cs k rule: left.induct) simp_all

lemma left_0 [simp]: "left cs 0 = cs" "left cs 12 = cs"
  by (simp_all add: left_start cur_def)

lemma enc_pos [simp]: "enc_chunk bsz c \<noteq> []"
  by (cases c) (simp_all flip: length_0_conv)

lemma pend_0: "writer_ok bsz cs st \<Longrightarrow> chunk_offset st = 0 \<Longrightarrow> list_all (chunk_ok bsz) cs \<Longrightarrow> pend bsz cs 0 st"
  by (cases cs) (auto simp: pend_def cur_def simp del: enc_chunk.simps split: chunk.split)

lemma pend_header:
  assumes "pend bsz (x # cs) k st" and "12 \<le> k"
  shows "last_header st = take 12 (enc_chunk bsz x)"
proof -
  have "take k (take 12 (last_header st)) = take k (take 12 (enc_chunk bsz x))" "length (last_header st) = 12"
    using assms(1) unfolding pend_def writer_ok_def pend_chunk.simps by blast+
  moreover have "min k 12 = 12" using assms(2) by simp
  ultimately show ?thesis by (simp only: take_take) simp
qed

lemma pend_le: "pend bsz cs k st \<Longrightarrow> k \<le> length (stream bsz cs)"
  by (cases cs) (auto simp: pend_def simp del: enc_chunk.simps)

lemma stream_prefix:
  assumes "bslice off n src = take n (drop k (stream bsz (x # cs)))" and "m \<le> n" and "k + m \<le> length (enc_chunk bsz x)"
  shows "bslice off m src = bslice k m (enc_chunk bsz x)"
proof -
  have "bslice off m src = take m (bslice off n src)" using assms(2) by (simp add: bslice_def min_def)
  also have "\<dots> = take m (drop k (stream bsz (x # cs)))" unfolding assms(1) using assms(2) by (simp add: min_def)
  also have "\<dots> = bslice k m (enc_chunk bsz x)" using assms(3) by (simp add: bslice_def)
  finally show ?thesis .
qed

lemma store_prefix:
  "length bs \<le> length buf - k \<Longrightarrow> k \<le> length buf \<Longrightarrow> take (k + length bs) (patch k bs buf) = take k buf @ bs"
  by (simp add: patch_def)

lemma header_part:
  assumes "pend bsz (c # cs) k st" and "k < 12" and "m = min n (12 - k)"
    and "off + n \<le> length src" and "bslice off m src = bslice k m (enc_chunk bsz c)"
  shows "\<exists>h. chunk_header_part src off n st
      = Some (off + m, n - m, st\<lparr>last_header := h, chunk_offset := of_nat (k + m)\<rparr>)
    \<and> length h = 12 \<and> take (k + m) h = take (k + m) (enc_chunk bsz c)"
proof -
  have k: "unat (chunk_offset st) = k" "length (last_header st) = 12" "chunk_offset st < 12"
    using assms(1,2) by (simp_all add: pend_def writer_ok_def word_less_nat_alt)
  then have ck: "chunk_offset st = of_nat k" by (simp flip: k(1))
  have m: "(if n > 12 - k then 12 - k else n) = m" "m \<le> n" "k + m \<le> 12" using assms(2,3) by auto
  have e: "k + m \<le> length (enc_chunk bsz c)" using m(3) by (cases c) simp_all
  let ?bs = "bslice off m src"
  have lb: "length ?bs = m" using assms(4) m(2) by simp
  have ld: "load off m src = Some ?bs" using assms(4) m(2) by simp
  have st: "store k ?bs (last_header st) = Some (patch k ?bs (last_header st))"
    using lb k(2) m(3) by simp
  have "take (k + m) (patch k ?bs (last_header st)) = take k (last_header st) @ ?bs"
    using store_prefix[of ?bs "last_header st" k] lb k(2) m(3) by simp
  also have "take k (last_header st) = take k (enc_chunk bsz c)"
    using assms(1,2) k(2) by (simp add: pend_def)
  also have "take k (enc_chunk bsz c) @ ?bs = take (k + m) (enc_chunk bsz c)"
    using assms(5) e by (simp add: bslice_def take_add)
  finally show ?thesis
    using k ld m lb by (intro exI[of _ "patch k ?bs (last_header st)"]) (simp add: chunk_header_part_def Let_def ck)
qed

text \<open>Where the sector boundaries are: \<open>c\<close> bytes of the chunk are consumed, \<open>a\<close> more follow.\<close>

definition miss :: "nat \<Rightarrow> nat" where "miss c = (if c mod 512 = 0 then 0 else 512 - c mod 512)"

lemma sector_arith:
  assumes "miss c \<le> a"
  shows "512 * ((c + a) div 512) = c + miss c + (a - miss c) div 512 * 512"
    and "(c + a) mod 512 = (a - miss c) mod 512"
    and "(a - miss c) div 512 * 512 \<le> a - miss c"
    and "c + miss c = 512 * (c div 512) + (if miss c = 0 then 0 else 512)"
proof -
  let ?w = "if c mod 512 = 0 then 0 else 1 :: nat"
  have g: "512 * ((512 * x + b) div 512) = 512 * x + b div 512 * 512" for x b :: nat by simp
  have g2: "(512 * x + b) mod 512 = b mod 512" for x b :: nat by simp
  have c: "c = 512 * (c div 512) + c mod 512" by simp
  have cm: "c + miss c = 512 * (c div 512 + ?w)" 
  proof (cases "c mod 512 = 0")
    case False
    have "c mod 512 < 512" by simp
    then have "c + (512 - c mod 512) = 512 * (c div 512) + 512" using c by linarith
    with False show ?thesis by (simp add: miss_def)
  qed (use c in \<open>simp add: miss_def\<close>)
  then have ca: "c + a = 512 * (c div 512 + ?w) + (a - miss c)" using assms by simp
  show "512 * ((c + a) div 512) = c + miss c + (a - miss c) div 512 * 512"
    unfolding cm by (subst ca) (simp only: g)
  show "(c + a) mod 512 = (a - miss c) mod 512" by (subst ca) (simp only: g2)
  show "(a - miss c) div 512 * 512 \<le> a - miss c" by simp
  show "c + miss c = 512 * (c div 512) + (if miss c = 0 then 0 else 512)"
    unfolding cm by (simp add: miss_def not_le)
qed

lemma unat_mod_512: "unat (w mod 512 :: u32) = unat w mod 512"
  by (simp add: unat_mod)

lemma unat_div_mult_512: "unat (w div 512 * 512 :: u32) = unat w div 512 * 512"
proof -
  have "unat w < 2 ^ 32" using unsigned_less[of w, where 'a = nat] by simp
  then have "unat w div 512 * 512 < 2 ^ 32" using div_times_less_eq_dividend[of "unat w" 512] by linarith
  then show ?thesis by (simp add: unat_mult_lem[THEN iffD1] unat_div)
qed


text \<open>The writer is \<open>c\<close> bytes into the data of a raw chunk, and gets the next \<open>a\<close> bytes of it.\<close>

definition raw_at :: "nat \<Rightarrow> byte list \<Rightarrow> nat \<Rightarrow> sparse_state \<Rightarrow> bool" where
  "raw_at bsz bs c st \<longleftrightarrow> length (sp_data st) = 512 \<and> slot_no st = 1
     \<and> last_header st = take 12 (enc_chunk bsz (Raw bs)) \<and> block_size st = of_nat bsz
     \<and> blk_ok bsz \<and> chunk_ok bsz (Raw bs) \<and> unat (chunk_offset st) = 12 + c \<and> c < length bs
     \<and> take (c mod 512) (sp_data st) = bslice (512 * (c div 512)) (c mod 512) bs"

definition raw_input :: "byte list \<Rightarrow> nat \<Rightarrow> nat \<Rightarrow> nat \<Rightarrow> nat \<Rightarrow> byte list \<Rightarrow> bool" where
  "raw_input bs c a n off src \<longleftrightarrow> 0 < n \<and> off + n \<le> length src \<and> a = min (length bs - c) n
     \<and> bslice off a src = bslice c a bs \<and> miss c \<le> a"

definition whole :: "nat \<Rightarrow> nat \<Rightarrow> nat" where "whole c a = (a - miss c) div 512 * 512"
definition rest :: "nat \<Rightarrow> nat \<Rightarrow> nat" where "rest c a = (a - miss c) mod 512"
definition first :: "nat \<Rightarrow> nat" where "first c = (if miss c = 0 then 0 else 1)"

lemma raw_parts:
  assumes "miss c \<le> a"
  shows "miss c + whole c a + rest c a = a" and "whole c a = 512 * ((a - miss c) div 512)"
    and "(c + a) div 512 - c div 512 = first c + (a - miss c) div 512"
    and "c + miss c = 512 * (c div 512) + 512 * first c"
    and "512 * ((c + a) div 512) = c + miss c + whole c a" and "(c + a) mod 512 = rest c a"
    and "rest c a < 512" and "miss c < 512"
proof -
  note ar = sector_arith[OF assms]
  have "(a - miss c) div 512 * 512 + (a - miss c) mod 512 = a - miss c" by simp
  then show "miss c + whole c a + rest c a = a" unfolding whole_def rest_def using assms by linarith
  show 2: "whole c a = 512 * ((a - miss c) div 512)" by (simp add: whole_def)
  show 4: "c + miss c = 512 * (c div 512) + 512 * first c" using ar(4) by (simp add: first_def)
  show 5: "512 * ((c + a) div 512) = c + miss c + whole c a" unfolding whole_def by (rule ar(1))
  show "(c + a) div 512 - c div 512 = first c + (a - miss c) div 512" using 2 4 5 by linarith
  show "(c + a) mod 512 = rest c a" unfolding rest_def by (rule ar(2))
  show "rest c a < 512" by (simp add: rest_def)
  show "miss c < 512" by (auto simp: miss_def)
qed

text \<open>The 32 bit quantities of \<open>process_raw\<close>.\<close>

lemma raw_words:
  assumes "raw_at bsz bs c st"
  shows "chunk_sz (last_header st) * block_size st = of_nat (length bs)"
    and "total_sz (last_header st) = of_nat (length bs) + 12"
    and "chunk_offset st - 12 = of_nat c"
    and "of_nat (length bs) - of_nat c = (of_nat (length bs - c) :: u32)"
    and "unat (of_nat (length bs - c) :: u32) = length bs - c"
    and "of_nat c mod 512 = (of_nat (c mod 512) :: u32)" and "unat (of_nat (c mod 512) :: u32) = c mod 512"
    and "(if (of_nat (c mod 512) :: u32) \<noteq> 0 then 512 - of_nat (c mod 512) else 0) = (of_nat (miss c) :: u32)"
proof -
  have f: "length bs + 524 < 2 ^ 32" "c < length bs" "length bs div bsz * bsz = length bs"
    using assms by (auto simp: raw_at_def blk_ok_def)
  show "chunk_sz (last_header st) * block_size st = of_nat (length bs)"
    using assms f(3) unfolding raw_at_def by (metis header_fields(2) of_nat_mult)
  show "total_sz (last_header st) = of_nat (length bs) + 12"
    using assms by (simp add: raw_at_def header_fields del: enc_chunk.simps)
  show "chunk_offset st - 12 = of_nat c"
    using assms unfolding raw_at_def
    by (metis add_diff_cancel_left' of_nat_add of_nat_numeral of_nat_unat ucast_id)
  show "of_nat (length bs) - of_nat c = (of_nat (length bs - c) :: u32)" using f(2) by (simp add: of_nat_diff)
  show "unat (of_nat (length bs - c) :: u32) = length bs - c" using f(1) by (simp add: unat_of_nat32)
  have "unat (of_nat c :: u32) = c" using f by (simp add: unat_of_nat32)
  then show "of_nat c mod 512 = (of_nat (c mod 512) :: u32)"
    by (intro word_unat_eq_iff[THEN iffD2]) (simp add: unat_mod_512 unat_of_nat32)
  have l: "c mod 512 < 512" "c mod 512 < 2 ^ 32" by (simp_all add: less_trans[of _ 512])
  then show u: "unat (of_nat (c mod 512) :: u32) = c mod 512" by (simp add: unat_of_nat32)
  show "(if (of_nat (c mod 512) :: u32) \<noteq> 0 then 512 - of_nat (c mod 512) else 0) = (of_nat (miss c) :: u32)"
  proof (cases "c mod 512 = 0")
    case False
    with l u have "(of_nat (c mod 512) :: u32) \<noteq> 0" "(512 :: u32) - of_nat (c mod 512) = of_nat (512 - c mod 512)"
      by (auto simp: of_nat_diff)
    with False show ?thesis by (simp add: miss_def)
  qed (simp add: miss_def)
qed

lemma raw_input_words:
  assumes "raw_at bsz bs c st" and "raw_input bs c a n off src"
  shows "(if n \<ge> length bs - c then of_nat (length bs - c) else of_nat n) = (of_nat a :: u32)"
    and "(of_nat (miss c) :: u32) > 0 \<longleftrightarrow> miss c > 0" and "unat (of_nat (miss c) :: u32) = miss c"
    and "\<not> (of_nat a :: u32) < of_nat (miss c)"
    and "(of_nat a - of_nat (miss c)) div 512 * 512 = (of_nat (whole c a) :: u32)"
    and "unat (of_nat (whole c a) :: u32) = whole c a"
    and "(of_nat (whole c a) :: u32) div 512 = of_nat ((a - miss c) div 512)"
    and "of_nat a - of_nat (whole c a) - of_nat (miss c) = (of_nat (rest c a) :: u32)"
    and "unat (of_nat (rest c a) :: u32) = rest c a" and "(of_nat (rest c a) :: u32) > 0 \<longleftrightarrow> rest c a > 0"
proof -
  have i: "a = min (length bs - c) n" "miss c \<le> a" using assms(2) unfolding raw_input_def by blast+
  note p = raw_parts[OF i(2)]
  have a32: "a < 2 ^ 32" using assms(1) i(1) by (auto simp: raw_at_def)
  then have l: "miss c < 2 ^ 32" "whole c a < 2 ^ 32" "rest c a < 2 ^ 32" "(a - miss c) div 512 < 2 ^ 32" "a - miss c < 2 ^ 32"
    using p(1,2) by linarith+
  note u = unat_of_nat32[OF l(1)] unat_of_nat32[OF l(2)] unat_of_nat32[OF l(3)] unat_of_nat32[OF l(4)]
    unat_of_nat32[OF l(5)] unat_of_nat32[OF a32]
  show "(if n \<ge> length bs - c then of_nat (length bs - c) else of_nat n) = (of_nat a :: u32)"
    using i(1) by (auto simp: min_def)
  show "(of_nat (miss c) :: u32) > 0 \<longleftrightarrow> miss c > 0" "unat (of_nat (miss c) :: u32) = miss c"
    "unat (of_nat (whole c a) :: u32) = whole c a"
    "unat (of_nat (rest c a) :: u32) = rest c a" "(of_nat (rest c a) :: u32) > 0 \<longleftrightarrow> rest c a > 0"
    "\<not> (of_nat a :: u32) < of_nat (miss c)"
    using i(2) by (simp_all add: u word_less_nat_alt)
  have am: "of_nat a - of_nat (miss c) = (of_nat (a - miss c) :: u32)" using i(2) by (simp add: of_nat_diff)
  show "(of_nat a - of_nat (miss c)) div 512 * 512 = (of_nat (whole c a) :: u32)"
    unfolding am by (rule word_unat_eq_iff[THEN iffD2]) (unfold unat_div_mult_512 u, simp add: whole_def)
  show "(of_nat (whole c a) :: u32) div 512 = of_nat ((a - miss c) div 512)"
  proof (rule word_unat_eq_iff[THEN iffD2])
    have "unat ((of_nat (whole c a) :: u32) div 512) = whole c a div 512" by (simp add: unat_div u)
    then show "unat ((of_nat (whole c a) :: u32) div 512) = unat (of_nat ((a - miss c) div 512) :: u32)"
      unfolding u(4) by (simp add: whole_def)
  qed
  have "of_nat a - of_nat (whole c a) - of_nat (miss c) = of_nat (a - miss c) - (of_nat (whole c a) :: u32)"
    unfolding am[symmetric] by simp
  also have "\<dots> = of_nat (a - miss c - whole c a)" using p(1) by (subst of_nat_diff) simp_all
  also have "a - miss c - whole c a = rest c a" using p(1) by linarith
  finally show "of_nat a - of_nat (whole c a) - of_nat (miss c) = (of_nat (rest c a) :: u32)" .
qed

text \<open>The input is the chunk's data, piece by piece.\<close>

lemma raw_slice:
  assumes "raw_input bs c a n off src" and "i + j \<le> a"
  shows "bslice (off + i) j src = bslice (c + i) j bs" "off + i + j \<le> length src"
  using bslice_sub[OF assms(2), of off src] bslice_sub[OF assms(2), of c bs] assms by (auto simp: raw_input_def)

lemma raw_room:
  assumes "raw_at bsz bs c st" and "raw_input bs c a n off src"
    and "unat (sp_sector st) + (length bs - 512 * (c div 512)) div 512 \<le> cap" and "cap < 2 ^ 31"
  shows "unat (sp_sector st) + first c + (a - miss c) div 512 \<le> cap"
    and "unat (sp_sector st + of_nat (first c)) = unat (sp_sector st) + first c"
    and "512 * (c div 512) + 512 * (first c + (a - miss c) div 512) \<le> length bs"
proof -
  have i: "a \<le> length bs - c" "miss c \<le> a" "c < length bs" using assms(1,2) by (auto simp: raw_input_def raw_at_def)
  note p = raw_parts[OF i(2)]
  show ca: "512 * (c div 512) + 512 * (first c + (a - miss c) div 512) \<le> length bs"
  proof -
    have "c + a \<le> length bs" using i(1,3) by simp
    then show ?thesis unfolding distrib_left add.assoc[symmetric] p(4)[symmetric] p(2)[symmetric] using p(1) by linarith
  qed
  then have "512 * (first c + (a - miss c) div 512) \<le> length bs - 512 * (c div 512)" by linarith
  then have "512 * (first c + (a - miss c) div 512) div 512 \<le> (length bs - 512 * (c div 512)) div 512" by (rule div_le_mono)
  then show r: "unat (sp_sector st) + first c + (a - miss c) div 512 \<le> cap" using assms(3) by simp
  then show "unat (sp_sector st + of_nat (first c)) = unat (sp_sector st) + first c"
    using assms(4) unfolding first_def by (auto simp: unat_plus_if' split: if_splits)
qed

lemma expand_split:
  assumes "length xs = 512 * j"
  shows "expand bsz d p (Raw (xs @ ys) # cs) = expand bsz (upd_sectors d p xs) (p + j) (Raw ys # cs)"
    and "span bsz (Raw (xs @ ys) # cs) = j + span bsz (Raw ys # cs)"
  using assms by (simp_all add: upd_sectors_append add.assoc)

lemma raw_cut:
  assumes "raw_at bsz bs c st" and "raw_input bs c a n off src"
  defines "xs \<equiv> bslice (512 * (c div 512)) (512 * ((c + a) div 512) - 512 * (c div 512)) bs"
  shows "drop (512 * (c div 512)) bs = xs @ drop (512 * ((c + a) div 512)) bs"
    and "length xs = 512 * ((c + a) div 512 - c div 512)"
proof -
  have "a \<le> length bs - c" "c < length bs" using assms(1,2) unfolding raw_at_def raw_input_def by auto
  then have l: "512 * ((c + a) div 512) \<le> length bs" by linarith
  have o: "512 * (c div 512) \<le> 512 * ((c + a) div 512)" by (simp add: div_le_mono)
  then have e: "512 * (c div 512) + (512 * ((c + a) div 512) - 512 * (c div 512)) = 512 * ((c + a) div 512)" by simp
  show "drop (512 * (c div 512)) bs = xs @ drop (512 * ((c + a) div 512)) bs"
    using append_take_drop_id[of "512 * ((c + a) div 512) - 512 * (c div 512)" "drop (512 * (c div 512)) bs"] o
    by (simp add: xs_def bslice_def drop_drop e)
  show "length xs = 512 * ((c + a) div 512 - c div 512)"
    unfolding xs_def using l e by (simp add: diff_mult_distrib2)
qed

text \<open>Feeding an image section by section, as fastboot does with the pieces it downloads.\<close>

fun feed :: "'s blk_ops \<Rightarrow> byte list list \<Rightarrow> sparse_state \<Rightarrow> 's \<Rightarrow> (byte \<times> sparse_state \<times> 's) option" where
  "feed dev [] st s = Some (0, st, s)"
| "feed dev (x # xs) st s = do {
     (r, st, s) \<leftarrow> do_unsparse_process dev x 0 (length x) st s;
     if r \<noteq> 0 then Some (r, st, s) else feed dev xs st s }"

fun cut_ok :: "byte list list \<Rightarrow> bool" where
  "cut_ok [] \<longleftrightarrow> True"
| "cut_ok [x] \<longleftrightarrow> x \<noteq> []"
| "cut_ok (x # y # xs) \<longleftrightarrow> 512 \<le> length x \<and> cut_ok (y # xs)"

lemma cut_ok_Cons: "cut_ok (x # xs) \<Longrightarrow> x \<noteq> [] \<and> cut_ok xs \<and> (512 \<le> length x \<or> xs = [])"
  by (cases xs) auto

lemma image_fields:
  "u32_at 0 (image_header bsz minor tot csum n) = SPARSE_HEADER_MAGIC"
  "u16_at 4 (image_header bsz minor tot csum n) = 1" "u16_at 8 (image_header bsz minor tot csum n) = 28"
  "u16_at 10 (image_header bsz minor tot csum n) = 12" "u32_at 12 (image_header bsz minor tot csum n) = of_nat bsz"
  "u32_at 20 (image_header bsz minor tot csum n) = of_nat n"
  "length (image_header bsz minor tot csum n) = 28"
  by (simp_all add: image_header_def u16_at_def u32_at_def bslice_def)

lemma read_header_ok:
  assumes "src = image_header bsz minor tot csum m @ r"
  shows "unsparse_read_header src 0 (length src) st = Some (0, 28, length src - 28,
      st\<lparr>remaining_chunks := of_nat m, chunk_offset := 0, block_size := of_nat bsz\<rparr>)"
proof -
  have l: "load 0 28 src = Some (image_header bsz minor tot csum m)"
    using image_fields(7)[of bsz minor tot csum m] by (simp add: assms load_def bslice_def)
  show ?thesis unfolding unsparse_read_header_def l using image_fields[of bsz minor tot csum m] assms by simp
qed

context block_device
begin

text \<open>Completing the pending sector, the whole sectors, and the rest.\<close>

lemma raw_pending:
  assumes s: "inv s" and r: "raw_at bsz bs c st" and i: "raw_input bs c a n off src"
    and room: "unat (sp_sector st) + (length bs - 512 * (c div 512)) div 512 \<le> cap"
  shows "\<exists>d1 s1. (if (of_nat (miss c) :: u32) > 0 then
                (if (of_nat a :: u32) < of_nat (miss c) then Some None
                 else do {
                   xs \<leftarrow> load off (miss c) src;
                   d \<leftarrow> store (c mod 512) xs (sp_data st);
                   (_, s) \<leftarrow> op_write dev s (slot_no st) d 0 (sp_sector st) 512;
                   Some (Some (off + miss c, n - miss c, st\<lparr>sp_data := d, sp_sector := sp_sector st + 1\<rparr>, s)) })
              else Some (Some (off, n, st, s)))
      = Some (Some (off + miss c, n - miss c, st\<lparr>sp_data := d1, sp_sector := sp_sector st + of_nat (first c)\<rparr>, s1))
    \<and> length d1 = 512 \<and> inv s1 \<and> part s1 = part s
    \<and> sect s1 = (sect s)(part s := upd_sectors (sect s (part s)) (unat (sp_sector st))
          (bslice (512 * (c div 512)) (512 * first c) bs))"
proof (cases "miss c = 0")
  case True
  then show ?thesis using s r by (intro exI[of _ "sp_data st"] exI[of _ s]) (simp add: first_def raw_at_def)
next
  case False
  let ?d = "bslice (512 * (c div 512)) 512 bs"
  have m: "c mod 512 + miss c = 512" using False by (auto simp: miss_def split: if_splits)
  have mi: "0 + miss c \<le> a" "first c = 1" using i False unfolding raw_input_def first_def by auto
  note rm = raw_room[OF r i room conjunct2[OF cap_bound]]
  note sl = raw_slice[OF i mi(1), simplified]
  have ld: "length ?d = 512" using rm(3) mi(2) by simp
  have "length (bslice c (miss c) bs) = miss c" using i r by (auto simp: raw_input_def raw_at_def)
  then have st: "store (c mod 512) (bslice c (miss c) bs) (sp_data st) = Some ?d"
    using r m bslice_add[of "512 * (c div 512)" "c mod 512" "miss c" bs]
    by (simp add: raw_at_def store_def patch_def)
  obtain s1 where "op_write dev s 1 ?d 0 (sp_sector st) 512 = Some (1, s1)" "inv s1" "part s1 = part s"
      "sect s1 = (sect s)(part s := upd_sectors (sect s (part s)) (unat (sp_sector st)) ?d)"
    using write_multi[OF s, of 512 1 "sp_sector st" 0 ?d] rm(1) mi(2) ld by auto
  then show ?thesis
    using sl st mi(2) False r ld raw_input_words(2,4)[OF r i]
    by (intro exI[of _ ?d] exI[of _ s1]) (simp add: raw_at_def)
qed

lemma raw_whole:
  assumes s1: "inv s1" "part s1 = part s"
      "sect s1 = (sect s)(part s := upd_sectors (sect s (part s)) (unat (sp_sector st))
          (bslice (512 * (c div 512)) (512 * first c) bs))"
    and r: "raw_at bsz bs c st" and i: "raw_input bs c a n off src"
    and room: "unat (sp_sector st) + (length bs - 512 * (c div 512)) div 512 \<le> cap"
  shows "\<exists>s2. op_write dev s1 1 src (off + miss c) (sp_sector st + of_nat (first c)) (of_nat (whole c a)) = Some (1, s2)
    \<and> inv s2 \<and> part s2 = part s \<and> sect s2 = (sect s)(part s := upd_sectors (sect s (part s)) (unat (sp_sector st))
        (bslice (512 * (c div 512)) (512 * ((c + a) div 512) - 512 * (c div 512)) bs))"
proof -
  let ?k = "(a - miss c) div 512"
  have mi: "miss c \<le> a" using i unfolding raw_input_def by blast
  note p = raw_parts[OF mi] and rm = raw_room[OF r i room conjunct2[OF cap_bound]]
  have le: "miss c + 512 * ?k \<le> a" using p(1,2) by linarith
  note sl = raw_slice[OF i le]
  have u: "unat (of_nat (whole c a) :: u32) = 512 * ?k" using raw_input_words(6)[OF r i] p(2) by simp
  have w: "512 * ((c + a) div 512) - 512 * (c div 512) = 512 * first c + 512 * ?k" using p(2,4,5) by linarith
  have "length (bslice (512 * (c div 512)) (512 * first c) bs) = 512 * first c"
    by (rule length_bslice) (use rm(3) in simp)
  then have "upd_sectors (upd_sectors D q (bslice (512 * (c div 512)) (512 * first c) bs)) (q + first c)
        (bslice (off + miss c) (512 * ?k) src)
      = upd_sectors D q (bslice (512 * (c div 512)) (512 * first c + 512 * ?k) bs)" for D q
    unfolding sl(1) p(4) bslice_add[of _ "512 * first c"] by (rule upd_sectors_append)
  then show ?thesis
    using write_multi[OF s1(1) u, of "sp_sector st + of_nat (first c)" "off + miss c" src] rm(1,2) sl(2) s1(2,3)
    unfolding w by auto
qed

lemma raw_rest:
  assumes d1: "length d1 = 512" and i: "raw_input bs c a n off src"
    and d2: "d2 = (if rest c a > 0 then patch 0 (bslice (off + miss c + whole c a) (rest c a) src) d1 else d1)"
  shows "off + miss c + whole c a + rest c a \<le> length src" "rest c a \<le> 512" "length d2 = 512"
    "take ((c + a) mod 512) d2 = bslice (512 * ((c + a) div 512)) ((c + a) mod 512) bs"
proof -
  have mi: "miss c \<le> a" using i unfolding raw_input_def by blast
  note p = raw_parts[OF mi]
  have le: "(miss c + whole c a) + rest c a \<le> a" using p(1) by simp
  note sl = raw_slice[OF i le, unfolded add.assoc[symmetric]]
  show "off + miss c + whole c a + rest c a \<le> length src" by (rule sl(2))
  then have l: "length (bslice (off + miss c + whole c a) (rest c a) src) = rest c a" by (rule length_bslice)
  show "rest c a \<le> 512" using p(7) by simp
  show "length d2 = 512" "take ((c + a) mod 512) d2 = bslice (512 * ((c + a) div 512)) ((c + a) mod 512) bs"
    unfolding p(5,6) sl(1)[symmetric] d2 using d1 l p(7) by (simp_all add: patch_def)
qed

lemma process_raw_ok:
  assumes s: "inv s" and r: "raw_at bsz bs c st" and i: "raw_input bs c a n off src"
    and room: "unat (sp_sector st) + (length bs - 512 * (c div 512)) div 512 \<le> cap"
  shows "\<exists>d' s'. process_raw (op_write dev) src off n st s = Some (0, off + a, n - a,
      (if a = length bs - c then st\<lparr>sp_data := d', sp_sector := sp_sector st + of_nat ((c + a) div 512 - c div 512),
            chunk_offset := 0, remaining_chunks := remaining_chunks st - 1\<rparr>
       else st\<lparr>sp_data := d', sp_sector := sp_sector st + of_nat ((c + a) div 512 - c div 512),
            chunk_offset := of_nat (12 + c + a)\<rparr>), s')
    \<and> length d' = 512 \<and> take ((c + a) mod 512) d' = bslice (512 * ((c + a) div 512)) ((c + a) mod 512) bs
    \<and> inv s' \<and> part s' = part s
    \<and> sect s' = (sect s)(part s := upd_sectors (sect s (part s)) (unat (sp_sector st))
          (bslice (512 * (c div 512)) (512 * ((c + a) div 512) - 512 * (c div 512)) bs))"
proof -
  have mi: "0 < n" "miss c \<le> a" "a = min (length bs - c) n" using i unfolding raw_input_def by blast+
  note p = raw_parts[OF mi(2)] and W = raw_words[OF r] and I = raw_input_words[OF r i]
  obtain d1 s1 where P1: "(if (of_nat (miss c) :: u32) > 0 then
                (if (of_nat a :: u32) < of_nat (miss c) then Some None
                 else do {
                   xs \<leftarrow> load off (miss c) src;
                   d \<leftarrow> store (c mod 512) xs (sp_data st);
                   (_, s) \<leftarrow> op_write dev s (slot_no st) d 0 (sp_sector st) 512;
                   Some (Some (off + miss c, n - miss c, st\<lparr>sp_data := d, sp_sector := sp_sector st + 1\<rparr>, s)) })
              else Some (Some (off, n, st, s)))
      = Some (Some (off + miss c, n - miss c, st\<lparr>sp_data := d1, sp_sector := sp_sector st + of_nat (first c)\<rparr>, s1))"
    and d1: "length d1 = 512" and s1: "inv s1" "part s1 = part s"
      "sect s1 = (sect s)(part s := upd_sectors (sect s (part s)) (unat (sp_sector st))
          (bslice (512 * (c div 512)) (512 * first c) bs))"
    using raw_pending[OF s r i room] by blast
  obtain s2 where P2: "op_write dev s1 1 src (off + miss c) (sp_sector st + of_nat (first c)) (of_nat (whole c a)) = Some (1, s2)"
    and s2: "inv s2" "part s2 = part s" "sect s2 = (sect s)(part s := upd_sectors (sect s (part s)) (unat (sp_sector st))
        (bslice (512 * (c div 512)) (512 * ((c + a) div 512) - 512 * (c div 512)) bs))"
    using raw_whole[OF s1 r i room] by blast
  define d2 where "d2 = (if rest c a > 0 then patch 0 (bslice (off + miss c + whole c a) (rest c a) src) d1 else d1)"
  note d2 = raw_rest[OF d1 i d2_def]
  have e: "n \<ge> length bs - c \<longleftrightarrow> a = length bs - c" using mi(3) by auto
  have ofs: "off + miss c + whole c a + rest c a = off + a" "n - miss c - whole c a - rest c a = n - a"
    "rest c a = 0 \<Longrightarrow> off + miss c + whole c a = off + a" "rest c a = 0 \<Longrightarrow> n - miss c - whole c a = n - a"
    using p(1) by linarith+
  have co: "chunk_offset st + of_nat a = of_nat (12 + c + a)" using W(3) by (simp add: algebra_simps)
  have sec: "x + of_nat (first c) + of_nat ((a - miss c) div 512) = x + of_nat ((c + a) div 512 - c div 512)" for x :: u32
    unfolding p(3) by simp
  have sl: "slot_no st = 1" using r by (simp add: raw_at_def)
  have "process_raw (op_write dev) src off n st s = Some (0, off + a, n - a,
      (if a = length bs - c then st\<lparr>sp_data := d2, sp_sector := sp_sector st + of_nat ((c + a) div 512 - c div 512),
            chunk_offset := 0, remaining_chunks := remaining_chunks st - 1\<rparr>
       else st\<lparr>sp_data := d2, sp_sector := sp_sector st + of_nat ((c + a) div 512 - c div 512),
            chunk_offset := of_nat (12 + c + a)\<rparr>), s2)"
    unfolding process_raw_def Let_def W(1,3,4,5,6,7,8) I(1,3) P1
    using mi(1) P2 d1 d2(1,2)
    by (simp add: W(2) I(5-10) ofs e sec co sl d2_def load_Some[OF d2(1)] del: of_nat_add of_nat_diff diff_diff_left)
  with d2(3,4) s2 show ?thesis by blast
qed

lemma raw_fits:
  assumes "length bs mod 512 = 0" and "c < length bs"
  shows "miss c \<le> length bs - c"
proof -
  obtain q where q: "length bs = 512 * q" using assms(1) by auto
  then have "c div 512 < q" using assms(2) by (simp add: less_mult_imp_div_less mult.commute)
  then have "512 * (c div 512) + 512 \<le> 512 * q" by simp
  moreover have "c + miss c = 512 * (c div 512) + 512 * first c" using raw_parts(4)[of c "miss c"] by simp
  moreover have "512 * first c \<le> 512" by (simp add: first_def)
  ultimately show ?thesis using q by linarith
qed

lemma body_raw:
  assumes s: "inv s" and p: "pend bsz (Raw bs # cs) k st" and k: "12 \<le> k" and n: "0 < n" "off + n \<le> length src"
    and src: "bslice off n src = take n (drop k (stream bsz (Raw bs # cs)))"
      "k + n \<le> length (stream bsz (Raw bs # cs))"
    and req: "cur k mod 512 = 0 \<or> 512 \<le> n \<or> k + n = length (stream bsz (Raw bs # cs))"
    and room: "unat (sp_sector st) + span bsz (left (Raw bs # cs) k) \<le> cap"
  shows "\<exists>cs' k' n' st' s'. process_raw (op_write dev) src off n st s = Some (0, off + (n - n'), n', st', s')
    \<and> advanced inv part sect bsz (Raw bs # cs, k, n, st, s) (cs', k', n', st', s')"
proof -
  define c a where "c = cur k" and "a = min (length bs - c) n"
  have kc: "k = 12 + c" using k by (simp add: c_def cur_def)
  have c: "c < length bs" using p kc by (simp add: pend_def)
  have okb: "blk_ok bsz" "chunk_ok bsz (Raw bs)" using p by (simp_all add: pend_def writer_ok_def)
  have dv: "length bs mod 512 = 0" by (rule raw_512[OF okb])
  note lh = pend_header[OF p k]
  have r: "raw_at bsz bs c st"
  proof -
    have "length (sp_data st) = 512" "slot_no st = 1" "block_size st = of_nat bsz" "unat (chunk_offset st) = k"
      "take (cur k mod 512) (sp_data st) = bslice (512 * (cur k div 512)) (cur k mod 512) bs"
      using p unfolding pend_def writer_ok_def pend_chunk.simps chunk.case by blast+
    then show ?thesis unfolding raw_at_def c_def[symmetric] using lh c kc okb by blast
  qed
  have "drop k (stream bsz (Raw bs # cs)) = drop c bs @ stream bsz cs" using kc c by simp
  then have "take a (bslice off n src) = take a (drop c bs)" using src(1) c by (simp add: a_def)
  then have "bslice off a src = bslice c a bs" by (simp add: bslice_def a_def min_def split: if_splits)
  moreover have "miss c \<le> a"
  proof -
    have "miss c < 512" "cur k mod 512 = 0 \<Longrightarrow> miss c = 0" by (simp_all add: miss_def c_def)
    moreover have "k + n = length (stream bsz (Raw bs # cs)) \<Longrightarrow> length bs - c \<le> n" using kc by simp
    ultimately show ?thesis using raw_fits[OF dv c] req unfolding a_def by linarith
  qed
  ultimately have i: "raw_input bs c a n off src" using n by (simp add: raw_input_def a_def)
  have rm: "unat (sp_sector st) + (length bs - 512 * (c div 512)) div 512 \<le> cap"
    using room by (simp add: c_def)
  define j where "j = (c + a) div 512 - c div 512"
  define xs where "xs = bslice (512 * (c div 512)) (512 * ((c + a) div 512) - 512 * (c div 512)) bs"
  note cut = raw_cut[OF r i, folded xs_def j_def]
  have sec: "unat (sp_sector st + of_nat j) = unat (sp_sector st) + j"
  proof -
    have "512 * j \<le> length bs - 512 * (c div 512)" using arg_cong[OF cut(1), of length] cut(2) by simp
    then have "j \<le> (length bs - 512 * (c div 512)) div 512" by (simp add: less_eq_div_iff_mult_less_eq mult.commute)
    then have "unat (sp_sector st) + j < 2 ^ 32" using rm cap_bound by simp
    then show ?thesis using unat_of_nat32[of j] unat_add_lem[of "sp_sector st" "of_nat j"] by simp
  qed
  obtain d' s' where pr: "process_raw (op_write dev) src off n st s = Some (0, off + a, n - a,
      (if a = length bs - c then st\<lparr>sp_data := d', sp_sector := sp_sector st + of_nat j,
            chunk_offset := 0, remaining_chunks := remaining_chunks st - 1\<rparr>
       else st\<lparr>sp_data := d', sp_sector := sp_sector st + of_nat j, chunk_offset := of_nat (12 + c + a)\<rparr>), s')"
    and d': "length d' = 512" "take ((c + a) mod 512) d' = bslice (512 * ((c + a) div 512)) ((c + a) mod 512) bs"
    and s': "inv s'" "part s' = part s" "sect s' = (sect s)(part s := upd_sectors (sect s (part s)) (unat (sp_sector st)) xs)"
    using process_raw_ok[OF s r i rm] unfolding j_def xs_def by blast
  have lx: "length xs div 512 = j" using cut(2) by simp
  have na: "n - (n - a) = a" by (simp add: a_def)
  have w: "writer_ok bsz (Raw bs # cs) st" using p by (simp add: pend_def)
  have ln: "left (Raw bs # cs) k = Raw (xs @ drop (512 * ((c + a) div 512)) bs) # cs" using cut(1) by (simp add: c_def)
  note es = expand_split[OF cut(2)]
  show ?thesis
  proof (cases "a = length bs - c")
    case True
    let ?st = "st\<lparr>sp_data := d', sp_sector := sp_sector st + of_nat j, chunk_offset := 0,
        remaining_chunks := remaining_chunks st - 1\<rparr>"
    have "drop (512 * ((c + a) div 512)) bs = []" using True dv c by (auto simp: mult.commute)
    moreover have "pend bsz cs 0 ?st" using w d' by (intro pend_0) (auto simp: writer_ok_def)
    moreover have "drop (k + a) (stream bsz (Raw bs # cs)) = stream bsz cs" using True c kc by simp
    ultimately have "advanced inv part sect bsz (Raw bs # cs, k, n, st, s) (cs, 0, n - a, ?st, s')"
      using s' sec ln na lx by (auto simp: advanced_def simp del: stream_simps left.simps)
    moreover have "process_raw (op_write dev) src off n st s = Some (0, off + (n - (n - a)), n - a, ?st, s')"
      unfolding na using pr True by simp
    ultimately show ?thesis by blast
  next
    case False
    then have an: "a = n" "c + a < length bs" by (auto simp: a_def)
    let ?st = "st\<lparr>sp_data := d', sp_sector := sp_sector st + of_nat j, chunk_offset := of_nat (12 + c + a)\<rparr>"
    have "unat (of_nat (12 + c + a) :: u32) = k + n"
      using an okb(2) kc by (subst unat_of_nat32) auto
    then have "pend bsz (Raw bs # cs) (k + n) ?st"
      using w d' an lh kc by (simp add: pend_def writer_ok_def cur_def del: enc_chunk.simps)
    moreover have "left (Raw bs # cs) (k + n) = Raw (drop (512 * ((c + a) div 512)) bs) # cs"
      using an kc by (simp add: cur_def)
    ultimately have "advanced inv part sect bsz (Raw bs # cs, k, n, st, s) (Raw bs # cs, k + n, 0, ?st, s')"
      using s' sec es ln n(1) by (auto simp: advanced_def simp del: stream_simps left.simps expand.simps span.simps)
    moreover have "process_raw (op_write dev) src off n st s = Some (0, off + (n - 0), 0, ?st, s')"
      using pr False an by simp
    ultimately show ?thesis by blast
  qed
qed

lemma advanced_header:
  assumes "advanced inv part sect bsz (cs, 12, n - m, st1, s) (cs', k', n', st', s')"
    and "k + m = 12" and "m \<le> n" and "sp_sector st1 = sp_sector st" and "k < 12"
  shows "advanced inv part sect bsz (cs, k, n, st, s) (cs', k', n', st', s')"
proof -
  have "12 + (n - m - n') = k + (n - n')" using assms(1,2,3) by (auto simp: advanced_def)
  moreover have "left cs k = cs" by (rule left_start) (use assms(5) in \<open>simp add: cur_def\<close>)
  moreover have "n' \<le> n" "n' + length cs' < n + length cs" using assms(1,3) by (auto simp: advanced_def)
  ultimately show ?thesis using assms(1,4) by (simp add: advanced_def)
qed

lemma body_skip:
  assumes s: "inv s" and w: "writer_ok bsz (Skip q # cs) st"
    and h: "last_header st = take 12 (enc_chunk bsz (Skip q))"
    and room: "unat (sp_sector st) + span bsz (Skip q # cs) \<le> cap"
  shows "\<exists>st'. process_dont_care st = (0, st')
    \<and> advanced inv part sect bsz (Skip q # cs, 12, n, st, s) (cs, 0, n, st', s)"
proof -
  let ?j = "unat q * bsz div 512"
  let ?st = "st\<lparr>sp_sector := sp_sector st + (q * of_nat bsz) div 512, chunk_offset := 0,
      remaining_chunks := remaining_chunks st - 1\<rparr>"
  have f: "block_size st = of_nat bsz" "unat q * bsz < 2 ^ 32" "bsz < 2 ^ 32"
    using w by (simp_all add: writer_ok_def blk_ok_def)
  have "process_dont_care st = (0, ?st)"
    unfolding process_dont_care_def h header_fields by (simp add: f)
  moreover have "unat (q * of_nat bsz) = unat q * bsz"
    using f(2,3) unat_mult_lem[of q "of_nat bsz"] by (simp add: unat_of_nat32)
  then have "unat (sp_sector st + (q * of_nat bsz) div 512) = unat (sp_sector st) + ?j"
    using room cap_bound unat_add_lem[of "sp_sector st" "(q * of_nat bsz) div 512"] by (simp add: unat_div)
  moreover have "pend bsz cs 0 ?st" using w by (intro pend_0) (auto simp: writer_ok_def)
  ultimately show ?thesis using s by (auto simp: advanced_def intro!: exI[of _ "sect s (part s)"])
qed

text \<open>The header is complete: the body of the second \<^verbatim>\<open>if\<close> of \<^verbatim>\<open>_unsparse_process_chunk\<close>.\<close>

lemma header_done:
  assumes s: "inv s" and w: "writer_ok bsz (x # cs) st" and h: "last_header st = take 12 (enc_chunk bsz x)"
    and co: "chunk_offset st = 12" and n: "off + n \<le> length src"
    and src: "bslice off n src = take n (drop 12 (stream bsz (x # cs)))" "12 + n \<le> length (stream bsz (x # cs))"
    and room: "unat (sp_sector st) + span bsz (x # cs) \<le> cap" and nz: "0 < n \<or> (\<exists>q. x = Skip q)"
  shows "\<exists>cs' k' n' st' s'. (if chunk_type (last_header st) = CHUNK_TYPE_RAW then process_raw (op_write dev) src off n st s
        else if chunk_type (last_header st) = CHUNK_TYPE_DONT_CARE
        then (let (r, st) = process_dont_care st in Some (r, off, n, st, s))
        else Some (1, off, n, st, s)) = Some (0, off + (n - n'), n', st', s')
    \<and> advanced inv part sect bsz (x # cs, 12, n, st, s) (cs', k', n', st', s')"
proof (cases x)
  case (Raw bs)
  have "bs \<noteq> []" using w Raw by (simp add: writer_ok_def)
  then have "pend bsz (Raw bs # cs) 12 st"
    using w co h unfolding Raw by (simp add: pend_def cur_def del: enc_chunk.simps)
  from body_raw[OF s this order_refl _ n src[unfolded Raw]] nz room
  show ?thesis unfolding h Raw header_fields by (simp add: cur_def)
next
  case (Skip q)
  have "CHUNK_TYPE_DONT_CARE \<noteq> CHUNK_TYPE_RAW" by (simp add: CHUNK_TYPE_DONT_CARE_def CHUNK_TYPE_RAW_def)
  moreover obtain st' where "process_dont_care st = (0, st')"
      "advanced inv part sect bsz (Skip q # cs, 12, n, st, s) (cs, 0, n, st', s)"
    using body_skip[OF s w[unfolded Skip] h[unfolded Skip] room[unfolded Skip]] by blast
  moreover have "off + (n - n) = off" by simp
  ultimately show ?thesis unfolding h Skip header_fields by (metis case_prod_conv)
qed

lemma chunk_step:
  assumes s: "inv s" and p: "pend bsz (x # cs) k st" and n: "0 < n" "off + n \<le> length src"
    and src: "bslice off n src = take n (drop k (stream bsz (x # cs)))" "k + n \<le> length (stream bsz (x # cs))"
    and req: "cur k mod 512 = 0 \<or> 512 \<le> n \<or> k + n = length (stream bsz (x # cs))"
    and room: "unat (sp_sector st) + span bsz (left (x # cs) k) \<le> cap"
  shows "\<exists>cs' k' n' st' s'. unsparse_process_chunk (op_write dev) src off n st s = Some (0, off + (n - n'), n', st', s')
    \<and> advanced inv part sect bsz (x # cs, k, n, st, s) (cs', k', n', st', s')"
proof (cases "12 \<le> k")
  case True
  then obtain bs where x: "x = Raw bs" using p by (cases x) (auto simp: pend_def)
  have co: "unat (chunk_offset st) = k" using p by (simp add: pend_def)
  then have "chunk_header_part src off n st = Some (off, n, st)" "chunk_offset st \<ge> 12"
    using True by (simp_all add: chunk_header_part_def co word_less_nat_alt word_le_nat_alt)
  then show ?thesis
    using body_raw[OF s p[unfolded x] True n src[unfolded x] req[unfolded x] room[unfolded x]]
    pend_header[OF p True]
    unfolding x by (simp add: unsparse_process_chunk_def header_fields del: enc_chunk.simps)
next
  case False
  then have k: "k < 12" by simp
  define m where "m = min n (12 - k)"
  have km: "k + m \<le> length (enc_chunk bsz x)" "m \<le> n" using k by (cases x; simp add: m_def)+
  have "bslice off m src = bslice k m (enc_chunk bsz x)" by (rule stream_prefix[OF src(1) km(2,1)])
  then obtain h where h: "chunk_header_part src off n st
      = Some (off + m, n - m, st\<lparr>last_header := h, chunk_offset := of_nat (k + m)\<rparr>)"
    "length h = 12" "take (k + m) h = take (k + m) (enc_chunk bsz x)"
    using header_part[OF p k m_def n(2)] by blast
  let ?st = "st\<lparr>last_header := h, chunk_offset := of_nat (k + m)\<rparr>"
  have w: "writer_ok bsz (x # cs) st" using p by (simp add: pend_def)
  then have w': "writer_ok bsz (x # cs) ?st" using h(2) by (simp add: writer_ok_def)
  have co: "unat (of_nat (k + m) :: u32) = k + m" using k by (intro unat_of_nat32) (simp add: m_def)
  have ls: "left (x # cs) k = x # cs" by (rule left_start) (use k in \<open>simp add: cur_def\<close>)
  show ?thesis
  proof (cases "k + n < 12")
    case True
    then have mn: "m = n" "cur (k + n) = 0" by (auto simp: m_def cur_def)
    then have "pend bsz (x # cs) (k + n) ?st"
      using w' co h(3) True km(1) by (auto simp: pend_def min_def simp del: enc_chunk.simps split: chunk.split)
    moreover have "left (x # cs) (k + n) = x # cs" by (rule left_start) (simp add: mn)
    ultimately have "advanced inv part sect bsz (x # cs, k, n, st, s) (x # cs, k + n, 0, ?st, s)"
      using s ls n(1) by (auto simp: advanced_def intro!: exI[of _ "sect s (part s)"] simp del: stream_simps span.simps expand.simps)
    moreover have "unsparse_process_chunk (op_write dev) src off n st s = Some (0, off + (n - 0), 0, ?st, s)"
      using h(1) co True by (simp add: unsparse_process_chunk_def mn word_le_nat_alt)
    ultimately show ?thesis by blast
  next
    case False
    then have k12: "k + m = 12" using k by (simp add: m_def)
    have h12: "last_header ?st = take 12 (enc_chunk bsz x)" using h(2,3) by (simp add: k12)
    have off: "off + m + (n - m) \<le> length src" using n(2) km(2) by simp
    have "bslice (off + m) (n - m) src = drop m (bslice off n src)"
      by (simp add: bslice_def drop_take add.commute)
    then have src1: "bslice (off + m) (n - m) src = take (n - m) (drop 12 (stream bsz (x # cs)))"
      unfolding src(1) by (simp add: drop_take k12[symmetric] add.commute del: stream_simps)
    have src2: "12 + (n - m) \<le> length (stream bsz (x # cs))" using src(2) k12 km(2) by linarith
    have call: "unsparse_process_chunk (op_write dev) src off n st s =
       (if chunk_type (last_header ?st) = CHUNK_TYPE_RAW then process_raw (op_write dev) src (off + m) (n - m) ?st s
        else if chunk_type (last_header ?st) = CHUNK_TYPE_DONT_CARE
        then (let (r, st) = process_dont_care ?st in Some (r, off + m, n - m, st, s))
        else Some (1, off + m, n - m, ?st, s))"
      using h(1) by (simp add: unsparse_process_chunk_def k12)
    show ?thesis
    proof (cases "0 < n - m \<or> (\<exists>q. x = Skip q)")
      case True
      have "chunk_offset ?st = 12" "unat (sp_sector ?st) + span bsz (x # cs) \<le> cap"
        using room unfolding ls k12 by simp_all
      then obtain cs' k' n' st' s' where r: "unsparse_process_chunk (op_write dev) src off n st s
            = Some (0, off + m + (n - m - n'), n', st', s')"
          "advanced inv part sect bsz (x # cs, 12, n - m, ?st, s) (cs', k', n', st', s')"
        using header_done[OF s w' h12 _ off src1 src2 _ True] unfolding call[symmetric] by blast
      have "n' \<le> n - m" using r(2) by (simp add: advanced_def)
      then have "off + m + (n - m - n') = off + (n - n')" using km(2) by linarith
      moreover have "advanced inv part sect bsz (x # cs, k, n, st, s) (cs', k', n', st', s')"
        by (rule advanced_header[OF r(2) k12 km(2) _ k]) simp
      ultimately show ?thesis using r(1) by metis
    next
      case False
      then obtain bs where x: "x = Raw bs" and m: "m = n" using km(2) by (cases x) auto
      have "bs \<noteq> []" using w x by (simp add: writer_ok_def)
      then have "pend bsz (x # cs) 12 ?st" using w' h12 co unfolding x by (simp add: pend_def cur_def k12 del: enc_chunk.simps)
      then have "advanced inv part sect bsz (x # cs, k, n, st, s) (x # cs, 12, 0, ?st, s)"
        using s ls n(1) k12 m by (auto simp: advanced_def intro!: exI[of _ "sect s (part s)"] simp del: of_nat_add stream_simps span.simps expand.simps)
      moreover have "unsparse_process_chunk (op_write dev) src off n st s = Some (0, off + (n - 0), 0, ?st, s)"
        unfolding call h12 x header_fields using m by (simp add: process_raw_def)
      ultimately show ?thesis by blast
    qed
  qed
qed

text \<open>A section: the loop ends, with the same stream to come and the same final sectors.\<close>

lemma section_loop:
  assumes "inv s" and "pend bsz cs k st" and "off + n \<le> length src"
    and "bslice off n src = take n (drop k (stream bsz cs))" and "k + n \<le> length (stream bsz cs)"
    and "n = 0 \<or> cur k mod 512 = 0 \<or> 512 \<le> n \<or> k + n = length (stream bsz cs)"
    and "unat (sp_sector st) + span bsz (left cs k) \<le> cap"
  shows "\<exists>cs' k' st' s'. unsparse_loop (op_write dev) src off n st s = Some (0, st', s')
    \<and> inv s' \<and> part s' = part s \<and> pend bsz cs' k' st' \<and> drop k' (stream bsz cs') = drop (k + n) (stream bsz cs)
    \<and> unat (sp_sector st') + span bsz (left cs' k') = unat (sp_sector st) + span bsz (left cs k)
    \<and> (\<exists>d. sect s' = (sect s)(part s := d) \<and> expand bsz d (unat (sp_sector st')) (left cs' k')
         = expand bsz (sect s (part s)) (unat (sp_sector st)) (left cs k))"
  using assms
proof (induction "n + length cs" arbitrary: cs k n off st s rule: less_induct)
  case less
  have rc: "remaining_chunks st = of_nat (length cs)" "length cs < 2 ^ 32"
    using less.prems(2) by (simp_all add: pend_def writer_ok_def)
  show ?case
  proof (cases "cs = [] \<or> n = 0")
    case True
    then have n0: "n = 0" using less.prems(5) by auto
    then have "unsparse_loop (op_write dev) src off n st s = Some (0, st, s)"
      by (subst unsparse_loop.simps) simp
    then show ?thesis using less.prems(1,2) n0 by (intro exI[of _ cs] exI[of _ k] exI[of _ st] exI[of _ s])
      (auto intro!: exI[of _ "sect s (part s)"])
  next
    case False
    then obtain x xs where cs: "cs = x # xs" by (cases cs) auto
    have n: "0 < n" using False by simp
    then have rq: "cur k mod 512 = 0 \<or> 512 \<le> n \<or> k + n = length (stream bsz cs)" using less.prems(6) by simp
    obtain cs1 k1 n1 st1 s1 where one: "unsparse_process_chunk (op_write dev) src off n st s = Some (0, off + (n - n1), n1, st1, s1)"
      and adv: "advanced inv part sect bsz (cs, k, n, st, s) (cs1, k1, n1, st1, s1)"
      using chunk_step[OF less.prems(1) less.prems(2)[unfolded cs] n less.prems(3) less.prems(4,5)[unfolded cs]
          rq[unfolded cs] less.prems(7)[unfolded cs]] unfolding cs by blast
    have "0 < remaining_chunks st"
      using rc cs unat_of_nat32[of "length cs"] by (simp add: word_less_nat_alt)
    then have step: "unsparse_loop (op_write dev) src off n st s = unsparse_loop (op_write dev) src (off + (n - n1)) n1 st1 s1"
      using n one by (subst unsparse_loop.simps) simp
    from adv have a: "n1 \<le> n" "inv s1" "part s1 = part s" "pend bsz cs1 k1 st1" "n1 = 0 \<or> k1 = 0"
        "n1 + length cs1 < n + length cs"
        "unat (sp_sector st1) + span bsz (left cs1 k1) = unat (sp_sector st) + span bsz (left cs k)"
      and str: "drop k1 (stream bsz cs1) = drop (k + (n - n1)) (stream bsz cs)"
      by (simp_all add: advanced_def)
    obtain d1 where d1: "sect s1 = (sect s)(part s := d1)" "expand bsz d1 (unat (sp_sector st1)) (left cs1 k1)
        = expand bsz (sect s (part s)) (unat (sp_sector st)) (left cs k)"
      using adv by (auto simp: advanced_def)
    have "bslice (off + (n - n1)) n1 src = drop (n - n1) (bslice off n src)"
      using a(1) by (simp add: bslice_def drop_take add.commute)
    then have sub: "bslice (off + (n - n1)) n1 src = take n1 (drop k1 (stream bsz cs1))"
      unfolding str less.prems(4) using a(1) by (simp add: drop_take add.commute)
    have len: "k1 + n1 \<le> length (stream bsz cs1)"
      using arg_cong[OF str, of length] pend_le[OF a(4)] less.prems(5) a(1,5) by auto
    have req: "n1 = 0 \<or> cur k1 mod 512 = 0 \<or> 512 \<le> n1 \<or> k1 + n1 = length (stream bsz cs1)"
      using a(5) by (auto simp: cur_def)
    have off1: "off + (n - n1) + n1 \<le> length src" using a(1) less.prems(3) by simp
    have room1: "unat (sp_sector st1) + span bsz (left cs1 k1) \<le> cap" using a(7) less.prems(7) by simp
    from less.hyps[OF a(6) a(2,4) off1 sub len req room1]
    obtain cs' k' st' s' d where r: "unsparse_loop (op_write dev) src (off + (n - n1)) n1 st1 s1 = Some (0, st', s')"
        "inv s'" "part s' = part s1" "pend bsz cs' k' st'" "drop k' (stream bsz cs') = drop (k1 + n1) (stream bsz cs1)"
        "unat (sp_sector st') + span bsz (left cs' k') = unat (sp_sector st1) + span bsz (left cs1 k1)"
        "sect s' = (sect s1)(part s1 := d)" "expand bsz d (unat (sp_sector st')) (left cs' k')
           = expand bsz (sect s1 (part s1)) (unat (sp_sector st1)) (left cs1 k1)"
      by blast
    have "drop (k1 + n1) (stream bsz cs1) = drop n1 (drop (k + (n - n1)) (stream bsz cs))"
      unfolding str[symmetric] by (simp add: add.commute)
    also have "\<dots> = drop (k + n) (stream bsz cs)" using a(1) by (simp add: add.commute)
    finally show ?thesis
      using step r a(3,7) d1 by (intro exI[of _ cs'] exI[of _ k'] exI[of _ st'] exI[of _ s']) (auto intro!: exI[of _ d])
  qed
qed

lemma feed_rest:
  assumes "inv s" and "pend bsz cs k st" and "concat secs = drop k (stream bsz cs)" and "cut_ok secs"
    and "unat (sp_sector st) + span bsz (left cs k) \<le> cap"
  shows "\<exists>st' s'. feed dev secs st s = Some (0, st', s') \<and> inv s' \<and> part s' = part s \<and> remaining_chunks st' = 0
    \<and> sect s' = (sect s)(part s := expand bsz (sect s (part s)) (unat (sp_sector st)) (left cs k))"
  using assms
proof (induction secs arbitrary: cs k st s)
  case Nil
  have "cs = []"
  proof (cases cs)
    case (Cons x xs)
    then have "k < length (stream bsz cs)" using Nil.prems(2) by (simp add: pend_def del: enc_chunk.simps)
    then show ?thesis using Nil.prems(3) by simp
  qed simp
  then show ?case using Nil.prems(1,2) by (simp add: pend_def writer_ok_def)
next
  case (Cons x secs)
  note co = cut_ok_Cons[OF Cons.prems(4)]
  have len: "k + length x + length (concat secs) = length (stream bsz cs)"
    using arg_cong[OF Cons.prems(3), of length] pend_le[OF Cons.prems(2)] by simp
  have src: "bslice 0 (length x) x = take (length x) (drop k (stream bsz cs))"
    using arg_cong[OF Cons.prems(3), of "take (length x)"] by simp
  have req: "length x = 0 \<or> cur k mod 512 = 0 \<or> 512 \<le> length x \<or> k + length x = length (stream bsz cs)"
    using co len by auto
  have len1: "k + length x \<le> length (stream bsz cs)" using len by simp
  obtain cs1 k1 st1 s1 d where r: "unsparse_loop (op_write dev) x 0 (length x) st s = Some (0, st1, s1)"
      "inv s1" "part s1 = part s" "pend bsz cs1 k1 st1" "drop k1 (stream bsz cs1) = drop (k + length x) (stream bsz cs)"
      "unat (sp_sector st1) + span bsz (left cs1 k1) = unat (sp_sector st) + span bsz (left cs k)"
      "sect s1 = (sect s)(part s := d)" "expand bsz d (unat (sp_sector st1)) (left cs1 k1)
           = expand bsz (sect s (part s)) (unat (sp_sector st)) (left cs k)"
    using section_loop[OF Cons.prems(1,2) _ src len1 req Cons.prems(5)] by auto
  have "cs \<noteq> []" using Cons.prems(3) co by auto
  then have "remaining_chunks st \<noteq> 0"
    using Cons.prems(2) unat_of_nat32[of "length cs"] by (auto simp: pend_def writer_ok_def)
  then have "do_unsparse_process dev x 0 (length x) st s = Some (0, st1, s1)"
    using r(1) by (simp add: do_unsparse_process_def unsparse_def)
  moreover have cc: "concat secs = drop k1 (stream bsz cs1)"
    unfolding r(5) using arg_cong[OF Cons.prems(3), of "drop (length x)"] by (simp add: add.commute)
  have room1: "unat (sp_sector st1) + span bsz (left cs1 k1) \<le> cap" using r(6) Cons.prems(5) by simp
  obtain st' s' where "feed dev secs st1 s1 = Some (0, st', s')" "inv s'" "part s' = part s1" "remaining_chunks st' = 0"
      "sect s' = (sect s1)(part s1 := expand bsz (sect s1 (part s1)) (unat (sp_sector st1)) (left cs1 k1))"
    using Cons.IH[OF r(2,4) cc _ room1] co by blast
  ultimately show ?case using r by auto
qed

text \<open>The whole image.\<close>

lemma unsparse_sections:
  assumes s: "inv s" and bsz: "blk_ok bsz" and cs: "list_all (chunk_ok bsz) cs" "cs \<noteq> []" "length cs < 2 ^ 32"
    and room: "unat sector + span bsz cs \<le> cap"
    and st: "length (last_header st) = 12" "length (sp_data st) = 512"
    and secs: "concat (x # secs) = image_header bsz minor tot csum (length cs) @ stream bsz cs"
      "28 \<le> length x" "cut_ok (x # secs)"
  shows "\<exists>st' s'. feed dev (x # secs) (do_unsparse_start sector 1 st) s = Some (0, st', s') \<and> inv s' \<and> part s' = part s
    \<and> remaining_chunks st' = 0 \<and> sect s' = (sect s)(part s := expand bsz (sect s (part s)) (unat sector) cs)"
proof -
  note co = cut_ok_Cons[OF secs(3)]
  define r where "r = drop 28 x"
  have x: "x = image_header bsz minor tot csum (length cs) @ r"
  proof -
    have "take 28 (concat (x # secs)) = image_header bsz minor tot csum (length cs)"
      unfolding secs(1) using image_fields(7)[of bsz minor tot csum "length cs"] by simp
    moreover have "take 28 (concat (x # secs)) = take 28 x" using secs(2) by simp
    ultimately show ?thesis unfolding r_def by (metis append_take_drop_id)
  qed
  have str: "r @ concat secs = stream bsz cs" using secs(1) unfolding x by simp
  let ?init = "do_unsparse_start sector 1 st"
  let ?st = "?init\<lparr>remaining_chunks := of_nat (length cs), chunk_offset := 0, block_size := of_nat bsz\<rparr>"
  have p: "pend bsz cs 0 ?st" using st bsz cs by (intro pend_0) (simp_all add: writer_ok_def do_unsparse_start_def)
  have src: "bslice 28 (length r) x = take (length r) (drop 0 (stream bsz cs))"
    using str image_fields(7)[of bsz minor tot csum "length cs"] unfolding x by (simp add: bslice_def flip: str)
  have off: "28 + length r \<le> length x" "0 + length r \<le> length (stream bsz cs)" 
    using secs(2) arg_cong[OF str, of length] by (simp_all add: r_def)
  have sec: "sp_sector ?st = sector" by (simp add: do_unsparse_start_def)
  obtain cs1 k1 st1 s1 d where l: "unsparse_loop (op_write dev) x 28 (length r) ?st s = Some (0, st1, s1)"
      "inv s1" "part s1 = part s" "pend bsz cs1 k1 st1" "drop k1 (stream bsz cs1) = drop (length r) (stream bsz cs)"
      "unat (sp_sector st1) + span bsz (left cs1 k1) = unat sector + span bsz cs"
      "sect s1 = (sect s)(part s := d)" "expand bsz d (unat (sp_sector st1)) (left cs1 k1)
           = expand bsz (sect s (part s)) (unat sector) cs"
    using section_loop[OF s p off(1) src off(2)] room unfolding sec by (auto simp: cur_def)
  have "do_unsparse_process dev x 0 (length x) ?init s = Some (0, st1, s1)"
    using l(1) read_header_ok[OF x, of ?init] by (simp add: do_unsparse_process_def unsparse_def r_def do_unsparse_start_def)
  moreover have cc: "concat secs = drop k1 (stream bsz cs1)" unfolding l(5) by (simp flip: str)
  have room1: "unat (sp_sector st1) + span bsz (left cs1 k1) \<le> cap" using l(6) room by simp
  obtain st' s' where "feed dev secs st1 s1 = Some (0, st', s')" "inv s'" "part s' = part s1" "remaining_chunks st' = 0"
      "sect s' = (sect s1)(part s1 := expand bsz (sect s1 (part s1)) (unat (sp_sector st1)) (left cs1 k1))"
    using feed_rest[OF l(2,4) cc _ room1] co by blast
  ultimately show ?thesis using l by auto
qed

end

end
