(* ===== verification/World.thy ===== *)
theory World
  imports Gpt Sparse Idme Env
begin

text \<open>
  The state of the boot loader above its drivers, and what the code calls below it.

  \<open>world\<close> holds the variables of the components (the partition table, the identity variables, the sparse
  writer, the environment, the boot message, the fastboot command) with the states of the eMMC (\<open>'s\<close>), the USB controller
  (\<open>'u\<close>) and the console (\<open>'c\<close>). \<open>w_ram\<close> is the memory from \<^verbatim>\<open>PHYS_SDRAM_1\<close> on, which the commands address by
  number.

  \<open>plat\<close> lists the calls: the eMMC driver, the console, the transmission of a reply, and the commands that fastboot
  starts. \<open>p_slack\<close> is a choice of the compiler: the number of unused bytes behind the array \<^verbatim>\<open>bootmode\<close> in two stack frames (see \<open>Idme\<close>). A function of C that may leave the boot loader returns \<open>Halt\<close> for that.
\<close>

definition PHYS_SDRAM_1 :: nat where "PHYS_SDRAM_1 = 0x80000000"

datatype halt = Chip_Reset | Power_Off | Warm_Reset | Kernel u32 u32 u32

datatype ret = Ret int | Halt halt

record fb_interface =
  product_name :: "byte list option"
  serial_no :: "byte list option"
  proc_rev :: "byte list option"
  proc_type :: "byte list option"
  proc_version :: "byte list option"
  storage_medium :: nat
  nand_block_size :: u32
  transfer_buffer :: u32
  transfer_buffer_size :: u32

definition NAND :: nat where "NAND = 0"
definition EMMC :: nat where "EMMC = 1"

record fb =
  interface :: fb_interface
  fastboot_confirmed :: bool
  fastboot_countdown :: u32
  download_size :: u32
  download_bytes :: u32
  download_bytes_unpadded :: u32
  download_error :: u32
  mmc_controller_no :: u32
  multiflash_offset :: u32
  multiflash_ptn :: "nat option"
  mmcwrite_is_sparsed :: bool

record ('s, 'u, 'c) world =
  w_dev :: 's
  w_usb :: 'u
  w_con :: 'c
  w_ram :: "byte list"
  w_gpt :: gpt
  w_idme :: idme
  w_sparse :: sparse_state
  w_env :: env
  w_mmc_flag :: "bool list"
  w_bootmsg :: "byte list"
  w_sar :: "byte list"
  w_prm :: "(u32 \<times> u32) list"
  w_fb :: fb
  w_is_recovery_mode :: bool
  w_gnUSBAttached :: bool

record ('s, 'u, 'c, 'w) plat =
  p_dev :: "'s blk_ops"
  p_io :: "'c env_io"
  p_tx :: "byte list \<Rightarrow> 'u \<Rightarrow> 'u option"
  p_gpio :: "nat \<Rightarrow> int"
  p_slack :: nat
  p_bootd :: "'w \<Rightarrow> (ret \<times> 'w) option"
  p_booti :: "byte list list \<Rightarrow> 'w \<Rightarrow> (ret \<times> 'w) option"

text \<open>The offset of an address in the memory; an address below it belongs to no object of the model.\<close>

definition ram_off :: "u32 \<Rightarrow> nat option" where
  "ram_off a = (if PHYS_SDRAM_1 \<le> unat a then Some (unat a - PHYS_SDRAM_1) else None)"

text \<open>A C string in a buffer: none when the buffer holds no terminator.\<close>

definition cstr_at :: "nat \<Rightarrow> byte list \<Rightarrow> byte list option" where
  "cstr_at k buf = (if 0 \<in> set (drop k buf) then Some (cstr_of (drop k buf)) else None)"

end
