(* ===== verification/MmcCmd.thy ===== *)
theory MmcCmd
  imports World
begin

text \<open>
  The commands \<^verbatim>\<open>mmcinit\<close> and \<^verbatim>\<open>mmc\<close> (\<^verbatim>\<open>common/cmd_mmc.c\<close>), which fastboot also calls, and the boot message
  (\<^verbatim>\<open>common/bootmsg.c\<close>), the block of the misc partition by which the running system asks for the recovery image.
\<close>

section \<open>The mmc commands\<close>

text \<open>The usage message dereferences the command table entry: \<open>null\<close> says that the caller passed none.\<close>

definition mmc_cmd_usage :: "bool \<Rightarrow> 'w \<Rightarrow> (int \<times> 'w) option" where
  "mmc_cmd_usage null w = (if null then None else Some (1, w))"

definition do_mmc :: "('s, 'u, 'c, 'w) plat \<Rightarrow> bool \<Rightarrow> byte list list \<Rightarrow> ('s, 'u, 'c) world
    \<Rightarrow> (int \<times> ('s, 'u, 'c) world) option" where
  "do_mmc p null argv w =
     (let argc = length argv; arg = (\<lambda>i. fst (simple_strtoul (argv ! i) 16)) in
      if argc < 2 then mmc_cmd_usage null w
      else if argc = 2 then
        if strncmp_s (argv ! 0) (bytes ''mmcinit'') 7 \<noteq> 0 then mmc_cmd_usage null w
        else let slot_no = arg 1 in
          if slot_no \<noteq> 0 \<and> slot_no \<noteq> 1 then mmc_cmd_usage null w
          else do {
            (r, s) \<leftarrow> op_init (p_dev p) (w_dev w) (unat slot_no);
            let w = w\<lparr>w_dev := s\<rparr>;
            if r \<noteq> 0 then Some (1, w)
            else Some (0, w\<lparr>w_mmc_flag := (w_mmc_flag w)[unat slot_no := True]\<rparr>) }
      else let mmc_cont = arg 1; cmd = argv ! 2 in
        if mmc_cont \<noteq> 0 \<and> mmc_cont \<noteq> 1 then mmc_cmd_usage null w
        else if \<not> w_mmc_flag w ! unat mmc_cont then mmc_cmd_usage null w
        else if strncmp_s cmd (bytes ''read'') 4 \<noteq> 0 \<and> strncmp_s cmd (bytes ''write'') 5 \<noteq> 0
            \<and> strncmp_s cmd (bytes ''erase'') 5 \<noteq> 0 then mmc_cmd_usage null w
        else if strcmp_s cmd (bytes ''erase'') = 0 then
          if argc \<noteq> 5 then mmc_cmd_usage null w
          else do {
            (_, s) \<leftarrow> op_erase (p_dev p) (w_dev w) (unat mmc_cont) (arg 3) (arg 4);
            Some (0, w\<lparr>w_dev := s\<rparr>) }
        else if strcmp_s cmd (bytes ''read'') = 0 then
          if argc \<noteq> 6 then mmc_cmd_usage null w
          else do {
            off \<leftarrow> ram_off (arg 4);
            (_, ram, s) \<leftarrow> op_read (p_dev p) (w_dev w) (unat mmc_cont) (arg 3) (w_ram w) off (arg 5);
            Some (0, w\<lparr>w_dev := s, w_ram := ram\<rparr>) }
        else if strcmp_s cmd (bytes ''write'') = 0 then
          if argc \<noteq> 6 then mmc_cmd_usage null w
          else do {
            off \<leftarrow> ram_off (arg 3);
            (_, s) \<leftarrow> op_write (p_dev p) (w_dev w) (unat mmc_cont) (w_ram w) off (arg 4) (arg 5);
            Some (0, w\<lparr>w_dev := s\<rparr>) }
        else Some (0, w))"

section \<open>The boot message\<close>

definition CFG_BOOTMSG_PARTITION :: "byte list" where "CFG_BOOTMSG_PARTITION = bytes ''misc''"
definition COMMAND_SIZE :: nat where "COMMAND_SIZE = 32"
definition BOOTMSG_COMMAND_RECOVERY :: "byte list" where "BOOTMSG_COMMAND_RECOVERY = bytes ''boot-recovery''"
definition BOOTMSG_COMMAND_NORMAL :: "byte list" where "BOOTMSG_COMMAND_NORMAL = bytes ''boot''"

definition bootmsg_get_command :: "('s, 'u, 'c, 'w) plat \<Rightarrow> ('s, 'u, 'c) world
    \<Rightarrow> (byte list option \<times> ('s, 'u, 'c) world) option" where
  "bootmsg_get_command p w =
     (case fastboot_flash_find_ptn (gp_ptn (w_gpt w)) CFG_BOOTMSG_PARTITION of
        None \<Rightarrow> Some (None, w)
      | Some pte \<Rightarrow> do {
          (_, b, s) \<leftarrow> op_read (p_dev p) (w_dev w) 1 (pt_start pte) (w_bootmsg w) 0 512;
          b \<leftarrow> store (COMMAND_SIZE - 1) [0] b;
          Some (Some (cstr_of b), w\<lparr>w_dev := s, w_bootmsg := b\<rparr>) })"

text \<open>\<^verbatim>\<open>strncpy\<close> copies up to the terminator and stops there, without filling the rest (\<^verbatim>\<open>lib_generic/string.c\<close>).\<close>

definition bootmsg_write_command :: "('s, 'u, 'c, 'w) plat \<Rightarrow> byte list \<Rightarrow> ('s, 'u, 'c) world
    \<Rightarrow> ('s, 'u, 'c) world option" where
  "bootmsg_write_command p command w = do {
     pte \<leftarrow> fastboot_flash_find_ptn (gp_ptn (w_gpt w)) CFG_BOOTMSG_PARTITION;
     (_, b, s) \<leftarrow> op_read (p_dev p) (w_dev w) 1 (pt_start pte) (w_bootmsg w) 0 512;
     b \<leftarrow> store 0 (take COMMAND_SIZE (command @ [0])) b;
     (_, s) \<leftarrow> op_write (p_dev p) s 1 b 0 (pt_start pte) 512;
     b \<leftarrow> store (COMMAND_SIZE - 1) [0] b;
     Some (w\<lparr>w_dev := s, w_bootmsg := b\<rparr>) }"

end
