(* ===== verification/Fastboot.thy ===== *)
theory Fastboot
  imports MmcCmd
begin

text \<open>
  The fastboot command (\<^verbatim>\<open>common/cmd_fastboot.c\<close>). \<open>rx_handler\<close> gets every packet of the host from the USB
  driver: the data of a download in progress, else a command. \<open>Reply\<close> is a command that ends with the
  transmission of its answer, \<open>Leave\<close> one that returns before.

  The tests of the source for the commands are separate \<^verbatim>\<open>if\<close> statements; no two of the prefixes match the same packet,
  so that a chain of alternatives does the same. The packet lies in the driver's array of 512 bytes, longer than every prefix.
  \<^verbatim>\<open>do_nand\<close> is compiled out: \<open>write_to_ptn\<close> and the NAND branch of erase are what is left without it. Messages on the
  console are left out, also those whose \<^verbatim>\<open>sprintf\<close> only fills a local array.
\<close>

definition FLAGS_REPEAT_MASK :: u32 where "FLAGS_REPEAT_MASK = 0xF"
definition FLAGS_NEXT_GOOD_BLOCK :: u32 where "FLAGS_NEXT_GOOD_BLOCK = 0x10"
definition FLAGS_CONTIGUOUS_BLOCK :: u32 where "FLAGS_CONTIGUOUS_BLOCK = 0x20"

definition has_flag :: "fastboot_ptentry \<Rightarrow> u32 \<Rightarrow> bool" where
  "has_flag ptn m \<longleftrightarrow> pt_flags ptn AND m \<noteq> 0"

definition PRM_RSTST :: u32 where "PRM_RSTST = 0x4A307B04"
definition PRM_RSTCTRL :: u32 where "PRM_RSTCTRL = 0x4A307B00"
definition PRM_RSTCTRL_RESET_WARM_BIT :: u32 where "PRM_RSTCTRL_RESET_WARM_BIT = 1"
definition CFG_FASTBOOT_MKBOOTIMAGE_PAGE_SIZE :: u32 where "CFG_FASTBOOT_MKBOOTIMAGE_PAGE_SIZE = 2048"

datatype reply = Reply "byte list" int | Leave ret

section \<open>Pieces\<close>

definition upd_fb :: "(fb \<Rightarrow> fb) \<Rightarrow> ('s, 'u, 'c) world \<Rightarrow> ('s, 'u, 'c) world" where
  "upd_fb f w = w\<lparr>w_fb := f (w_fb w)\<rparr>"

definition tx :: "('s, 'u, 'c, 'w) plat \<Rightarrow> byte list \<Rightarrow> ('s, 'u, 'c) world \<Rightarrow> ('s, 'u, 'c) world option" where
  "tx p response w = do { u \<leftarrow> p_tx p response (w_usb w); Some (w\<lparr>w_usb := u\<rparr>) }"

definition tb :: "('s, 'u, 'c) world \<Rightarrow> nat option" where
  "tb w = ram_off (transfer_buffer (interface (w_fb w)))"

definition find_ptn :: "('s, 'u, 'c) world \<Rightarrow> byte list \<Rightarrow> fastboot_ptentry option" where
  "find_ptn w name = fastboot_flash_find_ptn (gp_ptn (w_gpt w)) name"

text \<open>The pointer \<^verbatim>\<open>fastboot_flash_find_ptn\<close> returns, as an index into \<^verbatim>\<open>ptable\<close>.\<close>

fun find_idx :: "fastboot_ptentry list \<Rightarrow> byte list \<Rightarrow> nat \<Rightarrow> nat option" where
  "find_idx [] name n = None"
| "find_idx (x # xs) name n =
     (if length name = length (cstr_of (pt_name x)) \<and> strcmp_s (cstr_of (pt_name x)) name = 0 then Some n
      else find_idx xs name (n + 1))"

definition find_ptn_index :: "('s, 'u, 'c) world \<Rightarrow> byte list \<Rightarrow> nat option" where
  "find_ptn_index w name = (let t = gp_ptn (w_gpt w) in find_idx (take (pcount t) (ptable t)) name 0)"

definition is_cmd :: "string \<Rightarrow> byte list \<Rightarrow> bool" where
  "is_cmd lit buf \<longleftrightarrow> length lit \<le> length buf \<and> memcmp_s (take (length lit) buf) (bytes lit) = 0"

section \<open>Environment partitions\<close>

definition set_env :: "('s, 'u, 'c, 'w) plat \<Rightarrow> byte list \<Rightarrow> byte list option \<Rightarrow> ('s, 'u, 'c) world \<Rightarrow> ('s, 'u, 'c) world option" where
  "set_env p var val w = do {
     (_, e, c) \<leftarrow> do_setenv (p_io p) [Some (bytes ''setenv''), Some var, val] (w_env w) (w_con w);
     Some (w\<lparr>w_env := e, w_con := c\<rparr>) }"

definition save_env :: "('s, 'u, 'c, 'w) plat \<Rightarrow> byte list \<Rightarrow> byte list option \<Rightarrow> ('s, 'u, 'c) world \<Rightarrow> ('s, 'u, 'c) world option" where
  "save_env p var val w = do {
     w \<leftarrow> set_env p var val w;
     (_, c) \<leftarrow> do_saveenv (p_io p) [bytes ''setenv''] (w_con w);
     Some (w\<lparr>w_con := c\<rparr>) }"

definition save_block_values :: "('s, 'u, 'c, 'w) plat \<Rightarrow> fastboot_ptentry \<Rightarrow> u32 \<Rightarrow> u32 \<Rightarrow> ('s, 'u, 'c) world
    \<Rightarrow> ('s, 'u, 'c) world option" where
  "save_block_values p ptn offset sz w = do {
     var \<leftarrow> sprintf ''%s_nand_offset'' [VStr (Some (cstr_of (pt_name ptn)))];
     val \<leftarrow> (if sz = 0 then Some [] else sprintf ''0x%x'' [VInt offset]);
     w \<leftarrow> set_env p var (Some val) w;
     var \<leftarrow> sprintf ''%s_nand_size'' [VStr (Some (cstr_of (pt_name ptn)))];
     val \<leftarrow> (if sz = 0 then Some [] else sprintf ''0x%x'' [VInt sz]);
     w \<leftarrow> set_env p var (Some val) w;
     (_, c) \<leftarrow> do_saveenv (p_io p) [bytes ''setenv''] (w_con w);
     Some (w\<lparr>w_con := c\<rparr>) }"

definition reset_handler :: "('s, 'u, 'c) world \<Rightarrow> ('s, 'u, 'c) world" where
  "reset_handler = upd_fb (\<lambda>f. f\<lparr>download_size := 0, download_bytes := 0, download_bytes_unpadded := 0, download_error := 0\<rparr>)"

text \<open>The scanner of an environment file. \<^verbatim>\<open>val_end\<close> is cleared in the round that sets it, so that it needs no place
  in the state and the internal error of the source is never reached.\<close>

record penv =
  pe_buf :: "byte list"
  pe_var :: "nat option"
  pe_var_end :: "nat option"
  pe_val :: "nat option"
  pe_sets :: nat

definition is_nl :: "byte \<Rightarrow> bool" where "is_nl c \<longleftrightarrow> c = 13 \<or> c = 10"
definition is_blank :: "byte \<Rightarrow> bool" where "is_blank c \<longleftrightarrow> c = 0x20 \<or> c = 9"

definition save_pair :: "('s, 'u, 'c, 'w) plat \<Rightarrow> bool \<Rightarrow> penv \<Rightarrow> ('s, 'u, 'c) world \<Rightarrow> ('s, 'u, 'c) world option" where
  "save_pair p save st w =
     (if save then do {
        i \<leftarrow> pe_var st;
        var \<leftarrow> cstr_at i (pe_buf st);
        val \<leftarrow> (case pe_val st of None \<Rightarrow> Some None
               | Some j \<Rightarrow> do { v \<leftarrow> cstr_at j (pe_buf st); Some (Some v) });
        save_env p var val w }
      else Some w)"

definition parse_env_step :: "('s, 'u, 'c, 'w) plat \<Rightarrow> bool \<Rightarrow> nat \<Rightarrow> penv \<Rightarrow> ('s, 'u, 'c) world
    \<Rightarrow> (penv \<times> ('s, 'u, 'c) world) option" where
  "parse_env_step p save i st w = do {
     c \<leftarrow> at (pe_buf st) i;
     if pe_var st = None then
       if is_blank c \<or> is_nl c then Some (st, w) else Some (st\<lparr>pe_var := Some i\<rparr>, w)
     else if (pe_var_end st = None \<or> pe_val st = None) \<and> is_nl c then do {
       b \<leftarrow> (if save then store i [0] (pe_buf st) else Some (pe_buf st));
       let st = st\<lparr>pe_buf := b\<rparr>;
       w \<leftarrow> save_pair p save st w;
       Some (st\<lparr>pe_var := None, pe_var_end := None, pe_sets := pe_sets st + 1\<rparr>, w) }
     else if pe_var_end st = None then
       if is_blank c then Some (st\<lparr>pe_var_end := Some i\<rparr>, w) else Some (st, w)
     else if pe_val st = None then
       if is_blank c then Some (st, w) else Some (st\<lparr>pe_val := Some i\<rparr>, w)
     else if is_nl c then do {
       prev \<leftarrow> at (pe_buf st) (i - 1);
       if prev = 0x5c then do {
         nxt \<leftarrow> (if c = 13 then at (pe_buf st) (i + 1) else Some 0);
         b \<leftarrow> (if c = 13 \<and> nxt = 10 then store (i + 1) [0x20] (pe_buf st) else Some (pe_buf st));
         b \<leftarrow> store (i - 1) [0x20, 0x20] b;
         Some (st\<lparr>pe_buf := b\<rparr>, w) }
       else do {
         ve \<leftarrow> pe_var_end st;
         b \<leftarrow> (if save then do { b \<leftarrow> store ve [0] (pe_buf st); store i [0] b } else Some (pe_buf st));
         let st = st\<lparr>pe_buf := b\<rparr>;
         w \<leftarrow> save_pair p save st w;
         Some (st\<lparr>pe_var := None, pe_var_end := None, pe_val := None, pe_sets := pe_sets st + 1\<rparr>, w) } }
     else Some (st, w) }"

fun parse_env_loop :: "('s, 'u, 'c, 'w) plat \<Rightarrow> bool \<Rightarrow> nat \<Rightarrow> nat \<Rightarrow> penv \<Rightarrow> ('s, 'u, 'c) world
    \<Rightarrow> (penv \<times> ('s, 'u, 'c) world) option" where
  "parse_env_loop p save 0 i st w = Some (st, w)"
| "parse_env_loop p save (Suc n) i st w = do {
     (st, w) \<leftarrow> parse_env_step p save i st w;
     parse_env_loop p save n (i + 1) st w }"

definition parse_env :: "('s, 'u, 'c, 'w) plat \<Rightarrow> bool \<Rightarrow> byte list \<Rightarrow> ('s, 'u, 'c) world
    \<Rightarrow> (int \<times> byte list \<times> ('s, 'u, 'c) world) option" where
  "parse_env p save err w = do {
     off \<leftarrow> tb w;
     let sz = unat (download_bytes_unpadded (w_fb w));
     let buf = drop off (w_ram w);
     buf \<leftarrow> (if save then store sz [0] buf else Some buf);
     (st, w) \<leftarrow> parse_env_loop p save sz 0
        \<lparr>pe_buf = buf, pe_var = None, pe_var_end = None, pe_val = None, pe_sets = 0\<rparr> w;
     (st, w) \<leftarrow>
       (if pe_var st = None then Some (st, w) else do {
          b \<leftarrow> (case (if save then pe_var_end st else None) of None \<Rightarrow> Some (pe_buf st) | Some ve \<Rightarrow> store ve [0] (pe_buf st));
          let st = st\<lparr>pe_buf := b\<rparr>;
          w \<leftarrow> save_pair p save st w;
          Some (st\<lparr>pe_sets := pe_sets st + 1\<rparr>, w) });
     let w = w\<lparr>w_ram := take off (w_ram w) @ pe_buf st\<rparr>;
     if pe_sets st = 0 then Some (1, bytes ''No variables set'', w) else Some (0, err, w) }"

definition saveenv_to_ptn :: "('s, 'u, 'c, 'w) plat \<Rightarrow> ('s, 'u, 'c) world \<Rightarrow> (int \<times> byte list \<times> ('s, 'u, 'c) world) option" where
  "saveenv_to_ptn p w = do {
     (r, err, w) \<leftarrow> parse_env p False (bytes ''Unknown Error'') w;
     if r = 0 then parse_env p True err w else Some (1, err, w) }"

section \<open>Writing partitions\<close>

text \<open>Without \<^verbatim>\<open>do_nand\<close> the result stays 1 and the first round ends the loop.\<close>

definition write_to_ptn :: "('s, 'u, 'c, 'w) plat \<Rightarrow> fastboot_ptentry \<Rightarrow> ('s, 'u, 'c) world \<Rightarrow> (int \<times> ('s, 'u, 'c) world) option" where
  "write_to_ptn p ptn w =
     (if has_flag ptn FLAGS_NEXT_GOOD_BLOCK \<or> has_flag ptn FLAGS_CONTIGUOUS_BLOCK then Some (1, w)
      else do { w \<leftarrow> save_block_values p ptn 0 0 w; Some (1, w) })"

definition write_to_ptn_emmc :: "('s, 'u, 'c, 'w) plat \<Rightarrow> fastboot_ptentry \<Rightarrow> u32 \<Rightarrow> ('s, 'u, 'c) world
    \<Rightarrow> (int \<times> byte list \<times> ('s, 'u, 'c) world) option" where
  "write_to_ptn_emmc p ptn offset w = do {
     tboff \<leftarrow> tb w;
     (r, w) \<leftarrow>
       (if offset = 0 then do {
          (r, s) \<leftarrow> op_init (p_dev p) (w_dev w) 1;
          let w = w\<lparr>w_dev := s\<rparr>;
          if r \<noteq> 0 then Some (1 :: int, w) else do {
          magic \<leftarrow> load tboff 4 (w_ram w);
          if of_le magic = SPARSE_HEADER_MAGIC then
            Some (0, upd_fb (\<lambda>f. f\<lparr>mmcwrite_is_sparsed := True\<rparr>)
                       (w\<lparr>w_sparse := do_unsparse_start (pt_start ptn) 1 (w_sparse w)\<rparr>))
          else Some (0, upd_fb (\<lambda>f. f\<lparr>mmcwrite_is_sparsed := False\<rparr>) w) } }
        else Some (0, w));
     if r \<noteq> 0 then Some (-1, bytes ''FAIL:Init of MMC card'', w) else
     if mmcwrite_is_sparsed (w_fb w) then do {
       (ret, st, s) \<leftarrow> do_unsparse_process (p_dev p) (w_ram w) tboff (unat (download_bytes (w_fb w))) (w_sparse w) (w_dev w);
       let w = w\<lparr>w_sparse := st, w_dev := s\<rparr>;
       if ret = 0 then Some (0, bytes ''OKAY'', w) else Some (-1, bytes ''FAIL: Sparsed Write'', w) }
     else do {
       (ret, s) \<leftarrow> op_write (p_dev p) (w_dev w) 1 (w_ram w) tboff (pt_start ptn + offset div 512) (download_bytes (w_fb w));
       let w = w\<lparr>w_dev := s\<rparr>;
       if ret \<le> 0 then Some (-1, bytes ''FAIL: Write partition'', w) else Some (0, bytes ''OKAY'', w) } }"

section \<open>The commands\<close>

definition cmd_continue :: "('s, 'u, 'c, ('s, 'u, 'c) world) plat \<Rightarrow> ('s, 'u, 'c) world \<Rightarrow> (reply \<times> ('s, 'u, 'c) world) option" where
  "cmd_continue p w = do {
     w \<leftarrow> tx p (bytes ''OKAY'') w;
     (r, w) \<leftarrow> p_bootd p w;
     case r of Halt h \<Rightarrow> Some (Leave (Halt h), w) | Ret _ \<Rightarrow> Some (Reply (bytes ''FAIL: invalid boot image'') 0, w) }"

text \<open>The warm reset of the chip: the reset reasons are cleared, the reason for the next start is left in the
  memory that survives the reset, and the reset bit is written.\<close>

definition warm_reset :: "byte list \<Rightarrow> ('s, 'u, 'c) world \<Rightarrow> ('s, 'u, 'c) world option" where
  "warm_reset reason w = do {
     sar \<leftarrow> store 0 (reason @ [0]) (w_sar w);
     Some (w\<lparr>w_sar := sar, w_prm := w_prm w @ [(PRM_RSTST, 0xfff), (PRM_RSTCTRL, PRM_RSTCTRL_RESET_WARM_BIT)]\<rparr>) }"

definition cmd_reboot_bootloader :: "('s, 'u, 'c, 'w) plat \<Rightarrow> ('s, 'u, 'c) world \<Rightarrow> (reply \<times> ('s, 'u, 'c) world) option" where
  "cmd_reboot_bootloader p w = do {
     w \<leftarrow> tx p (bytes ''OKAY'') w;
     w \<leftarrow> warm_reset (bytes ''bootloader'') w;
     Some (Leave (Ret 0), w) }"

definition cmd_reboot :: "('s, 'u, 'c, 'w) plat \<Rightarrow> ('s, 'u, 'c) world \<Rightarrow> (reply \<times> ('s, 'u, 'c) world) option" where
  "cmd_reboot p w = do {
     w \<leftarrow> tx p (bytes ''OKAY'') w;
     sar \<leftarrow> store 0 [0] (w_sar w);
     Some (Leave (Halt Chip_Reset), w\<lparr>w_sar := sar\<rparr>) }"

text \<open>\<^verbatim>\<open>strcpy(response + 4, x)\<close> into the 65 bytes of \<^verbatim>\<open>response\<close>; a null pointer leaves \<^verbatim>\<open>OKAY\<close>.\<close>

definition okay_with :: "byte list option \<Rightarrow> byte list option" where
  "okay_with x = (case x of None \<Rightarrow> Some (bytes ''OKAY'')
     | Some s \<Rightarrow> if length s \<le> 60 then Some (bytes ''OKAY'' @ s) else None)"

definition cmd_getvar :: "byte list \<Rightarrow> ('s, 'u, 'c) world \<Rightarrow> (reply \<times> ('s, 'u, 'c) world) option" where
  "cmd_getvar cmdbuf w = do {
     v \<leftarrow> cstr_at 7 cmdbuf;
     let i = interface (w_fb w);
     let is = (\<lambda>lit. strcmp_s v (bytes lit) = 0);
     r \<leftarrow> (if is ''version'' then okay_with (Some (bytes ''0.5''))
          else if is ''product'' then okay_with (product_name i)
          else if is ''serialno'' then okay_with (serial_no i)
          else if is ''downloadsize'' then
            if transfer_buffer_size i \<noteq> 0 then do { s \<leftarrow> sprintf ''%08x'' [VInt (transfer_buffer_size i)]; okay_with (Some s) }
            else okay_with None
          else if is ''max-download-size'' then
            if transfer_buffer_size i \<noteq> 0 then do { s \<leftarrow> sprintf ''%lu'' [VInt (transfer_buffer_size i)]; okay_with (Some s) }
            else okay_with None
          else if is ''cpurev'' then okay_with (proc_rev i)
          else if is ''secure'' then okay_with (proc_type i)
          else okay_with None);
     Some (Reply r 0, w) }"

definition cmd_oem :: "('s, 'u, 'c, 'w) plat \<Rightarrow> byte list \<Rightarrow> ('s, 'u, 'c) world \<Rightarrow> (reply \<times> ('s, 'u, 'c) world) option" where
  "cmd_oem p cmdbuf w =
     (if is_cmd ''shutdown'' cmdbuf then do {
        w \<leftarrow> tx p (bytes ''SHUTDOWN'') w;
        Some (Leave (Halt Power_Off), w) }
      else if is_cmd ''idme '' cmdbuf then do {
        cmd \<leftarrow> cstr_at 5 cmdbuf;
        (r, _, i, s) \<leftarrow> fastboot_idme (p_dev p) cmd (w_idme w) (w_dev w);
        Some (Reply (if r \<noteq> 0 then bytes ''FAIL'' else bytes ''OKAY'') 0, w\<lparr>w_idme := i, w_dev := s\<rparr>) }
      else if is_cmd ''format'' cmdbuf then do {
        cmd \<leftarrow> cstr_at 0 cmdbuf;
        (r, g, s) \<leftarrow> fastboot_oem (p_dev p) cmd (w_gpt w) (w_dev w);
        Some (Reply (if r < 0 then bytes ''FAIL'' else bytes ''OKAY'') r, w\<lparr>w_gpt := g, w_dev := s\<rparr>) }
      else if is_cmd ''recovery'' cmdbuf then do {
        w \<leftarrow> tx p (bytes ''OKAY'') w;
        w \<leftarrow> warm_reset (bytes ''recovery'') w;
        Some (Leave (Halt Warm_Reset), w) }
      else Some (Reply (bytes ''FAIL'') 0, w))"

text \<open>Erasing through \<^verbatim>\<open>do_mmc\<close>, with printed arguments: \<^verbatim>\<open>%x\<close> takes the low 32 bits of the 64 bit length.\<close>

definition erase_emmc :: "('s, 'u, 'c, 'w) plat \<Rightarrow> fastboot_ptentry \<Rightarrow> ('s, 'u, 'c) world
    \<Rightarrow> (byte list \<times> ('s, 'u, 'c) world) option" where
  "erase_emmc p ptn w = do {
     slot \<leftarrow> sprintf ''%d'' [VInt (mmc_controller_no (w_fb w))];
     len \<leftarrow> sprintf ''0x%x'' [VInt (ucast (pt_length ptn))];
     start \<leftarrow> sprintf ''0x%x'' [VInt (pt_start ptn)];
     (_, w) \<leftarrow> do_mmc p True [bytes ''mmcinit'', slot] w;
     (r, w) \<leftarrow> do_mmc p True [bytes ''mmc'', slot, bytes ''erase'', start, len] w;
     Some (if r \<noteq> 0 then bytes ''FAIL: Erase partition'' else bytes ''OKAY'', w) }"

definition cmd_erase :: "('s, 'u, 'c, 'w) plat \<Rightarrow> byte list \<Rightarrow> ('s, 'u, 'c) world \<Rightarrow> (reply \<times> ('s, 'u, 'c) world) option" where
  "cmd_erase p cmdbuf w =
     (if storage_medium (interface (w_fb w)) = NAND then do {
        name \<leftarrow> cstr_at 6 cmdbuf;
        Some (Reply (if find_ptn w name = None then bytes ''FAILpartition does not exist'' else bytes ''OKAY'') 0, w) }
      else if storage_medium (interface (w_fb w)) = EMMC then do {
        let w = upd_fb (\<lambda>f. f\<lparr>mmc_controller_no := 1\<rparr>) w;
        name \<leftarrow> cstr_at 6 cmdbuf;
        (r, w) \<leftarrow> (case find_ptn w name of
            None \<Rightarrow> Some (bytes ''FAIL: partition doesn't exist'', w)
          | Some ptn \<Rightarrow> erase_emmc p ptn w);
        Some (Reply r 0, w) }
      else Some (Reply (bytes ''FAIL'') 0, w))"

definition cmd_mmcerase :: "('s, 'u, 'c, 'w) plat \<Rightarrow> byte list \<Rightarrow> ('s, 'u, 'c) world \<Rightarrow> (reply \<times> ('s, 'u, 'c) world) option" where
  "cmd_mmcerase p cmdbuf w = do {
     num \<leftarrow> cstr_at 9 cmdbuf;
     let w = upd_fb (\<lambda>f. f\<lparr>mmc_controller_no := fst (simple_strtoul num 10)\<rparr>) w;
     name \<leftarrow> cstr_at 11 cmdbuf;
     (r, w) \<leftarrow> (case find_ptn w name of
         None \<Rightarrow> Some (bytes ''FAIL: partition doesn't exist'', w)
       | Some ptn \<Rightarrow> erase_emmc p ptn w);
     Some (Reply r 1, w) }"

definition cmd_download :: "byte list \<Rightarrow> ('s, 'u, 'c) world \<Rightarrow> (reply \<times> ('s, 'u, 'c) world) option" where
  "cmd_download cmdbuf w = do {
     num \<leftarrow> cstr_at 9 cmdbuf;
     let n = fst (simple_strtoul num 16);
     let w = upd_fb (\<lambda>f. f\<lparr>download_size := n, download_bytes := 0, download_error := 0\<rparr>) w;
     if n = 0 then Some (Reply (bytes ''FAILdata invalid size'') 0, w)
     else if n > transfer_buffer_size (interface (w_fb w)) then
       Some (Reply (bytes ''FAILdata too large'') 0, upd_fb (\<lambda>f. f\<lparr>download_size := 0\<rparr>) w)
     else do { r \<leftarrow> sprintf ''DATA%08x'' [VInt n]; Some (Reply r 0, w) } }"

definition cmd_boot :: "('s, 'u, 'c, ('s, 'u, 'c) world) plat \<Rightarrow> ('s, 'u, 'c) world \<Rightarrow> (reply \<times> ('s, 'u, 'c) world) option" where
  "cmd_boot p w =
     (if download_bytes (w_fb w) \<noteq> 0 \<and> CFG_FASTBOOT_MKBOOTIMAGE_PAGE_SIZE < download_bytes (w_fb w) then do {
        start \<leftarrow> sprintf ''0x%x'' [VInt (transfer_buffer (interface (w_fb w)))];
        w \<leftarrow> tx p (bytes ''OKAY'') w;
        (r, w) \<leftarrow> p_booti p [bytes ''booti'', start, bytes ''boot''] w;
        case r of Halt h \<Rightarrow> Some (Leave (Halt h), w) | Ret _ \<Rightarrow> Some (Reply (bytes ''FAILinvalid boot image'') 0, w) }
      else Some (Reply (bytes ''FAILinvalid boot image'') 0, w))"

definition cmd_mmcwrite :: "('s, 'u, 'c, 'w) plat \<Rightarrow> byte list \<Rightarrow> ('s, 'u, 'c) world \<Rightarrow> (reply \<times> ('s, 'u, 'c) world) option" where
  "cmd_mmcwrite p cmdbuf w =
     (if download_bytes (w_fb w) = 0 then Some (Reply (bytes ''FAILno image downloaded'') 1, w) else do {
        num \<leftarrow> cstr_at 9 cmdbuf;
        let w = upd_fb (\<lambda>f. f\<lparr>mmc_controller_no := fst (simple_strtoul num 10)\<rparr>) w;
        name \<leftarrow> cstr_at 11 cmdbuf;
        case find_ptn w name of
          None \<Rightarrow> Some (Reply (bytes ''FAILpartition does not exist'') 1, w)
        | Some ptn \<Rightarrow> do { (_, r, w) \<leftarrow> write_to_ptn_emmc p ptn 0 w; Some (Reply r 1, w) } })"

definition flash_nand :: "('s, 'u, 'c, 'w) plat \<Rightarrow> fastboot_ptentry \<Rightarrow> ('s, 'u, 'c) world \<Rightarrow> (byte list \<times> ('s, 'u, 'c) world) option" where
  "flash_nand p ptn w =
     (if has_flag ptn FLAGS_WRITE_ENV then do {
        (r, err, w) \<leftarrow> saveenv_to_ptn p w;
        if r \<noteq> 0 then do { resp \<leftarrow> sprintf ''FAIL%s'' [VStr (Some err)]; Some (resp, w) } else Some (bytes ''OKAY'', w) }
      else do {
        (r, w) \<leftarrow> write_to_ptn p ptn w;
        Some (if r \<noteq> 0 then bytes ''FAILfailed to flash partition'' else bytes ''OKAY'', w) })"

text \<open>The environment file of an eMMC partition: the downloaded text replaces the environment.\<close>

definition flash_env :: "('s, 'u, 'c, 'w) plat \<Rightarrow> ('s, 'u, 'c) world \<Rightarrow> (byte list \<times> ('s, 'u, 'c) world) option" where
  "flash_env p w = do {
     off \<leftarrow> tb w;
     let n = unat (download_bytes (w_fb w));
     txt \<leftarrow> load off n (w_ram w);
     let txt = map (\<lambda>b. if b = 0x0a then 0 else b) txt;
     ram \<leftarrow> store off txt (w_ram w);
     d \<leftarrow> store 0 txt (replicate ENV_SIZE 0);
     (_, c) \<leftarrow> do_saveenv (p_io p) [[], bytes ''-f''] (w_con w);
     Some (bytes ''OKAY'', w\<lparr>w_ram := ram, w_env := (w_env w)\<lparr>env_data := d\<rparr>, w_con := c\<rparr>) }"

definition cmd_flash :: "('s, 'u, 'c, 'w) plat \<Rightarrow> byte list \<Rightarrow> ('s, 'u, 'c) world \<Rightarrow> (reply \<times> ('s, 'u, 'c) world) option" where
  "cmd_flash p cmdbuf w =
     (let medium = storage_medium (interface (w_fb w)); n = download_bytes (w_fb w) in
      if medium \<noteq> NAND \<and> medium \<noteq> EMMC then Some (Reply (bytes ''FAIL'') 0, w)
      else if n = 0 then Some (Reply (bytes ''FAILno image downloaded'') 0, w)
      else do {
        name \<leftarrow> cstr_at 6 cmdbuf;
        case find_ptn w name of
          None \<Rightarrow> Some (Reply (bytes ''FAILpartition does not exist'') 0, w)
        | Some ptn \<Rightarrow>
            if ucast n > pt_length ptn \<and> \<not> has_flag ptn FLAGS_WRITE_ENV then
              Some (Reply (bytes ''FAILimage too large for partition'') 0, w)
            else do {
              (r, w) \<leftarrow> (if medium = NAND then flash_nand p ptn w
                   else if has_flag ptn FLAGS_WRITE_ENV then flash_env p w
                   else do { (_, r, w) \<leftarrow> write_to_ptn_emmc p ptn 0 w; Some (r, w) });
              Some (Reply r 0, w) } })"

text \<open>A new partition starts at its beginning; the pointers are compared.\<close>

definition multi_select :: "nat option \<Rightarrow> ('s, 'u, 'c) world \<Rightarrow> ('s, 'u, 'c) world" where
  "multi_select ix w =
     (if ix \<noteq> multiflash_ptn (w_fb w) then upd_fb (\<lambda>f. f\<lparr>multiflash_ptn := ix, multiflash_offset := 0\<rparr>) w else w)"

definition cmd_multiflash :: "('s, 'u, 'c, 'w) plat \<Rightarrow> byte list \<Rightarrow> ('s, 'u, 'c) world \<Rightarrow> (reply \<times> ('s, 'u, 'c) world) option" where
  "cmd_multiflash p cmdbuf w =
     (let medium = storage_medium (interface (w_fb w)); n = download_bytes (w_fb w) in
      if medium = NAND then Some (Reply (bytes ''FAILmultiflash is not supported for NAND'') 0, w)
      else if medium \<noteq> EMMC then Some (Reply (bytes ''FAIL'') 0, w)
      else if n = 0 then Some (Reply (bytes ''FAILno image downloaded'') 0, w)
      else do {
        name \<leftarrow> cstr_at 13 cmdbuf;
        let ix = find_ptn_index w name;
        let w = multi_select ix w;
        case find_ptn w name of
          None \<Rightarrow> Some (Reply (bytes ''FAILpartition does not exist'') 0, w)
        | Some ptn \<Rightarrow>
            if has_flag ptn FLAGS_WRITE_ENV then
              Some (Reply (bytes ''FAILpartition not supported with multiflash'') 0, w)
            else if ucast (n + multiflash_offset (w_fb w)) > pt_length ptn then
              Some (Reply (bytes ''FAILimage too large for partition'') 0, w)
            else do {
              (st, r, w) \<leftarrow> write_to_ptn_emmc p ptn (multiflash_offset (w_fb w)) w;
              let w = (if st \<noteq> 0 then w
                       else if is_cmd ''1'' (drop 11 cmdbuf) then upd_fb (\<lambda>f. f\<lparr>multiflash_offset := 0, multiflash_ptn := None\<rparr>) w
                       else upd_fb (\<lambda>f. f\<lparr>multiflash_offset := multiflash_offset f + n\<rparr>) w);
              Some (Reply r 0, w) } })"

section \<open>The packet handler\<close>

definition rx_cmd :: "('s, 'u, 'c, ('s, 'u, 'c) world) plat \<Rightarrow> byte list \<Rightarrow> ('s, 'u, 'c) world \<Rightarrow> (reply \<times> ('s, 'u, 'c) world) option" where
  "rx_cmd p cmdbuf w =
     (if is_cmd ''continue'' cmdbuf then cmd_continue p w
      else if is_cmd ''reboot-bootloader'' cmdbuf then cmd_reboot_bootloader p w
      else if is_cmd ''reboot'' cmdbuf then cmd_reboot p w
      else if is_cmd ''getvar:'' cmdbuf then cmd_getvar cmdbuf w
      else if is_cmd ''oem '' cmdbuf then cmd_oem p (drop 4 cmdbuf) w
      else if is_cmd ''erase:'' cmdbuf then cmd_erase p cmdbuf w
      else if is_cmd ''mmcerase:'' cmdbuf then cmd_mmcerase p cmdbuf w
      else if is_cmd ''download:'' cmdbuf then cmd_download cmdbuf w
      else if is_cmd ''boot'' cmdbuf then cmd_boot p w
      else if is_cmd ''mmcwrite:'' cmdbuf then cmd_mmcwrite p cmdbuf w
      else if is_cmd ''flash:'' cmdbuf then cmd_flash p cmdbuf w
      else if is_cmd ''multiflash:'' cmdbuf then cmd_multiflash p cmdbuf w
      else Some (Reply (bytes ''FAIL'') 1, w))"

fun pad_loop :: "nat \<Rightarrow> nat \<Rightarrow> u32 \<Rightarrow> byte list \<Rightarrow> u32 \<Rightarrow> (byte list \<times> u32) option" where
  "pad_loop 0 off lim ram n = Some (ram, n)"
| "pad_loop (Suc k) off lim ram n =
     (if n \<ge> lim then Some (ram, n)
      else do { ram \<leftarrow> store (off + unat n) [0] ram; pad_loop k off lim ram (n + 1) })"

text \<open>Filling the last block of a download with zeros, for NAND only.\<close>

definition pad_download :: "fb_interface \<Rightarrow> nat \<Rightarrow> byte list \<Rightarrow> u32 \<Rightarrow> (byte list \<times> u32) option" where
  "pad_download i off ram n =
     (if nand_block_size i \<noteq> 0 \<and> n mod nand_block_size i \<noteq> 0 then
        pad_loop (unat (nand_block_size i - n mod nand_block_size i)) off (transfer_buffer_size i) ram n
      else Some (ram, n))"

text \<open>The end of a download.\<close>

definition rx_done :: "('s, 'u, 'c, 'w) plat \<Rightarrow> nat \<Rightarrow> ('s, 'u, 'c) world \<Rightarrow> ('s, 'u, 'c) world option" where
  "rx_done p off w = do {
     let w = upd_fb (\<lambda>f. f\<lparr>download_size := 0\<rparr>) w;
     w \<leftarrow> tx p (if download_error (w_fb w) \<noteq> 0 then bytes ''ERROR'' else bytes ''OKAY'') w;
     let i = interface (w_fb w);
     if storage_medium i = NAND then do {
       let w = upd_fb (\<lambda>f. f\<lparr>download_bytes_unpadded := download_bytes f\<rparr>) w;
       let n = download_bytes (w_fb w);
       (ram, n) \<leftarrow> pad_download i off (w_ram w) n;
       Some (upd_fb (\<lambda>f. f\<lparr>download_bytes := n\<rparr>) (w\<lparr>w_ram := ram\<rparr>)) }
     else Some w }"

text \<open>One packet of a download. The progress display divides by 16 times the block size.\<close>

definition rx_data :: "('s, 'u, 'c, 'w) plat \<Rightarrow> byte list \<Rightarrow> u32 \<Rightarrow> ('s, 'u, 'c) world \<Rightarrow> ('s, 'u, 'c) world option" where
  "rx_data p buffer buffer_size w =
     (if buffer_size = 0 then Some w else do {
        off \<leftarrow> tb w;
        let transfer_size = download_size (w_fb w) - download_bytes (w_fb w);
        let transfer_size = (if buffer_size < transfer_size then buffer_size else transfer_size);
        bs \<leftarrow> load 0 (unat transfer_size) buffer;
        ram \<leftarrow> store (off + unat (download_bytes (w_fb w))) bs (w_ram w);
        let w = upd_fb (\<lambda>f. f\<lparr>download_bytes := download_bytes f + transfer_size\<rparr>) (w\<lparr>w_ram := ram\<rparr>);
        w \<leftarrow> (if download_bytes (w_fb w) \<ge> download_size (w_fb w) then rx_done p off w else Some w);
        if download_bytes (w_fb w) \<noteq> 0 \<and> 16 * nand_block_size (interface (w_fb w)) = 0 then None else Some w })"

definition rx_handler :: "('s, 'u, 'c, ('s, 'u, 'c) world) plat \<Rightarrow> byte list \<Rightarrow> u32 \<Rightarrow> ('s, 'u, 'c) world
    \<Rightarrow> (ret \<times> ('s, 'u, 'c) world) option" where
  "rx_handler p buffer buffer_size w =
     (if download_size (w_fb w) \<noteq> 0 then do { w \<leftarrow> rx_data p buffer buffer_size w; Some (Ret 0, w) }
      else do {
        (r, w) \<leftarrow> rx_cmd p buffer (upd_fb (\<lambda>f. f\<lparr>fastboot_confirmed := True\<rparr>) w);
        case r of
          Leave x \<Rightarrow> Some (x, w)
        | Reply response x \<Rightarrow> do { w \<leftarrow> tx p response w; Some (Ret x, w) } })"

end
