(* ===== verification/Usb.thy ===== *)
theory Usb
  imports Mmc Fastboot
begin

text \<open>
  The USB device driver under the fastboot command, \<^verbatim>\<open>drivers/fastboot.c\<close> with \<^verbatim>\<open>drivers/musb_regs.h\<close>, \<^verbatim>\<open>drivers/usbomap.h\<close> and
  the identification of the chip in \<^verbatim>\<open>cpu/omap4/sys_info.c\<close>; then the fastboot command itself, \<^verbatim>\<open>do_fastboot\<close>.

  The MUSB controller is reached through the registers \<open>bus\<close>, as the eMMC controller is in the theory \<open>Mmc\<close>. A register of 8 or
  16 bits reads as its value. \<open>dma_mem\<close> is what a finished DMA transfer has left in the buffer, \<open>midr\<close> what the coprocessor
  instruction of \<^verbatim>\<open>cortex_a9_rev\<close> reads, \<open>bulk_addr\<close> the address of \<^verbatim>\<open>fastboot_bulk_fifo\<close>.

  \<open>'h usb\<close> holds the static variables of the driver. A request the driver does not answer within its buffers, a poll for a bit
  that never comes, and a string that is a null pointer have no result. What is printed or drawn is not modelled.
\<close>

section \<open>Registers\<close>

record 'h usb_hw =
  bus :: "'h hw"
  midr :: u32
  bulk_addr :: u32
  dma_mem :: "'h \<Rightarrow> byte list"
  i2c_rd :: "'h \<Rightarrow> u32 \<Rightarrow> u32 \<Rightarrow> byte option \<times> 'h"

record usb_device_request =
  bmRequestType :: byte
  bRequest :: byte
  wValue :: u16
  wIndex :: u16
  wLength :: u16

record 'h usb =
  u_hw :: 'h
  fastboot_fifo :: "byte list"
  fastboot_fifo_used :: u16
  set_address :: bool
  faddr :: byte
  current_config :: u32
  high_speed :: bool
  deferred_rx :: bool
  req :: usb_device_request
  fastboot_bulk_fifo :: "byte list"
  device_strings :: "byte list option list"
  fastboot_interface :: bool
  board_type :: "byte list"
  blink :: u32

definition USB_BASE :: u32 where "USB_BASE = 0x4A0AB000"
definition USB_FADDR :: u32 where "USB_FADDR = USB_BASE"
definition USB_POWER :: u32 where "USB_POWER = USB_BASE + 0x01"
definition USB_INTRTX :: u32 where "USB_INTRTX = USB_BASE + 0x02"
definition USB_INTRRX :: u32 where "USB_INTRRX = USB_BASE + 0x04"
definition USB_INTRUSB :: u32 where "USB_INTRUSB = USB_BASE + 0x0A"
definition USB_INDEX :: u32 where "USB_INDEX = USB_BASE + 0x0E"
definition USB_FIFO_0 :: u32 where "USB_FIFO_0 = USB_BASE + 0x20"
definition USB_FIFO_1 :: u32 where "USB_FIFO_1 = USB_BASE + 0x24"
definition USB_DEVCTL :: u32 where "USB_DEVCTL = USB_BASE + 0x60"
definition USB_TXFIFOSZ :: u32 where "USB_TXFIFOSZ = USB_BASE + 0x62"
definition USB_RXFIFOSZ :: u32 where "USB_RXFIFOSZ = USB_BASE + 0x63"
definition USB_TXFIFOADD :: u32 where "USB_TXFIFOADD = USB_BASE + 0x64"
definition USB_RXFIFOADD :: u32 where "USB_RXFIFOADD = USB_BASE + 0x66"
definition USB_CSR0 :: u32 where "USB_CSR0 = USB_BASE + 0x102"
definition USB_COUNT0 :: u32 where "USB_COUNT0 = USB_BASE + 0x108"
definition USB_TXMAXP :: u32 where "USB_TXMAXP = USB_BASE + 0x110"
definition USB_TXCSR :: u32 where "USB_TXCSR = USB_BASE + 0x112"
definition USB_RXMAXP :: u32 where "USB_RXMAXP = USB_BASE + 0x114"
definition USB_RXCSR :: u32 where "USB_RXCSR = USB_BASE + 0x116"
definition USB_RXCOUNT :: u32 where "USB_RXCOUNT = USB_BASE + 0x118"
definition DMA_CNTL :: u32 where "DMA_CNTL = USB_BASE + 0x204"
definition DMA_ADDR :: u32 where "DMA_ADDR = USB_BASE + 0x208"
definition DMA_COUNT :: u32 where "DMA_COUNT = USB_BASE + 0x20C"
definition OTG_SYSCONFIG :: u32 where "OTG_SYSCONFIG = 0x4A0AB404"
definition OTG_INTERFSEL :: u32 where "OTG_INTERFSEL = 0x4A0AB40C"
definition USBOTGHS_CONTROL :: u32 where "USBOTGHS_CONTROL = 0x4A00233C"
definition CONTROL_DEV_CONF :: u32 where "CONTROL_DEV_CONF = 0x4A002300"
definition CONTROL_GPIOWK :: u32 where "CONTROL_GPIOWK = 0x4A31E600"
definition PAD_MCSPI1_CS2 :: u32 where "PAD_MCSPI1_CS2 = 0x4A10013C"
definition CONTROL_ID_CODE :: u32 where "CONTROL_ID_CODE = 0x4A002204"
definition SECURE_ID_CODE :: u32 where "SECURE_ID_CODE = 0x4A0022C4"
definition KBD_IRQSTATUS :: u32 where "KBD_IRQSTATUS = 0x4A31C018"
definition KBD_STATEMACHINE :: u32 where "KBD_STATEMACHINE = 0x4A31C038"
definition KBD_FULLCODE31_0 :: u32 where "KBD_FULLCODE31_0 = 0x4A31C044"
definition GPIO4_DATAIN :: u32 where "GPIO4_DATAIN = 0x48059138"

lemmas usb_regs = USB_BASE_def USB_FADDR_def USB_POWER_def USB_INTRTX_def USB_INTRRX_def USB_INTRUSB_def USB_INDEX_def
  USB_FIFO_0_def USB_FIFO_1_def USB_DEVCTL_def USB_TXFIFOSZ_def USB_RXFIFOSZ_def USB_TXFIFOADD_def USB_RXFIFOADD_def
  USB_CSR0_def USB_COUNT0_def USB_TXMAXP_def USB_TXCSR_def USB_RXMAXP_def USB_RXCSR_def USB_RXCOUNT_def DMA_CNTL_def
  DMA_ADDR_def DMA_COUNT_def OTG_SYSCONFIG_def OTG_INTERFSEL_def USBOTGHS_CONTROL_def CONTROL_DEV_CONF_def PAD_MCSPI1_CS2_def

definition CSR0_RXPKTRDY :: u32 where "CSR0_RXPKTRDY = 0x01"
definition CSR0_TXPKTRDY :: u32 where "CSR0_TXPKTRDY = 0x02"
definition CSR0_SENTSTALL :: u32 where "CSR0_SENTSTALL = 0x04"
definition CSR0_DATAEND :: u32 where "CSR0_DATAEND = 0x08"
definition CSR0_SETUPEND :: u32 where "CSR0_SETUPEND = 0x10"
definition CSR0_SENDSTALL :: u32 where "CSR0_SENDSTALL = 0x20"
definition CSR0_SVDRXPKTRDY :: u32 where "CSR0_SVDRXPKTRDY = 0x40"
definition CSR0_SVDSETUPEND :: u32 where "CSR0_SVDSETUPEND = 0x80"
definition TXCSR_TXPKTRDY :: u32 where "TXCSR_TXPKTRDY = 0x01"
definition TXCSR_FIFONOTEMPTY :: u32 where "TXCSR_FIFONOTEMPTY = 0x02"
definition TXCSR_UNDERRUN :: u32 where "TXCSR_UNDERRUN = 0x04"
definition TXCSR_FLUSHFIFO :: u32 where "TXCSR_FLUSHFIFO = 0x08"
definition TXCSR_CLRDATATOG :: u32 where "TXCSR_CLRDATATOG = 0x40"
definition TXCSR_DMAENAB :: u32 where "TXCSR_DMAENAB = 0x1000"
definition TXCSR_MODE :: u32 where "TXCSR_MODE = 0x2000"
definition TXCSR_ISO :: u32 where "TXCSR_ISO = 0x4000"
definition RXCSR_RXPKTRDY :: u32 where "RXCSR_RXPKTRDY = 0x01"
definition RXCSR_FLUSHFIFO :: u32 where "RXCSR_FLUSHFIFO = 0x10"
definition RXCSR_SENDSTALL :: u32 where "RXCSR_SENDSTALL = 0x20"
definition RXCSR_SENTSTALL :: u32 where "RXCSR_SENTSTALL = 0x40"
definition RXCSR_CLRDATATOG :: u32 where "RXCSR_CLRDATATOG = 0x80"
definition RXCSR_DMAMODE :: u32 where "RXCSR_DMAMODE = 0x0800"
definition RXCSR_DMAENAB :: u32 where "RXCSR_DMAENAB = 0x2000"
definition RXCSR_ISO :: u32 where "RXCSR_ISO = 0x4000"
definition RXCSR_AUTOCLEAR :: u32 where "RXCSR_AUTOCLEAR = 0x8000"
definition POWER_HSMODE :: u32 where "POWER_HSMODE = 0x10"
definition POWER_HSENAB :: u32 where "POWER_HSENAB = 0x20"
definition POWER_SOFTCONN :: u32 where "POWER_SOFTCONN = 0x40"

lemmas usb_bits = CSR0_RXPKTRDY_def CSR0_TXPKTRDY_def CSR0_SENTSTALL_def CSR0_DATAEND_def CSR0_SETUPEND_def
  CSR0_SENDSTALL_def CSR0_SVDRXPKTRDY_def CSR0_SVDSETUPEND_def TXCSR_TXPKTRDY_def TXCSR_FIFONOTEMPTY_def TXCSR_UNDERRUN_def
  TXCSR_FLUSHFIFO_def TXCSR_CLRDATATOG_def TXCSR_DMAENAB_def TXCSR_MODE_def TXCSR_ISO_def RXCSR_RXPKTRDY_def
  RXCSR_FLUSHFIFO_def RXCSR_SENDSTALL_def RXCSR_SENTSTALL_def RXCSR_CLRDATATOG_def RXCSR_DMAMODE_def RXCSR_DMAENAB_def
  RXCSR_ISO_def RXCSR_AUTOCLEAR_def POWER_HSMODE_def POWER_HSENAB_def POWER_SOFTCONN_def

definition MUSB_EP0_FIFOSIZE :: nat where "MUSB_EP0_FIFOSIZE = 64"

definition usb_rd :: "'h usb_hw \<Rightarrow> u32 \<Rightarrow> 'h usb \<Rightarrow> u32 \<times> 'h usb" where
  "usb_rd c r u = (let (v, h) = reg_rd (bus c) (u_hw u) r in (v, u\<lparr>u_hw := h\<rparr>))"

definition usb_wr :: "'h usb_hw \<Rightarrow> u32 \<Rightarrow> u32 \<Rightarrow> 'h usb \<Rightarrow> 'h usb" where
  "usb_wr c r v u = u\<lparr>u_hw := reg_wr (bus c) (u_hw u) r v\<rparr>"

definition set_bits :: "'h usb_hw \<Rightarrow> u32 \<Rightarrow> u32 \<Rightarrow> 'h usb \<Rightarrow> 'h usb" where
  "set_bits c r m u = u\<lparr>u_hw := rmw (bus c) (u_hw u) r (\<lambda>v. v OR m)\<rparr>"

definition clr_bits :: "'h usb_hw \<Rightarrow> u32 \<Rightarrow> u32 \<Rightarrow> 'h usb \<Rightarrow> 'h usb" where
  "clr_bits c r m u = u\<lparr>u_hw := rmw (bus c) (u_hw u) r (\<lambda>v. v AND NOT m)\<rparr>"

definition usb_delay :: "'h usb_hw \<Rightarrow> nat \<Rightarrow> 'h usb \<Rightarrow> 'h usb" where
  "usb_delay c n u = u\<lparr>u_hw := delay (bus c) (u_hw u) n\<rparr>"

text \<open>\<^verbatim>\<open>while (*r & m) udelay(1);\<close> and its negation, and the loop that flushes a FIFO.\<close>

partial_function (option) wait_clear :: "'h usb_hw \<Rightarrow> u32 \<Rightarrow> u32 \<Rightarrow> 'h usb \<Rightarrow> 'h usb option" where
  "wait_clear c r m u = (let (v, u) = usb_rd c r u in if v AND m = 0 then Some u else wait_clear c r m (usb_delay c 1 u))"

partial_function (option) wait_set :: "'h usb_hw \<Rightarrow> u32 \<Rightarrow> u32 \<Rightarrow> 'h usb \<Rightarrow> 'h usb option" where
  "wait_set c r m u = (let (v, u) = usb_rd c r u in if v AND m \<noteq> 0 then Some u else wait_set c r m (usb_delay c 1 u))"

partial_function (option) flush :: "'h usb_hw \<Rightarrow> u32 \<Rightarrow> u32 \<Rightarrow> u32 \<Rightarrow> 'h usb \<Rightarrow> 'h usb option" where
  "flush c r m fl u = (let (v, u) = usb_rd c r u in
     if v AND m = 0 then Some u else flush c r m fl (usb_delay c 1 (set_bits c r fl u)))"

definition TX_LAST :: "'h usb_hw \<Rightarrow> 'h usb \<Rightarrow> 'h usb option" where
  "TX_LAST c u = wait_clear c USB_CSR0 CSR0_RXPKTRDY (set_bits c USB_CSR0 (CSR0_TXPKTRDY OR CSR0_DATAEND) u)"

definition NAK_REQ :: "'h usb_hw \<Rightarrow> 'h usb \<Rightarrow> 'h usb" where "NAK_REQ c = set_bits c USB_CSR0 CSR0_SENDSTALL"
definition ACK_REQ :: "'h usb_hw \<Rightarrow> 'h usb \<Rightarrow> 'h usb" where "ACK_REQ c = set_bits c USB_CSR0 CSR0_DATAEND"

section \<open>Endpoints\<close>

definition fastboot_fifo_size :: "'h usb \<Rightarrow> nat" where
  "fastboot_fifo_size u = (if high_speed u then 0x200 else 0x40)"

definition fastboot_bulk_endpoint_reset :: "'h usb_hw \<Rightarrow> 'h usb \<Rightarrow> 'h usb option" where
  "fastboot_bulk_endpoint_reset c u = do {
     let (old_index, u) = usb_rd c USB_INDEX u;
     let u = usb_wr c USB_INDEX 0 u;
     let u = usb_wr c USB_RXFIFOADD 0 u;
     let u = usb_wr c USB_TXFIFOADD 0 u;
     let u = usb_wr c USB_RXFIFOSZ 3 u;
     let u = usb_wr c USB_TXFIFOSZ 3 u;
     let u = usb_wr c USB_INDEX 1 u;
     let u = usb_wr c USB_TXFIFOADD (64 div 8) u;
     let u = usb_wr c USB_RXFIFOADD ((64 + 512) div 8) u;
     let u = usb_wr c USB_TXFIFOSZ 6 u;
     let u = (if high_speed u then usb_wr c USB_RXFIFOSZ (6 OR 0x10) u else usb_wr c USB_RXFIFOSZ (3 OR 0x10) u);
     let u = usb_wr c USB_INDEX old_index u;
     let u = usb_wr c USB_RXMAXP (of_nat (fastboot_fifo_size u)) u;
     u \<leftarrow> flush c USB_RXCSR RXCSR_RXPKTRDY RXCSR_FLUSHFIFO u;
     let u = clr_bits c USB_RXCSR (RXCSR_DMAENAB OR RXCSR_ISO) u;
     let u = set_bits c USB_RXCSR RXCSR_CLRDATATOG u;
     let u = usb_wr c USB_TXMAXP 0x200 u;
     u \<leftarrow> flush c USB_TXCSR TXCSR_FIFONOTEMPTY TXCSR_FLUSHFIFO u;
     let u = clr_bits c USB_TXCSR (TXCSR_DMAENAB OR TXCSR_ISO OR TXCSR_UNDERRUN) u;
     Some (set_bits c USB_TXCSR (TXCSR_CLRDATATOG OR TXCSR_MODE) u) }"

definition fastboot_reset :: "'h usb_hw \<Rightarrow> 'h usb \<Rightarrow> 'h usb option" where
  "fastboot_reset c u = do {
     let u = clr_bits c USB_POWER POWER_SOFTCONN u;
     let u = usb_delay c (2 * 500000) u;
     let u = u\<lparr>faddr := 0xff\<rparr>;
     let u = set_bits c USB_POWER (POWER_SOFTCONN OR POWER_HSENAB) u;
     fastboot_bulk_endpoint_reset c u }"

fun read_fifo_8s :: "'h usb_hw \<Rightarrow> u32 \<Rightarrow> nat \<Rightarrow> 'h usb \<Rightarrow> byte list \<times> 'h usb" where
  "read_fifo_8s c r 0 u = ([], u)"
| "read_fifo_8s c r (Suc n) u = (let (v, u) = usb_rd c r u; (vs, u) = read_fifo_8s c r n u in (ucast v # vs, u))"

fun write_fifo_8s :: "'h usb_hw \<Rightarrow> u32 \<Rightarrow> byte list \<Rightarrow> 'h usb \<Rightarrow> 'h usb" where
  "write_fifo_8s c r [] u = u"
| "write_fifo_8s c r (b # bs) u = write_fifo_8s c r bs (usb_wr c r (ucast b) u)"

partial_function (option) dma_wait :: "'h usb_hw \<Rightarrow> 'h usb \<Rightarrow> (bool \<times> 'h usb) option" where
  "dma_wait c u = (let (v, u) = usb_rd c DMA_CNTL u in
     if 0x0100 AND v \<noteq> 0 then Some (True, u)
     else (let (v, u) = usb_rd c DMA_COUNT u in if v = 0 then Some (False, u) else dma_wait c u))"

text \<open>The result says whether the transfer failed; the buffer then holds what the controller had written to it.\<close>

definition read_bulk_fifo_dma :: "'h usb_hw \<Rightarrow> nat \<Rightarrow> 'h usb \<Rightarrow> (bool \<times> 'h usb) option" where
  "read_bulk_fifo_dma c len u = do {
     let u = usb_wr c DMA_CNTL 0 u;
     let u = usb_wr c DMA_ADDR (bulk_addr c) u;
     let u = usb_wr c DMA_COUNT (of_nat len) u;
     let u = usb_wr c DMA_CNTL (0x0600 OR push_bit 4 1 OR 0) u;
     let u = set_bits c DMA_CNTL 1 u;
     (ret, u) \<leftarrow> dma_wait c u;
     b \<leftarrow> store 0 (take len (dma_mem c (u_hw u))) (fastboot_bulk_fifo u);
     Some (ret, u\<lparr>fastboot_bulk_fifo := b\<rparr>) }"

definition parse_req :: "byte list \<Rightarrow> usb_device_request" where
  "parse_req b = \<lparr>bmRequestType = b ! 0, bRequest = b ! 1, wValue = of_le (bslice 2 2 b), wIndex = of_le (bslice 4 2 b),
     wLength = of_le (bslice 6 2 b)\<rparr>"

definition read_request :: "'h usb_hw \<Rightarrow> 'h usb \<Rightarrow> 'h usb option" where
  "read_request c u = do {
     let (bs, u) = read_fifo_8s c USB_FIFO_0 8 u;
     f \<leftarrow> store 0 bs (fastboot_fifo u);
     let u = u\<lparr>fastboot_fifo := f, req := parse_req bs, fastboot_fifo_used := 0\<rparr>;
     let u = set_bits c USB_CSR0 CSR0_SVDRXPKTRDY u;
     wait_clear c USB_CSR0 CSR0_RXPKTRDY u }"

section \<open>Requests on the control endpoint\<close>

text \<open>Every request handler of the source returns 0; the state it leaves is the result here.\<close>

definition do_usb_req_set_interface :: "'h usb_hw \<Rightarrow> 'h usb \<Rightarrow> 'h usb option" where
  "do_usb_req_set_interface c u =
     (if 0 = wIndex (req u) \<and> 0 = wValue (req u) then do { u \<leftarrow> fastboot_bulk_endpoint_reset c u; Some (ACK_REQ c u) }
      else Some (NAK_REQ c u))"

definition do_usb_req_set_address :: "'h usb_hw \<Rightarrow> 'h usb \<Rightarrow> 'h usb option" where
  "do_usb_req_set_address c u =
     (if 0xff = faddr u
      then (let u = u\<lparr>faddr := ucast (wValue (req u) AND 0x7f), set_address := True\<rparr>;
                (v, u) = usb_rd c USB_POWER u;
                u = u\<lparr>high_speed := (v AND POWER_HSMODE \<noteq> 0)\<rparr>
            in Some (ACK_REQ c u))
      else Some (NAK_REQ c u))"

definition CONFIGURATION_NORMAL :: u16 where "CONFIGURATION_NORMAL = 1"

definition do_usb_req_set_configuration :: "'h usb_hw \<Rightarrow> 'h usb \<Rightarrow> 'h usb option" where
  "do_usb_req_set_configuration c u =
     (if 0xff = faddr u then Some (NAK_REQ c u)
      else if 0 = wValue (req u) then Some (ACK_REQ c (u\<lparr>faddr := 0xff, current_config := ucast (wValue (req u))\<rparr>))
      else if CONFIGURATION_NORMAL = wValue (req u) then do {
        u \<leftarrow> fastboot_bulk_endpoint_reset c u;
        Some (ACK_REQ c (u\<lparr>current_config := ucast (wValue (req u))\<rparr>)) }
      else Some (NAK_REQ c u))"

definition do_usb_req_set_feature :: "'h usb_hw \<Rightarrow> 'h usb \<Rightarrow> 'h usb option" where
  "do_usb_req_set_feature c u = Some (NAK_REQ c u)"

text \<open>
  The descriptors, each without its first byte: that byte is the number of bytes that are sent of it. \<open>put_descs\<close> is the
  sequence of \<^verbatim>\<open>memcpy\<close> calls of the configuration request, with \<^verbatim>\<open>bytes_remaining\<close> and \<^verbatim>\<open>bytes_total\<close>.
\<close>

definition device_descriptor :: "byte list" where
  "device_descriptor = [1] @ le16 0x200 @ [0, 0, 0, 0x40] @ le16 0x1949 @ le16 0x0007 @ le16 0x0100 @ [5, 1, 2, 1]"

definition qualifier_descriptor :: "byte list" where
  "qualifier_descriptor = [6] @ le16 0x200 @ [0xff, 0xff, 0xff, 0x40, 1, 0]"

definition config_descriptor :: "byte list" where
  "config_descriptor = [2] @ le16 (9 + 9 + 7 + 7) @ [1, 1, 3, 0xc0, 0x32]"

definition interface_descriptor :: "byte list" where
  "interface_descriptor = [4, 0, 0, 2, 0xff, 0x42, 0x03, 4]"

definition endpoint_descriptor :: "byte \<Rightarrow> u16 \<Rightarrow> byte list" where
  "endpoint_descriptor addr maxp = [5, addr, 2] @ le16 maxp @ [0]"

fun put_descs :: "byte list list \<Rightarrow> byte \<Rightarrow> byte \<Rightarrow> byte list \<Rightarrow> (byte \<times> byte list) option" where
  "put_descs [] bytes_remaining bytes_total f = Some (bytes_total, f)"
| "put_descs (d # ds) bytes_remaining bytes_total f =
     (let bLength = min bytes_remaining (of_nat (Suc (length d))) in do {
        f \<leftarrow> store (unat bytes_total) (take (unat bLength) (bLength # d)) f;
        put_descs ds (bytes_remaining - bLength) (bytes_total + bLength) f })"

definition tx_fifo :: "'h usb_hw \<Rightarrow> nat \<Rightarrow> 'h usb \<Rightarrow> 'h usb option" where
  "tx_fifo c n u = do {
     bs \<leftarrow> load 0 n (fastboot_fifo u);
     TX_LAST c (write_fifo_8s c USB_FIFO_0 bs u) }"

fun put_unicode :: "nat \<Rightarrow> byte list \<Rightarrow> byte list \<Rightarrow> byte list option" where
  "put_unicode s [] f = Some f"
| "put_unicode s (b # bs) f = do { f \<leftarrow> store (2 + 2 * s) [b, 0] f; put_unicode (Suc s) bs f }"

definition DEVICE_STRING_MAX_INDEX :: nat where "DEVICE_STRING_MAX_INDEX = 8"

definition get_string_descriptor :: "'h usb_hw \<Rightarrow> 'h usb \<Rightarrow> 'h usb option" where
  "get_string_descriptor c u =
     (let string_index = unat (wValue (req u) AND 0xff) in
      if string_index > DEVICE_STRING_MAX_INDEX then Some u
      else if string_index = 0 then
        (let bLength = min 4 (wLength (req u)) in do {
           f \<leftarrow> store 0 ([ucast bLength, 3] @ le16 0x0409) (fastboot_fifo u);
           tx_fifo c (unat bLength) (u\<lparr>fastboot_fifo := f\<rparr>) })
      else do {
        str \<leftarrow> device_strings u ! string_index;
        let sl = (of_nat (length str) :: byte);
        let bLength = 2 + 2 * sl;
        let numbytes_to_send = min (unat bLength) (unat (wLength (req u)));
        f \<leftarrow> store 0 [bLength, 3] (fastboot_fifo u);
        f \<leftarrow> put_unicode 0 (take (unat sl) str) f;
        tx_fifo c numbytes_to_send (u\<lparr>fastboot_fifo := f\<rparr>) })"

definition do_usb_req_get_descriptor :: "'h usb_hw \<Rightarrow> 'h usb \<Rightarrow> 'h usb option" where
  "do_usb_req_get_descriptor c u =
     (let n = wLength (req u); dt = drop_bit 8 (wValue (req u)) in
      if 0 = n then Some (ACK_REQ c u)
      else if dt = 1 then do {
        let bLength = min (unat n) (Suc (length device_descriptor));
        f \<leftarrow> store 0 (take bLength (of_nat bLength # device_descriptor)) (fastboot_fifo u);
        tx_fifo c bLength (u\<lparr>fastboot_fifo := f\<rparr>) }
      else if dt = 2 then do {
        (bytes_total, f) \<leftarrow> put_descs [config_descriptor, interface_descriptor, endpoint_descriptor (0x80 OR 1) 0x200,
            endpoint_descriptor 1 (if high_speed u then 0x200 else 0x40)] (ucast n) 0 (fastboot_fifo u);
        tx_fifo c (unat bytes_total) (u\<lparr>fastboot_fifo := f\<rparr>) }
      else if dt = 3 then get_string_descriptor c u
      else if dt = 6 then do {
        let bLength = min (unat n) (Suc (length qualifier_descriptor));
        f \<leftarrow> store 0 (take bLength (of_nat bLength # qualifier_descriptor)) (fastboot_fifo u);
        tx_fifo c bLength (u\<lparr>fastboot_fifo := f\<rparr>) }
      else Some (NAK_REQ c u))"

definition do_usb_req_get_configuration :: "'h usb_hw \<Rightarrow> 'h usb \<Rightarrow> 'h usb option" where
  "do_usb_req_get_configuration c u =
     (if 0 = wLength (req u) then Some (NAK_REQ c u)
      else TX_LAST c (write_fifo_8s c USB_FIFO_0 [ucast (current_config u)] u))"

definition do_usb_req_get_status :: "'h usb_hw \<Rightarrow> 'h usb \<Rightarrow> 'h usb option" where
  "do_usb_req_get_status c u =
     (if 0 = wLength (req u) then Some (ACK_REQ c u)
      else do {
        let bLength = min (unat (wValue (req u))) 2;
        f \<leftarrow> store 0 [1, 0] (fastboot_fifo u);
        tx_fifo c bLength (u\<lparr>fastboot_fifo := f\<rparr>) })"

definition USB_REQ_DIRECTION_MASK :: byte where "USB_REQ_DIRECTION_MASK = 0x80"
definition USB_REQ_TYPE_MASK :: byte where "USB_REQ_TYPE_MASK = 0x60"
definition USB_REQ_RECIPIENT_MASK :: byte where "USB_REQ_RECIPIENT_MASK = 0x1f"

text \<open>The dispatch on a standard request: whether it goes to the device or the host, and to whom.\<close>

definition usb_request :: "'h usb_hw \<Rightarrow> 'h usb \<Rightarrow> (int \<times> 'h usb) option" where
  "usb_request c u =
     (let t = bmRequestType (req u); r = bRequest (req u); recip = t AND USB_REQ_RECIPIENT_MASK;
          ok = map_option (Pair 0); nak = Some (-1, NAK_REQ c u) in
      if t AND USB_REQ_TYPE_MASK = 0 then
        if t AND USB_REQ_DIRECTION_MASK = 0 then
          if recip = 0 then
            if r = 5 then ok (do_usb_req_set_address c u)
            else if r = 3 then ok (do_usb_req_set_feature c u)
            else if r = 9 then ok (do_usb_req_set_configuration c u)
            else nak
          else if recip = 1 then if r = 0xB then ok (do_usb_req_set_interface c u) else nak
          else if recip = 2 then if r = 1 then Some (0, ACK_REQ c u) else nak
          else nak
        else if recip = 0 then
          if r = 6 then ok (do_usb_req_get_descriptor c u)
          else if r = 0 then ok (do_usb_req_get_status c u)
          else if r = 8 then ok (do_usb_req_get_configuration c u)
          else nak
        else nak
      else nak)"

definition fastboot_poll_h :: "'h usb_hw \<Rightarrow> 'h usb \<Rightarrow> (int \<times> 'h usb) option" where
  "fastboot_poll_h c u =
     (let (v, u) = usb_rd c USB_CSR0 u in
      if v AND CSR0_RXPKTRDY \<noteq> 0 then
        (let (count0, u) = usb_rd c USB_COUNT0 u in
         if count0 \<noteq> 8 then Some (1, u)
         else do { u \<leftarrow> read_request c u; usb_request c u })
      else Some (0, u))"

definition fastboot_resume :: "'h usb_hw \<Rightarrow> 'h usb \<Rightarrow> (int \<times> 'h usb) option" where
  "fastboot_resume c u =
     (let (v, u) = usb_rd c USB_CSR0 u in
      if v AND CSR0_SENTSTALL \<noteq> 0 then Some (0, clr_bits c USB_CSR0 CSR0_SENTSTALL u)
      else (let (v, u) = usb_rd c USB_CSR0 u;
                u = (if v AND CSR0_SETUPEND \<noteq> 0 then set_bits c USB_CSR0 CSR0_SVDSETUPEND u else u);
                u = (if set_address u then (usb_wr c USB_FADDR (ucast (faddr u)) u)\<lparr>set_address := False\<rparr> else u)
            in fastboot_poll_h c u))"

section \<open>The bulk endpoint\<close>

definition fastboot_rx_error :: "'h usb_hw \<Rightarrow> 'h usb \<Rightarrow> 'h usb option" where
  "fastboot_rx_error c u = do {
     let u = clr_bits c USB_RXCSR RXCSR_RXPKTRDY u;
     let u = set_bits c USB_RXCSR RXCSR_SENDSTALL u;
     u \<leftarrow> wait_set c USB_RXCSR RXCSR_SENTSTALL u;
     Some (clr_bits c USB_RXCSR RXCSR_SENTSTALL u) }"

definition rx_dma :: "'h usb_hw \<Rightarrow> nat \<Rightarrow> 'h usb \<Rightarrow> 'h usb option" where
  "rx_dma c fifo_size u = do {
     let u = clr_bits c USB_RXCSR RXCSR_AUTOCLEAR u;
     let u = set_bits c USB_RXCSR RXCSR_DMAENAB u;
     let u = set_bits c USB_RXCSR RXCSR_DMAMODE u;
     let u = set_bits c USB_RXCSR RXCSR_DMAENAB u;
     (err, u) \<leftarrow> read_bulk_fifo_dma c fifo_size u;
     u \<leftarrow> (if err then fastboot_rx_error c u else Some u);
     Some (clr_bits c USB_RXCSR (RXCSR_DMAENAB OR RXCSR_DMAMODE) u) }"

text \<open>A packet is moved to \<^verbatim>\<open>fastboot_bulk_fifo\<close>; the result is its size when there is one for the handler.\<close>

definition rx_fetch :: "'h usb_hw \<Rightarrow> 'h usb \<Rightarrow> (u16 option \<times> 'h usb) option" where
  "rx_fetch c u =
     (let (v, u) = usb_rd c USB_RXCSR u in
      if v AND RXCSR_RXPKTRDY \<noteq> 0 then
        (let (n, u) = usb_rd c USB_RXCOUNT u; count = (ucast n :: u16); fifo_size = fastboot_fifo_size u;
             (n, u) = usb_rd c USB_RXCOUNT u in
         if n = 0 then Some (None, clr_bits c USB_RXCSR RXCSR_RXPKTRDY u)
         else if fifo_size < unat count then do { u \<leftarrow> fastboot_rx_error c u; Some (None, u) }
         else do {
           u \<leftarrow> (if fifo_size = unat count then rx_dma c fifo_size u
                else do {
                  let (bs, u) = read_fifo_8s c USB_FIFO_1 (unat count) u;
                  b \<leftarrow> store 0 bs (fastboot_bulk_fifo u);
                  Some (u\<lparr>fastboot_bulk_fifo := b\<rparr>) });
           Some (Some count, clr_bits c USB_RXCSR RXCSR_RXPKTRDY u) })
      else Some (None, u))"

definition poison :: "nat \<Rightarrow> 'h usb \<Rightarrow> 'h usb option" where
  "poison fifo_size u = do {
     b \<leftarrow> store 0 (replicate fifo_size 0) (fastboot_bulk_fifo u);
     Some (u\<lparr>fastboot_bulk_fifo := b\<rparr>) }"

text \<open>\<^verbatim>\<open>fifo_size\<close> is read before the handler runs.\<close>

definition fastboot_rx :: "('s, 'h usb, 'c, ('s, 'h usb, 'c) world) plat \<Rightarrow> 'h usb_hw \<Rightarrow> ('s, 'h usb, 'c) world
    \<Rightarrow> (ret \<times> ('s, 'h usb, 'c) world) option" where
  "fastboot_rx p c w = do {
     (count, u) \<leftarrow> rx_fetch c (w_usb w);
     let w = w\<lparr>w_usb := u\<rparr>;
     let fifo_size = fastboot_fifo_size u;
     case count of
       None \<Rightarrow> Some (Ret 0, w)
     | Some n \<Rightarrow> do {
         (r, w) \<leftarrow> (if fastboot_interface u then rx_handler p (fastboot_bulk_fifo u) (ucast n) w else Some (Ret 1, w));
         case r of
           Halt h \<Rightarrow> Some (Halt h, w)
         | Ret _ \<Rightarrow> do { u \<leftarrow> poison fifo_size (w_usb w); Some (Ret 0, w\<lparr>w_usb := u\<rparr>) } } }"

definition fastboot_suspend :: int where "fastboot_suspend = 0"

definition poll_blink :: "'h usb_hw \<Rightarrow> 'h usb \<Rightarrow> 'h usb" where
  "poll_blink c u =
     (let u = (if blink u = 0x7fff + 100000 then set_bits c PAD_MCSPI1_CS2 0x10 u else u);
          u = (if blink u = 0xffff + 100000 then (clr_bits c PAD_MCSPI1_CS2 0x10 u)\<lparr>blink := 0\<rparr> else u)
      in u\<lparr>blink := blink u + 1\<rparr>)"

definition poll_intr :: "'h usb_hw \<Rightarrow> 'h usb \<Rightarrow> 'h usb" where
  "poll_intr c u =
     (let (intrtx, u) = usb_rd c USB_INTRTX u; (intrrx, u) = usb_rd c USB_INTRRX u
      in if intrrx \<noteq> 0 then u\<lparr>deferred_rx := True\<rparr> else u)"

definition fastboot_poll :: "('s, 'h usb, 'c, ('s, 'h usb, 'c) world) plat \<Rightarrow> 'h usb_hw \<Rightarrow> ('s, 'h usb, 'c) world
    \<Rightarrow> (ret \<times> ('s, 'h usb, 'c) world) option" where
  "fastboot_poll p c w =
     (let (intrusb, u) = usb_rd c USB_INTRUSB (poll_blink c (w_usb w)) in
      if intrusb AND 0x20 \<noteq> 0 then Some (Ret 1, w\<lparr>w_usb := u\<rparr>)
      else if intrusb AND 0x02 \<noteq> 0 then do {
        (ret, u) \<leftarrow> fastboot_resume c u;
        Some (Ret ret, w\<lparr>w_usb := u\<rparr>) }
      else do {
        (ret, w) \<leftarrow> (if intrusb AND 0x08 \<noteq> 0 then do {
            (ret, u) \<leftarrow> fastboot_resume c u;
            if ret \<noteq> 0 then Some (Ret ret, w\<lparr>w_usb := u\<rparr>)
            else do {
              (ret, w) \<leftarrow> (if deferred_rx u then fastboot_rx p c (w\<lparr>w_usb := u\<rparr>) else Some (Ret 0, w\<lparr>w_usb := u\<rparr>));
              case ret of Halt _ \<Rightarrow> Some (ret, w)
              | Ret _ \<Rightarrow> Some (ret, w\<lparr>w_usb := (w_usb w)\<lparr>deferred_rx := False\<rparr>\<rparr>) } }
          else Some (Ret 0, w\<lparr>w_usb := u\<rparr>));
        if ret \<noteq> Ret 0 then Some (ret, w)
        else (let u = (if intrusb AND 0x01 \<noteq> 0 then (w_usb w)\<lparr>faddr := 0xff\<rparr> else w_usb w)
              in if intrusb AND 0x01 \<noteq> 0 \<and> fastboot_suspend \<noteq> 0 then Some (Ret fastboot_suspend, w\<lparr>w_usb := u\<rparr>)
                 else Some (Ret 0, w\<lparr>w_usb := poll_intr c u\<rparr>)) })"

definition fastboot_shutdown :: "'h usb_hw \<Rightarrow> 'h usb \<Rightarrow> 'h usb" where
  "fastboot_shutdown c u = (clr_bits c USB_POWER POWER_SOFTCONN u)\<lparr>faddr := 0xff, fastboot_interface := False, high_speed := False\<rparr>"

definition fastboot_is_highspeed :: "'h usb_hw \<Rightarrow> 'h usb \<Rightarrow> int \<times> 'h usb" where
  "fastboot_is_highspeed c u = (let (v, u) = usb_rd c USB_POWER u in (if v AND POWER_HSMODE \<noteq> 0 then 1 else 0, u))"

definition fastboot_tx_status :: "'h usb_hw \<Rightarrow> byte list \<Rightarrow> 'h usb \<Rightarrow> 'h usb option" where
  "fastboot_tx_status c buffer u = do {
     u \<leftarrow> wait_clear c USB_TXCSR TXCSR_TXPKTRDY u;
     let u = write_fifo_8s c USB_FIFO_1 (take 64 buffer) u;
     let u = set_bits c USB_TXCSR TXCSR_TXPKTRDY u;
     u \<leftarrow> wait_clear c USB_TXCSR TXCSR_TXPKTRDY u;
     TX_LAST c u }"

section \<open>Entering fastboot\<close>

definition gpio_wk_init :: "'h usb_hw \<Rightarrow> 'h usb \<Rightarrow> 'h usb" where
  "gpio_wk_init c u =
     (let u = clr_bits c CONTROL_PBIAS_LITE 0x90100000 u;
          u = clr_bits c CONTROL_GPIOWK 0xB0000000 u;
          u = set_bits c CONTROL_GPIOWK 0x10000000 u
      in usb_wr c CONTROL_PBIAS_LITE 0x15700000 u)"

partial_function (option) kbd_clear :: "'h usb_hw \<Rightarrow> 'h usb \<Rightarrow> 'h usb option" where
  "kbd_clear c u = (let (v, u) = usb_rd c KBD_IRQSTATUS u in
     if v = 0 then Some u else kbd_clear c (usb_wr c KBD_IRQSTATUS 0xf u))"

definition sar_is :: "string \<Rightarrow> byte list \<Rightarrow> bool" where
  "sar_is s sar \<longleftrightarrow> take (Suc (length s)) sar = bytes s @ [0]"

definition start_recovery :: "('s, 'u, 'c, 'w) plat \<Rightarrow> ('s, 'u, 'c) world \<Rightarrow> (int \<times> ('s, 'u, 'c) world) option" where
  "start_recovery p w = do { w \<leftarrow> bootmsg_write_command p BOOTMSG_COMMAND_RECOVERY w; Some (0, w) }"

definition preboot_reset :: "('s, 'h usb, 'c, 'w) plat \<Rightarrow> 'h usb_hw \<Rightarrow> ('s, 'h usb, 'c) world
    \<Rightarrow> (int \<times> ('s, 'h usb, 'c) world) option" where
  "preboot_reset p c w =
     (let u = gpio_wk_init c (w_usb w); (v, u) = usb_rd c GPIO4_DATAIN u; w = w\<lparr>w_usb := u\<rparr> in
      if v AND 0x100 \<noteq> 0 then Some (1, w)
      else (let (v, u) = usb_rd c PRM_RSTST u; w = w\<lparr>w_usb := u\<rparr> in
            if v AND 2 \<noteq> 0 then
              if sar_is ''recovery'' (w_sar w) then start_recovery p w
              else if sar_is ''bootloader'' (w_sar w) then Some (1, w)
              else Some (0, w)
            else Some (0, w)))"

definition fastboot_preboot :: "('s, 'h usb, 'c, 'w) plat \<Rightarrow> 'h usb_hw \<Rightarrow> ('s, 'h usb, 'c) world
    \<Rightarrow> (int \<times> ('s, 'h usb, 'c) world) option" where
  "fastboot_preboot p c w = do {
     (val, s) \<leftarrow> getbootmode (p_slack p) (p_dev p) (w_dev w);
     let w = w\<lparr>w_dev := s\<rparr>;
     if val = 5 then Some (1, w)
     else (let (v, u) = usb_rd c KBD_STATEMACHINE (w_usb w) in
           if v \<noteq> 0 then
             (let (v, u) = usb_rd c KBD_FULLCODE31_0 u in
              if v = 0x800 then do { u \<leftarrow> kbd_clear c u; start_recovery p (w\<lparr>w_usb := u\<rparr>) }
              else Some (1, w\<lparr>w_usb := u\<rparr>))
           else preboot_reset p c (w\<lparr>w_usb := u\<rparr>)) }"

section \<open>The identification of the chip\<close>

definition get_cpu_type :: "'h usb_hw \<Rightarrow> 'h usb \<Rightarrow> u32 \<times> 'h usb" where
  "get_cpu_type c u =
     (let (idcode, u) = usb_rd c CONTROL_ID_CODE u; hawkeye = drop_bit 12 idcode AND 0xffff in
      (if hawkeye = 0xb852 \<or> hawkeye = 0xb95c then 0x4430
       else if hawkeye = 0xb94e then 0x4460
       else if hawkeye = 0xb975 then 0x4470
       else 0, u))"

definition omap_rev :: "u32 \<Rightarrow> u32 \<Rightarrow> u32" where
  "omap_rev cpu es = (push_bit 16 cpu OR 0x44) OR push_bit 8 es"

definition get_cpu_rev :: "'h usb_hw \<Rightarrow> 'h usb \<Rightarrow> u32 \<times> 'h usb" where
  "get_cpu_rev c u =
     (let (ty, u) = get_cpu_type c u in
      if ty = 0x4430 then
        if drop_bit 4 (midr c) AND 0xfff = 0xc09 \<and> midr c AND 0xf = 1 then (omap_rev ty 0, u)
        else (let (v, u) = usb_rd c CONTROL_ID_CODE u; r = drop_bit 28 v in
              (omap_rev ty (if r = 0 then 0x10 else if r = 3 then 0x20 else if r = 4 then 0x30 else if r = 6 then 0x40 else 0xff), u))
      else if ty = 0x4460 then
        (let (v, u) = usb_rd c CONTROL_ID_CODE u; r = drop_bit 28 v in
         (omap_rev ty (if r = 0 then 0x10 else if r = 2 then 0x20 else 0xff), u))
      else if ty = 0x4470 then
        (let (v, u) = usb_rd c CONTROL_ID_CODE u in (omap_rev ty (if drop_bit 28 v = 0 then 0x10 else 0xff), u))
      else (0, u))"

definition get_device_type :: "'h usb_hw \<Rightarrow> 'h usb \<Rightarrow> u32 \<times> 'h usb" where
  "get_device_type c u = (let (v, u) = usb_rd c SECURE_ID_CODE u in (drop_bit 8 (v AND 0x700), u))"

definition proc_version_name :: "u32 \<Rightarrow> string" where
  "proc_version_name ty = (if ty = 0x4430 then ''OMAP4430'' else if ty = 0x4460 then ''OMAP4460''
     else if ty = 0x4470 then ''OMAP4470'' else ''Unknown'')"

definition proc_rev_name :: "u32 \<Rightarrow> string" where
  "proc_rev_name cpu_rev =
     (if cpu_rev = omap_rev 0x4430 0 \<or> cpu_rev = omap_rev 0x4460 0x10 \<or> cpu_rev = omap_rev 0x4470 0x10 then ''ES1.0''
      else if cpu_rev = omap_rev 0x4460 0x20 then ''ES1.1''
      else if cpu_rev = omap_rev 0x4430 0x10 then ''ES2.0''
      else if cpu_rev = omap_rev 0x4430 0x20 then ''ES2.1''
      else if cpu_rev = omap_rev 0x4430 0x30 then ''ES2.2''
      else if cpu_rev = omap_rev 0x4430 0x40 then ''ES2.3''
      else ''Unknown'')"

definition proc_type_name :: "u32 \<Rightarrow> string" where
  "proc_type_name ty = (if ty = 3 then ''GP'' else if ty = 1 then ''EMU'' else if ty = 2 then ''HS'' else ''Unknown'')"

section \<open>Starting the controller and the fastboot command\<close>

definition twl6030_usb_device_settings :: "'h usb_hw \<Rightarrow> 'h usb \<Rightarrow> 'h usb" where
  "twl6030_usb_device_settings c u =
     (let h = i2c_wr (bus c) (u_hw u) 0x48 0xA2 0x21;
          (r, h) = i2c_rd c h 0x48 0xE5;
          data = (case r of Some v \<Rightarrow> v | None \<Rightarrow> 0) OR 0x10
      in u\<lparr>u_hw := i2c_wr (bus c) h 0x48 0xE5 data\<rparr>)"

definition CFG_FASTBOOT_TRANSFER_BUFFER :: u32 where "CFG_FASTBOOT_TRANSFER_BUFFER = 0x80000000 + 0x04000000"
definition CFG_FASTBOOT_TRANSFER_BUFFER_SIZE :: u32 where "CFG_FASTBOOT_TRANSFER_BUFFER_SIZE = 0x40000000 - 0x04000000"

definition init_strings :: "'h usb_hw \<Rightarrow> byte list \<Rightarrow> 'h usb \<Rightarrow> 'h usb option" where
  "init_strings c product u = do {
     let (val2, u) = (let (_, u) = usb_rd c 0x4A002200 u; (_, u) = usb_rd c 0x4A002208 u in usb_rd c 0x4A00220C u);
     let (val3, u) = usb_rd c 0x4A002210 u;
     device_serial \<leftarrow> sprintf ''%08X%08X'' [VInt val3, VInt val2];
     let (ty, u) = get_cpu_type c u;
     let (cpu_rev, u) = get_cpu_rev c u;
     let (dev, u) = get_device_type c u;
     Some (u\<lparr>device_strings := (device_strings u)[5 := Some (bytes ''Texas Instruments''), 1 := Some product,
        2 := Some device_serial, 3 := Some (bytes ''Android Fastboot''), 4 := Some (bytes ''Android Fastboot''),
        8 := Some (bytes (proc_version_name ty)), 6 := Some (bytes (proc_rev_name cpu_rev)), 7 := Some (bytes (proc_type_name dev))]\<rparr>) }"

definition init_interface :: "'h usb \<Rightarrow> fb_interface \<Rightarrow> fb_interface" where
  "init_interface u i = i\<lparr>product_name := device_strings u ! 1, serial_no := device_strings u ! 2, storage_medium := EMMC,
     proc_rev := device_strings u ! 6, proc_type := device_strings u ! 7, proc_version := device_strings u ! 8,
     nand_block_size := 2048, transfer_buffer := CFG_FASTBOOT_TRANSFER_BUFFER,
     transfer_buffer_size := CFG_FASTBOOT_TRANSFER_BUFFER_SIZE\<rparr>"

definition init_controller :: "'h usb_hw \<Rightarrow> 'h usb \<Rightarrow> (int \<times> 'h usb) option" where
  "init_controller c u = do {
     let u = set_bits c OTG_SYSCONFIG 2 u;
     let u = usb_wr c OTG_SYSCONFIG 0x1008 u;
     let (v, u) = usb_rd c CONTROL_DEV_CONF u;
     let pd = v AND 1;
     let u = (if pd \<noteq> 0 then usb_delay c 200000 (clr_bits c CONTROL_DEV_CONF 1 u) else u);
     let (v, u) = usb_rd c USBOTGHS_CONTROL u;
     u \<leftarrow> (if v \<noteq> 0x15 \<or> pd \<noteq> 0 then do {
            u \<leftarrow> fastboot_reset c u;
            let u = clr_bits c OTG_INTERFSEL 0xFFFFFFFF u;
            let u = twl6030_usb_device_settings c u;
            Some (usb_wr c USBOTGHS_CONTROL 0x15 u) }
          else do {
            u \<leftarrow> fastboot_bulk_endpoint_reset c u;
            let u = clr_bits c OTG_INTERFSEL 0xFFFFFFFF u;
            Some (usb_wr c USB_DEVCTL 1 u) });
     let (devctl, u) = usb_rd c USB_DEVCTL u;
     Some (if devctl AND 0x80 = 0 \<or> devctl AND 0x04 \<noteq> 0 then 1 else 0, u) }"

definition fastboot_init :: "('s, 'h usb, 'c, 'w) plat \<Rightarrow> 'h usb_hw \<Rightarrow> ('s, 'h usb, 'c) world
    \<Rightarrow> (int \<times> ('s, 'h usb, 'c) world) option" where
  "fastboot_init p c w = do {
     (_, bt, i, s) \<leftarrow> idme_get_board_type_rev_string (p_dev p) (replicate 16 0) (w_idme w) (w_dev w);
     product \<leftarrow> cstr_at 0 bt;
     u \<leftarrow> init_strings c product ((w_usb w)\<lparr>board_type := bt\<rparr>);
     (ret, u') \<leftarrow> init_controller c (u\<lparr>fastboot_interface := True\<rparr>);
     Some (ret, upd_fb (\<lambda>f. f\<lparr>interface := init_interface u (interface f)\<rparr>) (w\<lparr>w_idme := i, w_dev := s, w_usb := u'\<rparr>)) }"

definition set_SWBootingCfg :: "'h usb_hw \<Rightarrow> ('s, 'h usb, 'c) world \<Rightarrow> ('s, 'h usb, 'c) world option" where
  "set_SWBootingCfg c w = do {
     let (v, u) = usb_rd c 0x4A307B08 (w_usb w);
     let u = usb_wr c 0x4A307B08 ((v AND NOT 0x3ff) OR 0x190) u;
     let (_, u) = usb_rd c 0x4A307B08 u;
     let u = usb_wr c 0x4A326A00 0x4A326A0C u;
     sar \<leftarrow> store 0 (le32 0xCF00AA01 @ le32 0x0000000C @ le32 0x00450000 @ le32 0 @ le32 0) (w_sar w);
     Some (w\<lparr>w_usb := u, w_sar := sar, w_prm := w_prm w @ [(PRM_RSTCTRL, PRM_RSTCTRL_RESET_WARM_BIT)]\<rparr>) }"

partial_function (option) poll_forever :: "('s, 'h usb, 'c, ('s, 'h usb, 'c) world) plat \<Rightarrow> 'h usb_hw
    \<Rightarrow> ('s, 'h usb, 'c) world \<Rightarrow> (ret \<times> ('s, 'h usb, 'c) world) option" where
  "poll_forever p c w = do {
     (r, w) \<leftarrow> fastboot_poll p c w;
     if r = Ret 0 then poll_forever p c w else Some (r, w) }"

text \<open>
  \<^verbatim>\<open>while (fastboot_countdown--)\<close>: up to two polls a turn, and once a command has come in, polling without end.
\<close>

partial_function (option) poll_countdown :: "('s, 'h usb, 'c, ('s, 'h usb, 'c) world) plat \<Rightarrow> 'h usb_hw
    \<Rightarrow> ('s, 'h usb, 'c) world \<Rightarrow> (ret \<times> ('s, 'h usb, 'c) world) option" where
  "poll_countdown p c w =
     (let n = fastboot_countdown (w_fb w); w = upd_fb (\<lambda>f. f\<lparr>fastboot_countdown := n - 1\<rparr>) w in
      if n = 0 then Some (Ret 0, w)
      else do {
        (r, w) \<leftarrow> fastboot_poll p c w;
        if r \<noteq> Ret 0 then Some (r, w)
        else if fastboot_confirmed (w_fb w) then do {
          (r, w) \<leftarrow> poll_forever p c w;
          case r of Halt _ \<Rightarrow> Some (r, w) | Ret _ \<Rightarrow> poll_countdown p c w }
        else do {
          (r, w) \<leftarrow> fastboot_poll p c w;
          if r \<noteq> Ret 0 then Some (r, w) else poll_countdown p c w } })"

definition CFG_FASTBOOT_COUNTDOWN :: u32 where "CFG_FASTBOOT_COUNTDOWN = 700000"

text \<open>
  \<^verbatim>\<open>val\<close> is not set when \<^verbatim>\<open>fastboot_init\<close> fails, and it is read all the same: \<open>junk\<close> is what it holds then.
\<close>

definition do_fastboot :: "('s, 'h usb, 'c, ('s, 'h usb, 'c) world) plat \<Rightarrow> 'h usb_hw \<Rightarrow> int \<Rightarrow> int \<Rightarrow> ('s, 'h usb, 'c) world
    \<Rightarrow> (ret \<times> ('s, 'h usb, 'c) world) option" where
  "do_fastboot p c junk flag w = do {
     (r, w) \<leftarrow> fastboot_init p c w;
     (ret, val, w) \<leftarrow> (if r = 0 then do {
          let w = upd_fb (\<lambda>f. f\<lparr>fastboot_countdown := CFG_FASTBOOT_COUNTDOWN\<rparr>) w;
          (val, s) \<leftarrow> getbootmode (p_slack p) (p_dev p) (w_dev w);
          let w = w\<lparr>w_dev := s\<rparr>;
          (x, w) \<leftarrow> (if flag = 3 then poll_countdown p c w else poll_forever p c w);
          case x of Halt h \<Rightarrow> Some (Halt h, val, w) | Ret _ \<Rightarrow> Some (Ret 0, val, w) }
        else Some (Ret 1, junk, w));
     case ret of
       Halt h \<Rightarrow> Some (Halt h, w)
     | Ret x \<Rightarrow> do {
         let w = w\<lparr>w_usb := fastboot_shutdown c (w_usb w)\<rparr>;
         if val = 5 then do { w \<leftarrow> set_SWBootingCfg c w; Some (Ret x, w) } else Some (Ret x, w) } }"

end
