(* ===== verification/FastbootInv.thy ===== *)
theory FastbootInv
  imports Fastboot
begin

text \<open>
  The invariant of the fastboot command: the transfer buffer lies in the memory, a download never exceeds it, and data
  packets change nothing outside it. Every command of the handler keeps it. \<open>post Q m\<close> states that \<open>Q\<close>
  holds for the result of \<open>m\<close>, if it has one; the rules for it follow the structure of the code.
\<close>

section \<open>Records and prefixes\<close>

lemma upd_fb_sel [simp]:
  "w_fb (upd_fb f w) = f (w_fb w)" "w_dev (upd_fb f w) = w_dev w" "w_usb (upd_fb f w) = w_usb w" "w_con (upd_fb f w) = w_con w"
  "w_ram (upd_fb f w) = w_ram w" "w_gpt (upd_fb f w) = w_gpt w" "w_idme (upd_fb f w) = w_idme w"
  "w_sparse (upd_fb f w) = w_sparse w" "w_env (upd_fb f w) = w_env w" "w_mmc_flag (upd_fb f w) = w_mmc_flag w"
  "w_bootmsg (upd_fb f w) = w_bootmsg w" "w_sar (upd_fb f w) = w_sar w" "w_prm (upd_fb f w) = w_prm w"
  by (simp_all add: upd_fb_def)

lemma tx_eq: "tx p r w = (case p_tx p r (w_usb w) of None \<Rightarrow> None | Some u \<Rightarrow> Some (w\<lparr>w_usb := u\<rparr>))"
  by (simp add: tx_def split: option.splits)

lemma is_cmd_simps [simp]: "is_cmd [] buf" "\<not> is_cmd (c # cs) []"
  "is_cmd (c # cs) (b # buf) \<longleftrightarrow> b = of_char c \<and> is_cmd cs buf"
  by (auto simp: is_cmd_def word_uint_eq_iff)

lemma is_cmd_append [simp]: "is_cmd lit (bytes lit @ r)"
  by (induction lit) simp_all

lemma cstr_at_append: "0 \<notin> set s \<Longrightarrow> k = length x \<Longrightarrow> cstr_at k (x @ s @ 0 # r) = Some s"
  by (simp add: cstr_at_def cstr_of_term)

lemma find_ptn_sel [simp]: "find_ptn (upd_fb f w) = find_ptn w" "find_ptn_index (upd_fb f w) = find_ptn_index w"
  by (simp_all add: fun_eq_iff find_ptn_def find_ptn_index_def)

lemma find_idx_ptn:
  "map_option (\<lambda>i. xs ! (i - n)) (find_idx xs name n) = find_ptn_loop xs name
   \<and> (\<forall>i. find_idx xs name n = Some i \<longrightarrow> n \<le> i \<and> i - n < length xs)"
proof (induction xs arbitrary: n)
  case (Cons x xs)
  have "map_option (\<lambda>i. (x # xs) ! (i - n)) (find_idx xs name (n + 1)) = map_option (\<lambda>i. xs ! (i - (n + 1))) (find_idx xs name (n + 1))"
    using Cons[of "n + 1"] by (intro option.map_cong) (auto simp: nth_Cons' Suc_diff_le)
  then show ?case using Cons[of "n + 1"] by (auto simp: Suc_diff_le)
qed simp

section \<open>The invariant of a download\<close>

definition fb_ok :: "('s, 'u, 'c) world \<Rightarrow> bool" where
  "fb_ok w \<longleftrightarrow> (let f = w_fb w; n = transfer_buffer_size (interface f) in
     (\<exists>off. tb w = Some off \<and> off + unat n \<le> length (w_ram w)) \<and> 16 * nand_block_size (interface f) \<noteq> 0
     \<and> download_bytes f \<le> n \<and> (download_size f \<noteq> 0 \<longrightarrow> download_bytes f < download_size f \<and> download_size f \<le> n))"

text \<open>What no command changes.\<close>

definition same_fb :: "('s, 'u, 'c) world \<Rightarrow> ('s, 'u, 'c) world \<Rightarrow> bool" where
  "same_fb w w' \<longleftrightarrow> interface (w_fb w') = interface (w_fb w) \<and> length (w_ram w') = length (w_ram w)
     \<and> download_size (w_fb w') = download_size (w_fb w) \<and> download_bytes (w_fb w') = download_bytes (w_fb w)"

section \<open>Reasoning about results\<close>

definition post :: "('a \<Rightarrow> bool) \<Rightarrow> 'a option \<Rightarrow> bool" where
  "post Q m \<longleftrightarrow> (\<forall>x. m = Some x \<longrightarrow> Q x)"

lemma post_simps [simp]: "post Q None" "post Q (Some x) = Q x"
  by (simp_all add: post_def)

lemma post_bind: "post (\<lambda>x. post Q (f x)) m \<Longrightarrow> post Q (m \<bind> f)"
  by (auto simp: post_def opt_bind)

lemma post_True: "(\<And>x. Q x) \<Longrightarrow> post Q m"
  by (simp add: post_def)

lemma post_if: "(b \<Longrightarrow> post Q x) \<Longrightarrow> (\<not> b \<Longrightarrow> post Q y) \<Longrightarrow> post Q (if b then x else y)"
  by simp

lemma post_mono: "post P m \<Longrightarrow> (\<And>x. P x \<Longrightarrow> Q x) \<Longrightarrow> post Q m"
  by (simp add: post_def)

lemma post_option: "(m = None \<Longrightarrow> post Q x) \<Longrightarrow> (\<And>y. m = Some y \<Longrightarrow> post Q (f y)) \<Longrightarrow> post Q (case m of None \<Rightarrow> x | Some y \<Rightarrow> f y)"
  by (cases m) simp_all

lemma post_prod: "(\<And>a b. x = (a, b) \<Longrightarrow> post Q (f a b)) \<Longrightarrow> post Q (case x of (a, b) \<Rightarrow> f a b)"
  by (cases x) simp

text \<open>The calls that do not touch the state of fastboot.\<close>

lemmas post_calls =
  post_True[of _ "load a b c" for a b c] post_True[of _ "store a b c" for a b c] post_True[of _ "tb w" for w]
  post_True[of _ "cstr_at k c" for k c] post_True[of _ "sprintf f a" for f a] post_True[of _ "okay_with x" for x]
  post_True[of _ "op_init d s k" for d s k] post_True[of _ "op_write d s k b o' a n" for d s k b o' a n]
  post_True[of _ "op_erase d s k a n" for d s k a n] post_True[of _ "do_saveenv i a c" for i a c]
  post_True[of _ "do_unsparse_process d b o' n st s" for d b o' n st s]
  post_True[of _ "fastboot_idme d c i s" for d c i s] post_True[of _ "fastboot_oem d c g s" for d c g s]

lemmas post_intros = post_bind post_if post_option post_prod post_calls

lemma strcmp_s_refl [simp]: "strcmp_s a a = 0"
  by (induction a) simp_all

lemma do_mmc_init:
  "do_mmc p null [a, b] w =
     (if strncmp_s a (bytes ''mmcinit'') 7 \<noteq> 0 then mmc_cmd_usage null w
      else let slot_no = fst (simple_strtoul b 16) in
        if slot_no \<noteq> 0 \<and> slot_no \<noteq> 1 then mmc_cmd_usage null w
        else do {
          (r, s) \<leftarrow> op_init (p_dev p) (w_dev w) (unat slot_no);
          if r \<noteq> 0 then Some (1, w\<lparr>w_dev := s\<rparr>)
          else Some (0, w\<lparr>w_dev := s, w_mmc_flag := (w_mmc_flag w)[unat slot_no := True]\<rparr>) })"
  by (simp add: do_mmc_def Let_def del: bytes_Cons cong: if_cong)

lemma do_mmc_erase:
  "do_mmc p null [a, b, bytes ''erase'', c, d] w =
     (let mmc_cont = fst (simple_strtoul b 16) in
      if mmc_cont \<noteq> 0 \<and> mmc_cont \<noteq> 1 then mmc_cmd_usage null w
      else if \<not> w_mmc_flag w ! unat mmc_cont then mmc_cmd_usage null w
      else do {
        (_, s) \<leftarrow> op_erase (p_dev p) (w_dev w) (unat mmc_cont) (fst (simple_strtoul c 16)) (fst (simple_strtoul d 16));
        Some (0, w\<lparr>w_dev := s\<rparr>) })"
proof -
  have "strncmp_s (bytes ''erase'') (bytes ''erase'') 5 = 0" by (simp add: strncmp_s_def)
  then show ?thesis by (simp add: do_mmc_def Let_def del: bytes_Cons)
qed

section \<open>What every operation keeps\<close>

text \<open>
  Everything a command does is made of updates of single components of the state and of replies. A relation that these steps
  keep is kept by every command: \<open>fb_rel\<close> states the contract of the steps, and it has two instances below, the
  variables of the download (\<open>same_fb\<close>) and the state of the USB driver (\<open>usb_rel\<close>).
\<close>

locale fb_rel =
  fixes p :: "('s, 'u, 'c, 'w) plat" and R :: "('s, 'u, 'c) world \<Rightarrow> ('s, 'u, 'c) world \<Rightarrow> bool"
  assumes refl [simp]: "R w w" and trans: "R w w' \<Longrightarrow> R w' w'' \<Longrightarrow> R w w''"
    and keep [simp]: "R w (w'\<lparr>w_dev := d\<rparr>) = R w w'" "R w (w'\<lparr>w_con := c\<rparr>) = R w w'" "R w (w'\<lparr>w_env := e\<rparr>) = R w w'"
      "R w (w'\<lparr>w_idme := i\<rparr>) = R w w'" "R w (w'\<lparr>w_gpt := g\<rparr>) = R w w'" "R w (w'\<lparr>w_sparse := sp\<rparr>) = R w w'"
      "R w (w'\<lparr>w_sar := a\<rparr>) = R w w'" "R w (w'\<lparr>w_prm := q\<rparr>) = R w w'" "R w (w'\<lparr>w_mmc_flag := m\<rparr>) = R w w'"
    and keep_fb [simp]: "R w (upd_fb (\<lambda>f. f\<lparr>mmcwrite_is_sparsed := b\<rparr>) w') = R w w'"
      "R w (upd_fb (\<lambda>f. f\<lparr>mmc_controller_no := n\<rparr>) w') = R w w'"
      "R w (upd_fb (\<lambda>f. f\<lparr>fastboot_confirmed := b\<rparr>) w') = R w w'"
      "R w (upd_fb (\<lambda>f. f\<lparr>multiflash_ptn := ix, multiflash_offset := n\<rparr>) w') = R w w'"
      "R w (upd_fb (\<lambda>f. f\<lparr>multiflash_offset := n, multiflash_ptn := ix\<rparr>) w') = R w w'"
      "R w (upd_fb (\<lambda>f. f\<lparr>multiflash_offset := multiflash_offset f + n\<rparr>) w') = R w w'"
    and keep_ram: "length ram = length (w_ram w') \<Longrightarrow> R w (w'\<lparr>w_ram := ram\<rparr>) = R w w'"
    and ram_len: "R w w' \<Longrightarrow> length (w_ram w') = length (w_ram w)"
    and tx_same: "tx p r w = Some w' \<Longrightarrow> R w w'"
begin

lemma set_env_same: "set_env p a b w = Some w' \<Longrightarrow> R w w'"
  by (auto simp: set_env_def opt_bind)

lemma save_env_same: "save_env p a b w = Some w' \<Longrightarrow> R w w'"
  by (auto simp: save_env_def opt_bind dest: set_env_same)

lemma save_block_values_same: "save_block_values p a b c w = Some w' \<Longrightarrow> R w w'"
  by (auto simp: save_block_values_def opt_bind dest!: set_env_same intro: trans)

lemma save_pair_same: "save_pair p s st w = Some w' \<Longrightarrow> R w w'"
  by (auto simp: save_pair_def opt_bind dest: save_env_same split: if_splits)

lemma parse_env_step_same:
  "parse_env_step p save i st w = Some (st', w') \<Longrightarrow> R w w' \<and> length (pe_buf st') = length (pe_buf st)"
  by (auto simp: parse_env_step_def opt_bind Let_def dest!: save_pair_same split: if_splits)

lemma parse_env_loop_same:
  "parse_env_loop p save n i st w = Some (st', w') \<Longrightarrow> R w w' \<and> length (pe_buf st') = length (pe_buf st)"
proof (induction n arbitrary: i st w)
  case (Suc n)
  then obtain st1 w1 where "parse_env_step p save i st w = Some (st1, w1)" "parse_env_loop p save n (i + 1) st1 w1 = Some (st', w')"
    by (auto simp: opt_bind)
  with Suc.IH parse_env_step_same show ?case by (metis trans)
qed simp

lemma parse_env_same:
  assumes "parse_env p save err w = Some (r, e, w')"
  shows "R w w'"
proof -
  obtain off where off: "tb w = Some off" using assms by (auto simp: parse_env_def opt_bind)
  obtain buf where b: "(if save then store (unat (download_bytes_unpadded (w_fb w))) [0] (drop off (w_ram w)) else Some (drop off (w_ram w))) = Some buf"
    using assms off by (auto simp: parse_env_def opt_bind Let_def)
  let ?st0 = "\<lparr>pe_buf = buf, pe_var = None, pe_var_end = None, pe_val = None, pe_sets = 0\<rparr>"
  obtain st1 w1 where l: "parse_env_loop p save (unat (download_bytes_unpadded (w_fb w))) 0 ?st0 w = Some (st1, w1)"
    using assms off b by (auto simp: parse_env_def opt_bind Let_def)
  have lb: "length buf = length (w_ram w) - off" using b by (auto split: if_splits)
  have s1: "R w w1" "length (pe_buf st1) = length (w_ram w) - off" using parse_env_loop_same[OF l] lb by simp_all
  obtain st2 w2 where f: "(if pe_var st1 = None then Some (st1, w1) else do {
          b \<leftarrow> (case (if save then pe_var_end st1 else None) of None \<Rightarrow> Some (pe_buf st1) | Some ve \<Rightarrow> store ve [0] (pe_buf st1));
          let st = st1\<lparr>pe_buf := b\<rparr>;
          w \<leftarrow> save_pair p save st w1;
          Some (st\<lparr>pe_sets := pe_sets st + 1\<rparr>, w) }) = Some (st2, w2)"
      and w': "w' = w2\<lparr>w_ram := take off (w_ram w2) @ pe_buf st2\<rparr>"
    using assms off b l by (auto simp: parse_env_def opt_bind Let_def split: if_splits)
  have s2: "R w1 w2 \<and> length (pe_buf st2) = length (pe_buf st1)"
    using f by (auto simp: opt_bind Let_def dest!: save_pair_same split: if_splits option.splits)
  have "length (w_ram w2) = length (w_ram w)" using s1 s2 ram_len by metis
  then have "length (take off (w_ram w2) @ pe_buf st2) = length (w_ram w2)" using s1 s2 by simp
  then show ?thesis using s1 s2 w' keep_ram trans by metis
qed

lemma saveenv_to_ptn_same: "saveenv_to_ptn p w = Some (r, e, w') \<Longrightarrow> R w w'"
  by (auto simp: saveenv_to_ptn_def opt_bind dest!: parse_env_same split: if_splits intro: trans)

lemma write_to_ptn_same: "write_to_ptn p ptn w = Some (r, w') \<Longrightarrow> R w w'"
  by (auto simp: write_to_ptn_def opt_bind dest: save_block_values_same split: if_splits)

lemma write_to_ptn_emmc_same: "R w0 w \<Longrightarrow> post (\<lambda>(r, e, w'). R w0 w') (write_to_ptn_emmc p ptn off w)"
  unfolding write_to_ptn_emmc_def Let_def
  by (auto intro!: post_intros simp del: bytes_Cons)

lemma do_mmc_same:
  "R w0 w \<Longrightarrow> post (\<lambda>(r, w'). R w0 w') (do_mmc p null [a, b] w)"
  "R w0 w \<Longrightarrow> post (\<lambda>(r, w'). R w0 w') (do_mmc p null [a, b, bytes ''erase'', c, d] w)"
  unfolding do_mmc_init do_mmc_erase Let_def mmc_cmd_usage_def
  by (auto intro!: post_intros simp del: bytes_Cons)

lemma tx_post: "R w0 w \<Longrightarrow> (\<And>w'. R w0 w' \<Longrightarrow> Q w') \<Longrightarrow> post Q (tx p r w)"
  by (auto simp: post_def dest: tx_same intro: trans)

lemma erase_emmc_same: "R w0 w \<Longrightarrow> post (\<lambda>(r, w'). R w0 w') (erase_emmc p ptn w)"
  unfolding erase_emmc_def
  by (auto intro!: post_intros post_mono[OF do_mmc_same(1)] post_mono[OF do_mmc_same(2)] simp del: bytes_Cons)

lemma flash_nand_same: "R w0 w \<Longrightarrow> post (\<lambda>(r, w'). R w0 w') (flash_nand p ptn w)"
  by (auto simp: flash_nand_def opt_bind post_def dest!: saveenv_to_ptn_same write_to_ptn_same split: if_splits
      intro: trans simp del: bytes_Cons)

lemma flash_env_same: "R w0 w \<Longrightarrow> post (\<lambda>(r, w'). R w0 w') (flash_env p w)"
  by (auto simp: flash_env_def opt_bind Let_def keep_ram post_def simp del: bytes_Cons)

lemma warm_reset_same: "R w0 w \<Longrightarrow> (\<And>w'. R w0 w' \<Longrightarrow> Q w') \<Longrightarrow> post Q (warm_reset r w)"
  by (auto simp: warm_reset_def intro!: post_intros)

lemma cmds_same:
  assumes "R w0 w"
  shows "post (\<lambda>(r, w'). R w0 w') (cmd_reboot_bootloader p w)" "post (\<lambda>(r, w'). R w0 w') (cmd_reboot p w)"
    "post (\<lambda>(r, w'). R w0 w') (cmd_getvar c w)" "post (\<lambda>(r, w'). R w0 w') (cmd_oem p c w)"
    "post (\<lambda>(r, w'). R w0 w') (cmd_erase p c w)" "post (\<lambda>(r, w'). R w0 w') (cmd_mmcerase p c w)"
  unfolding cmd_reboot_bootloader_def cmd_reboot_def cmd_getvar_def cmd_oem_def cmd_erase_def cmd_mmcerase_def Let_def
  using assms
  by (auto intro!: post_intros post_mono[OF erase_emmc_same[of w0]] tx_post[of w0] warm_reset_same[of w0] simp del: bytes_Cons)

lemma cmd_writes_same:
  assumes "R w0 w"
  shows "post (\<lambda>(r, w'). R w0 w') (cmd_mmcwrite p c w)" "post (\<lambda>(r, w'). R w0 w') (cmd_flash p c w)"
  unfolding cmd_mmcwrite_def cmd_flash_def Let_def
  using assms
  by (auto intro!: post_intros post_mono[OF write_to_ptn_emmc_same[of w0]] post_mono[OF flash_nand_same[of w0]]
      post_mono[OF flash_env_same[of w0]] simp del: bytes_Cons)

lemma multi_select_sel [simp]: "R w0 (multi_select ix w) = R w0 w" "interface (w_fb (multi_select ix w)) = interface (w_fb w)"
  "find_ptn (multi_select ix w) = find_ptn w"
  by (simp_all add: multi_select_def)

lemma cmd_multiflash_same:
  assumes "R w0 w"
  shows "post (\<lambda>(r, w'). R w0 w') (cmd_multiflash p c w)"
  unfolding cmd_multiflash_def Let_def
  using assms
  by (auto intro!: post_intros post_mono[OF write_to_ptn_emmc_same[of w0]] simp del: bytes_Cons)

end

interpretation fb_same: fb_rel p same_fb for p
  by unfold_locales (auto simp: same_fb_def tx_def opt_bind)

text \<open>The state of the USB driver changes by replies only.\<close>

definition tx_steps :: "('s, 'u, 'c, 'w) plat \<Rightarrow> 'u \<Rightarrow> 'u \<Rightarrow> bool" where
  "tx_steps p = (\<lambda>u u'. \<exists>r. p_tx p r u = Some u')\<^sup>*\<^sup>*"

lemma tx_steps_refl [simp]: "tx_steps p u u"
  by (simp add: tx_steps_def)

lemma tx_steps_trans: "tx_steps p u u' \<Longrightarrow> tx_steps p u' u'' \<Longrightarrow> tx_steps p u u''"
  by (simp add: tx_steps_def)

lemma tx_steps_step: "p_tx p r u = Some u' \<Longrightarrow> tx_steps p v u \<Longrightarrow> tx_steps p v u'"
  by (auto simp: tx_steps_def intro: rtranclp.rtrancl_into_rtrancl)

definition usb_rel :: "('s, 'u, 'c, 'w) plat \<Rightarrow> ('s, 'u, 'c) world \<Rightarrow> ('s, 'u, 'c) world \<Rightarrow> bool" where
  "usb_rel p w w' \<longleftrightarrow> tx_steps p (w_usb w) (w_usb w') \<and> length (w_ram w') = length (w_ram w)"

interpretation fb_usb: fb_rel p "usb_rel p" for p
  by unfold_locales (auto simp: usb_rel_def tx_def opt_bind intro: tx_steps_trans tx_steps_step)

lemma fb_ok_same: "same_fb w w' \<Longrightarrow> fb_ok w \<Longrightarrow> fb_ok w'"
  by (simp add: same_fb_def fb_ok_def tb_def Let_def)

section \<open>Downloads stay inside the transfer buffer\<close>

text \<open>Equality of two memories outside the transfer buffer.\<close>

definition eq_outside :: "nat \<Rightarrow> nat \<Rightarrow> byte list \<Rightarrow> byte list \<Rightarrow> bool" where
  "eq_outside off n a b \<longleftrightarrow> length a = length b \<and> take off a = take off b \<and> drop (off + n) a = drop (off + n) b"

lemma eq_outside_refl [simp]: "eq_outside off n a a"
  by (simp add: eq_outside_def)

lemma eq_outside_trans: "eq_outside off n a b \<Longrightarrow> eq_outside off n b c \<Longrightarrow> eq_outside off n a c"
  by (simp add: eq_outside_def)

lemma eq_outside_patch:
  "k + length xs \<le> n \<Longrightarrow> off + n \<le> length a \<Longrightarrow> eq_outside off n a (patch (off + k) xs a)"
  using drop_patch[of "off + k" xs "off + n" a] unfolding eq_outside_def by (auto simp: patch_def)

lemma pad_loop_ok:
  "off + unat lim \<le> length ram \<Longrightarrow> n \<le> lim \<Longrightarrow> \<exists>ram' n'. pad_loop k off lim ram n = Some (ram', n') \<and> n' \<le> lim
     \<and> eq_outside off (unat lim) ram ram'"
proof (induction k arbitrary: ram n)
  case (Suc k)
  show ?case
  proof (cases "n \<ge> lim")
    case False
    then have lt: "unat n + 1 \<le> unat lim" by (simp add: word_le_nat_alt word_less_nat_alt)
    then have "n + 1 \<le> lim" using False by (simp add: inc_le not_le)
    moreover have e: "eq_outside off (unat lim) ram (patch (off + unat n) [0] ram)"
      using Suc.prems(1) lt by (intro eq_outside_patch) auto
    ultimately obtain ram' n' where "pad_loop k off lim (patch (off + unat n) [0] ram) (n + 1) = Some (ram', n')" "n' \<le> lim"
        "eq_outside off (unat lim) (patch (off + unat n) [0] ram) ram'"
      using Suc.IH[of "patch (off + unat n) [0] ram" "n + 1"] Suc.prems(1) by (auto simp: eq_outside_def)
    then show ?thesis using False e eq_outside_trans lt Suc.prems(1) by (auto dest: eq_outside_trans)
  qed (use Suc.prems in simp)
qed simp

lemma pad_download_ok:
  "off + unat (transfer_buffer_size i) \<le> length ram \<Longrightarrow> n \<le> transfer_buffer_size i
    \<Longrightarrow> \<exists>ram' n'. pad_download i off ram n = Some (ram', n') \<and> n' \<le> transfer_buffer_size i
      \<and> eq_outside off (unat (transfer_buffer_size i)) ram ram'"
  using pad_loop_ok[of off "transfer_buffer_size i" ram n] by (simp add: pad_download_def)

lemma pad_download_len: "pad_download i off ram n = Some (ram', n') \<Longrightarrow> length ram' = length ram"
proof -
  have "pad_loop k off lim ram n = Some (ram', n') \<Longrightarrow> length ram' = length ram" for k lim
    by (induction k arbitrary: ram n) (auto simp: opt_bind split: if_splits)
  then show "pad_download i off ram n = Some (ram', n') \<Longrightarrow> length ram' = length ram" by (auto simp: pad_download_def split: if_splits)
qed

lemma rx_done_ok:
  assumes "fb_ok (upd_fb (\<lambda>f. f\<lparr>download_size := 0\<rparr>) w)" and "tb w = Some off" and "\<And>r u. p_tx p r u \<noteq> None"
  shows "\<exists>w'. rx_done p off w = Some w' \<and> fb_ok w' \<and> interface (w_fb w') = interface (w_fb w)
    \<and> eq_outside off (unat (transfer_buffer_size (interface (w_fb w)))) (w_ram w) (w_ram w')"
proof -
  let ?w = "upd_fb (\<lambda>f. f\<lparr>download_size := 0\<rparr>) w" and ?i = "interface (w_fb w)"
  let ?r = "if download_error (w_fb w) \<noteq> 0 then bytes ''ERROR'' else bytes ''OKAY''"
  obtain u where u: "p_tx p ?r (w_usb w) = Some u" using assms(3) by blast
  let ?n = "download_bytes (w_fb w)"
  have ok: "off + unat (transfer_buffer_size ?i) \<le> length (w_ram w)" "16 * nand_block_size ?i \<noteq> 0" "?n \<le> transfer_buffer_size ?i"
    using assms(1,2) by (auto simp: fb_ok_def Let_def tb_def)
  obtain ram' n' where pad: "pad_download ?i off (w_ram w) ?n = Some (ram', n')" "n' \<le> transfer_buffer_size ?i"
      "eq_outside off (unat (transfer_buffer_size ?i)) (w_ram w) ram'"
    using pad_download_ok[OF ok(1,3)] by blast
  show ?thesis
  proof (cases "storage_medium ?i = NAND")
    case True
    then have "rx_done p off w = Some (upd_fb (\<lambda>f. f\<lparr>download_bytes := n'\<rparr>)
        (upd_fb (\<lambda>f. f\<lparr>download_bytes_unpadded := download_bytes f\<rparr>) (?w\<lparr>w_usb := u\<rparr>)\<lparr>w_ram := ram'\<rparr>))"
      using u pad(1) by (simp add: rx_done_def Let_def tx_def upd_fb_def del: bytes_Cons)
    then show ?thesis using pad ok assms(2) by (auto simp: fb_ok_def Let_def tb_def eq_outside_def)
  next
    case False
    then have "rx_done p off w = Some (?w\<lparr>w_usb := u\<rparr>)"
      using u by (simp add: rx_done_def Let_def tx_def del: bytes_Cons)
    then show ?thesis using ok assms(2) by (auto simp: fb_ok_def Let_def tb_def)
  qed
qed

lemma rx_data_ok:
  assumes "fb_ok w" and "download_size (w_fb w) \<noteq> 0" and "tb w = Some off" and "unat n \<le> length buf" and "\<And>r u. p_tx p r u \<noteq> None"
  shows "\<exists>w'. rx_data p buf n w = Some w' \<and> fb_ok w' \<and> interface (w_fb w') = interface (w_fb w)
    \<and> eq_outside off (unat (transfer_buffer_size (interface (w_fb w)))) (w_ram w) (w_ram w')"
proof (cases "n = 0")
  case False
  let ?f = "w_fb w" and ?i = "interface (w_fb w)"
  have ok: "off + unat (transfer_buffer_size ?i) \<le> length (w_ram w)" "16 * nand_block_size ?i \<noteq> 0"
      "download_bytes ?f < download_size ?f" "download_size ?f \<le> transfer_buffer_size ?i"
    using assms(1-3) by (auto simp: fb_ok_def Let_def)
  define t where "t = (if n < download_size ?f - download_bytes ?f then n else download_size ?f - download_bytes ?f)"
  have d: "unat (download_size ?f - download_bytes ?f) = unat (download_size ?f) - unat (download_bytes ?f)"
    using ok(3) by (simp add: unat_sub less_imp_le)
  have lt: "unat (download_bytes ?f) < unat (download_size ?f)" "unat (download_size ?f) \<le> unat (transfer_buffer_size ?i)"
    using ok by (simp_all add: word_less_nat_alt word_le_nat_alt)
  have t: "unat t \<le> unat n" "unat t \<le> unat (download_size ?f) - unat (download_bytes ?f)"
    using d by (auto simp: t_def word_less_nat_alt)
  have s: "unat (download_bytes ?f + t) = unat (download_bytes ?f) + unat t"
    using t(2) lt unsigned_less[of "download_size ?f", where 'a = nat] by (intro unat_add_lem[THEN iffD1]) simp
  let ?ram = "patch (off + unat (download_bytes ?f)) (bslice 0 (unat t) buf) (w_ram w)"
  let ?w = "upd_fb (\<lambda>f. f\<lparr>download_bytes := download_bytes f + t\<rparr>) (w\<lparr>w_ram := ?ram\<rparr>)"
  have e: "eq_outside off (unat (transfer_buffer_size ?i)) (w_ram w) ?ram"
    using t lt ok(1) assms(4) by (intro eq_outside_patch) auto
  then have len: "length ?ram = length (w_ram w)" by (simp add: eq_outside_def)
  have call: "rx_data p buf n w = do {
        w \<leftarrow> (if download_bytes ?f + t \<ge> download_size ?f then rx_done p off ?w else Some ?w);
        if download_bytes (w_fb w) \<noteq> 0 \<and> 16 * nand_block_size (interface (w_fb w)) = 0 then None else Some w }"
    using False assms(3,4) t lt ok(1) by (simp add: rx_data_def Let_def flip: t_def)
  show ?thesis
  proof (cases "download_bytes ?f + t \<ge> download_size ?f")
    case True
    have "fb_ok (upd_fb (\<lambda>f. f\<lparr>download_size := 0\<rparr>) ?w)"
      using assms(3) ok(1,2) len s t(2) lt by (auto simp: fb_ok_def Let_def tb_def word_le_nat_alt)
    then obtain w' where "rx_done p off ?w = Some w'" "fb_ok w'" "interface (w_fb w') = ?i"
        "eq_outside off (unat (transfer_buffer_size ?i)) ?ram (w_ram w')"
      using rx_done_ok[of ?w off p] assms(3,5) by (auto simp: tb_def)
    then show ?thesis using call True ok(2) e eq_outside_trans by fastforce
  next
    case nd: False
    then have "fb_ok ?w" using assms(2,3) ok len by (auto simp: fb_ok_def Let_def tb_def)
    then show ?thesis using call nd ok(2) e by simp
  qed
qed (use assms in \<open>simp add: rx_data_def\<close>)

section \<open>The handler keeps the invariant\<close>

lemma fb_ok_post: "fb_ok w \<Longrightarrow> post (\<lambda>(r, w'). same_fb w w') m \<Longrightarrow> post (\<lambda>(r, w'). fb_ok w') m"
  by (auto simp: post_def intro: fb_ok_same)

lemma cmd_download_ok: "fb_ok w \<Longrightarrow> post (\<lambda>(r, w'). fb_ok w') (cmd_download c w)"
  unfolding cmd_download_def Let_def
  by (auto intro!: post_intros simp del: bytes_Cons) (auto simp: fb_ok_def tb_def Let_def word_neq_0_conv)

lemma rx_cmd_ok:
  assumes "fb_ok w" and "\<And>w. fb_ok w \<Longrightarrow> post (\<lambda>(r, w'). fb_ok w') (p_bootd p w)"
    and "\<And>a w. fb_ok w \<Longrightarrow> post (\<lambda>(r, w'). fb_ok w') (p_booti p a w)"
  shows "post (\<lambda>(r, w'). fb_ok w') (rx_cmd p c w)"
proof -
  have tx: "post (\<lambda>w'. fb_ok w') (tx p r w)" for r
    using assms(1) by (auto simp: post_def dest: fb_same.tx_same fb_ok_same)
  have c: "post (\<lambda>(r, w'). fb_ok w') (cmd_continue p w)" unfolding cmd_continue_def
    by (intro post_bind post_mono[OF tx]) (auto intro!: post_mono[OF assms(2)] split: ret.splits simp del: bytes_Cons)
  have b: "post (\<lambda>(r, w'). fb_ok w') (cmd_boot p w)" unfolding cmd_boot_def
    by (intro post_if post_bind post_calls post_mono[OF tx])
      (auto intro!: post_mono[OF assms(3)] split: ret.splits simp: assms(1) simp del: bytes_Cons)
  show ?thesis unfolding rx_cmd_def
    by (intro post_if c b cmd_download_ok fb_ok_post[OF assms(1)] fb_same.cmds_same[OF fb_same.refl] fb_same.cmd_writes_same[OF fb_same.refl]
        fb_same.cmd_multiflash_same[OF fb_same.refl]) (simp_all add: assms(1))
qed

lemma rx_handler_ok:
  assumes "fb_ok w" and "tb w = Some off" and "unat n \<le> length buf" and "\<And>r u. p_tx p r u \<noteq> None"
    and "\<And>w. fb_ok w \<Longrightarrow> post (\<lambda>(r, w'). fb_ok w') (p_bootd p w)" "\<And>a w. fb_ok w \<Longrightarrow> post (\<lambda>(r, w'). fb_ok w') (p_booti p a w)"
  shows "post (\<lambda>(r, w'). fb_ok w') (rx_handler p buf n w)"
proof (cases "download_size (w_fb w) = 0")
  case True
  let ?w = "upd_fb (\<lambda>f. f\<lparr>fastboot_confirmed := True\<rparr>) w"
  have "fb_ok ?w" using assms(1) by (rule fb_ok_same[rotated]) simp
  then have "post (\<lambda>(r, w'). fb_ok w') (rx_cmd p buf ?w)" using rx_cmd_ok assms(5,6) by blast
  then have "post (\<lambda>(r, w'). post (\<lambda>(r, w'). fb_ok w') (case r of Leave x \<Rightarrow> Some (x, w')
        | Reply response x \<Rightarrow> do { w \<leftarrow> tx p response w'; Some (Ret x, w) })) (rx_cmd p buf ?w)"
    by (rule post_mono) (auto simp: post_def opt_bind dest: fb_same.tx_same fb_ok_same split: reply.splits)
  then show ?thesis using True unfolding rx_handler_def by (auto intro!: post_bind elim: post_mono)
next
  case False
  then show ?thesis using rx_data_ok[OF assms(1) False assms(2-4)] by (auto simp: rx_handler_def)
qed

lemma rx_data_usb: "post (usb_rel p w) (rx_data p buf n w)"
proof -
  have d: "usb_rel p w w1 \<Longrightarrow> post (usb_rel p w) (rx_done p off w1)" for w1 off
    unfolding rx_done_def Let_def
    by (auto simp: post_def opt_bind usb_rel_def tx_def split: if_splits dest!: pad_download_len intro: tx_steps_step)
  have st: "(\<And>b. length b = length ram \<Longrightarrow> Q b) \<Longrightarrow> post Q (store off xs ram)" for Q off and xs ram :: "byte list"
    by (simp add: post_def)
  show ?thesis unfolding rx_data_def Let_def
    by (auto intro!: post_bind post_if post_calls(1,3) st post_mono[OF d] simp: usb_rel_def)
qed

lemma rx_handler_usb:
  assumes "\<And>w. post (\<lambda>(r, w'). usb_rel p w w') (p_bootd p w)" "\<And>a w. post (\<lambda>(r, w'). usb_rel p w w') (p_booti p a w)"
  shows "post (\<lambda>(r, w'). usb_rel p w w') (rx_handler p buf n w)"
proof -
  let ?w = "upd_fb (\<lambda>f. f\<lparr>fastboot_confirmed := True\<rparr>) w"
  have s: "usb_rel p w ?w" by simp
  have c: "post (\<lambda>(r, w'). usb_rel p w w') (cmd_continue p ?w)" unfolding cmd_continue_def
    by (auto intro!: post_bind fb_usb.tx_post[OF s] post_mono[OF assms(1)] split: ret.splits intro: fb_usb.trans simp del: bytes_Cons)
  have b: "post (\<lambda>(r, w'). usb_rel p w w') (cmd_boot p ?w)" unfolding cmd_boot_def
    by (auto intro!: post_intros fb_usb.tx_post[OF s] post_mono[OF assms(2)] split: ret.splits intro: fb_usb.trans simp del: bytes_Cons)
  have d: "post (\<lambda>(r, w'). usb_rel p w w') (cmd_download buf ?w)" unfolding cmd_download_def Let_def
    by (auto intro!: post_intros simp: usb_rel_def simp del: bytes_Cons)
  have "post (\<lambda>(r, w'). usb_rel p w w') (rx_cmd p buf ?w)" unfolding rx_cmd_def
    by (intro post_if c b d fb_usb.cmds_same[OF s] fb_usb.cmd_writes_same[OF s] fb_usb.cmd_multiflash_same[OF s]) simp
  then have "post (\<lambda>(r, w'). post (\<lambda>(r, w'). usb_rel p w w') (case r of Leave x \<Rightarrow> Some (x, w')
        | Reply response x \<Rightarrow> do { w \<leftarrow> tx p response w'; Some (Ret x, w) })) (rx_cmd p buf ?w)"
    by (rule post_mono) (auto simp: post_def opt_bind dest: fb_usb.tx_same intro: fb_usb.trans split: reply.splits)
  then show ?thesis using post_mono[OF rx_data_usb[of p w buf n]] unfolding rx_handler_def
    by (auto intro!: post_bind elim: post_mono)
qed

end
