(* ===== verification/FastbootSession.thy ===== *)
theory FastbootSession
  imports FastbootInv
begin

text \<open>
  Whole fastboot sessions: a download however it is cut into packets, then the flashing of a raw or a sparse image, an image
  in several chunks, and erasing. \<open>fb_link\<close> is what the handler needs of the USB driver: a reply is always
  transmitted. \<open>fb_flash\<close> adds the promises of the eMMC driver.
\<close>

section \<open>A whole download\<close>

text \<open>
  The packets of the host, one after the other: no result when a packet makes the boot loader leave. The handler gets the
  buffer of the driver, where zeros follow the packet; \<open>g\<close> is what the driver does to its own state to fetch it.
\<close>

definition pkt :: "byte list \<Rightarrow> byte list" where
  "pkt x = x @ replicate (0x200 - length x) 0"

definition upd_usb :: "('u \<Rightarrow> 'u) \<Rightarrow> ('s, 'u, 'c) world \<Rightarrow> ('s, 'u, 'c) world" where
  "upd_usb g w = w\<lparr>w_usb := g (w_usb w)\<rparr>"

fun rx_all :: "('s, 'u, 'c, ('s, 'u, 'c) world) plat \<Rightarrow> ('u \<Rightarrow> 'u) \<Rightarrow> byte list list \<Rightarrow> ('s, 'u, 'c) world \<Rightarrow> ('s, 'u, 'c) world option" where
  "rx_all p g [] w = Some w"
| "rx_all p g (x # xs) w = do {
     (r, w) \<leftarrow> rx_handler p (pkt x) (of_nat (length x)) (upd_usb g w);
     case r of Ret _ \<Rightarrow> rx_all p g xs w | Halt _ \<Rightarrow> None }"

lemma rx_all_append: "rx_all p g (xs @ ys) w = rx_all p g xs w \<bind> rx_all p g ys"
proof (induction xs arbitrary: w)
  case (Cons x xs)
  then show ?case by (cases "rx_handler p (pkt x) (of_nat (length x)) (upd_usb g w)") (auto split: ret.split)
qed simp

lemma upd_usb_sel [simp]:
  "w_fb (upd_usb g w) = w_fb w" "w_dev (upd_usb g w) = w_dev w" "w_usb (upd_usb g w) = g (w_usb w)" "w_ram (upd_usb g w) = w_ram w"
  "w_sparse (upd_usb g w) = w_sparse w" "w_mmc_flag (upd_usb g w) = w_mmc_flag w" "tb (upd_usb g w) = tb w"
  "find_ptn (upd_usb g w) = find_ptn w" "find_ptn_index (upd_usb g w) = find_ptn_index w" "fb_ok (upd_usb g w) = fb_ok w"
  by (simp_all add: upd_usb_def tb_def fun_eq_iff find_ptn_def find_ptn_index_def fb_ok_def Let_def)

lemma pkt_slice: "bslice 0 (length x) (pkt x) = x" "length x \<le> length (pkt x)"
  by (simp_all add: pkt_def bslice_def)

lemma pkt_cmd: "length x < 0x200 \<Longrightarrow> \<exists>r. pkt x = x @ 0 # r"
  by (rule exI[of _ "replicate (0x1FF - length x) 0"]) (simp add: pkt_def Suc_diff_le flip: replicate_Suc)

lemma upd_fb_commute:
  "(upd_fb f w)\<lparr>w_dev := s\<rparr> = upd_fb f (w\<lparr>w_dev := s\<rparr>)" "(upd_fb f w)\<lparr>w_usb := u\<rparr> = upd_fb f (w\<lparr>w_usb := u\<rparr>)"
  "(upd_fb f w)\<lparr>w_sparse := sp\<rparr> = upd_fb f (w\<lparr>w_sparse := sp\<rparr>)" "(upd_fb f w)\<lparr>w_ram := r\<rparr> = upd_fb f (w\<lparr>w_ram := r\<rparr>)"
  "(upd_fb f w)\<lparr>w_mmc_flag := m\<rparr> = upd_fb f (w\<lparr>w_mmc_flag := m\<rparr>)"
  by (simp_all add: upd_fb_def)

definition received :: "u32 \<Rightarrow> nat \<Rightarrow> byte list \<Rightarrow> 'u \<Rightarrow> ('s, 'u, 'c) world \<Rightarrow> ('s, 'u, 'c) world" where
  "received n off bs u w = upd_fb (\<lambda>f. f\<lparr>download_size := 0, download_bytes := n\<rparr>)
     (w\<lparr>w_ram := patch off bs (w_ram w), w_usb := u\<rparr>)"

definition hex8 :: "u32 \<Rightarrow> byte list" where
  "hex8 n = replicate (8 - length (hexs n)) 0x30 @ hexs n"

lemma length_hex8 [simp]: "length (hex8 n) = 8"
  using length_hexs[of n] by (simp add: hex8_def)

lemma hex8_nz: "0 \<notin> set (hex8 n)"
proof -
  have "\<not> isxdigit 0" by (simp add: isxdigit_iff)
  then have "0 \<notin> set (hexs n)" using hexs_xdigit by blast
  then show ?thesis by (simp add: hex8_def)
qed

locale fb_link =
  fixes p :: "('s, 'u, 'c, ('s, 'u, 'c) world) plat"
    and txf :: "byte list \<Rightarrow> 'u \<Rightarrow> 'u"
  assumes tx_total: "p_tx p r u = Some (txf r u)"
begin

lemma tx_w [simp]: "tx p r w = Some (w\<lparr>w_usb := txf r (w_usb w)\<rparr>)"
  by (simp add: tx_def tx_total)

lemma rx_data_step:
  assumes "fb_ok w" and "download_size (w_fb w) \<noteq> 0" and "tb w = Some off" and "x \<noteq> []"
    and "storage_medium (interface (w_fb w)) = EMMC" and "download_error (w_fb w) = 0"
    and "unat (download_bytes (w_fb w)) = k" and "k + length x \<le> unat (download_size (w_fb w))"
  shows "rx_handler p (pkt x) (of_nat (length x)) w = Some (Ret 0,
    if k + length x < unat (download_size (w_fb w))
    then upd_fb (\<lambda>f. f\<lparr>download_bytes := of_nat (k + length x)\<rparr>) (w\<lparr>w_ram := patch (off + k) x (w_ram w)\<rparr>)
    else received (download_size (w_fb w)) (off + k) x (txf (bytes ''OKAY'') (w_usb w)) w)"
proof -
  let ?f = "w_fb w" and ?i = "interface (w_fb w)"
  have ok: "off + unat (transfer_buffer_size ?i) \<le> length (w_ram w)" "16 * nand_block_size ?i \<noteq> 0"
      "download_bytes ?f < download_size ?f" "download_size ?f \<le> transfer_buffer_size ?i"
    using assms(1-3) by (auto simp: fb_ok_def Let_def)
  have lx: "unat (of_nat (length x) :: u32) = length x"
    using assms(8) unsigned_less[of "download_size ?f", where 'a = nat] by (intro unat_of_nat32) simp
  have d: "unat (download_size ?f - download_bytes ?f) = unat (download_size ?f) - k"
    using ok(3) assms(7) by (simp add: unat_sub less_imp_le)
  have t: "(if of_nat (length x) < download_size ?f - download_bytes ?f then of_nat (length x) else download_size ?f - download_bytes ?f)
      = (of_nat (length x) :: u32)"
    using lx d assms(8) by (auto simp: word_less_nat_alt intro!: word_unat_eq_iff[THEN iffD2])
  have db: "download_bytes ?f + of_nat (length x) = of_nat (k + length x)"
    using assms(7) by (simp flip: assms(7))
  have uk: "unat (of_nat (k + length x) :: u32) = k + length x"
    using assms(8) unsigned_less[of "download_size ?f", where 'a = nat] by (intro unat_of_nat32) simp
  have lim: "unat (download_size ?f) \<le> unat (transfer_buffer_size ?i)" using ok(4) by (simp add: word_le_nat_alt)
  have nz: "(of_nat (length x) :: u32) \<noteq> 0" using lx assms(4) by (metis length_0_conv unat_0)
  have ge: "(of_nat (k + length x) :: u32) \<ge> download_size ?f \<longleftrightarrow> \<not> k + length x < unat (download_size ?f)"
    using uk by (simp add: word_le_nat_alt not_less)
  have st: "off + k + length x \<le> length (w_ram w)" using assms(8) lim ok(1) by simp
  have eq: "of_nat (k + length x) = download_size ?f" if "\<not> k + length x < unat (download_size ?f)"
    using that assms(8) uk by (intro word_unat_eq_iff[THEN iffD2]) simp
  have up: "upd_fb (\<lambda>f. f\<lparr>download_bytes := download_bytes f + of_nat (length x)\<rparr>) (w\<lparr>w_ram := R\<rparr>)
      = upd_fb (\<lambda>f. f\<lparr>download_bytes := of_nat (k + length x)\<rparr>) (w\<lparr>w_ram := R\<rparr>)" for R
    using db by (simp add: upd_fb_def del: of_nat_add)
  show ?thesis
  proof (cases "k + length x < unat (download_size ?f)")
    case True
    then show ?thesis
      using assms(2,3,7) t db ge nz ok(2) st lx pkt_slice up by (simp add: rx_handler_def rx_data_def Let_def del: of_nat_add)
  next
    case False
    have "storage_medium ?i \<noteq> NAND" using assms(5) by (simp add: NAND_def EMMC_def)
    then show ?thesis
      using assms(2,3,6,7) t db ge nz ok(2) st lx pkt_slice False eq[OF False]
      by (simp add: rx_handler_def rx_data_def rx_done_def Let_def received_def upd_fb_def del: of_nat_add bytes_Cons)
  qed
qed

text \<open>The packets of a download arrive in the buffer as one piece, however the data is cut.\<close>

lemma rx_data_all:
  assumes "fb_ok w" and "download_size (w_fb w) \<noteq> 0" and "tb w = Some off"
    and "storage_medium (interface (w_fb w)) = EMMC" and "download_error (w_fb w) = 0" and "[] \<notin> set xs"
    and "unat (download_bytes (w_fb w)) + length (concat xs) = unat (download_size (w_fb w))"
  shows "rx_all p g xs w = Some (received (download_size (w_fb w)) (off + unat (download_bytes (w_fb w))) (concat xs)
    (txf (bytes ''OKAY'') ((g ^^ length xs) (w_usb w))) w)"
  using assms
proof (induction xs arbitrary: w)
  case Nil
  then have "download_bytes (w_fb w) = download_size (w_fb w)" by (simp add: word_unat_eq_iff)
  then show ?case using Nil.prems(1,2) by (auto simp: fb_ok_def Let_def)
next
  case (Cons x xs)
  let ?f = "w_fb w" and ?k = "unat (download_bytes (w_fb w))"
  have x: "x \<noteq> []" "[] \<notin> set xs" using Cons.prems(6) by auto
  note step = rx_data_step[of "upd_usb g w" off x, OF _ _ _ x(1) _ _ refl, simplified]
  show ?case
  proof (cases "?k + length x < unat (download_size ?f)")
    case True
    let ?w = "upd_fb (\<lambda>f. f\<lparr>download_bytes := of_nat (?k + length x)\<rparr>) ((upd_usb g w)\<lparr>w_ram := patch (off + ?k) x (w_ram w)\<rparr>)"
    have uk: "unat (of_nat (?k + length x) :: u32) = ?k + length x"
      using True unsigned_less[of "download_size ?f", where 'a = nat] by (intro unat_of_nat32) simp
    have b: "off + unat (transfer_buffer_size (interface ?f)) \<le> length (w_ram w)" "download_size ?f \<le> transfer_buffer_size (interface ?f)"
      using Cons.prems(1-3) by (auto simp: fb_ok_def Let_def)
    then have r: "off + ?k + length (x @ concat xs) \<le> length (w_ram w)" using Cons.prems(7) by (simp add: word_le_nat_alt)
    have "fb_ok ?w" using Cons.prems(1-3) True uk b r by (auto simp: fb_ok_def Let_def tb_def word_less_nat_alt word_le_nat_alt simp del: of_nat_add)
    then have ih: "rx_all p g xs ?w = Some (received (download_size ?f) (off + (?k + length x)) (concat xs) (txf (bytes ''OKAY'') ((g ^^ length xs) (g (w_usb w)))) ?w)"
      using Cons.IH[of ?w] Cons.prems x uk by (auto simp: tb_def simp del: of_nat_add)
    have "received (download_size ?f) (off + (?k + length x)) (concat xs) u ?w = received (download_size ?f) (off + ?k) (concat (x # xs)) u w" for u
      using patch_append[of "off + ?k" x "concat xs" "w_ram w"] r by (simp add: received_def upd_fb_def upd_usb_def add.assoc)
    then show ?thesis using ih step True Cons.prems by (auto simp: funpow_swap1 simp del: of_nat_add bytes_Cons)
  next
    case False
    then have "length (concat xs) = 0" using Cons.prems(7) unfolding concat.simps length_append by linarith
    then have "xs = []" using x(2) by (cases xs) auto
    then show ?thesis using step False Cons.prems by (simp add: received_def upd_usb_def upd_fb_def del: bytes_Cons)
  qed
qed

text \<open>The command that starts a download.\<close>

lemma rx_download:
  assumes "download_size (w_fb w) = 0" and "n \<noteq> 0" "n \<le> transfer_buffer_size (interface (w_fb w))"
  shows "rx_handler p (bytes ''download:'' @ hex8 n @ 0 # r) k w = Some (Ret 0,
    upd_fb (\<lambda>f. f\<lparr>fastboot_confirmed := True, download_size := n, download_bytes := 0, download_error := 0\<rparr>)
      (w\<lparr>w_usb := txf (bytes ''DATA'' @ hex8 n) (w_usb w)\<rparr>))"
proof -
  let ?c = "bytes ''download:'' @ hex8 n @ 0 # r"
  have "cstr_at 9 ?c = Some (hex8 n)" by (rule cstr_at_append) (simp_all add: hex8_nz)
  moreover have "fst (simple_strtoul (hex8 n) 16) = n" by (simp add: hex8_def strtoul_hex)
  moreover have "\<not> transfer_buffer_size (interface (w_fb w)) < n" using assms(3) by simp
  ultimately have "cmd_download ?c w' = Some (Reply (bytes ''DATA'' @ hex8 n) 0,
      upd_fb (\<lambda>f. f\<lparr>download_size := n, download_bytes := 0, download_error := 0\<rparr>) w')"
    if "interface (w_fb w') = interface (w_fb w)" for w' :: "('s, 'u, 'c) world"
    using assms(2) that by (simp add: cmd_download_def sprintf_DATA hex8_def del: bytes_Cons)
  moreover have "rx_cmd p ?c w' = cmd_download ?c w'" for w' by (simp add: rx_cmd_def)
  ultimately show ?thesis using assms(1) by (simp add: rx_handler_def upd_fb_def del: bytes_Cons)
qed

end

context block_device
begin

text \<open>A sparse image that lies at one place of the memory.\<close>

lemma unsparse_image:
  assumes s: "inv s" and bsz: "blk_ok bsz" and cs: "list_all (chunk_ok bsz) cs" "length cs < 2 ^ 32"
    and room: "unat sector + span bsz cs \<le> cap"
    and st: "length (last_header st) = 12" "length (sp_data st) = 512"
    and src: "off + n \<le> length src" "bslice off n src = image_header bsz minor tot csum (length cs) @ stream bsz cs"
  shows "\<exists>st' s'. do_unsparse_process dev src off n (do_unsparse_start sector 1 st) s = Some (0, st', s') \<and> inv s' \<and> part s' = part s
    \<and> sect s' = (sect s)(part s := expand bsz (sect s (part s)) (unat sector) cs)"
proof -
  let ?h = "image_header bsz minor tot csum (length cs)" and ?init = "do_unsparse_start sector 1 st"
  let ?st = "?init\<lparr>remaining_chunks := of_nat (length cs), chunk_offset := 0, block_size := of_nat bsz\<rparr>"
  have n: "n = 28 + length (stream bsz cs)"
    using arg_cong[OF src(2), of length] src(1) image_fields(7)[of bsz minor tot csum "length cs"] by simp
  have h: "bslice off 28 src = ?h"
    using arg_cong[OF src(2), of "take 28"] image_fields(7)[of bsz minor tot csum "length cs"] n by (simp add: bslice_def min_def)
  then have l: "load off 28 src = Some ?h" using src(1) n by simp
  have rd: "unsparse_read_header src off n ?init = Some (0, off + 28, n - 28, ?st)"
    using n image_fields[of bsz minor tot csum "length cs"] unfolding unsparse_read_header_def l by simp
  have p: "pend bsz cs 0 ?st" using st bsz cs by (intro pend_0) (simp_all add: writer_ok_def do_unsparse_start_def)
  have b: "bslice (off + 28) (n - 28) src = take (n - 28) (drop 0 (stream bsz cs))"
    using arg_cong[OF src(2), of "drop 28"] image_fields(7)[of bsz minor tot csum "length cs"] n
    by (simp add: bslice_def drop_take add.commute)
  have sec: "sp_sector ?st = sector" by (simp add: do_unsparse_start_def)
  have o: "off + 28 + (n - 28) \<le> length src" using src(1) n by simp
  have o2: "0 + (n - 28) \<le> length (stream bsz cs)" using n by simp
  obtain cs1 k1 st1 s1 d where r: "unsparse_loop (op_write dev) src (off + 28) (n - 28) ?st s = Some (0, st1, s1)"
      "inv s1" "part s1 = part s" "pend bsz cs1 k1 st1" "drop k1 (stream bsz cs1) = drop (n - 28) (stream bsz cs)"
      "sect s1 = (sect s)(part s := d)" "expand bsz d (unat (sp_sector st1)) (left cs1 k1)
           = expand bsz (sect s (part s)) (unat sector) cs"
    using section_loop[OF s p o b o2] room unfolding sec by (auto simp: cur_def)
  have "cs1 = []"
  proof (rule ccontr)
    assume "cs1 \<noteq> []"
    then obtain x xs where "cs1 = x # xs" by (cases cs1) auto
    then have "k1 < length (stream bsz cs1)" using r(4) by (simp add: pend_def del: enc_chunk.simps)
    then show False using r(5) n by simp
  qed
  then have "d = expand bsz (sect s (part s)) (unat sector) cs" using r(7) by simp
  moreover have "do_unsparse_process dev src off n ?init s = Some (0, st1, s1)"
    using r(1) rd by (simp add: do_unsparse_process_def unsparse_def do_unsparse_start_def)
  ultimately show ?thesis using r by auto
qed

end

section \<open>Flashing\<close>

definition flash_packet :: "byte list \<Rightarrow> byte list" where
  "flash_packet name = bytes ''flash:'' @ name"

definition emmc_idle :: "('s, 'u, 'c) world \<Rightarrow> bool" where
  "emmc_idle w \<longleftrightarrow> storage_medium (interface (w_fb w)) = EMMC \<and> download_size (w_fb w) = 0"

text \<open>The state a successful write of an image leaves.\<close>

definition flashed :: "bool \<Rightarrow> 's \<Rightarrow> sparse_state \<Rightarrow> (byte list \<Rightarrow> 'u \<Rightarrow> 'u) \<Rightarrow> ('s, 'u, 'c) world \<Rightarrow> ('s, 'u, 'c) world" where
  "flashed sparse s sp txf w = upd_fb (\<lambda>f. f\<lparr>fastboot_confirmed := True, mmcwrite_is_sparsed := sparse\<rparr>)
     (w\<lparr>w_dev := s, w_sparse := sp, w_usb := txf (bytes ''OKAY'') (w_usb w)\<rparr>)"

locale fb_flash = fb_link p txf + block_device "p_dev p" pre inv part sect cap
  for p :: "('s, 'u, 'c, ('s, 'u, 'c) world) plat" and txf pre inv part sect cap
begin

lemma rx_flash_cmd:
  assumes "emmc_idle w" and "download_bytes (w_fb w) \<noteq> 0" and "0 \<notin> set name" "find_ptn w name = Some ptn"
    and "\<not> has_flag ptn FLAGS_WRITE_ENV" "ucast (download_bytes (w_fb w)) \<le> pt_length ptn"
    and "write_to_ptn_emmc p ptn 0 (upd_fb (\<lambda>f. f\<lparr>fastboot_confirmed := True\<rparr>) w) = Some (r0, resp, w')"
  shows "rx_handler p (flash_packet name @ 0 # r) k w = Some (Ret 0, w'\<lparr>w_usb := txf resp (w_usb w')\<rparr>)"
proof -
  let ?c = "flash_packet name @ 0 # r" and ?w = "upd_fb (\<lambda>f. f\<lparr>fastboot_confirmed := True\<rparr>) w"
  have "cstr_at 6 ?c = Some name" using cstr_at_append[OF assms(3), of 6 "bytes ''flash:''" r] by (simp add: flash_packet_def)
  moreover have "\<not> pt_length ptn < ucast (download_bytes (w_fb w))" using assms(6) by simp
  ultimately have "cmd_flash p ?c ?w = Some (Reply resp 0, w')"
    using assms by (simp add: cmd_flash_def Let_def emmc_idle_def EMMC_def NAND_def del: bytes_Cons)
  moreover have "rx_cmd p ?c ?w = cmd_flash p ?c ?w" by (simp add: rx_cmd_def flash_packet_def)
  ultimately show ?thesis using assms(1) by (simp add: rx_handler_def emmc_idle_def)
qed

lemma write_first:
  assumes "pre (w_dev w)" "plain_mbr (sect (w_dev w) 0 0)" and "tb w = Some off" "off + 4 \<le> length (w_ram w)"
  shows "\<exists>s. inv s \<and> part s = 0 \<and> sect s = sect (w_dev w) \<and>
    write_to_ptn_emmc p ptn 0 w =
      (if of_le (bslice off 4 (w_ram w)) = SPARSE_HEADER_MAGIC then do {
         (ret, st, s) \<leftarrow> do_unsparse_process (p_dev p) (w_ram w) off (unat (download_bytes (w_fb w)))
            (do_unsparse_start (pt_start ptn) 1 (w_sparse w)) s;
         let w = upd_fb (\<lambda>f. f\<lparr>mmcwrite_is_sparsed := True\<rparr>) (w\<lparr>w_sparse := st, w_dev := s\<rparr>);
         if ret = 0 then Some (0, bytes ''OKAY'', w) else Some (-1, bytes ''FAIL: Sparsed Write'', w) }
       else do {
         (ret, s) \<leftarrow> op_write (p_dev p) s 1 (w_ram w) off (pt_start ptn) (download_bytes (w_fb w));
         let w = upd_fb (\<lambda>f. f\<lparr>mmcwrite_is_sparsed := False\<rparr>) (w\<lparr>w_dev := s\<rparr>);
         if ret \<le> 0 then Some (-1, bytes ''FAIL: Write partition'', w) else Some (0, bytes ''OKAY'', w) })"
proof -
  obtain s where "op_init (p_dev p) (w_dev w) 1 = Some (0, s)" "inv s" "part s = 0" "sect s = sect (w_dev w)"
    using init_ok[OF assms(1,2)] by blast
  then show ?thesis using assms(3,4)
    by (intro exI[of _ s]) (simp add: write_to_ptn_emmc_def Let_def upd_fb_commute del: bytes_Cons cong: if_cong)
qed

lemma rx_flash_raw:
  assumes "emmc_idle w" and "pre (w_dev w)" "plain_mbr (sect (w_dev w) 0 0)" and "tb w = Some off"
    and "download_bytes (w_fb w) = n" "n \<noteq> 0" "unat n + 511 < 2 ^ 32"
    and "0 \<notin> set name" "find_ptn w name = Some ptn" "\<not> has_flag ptn FLAGS_WRITE_ENV" "ucast n \<le> pt_length ptn"
    and "(of_le (bslice off 4 (w_ram w)) :: u32) \<noteq> SPARSE_HEADER_MAGIC"
    and "unat (pt_start ptn) + nsect (unat n) \<le> cap" "off + 512 * nsect (unat n) \<le> length (w_ram w)"
  shows "\<exists>s. rx_handler p (flash_packet name @ 0 # r) k w = Some (Ret 0, flashed False s (w_sparse w) txf w) \<and> inv s \<and> part s = 0
    \<and> sect s = (sect (w_dev w))(0 := upd_sectors (sect (w_dev w) 0) (unat (pt_start ptn)) (bslice off (512 * nsect (unat n)) (w_ram w)))"
proof -
  let ?w = "upd_fb (\<lambda>f. f\<lparr>fastboot_confirmed := True\<rparr>) w"
  have "1 \<le> nsect (unat n)" using assms(6) by (simp add: nsect_def unat_eq_zero[symmetric] Suc_le_eq del: unat_eq_zero)
  then have "off + 4 \<le> length (w_ram ?w)" using assms(14) by simp
  then obtain s where s: "inv s" "part s = 0" "sect s = sect (w_dev w)" and
    w: "write_to_ptn_emmc p ptn 0 ?w = do {
         (ret, s) \<leftarrow> op_write (p_dev p) s 1 (w_ram w) off (pt_start ptn) n;
         let w = upd_fb (\<lambda>f. f\<lparr>mmcwrite_is_sparsed := False\<rparr>) (?w\<lparr>w_dev := s\<rparr>);
         if ret \<le> 0 then Some (-1, bytes ''FAIL: Write partition'', w) else Some (0, bytes ''OKAY'', w) }"
    using write_first[of ?w off ptn] assms(2-5,12) by (auto simp: tb_def simp del: bytes_Cons)
  have "0 < n" using assms(6) by (simp add: word_neq_0_conv)
  then obtain s' where s': "op_write (p_dev p) s 1 (w_ram w) off (pt_start ptn) n = Some (1, s')" "inv s'" "part s' = 0"
      "sect s' = (sect (w_dev w))(0 := upd_sectors (sect (w_dev w) 0) (unat (pt_start ptn)) (bslice off (512 * nsect (unat n)) (w_ram w)))"
    using write_ok[OF s(1) _ assms(7,13,14)] s by auto
  let ?v = "upd_fb (\<lambda>f. f\<lparr>mmcwrite_is_sparsed := False\<rparr>) (?w\<lparr>w_dev := s'\<rparr>)"
  have "write_to_ptn_emmc p ptn 0 ?w = Some (0, bytes ''OKAY'', ?v)" using w s'(1) by (simp del: bytes_Cons)
  then have "rx_handler p (flash_packet name @ 0 # r) k w = Some (Ret 0, ?v\<lparr>w_usb := txf (bytes ''OKAY'') (w_usb ?v)\<rparr>)"
    using assms by (intro rx_flash_cmd[OF assms(1)]) auto
  moreover have "?v\<lparr>w_usb := txf (bytes ''OKAY'') (w_usb ?v)\<rparr> = flashed False s' (w_sparse w) txf w"
    by (simp add: flashed_def upd_fb_def)
  ultimately show ?thesis using s' by auto
qed

lemma rx_flash_sparse:
  assumes "emmc_idle w" and "pre (w_dev w)" "plain_mbr (sect (w_dev w) 0 0)" and "tb w = Some off"
    and "download_bytes (w_fb w) = n" "off + unat n \<le> length (w_ram w)"
    and "0 \<notin> set name" "find_ptn w name = Some ptn" "\<not> has_flag ptn FLAGS_WRITE_ENV" "ucast n \<le> pt_length ptn"
    and "blk_ok bsz" "list_all (chunk_ok bsz) cs" "length cs < 2 ^ 32" "unat (pt_start ptn) + span bsz cs \<le> cap"
    and "length (last_header (w_sparse w)) = 12" "length (sp_data (w_sparse w)) = 512"
    and "bslice off (unat n) (w_ram w) = image_header bsz minor tot csum (length cs) @ stream bsz cs"
  shows "\<exists>s sp. rx_handler p (flash_packet name @ 0 # r) k w = Some (Ret 0, flashed True s sp txf w) \<and> inv s \<and> part s = 0
    \<and> sect s = (sect (w_dev w))(0 := expand bsz (sect (w_dev w) 0) (unat (pt_start ptn)) cs)"
proof -
  let ?w = "upd_fb (\<lambda>f. f\<lparr>fastboot_confirmed := True\<rparr>) w" and ?h = "image_header bsz minor tot csum (length cs)"
  have n: "28 \<le> unat n" using arg_cong[OF assms(17), of length] assms(6) image_fields(7)[of bsz minor tot csum "length cs"] by simp
  have "take 4 (?h @ stream bsz cs) = take 4 ?h" using image_fields(7)[of bsz minor tot csum "length cs"] by simp
  then have "bslice off 4 (w_ram w) = bslice 0 4 ?h"
    using arg_cong[OF assms(17), of "take 4"] n by (simp add: bslice_def min_def)
  then have m: "(of_le (bslice off 4 (w_ram w)) :: u32) = SPARSE_HEADER_MAGIC" using image_fields(1) by (metis u32_at_def)
  have "off + 4 \<le> length (w_ram ?w)" using assms(6) n by simp
  then obtain s where s: "inv s" "part s = 0" "sect s = sect (w_dev w)" and
    w: "write_to_ptn_emmc p ptn 0 ?w = do {
         (ret, st, s) \<leftarrow> do_unsparse_process (p_dev p) (w_ram w) off (unat n) (do_unsparse_start (pt_start ptn) 1 (w_sparse w)) s;
         let w = upd_fb (\<lambda>f. f\<lparr>mmcwrite_is_sparsed := True\<rparr>) (?w\<lparr>w_sparse := st, w_dev := s\<rparr>);
         if ret = 0 then Some (0, bytes ''OKAY'', w) else Some (-1, bytes ''FAIL: Sparsed Write'', w) }"
    using write_first[of ?w off ptn] assms(2-5) m by (auto simp: tb_def simp del: bytes_Cons)
  obtain sp s' where s': "do_unsparse_process (p_dev p) (w_ram w) off (unat n) (do_unsparse_start (pt_start ptn) 1 (w_sparse w)) s = Some (0, sp, s')"
      "inv s'" "part s' = 0" "sect s' = (sect (w_dev w))(0 := expand bsz (sect (w_dev w) 0) (unat (pt_start ptn)) cs)"
    using unsparse_image[OF s(1) assms(11-16) assms(6) assms(17)] s by auto
  let ?v = "upd_fb (\<lambda>f. f\<lparr>mmcwrite_is_sparsed := True\<rparr>) (?w\<lparr>w_sparse := sp, w_dev := s'\<rparr>)"
  have "write_to_ptn_emmc p ptn 0 ?w = Some (0, bytes ''OKAY'', ?v)" using w s'(1) by (simp del: bytes_Cons)
  then have "rx_handler p (flash_packet name @ 0 # r) k w = Some (Ret 0, ?v\<lparr>w_usb := txf (bytes ''OKAY'') (w_usb ?v)\<rparr>)"
    using assms n by (intro rx_flash_cmd[OF assms(1)]) auto
  moreover have "?v\<lparr>w_usb := txf (bytes ''OKAY'') (w_usb ?v)\<rparr> = flashed True s' sp txf w"
    by (simp add: flashed_def upd_fb_def)
  ultimately show ?thesis using s' by auto
qed

end

section \<open>Sessions\<close>

definition download_packet :: "byte list \<Rightarrow> byte list" where
  "download_packet d = bytes ''download:'' @ hex8 (of_nat (length d))"

text \<open>The state after a download of \<open>d\<close>.\<close>

definition downloaded :: "byte list \<Rightarrow> nat \<Rightarrow> 'u \<Rightarrow> ('s, 'u, 'c) world \<Rightarrow> ('s, 'u, 'c) world" where
  "downloaded d off u w = upd_fb (\<lambda>f. f\<lparr>fastboot_confirmed := True, download_size := 0, download_bytes := of_nat (length d), download_error := 0\<rparr>)
     (w\<lparr>w_ram := patch off d (w_ram w), w_usb := u\<rparr>)"

text \<open>The state of the driver then: two replies and a fetch for every packet.\<close>

definition download_usb :: "(byte list \<Rightarrow> 'u \<Rightarrow> 'u) \<Rightarrow> ('u \<Rightarrow> 'u) \<Rightarrow> byte list list \<Rightarrow> 'u \<Rightarrow> 'u" where
  "download_usb txf g xs u = txf (bytes ''OKAY'') ((g ^^ length xs) (txf (bytes ''DATA'' @ hex8 (of_nat (length (concat xs)))) (g u)))"

definition multiflash_packet :: "bool \<Rightarrow> byte list \<Rightarrow> byte list" where
  "multiflash_packet lst name = bytes ''multiflash:'' @ (if lst then bytes ''1:'' else bytes ''0:'') @ name"

fun multi_session :: "byte list \<Rightarrow> byte list list list \<Rightarrow> byte list list" where
  "multi_session name [] = []"
| "multi_session name (xs # xss) = download_packet (concat xs) # xs @ multiflash_packet (xss = []) name # multi_session name xss"

context fb_link
begin

lemma download_session:
  assumes "fb_ok w" "emmc_idle w" "tb w = Some off" and "[] \<notin> set xs" "xs \<noteq> []"
    and "length (concat xs) \<le> unat (transfer_buffer_size (interface (w_fb w)))"
  shows "rx_all p g (download_packet (concat xs) # xs @ ys) w
    = rx_all p g ys (downloaded (concat xs) off (download_usb txf g xs (w_usb w)) w)"
proof -
  let ?d = "concat xs" and ?n = "of_nat (length (concat xs)) :: u32"
  have un: "unat ?n = length ?d"
    using assms(6) unsigned_less[of "transfer_buffer_size (interface (w_fb w))", where 'a = nat] by (intro unat_of_nat32) simp
  have "?d \<noteq> []" using assms(4,5) by (cases xs) auto
  then have nz: "?n \<noteq> 0" using un by (metis length_0_conv unat_0)
  have le: "?n \<le> transfer_buffer_size (interface (w_fb w))" using un assms(6) by (simp add: word_le_nat_alt)
  let ?w = "upd_fb (\<lambda>f. f\<lparr>fastboot_confirmed := True, download_size := ?n, download_bytes := 0, download_error := 0\<rparr>)
      (w\<lparr>w_usb := txf (bytes ''DATA'' @ hex8 ?n) (g (w_usb w))\<rparr>)"
  obtain r where r: "pkt (download_packet ?d) = bytes ''download:'' @ hex8 ?n @ 0 # r"
    using pkt_cmd[of "download_packet ?d"] by (auto simp: download_packet_def)
  have d: "rx_handler p (pkt (download_packet ?d)) k (upd_usb g w) = Some (Ret 0, ?w)" for k
    unfolding r using assms(2) nz le rx_download[of "upd_usb g w" ?n r k] by (simp add: emmc_idle_def upd_usb_def del: bytes_Cons)
  have "fb_ok ?w" using assms(1,3) nz le by (auto simp: fb_ok_def Let_def tb_def word_neq_0_conv)
  then have "rx_all p g xs ?w = Some (received ?n (off + 0) ?d (download_usb txf g xs (w_usb w)) ?w)"
    using rx_data_all[of ?w off xs g] assms(2-4) nz un by (auto simp: emmc_idle_def tb_def download_usb_def simp del: bytes_Cons)
  moreover have "received ?n (off + 0) ?d u ?w = downloaded ?d off u w" for u
    by (simp add: received_def downloaded_def upd_fb_def)
  ultimately show ?thesis using d by (simp add: rx_all_append del: bytes_Cons)
qed

lemma downloaded_ok:
  assumes "fb_ok w" "emmc_idle w" "tb w = Some off" and "length d \<le> unat (transfer_buffer_size (interface (w_fb w)))"
  shows "fb_ok (downloaded d off u w)" "emmc_idle (downloaded d off u w)" "tb (downloaded d off u w) = Some off"
    "unat (download_bytes (w_fb (downloaded d off u w))) = length d" "bslice off (length d) (w_ram (downloaded d off u w)) = d"
    "length (w_ram (downloaded d off u w)) = length (w_ram w)"
proof -
  have un: "unat (of_nat (length d) :: u32) = length d"
    using assms(4) unsigned_less[of "transfer_buffer_size (interface (w_fb w))", where 'a = nat] by (intro unat_of_nat32) simp
  have r: "off + length d \<le> length (w_ram w)" using assms(1,3,4) by (auto simp: fb_ok_def Let_def)
  show "fb_ok (downloaded d off u w)" "emmc_idle (downloaded d off u w)" "tb (downloaded d off u w) = Some off"
    "unat (download_bytes (w_fb (downloaded d off u w))) = length d" "bslice off (length d) (w_ram (downloaded d off u w)) = d"
    "length (w_ram (downloaded d off u w)) = length (w_ram w)"
    using assms un r by (auto simp: fb_ok_def Let_def downloaded_def emmc_idle_def tb_def word_le_nat_alt)
qed

end

lemma downloaded_sel [simp]: "w_dev (downloaded d off u w) = w_dev w" "find_ptn (downloaded d off u w) = find_ptn w"
  "find_ptn_index (downloaded d off u w) = find_ptn_index w" "w_sparse (downloaded d off u w) = w_sparse w"
  "w_usb (downloaded d off u w) = u"
  "interface (w_fb (downloaded d off u w)) = interface (w_fb w)"
  "multiflash_ptn (w_fb (downloaded d off u w)) = multiflash_ptn (w_fb w)"
  "multiflash_offset (w_fb (downloaded d off u w)) = multiflash_offset (w_fb w)"
  "mmcwrite_is_sparsed (w_fb (downloaded d off u w)) = mmcwrite_is_sparsed (w_fb w)"
  by (simp_all add: downloaded_def fun_eq_iff find_ptn_def find_ptn_index_def)

context fb_flash
begin

text \<open>Download and flash: the partition holds the image, which may leave the last sector filled with what the buffer held.\<close>

lemma flash_session:
  assumes "fb_ok w" "emmc_idle w" "tb w = Some off" and "[] \<notin> set xs" "concat xs = d" "xs \<noteq> []"
    and "length d \<le> unat (transfer_buffer_size (interface (w_fb w)))" "length d + 511 < 2 ^ 32"
    and "pre (w_dev w)" "plain_mbr (sect (w_dev w) 0 0)"
    and "0 \<notin> set name" "find_ptn w name = Some ptn" "\<not> has_flag ptn FLAGS_WRITE_ENV" "length d \<le> unat (pt_length ptn)"
    and "(of_le (take 4 (d @ drop (off + length d) (w_ram w))) :: u32) \<noteq> SPARSE_HEADER_MAGIC"
    and "unat (pt_start ptn) + nsect (length d) \<le> cap" "off + 512 * nsect (length d) \<le> length (w_ram w)"
    and len: "length name < 506"
  shows "\<exists>w'. rx_all p g (download_packet d # xs @ [flash_packet name]) w = Some w' \<and> inv (w_dev w') \<and> part (w_dev w') = 0
    \<and> sect (w_dev w') = (sect (w_dev w))(0 := upd_sectors (sect (w_dev w) 0) (unat (pt_start ptn))
         (take (512 * nsect (length d)) (d @ drop (off + length d) (w_ram w))))
    \<and> w_usb w' = txf (bytes ''OKAY'') (g (download_usb txf g xs (w_usb w)))"
proof -
  let ?w = "downloaded d off (download_usb txf g xs (w_usb w)) w" and ?n = "of_nat (length d) :: u32"
  note ok = downloaded_ok[OF assms(1-3,7), of "download_usb txf g xs (w_usb w)"]
  have ram: "bslice off k (w_ram ?w) = take k (d @ drop (off + length d) (w_ram w))" for k
    using assms(1,3,7) by (auto simp: downloaded_def bslice_def patch_def fb_ok_def Let_def)
  have nb: "download_bytes (w_fb ?w) = ?n" by (simp add: downloaded_def)
  have un: "unat ?n = length d" using ok(4) nb by simp
  have "d \<noteq> []" using assms(4-6) by (cases xs) auto
  then have nz: "?n \<noteq> 0" using un by (metis length_0_conv unat_0)
  have "ucast ?n \<le> pt_length ptn" using assms(14) un
    by (auto simp: word_le_nat_alt unsigned_ucast_eq intro: order_trans[OF take_bit_nat_less_eq_self])
  moreover obtain r where r: "pkt (flash_packet name) = flash_packet name @ 0 # r"
    using pkt_cmd[of "flash_packet name"] len by (auto simp: flash_packet_def)
  ultimately obtain s where s: "rx_handler p (pkt (flash_packet name)) (of_nat (length (flash_packet name))) (upd_usb g ?w)
        = Some (Ret 0, flashed False s (w_sparse ?w) txf (upd_usb g ?w))" "inv s" "part s = 0"
      "sect s = (sect (w_dev w))(0 := upd_sectors (sect (w_dev w) 0) (unat (pt_start ptn)) (bslice off (512 * nsect (unat ?n)) (w_ram ?w)))"
    using rx_flash_raw[of "upd_usb g ?w" off ?n name ptn r] ok(2,3) nb nz assms un ok(6) ram by (auto simp: emmc_idle_def)
  have "rx_all p g (download_packet d # xs @ [flash_packet name]) w = rx_all p g [flash_packet name] ?w"
    using download_session[OF assms(1-4,6)] assms(5,7) by auto
  then show ?thesis using s un ram by (auto simp: flashed_def)
qed

lemma sparse_session:
  assumes "fb_ok w" "emmc_idle w" "tb w = Some off" and "[] \<notin> set xs" "concat xs = d"
    and "length d \<le> unat (transfer_buffer_size (interface (w_fb w)))"
    and "pre (w_dev w)" "plain_mbr (sect (w_dev w) 0 0)"
    and "0 \<notin> set name" "find_ptn w name = Some ptn" "\<not> has_flag ptn FLAGS_WRITE_ENV" "length d \<le> unat (pt_length ptn)"
    and "blk_ok bsz" "list_all (chunk_ok bsz) cs" "length cs < 2 ^ 32" "unat (pt_start ptn) + span bsz cs \<le> cap"
    and "length (last_header (w_sparse w)) = 12" "length (sp_data (w_sparse w)) = 512"
    and "d = image_header bsz minor tot csum (length cs) @ stream bsz cs" and len: "length name < 506"
  shows "\<exists>w'. rx_all p g (download_packet d # xs @ [flash_packet name]) w = Some w' \<and> inv (w_dev w') \<and> part (w_dev w') = 0
    \<and> sect (w_dev w') = (sect (w_dev w))(0 := expand bsz (sect (w_dev w) 0) (unat (pt_start ptn)) cs)
    \<and> w_usb w' = txf (bytes ''OKAY'') (g (download_usb txf g xs (w_usb w)))"
proof -
  let ?w = "downloaded d off (download_usb txf g xs (w_usb w)) w" and ?n = "of_nat (length d) :: u32"
  note ok = downloaded_ok[OF assms(1-3,6), of "download_usb txf g xs (w_usb w)"]
  have nb: "download_bytes (w_fb ?w) = ?n" by (simp add: downloaded_def)
  have un: "unat ?n = length d" using ok(4) nb by simp
  have xs: "xs \<noteq> []" using assms(5,19) image_fields(7)[of bsz minor tot csum "length cs"] by auto
  have b: "bslice off (unat ?n) (w_ram ?w) = image_header bsz minor tot csum (length cs) @ stream bsz cs"
    using ok(5) un assms(19) by simp
  have l: "off + unat ?n \<le> length (w_ram ?w)" using assms(1,3,6) ok(6) un by (auto simp: fb_ok_def Let_def)
  have "ucast ?n \<le> pt_length ptn" using assms(12) un
    by (auto simp: word_le_nat_alt unsigned_ucast_eq intro: order_trans[OF take_bit_nat_less_eq_self])
  moreover obtain r where r: "pkt (flash_packet name) = flash_packet name @ 0 # r"
    using pkt_cmd[of "flash_packet name"] len by (auto simp: flash_packet_def)
  ultimately obtain s sp where s: "rx_handler p (pkt (flash_packet name)) (of_nat (length (flash_packet name))) (upd_usb g ?w)
        = Some (Ret 0, flashed True s sp txf (upd_usb g ?w))" "inv s" "part s = 0"
      "sect s = (sect (w_dev w))(0 := expand bsz (sect (w_dev w) 0) (unat (pt_start ptn)) cs)"
    using rx_flash_sparse[of "upd_usb g ?w" off ?n name ptn bsz cs minor tot csum r "of_nat (length (flash_packet name))"]
      ok(2,3) nb l assms(7-11,13-18) b by (auto simp: emmc_idle_def)
  have "rx_all p g (download_packet d # xs @ [flash_packet name]) w = rx_all p g [flash_packet name] ?w"
    using download_session[OF assms(1-4) xs] assms(5,6) by auto
  then show ?thesis using s by (auto simp: flashed_def)
qed

text \<open>One \<^verbatim>\<open>multiflash\<close> packet: \<open>o'\<close> is the offset of the chunk.\<close>

definition multiflashed :: "bool \<Rightarrow> nat \<Rightarrow> u32 \<Rightarrow> 's \<Rightarrow> ('s, 'u, 'c) world \<Rightarrow> ('s, 'u, 'c) world" where
  "multiflashed lst ix o' s w = upd_fb (\<lambda>f. f\<lparr>fastboot_confirmed := True, mmcwrite_is_sparsed := False,
      multiflash_ptn := (if lst then None else Some ix),
      multiflash_offset := (if lst then 0 else o' + download_bytes f)\<rparr>) (w\<lparr>w_dev := s, w_usb := txf (bytes ''OKAY'') (w_usb w)\<rparr>)"

lemma rx_multi:
  assumes "emmc_idle w" "tb w = Some off" and "download_bytes (w_fb w) \<noteq> 0"
    and "0 \<notin> set name" "find_ptn w name = Some ptn" "find_ptn_index w name = Some ix" "\<not> has_flag ptn FLAGS_WRITE_ENV"
    and o': "o' = (if multiflash_ptn (w_fb w) = Some ix then multiflash_offset (w_fb w) else 0)"
    and "ucast (download_bytes (w_fb w) + o') \<le> pt_length ptn"
    and start: "if o' = 0 then pre (w_dev w) \<and> plain_mbr (sect (w_dev w) 0 0) \<and> (of_le (bslice off 4 (w_ram w)) :: u32) \<noteq> SPARSE_HEADER_MAGIC
       else inv (w_dev w) \<and> part (w_dev w) = 0 \<and> \<not> mmcwrite_is_sparsed (w_fb w)"
    and m: "unat (download_bytes (w_fb w)) = 512 * m" "unat (pt_start ptn + o' div 512) + m \<le> cap" "off + 512 * m \<le> length (w_ram w)"
  shows "\<exists>s. rx_handler p (multiflash_packet lst name @ 0 # r) k w = Some (Ret 0, multiflashed lst ix o' s w)
    \<and> inv s \<and> part s = 0
    \<and> sect s = (sect (w_dev w))(0 := upd_sectors (sect (w_dev w) 0) (unat (pt_start ptn + o' div 512)) (bslice off (512 * m) (w_ram w)))"
proof -
  let ?c = "multiflash_packet lst name @ 0 # r" and ?w = "upd_fb (\<lambda>f. f\<lparr>fastboot_confirmed := True\<rparr>) w"
  let ?v = "upd_fb (\<lambda>f. f\<lparr>multiflash_ptn := Some ix, multiflash_offset := o'\<rparr>) ?w"
  let ?n = "download_bytes (w_fb w)"
  have m0: "0 < m" using m(1) assms(3) by (cases m) (auto simp: unat_eq_zero)
  obtain s0 where s0: "inv s0" "part s0 = 0" "sect s0 = sect (w_dev w)" and
    wr: "write_to_ptn_emmc p ptn o' ?v = do {
         (ret, s) \<leftarrow> op_write (p_dev p) s0 1 (w_ram w) off (pt_start ptn + o' div 512) ?n;
         let w = upd_fb (\<lambda>f. f\<lparr>mmcwrite_is_sparsed := False\<rparr>) (?v\<lparr>w_dev := s\<rparr>);
         if ret \<le> 0 then Some (-1, bytes ''FAIL: Write partition'', w) else Some (0, bytes ''OKAY'', w) }"
  proof (cases "o' = 0")
    case True
    have "pre (w_dev ?v)" "plain_mbr (sect (w_dev ?v) 0 0)" "tb ?v = Some off" "off + 4 \<le> length (w_ram ?v)"
      using True start assms(2) m(3) m0 by (simp_all add: tb_def)
    from write_first[OF this, of ptn] obtain s where "inv s" "part s = 0" "sect s = sect (w_dev ?v)" and
      e: "write_to_ptn_emmc p ptn 0 ?v =
      (if of_le (bslice off 4 (w_ram ?v)) = SPARSE_HEADER_MAGIC then do {
         (ret, st, s) \<leftarrow> do_unsparse_process (p_dev p) (w_ram ?v) off (unat (download_bytes (w_fb ?v)))
            (do_unsparse_start (pt_start ptn) 1 (w_sparse ?v)) s;
         let w = upd_fb (\<lambda>f. f\<lparr>mmcwrite_is_sparsed := True\<rparr>) (?v\<lparr>w_sparse := st, w_dev := s\<rparr>);
         if ret = 0 then Some (0, bytes ''OKAY'', w) else Some (-1, bytes ''FAIL: Sparsed Write'', w) }
       else do {
         (ret, s) \<leftarrow> op_write (p_dev p) s 1 (w_ram ?v) off (pt_start ptn) (download_bytes (w_fb ?v));
         let w = upd_fb (\<lambda>f. f\<lparr>mmcwrite_is_sparsed := False\<rparr>) (?v\<lparr>w_dev := s\<rparr>);
         if ret \<le> 0 then Some (-1, bytes ''FAIL: Write partition'', w) else Some (0, bytes ''OKAY'', w) })"
      by blast
    then show ?thesis using True start by (intro that[of s]) (simp_all del: bytes_Cons)
  next
    case False
    have keep: "upd_fb (\<lambda>f. f\<lparr>mmcwrite_is_sparsed := False\<rparr>) (?v\<lparr>w_dev := s\<rparr>) = ?v\<lparr>w_dev := s\<rparr>" for s
      using False start by (cases "w_fb w") (simp add: upd_fb_def)
    show ?thesis using False start assms(2)
      by (intro that[of "w_dev w"]) (simp_all add: keep write_to_ptn_emmc_def Let_def tb_def del: bytes_Cons cong: if_cong)
  qed
  obtain s where s: "op_write (p_dev p) s0 1 (w_ram w) off (pt_start ptn + o' div 512) ?n = Some (1, s)" "inv s" "part s = 0"
      "sect s = (sect (w_dev w))(0 := upd_sectors (sect (w_dev w) 0) (unat (pt_start ptn + o' div 512)) (bslice off (512 * m) (w_ram w)))"
    using write_multi[OF s0(1) m] s0 by auto
  let ?u = "upd_fb (\<lambda>f. f\<lparr>mmcwrite_is_sparsed := False\<rparr>) (?v\<lparr>w_dev := s\<rparr>)"
  have wr': "write_to_ptn_emmc p ptn o' ?v = Some (0, bytes ''OKAY'', ?u)" using wr s(1) by (simp del: bytes_Cons)
  have c: "cstr_at 13 ?c = Some name" "is_cmd ''1'' (drop 11 ?c) = lst"
    using cstr_at_append[OF assms(4), of 13 "bytes ''multiflash:'' @ (if lst then bytes ''1:'' else bytes ''0:'')" r]
    by (auto simp: multiflash_packet_def)
  have sw: "multi_select (Some ix) ?w = ?v"
    using o' by (cases w, cases "w_fb w") (auto simp: multi_select_def upd_fb_def)
  have "cmd_multiflash p ?c ?w = Some (Reply (bytes ''OKAY'') 0,
      (if lst then upd_fb (\<lambda>f. f\<lparr>multiflash_offset := 0, multiflash_ptn := None\<rparr>) ?u
       else upd_fb (\<lambda>f. f\<lparr>multiflash_offset := multiflash_offset f + ?n\<rparr>) ?u))"
  proof -
    have "\<not> pt_length ptn < ucast (?n + o')" using assms(9) by simp
    then show ?thesis
      using assms(1,3,5-7) c sw wr' by (simp add: cmd_multiflash_def Let_def emmc_idle_def EMMC_def NAND_def del: bytes_Cons)
  qed
  moreover have "rx_cmd p ?c ?w = cmd_multiflash p ?c ?w" by (simp add: rx_cmd_def multiflash_packet_def)
  ultimately have "rx_handler p ?c k w = Some (Ret 0, multiflashed lst ix o' s w)"
    using assms(1) by (simp add: rx_handler_def emmc_idle_def multiflashed_def upd_fb_def del: bytes_Cons)
  then show ?thesis using s by blast
qed

end

context fb_flash
begin

lemma multiflashed_sel [simp]: "find_ptn (multiflashed l ix o' s w) = find_ptn w" "find_ptn_index (multiflashed l ix o' s w) = find_ptn_index w"
  "w_dev (multiflashed l ix o' s w) = s" "interface (w_fb (multiflashed l ix o' s w)) = interface (w_fb w)"
  "\<not> mmcwrite_is_sparsed (w_fb (multiflashed l ix o' s w))"
  "multiflash_ptn (w_fb (multiflashed l ix o' s w)) = (if l then None else Some ix)"
  "multiflash_offset (w_fb (multiflashed l ix o' s w)) = (if l then 0 else o' + download_bytes (w_fb w))"
  "tb (multiflashed l ix o' s w) = tb w" "emmc_idle (multiflashed l ix o' s w) = emmc_idle w" "fb_ok (multiflashed l ix o' s w) = fb_ok w"
  by (simp_all add: multiflashed_def fun_eq_iff find_ptn_def find_ptn_index_def tb_def emmc_idle_def fb_ok_def Let_def)

text \<open>The partition and the position in it: \<open>o'\<close> bytes are written.\<close>

definition multi_at :: "byte list \<Rightarrow> fastboot_ptentry \<Rightarrow> nat \<Rightarrow> nat \<Rightarrow> nat \<Rightarrow> ('s, 'u, 'c) world \<Rightarrow> bool" where
  "multi_at name ptn ix off o' w \<longleftrightarrow> fb_ok w \<and> emmc_idle w \<and> tb w = Some off \<and> 0 \<notin> set name \<and> length name < 499 \<and> find_ptn w name = Some ptn
     \<and> find_ptn_index w name = Some ix \<and> \<not> has_flag ptn FLAGS_WRITE_ENV \<and> o' mod 512 = 0
     \<and> (if multiflash_ptn (w_fb w) = Some ix then unat (multiflash_offset (w_fb w)) else 0) = o'
     \<and> (if o' = 0 then pre (w_dev w) \<and> plain_mbr (sect (w_dev w) 0 0)
        else inv (w_dev w) \<and> part (w_dev w) = 0 \<and> \<not> mmcwrite_is_sparsed (w_fb w))"

definition chunk_fits :: "fastboot_ptentry \<Rightarrow> u32 \<Rightarrow> nat \<Rightarrow> byte list list list \<Rightarrow> bool" where
  "chunk_fits ptn tbs o' xss \<longleftrightarrow>
     (\<forall>xs\<in>set xss. xs \<noteq> [] \<and> [] \<notin> set xs \<and> length (concat xs) mod 512 = 0 \<and> length (concat xs) \<le> unat tbs)
     \<and> o' + length (concat (concat xss)) < 2 ^ 32 \<and> o' + length (concat (concat xss)) \<le> unat (pt_length ptn)
     \<and> unat (pt_start ptn) + (o' + length (concat (concat xss))) div 512 \<le> cap"

lemma multi_chunk:
  assumes at: "multi_at name ptn ix off o' w" and fits: "chunk_fits ptn (transfer_buffer_size (interface (w_fb w))) o' (xs # xss)"
    and magic: "o' = 0 \<Longrightarrow> (of_le (take 4 (concat xs)) :: u32) \<noteq> SPARSE_HEADER_MAGIC"
  shows "\<exists>w'. rx_all p g (download_packet (concat xs) # xs @ multiflash_packet lst name # ys) w = rx_all p g ys w'
    \<and> inv (w_dev w') \<and> part (w_dev w') = 0 \<and> interface (w_fb w') = interface (w_fb w)
    \<and> (\<not> lst \<longrightarrow> multi_at name ptn ix off (o' + length (concat xs)) w')
    \<and> sect (w_dev w') = (sect (w_dev w))(0 := upd_sectors (sect (w_dev w) 0) (unat (pt_start ptn) + o' div 512) (concat xs))"
proof -
  let ?d = "concat xs" and ?w = "upd_usb g (downloaded (concat xs) off (download_usb txf g xs (w_usb w)) w)"
  have a: "fb_ok w" "emmc_idle w" "tb w = Some off" using at by (simp_all add: multi_at_def)
  have f: "xs \<noteq> []" "[] \<notin> set xs" "length ?d mod 512 = 0" "length ?d \<le> unat (transfer_buffer_size (interface (w_fb w)))"
      "o' + length ?d < 2 ^ 32" "o' + length ?d \<le> unat (pt_length ptn)"
      "unat (pt_start ptn) + (o' + length ?d) div 512 \<le> cap"
    using fits by (auto simp: chunk_fits_def intro: le_trans[rotated] div_le_mono)
  have ok: "fb_ok ?w" "emmc_idle ?w" "tb ?w = Some off" "unat (download_bytes (w_fb ?w)) = length ?d"
      "bslice off (length ?d) (w_ram ?w) = ?d" "length (w_ram ?w) = length (w_ram w)"
    using downloaded_ok[OF a f(4), of "download_usb txf g xs (w_usb w)"] by (simp_all add: emmc_idle_def)
  obtain m where m: "length ?d = 512 * m" using f(3) by (metis mod_0_imp_dvd dvdE)
  have "?d \<noteq> []" using f(1,2) by (cases xs) auto
  then have m0: "0 < m" using m by (cases m) auto
  have o512: "o' mod 512 = 0" using at by (simp add: multi_at_def)
  define ow where "ow = (of_nat o' :: u32)"
  have uo: "unat ow = o'" unfolding ow_def using f(5) by (intro unat_of_nat32) simp
  have ow: "ow = (if multiflash_ptn (w_fb ?w) = Some ix then multiflash_offset (w_fb ?w) else 0)"
    using at uo by (auto simp: multi_at_def word_unat_eq_iff split: if_splits)
  have db: "unat (download_bytes (w_fb ?w)) = 512 * m" using ok(4) m by simp
  then have nz: "download_bytes (w_fb ?w) \<noteq> 0" using m0 by auto
  have sum: "unat (download_bytes (w_fb ?w) + ow) = length ?d + o'"
    using f(5) ok(4) uo by (simp add: unat_word_ariths(1))
  have sec: "unat (pt_start ptn + ow div 512) = unat (pt_start ptn) + o' div 512"
  proof -
    have "unat (ow div 512) = o' div 512" by (simp add: unat_div uo)
    moreover have "unat (pt_start ptn) + o' div 512 < 2 ^ 32"
    proof -
      have "o' div 512 \<le> (o' + length ?d) div 512" by (intro div_le_mono) simp
      moreover have "cap < 2 ^ 32" using cap_bound by simp
      ultimately show ?thesis using f(7) by linarith
    qed
    ultimately show ?thesis by (simp add: unat_word_ariths(1))
  qed
  have le: "ucast (download_bytes (w_fb ?w) + ow) \<le> pt_length ptn"
    using f(6) sum by (auto simp: word_le_nat_alt unsigned_ucast_eq intro: order_trans[OF take_bit_nat_less_eq_self])
  have cp: "unat (pt_start ptn + ow div 512) + m \<le> cap" using f(7) m o512 by (simp add: sec div_add)
  have rm: "off + 512 * m \<le> length (w_ram ?w)" using a f(4) ok(6) m by (auto simp: fb_ok_def Let_def)
  have st: "if ow = 0 then pre (w_dev ?w) \<and> plain_mbr (sect (w_dev ?w) 0 0) \<and> (of_le (bslice off 4 (w_ram ?w)) :: u32) \<noteq> SPARSE_HEADER_MAGIC
       else inv (w_dev ?w) \<and> part (w_dev ?w) = 0 \<and> \<not> mmcwrite_is_sparsed (w_fb ?w)"
  proof (cases "o' = 0")
    case True
    have "bslice off 4 (w_ram ?w) = take 4 (bslice off (length ?d) (w_ram ?w))" using m m0 by (simp add: bslice_def min_def)
    then have "bslice off 4 (w_ram ?w) = take 4 ?d" using ok(5) by simp
    then show ?thesis using True at magic by (auto simp: multi_at_def ow_def)
  next
    case False
    then have "ow \<noteq> 0" using uo by auto
    then show ?thesis using False at by (auto simp: multi_at_def)
  qed
  have pt: "0 \<notin> set name" "find_ptn ?w name = Some ptn" "find_ptn_index ?w name = Some ix" "\<not> has_flag ptn FLAGS_WRITE_ENV"
    and nl: "length name < 499"
    using at by (simp_all add: multi_at_def)
  obtain r where r: "pkt (multiflash_packet lst name) = multiflash_packet lst name @ 0 # r"
  proof -
    have "length (multiflash_packet lst name) < 512" using at by (simp add: multiflash_packet_def multi_at_def)
    then show ?thesis using that pkt_cmd by metis
  qed
  obtain s where s: "rx_handler p (pkt (multiflash_packet lst name)) (of_nat (length (multiflash_packet lst name))) ?w
        = Some (Ret 0, multiflashed lst ix ow s ?w)" "inv s" "part s = 0"
      "sect s = (sect (w_dev w))(0 := upd_sectors (sect (w_dev w) 0) (unat (pt_start ptn) + o' div 512) ?d)"
    using rx_multi[OF ok(2,3) nz pt ow le st db cp rm, of lst r "of_nat (length (multiflash_packet lst name))"] ok(5) m sec r by auto
  let ?v = "multiflashed lst ix ow s ?w"
  have "rx_all p g (download_packet ?d # xs @ multiflash_packet lst name # ys) w = rx_all p g ys ?v"
    using download_session[OF a f(2,1,4)] s(1) by simp
  moreover have "multi_at name ptn ix off (o' + length ?d) ?v" if "\<not> lst"
    using that ok pt nl s(2,3) o512 f(3) sum m m0 by (auto simp: multi_at_def add.commute mod_add_eq[symmetric])
  ultimately show ?thesis using s by (intro exI[of _ ?v]) auto
qed

text \<open>An image in several chunks, each downloaded and flashed on its own.\<close>

lemma multi_all:
  assumes "multi_at name ptn ix off o' w" and "chunk_fits ptn (transfer_buffer_size (interface (w_fb w))) o' xss" and "xss \<noteq> []"
    and "o' = 0 \<Longrightarrow> (of_le (take 4 (concat (hd xss))) :: u32) \<noteq> SPARSE_HEADER_MAGIC"
  shows "\<exists>w'. rx_all p g (multi_session name xss) w = Some w' \<and> inv (w_dev w') \<and> part (w_dev w') = 0
    \<and> sect (w_dev w') = (sect (w_dev w))(0 := upd_sectors (sect (w_dev w) 0) (unat (pt_start ptn) + o' div 512) (concat (concat xss)))"
  using assms
proof (induction xss arbitrary: o' w)
  case (Cons xs xss)
  let ?d = "concat xs"
  obtain w1 where w1: "rx_all p g (download_packet ?d # xs @ multiflash_packet (xss = []) name # multi_session name xss) w
        = rx_all p g (multi_session name xss) w1" "inv (w_dev w1)" "part (w_dev w1) = 0" "interface (w_fb w1) = interface (w_fb w)"
      "xss \<noteq> [] \<Longrightarrow> multi_at name ptn ix off (o' + length ?d) w1"
      "sect (w_dev w1) = (sect (w_dev w))(0 := upd_sectors (sect (w_dev w) 0) (unat (pt_start ptn) + o' div 512) ?d)"
    using multi_chunk[OF Cons.prems(1,2), of g "xss = []" "multi_session name xss"] Cons.prems(4) by auto
  show ?case
  proof (cases "xss = []")
    case True
    then show ?thesis using w1(1-3,6) by (intro exI[of _ w1]) (simp del: fun_upd_apply)
  next
    case False
    have f: "?d \<noteq> []" "length ?d mod 512 = 0" "o' mod 512 = 0"
      using Cons.prems(1,2) by (auto simp: chunk_fits_def multi_at_def) (metis list.set_sel(1))+
    have nz: "o' + length ?d \<noteq> 0" using f(1) by (cases ?d) simp_all
    have cf: "chunk_fits ptn (transfer_buffer_size (interface (w_fb w1))) (o' + length ?d) xss"
      using Cons.prems(2) w1(4) by (simp add: chunk_fits_def add.assoc)
    obtain w' where w': "rx_all p g (multi_session name xss) w1 = Some w'" "inv (w_dev w')" "part (w_dev w') = 0"
        "sect (w_dev w') = (sect (w_dev w1))(0 := upd_sectors (sect (w_dev w1) 0) (unat (pt_start ptn) + (o' + length ?d) div 512) (concat (concat xss)))"
      using Cons.IH[OF w1(5)[OF False] cf False] nz by blast
    obtain m where m: "length ?d = 512 * m" using f(2) by (metis mod_0_imp_dvd dvdE)
    have u: "upd_sectors (upd_sectors (sect (w_dev w) 0) (unat (pt_start ptn) + o' div 512) ?d) (unat (pt_start ptn) + (o' + length ?d) div 512) (concat (concat xss))
      = upd_sectors (sect (w_dev w) 0) (unat (pt_start ptn) + o' div 512) (?d @ concat (concat xss))"
      using upd_sectors_append[OF m, of _ "unat (pt_start ptn) + o' div 512"] m f(3) by (simp add: ac_simps)
    have "sect (w_dev w') = (sect (w_dev w))(0 := upd_sectors (sect (w_dev w) 0) (unat (pt_start ptn) + o' div 512) (concat (concat (xs # xss))))"
      unfolding w'(4) w1(6) fun_upd_same u fun_upd_upd by simp
    then show ?thesis using w1(1) w'(1-3) by (intro exI[of _ w']) (simp del: fun_upd_apply)
  qed
qed simp

section \<open>Erasing\<close>

lemma rx_erase:
  assumes "emmc_idle w" and "pre (w_dev w)" "plain_mbr (sect (w_dev w) 0 0)" and "length (w_mmc_flag w) = 2"
    and "0 \<notin> set name" "find_ptn w name = Some ptn"
    and m: "m = (ucast (pt_length ptn) :: u32)" "0 < m" "unat m + 511 < 2 ^ 31" "unat (pt_start ptn) + nsect (unat m) \<le> cap"
  shows "\<exists>w'. rx_handler p (bytes ''erase:'' @ name @ 0 # r) k w = Some (Ret 0, w') \<and> inv (w_dev w') \<and> part (w_dev w') = 0
    \<and> w_usb w' = txf (bytes ''OKAY'') (w_usb w)
    \<and> sect (w_dev w') = (sect (w_dev w))(0 := upd_sectors (sect (w_dev w) 0) (unat (pt_start ptn)) (replicate (512 * nsect (unat m)) 0xFF))"
proof -
  let ?c = "bytes ''erase:'' @ name @ 0 # r" and ?w = "upd_fb (\<lambda>f. f\<lparr>mmc_controller_no := 1\<rparr>) (upd_fb (\<lambda>f. f\<lparr>fastboot_confirmed := True\<rparr>) w)"
  have n: "cstr_at 6 ?c = Some name" by (rule cstr_at_append) (simp_all add: assms(5))
  have d: "sprintf ''%d'' [VInt 1] = Some (bytes ''1'')" "fst (simple_strtoul (bytes ''1'') 16) = 1" by code_simp+
  have "strncmp_s (bytes ''mmcinit'') (bytes ''mmcinit'') 7 = 0" by (simp add: strncmp_s_def)
  moreover obtain s1 where s1: "op_init (p_dev p) (w_dev w) 1 = Some (0, s1)" "inv s1" "part s1 = 0" "sect s1 = sect (w_dev w)"
    using init_ok[OF assms(2,3)] by blast
  ultimately have i: "do_mmc p True [bytes ''mmcinit'', bytes ''1''] ?w = Some (0, ?w\<lparr>w_dev := s1, w_mmc_flag := (w_mmc_flag w)[1 := True]\<rparr>)"
    using d(2) by (simp add: do_mmc_init del: bytes_Cons)
  obtain s2 where s2: "op_erase (p_dev p) s1 1 (pt_start ptn) m = Some (1, s2)" "inv s2" "part s2 = 0"
      "sect s2 = (sect (w_dev w))(0 := upd_sectors (sect (w_dev w) 0) (unat (pt_start ptn)) (replicate (512 * nsect (unat m)) 0xFF))"
    using erase_ok[OF s1(2) m(2-4)] s1 by auto
  have x: "fst (simple_strtoul (bytes ''0x'' @ hexs y) 16) = y" for y using strtoul_0x[of y 16] sprintf_0x[of y] by simp
  have "do_mmc p True [bytes ''mmc'', bytes ''1'', bytes ''erase'', bytes ''0x'' @ hexs (pt_start ptn), bytes ''0x'' @ hexs m]
      (?w\<lparr>w_dev := s1, w_mmc_flag := (w_mmc_flag w)[1 := True]\<rparr>) = Some (0, ?w\<lparr>w_dev := s2, w_mmc_flag := (w_mmc_flag w)[1 := True]\<rparr>)"
    using d(2) s2(1) assms(4) by (simp add: do_mmc_erase x del: bytes_Cons)
  then have "erase_emmc p ptn ?w = Some (bytes ''OKAY'', ?w\<lparr>w_dev := s2, w_mmc_flag := (w_mmc_flag w)[1 := True]\<rparr>)"
    using d(1) i m(1) by (simp add: erase_emmc_def sprintf_0x del: bytes_Cons)
  then have "cmd_erase p ?c (upd_fb (\<lambda>f. f\<lparr>fastboot_confirmed := True\<rparr>) w)
      = Some (Reply (bytes ''OKAY'') 0, ?w\<lparr>w_dev := s2, w_mmc_flag := (w_mmc_flag w)[1 := True]\<rparr>)"
    using assms(1,6) n by (simp add: cmd_erase_def emmc_idle_def EMMC_def NAND_def del: bytes_Cons)
  moreover have "rx_cmd p ?c w' = cmd_erase p ?c w'" for w' by (simp add: rx_cmd_def)
  ultimately show ?thesis using assms(1) s2 by (simp add: rx_handler_def emmc_idle_def del: bytes_Cons)
qed

end

end
