(* ===== verification/UsbHw.thy ===== *)
theory UsbHw
  imports Usb FastbootSession EmmcHw
begin

text \<open>
  A reference MUSB controller with a host, \<open>musb\<close>: the host has a queue of packets for the bulk endpoint and one of setup packets
  for the control endpoint, and takes every packet as soon as it is ready. On it a reply is always transmitted, which makes the
  driver an instance of \<open>fb_link\<close>; with the eMMC driver it is one of \<open>fb_flash\<close>. Then the refinement: polling the
  driver once for each packet of the queue is the same as handing the packets to the handler one by one (\<open>rx_all\<close>).

  The behaviour of the bits follows the comments and the names in \<^verbatim>\<open>drivers/musb_regs.h\<close>: \<^verbatim>\<open>RXPKTRDY\<close> is cleared by writing
  a zero, \<^verbatim>\<open>TXPKTRDY\<close> is set by the driver and cleared when the packet is sent, the \<^verbatim>\<open>SVD\<close> bits acknowledge. The
  host sends a setup packet at the start of a frame, and not before the control transfer before it has ended.
\<close>

section \<open>The controller\<close>

record musb =
  mregs :: "u32 \<Rightarrow> u32"
  in_fifo :: "byte list"
  sent :: "byte list list"
  out_q :: "byte list list"
  out_pos :: nat
  ep0 :: "byte list option"
  ep0_pos :: nat
  ep0_q :: "byte list list"
  ep0_in :: "byte list"
  ep0_sent :: "byte list list"
  stalls :: nat
  mem :: "byte list"

text \<open>Setting or clearing a bit of a register.\<close>

definition with_bit :: "nat \<Rightarrow> bool \<Rightarrow> u32 \<Rightarrow> u32" where
  "with_bit n b v = (if b then set_bit n v else unset_bit n v)"

lemma bit_with_bit: "n < 32 \<Longrightarrow> bit (with_bit n b v) k = (if k = n then b else bit v k)"
  by (auto simp: with_bit_def bit_simps)

definition fifo_at :: "byte list \<Rightarrow> nat \<Rightarrow> u32" where
  "fifo_at x n = (if n < length x then ucast (x ! n) else 0)"

definition musb_rd :: "musb \<Rightarrow> u32 \<Rightarrow> u32 \<times> musb" where
  "musb_rd h r =
     (if r = USB_RXCSR then (with_bit 0 (out_q h \<noteq> []) (mregs h r), h)
      else if r = USB_RXCOUNT then (case out_q h of [] \<Rightarrow> 0 | x # _ \<Rightarrow> of_nat (length x), h)
      else if r = USB_FIFO_1 then (fifo_at (concat (take 1 (out_q h))) (out_pos h), h\<lparr>out_pos := out_pos h + 1\<rparr>)
      else if r = USB_CSR0 then (with_bit 0 (ep0 h \<noteq> None) (mregs h r), h)
      else if r = USB_COUNT0 then (case ep0 h of None \<Rightarrow> 0 | Some x \<Rightarrow> of_nat (length x), h)
      else if r = USB_FIFO_0 then (case ep0 h of None \<Rightarrow> 0 | Some x \<Rightarrow> fifo_at x (ep0_pos h), h\<lparr>ep0_pos := ep0_pos h + 1\<rparr>)
      else if r = USB_TXCSR then (with_bit 0 False (with_bit 1 (in_fifo h \<noteq> []) (mregs h r)), h)
      else if r = USB_INTRUSB then
        (0x08, case (ep0 h, ep0_q h) of (None, y # ys) \<Rightarrow> h\<lparr>ep0 := Some y, ep0_pos := 0, ep0_q := ys\<rparr> | _ \<Rightarrow> h)
      else if r = USB_INTRRX then (if out_q h = [] then 0 else 2, h)
      else if r = USB_DEVCTL then (0x80, h)
      else (mregs h r, h))"

definition musb_wr :: "musb \<Rightarrow> u32 \<Rightarrow> u32 \<Rightarrow> musb" where
  "musb_wr h r v =
     (if r = USB_RXCSR then
        (if out_q h \<noteq> [] \<and> (v AND RXCSR_RXPKTRDY = 0 \<or> v AND RXCSR_FLUSHFIFO \<noteq> 0) then h\<lparr>out_q := tl (out_q h), out_pos := 0\<rparr> else h)
          \<lparr>mregs := (mregs h)(r := (v AND NOT (RXCSR_FLUSHFIFO OR RXCSR_SENDSTALL))
             OR (if v AND RXCSR_SENDSTALL = 0 then 0 else RXCSR_SENTSTALL))\<rparr>
      else if r = USB_TXCSR then
        (if v AND TXCSR_TXPKTRDY \<noteq> 0 then h\<lparr>sent := sent h @ [in_fifo h], in_fifo := []\<rparr>
         else if v AND TXCSR_FLUSHFIFO \<noteq> 0 then h\<lparr>in_fifo := []\<rparr> else h)
          \<lparr>mregs := (mregs h)(r := v AND NOT (TXCSR_TXPKTRDY OR TXCSR_FLUSHFIFO))\<rparr>
      else if r = USB_FIFO_1 then h\<lparr>in_fifo := in_fifo h @ [ucast v]\<rparr>
      else if r = USB_CSR0 then
        (let h = (if v AND (CSR0_SVDRXPKTRDY OR CSR0_DATAEND) \<noteq> 0 then h\<lparr>ep0 := None\<rparr> else h);
             h = (if v AND CSR0_TXPKTRDY \<noteq> 0 then h\<lparr>ep0_sent := ep0_sent h @ [ep0_in h], ep0_in := []\<rparr> else h);
             h = (if v AND CSR0_SENDSTALL \<noteq> 0 then h\<lparr>stalls := stalls h + 1, ep0_in := []\<rparr> else h)
         in h\<lparr>mregs := (mregs h)(r := if v AND CSR0_SENDSTALL \<noteq> 0 then CSR0_SENTSTALL else v AND CSR0_SENTSTALL)\<rparr>)
      else if r = USB_FIFO_0 then h\<lparr>ep0_in := ep0_in h @ [ucast v]\<rparr>
      else if r = DMA_CNTL then
        (if v AND 1 \<noteq> 0
         then h\<lparr>mem := take (unat (mregs h DMA_COUNT)) (concat (take 1 (out_q h))), mregs := (mregs h)(r := v AND NOT 0x100, DMA_COUNT := 0)\<rparr>
         else h\<lparr>mregs := (mregs h)(r := v)\<rparr>)
      else h\<lparr>mregs := (mregs h)(r := v)\<rparr>)"

definition musb_hw :: "musb usb_hw" where
  "musb_hw = \<lparr>bus = \<lparr>reg_rd = musb_rd, reg_wr = musb_wr, i2c_wr = (\<lambda>h _ _ _. h), delay = (\<lambda>h _. h)\<rparr>, midr = 0x411FC093, bulk_addr = 0,
     dma_mem = mem, i2c_rd = (\<lambda>h _ _. (Some 0, h))\<rparr>"

lemma musb_hw_sel [simp]: "reg_rd (bus musb_hw) = musb_rd" "reg_wr (bus musb_hw) = musb_wr" "delay (bus musb_hw) = (\<lambda>h _. h)"
  "dma_mem musb_hw = mem" "bulk_addr musb_hw = 0"
  by (simp_all add: musb_hw_def)

lemma and_two_power: "v AND 2 ^ n = (if bit v n then 2 ^ n else (0 :: 'w::len word))"
  by (rule bit_word_eqI) (auto simp: bit_simps)

lemma with_bit_0 [simp]: "with_bit 0 b v AND 1 = (if b then 1 else 0)"
  using and_two_power[of "with_bit 0 b v" 0] by (simp add: bit_with_bit)

lemma ucast_byte [simp]: "ucast (ucast (b :: byte) :: u32) = b"
  by (rule bit_word_eqI) (simp add: bit_simps)

section \<open>Transmitting a reply\<close>

text \<open>The state after a reply: the packet is sent, and the status bits of the control endpoint are written (\<^verbatim>\<open>TX_LAST\<close>).\<close>

definition musb_tx :: "byte list \<Rightarrow> musb usb \<Rightarrow> musb usb" where
  "musb_tx b u = (let h = u_hw u; h = h\<lparr>in_fifo := in_fifo h @ take 64 b\<rparr> in
     set_bits musb_hw USB_CSR0 (CSR0_TXPKTRDY OR CSR0_DATAEND) (set_bits musb_hw USB_TXCSR TXCSR_TXPKTRDY (u\<lparr>u_hw := h\<rparr>)))"

lemma wait_clear_now: "fst (usb_rd c r u) AND m = 0 \<Longrightarrow> wait_clear c r m u = Some (snd (usb_rd c r u))"
  by (subst wait_clear.simps) (simp add: split_def)

lemma write_fifo_1: "write_fifo_8s musb_hw USB_FIFO_1 bs u = u\<lparr>u_hw := (u_hw u)\<lparr>in_fifo := in_fifo (u_hw u) @ bs\<rparr>\<rparr>"
  by (induction bs arbitrary: u) (simp_all add: usb_wr_def musb_wr_def usb_regs)

lemma write_fifo_0: "write_fifo_8s musb_hw USB_FIFO_0 bs u = u\<lparr>u_hw := (u_hw u)\<lparr>ep0_in := ep0_in (u_hw u) @ bs\<rparr>\<rparr>"
  by (induction bs arbitrary: u) (simp_all add: usb_wr_def musb_wr_def usb_regs)

lemma rd_status [simp]: "usb_rd musb_hw USB_TXCSR u = (with_bit 0 False (with_bit 1 (in_fifo (u_hw u) \<noteq> []) (mregs (u_hw u) USB_TXCSR)), u)"
  "usb_rd musb_hw USB_CSR0 u = (with_bit 0 (ep0 (u_hw u) \<noteq> None) (mregs (u_hw u) USB_CSR0), u)"
  "usb_rd musb_hw USB_RXCSR u = (with_bit 0 (out_q (u_hw u) \<noteq> []) (mregs (u_hw u) USB_RXCSR), u)"
  by (simp_all add: usb_rd_def musb_rd_def usb_regs)

lemma wait_tx [simp]: "wait_clear musb_hw USB_TXCSR TXCSR_TXPKTRDY u = Some u"
  by (subst wait_clear_now) (simp_all add: usb_bits)

lemma tx_last: "TX_LAST musb_hw u = Some (set_bits musb_hw USB_CSR0 (CSR0_TXPKTRDY OR CSR0_DATAEND) u)"
proof -
  let ?u = "set_bits musb_hw USB_CSR0 (CSR0_TXPKTRDY OR CSR0_DATAEND) u"
  have "(v OR (CSR0_TXPKTRDY OR CSR0_DATAEND)) AND (CSR0_SVDRXPKTRDY OR CSR0_DATAEND) \<noteq> 0" for v
  proof -
    have "bit ((v OR (CSR0_TXPKTRDY OR CSR0_DATAEND)) AND (CSR0_SVDRXPKTRDY OR CSR0_DATAEND)) 3"
      by (simp add: usb_bits bit_simps)
    then show ?thesis by (metis bit_0_eq bot_apply bot_bool_def)
  qed
  then have "ep0 (u_hw ?u) = None" by (simp add: set_bits_def rmw_def musb_rd_def musb_wr_def usb_regs Let_def)
  then show ?thesis unfolding TX_LAST_def by (subst wait_clear_now) (simp_all add: usb_bits)
qed

lemma fastboot_tx_musb: "fastboot_tx_status musb_hw b u = Some (musb_tx b u)"
  by (simp add: fastboot_tx_status_def tx_last write_fifo_1 musb_tx_def Let_def)

text \<open>What the driver and the controller keep when a reply is sent.\<close>

definition quiet :: "musb \<Rightarrow> bool" where
  "quiet h \<longleftrightarrow> ep0 h = None \<and> ep0_q h = [] \<and> mregs h USB_CSR0 = 0 \<and> \<not> bit (mregs h USB_RXCSR) 4 \<and> \<not> bit (mregs h USB_RXCSR) 5"

definition usb_same :: "musb usb \<Rightarrow> musb usb \<Rightarrow> bool" where
  "usb_same u u' \<longleftrightarrow> u\<lparr>u_hw := u_hw u'\<rparr> = u' \<and> out_q (u_hw u') = out_q (u_hw u) \<and> out_pos (u_hw u') = out_pos (u_hw u)
     \<and> (quiet (u_hw u) \<longrightarrow> quiet (u_hw u'))"

lemma musb_tx_same: "usb_same u (musb_tx b u)"
  by (simp add: usb_same_def musb_tx_def Let_def set_bits_def rmw_def musb_rd_def musb_wr_def usb_regs usb_bits quiet_def with_bit_def)

lemma musb_tx_sent: "sent (u_hw (musb_tx b u)) = sent (u_hw u) @ [in_fifo (u_hw u) @ take 64 b]" "in_fifo (u_hw (musb_tx b u)) = []"
proof -
  have "(v OR TXCSR_TXPKTRDY) AND TXCSR_TXPKTRDY \<noteq> 0" for v
    using and_two_power[of "v OR TXCSR_TXPKTRDY" 0] by (simp add: usb_bits bit_simps)
  then show "sent (u_hw (musb_tx b u)) = sent (u_hw u) @ [in_fifo (u_hw u) @ take 64 b]" "in_fifo (u_hw (musb_tx b u)) = []"
    by (simp_all add: musb_tx_def Let_def set_bits_def rmw_def musb_rd_def musb_wr_def usb_regs)
qed

section \<open>The boards of the model\<close>

text \<open>The platform of the handler with this USB driver, and with any other part.\<close>

definition usb_plat :: "'s blk_ops \<Rightarrow> 'c env_io \<Rightarrow> (nat \<Rightarrow> int) \<Rightarrow> nat \<Rightarrow> ('w \<Rightarrow> (ret \<times> 'w) option)
    \<Rightarrow> (byte list list \<Rightarrow> 'w \<Rightarrow> (ret \<times> 'w) option) \<Rightarrow> ('s, musb usb, 'c, 'w) plat" where
  "usb_plat dev io gpio slack bootd booti = \<lparr>p_dev = dev, p_io = io, p_tx = fastboot_tx_status musb_hw, p_gpio = gpio, p_slack = slack, p_bootd = bootd, p_booti = booti\<rparr>"

lemma usb_plat_sel [simp]: "p_dev (usb_plat dev io gpio slack bootd booti) = dev"
  "p_tx (usb_plat dev io gpio slack bootd booti) b u = Some (musb_tx b u)"
  "p_bootd (usb_plat dev io gpio slack bootd booti) = bootd" "p_booti (usb_plat dev io gpio slack bootd booti) = booti"
  "p_gpio (usb_plat dev io gpio slack bootd booti) = gpio" "p_slack (usb_plat dev io gpio slack bootd booti) = slack"
  by (simp_all add: usb_plat_def fastboot_tx_musb)

interpretation link: fb_link "usb_plat dev io gpio slack bootd booti" musb_tx for dev io gpio slack bootd booti
  by unfold_locales simp

interpretation board: fb_flash "usb_plat (mmc_ops hsmmc) io gpio slack bootd booti" musb_tx emmc_pre emmc_inv emmc_part emmc_sect EMMC_SECTORS
  for io gpio slack bootd booti
  by (intro fb_flash.intro link.fb_link_axioms) (simp add: emmc.block_device_axioms)

lemma tx_steps_same: "tx_steps (usb_plat dev io gpio slack bootd booti) u u' \<Longrightarrow> usb_same u u'"
  unfolding tx_steps_def
proof (induction rule: rtranclp_induct)
  case base
  then show ?case by (simp add: usb_same_def)
next
  case (step v v')
  then have "usb_same v v'" using musb_tx_same by auto
  with step.IH show ?case by (cases u; cases v; cases v') (auto simp: usb_same_def)
qed

section \<open>Fetching a packet\<close>

definition rxc :: "u32 \<Rightarrow> musb usb \<Rightarrow> musb usb" where
  "rxc v u = u\<lparr>u_hw := (u_hw u)\<lparr>mregs := (mregs (u_hw u))(USB_RXCSR := v)\<rparr>\<rparr>"

lemma rxc_sel [simp]: "rxc v (rxc v' u) = rxc v u" "mregs (u_hw (rxc v u)) = (mregs (u_hw u))(USB_RXCSR := v)"
  "out_q (u_hw (rxc v u)) = out_q (u_hw u)" "fastboot_bulk_fifo (rxc v u) = fastboot_bulk_fifo u" "high_speed (rxc v u) = high_speed u"
  by (simp_all add: rxc_def)

lemma and_zero_iff: "v AND RXCSR_RXPKTRDY = 0 \<longleftrightarrow> \<not> bit v 0" "v AND RXCSR_FLUSHFIFO = 0 \<longleftrightarrow> \<not> bit v 4"
  "v AND RXCSR_SENDSTALL = 0 \<longleftrightarrow> \<not> bit v 5"
  using and_two_power[of v 0] and_two_power[of v 4] and_two_power[of v 5] by (simp_all add: usb_bits)

lemma musb_wr_rxcsr:
  assumes "\<not> bit v 4" "\<not> bit v 5" "out_q h \<noteq> []"
  shows "musb_wr h USB_RXCSR v = (if bit v 0 then h else h\<lparr>out_q := tl (out_q h), out_pos := 0\<rparr>)\<lparr>mregs := (mregs h)(USB_RXCSR := v)\<rparr>"
proof -
  have "v AND NOT (RXCSR_FLUSHFIFO OR RXCSR_SENDSTALL) = v"
  proof (rule bit_word_eqI)
    fix n
    have "bit RXCSR_FLUSHFIFO n \<or> bit RXCSR_SENDSTALL n \<longleftrightarrow> n = 4 \<or> n = 5"
    proof -
      have f: "RXCSR_FLUSHFIFO = 2 ^ 4" "RXCSR_SENDSTALL = 2 ^ 5" by (simp_all add: usb_bits)
      show ?thesis unfolding f bit_exp_iff by auto
    qed
    then show "n < LENGTH(32) \<Longrightarrow> bit (v AND NOT (RXCSR_FLUSHFIFO OR RXCSR_SENDSTALL)) n = bit v n"
      using assms(1,2) by (auto simp: bit_and_iff bit_not_iff bit_or_iff)
  qed
  then show ?thesis using assms by (simp add: musb_wr_def and_zero_iff)
qed

text \<open>A register value under which the packet stays where it is.\<close>

definition calm :: "u32 \<Rightarrow> bool" where
  "calm v \<longleftrightarrow> \<not> bit v 4 \<and> \<not> bit v 5"

lemma set_rxcsr:
  assumes "out_q (u_hw u) \<noteq> []" "calm (mregs (u_hw u) USB_RXCSR)" "calm m"
  shows "\<exists>v. calm v \<and> set_bits musb_hw USB_RXCSR m u = rxc v u"
  using assms
  by (intro exI[of _ "with_bit 0 True (mregs (u_hw u) USB_RXCSR) OR m"])
    (simp add: set_bits_def rmw_def musb_rd_def musb_wr_rxcsr rxc_def calm_def bit_simps bit_with_bit)

lemma clr_rxcsr:
  assumes "out_q (u_hw u) \<noteq> []" "calm (mregs (u_hw u) USB_RXCSR)" "\<not> bit m 0"
  shows "\<exists>v. calm v \<and> clr_bits musb_hw USB_RXCSR m u = rxc v u"
  using assms
  by (intro exI[of _ "with_bit 0 True (mregs (u_hw u) USB_RXCSR) AND NOT m"])
    (simp add: clr_bits_def rmw_def musb_rd_def musb_wr_rxcsr rxc_def calm_def bit_simps bit_with_bit)

lemma pop_rxcsr:
  assumes "out_q (u_hw u) = x # xs" "calm (mregs (u_hw u) USB_RXCSR)"
  shows "\<exists>v. calm v \<and> clr_bits musb_hw USB_RXCSR RXCSR_RXPKTRDY u = rxc v (u\<lparr>u_hw := (u_hw u)\<lparr>out_q := xs, out_pos := 0\<rparr>\<rparr>)"
  using assms
  by (intro exI[of _ "with_bit 0 True (mregs (u_hw u) USB_RXCSR) AND NOT RXCSR_RXPKTRDY"])
    (simp add: clr_bits_def rmw_def musb_rd_def musb_wr_rxcsr rxc_def calm_def bit_simps bit_with_bit usb_bits)

lemma read_fifo_1:
  assumes "out_q (u_hw u) = x # xs" "out_pos (u_hw u) + n \<le> length x"
  shows "read_fifo_8s musb_hw USB_FIFO_1 n u = (bslice (out_pos (u_hw u)) n x, u\<lparr>u_hw := (u_hw u)\<lparr>out_pos := out_pos (u_hw u) + n\<rparr>\<rparr>)"
  using assms
proof (induction n arbitrary: u)
  case (Suc n)
  have "bslice k (Suc n) x = x ! k # bslice (Suc k) n x" if "k < length x" for k
    using that by (simp add: bslice_def Cons_nth_drop_Suc[symmetric])
  then show ?case using Suc by (simp add: usb_rd_def musb_rd_def usb_regs fifo_at_def Let_def split_def)
qed simp

lemma dma_musb:
  assumes "out_q (u_hw u) = x # xs" "length x = n" "n \<le> 0x200" "length (fastboot_bulk_fifo u) = 0x200"
  shows "\<exists>a b. read_bulk_fifo_dma musb_hw n u = Some (False, u\<lparr>fastboot_bulk_fifo := patch 0 x (fastboot_bulk_fifo u),
    u_hw := (u_hw u)\<lparr>mem := x, mregs := (mregs (u_hw u))(DMA_CNTL := a, DMA_ADDR := b, DMA_COUNT := 0)\<rparr>\<rparr>)"
proof -
  let ?m = "mregs (u_hw u)"
  let ?u1 = "u\<lparr>u_hw := (u_hw u)\<lparr>mregs := ?m(DMA_CNTL := 0x610, DMA_ADDR := 0, DMA_COUNT := of_nat n)\<rparr>\<rparr>"
  let ?u2 = "u\<lparr>u_hw := (u_hw u)\<lparr>mem := x, mregs := ?m(DMA_CNTL := 0x611, DMA_ADDR := 0, DMA_COUNT := 0)\<rparr>\<rparr>"
  have un: "unat (of_nat n :: u32) = n" using assms(3) by (intro unat_of_nat32) simp
  have 1: "usb_wr musb_hw DMA_CNTL (0x0600 OR push_bit 4 1 OR 0) (usb_wr musb_hw DMA_COUNT (of_nat n) (usb_wr musb_hw DMA_ADDR (bulk_addr musb_hw)
      (usb_wr musb_hw DMA_CNTL 0 u))) = ?u1"
    by (simp add: usb_wr_def musb_wr_def usb_regs fun_upd_twist)
  have 2: "set_bits musb_hw DMA_CNTL 1 ?u1 = ?u2"
    using assms(1,2) un by (simp add: set_bits_def rmw_def musb_rd_def musb_wr_def usb_regs fun_upd_twist)
  have 3: "dma_wait musb_hw ?u2 = Some (False, ?u2)"
    by (subst dma_wait.simps) (simp add: usb_rd_def musb_rd_def usb_regs)
  show ?thesis unfolding read_bulk_fifo_dma_def Let_def 1 2
    using assms 3 by (intro exI[of _ "0x611"] exI[of _ 0]) (simp add: fun_upd_twist)
qed

text \<open>The state after a packet has been fetched.\<close>

definition fetched :: "byte list list \<Rightarrow> byte list \<Rightarrow> musb usb \<Rightarrow> musb usb \<Rightarrow> bool" where
  "fetched xs b u u' \<longleftrightarrow> u' = u\<lparr>u_hw := u_hw u', fastboot_bulk_fifo := b\<rparr> \<and> out_q (u_hw u') = xs \<and> out_pos (u_hw u') = 0
     \<and> sent (u_hw u') = sent (u_hw u) \<and> in_fifo (u_hw u') = in_fifo (u_hw u) \<and> (quiet (u_hw u) \<longrightarrow> quiet (u_hw u'))"

lemma rx_dma_musb:
  assumes "out_q (u_hw u) = x # xs" "length x = n" "n \<le> 0x200" "length (fastboot_bulk_fifo u) = 0x200" "calm (mregs (u_hw u) USB_RXCSR)"
  shows "\<exists>v a b. calm v \<and> rx_dma musb_hw n u = Some (rxc v (u\<lparr>fastboot_bulk_fifo := patch 0 x (fastboot_bulk_fifo u),
    u_hw := (u_hw u)\<lparr>mem := x, mregs := (mregs (u_hw u))(DMA_CNTL := a, DMA_ADDR := b, DMA_COUNT := 0)\<rparr>\<rparr>))"
proof -
  have c: "calm RXCSR_DMAENAB" "calm RXCSR_DMAMODE" "\<not> bit RXCSR_AUTOCLEAR 0" "\<not> bit (RXCSR_DMAENAB OR RXCSR_DMAMODE) 0"
    by (simp_all add: calm_def usb_bits bit_simps)
  obtain v1 where 1: "calm v1" "clr_bits musb_hw USB_RXCSR RXCSR_AUTOCLEAR u = rxc v1 u" using clr_rxcsr[of u RXCSR_AUTOCLEAR] c(3) assms(1,5) by auto
  obtain v2 where 2: "calm v2" "set_bits musb_hw USB_RXCSR RXCSR_DMAENAB (rxc v1 u) = rxc v2 u"
    using set_rxcsr[of "rxc v1 u" RXCSR_DMAENAB] c(1) 1(1) assms(1) by auto
  obtain v3 where 3: "calm v3" "set_bits musb_hw USB_RXCSR RXCSR_DMAMODE (rxc v2 u) = rxc v3 u"
    using set_rxcsr[of "rxc v2 u" RXCSR_DMAMODE] c(2) 2(1) assms(1) by auto
  obtain v4 where 4: "calm v4" "set_bits musb_hw USB_RXCSR RXCSR_DMAENAB (rxc v3 u) = rxc v4 u"
    using set_rxcsr[of "rxc v3 u" RXCSR_DMAENAB] c(1) 3(1) assms(1) by auto
  let ?d = "\<lambda>a b u. u\<lparr>fastboot_bulk_fifo := patch 0 x (fastboot_bulk_fifo u),
      u_hw := (u_hw u)\<lparr>mem := x, mregs := (mregs (u_hw u))(DMA_CNTL := a, DMA_ADDR := b, DMA_COUNT := 0)\<rparr>\<rparr>"
  obtain a b where 5: "read_bulk_fifo_dma musb_hw n (rxc v4 u) = Some (False, ?d a b (rxc v4 u))"
    using dma_musb[of "rxc v4 u" x xs n] assms(1-4) by auto
  have 6: "?d a b (rxc v4 u) = rxc v4 (?d a b u)" by (simp add: rxc_def usb_regs fun_upd_twist)
  obtain v5 where 7: "calm v5" "clr_bits musb_hw USB_RXCSR (RXCSR_DMAENAB OR RXCSR_DMAMODE) (rxc v4 (?d a b u)) = rxc v5 (?d a b u)"
    using clr_rxcsr[of "rxc v4 (?d a b u)" "RXCSR_DMAENAB OR RXCSR_DMAMODE"] c(4) 4(1) assms(1) by auto
  show ?thesis
    using 1 2 3 4 5 7 unfolding 6 by (intro exI[of _ v5] exI[of _ a] exI[of _ b]) (simp add: rx_dma_def)
qed

lemma rx_fetch_musb:
  assumes q: "out_q (u_hw u) = x # xs" "out_pos (u_hw u) = 0" and x: "x \<noteq> []" "length x \<le> fastboot_fifo_size u"
    and b: "fastboot_bulk_fifo u = replicate 0x200 0" and c: "calm (mregs (u_hw u) USB_RXCSR)"
  shows "\<exists>u'. rx_fetch musb_hw u = Some (Some (of_nat (length x)), u') \<and> fetched xs (pkt x) u u'"
proof -
  have l: "length x \<le> 0x200" using x(2) by (simp add: fastboot_fifo_size_def split: if_splits)
  have p: "patch 0 x (replicate 0x200 0) = pkt x" by (simp add: patch_def pkt_def)
  have rc: "usb_rd musb_hw USB_RXCOUNT u = (of_nat (length x), u)" using q(1) by (simp add: usb_rd_def musb_rd_def usb_regs)
  have un: "unat (of_nat (length x) :: u16) = length x" "ucast (of_nat (length x) :: u32) = (of_nat (length x) :: u16)"
    "(of_nat (length x) :: u32) \<noteq> 0"
  proof -
    have "unat (of_nat (length x) :: u32) = length x" using l by (intro unat_of_nat32) simp
    then show "(of_nat (length x) :: u32) \<noteq> 0" using x(1) by (metis length_0_conv unat_0)
    show 1: "unat (of_nat (length x) :: u16) = length x" using l by (simp add: unat_of_nat)
    show "ucast (of_nat (length x) :: u32) = (of_nat (length x) :: u16)"
      using l by (simp add: unsigned_of_nat take_bit_nat_eq_self)
  qed
  let ?get = "if fastboot_fifo_size u = length x then rx_dma musb_hw (fastboot_fifo_size u) u
     else do { let (bs, u) = read_fifo_8s musb_hw USB_FIFO_1 (length x) u;
               b \<leftarrow> store 0 bs (fastboot_bulk_fifo u); Some (u\<lparr>fastboot_bulk_fifo := b\<rparr>) }"
  obtain u1 where u1: "?get = Some u1" "out_q (u_hw u1) = x # xs" "calm (mregs (u_hw u1) USB_RXCSR)"
      "fetched (x # xs) (pkt x) u (u1\<lparr>u_hw := (u_hw u1)\<lparr>out_pos := 0\<rparr>\<rparr>)"
  proof (cases "fastboot_fifo_size u = length x")
    case True
    have lb: "length (fastboot_bulk_fifo u) = 0x200" using b by simp
    obtain v k n where v: "calm v" "rx_dma musb_hw (length x) u = Some (rxc v (u\<lparr>fastboot_bulk_fifo := pkt x,
        u_hw := (u_hw u)\<lparr>mem := x, mregs := (mregs (u_hw u))(DMA_CNTL := k, DMA_ADDR := n, DMA_COUNT := 0)\<rparr>\<rparr>))" (is "_ = Some ?u1")
      using rx_dma_musb[OF q(1) refl l lb c] p b by auto
    show ?thesis using v True q c
      by (intro that[of ?u1]) (simp_all add: fetched_def rxc_def quiet_def calm_def usb_regs)
  next
    case False
    have s: "store 0 x (fastboot_bulk_fifo u) = Some (pkt x)" using l b p by simp
    show ?thesis using False q c s read_fifo_1[OF q(1), of "length x"] quiet_def
      by (intro that[of "u\<lparr>u_hw := (u_hw u)\<lparr>out_pos := length x\<rparr>, fastboot_bulk_fifo := pkt x\<rparr>"]) (auto simp: fetched_def)
  qed
  obtain v where v: "calm v" "clr_bits musb_hw USB_RXCSR RXCSR_RXPKTRDY u1 = rxc v (u1\<lparr>u_hw := (u_hw u1)\<lparr>out_q := xs, out_pos := 0\<rparr>\<rparr>)"
    using pop_rxcsr[OF u1(2,3)] by blast
  have "rx_fetch musb_hw u = Some (Some (of_nat (length x)), rxc v (u1\<lparr>u_hw := (u_hw u1)\<lparr>out_q := xs, out_pos := 0\<rparr>\<rparr>))"
    using u1(1) v(2) rc un x(2) q(1) unfolding rx_fetch_def
    by (cases "fastboot_fifo_size u = length x") (simp_all add: usb_bits(17) Let_def not_less)
  moreover have "fetched xs (pkt x) u (rxc v (u1\<lparr>u_hw := (u_hw u1)\<lparr>out_q := xs, out_pos := 0\<rparr>\<rparr>))"
    using u1(4) v(1) by (cases u; cases u1) (auto simp: fetched_def rxc_def quiet_def calm_def usb_regs)
  ultimately show ?thesis by blast
qed

section \<open>Polling\<close>

text \<open>
  Between two packets: \<open>usb_finish\<close> is what \<^verbatim>\<open>fastboot_poll\<close> does after the handler, \<open>usb_fetch\<close> what it does before it.
\<close>

definition usb_fetch :: "musb usb \<Rightarrow> musb usb" where
  "usb_fetch u = snd (the (rx_fetch musb_hw (snd (the (fastboot_resume musb_hw (snd (usb_rd musb_hw USB_INTRUSB (poll_blink musb_hw u))))))))"

definition usb_finish :: "musb usb \<Rightarrow> musb usb" where
  "usb_finish u = poll_intr musb_hw
     (u\<lparr>fastboot_bulk_fifo := patch 0 (replicate (fastboot_fifo_size u) 0) (fastboot_bulk_fifo u), deferred_rx := False\<rparr>)"

definition usb_next :: "musb usb \<Rightarrow> musb usb" where
  "usb_next u = usb_fetch (usb_finish u)"

definition bulk_state :: "byte list list \<Rightarrow> musb usb \<Rightarrow> bool" where
  "bulk_state xs u \<longleftrightarrow> quiet (u_hw u) \<and> out_q (u_hw u) = xs \<and> out_pos (u_hw u) = 0 \<and> \<not> set_address u \<and> fastboot_interface u
     \<and> length (fastboot_bulk_fifo u) = 0x200 \<and> drop (fastboot_fifo_size u) (fastboot_bulk_fifo u) = replicate (0x200 - fastboot_fifo_size u) 0"

lemma finish_eq:
  assumes "bulk_state xs u"
  shows "usb_finish u = u\<lparr>fastboot_bulk_fifo := replicate 0x200 0, deferred_rx := (xs \<noteq> [])\<rparr>"
proof -
  have "fastboot_fifo_size u \<le> 0x200" by (simp add: fastboot_fifo_size_def)
  then have "patch 0 (replicate (fastboot_fifo_size u) 0) (fastboot_bulk_fifo u) = replicate 0x200 0"
    using assms by (simp add: patch_def bulk_state_def flip: replicate_add)
  then show ?thesis using assms by (simp add: usb_finish_def poll_intr_def usb_rd_def musb_rd_def usb_regs bulk_state_def)
qed

lemma poll_blink_same:
  "\<exists>h b. poll_blink musb_hw u = u\<lparr>u_hw := h, blink := b\<rparr> \<and> out_q h = out_q (u_hw u) \<and> out_pos h = out_pos (u_hw u)
     \<and> sent h = sent (u_hw u) \<and> in_fifo h = in_fifo (u_hw u) \<and> (quiet (u_hw u) \<longrightarrow> quiet h)"
  by (intro exI[of _ "u_hw (poll_blink musb_hw u)"] exI[of _ "blink (poll_blink musb_hw u)"])
    (simp add: poll_blink_def Let_def set_bits_def clr_bits_def rmw_def musb_rd_def musb_wr_def usb_regs quiet_def)

lemma resume_quiet: "quiet (u_hw u) \<Longrightarrow> \<not> set_address u \<Longrightarrow> fastboot_resume musb_hw u = Some (0, u)"
  by (simp add: fastboot_resume_def fastboot_poll_h_def quiet_def with_bit_def usb_bits Let_def)

lemma intrusb_quiet: "quiet (u_hw u) \<Longrightarrow> usb_rd musb_hw USB_INTRUSB u = (0x08, u)"
  by (simp add: usb_rd_def musb_rd_def usb_regs quiet_def)

lemma fetch_ready:
  assumes "bulk_state (x # xs) u" "x \<noteq> []" "length x \<le> fastboot_fifo_size u"
  shows "\<exists>u1. usb_rd musb_hw USB_INTRUSB (poll_blink musb_hw (usb_finish u)) = (0x08, u1) \<and> fastboot_resume musb_hw u1 = Some (0, u1)
    \<and> deferred_rx u1 \<and> rx_fetch musb_hw u1 = Some (Some (of_nat (length x)), usb_next u)
    \<and> fastboot_bulk_fifo (usb_next u) = pkt x \<and> bulk_state xs (usb_next u)
    \<and> fastboot_fifo_size (usb_next u) = fastboot_fifo_size u
    \<and> sent (u_hw (usb_next u)) = sent (u_hw u) \<and> in_fifo (u_hw (usb_next u)) = in_fifo (u_hw u)"
proof -
  let ?u = "usb_finish u"
  obtain h b where h: "poll_blink musb_hw ?u = ?u\<lparr>u_hw := h, blink := b\<rparr>" "out_q h = x # xs" "out_pos h = 0" "quiet h"
      "sent h = sent (u_hw u)" "in_fifo h = in_fifo (u_hw u)"
    using poll_blink_same[of ?u] assms(1) by (auto simp: finish_eq bulk_state_def)
  let ?u1 = "?u\<lparr>u_hw := h, blink := b\<rparr>"
  have u1: "usb_rd musb_hw USB_INTRUSB ?u1 = (0x08, ?u1)" "fastboot_resume musb_hw ?u1 = Some (0, ?u1)"
    using h(4) assms(1) by (simp_all add: intrusb_quiet resume_quiet finish_eq bulk_state_def)
  have "length x \<le> fastboot_fifo_size ?u1" using assms(1,3) by (simp add: finish_eq fastboot_fifo_size_def)
  then obtain u2 where u2: "rx_fetch musb_hw ?u1 = Some (Some (of_nat (length x)), u2)" "fetched xs (pkt x) ?u1 u2"
    using rx_fetch_musb[of ?u1 x xs] h assms(1,2) by (auto simp: finish_eq[OF assms(1)] quiet_def calm_def)
  have e: "usb_next u = u2" using u1 u2(1) by (simp add: usb_next_def usb_fetch_def h(1))
  have z: "drop (fastboot_fifo_size u) (pkt x) = replicate (0x200 - fastboot_fifo_size u) 0"
    using assms(3) by (simp add: pkt_def)
  have l: "length (pkt x) = 0x200" using assms(3) by (simp add: pkt_def fastboot_fifo_size_def split: if_splits)
  have f: "u2 = ?u1\<lparr>u_hw := u_hw u2, fastboot_bulk_fifo := pkt x\<rparr>" using u2(2) by (simp add: fetched_def)
  have g: "fastboot_fifo_size u2 = fastboot_fifo_size u" "fastboot_bulk_fifo u2 = pkt x" "\<not> set_address u2" "fastboot_interface u2"
    using assms(1) by (subst f; simp add: finish_eq fastboot_fifo_size_def bulk_state_def)+
  have "bulk_state xs u2" using g z l u2(2) h(4) by (simp add: bulk_state_def fetched_def)
  then show ?thesis using u1 u2 g h assms(1) e by (intro exI[of _ ?u1]) (simp add: fetched_def finish_eq)
qed

text \<open>One poll with a packet in the queue is one call of the handler.\<close>

lemma poll_step:
  assumes "bulk_state (x # xs) (w_usb w)" "x \<noteq> []" "length x \<le> fastboot_fifo_size (w_usb w)"
    and r: "rx_handler p (pkt x) (of_nat (length x)) (upd_usb usb_next w) = Some (Ret k, w1)"
    and same: "usb_same (usb_next (w_usb w)) (w_usb w1)"
  shows "fastboot_poll p musb_hw (upd_usb usb_finish w) = Some (Ret 0, upd_usb usb_finish w1) \<and> bulk_state xs (w_usb w1)
    \<and> fastboot_fifo_size (w_usb w1) = fastboot_fifo_size (w_usb w)"
proof -
  obtain u1 where u1: "usb_rd musb_hw USB_INTRUSB (poll_blink musb_hw (usb_finish (w_usb w))) = (0x08, u1)" "fastboot_resume musb_hw u1 = Some (0, u1)"
      "deferred_rx u1" "rx_fetch musb_hw u1 = Some (Some (of_nat (length x)), usb_next (w_usb w))"
      "fastboot_bulk_fifo (usb_next (w_usb w)) = pkt x" "bulk_state xs (usb_next (w_usb w))"
      "fastboot_fifo_size (usb_next (w_usb w)) = fastboot_fifo_size (w_usb w)"
    using fetch_ready[OF assms(1-3)] by blast
  let ?g = "usb_next (w_usb w)" and ?u = "w_usb w1"
  have u: "?u = ?g\<lparr>u_hw := u_hw ?u\<rparr>" "quiet (u_hw ?u)" "out_q (u_hw ?u) = xs" "out_pos (u_hw ?u) = 0"
    using same u1(6) by (auto simp: usb_same_def bulk_state_def)
  have g: "fastboot_fifo_size ?u = fastboot_fifo_size ?g" "fastboot_bulk_fifo ?u = fastboot_bulk_fifo ?g" "set_address ?u = set_address ?g"
      "fastboot_interface ?u = fastboot_interface ?g"
    by (subst u(1); simp add: fastboot_fifo_size_def)+
  have b: "bulk_state xs ?u" using u(2-4) g u1(6) by (simp add: bulk_state_def)
  have l: "fastboot_fifo_size ?g \<le> length (pkt x)" "fastboot_interface ?g"
    using u1(5,6) by (auto simp: bulk_state_def fastboot_fifo_size_def)
  have n: "ucast (of_nat (length x) :: u16) = (of_nat (length x) :: u32)"
    using assms(3) by (simp add: unsigned_of_nat take_bit_nat_eq_self fastboot_fifo_size_def split: if_splits)
  have "upd_usb usb_next w = w\<lparr>w_usb := ?g\<rparr>" by (simp add: upd_usb_def)
  then have "fastboot_rx p musb_hw (w\<lparr>w_usb := u1\<rparr>) = Some (Ret 0, w1\<lparr>w_usb :=
      ?u\<lparr>fastboot_bulk_fifo := patch 0 (replicate (fastboot_fifo_size ?u) 0) (fastboot_bulk_fifo ?u)\<rparr>\<rparr>)"
    using u1(4,5) l r n g by (simp add: fastboot_rx_def Let_def poison_def)
  then have "fastboot_poll p musb_hw (upd_usb usb_finish w) = Some (Ret 0, upd_usb usb_finish w1)"
    using u1(1-3) by (simp add: fastboot_poll_def upd_usb_def usb_finish_def)
  then show ?thesis using b g(1) u1(7) by simp
qed

fun polls :: "('s, 'h usb, 'c, ('s, 'h usb, 'c) world) plat \<Rightarrow> 'h usb_hw \<Rightarrow> nat \<Rightarrow> ('s, 'h usb, 'c) world \<Rightarrow> ('s, 'h usb, 'c) world option" where
  "polls p c 0 w = Some w"
| "polls p c (Suc n) w = do { (r, w) \<leftarrow> fastboot_poll p c w; if r = Ret 0 then polls p c n w else None }"

definition pkts_ok :: "nat \<Rightarrow> byte list list \<Rightarrow> bool" where
  "pkts_ok n xs \<longleftrightarrow> list_all (\<lambda>x. x \<noteq> [] \<and> length x \<le> n) xs"

lemma pkts_ok_simps [simp]: "pkts_ok n []" "pkts_ok n (x # xs) \<longleftrightarrow> x \<noteq> [] \<and> length x \<le> n \<and> pkts_ok n xs"
  "pkts_ok n (xs @ ys) \<longleftrightarrow> pkts_ok n xs \<and> pkts_ok n ys"
  by (simp_all add: pkts_ok_def)

text \<open>Polling a queue of packets is handing them to the handler.\<close>

lemma polls_refine:
  assumes "rx_all p usb_next xs w = Some w'" and "bulk_state xs (w_usb w)" "pkts_ok (fastboot_fifo_size (w_usb w)) xs"
    and p: "p = usb_plat dev io gpio slack bootd booti"
    and boot: "\<And>w. post (\<lambda>(r, w'). usb_rel p w w') (bootd w)" "\<And>a w. post (\<lambda>(r, w'). usb_rel p w w') (booti a w)"
  shows "polls p musb_hw (length xs) (upd_usb usb_finish w) = Some (upd_usb usb_finish w') \<and> bulk_state [] (w_usb w')"
  using assms(1-3)
proof (induction xs arbitrary: w)
  case (Cons x xs)
  let ?v = "upd_usb usb_next w"
  obtain r w1 where r: "rx_handler p (pkt x) (of_nat (length x)) ?v = Some (r, w1)"
      "(case r of Ret _ \<Rightarrow> rx_all p usb_next xs w1 | Halt _ \<Rightarrow> None) = Some w'"
    using Cons.prems(1) by (auto simp: opt_bind)
  then obtain k where "r = Ret k" by (cases r) auto
  with r have w1: "rx_handler p (pkt x) (of_nat (length x)) ?v = Some (Ret k, w1)" "rx_all p usb_next xs w1 = Some w'" by simp_all
  have "post (\<lambda>(r, w'). usb_rel p ?v w') (rx_handler p (pkt x) (of_nat (length x)) ?v)"
    using boot p by (intro rx_handler_usb) simp_all
  then have "tx_steps p (w_usb ?v) (w_usb w1)" using w1(1) by (simp add: post_def usb_rel_def)
  then have same: "usb_same (usb_next (w_usb w)) (w_usb w1)" using tx_steps_same p by fastforce
  have x: "x \<noteq> []" "length x \<le> fastboot_fifo_size (w_usb w)" using Cons.prems(3) by simp_all
  note st = poll_step[OF Cons.prems(2) x w1(1) same]
  have "polls p musb_hw (length xs) (upd_usb usb_finish w1) = Some (upd_usb usb_finish w') \<and> bulk_state [] (w_usb w')"
    using st Cons.prems(3) by (intro Cons.IH w1(2)) auto
  then show ?case using st by simp
qed simp

lemma fetch_all:
  assumes "bulk_state (xs @ ys) u" "pkts_ok (fastboot_fifo_size u) xs"
  shows "bulk_state ys ((usb_next ^^ length xs) u) \<and> sent (u_hw ((usb_next ^^ length xs) u)) = sent (u_hw u)
    \<and> in_fifo (u_hw ((usb_next ^^ length xs) u)) = in_fifo (u_hw u)
    \<and> fastboot_fifo_size ((usb_next ^^ length xs) u) = fastboot_fifo_size u"
  using assms
proof (induction xs arbitrary: u)
  case (Cons x xs)
  let ?g = "usb_next"
  have g: "bulk_state (xs @ ys) (?g u)" "fastboot_fifo_size (?g u) = fastboot_fifo_size u" "sent (u_hw (?g u)) = sent (u_hw u)"
      "in_fifo (u_hw (?g u)) = in_fifo (u_hw u)"
    using fetch_ready[of x "xs @ ys" u] Cons.prems by auto
  have "(?g ^^ length (x # xs)) u = (?g ^^ length xs) (?g u)" by (simp add: funpow_swap1)
  then show ?case using Cons.IH[of "?g u"] g Cons.prems(2) by simp
qed simp

lemma tx_bulk:
  assumes "bulk_state xs u"
  shows "bulk_state xs (musb_tx b u)" "fastboot_fifo_size (musb_tx b u) = fastboot_fifo_size u"
proof -
  have s: "musb_tx b u = u\<lparr>u_hw := u_hw (musb_tx b u)\<rparr>" and q: "usb_same u (musb_tx b u)"
    using musb_tx_same[of u b] by (simp_all add: usb_same_def)
  have g: "fastboot_fifo_size (musb_tx b u) = fastboot_fifo_size u" "fastboot_bulk_fifo (musb_tx b u) = fastboot_bulk_fifo u"
      "set_address (musb_tx b u) = set_address u" "fastboot_interface (musb_tx b u) = fastboot_interface u"
    by (subst s; simp add: fastboot_fifo_size_def)+
  then show "bulk_state xs (musb_tx b u)" using assms q by (simp add: bulk_state_def usb_same_def)
  show "fastboot_fifo_size (musb_tx b u) = fastboot_fifo_size u" by (rule g)
qed

text \<open>The replies to a download of packets and one command after it.\<close>

lemma download_sent:
  assumes "bulk_state (c # xs @ [f]) u" "pkts_ok (fastboot_fifo_size u) (c # xs @ [f])" "in_fifo (u_hw u) = []"
  shows "sent (u_hw (musb_tx r (usb_next (download_usb musb_tx usb_next xs u))))
    = sent (u_hw u) @ [bytes ''DATA'' @ hex8 (of_nat (length (concat xs))), bytes ''OKAY'', take 64 r]"
proof -
  let ?g = "usb_next" and ?d = "bytes ''DATA'' @ hex8 (of_nat (length (concat xs)))"
  have 1: "bulk_state (xs @ [f]) (?g u)" "sent (u_hw (?g u)) = sent (u_hw u)" "in_fifo (u_hw (?g u)) = []"
      "fastboot_fifo_size (?g u) = fastboot_fifo_size u"
    using fetch_all[of "[c]" "xs @ [f]" u] assms by simp_all
  let ?u1 = "musb_tx ?d (?g u)"
  have 2: "bulk_state [f] ((?g ^^ length xs) ?u1)" "sent (u_hw ((?g ^^ length xs) ?u1)) = sent (u_hw u) @ [?d]"
      "in_fifo (u_hw ((?g ^^ length xs) ?u1)) = []" "fastboot_fifo_size ((?g ^^ length xs) ?u1) = fastboot_fifo_size u"
    using fetch_all[of xs "[f]" ?u1] tx_bulk[OF 1(1), of ?d] 1 assms(2) musb_tx_sent[of ?d "?g u"] by (simp_all del: bytes_Cons)
  let ?u2 = "musb_tx (bytes ''OKAY'') ((?g ^^ length xs) ?u1)"
  have "sent (u_hw (?g ?u2)) = sent (u_hw ?u2)" "in_fifo (u_hw (?g ?u2)) = in_fifo (u_hw ?u2)"
    using fetch_all[of "[f]" "[]" ?u2] tx_bulk[OF 2(1), of "bytes ''OKAY''"] 2(4) assms(2) by (simp_all del: bytes_Cons)
  then show ?thesis
    using 2 musb_tx_sent[of r "?g ?u2"] musb_tx_sent[of "bytes ''OKAY''" "(?g ^^ length xs) ?u1"]
    by (simp add: download_usb_def del: bytes_Cons)
qed

end
