(* ===== verification/UsbInv.thy ===== *)
theory UsbInv
  imports Usb FastbootInv
begin

text \<open>
  The state of the USB driver on any controller: every operation keeps the arrays of the driver at their declared lengths, so that
  the indices the code uses stay valid, whatever the controller answers.
\<close>

definition usb_wf :: "'h usb \<Rightarrow> bool" where
  "usb_wf u \<longleftrightarrow> length (fastboot_fifo u) = MUSB_EP0_FIFOSIZE \<and> length (fastboot_bulk_fifo u) = 0x200 \<and> length (device_strings u) = 9"

text \<open>Steps that change the controller only.\<close>

definition hw_only :: "'h usb \<Rightarrow> 'h usb \<Rightarrow> bool" where
  "hw_only u u' \<longleftrightarrow> u\<lparr>u_hw := u_hw u'\<rparr> = u'"

lemma hw_only_refl [simp]: "hw_only u u"
  by (simp add: hw_only_def)

lemma hw_only_trans: "hw_only u u' \<Longrightarrow> hw_only u' u'' \<Longrightarrow> hw_only u u''"
  by (cases u; cases u'; cases u'') (simp add: hw_only_def)

lemma hw_only_wf: "hw_only u u' \<Longrightarrow> usb_wf u' = usb_wf u"
  by (cases u; cases u') (auto simp: hw_only_def usb_wf_def)

lemma hw_only_regs [simp]: "hw_only u (snd (usb_rd c r u))" "hw_only u (usb_wr c r v u)" "hw_only u (set_bits c r m u)" "hw_only u (clr_bits c r m u)"
  "hw_only u (usb_delay c n u)"
  by (simp_all add: hw_only_def usb_rd_def usb_wr_def set_bits_def clr_bits_def usb_delay_def split_def Let_def)

lemma wf_regs [simp]: "usb_wf (usb_wr c r v u) = usb_wf u" "usb_wf (set_bits c r m u) = usb_wf u" "usb_wf (clr_bits c r m u) = usb_wf u"
  "usb_wf (usb_delay c n u) = usb_wf u" "usb_wf (ACK_REQ c u) = usb_wf u" "usb_wf (NAK_REQ c u) = usb_wf u"
  by (simp_all add: hw_only_wf[OF hw_only_regs(2)] hw_only_wf[OF hw_only_regs(3)] hw_only_wf[OF hw_only_regs(4)]
      hw_only_wf[OF hw_only_regs(5)] ACK_REQ_def NAK_REQ_def)

lemma wf_rd: "usb_rd c r u = (v, u') \<Longrightarrow> usb_wf u' = usb_wf u"
  using hw_only_regs(1)[of u c r] by (simp add: hw_only_wf)

lemma wf_upd [simp]: "usb_wf (u\<lparr>faddr := a\<rparr>) = usb_wf u" "usb_wf (u\<lparr>set_address := b\<rparr>) = usb_wf u"
  "usb_wf (u\<lparr>high_speed := b\<rparr>) = usb_wf u" "usb_wf (u\<lparr>current_config := n\<rparr>) = usb_wf u" "usb_wf (u\<lparr>deferred_rx := b\<rparr>) = usb_wf u"
  "usb_wf (u\<lparr>blink := n\<rparr>) = usb_wf u" "usb_wf (u\<lparr>fastboot_interface := b\<rparr>) = usb_wf u" "usb_wf (u\<lparr>board_type := t\<rparr>) = usb_wf u"
  "usb_wf (u\<lparr>u_hw := h\<rparr>) = usb_wf u" "usb_wf (u\<lparr>req := q\<rparr>) = usb_wf u" "usb_wf (u\<lparr>fastboot_fifo_used := k\<rparr>) = usb_wf u"
  by (simp_all add: usb_wf_def)

lemma wait_clear_hw:
  assumes "wait_clear c r m u = Some u'"
  shows "hw_only u u'"
proof (rule wait_clear.raw_induct[of "\<lambda>c r m u u'. hw_only u u'", OF _ assms], goal_cases)
  case (1 f c r m u u')
  let ?u = "snd (usb_rd c r u)"
  have h: "hw_only u (usb_delay c 1 ?u)" by (rule hw_only_trans[OF hw_only_regs(1) hw_only_regs(5)])
  show ?case
  proof (cases "fst (usb_rd c r u) AND m = 0")
    case True
    then show ?thesis using 1(2) hw_only_regs(1)[of u c r] by (simp add: split_def Let_def)
  next
    case False
    then have "f c r m (usb_delay c 1 ?u) = Some u'" using 1(2) by (simp add: split_def Let_def)
    then show ?thesis using 1(1) h hw_only_trans by blast
  qed
qed

lemma wait_set_hw:
  assumes "wait_set c r m u = Some u'"
  shows "hw_only u u'"
proof (rule wait_set.raw_induct[of "\<lambda>c r m u u'. hw_only u u'", OF _ assms], goal_cases)
  case (1 f c r m u u')
  let ?u = "snd (usb_rd c r u)"
  have h: "hw_only u (usb_delay c 1 ?u)" by (rule hw_only_trans[OF hw_only_regs(1) hw_only_regs(5)])
  show ?case
  proof (cases "fst (usb_rd c r u) AND m \<noteq> 0")
    case True
    then show ?thesis using 1(2) hw_only_regs(1)[of u c r] by (simp add: split_def Let_def)
  next
    case False
    then have "f c r m (usb_delay c 1 ?u) = Some u'" using 1(2) by (simp add: split_def Let_def)
    then show ?thesis using 1(1) h hw_only_trans by blast
  qed
qed

lemma flush_hw:
  assumes "flush c r m fl u = Some u'"
  shows "hw_only u u'"
proof (rule flush.raw_induct[of "\<lambda>c r m fl u u'. hw_only u u'", OF _ assms], goal_cases)
  case (1 f c r m fl u u')
  let ?u = "snd (usb_rd c r u)"
  have h: "hw_only u (usb_delay c 1 (set_bits c r fl ?u))" by (rule hw_only_trans[OF hw_only_trans[OF hw_only_regs(1) hw_only_regs(3)] hw_only_regs(5)])
  show ?case
  proof (cases "fst (usb_rd c r u) AND m = 0")
    case True
    then show ?thesis using 1(2) hw_only_regs(1)[of u c r] by (simp add: split_def Let_def)
  next
    case False
    then have "f c r m fl (usb_delay c 1 (set_bits c r fl ?u)) = Some u'" using 1(2) by (simp add: split_def Let_def)
    then show ?thesis using 1(1) h hw_only_trans by blast
  qed
qed

lemma dma_wait_hw:
  assumes "dma_wait c u = Some (b, u')"
  shows "hw_only u u'"
proof -
  have "hw_only u (snd (b, u'))"
  proof (rule dma_wait.raw_induct[of "\<lambda>c u r. hw_only u (snd r)", OF _ assms], goal_cases)
    case (1 f c u r)
    let ?u = "snd (usb_rd c DMA_CNTL u)"
    have h: "hw_only u ?u" "hw_only u (snd (usb_rd c DMA_COUNT ?u))" by (simp, rule hw_only_trans[OF hw_only_regs(1) hw_only_regs(1)])
    consider "0x0100 AND fst (usb_rd c DMA_CNTL u) \<noteq> 0" | "0x0100 AND fst (usb_rd c DMA_CNTL u) = 0" "fst (usb_rd c DMA_COUNT ?u) = 0"
      | "f c (snd (usb_rd c DMA_COUNT ?u)) = Some r"
      using 1(2) by (fastforce simp: split_def Let_def split: if_splits)
    then show ?case
    proof cases
      case 3
      then show ?thesis using 1(1) h(2) hw_only_trans by blast
    qed (use 1(2) h in \<open>auto simp: split_def Let_def\<close>)
  qed
  then show ?thesis by simp
qed

lemmas wait_wf = wait_clear_hw[THEN hw_only_wf] wait_set_hw[THEN hw_only_wf] flush_hw[THEN hw_only_wf] dma_wait_hw[THEN hw_only_wf]

lemma write_fifo_wf [simp]: "usb_wf (write_fifo_8s c r bs u) = usb_wf u"
  by (induction bs arbitrary: u) simp_all

lemma read_fifo_wf: "read_fifo_8s c r n u = (bs, u') \<Longrightarrow> usb_wf u' = usb_wf u \<and> length bs = n"
  by (induction n arbitrary: u bs u') (auto simp: Let_def split: prod.splits dest: wf_rd)

section \<open>The operations\<close>

lemma endpoint_reset_wf: "usb_wf u \<Longrightarrow> post usb_wf (fastboot_bulk_endpoint_reset c u)"
  unfolding fastboot_bulk_endpoint_reset_def
  by (auto simp: Let_def post_def opt_bind dest!: wait_wf split: prod.splits dest: wf_rd)

lemma TX_LAST_wf: "usb_wf u \<Longrightarrow> post usb_wf (TX_LAST c u)"
  by (auto simp: TX_LAST_def post_def dest: wait_wf)

lemma read_request_wf: "usb_wf u \<Longrightarrow> post usb_wf (read_request c u)"
  unfolding read_request_def
  by (auto simp: Let_def post_def opt_bind dest!: wait_wf split: prod.splits) (auto dest!: read_fifo_wf simp: usb_wf_def)

lemma tx_fifo_wf: "usb_wf u \<Longrightarrow> post usb_wf (tx_fifo c n u)"
  unfolding tx_fifo_def by (intro post_bind post_True TX_LAST_wf) simp

lemma put_descs_len: "put_descs ds k n f = Some (m, f') \<Longrightarrow> length f' = length f"
  by (induction ds k n f rule: put_descs.induct) (auto simp: Let_def opt_bind)

lemma put_unicode_len: "put_unicode s bs f = Some f' \<Longrightarrow> length f' = length f"
  by (induction s bs f rule: put_unicode.induct) (auto simp: opt_bind)

lemma wf_fifo: "usb_wf u \<Longrightarrow> length f = length (fastboot_fifo u) \<Longrightarrow> usb_wf (u\<lparr>fastboot_fifo := f\<rparr>)"
  by (simp add: usb_wf_def)

lemma tx_fifo_dest: "tx_fifo c n u = Some u' \<Longrightarrow> usb_wf u \<Longrightarrow> usb_wf u'"
  using tx_fifo_wf by (auto simp: post_def)

lemma string_wf: "usb_wf u \<Longrightarrow> post usb_wf (get_string_descriptor c u)"
  unfolding get_string_descriptor_def Let_def
  by (auto simp: post_def opt_bind dest!: put_unicode_len tx_fifo_dest intro!: wf_fifo)

lemma get_descriptor_wf: "usb_wf u \<Longrightarrow> post usb_wf (do_usb_req_get_descriptor c u)"
  unfolding do_usb_req_get_descriptor_def Let_def
  by (intro post_if string_wf) (auto simp: post_def opt_bind dest!: put_descs_len tx_fifo_dest intro!: wf_fifo simp del: put_descs.simps)

lemma requests_wf:
  assumes "usb_wf u"
  shows "post usb_wf (do_usb_req_set_interface c u)" "post usb_wf (do_usb_req_set_address c u)"
    "post usb_wf (do_usb_req_set_configuration c u)" "post usb_wf (do_usb_req_set_feature c u)"
    "post usb_wf (do_usb_req_get_configuration c u)" "post usb_wf (do_usb_req_get_status c u)"
  unfolding do_usb_req_set_interface_def do_usb_req_set_address_def do_usb_req_set_configuration_def do_usb_req_set_feature_def
    do_usb_req_get_configuration_def do_usb_req_get_status_def Let_def
  using assms
  by (auto split: prod.splits dest: wf_rd simp: post_def opt_bind dest!: endpoint_reset_wf[unfolded post_def, rule_format, rotated] TX_LAST_wf[unfolded post_def, rule_format, rotated]
      tx_fifo_dest intro!: wf_fifo)

lemma usb_request_wf: "usb_wf u \<Longrightarrow> post (\<lambda>(r, u). usb_wf u) (usb_request c u)"
proof -
  assume w: "usb_wf u"
  have p: "post usb_wf m \<Longrightarrow> post (\<lambda>(r, u). usb_wf u) (map_option (Pair k) m)" for m and k :: int by (cases m) simp_all
  show ?thesis unfolding usb_request_def Let_def by (intro post_if p requests_wf[OF w] get_descriptor_wf[OF w]) (simp_all add: w)
qed

lemma poll_h_wf: "usb_wf u \<Longrightarrow> post (\<lambda>(r, u). usb_wf u) (fastboot_poll_h c u)"
  unfolding fastboot_poll_h_def Let_def
  by (auto intro!: post_prod post_if post_bind post_mono[OF read_request_wf] usb_request_wf dest!: wf_rd)

lemma resume_wf: "usb_wf u \<Longrightarrow> post (\<lambda>(r, u). usb_wf u) (fastboot_resume c u)"
  unfolding fastboot_resume_def Let_def
  by (intro post_prod post_if poll_h_wf) (auto dest!: wf_rd)

lemma rx_error_wf: "usb_wf u \<Longrightarrow> post usb_wf (fastboot_rx_error c u)"
  by (auto simp: fastboot_rx_error_def post_def opt_bind Let_def dest: wait_wf)

lemma rx_dma_wf: "usb_wf u \<Longrightarrow> post usb_wf (rx_dma c n u)"
proof -
  have d: "usb_wf u \<Longrightarrow> post (\<lambda>(e, u). usb_wf u) (read_bulk_fifo_dma c n u)" for u
    unfolding read_bulk_fifo_dma_def
    by (auto simp: post_def opt_bind Let_def dest!: dma_wait_hw[THEN hw_only_wf]) (auto simp: usb_wf_def)
  show "usb_wf u \<Longrightarrow> post usb_wf (rx_dma c n u)" unfolding rx_dma_def Let_def
    by (auto simp: post_def opt_bind split: if_splits dest!: d[unfolded post_def, rule_format, rotated] rx_error_wf[unfolded post_def, rule_format, rotated])
qed

lemma rx_fetch_wf: "usb_wf u \<Longrightarrow> post (\<lambda>(n, u). usb_wf u) (rx_fetch c u)"
  unfolding rx_fetch_def Let_def
  by (auto simp: post_def opt_bind split: prod.splits if_splits dest!: wf_rd read_fifo_wf rx_dma_wf[unfolded post_def, rule_format, rotated] rx_error_wf[unfolded post_def, rule_format, rotated])
    (auto simp: usb_wf_def)

lemma poison_wf: "usb_wf u \<Longrightarrow> post usb_wf (poison n u)"
  by (auto simp: poison_def post_def opt_bind usb_wf_def)

lemma tx_status_wf: "usb_wf u \<Longrightarrow> post usb_wf (fastboot_tx_status c b u)"
  unfolding fastboot_tx_status_def Let_def
  by (auto simp: post_def opt_bind dest!: wait_wf TX_LAST_wf[unfolded post_def, rule_format, rotated])

lemma blink_wf [simp]: "usb_wf (poll_blink c u) = usb_wf u"
  by (simp add: poll_blink_def Let_def)

lemma intr_wf [simp]: "usb_wf (poll_intr c u) = usb_wf u"
  by (auto simp: poll_intr_def Let_def split: prod.splits dest!: wf_rd)

section \<open>Polling\<close>

text \<open>The handler changes the state of the driver by replies only.\<close>

lemma tx_steps_wf:
  assumes "tx_steps p u u'" "usb_wf u" "p_tx p = fastboot_tx_status c"
  shows "usb_wf u'"
  using assms(1) unfolding tx_steps_def
proof (induction rule: rtranclp_induct)
  case (step v v')
  then show ?case using tx_status_wf assms(3) by (auto simp: post_def)
qed (rule assms(2))

lemma rx_wf:
  assumes "usb_wf (w_usb w)" "p_tx p = fastboot_tx_status c"
    and "\<And>w. post (\<lambda>(r, w'). usb_rel p w w') (p_bootd p w)" "\<And>a w. post (\<lambda>(r, w'). usb_rel p w w') (p_booti p a w)"
  shows "post (\<lambda>(r, w'). usb_wf (w_usb w')) (fastboot_rx p c w)"
proof -
  have h: "post (\<lambda>(r, w'). usb_wf (w_usb w')) (rx_handler p b n v)" if "usb_wf (w_usb v)" for b n v
    using rx_handler_usb[OF assms(3,4)] tx_steps_wf[OF _ that assms(2)] by (fastforce simp: post_def usb_rel_def)
  show ?thesis unfolding fastboot_rx_def Let_def
    using assms(1)
    by (intro post_bind post_mono[OF rx_fetch_wf])
      (auto intro!: post_option post_bind post_if post_mono[OF h] post_mono[OF poison_wf] split: ret.splits)
qed

theorem fastboot_poll_wf:
  assumes "usb_wf (w_usb w)" "p_tx p = fastboot_tx_status c"
    and "\<And>w. post (\<lambda>(r, w'). usb_rel p w w') (p_bootd p w)" "\<And>a w. post (\<lambda>(r, w'). usb_rel p w w') (p_booti p a w)"
  shows "post (\<lambda>(r, w'). usb_wf (w_usb w')) (fastboot_poll p c w)"
proof -
  obtain v u where r: "usb_rd c USB_INTRUSB (poll_blink c (w_usb w)) = (v, u)" by fastforce
  have u: "usb_wf u" using wf_rd[OF r] assms(1) by simp
  note rx = rx_wf[OF _ assms(2-4)]
  show ?thesis unfolding fastboot_poll_def Let_def r
    using u
    by (auto intro!: post_if post_bind post_mono[OF resume_wf] post_mono[OF rx] split: ret.splits)
qed

end
