(* ===== verification/Stack.thy ===== *)
theory Stack
  imports UsbHw UsbInv
begin

text \<open>
  The properties of fastboot over its drivers: from the packets a host has queued on the USB controller, through the polling loop of the
  driver and the command handler, to the sectors of the eMMC.
\<close>

section \<open>A device with a queue of packets\<close>

definition demo_ptn :: "u64 \<Rightarrow> fastboot_ptentry" where
  "demo_ptn len = \<lparr>pt_name = bytes ''boot'' @ replicate 12 0, pt_start = 2048, pt_length = len, pt_flags = 0\<rparr>"

definition demo_gpt :: "u64 \<Rightarrow> gpt" where
  "demo_gpt len = \<lparr>the_ptable = [], gp_data = [], gp_entry = [], gp_ptn = \<lparr>ptable = demo_ptn len # replicate 15 (demo_ptn len), pcount = 1\<rparr>\<rparr>"

definition demo_usb :: "byte list list \<Rightarrow> musb usb" where
  "demo_usb q = \<lparr>u_hw = \<lparr>mregs = (\<lambda>_. 0), in_fifo = [], sent = [], out_q = q, out_pos = 0, ep0 = None, ep0_pos = 0, ep0_q = [], ep0_in = [],
       ep0_sent = [], stalls = 0, mem = []\<rparr>,
     fastboot_fifo = replicate 64 0, fastboot_fifo_used = 0, set_address = False, faddr = 1, current_config = 1, high_speed = True,
     deferred_rx = True, req = \<lparr>bmRequestType = 0, bRequest = 0, wValue = 0, wIndex = 0, wLength = 0\<rparr>,
     fastboot_bulk_fifo = replicate 0x200 0, device_strings = replicate 9 None, fastboot_interface = True, board_type = replicate 16 0, blink = 0\<rparr>"

definition demo_fb :: fb where
  "demo_fb = \<lparr>interface = \<lparr>product_name = None, serial_no = None, proc_rev = None, proc_type = None, proc_version = None,
       storage_medium = EMMC, nand_block_size = 2048, transfer_buffer = 0x80000000, transfer_buffer_size = 4096\<rparr>,
     fastboot_confirmed = False, fastboot_countdown = 0, download_size = 0, download_bytes = 0, download_bytes_unpadded = 0, download_error = 0,
     mmc_controller_no = 0, multiflash_offset = 0, multiflash_ptn = None, mmcwrite_is_sparsed = False\<rparr>"

definition demo_world :: "u64 \<Rightarrow> byte list list \<Rightarrow> (emmc mmc, musb usb, unit) world" where
  "demo_world len q = \<lparr>w_dev = emmc_on zeros, w_usb = demo_usb q, w_con = (), w_ram = replicate 8192 0, w_gpt = demo_gpt len,
     w_idme = \<lparr>gblock_buff = [], gidme_buff = [], gidme_buff_valid = 0, board_id = [], board_serial = []\<rparr>,
     w_sparse = \<lparr>remaining_chunks = 0, chunk_offset = 0, sp_sector = 0, last_header = replicate 12 0, block_size = 0, slot_no = 0, sp_data = replicate 512 0\<rparr>,
     w_env = \<lparr>env_valid = False, env_crc = 0, env_data = [], default_env = [], baudrate = 0, load_addr = 0, bd = \<lparr>bi_enetaddr = [], bi_ip_addr = 0, bi_arch_number = 2967,
       bi_boot_params = 0x80000100, bi_dram = [(0x80000000, 0x40000000)], bi_board_revision = 0\<rparr>\<rparr>,
     w_mmc_flag = [False, False], w_bootmsg = [], w_sar = [], w_prm = [], w_fb = demo_fb, w_is_recovery_mode = False,
     w_gnUSBAttached = False\<rparr>"

definition demo_io :: "unit env_io" where
  "demo_io = \<lparr>io_console_assign = (\<lambda>_ _ c. (0, c)), io_serial_setbrg = (\<lambda>_ c. c), io_getc = (\<lambda>c. (0, c)), io_ctrlc = (\<lambda>c. (False, c)), io_puts = (\<lambda>_ c. c)\<rparr>"

definition demo_plat :: "(emmc mmc, musb usb, unit, (emmc mmc, musb usb, unit) world) plat" where
  "demo_plat = usb_plat (mmc_ops hsmmc) demo_io (\<lambda>_. 1) 3 (\<lambda>_. None) (\<lambda>_ _. None)"

lemma demo_flash: "fb_flash demo_plat musb_tx emmc_pre emmc_inv emmc_part emmc_sect EMMC_SECTORS"
  unfolding demo_plat_def by (rule board.fb_flash_axioms)

lemma demo_find: "find_ptn (demo_world len q) (bytes ''boot'') = Some (demo_ptn len)" "\<not> has_flag (demo_ptn len) FLAGS_WRITE_ENV"
  "find_ptn_index (demo_world len q) (bytes ''boot'') = Some 0"
proof -
  have "cstr_of (bytes ''boot'' @ replicate 12 0) = bytes ''boot''" using cstr_of_term[of "bytes ''boot''" "replicate 11 0"] by (simp flip: replicate_Suc)
  then show "find_ptn (demo_world len q) (bytes ''boot'') = Some (demo_ptn len)" "find_ptn_index (demo_world len q) (bytes ''boot'') = Some 0"
    by (simp_all add: find_ptn_def find_ptn_index_def fastboot_flash_find_ptn_def demo_world_def demo_gpt_def demo_ptn_def del: bytes_Cons)
  show "\<not> has_flag (demo_ptn len) FLAGS_WRITE_ENV" by (simp add: has_flag_def demo_ptn_def)
qed

lemma demo_sel [simp]: "w_usb (demo_world len q) = demo_usb q" "w_dev (demo_world len q) = emmc_on zeros" "w_ram (demo_world len q) = replicate 8192 0"
  "interface (w_fb (demo_world len q)) = interface demo_fb" "transfer_buffer_size (interface demo_fb) = 4096"
  by (simp_all add: demo_world_def demo_fb_def)

lemma demo_ok: "fb_ok (demo_world len q)" "emmc_idle (demo_world len q)" "tb (demo_world len q) = Some 0"
  by (simp_all add: fb_ok_def emmc_idle_def tb_def ram_off_def PHYS_SDRAM_1_def demo_world_def demo_fb_def Let_def)

lemma demo_parts [simp]: "fastboot_bulk_fifo (demo_usb q) = replicate 0x200 0" "deferred_rx (demo_usb q)" "sent (u_hw (demo_usb q)) = []"
  "pt_start (demo_ptn len) = 2048" "pt_length (demo_ptn len) = len"
  by (simp_all add: demo_usb_def demo_ptn_def)

lemma demo_bulk: "bulk_state q (demo_usb q)" "in_fifo (u_hw (demo_usb q)) = []" "fastboot_fifo_size (demo_usb q) = 0x200" "usb_wf (demo_usb q)"
  by (simp_all add: bulk_state_def quiet_def demo_usb_def fastboot_fifo_size_def usb_wf_def MUSB_EP0_FIFOSIZE_def)

section \<open>Flashing over USB\<close>

text \<open>The queue is polled once for every packet; the driver starts between two packets.\<close>

lemma finish_idle: "bulk_state xs u \<Longrightarrow> xs \<noteq> [] \<Longrightarrow> fastboot_bulk_fifo u = replicate 0x200 0 \<Longrightarrow> deferred_rx u \<Longrightarrow> usb_finish u = u"
  by (simp add: finish_eq)

text \<open>
  C4. The polling loop of the USB driver, on the reference controller: when the host has queued packets for the bulk endpoint, none of them empty or
  larger than the endpoint, polling once per packet has the effect of handing the packets to the command handler one after the other, each
  in a buffer of 512 bytes that is zero behind it, and leaves the driver ready for the next packet.
\<close>

theorem poll_delivers_packets:
  assumes "p = usb_plat dev io gpio slack bootd booti"
    and "\<And>w. post (\<lambda>(r, w'). usb_rel p w w') (bootd w)" "\<And>a w. post (\<lambda>(r, w'). usb_rel p w w') (booti a w)"
    and "bulk_state xs (w_usb w)" "fastboot_bulk_fifo (w_usb w) = replicate 0x200 0" "deferred_rx (w_usb w)" "xs \<noteq> []"
    and "pkts_ok (fastboot_fifo_size (w_usb w)) xs"
    and "rx_all p usb_next xs w = Some w'"
  shows "polls p musb_hw (length xs) w = Some (upd_usb usb_finish w') \<and> bulk_state [] (w_usb w')"
  using polls_refine[OF assms(9,4,8,1) assms(2,3)] finish_idle[OF assms(4,7,5,6)] by (simp add: upd_usb_def)

theorem poll_delivers_packets_witness:
  "\<exists>w'. polls demo_plat musb_hw 2 (demo_world 1048576 [download_packet [1, 2, 3, 4], [1, 2, 3, 4]]) = Some w' \<and> take 4 (w_ram w') = [1, 2, 3, 4]"
proof -
  let ?q = "[download_packet [1, 2, 3, 4], [1, 2, 3, 4]]"
  let ?w = "demo_world 1048576 ?q"
  obtain w' where w': "rx_all demo_plat usb_next ?q ?w = Some w'" "take 4 (w_ram w') = [1, 2, 3, 4]"
    using link.download_session[OF demo_ok[of 1048576 ?q], where xs = "[[1, 2, 3, 4]]" and ys = "[]" and g = usb_next and dev = "mmc_ops hsmmc"
        and io = demo_io and gpio = "\<lambda>_. 1" and bootd = "\<lambda>_. None" and booti = "\<lambda>_ _. None"]
    by (auto simp: demo_plat_def downloaded_def patch_def)
  have "polls demo_plat musb_hw (length ?q) ?w = Some (upd_usb usb_finish w') \<and> bulk_state [] (w_usb w')"
    using demo_bulk[of ?q] w'(1)
    by (intro poll_delivers_packets[OF demo_plat_def]) (simp_all add: download_packet_def)
  then show ?thesis using w'(2) by (auto simp: numeral_2_eq_2 simp del: polls.simps)
qed

text \<open>
  C3. Flashing an image over USB: the host sends \<^verbatim>\<open>download:\<close> with the size, the image in any cut, and \<^verbatim>\<open>flash:\<close> with a
  partition. As many polls as packets write the image to the sectors of the partition (the last sector is filled with what the
  memory holds behind the image), change no other sector, and answer \<^verbatim>\<open>DATA\<close> with the size, \<^verbatim>\<open>OKAY\<close> and \<^verbatim>\<open>OKAY\<close>. USB driver,
  handler and eMMC driver run together, down to the registers of both controllers.
\<close>

theorem flash_over_usb:
  assumes p: "p = usb_plat (mmc_ops hsmmc) io gpio slack bootd booti"
    and boot: "\<And>w. post (\<lambda>(r, w'). usb_rel p w w') (bootd w)" "\<And>a w. post (\<lambda>(r, w'). usb_rel p w w') (booti a w)"
    and usb: "bulk_state (download_packet d # xs @ [flash_packet name]) (w_usb w)" "fastboot_bulk_fifo (w_usb w) = replicate 0x200 0"
      "deferred_rx (w_usb w)" "in_fifo (u_hw (w_usb w)) = []"
      "pkts_ok (fastboot_fifo_size (w_usb w)) xs" "length name + 6 \<le> fastboot_fifo_size (w_usb w)"
    and fb: "fb_ok w" "emmc_idle w" "tb w = Some off" and d: "concat xs = d" "xs \<noteq> []"
      "length d \<le> unat (transfer_buffer_size (interface (w_fb w)))" "length d + 511 < 2 ^ 32"
    and dev: "emmc_pre (w_dev w)" "plain_mbr (emmc_sect (w_dev w) 0 0)"
    and ptn: "0 \<notin> set name" "find_ptn w name = Some ptn" "\<not> has_flag ptn FLAGS_WRITE_ENV" "length d \<le> unat (pt_length ptn)" "length name < 506"
    and raw: "(of_le (take 4 (d @ drop (off + length d) (w_ram w))) :: u32) \<noteq> SPARSE_HEADER_MAGIC"
    and room: "unat (pt_start ptn) + nsect (length d) \<le> EMMC_SECTORS" "off + 512 * nsect (length d) \<le> length (w_ram w)"
  shows "\<exists>w'. polls p musb_hw (length xs + 2) w = Some w' \<and> emmc_inv (w_dev w') \<and> emmc_part (w_dev w') = 0
    \<and> emmc_sect (w_dev w') = (emmc_sect (w_dev w))(0 := upd_sectors (emmc_sect (w_dev w) 0) (unat (pt_start ptn))
         (take (512 * nsect (length d)) (d @ drop (off + length d) (w_ram w))))
    \<and> sent (u_hw (w_usb w')) = sent (u_hw (w_usb w)) @ [bytes ''DATA'' @ hex8 (of_nat (length d)), bytes ''OKAY'', bytes ''OKAY'']"
proof -
  let ?q = "download_packet d # xs @ [flash_packet name]"
  have xs: "[] \<notin> set xs" using usb(5) by (auto simp: pkts_ok_def list_all_iff)
  obtain w1 where w1: "rx_all p usb_next ?q w = Some w1" "emmc_inv (w_dev w1)" "emmc_part (w_dev w1) = 0"
      "emmc_sect (w_dev w1) = (emmc_sect (w_dev w))(0 := upd_sectors (emmc_sect (w_dev w) 0) (unat (pt_start ptn))
         (take (512 * nsect (length d)) (d @ drop (off + length d) (w_ram w))))"
      "w_usb w1 = musb_tx (bytes ''OKAY'') (usb_next (download_usb musb_tx usb_next xs (w_usb w)))"
    using board.flash_session[OF fb xs d dev ptn(1-4) raw room ptn(5), of io gpio slack bootd booti usb_next] p by auto
  have sz: "17 \<le> fastboot_fifo_size (w_usb w)" by (simp add: fastboot_fifo_size_def)
  then have ok: "pkts_ok (fastboot_fifo_size (w_usb w)) ?q"
    using usb(5,6) by (simp add: download_packet_def flash_packet_def)
  have "polls p musb_hw (length ?q) (upd_usb usb_finish w) = Some (upd_usb usb_finish w1) \<and> bulk_state [] (w_usb w1)"
    by (rule polls_refine[OF w1(1) usb(1) ok p boot])
  moreover have "upd_usb usb_finish w = w" using finish_idle[OF usb(1) _ usb(2,3)] by (simp add: upd_usb_def)
  ultimately have pl: "polls p musb_hw (length xs + 2) w = Some (upd_usb usb_finish w1)" and b: "bulk_state [] (w_usb w1)" by simp_all
  have "sent (u_hw (w_usb (upd_usb usb_finish w1))) = sent (u_hw (w_usb w)) @ [bytes ''DATA'' @ hex8 (of_nat (length d)), bytes ''OKAY'', bytes ''OKAY'']"
    using download_sent[OF usb(1) ok usb(4), of "bytes ''OKAY''"] w1(5) finish_eq[OF b] d(1) by (simp del: bytes_Cons)
  then show ?thesis using pl w1(2-4) by (intro exI[of _ "upd_usb usb_finish w1"]) (simp del: fun_upd_apply)
qed

theorem flash_over_usb_witness:
  "\<exists>w'. polls demo_plat musb_hw 3 (demo_world 1048576 [download_packet (replicate 512 7), replicate 512 7, flash_packet (bytes ''boot'')]) = Some w'
     \<and> emmc_sect (w_dev w') 0 2048 = replicate 512 7
     \<and> sent (u_hw (w_usb w')) = [bytes ''DATA00000200'', bytes ''OKAY'', bytes ''OKAY'']"
proof -
  let ?d = "replicate 512 (7 :: byte)"
  let ?q = "[download_packet ?d, ?d, flash_packet (bytes ''boot'')]"
  let ?w = "demo_world 1048576 ?q"
  have h: "hex8 (of_nat (length ?d)) = bytes ''00000200''" by (simp add: hex8_def) code_simp
  have n: "nsect 512 = 1" by (simp add: nsect_def)
  have "(of_le (replicate 4 7) :: u32) = 0x07070707" by code_simp
  then have "(of_le (take 4 (?d @ drop (0 + length ?d) (w_ram ?w))) :: u32) \<noteq> SPARSE_HEADER_MAGIC" by (simp add: SPARSE_HEADER_MAGIC_def)
  then have "\<exists>w'. polls demo_plat musb_hw (length [?d] + 2) ?w = Some w' \<and> emmc_inv (w_dev w') \<and> emmc_part (w_dev w') = 0
    \<and> emmc_sect (w_dev w') = (emmc_sect (w_dev ?w))(0 := upd_sectors (emmc_sect (w_dev ?w) 0) (unat (pt_start (demo_ptn 1048576)))
         (take (512 * nsect (length ?d)) (?d @ drop (0 + length ?d) (w_ram ?w))))
    \<and> sent (u_hw (w_usb w')) = sent (u_hw (w_usb ?w)) @ [bytes ''DATA'' @ hex8 (of_nat (length ?d)), bytes ''OKAY'', bytes ''OKAY'']"
    using demo_bulk[of ?q] demo_ok[of 1048576 ?q] emmc_zeros n
    by (intro flash_over_usb[OF demo_plat_def, where name = "bytes ''boot''"]) (simp_all add: demo_find EMMC_SECTORS_def del: bytes_Cons, simp_all)
  then show ?thesis using n h by (auto simp: upd_sectors_def bslice_def numeral_3_eq_3 simp del: polls.simps)
qed

section \<open>The commands\<close>

text \<open>
  C8. Flashing a sparse image: after the download of an image in any cut, \<^verbatim>\<open>flash:\<close> leaves on the disk what the chunk list means, from the start of the
  partition on. Only the size of the compressed image is compared with the partition: the chunks may reach behind its end, and are
  written there.
\<close>

theorem flash_sparse_image:
  assumes "fb_flash p txf pre ok part sect cap" and "fb_ok w" "emmc_idle w" "tb w = Some off" and "[] \<notin> set xs" "concat xs = d"
    and "length d \<le> unat (transfer_buffer_size (interface (w_fb w)))"
    and "pre (w_dev w)" "plain_mbr (sect (w_dev w) 0 0)"
    and "0 \<notin> set name" "find_ptn w name = Some ptn" "\<not> has_flag ptn FLAGS_WRITE_ENV" "length d \<le> unat (pt_length ptn)"
    and "blk_ok bsz" "list_all (chunk_ok bsz) cs" "length cs < 2 ^ 32" "unat (pt_start ptn) + span bsz cs \<le> cap"
    and "length (last_header (w_sparse w)) = 12" "length (sp_data (w_sparse w)) = 512"
    and "d = image_header bsz minor tot csum (length cs) @ stream bsz cs" and "length name < 506"
  shows "\<exists>w'. rx_all p g (download_packet d # xs @ [flash_packet name]) w = Some w' \<and> ok (w_dev w') \<and> part (w_dev w') = 0
    \<and> sect (w_dev w') = (sect (w_dev w))(0 := expand bsz (sect (w_dev w) 0) (unat (pt_start ptn)) cs)
    \<and> w_usb w' = txf (bytes ''OKAY'') (g (download_usb txf g xs (w_usb w)))"
  by (rule fb_flash.sparse_session[OF assms])

definition past_end :: "chunk list" where
  "past_end = [Skip 3, Raw (replicate 512 7)]"

text \<open>A partition of two sectors, from 2048 on: sector 2051 belongs to another one.\<close>

theorem flash_sparse_image_witness:
  "let d = image_header 512 0 4 0 (length past_end) @ stream 512 past_end in
   \<exists>w'. rx_all demo_plat usb_next [download_packet d, d, flash_packet (bytes ''boot'')] (demo_world 1024 []) = Some w'
     \<and> pt_length (demo_ptn 1024) = 2 * 512 \<and> emmc_sect (w_dev w') 0 2051 = replicate 512 7"
proof -
  let ?d = "image_header 512 0 4 0 (length past_end) @ stream 512 past_end" and ?w = "demo_world 1024 []"
  have l: "length ?d = 564" by (simp add: past_end_def image_fields)
  then have ne: "[] \<noteq> ?d" by (metis length_0_conv zero_neq_numeral)
  have e: "expand 512 (zeros 0) 2048 past_end 2051 = replicate 512 7"
    by (simp add: past_end_def upd_sectors_def bslice_def)
  have s: "length (last_header (w_sparse ?w)) = 12" "length (sp_data (w_sparse ?w)) = 512" by (simp_all add: demo_world_def)
  have "\<exists>w'. rx_all demo_plat usb_next (download_packet ?d # [?d] @ [flash_packet (bytes ''boot'')]) ?w = Some w' \<and> emmc_inv (w_dev w') \<and> emmc_part (w_dev w') = 0
    \<and> emmc_sect (w_dev w') = (emmc_sect (w_dev ?w))(0 := expand 512 (emmc_sect (w_dev ?w) 0) (unat (pt_start (demo_ptn 1024))) past_end)
    \<and> w_usb w' = musb_tx (bytes ''OKAY'') (usb_next (download_usb musb_tx usb_next [?d] (w_usb ?w)))"
    using demo_ok[of 1024 "[]"] emmc_zeros l ne s
    by (intro flash_sparse_image[OF demo_flash]) (simp_all add: demo_find del: bytes_Cons, simp_all add: blk_ok_def past_end_def EMMC_SECTORS_def)
  then show ?thesis using e unfolding Let_def by auto
qed





section \<open>Invariants\<close>

text \<open>
  C10. The invariant of the command handler: the transfer buffer lies inside the memory, what has been received never exceeds the announced size, and the
  announced size never exceeds the buffer. Every packet, whatever it holds, keeps it: data, each command on each of its branches, and
  unknown commands.
\<close>

theorem handler_keeps_invariant:
  assumes "fb_ok w" and "unat n \<le> length buf" and "\<And>r u. p_tx p r u \<noteq> None"
    and "\<And>w. fb_ok w \<Longrightarrow> post (\<lambda>(r, w'). fb_ok w') (p_bootd p w)" "\<And>a w. fb_ok w \<Longrightarrow> post (\<lambda>(r, w'). fb_ok w') (p_booti p a w)"
  shows "post (\<lambda>(r, w'). fb_ok w') (rx_handler p buf n w)"
proof -
  obtain off where "tb w = Some off" using assms(1) by (auto simp: fb_ok_def Let_def)
  then show ?thesis using rx_handler_ok assms by blast
qed

theorem handler_keeps_invariant_witness:
  "post (\<lambda>(r, w'). fb_ok w') (rx_handler demo_plat (bytes ''download:ffffffff'' @ [0]) 17 (demo_world 1048576 []))"
  using demo_ok(1) by (intro handler_keeps_invariant) (simp_all add: demo_plat_def)

text \<open>
  C11. A data packet always ends, keeps the invariant, and changes no byte of the memory outside the transfer buffer, even when the host sends more than it
  announced.
\<close>

theorem download_stays_in_buffer:
  assumes "fb_ok w" and "download_size (w_fb w) \<noteq> 0" and "tb w = Some off" and "unat n \<le> length buf" and "\<And>r u. p_tx p r u \<noteq> None"
  shows "\<exists>w'. rx_handler p buf n w = Some (Ret 0, w') \<and> fb_ok w' \<and> interface (w_fb w') = interface (w_fb w)
    \<and> eq_outside off (unat (transfer_buffer_size (interface (w_fb w)))) (w_ram w) (w_ram w')"
  using rx_data_ok[OF assms] assms(2) by (auto simp: rx_handler_def)

theorem download_stays_in_buffer_witness:
  "\<exists>w'. rx_handler demo_plat (replicate 512 7) 512 (upd_fb (\<lambda>f. f\<lparr>download_size := 8\<rparr>) (demo_world 1048576 [])) = Some (Ret 0, w')
     \<and> drop 4096 (w_ram w') = drop 4096 (w_ram (demo_world 1048576 []))"
proof -
  let ?w = "upd_fb (\<lambda>f. f\<lparr>download_size := 8\<rparr>) (demo_world 1048576 [])"
  have "fb_ok ?w" "tb ?w = Some 0" using demo_ok[of 1048576 "[]"] by (simp_all add: fb_ok_def tb_def Let_def demo_world_def demo_fb_def)
  then show ?thesis
    using download_stays_in_buffer[of ?w 0 512 "replicate 512 7" demo_plat] by (auto simp: demo_plat_def eq_outside_def)
qed

text \<open>
  C35. Polling keeps the arrays of the USB driver at their declared sizes, on any controller: whatever it reports, after each poll \<^verbatim>\<open>fastboot_fifo\<close> has 64 bytes,
  \<^verbatim>\<open>fastboot_bulk_fifo\<close> 512, and \<^verbatim>\<open>device_strings\<close> nine entries.
\<close>

theorem poll_keeps_types:
  assumes "usb_wf (w_usb w)" "p_tx p = fastboot_tx_status c"
    and "\<And>w. post (\<lambda>(r, w'). usb_rel p w w') (p_bootd p w)" "\<And>a w. post (\<lambda>(r, w'). usb_rel p w w') (p_booti p a w)"
    and "fastboot_poll p c w = Some (r, w')"
  shows "usb_wf (w_usb w')"
  using fastboot_poll_wf[OF assms(1-4)] assms(5) by (simp add: post_def)

theorem poll_keeps_types_witness:
  "\<exists>w'. fastboot_poll demo_plat musb_hw (demo_world 1048576 [[1, 2, 3, 4]]) = Some (Ret 0, w') \<and> usb_wf (w_usb w')"
proof -
  let ?w = "demo_world 1048576 [[1, 2, 3, 4]]"
  have c: "\<not> is_cmd s (pkt [1, 2, 3, 4])" if "s \<noteq> []" "hd s \<in> set ''crgoedbmf''" for s
    using that by (cases s) (auto simp: pkt_def)
  have "rx_handler demo_plat (pkt [1, 2, 3, 4]) 4 (upd_usb usb_next ?w) = Some (Ret 1, upd_fb (\<lambda>f. f\<lparr>fastboot_confirmed := True\<rparr>)
      (?w\<lparr>w_usb := musb_tx (bytes ''FAIL'') (usb_next (demo_usb [[1, 2, 3, 4]]))\<rparr>))"
    using demo_ok(2)[of 1048576 "[[1, 2, 3, 4]]"]
    by (simp add: rx_handler_def rx_cmd_def c emmc_idle_def tx_def demo_plat_def upd_usb_def upd_fb_def del: bytes_Cons)
  then have "rx_all demo_plat usb_next [[1, 2, 3, 4]] ?w = Some (upd_fb (\<lambda>f. f\<lparr>fastboot_confirmed := True\<rparr>)
      (?w\<lparr>w_usb := musb_tx (bytes ''FAIL'') (usb_next (demo_usb [[1, 2, 3, 4]]))\<rparr>))" by simp
  moreover have "upd_usb usb_finish ?w = ?w" using finish_idle[OF demo_bulk(1)] by (simp add: upd_usb_def)
  ultimately obtain w' where "polls demo_plat musb_hw (Suc 0) ?w = Some w'"
    using polls_refine[of demo_plat "[[1, 2, 3, 4]]" ?w] demo_bulk[of "[[1, 2, 3, 4]]"] demo_plat_def by (simp add: pkts_ok_def)
  then have "fastboot_poll demo_plat musb_hw ?w = Some (Ret 0, w')" by (auto simp: opt_bind split: if_splits)
  then show ?thesis using poll_keeps_types[of ?w demo_plat musb_hw] demo_bulk(4) by (auto simp: demo_plat_def usb_plat_def)
qed

section \<open>Enumeration\<close>

definition utf16 :: "byte list \<Rightarrow> byte list" where
  "utf16 s = concat (map (\<lambda>b. [b, 0]) s)"

lemma length_utf16 [simp]: "length (utf16 s) = 2 * length s"
  by (induction s) (simp_all add: utf16_def)

lemma put_unicode_eq:
  "put_unicode s str f = (if str = [] \<or> 2 + 2 * s + 2 * length str \<le> length f then Some (patch (2 + 2 * s) (utf16 str) f) else None)"
proof (induction s str f rule: put_unicode.induct)
  case (1 s f)
  then show ?case by (simp add: utf16_def patch_def)
next
  case (2 s b bs f)
  have u: "utf16 (b # bs) = [b, 0] @ utf16 bs" by (simp add: utf16_def)
  show ?case
  proof (cases "2 + 2 * s + 2 \<le> length f")
    case True
    have "patch (2 + 2 * Suc s) (utf16 bs) (patch (2 + 2 * s) [b, 0] f) = patch (2 + 2 * s) (utf16 (b # bs)) f" if "2 + 2 * s + 2 * length (b # bs) \<le> length f"
      using patch_append[of "2 + 2 * s" "[b, 0]" "utf16 bs" f] that unfolding u by simp
    moreover have "patch (2 + 2 * Suc s) (utf16 []) (patch (2 + 2 * s) [b, 0] f) = patch (2 + 2 * s) (utf16 [b]) f" using True by (simp add: utf16_def patch_def)
    ultimately show ?thesis using True 2[of "patch (2 + 2 * s) [b, 0] f"] by (cases "bs = []") auto
  next
    case False
    then show ?thesis by (auto simp: store_def)
  qed
qed

lemma tx_last_sent:
  "ep0_sent (u_hw (set_bits musb_hw USB_CSR0 (CSR0_TXPKTRDY OR CSR0_DATAEND) u)) = ep0_sent (u_hw u) @ [ep0_in (u_hw u)]"
  "ep0_in (u_hw (set_bits musb_hw USB_CSR0 (CSR0_TXPKTRDY OR CSR0_DATAEND) u)) = []"
proof -
  have "(v OR (CSR0_TXPKTRDY OR CSR0_DATAEND)) AND CSR0_TXPKTRDY \<noteq> 0" for v
    using and_two_power[of "v OR (CSR0_TXPKTRDY OR CSR0_DATAEND)" 1] by (simp add: usb_bits bit_simps)
  then show "ep0_sent (u_hw (set_bits musb_hw USB_CSR0 (CSR0_TXPKTRDY OR CSR0_DATAEND) u)) = ep0_sent (u_hw u) @ [ep0_in (u_hw u)]"
    "ep0_in (u_hw (set_bits musb_hw USB_CSR0 (CSR0_TXPKTRDY OR CSR0_DATAEND) u)) = []"
    by (simp_all add: set_bits_def rmw_def musb_rd_def musb_wr_def usb_regs Let_def)
qed

lemma tx_fifo_musb:
  assumes "n \<le> length (fastboot_fifo u)"
  shows "\<exists>u'. tx_fifo musb_hw n u = Some u' \<and> ep0_sent (u_hw u') = ep0_sent (u_hw u) @ [ep0_in (u_hw u) @ take n (fastboot_fifo u)]"
  using assms by (simp add: tx_fifo_def tx_last write_fifo_0 tx_last_sent bslice_def)

text \<open>
  C36. String descriptors: for a string of at most 31 characters the answer is its descriptor, in UTF-16, cut to the length the host asks for. A longer one
  (below 256 characters, where the length wraps) is written past the end of the 64 bytes of \<^verbatim>\<open>fastboot_fifo\<close>.
\<close>

theorem string_descriptor_bounds:
  assumes "length (fastboot_fifo u) = 64" and "drop_bit 8 (wValue (req u)) = 3" "i = unat (wValue (req u) AND 0xff)" "0 < i" "i \<le> DEVICE_STRING_MAX_INDEX"
    and "device_strings u ! i = Some str" "length str < 256" and "0 < wLength (req u)" and "ep0_in (u_hw u) = []"
  shows "if length str \<le> 31
    then \<exists>u'. do_usb_req_get_descriptor musb_hw u = Some u'
      \<and> ep0_sent (u_hw u') = ep0_sent (u_hw u) @ [take (unat (wLength (req u))) ([2 + 2 * of_nat (length str), 3] @ utf16 str)]
    else do_usb_req_get_descriptor musb_hw u = None"
proof -
  let ?n = "length str" and ?sl = "of_nat (length str) :: byte"
  have sl: "unat ?sl = ?n" using assms(7) by (simp add: unat_of_nat)
  have idx: "\<not> DEVICE_STRING_MAX_INDEX < i" "i \<noteq> 0" using assms(4,5) by simp_all
  have nz: "wLength (req u) \<noteq> 0" using assms(8) by (simp add: word_neq_0_conv)
  let ?f = "patch 0 [2 + 2 * ?sl, 3] (fastboot_fifo u)"
  have f: "length ?f = 64" using assms(1) by simp
  have get: "do_usb_req_get_descriptor musb_hw u = do {
      f \<leftarrow> put_unicode 0 str ?f;
      tx_fifo musb_hw (min (unat (2 + 2 * ?sl)) (unat (wLength (req u)))) (u\<lparr>fastboot_fifo := f\<rparr>) }"
    using nz assms(1,2,6) idx sl unfolding do_usb_req_get_descriptor_def get_string_descriptor_def assms(3)[symmetric] Let_def
    by simp
  show ?thesis
  proof (cases "?n \<le> 31")
    case True
    have b: "unat (2 + 2 * ?sl) = 2 + 2 * ?n" using True sl by (simp add: unat_word_ariths)
    let ?g = "patch 0 ([2 + 2 * ?sl, 3] @ utf16 str) (fastboot_fifo u)"
    have p: "put_unicode 0 str ?f = Some ?g"
      using True f patch_append[of 0 "[2 + 2 * ?sl, 3]" "utf16 str" "fastboot_fifo u"] assms(1) by (auto simp: put_unicode_eq numeral_2_eq_2)
    have "length ?g = 64" using True assms(1) by simp
    moreover have "min (2 + 2 * ?n) (unat (wLength (req u))) \<le> 64" using True by simp
    ultimately obtain u' where "tx_fifo musb_hw (min (2 + 2 * ?n) (unat (wLength (req u)))) (u\<lparr>fastboot_fifo := ?g\<rparr>) = Some u'"
        "ep0_sent (u_hw u') = ep0_sent (u_hw u) @ [take (min (2 + 2 * ?n) (unat (wLength (req u)))) ?g]"
      using tx_fifo_musb[of "min (2 + 2 * ?n) (unat (wLength (req u)))" "u\<lparr>fastboot_fifo := ?g\<rparr>"] assms(9) by auto
    moreover have "take (min (2 + 2 * ?n) k) ?g = take k ([2 + 2 * ?sl, 3] @ utf16 str)" for k
    proof -
      have t: "take (min (length xs) k) (xs @ r) = take k xs" for xs r :: "byte list" by (simp add: min_def)
      show ?thesis using t[of "[2 + 2 * ?sl, 3] @ utf16 str" "drop (2 + 2 * ?n) (fastboot_fifo u)"] by (simp add: patch_def)
    qed
    ultimately show ?thesis using True get p b by simp
  next
    case False
    then have "put_unicode 0 str ?f = None" using f by (auto simp: put_unicode_eq)
    then show ?thesis using False get by simp
  qed
qed

definition demo_string :: "byte list \<Rightarrow> musb usb" where
  "demo_string s = (demo_usb [])\<lparr>device_strings := replicate 9 (Some s),
     req := \<lparr>bmRequestType = 0x80, bRequest = 6, wValue = 0x0301, wIndex = 0x0409, wLength = 255\<rparr>\<rparr>"

theorem string_descriptor_bounds_witness:
  "(\<exists>u'. do_usb_req_get_descriptor musb_hw (demo_string (bytes ''Tate'')) = Some u'
      \<and> ep0_sent (u_hw u') = [[10, 3, 0x54, 0, 0x61, 0, 0x74, 0, 0x65, 0]])
   \<and> do_usb_req_get_descriptor musb_hw (demo_string (replicate 32 0x41)) = None"
proof -
  have s: "length (fastboot_fifo (demo_string s)) = 64" "drop_bit 8 (wValue (req (demo_string s))) = 3" "1 = unat (wValue (req (demo_string s)) AND 0xff)"
    "device_strings (demo_string s) ! 1 = Some s" "0 < wLength (req (demo_string s))" "ep0_in (u_hw (demo_string s)) = []" "ep0_sent (u_hw (demo_string s)) = []"
    "unat (wLength (req (demo_string s))) = 255" for s
    by (simp_all add: demo_string_def demo_usb_def)
  have "(0 :: nat) < 1" "1 \<le> DEVICE_STRING_MAX_INDEX" by (simp_all add: DEVICE_STRING_MAX_INDEX_def)
  note b = string_descriptor_bounds[OF s(1-3) this s(4) _ s(5,6)]
  show ?thesis using b[of "bytes ''Tate''"] b[of "replicate 32 0x41"] by (simp add: s utf16_def)
qed

end
