(* ===== verification/Atag.thy ===== *)
theory Atag
  imports World
begin

text \<open>
  The tag list for the kernel (\<^verbatim>\<open>lib_arm/armlinux.c\<close>, \<^verbatim>\<open>include/asm-arm/setup.h\<close>): \<^verbatim>\<open>do_booti_linux\<close> writes a list of
  tags from \<^verbatim>\<open>bi_boot_params\<close> on and jumps to the kernel. A tag has a header (its size in words and its kind) and a body.

  \<open>params\<close> is the pointer of the file, as the offset in the memory \<open>w_ram\<close>. The functions that take a tag's contents from
  the identity area read it from the eMMC.

  At the end of the theory the list is shown to be readable: walking it with \<^verbatim>\<open>for_each_tag\<close> gives the tags that were
  put.
\<close>

definition ATAG_NONE :: u32 where "ATAG_NONE = 0"
definition ATAG_CORE :: u32 where "ATAG_CORE = 0x54410001"
definition ATAG_MEM :: u32 where "ATAG_MEM = 0x54410002"
definition ATAG_INITRD2 :: u32 where "ATAG_INITRD2 = 0x54420005"
definition ATAG_REVISION :: u32 where "ATAG_REVISION = 0x54410007"
definition ATAG_CMDLINE :: u32 where "ATAG_CMDLINE = 0x54410009"
definition ATAG_SERIAL16 :: u32 where "ATAG_SERIAL16 = 0x5441000a"
definition ATAG_REVISION16 :: u32 where "ATAG_REVISION16 = 0x5441000b"
definition ATAG_MACADDR :: u32 where "ATAG_MACADDR = 0x5441000c"
definition ATAG_BOOTMODE :: u32 where "ATAG_BOOTMODE = 0x5441000d"
definition ATAG_GYROCAL :: u32 where "ATAG_GYROCAL = 0x5441000e"

definition CONFIG_NR_DRAM_BANKS :: nat where "CONFIG_NR_DRAM_BANKS = 1"

text \<open>\<^verbatim>\<open>tag_size\<close> of a body of \<open>n\<close> bytes, \<^verbatim>\<open>tag_next\<close>, and the assignments that fill a tag.\<close>

definition tag_size :: "nat \<Rightarrow> u32" where
  "tag_size n = drop_bit 2 (8 + of_nat n)"

definition tag_next :: "nat \<Rightarrow> byte list \<Rightarrow> nat option" where
  "tag_next params ram = do { sz \<leftarrow> load params 4 ram; Some (params + 4 * unat (of_le sz :: u32)) }"

definition put_tag :: "u32 \<Rightarrow> u32 \<Rightarrow> byte list \<Rightarrow> nat \<Rightarrow> byte list \<Rightarrow> (nat \<times> byte list) option" where
  "put_tag tag sz body params ram = do {
     ram \<leftarrow> store (params + 4) (le32 tag) ram;
     ram \<leftarrow> store params (le32 sz) ram;
     ram \<leftarrow> store (params + 8) body ram;
     params \<leftarrow> tag_next params ram;
     Some (params, ram) }"

definition setup_start_tag :: "bd_info \<Rightarrow> byte list \<Rightarrow> (nat \<times> byte list) option" where
  "setup_start_tag b ram = do {
     params \<leftarrow> ram_off (bi_boot_params b);
     put_tag ATAG_CORE (tag_size 12) (le32 0 @ le32 0 @ le32 0) params ram }"

fun memory_tags :: "(u32 \<times> u32) list \<Rightarrow> nat \<Rightarrow> byte list \<Rightarrow> (nat \<times> byte list) option" where
  "memory_tags [] params ram = Some (params, ram)"
| "memory_tags ((start, sz) # banks) params ram = do {
     (params, ram) \<leftarrow> put_tag ATAG_MEM (tag_size 8) (le32 sz @ le32 start) params ram;
     memory_tags banks params ram }"

definition setup_memory_tags :: "bd_info \<Rightarrow> nat \<Rightarrow> byte list \<Rightarrow> (nat \<times> byte list) option" where
  "setup_memory_tags b params ram =
     (if length (bi_dram b) < CONFIG_NR_DRAM_BANKS then None
      else memory_tags (take CONFIG_NR_DRAM_BANKS (bi_dram b)) params ram)"

text \<open>
  \<open>commandline\<close> is the offset of the string. It is copied within the memory; copying a string over itself with \<^verbatim>\<open>strcpy\<close> has no
  defined meaning.
\<close>

definition setup_commandline_tag :: "nat \<Rightarrow> nat \<Rightarrow> byte list \<Rightarrow> (nat \<times> byte list) option" where
  "setup_commandline_tag commandline params ram = do {
     s \<leftarrow> cstr_at commandline ram;
     let p = dropWhile (\<lambda>c. c = 0x20) s;
     let src = commandline + (length s - length p);
     if p = [] then Some (params, ram)
     else if params < src + length p + 1 \<and> src < params + 8 + length p + 1 then None
     else put_tag ATAG_CMDLINE (drop_bit 2 (8 + of_nat (length p) + 1 + 4)) (p @ [0]) params ram }"

definition setup_initrd_tag :: "u32 \<Rightarrow> u32 \<Rightarrow> nat \<Rightarrow> byte list \<Rightarrow> (nat \<times> byte list) option" where
  "setup_initrd_tag initrd_start initrd_end params ram =
     put_tag ATAG_INITRD2 (tag_size 8) (le32 initrd_start @ le32 (initrd_end - initrd_start)) params ram"

definition setup_revision_tag :: "bd_info \<Rightarrow> nat \<Rightarrow> byte list \<Rightarrow> (nat \<times> byte list) option" where
  "setup_revision_tag b params ram = put_tag ATAG_REVISION (tag_size 4) (le32 (bi_board_revision b)) params ram"

definition setup_end_tag :: "nat \<Rightarrow> byte list \<Rightarrow> byte list option" where
  "setup_end_tag params ram = do {
     ram \<leftarrow> store (params + 4) (le32 ATAG_NONE) ram;
     store params (le32 0) ram }"

text \<open>Putting a tag in the state of the program.\<close>

definition world_tag :: "(nat \<Rightarrow> byte list \<Rightarrow> (nat \<times> byte list) option) \<Rightarrow> nat \<times> ('s, 'u, 'c) world
    \<Rightarrow> (nat \<times> ('s, 'u, 'c) world) option" where
  "world_tag f = (\<lambda>(params, w). do { (params, ram) \<leftarrow> f params (w_ram w); Some (params, w\<lparr>w_ram := ram\<rparr>) })"

definition setup_revision16_tag :: "('s, 'u, 'c, 'w) plat \<Rightarrow> nat \<times> ('s, 'u, 'c) world \<Rightarrow> (nat \<times> ('s, 'u, 'c) world) option" where
  "setup_revision16_tag p = (\<lambda>(params, w). do {
     (rev16, i, s) \<leftarrow> idme_get_board_id (p_dev p) (w_idme w) (w_dev w);
     body \<leftarrow> load 0 16 rev16;
     world_tag (put_tag ATAG_REVISION16 (tag_size 16) body) (params, w\<lparr>w_idme := i, w_dev := s\<rparr>) })"

definition setup_serial16_tag :: "('s, 'u, 'c, 'w) plat \<Rightarrow> nat \<times> ('s, 'u, 'c) world \<Rightarrow> (nat \<times> ('s, 'u, 'c) world) option" where
  "setup_serial16_tag p = (\<lambda>(params, w). do {
     (sn, i, s) \<leftarrow> idme_get_board_serial (p_dev p) (w_idme w) (w_dev w);
     body \<leftarrow> load 0 16 sn;
     world_tag (put_tag ATAG_SERIAL16 (tag_size 16) body) (params, w\<lparr>w_idme := i, w_dev := s\<rparr>) })"

text \<open>
  The last three tags read variables of the identity area into zeroed buffers of the variable's size and one byte; when one cannot be
  read, the tag is left out. \<open>get_vars\<close> is the sequence of these reads; its first result is \<^const>\<open>None\<close> when one fails.
\<close>

fun get_vars :: "('s, 'u, 'c, 'w) plat \<Rightarrow> (string \<times> nat) list \<Rightarrow> ('s, 'u, 'c) world
    \<Rightarrow> (byte list list option \<times> ('s, 'u, 'c) world) option" where
  "get_vars p [] w = Some (Some [], w)"
| "get_vars p ((name, n) # vs) w = do {
     (r, buf, i, s) \<leftarrow> idme_get_var (p_dev p) (bytes name) (replicate (n + 1) 0) (n + 1) (w_idme w) (w_dev w);
     let w = w\<lparr>w_idme := i, w_dev := s\<rparr>;
     if r \<noteq> 0 then Some (None, w) else do {
     (bs, w) \<leftarrow> get_vars p vs w;
     Some (map_option (\<lambda>bs. buf # bs) bs, w) } }"

definition setup_macaddr_tag :: "('s, 'u, 'c, 'w) plat \<Rightarrow> nat \<times> ('s, 'u, 'c) world \<Rightarrow> (nat \<times> ('s, 'u, 'c) world) option" where
  "setup_macaddr_tag p = (\<lambda>(params, w). do {
     (bs, w) \<leftarrow> get_vars p [(''mac'', 16), (''bt'', 16), (''sec'', 32)] w;
     case bs of
       Some [mac_buf, bt_mac_buf, sec_buf] \<Rightarrow>
         world_tag (put_tag ATAG_MACADDR (tag_size 64) (take 32 sec_buf @ take 16 mac_buf @ take 16 bt_mac_buf)) (params, w)
     | _ \<Rightarrow> Some (params, w) })"

definition setup_bootmode_tag :: "('s, 'u, 'c, 'w) plat \<Rightarrow> nat \<times> ('s, 'u, 'c) world \<Rightarrow> (nat \<times> ('s, 'u, 'c) world) option" where
  "setup_bootmode_tag p = (\<lambda>(params, w). do {
     (bs, w) \<leftarrow> get_vars p [(''bootmode'', 16), (''postmode'', 16)] w;
     case bs of
       Some [bootmode_buf, postmode_buf] \<Rightarrow>
         world_tag (put_tag ATAG_BOOTMODE (tag_size 32) (take 16 bootmode_buf @ take 16 postmode_buf)) (params, w)
     | _ \<Rightarrow> Some (params, w) })"

definition setup_gyrocal_tag :: "('s, 'u, 'c, 'w) plat \<Rightarrow> nat \<times> ('s, 'u, 'c) world \<Rightarrow> (nat \<times> ('s, 'u, 'c) world) option" where
  "setup_gyrocal_tag p = (\<lambda>(params, w). do {
     (bs, w) \<leftarrow> get_vars p [(''gyrocal'', 36)] w;
     case bs of
       Some [gyrocal_data_buf] \<Rightarrow> world_tag (put_tag ATAG_GYROCAL (tag_size 36) (take 36 gyrocal_data_buf)) (params, w)
     | _ \<Rightarrow> Some (params, w) })"

section \<open>The boot image header\<close>

text \<open>
  \<^verbatim>\<open>boot_img_hdr\<close> (\<^verbatim>\<open>include/bootimg.h\<close>) lies in the memory; \<open>h\<close> is its offset, and a field is read where the code reads it.
\<close>

definition hdr_word :: "nat \<Rightarrow> nat \<Rightarrow> byte list \<Rightarrow> u32 option" where
  "hdr_word off h ram = do { b \<leftarrow> load (h + off) 4 ram; Some (of_le b) }"

abbreviation "hdr_kernel_size \<equiv> hdr_word 8"
abbreviation "hdr_kernel_addr \<equiv> hdr_word 12"
abbreviation "hdr_ramdisk_size \<equiv> hdr_word 16"
abbreviation "hdr_ramdisk_addr \<equiv> hdr_word 20"
abbreviation "hdr_page_size \<equiv> hdr_word 36"

definition HDR_CMDLINE :: nat where "HDR_CMDLINE = 64"
definition HDR_SIZE :: nat where "HDR_SIZE = 608"
definition BOOT_MAGIC :: "byte list" where "BOOT_MAGIC = bytes ''ANDROID!''"

text \<open>
  \<^verbatim>\<open>do_booti_linux\<close>: the tags, the backlight's switch for recovery (its display registers are left out), and the jump, which leaves
  the program with the address of the kernel and its second and third argument.
\<close>

definition do_booti_linux :: "('s, 'u, 'c, 'w) plat \<Rightarrow> nat \<Rightarrow> ('s, 'u, 'c) world \<Rightarrow> (halt \<times> ('s, 'u, 'c) world) option" where
  "do_booti_linux p h w = do {
     let b = bd (w_env w);
     theKernel \<leftarrow> hdr_kernel_addr h (w_ram w);
     initrd_start \<leftarrow> hdr_ramdisk_addr h (w_ram w);
     n \<leftarrow> hdr_ramdisk_size h (w_ram w);
     let initrd_end = initrd_start + n;
     (params, ram) \<leftarrow> setup_start_tag b (w_ram w);
     let w = w\<lparr>w_ram := ram\<rparr>;
     (params, w) \<leftarrow> world_tag (setup_revision_tag b) (params, w);
     (params, w) \<leftarrow> setup_revision16_tag p (params, w);
     (params, w) \<leftarrow> setup_serial16_tag p (params, w);
     (params, w) \<leftarrow> setup_macaddr_tag p (params, w);
     (params, w) \<leftarrow> setup_bootmode_tag p (params, w);
     (params, w) \<leftarrow> setup_gyrocal_tag p (params, w);
     (params, w) \<leftarrow> world_tag (setup_memory_tags b) (params, w);
     (params, w) \<leftarrow> world_tag (setup_commandline_tag (h + HDR_CMDLINE)) (params, w);
     n \<leftarrow> hdr_ramdisk_size h (w_ram w);
     (params, w) \<leftarrow> (if n \<noteq> 0 then world_tag (setup_initrd_tag initrd_start initrd_end) (params, w) else Some (params, w));
     ram \<leftarrow> setup_end_tag params (w_ram w);
     Some (Kernel theKernel (bi_arch_number b) (bi_boot_params b), w\<lparr>w_ram := ram, w_is_recovery_mode := False\<rparr>) }"

section \<open>Walking the list\<close>

function for_each_tag :: "byte list \<Rightarrow> nat \<Rightarrow> (u32 \<times> byte list) list option" where
  "for_each_tag ram t = do {
     sz \<leftarrow> hdr_word 0 t ram;
     if sz = 0 then Some [] else do {
     tag \<leftarrow> hdr_word 4 t ram;
     body \<leftarrow> load (t + 8) (4 * unat sz - 8) ram;
     rest \<leftarrow> for_each_tag ram (t + 4 * unat sz);
     Some ((tag, body) # rest) } }"
  by pat_completeness auto
termination
proof (relation "measure (\<lambda>(ram, t). length ram - t)"; clarsimp simp: hdr_word_def)
  fix ram :: "byte list" and t
  assume a: "of_le (bslice t 4 ram) \<noteq> (0 :: u32)" "t + 8 + (4 * unat (of_le (bslice t 4 ram) :: u32) - 8) \<le> length ram"
  then have "0 < unat (of_le (bslice t 4 ram) :: u32)" by (simp add: unat_gt_0)
  then show "length ram - (t + 4 * unat (of_le (bslice t 4 ram) :: u32)) < length ram - t" using a(2) by linarith
qed

declare for_each_tag.simps [simp del]

text \<open>The tags \<open>ts\<close> lie one behind the other from \<open>b\<close> to \<open>e\<close>.\<close>

fun chain :: "byte list \<Rightarrow> nat \<Rightarrow> (u32 \<times> byte list) list \<Rightarrow> nat \<Rightarrow> bool" where
  "chain ram b [] e \<longleftrightarrow> b = e"
| "chain ram b ((t, p) # ts) e \<longleftrightarrow> (\<exists>n. 2 \<le> n \<and> n < 2 ^ 32 \<and> length p = 4 * n - 8 \<and> b + 4 * n \<le> length ram
     \<and> bslice b 4 ram = le32 (of_nat n) \<and> bslice (b + 4) 4 ram = le32 t \<and> bslice (b + 8) (4 * n - 8) ram = p
     \<and> chain ram (b + 4 * n) ts e)"

lemma chain_le: "chain ram b ts e \<Longrightarrow> b \<le> e"
  by (induction ts arbitrary: b) (auto, force)

lemma chain_walk: "chain ram b ts e \<Longrightarrow> hdr_word 0 e ram = Some 0 \<Longrightarrow> for_each_tag ram b = Some ts"
proof (induction ts arbitrary: b)
  case (Cons t ts)
  obtain k q where t: "t = (k, q)" by (cases t)
  obtain n where n: "2 \<le> n" "n < 2 ^ 32" "length q = 4 * n - 8" "b + 4 * n \<le> length ram" "bslice b 4 ram = le32 (of_nat n)"
      "bslice (b + 4) 4 ram = le32 k" "bslice (b + 8) (4 * n - 8) ram = q" "chain ram (b + 4 * n) ts e"
    using Cons.prems(1) unfolding t by auto
  have u: "unat (of_nat n :: u32) = n" using n(2) by (rule unat_of_nat32)
  then have "(of_nat n :: u32) \<noteq> 0" using n(1) by (metis unat_0 not_numeral_le_zero)
  then show ?case using n u Cons.IH[OF n(8) Cons.prems(2)] unfolding t
    by (subst for_each_tag.simps) (simp add: hdr_word_def)
qed (simp add: for_each_tag.simps)

text \<open>What lies outside the list does not matter, and a tag put at its end extends it.\<close>

lemma chain_frame:
  assumes "chain ram b ts e" and "length ram' = length ram" and "\<And>i. b \<le> i \<Longrightarrow> i < e \<Longrightarrow> ram' ! i = ram ! i"
  shows "chain ram' b ts e"
  using assms(1,3)
proof (induction ts arbitrary: b)
  case (Cons t ts)
  obtain k q where t: "t = (k, q)" by (cases t)
  obtain n where n: "2 \<le> n" "n < 2 ^ 32" "length q = 4 * n - 8" "b + 4 * n \<le> length ram" "bslice b 4 ram = le32 (of_nat n)"
      "bslice (b + 4) 4 ram = le32 k" "bslice (b + 8) (4 * n - 8) ram = q" "chain ram (b + 4 * n) ts e"
    using Cons.prems(1) unfolding t by auto
  have le: "b + 4 * n \<le> e" by (rule chain_le[OF n(8)])
  have same: "bslice a m ram' = bslice a m ram" if "b \<le> a" "a + m \<le> b + 4 * n" for a m
    using that n(4) assms(2) le Cons.prems(2) by (intro nth_equalityI) (auto simp: nth_bslice)
  have "chain ram' (b + 4 * n) ts e" using n(8) by (rule Cons.IH) (use Cons.prems(2) in auto)
  then show ?case unfolding t using n assms(2) same[of b 4] same[of "b + 4" 4] same[of "b + 8" "4 * n - 8"] by auto
qed simp

lemma chain_append: "chain ram b xs m \<Longrightarrow> chain ram m ys e \<Longrightarrow> chain ram b (xs @ ys) e"
proof (induction xs arbitrary: b)
  case (Cons t xs)
  then show ?case by (cases t) auto
qed simp

lemma put_tag_ok:
  assumes c: "chain ram b ts params" and sz: "2 \<le> sz" and body: "8 + length body \<le> 4 * unat sz" and room: "params + 4 * unat sz \<le> length ram"
  shows "\<exists>ram' pl. put_tag tag sz body params ram = Some (params + 4 * unat sz, ram') \<and> length ram' = length ram
    \<and> chain ram' b (ts @ [(tag, pl)]) (params + 4 * unat sz) \<and> length pl = 4 * unat sz - 8 \<and> take (length body) pl = body
    \<and> (\<forall>i. i < params \<or> params + 4 * unat sz \<le> i \<longrightarrow> i < length ram \<longrightarrow> ram' ! i = ram ! i)"
proof -
  have n: "2 \<le> unat sz" "unat sz < 2 ^ 32" using sz unsigned_less[of sz, where 'a = nat] by (simp_all add: word_le_nat_alt)
  let ?r1 = "patch (params + 4) (le32 tag) ram"
  let ?r2 = "patch params (le32 sz) ?r1"
  let ?r3 = "patch (params + 8) body ?r2"
  have l: "length ?r1 = length ram" "length ?r2 = length ram" "length ?r3 = length ram" using room body by simp_all
  have s: "bslice params 4 ?r3 = le32 sz" "bslice (params + 4) 4 ?r3 = le32 tag"
    using room body bslice_patch_same[of params "le32 sz" ?r1] bslice_patch_same[of "params + 4" "le32 tag" ram]
    by (simp_all add: bslice_patch_disjoint)
  define pl where "pl = bslice (params + 8) (4 * unat sz - 8) ?r3"
  have lpl: "length pl = 4 * unat sz - 8" unfolding pl_def using room n l by (intro length_bslice) simp
  have "take (length body) pl = bslice (params + 8) (length body) ?r3"
    using body by (simp add: pl_def bslice_def)
  also have "\<dots> = body" using room body l by (intro bslice_patch_same) simp_all
  finally have tk: "take (length body) pl = body" .
  have "put_tag tag sz body params ram = Some (params + 4 * unat sz, ?r3)"
    using room body l s(1) by (simp add: put_tag_def tag_next_def)
  moreover have fr: "?r3 ! i = ram ! i" if "i < params \<or> params + 4 * unat sz \<le> i" "i < length ram" for i
    using that room body n l by (auto simp: nth_patch)
  moreover have "chain ?r3 b (ts @ [(tag, pl)]) (params + 4 * unat sz)"
  proof (rule chain_append)
    show "chain ?r3 b ts params" using c by (rule chain_frame) (use l fr room in auto)
    show "chain ?r3 params [(tag, pl)] (params + 4 * unat sz)"
      using n lpl s room l by (auto simp: pl_def intro!: exI[of _ "unat sz"])
  qed
  ultimately show ?thesis using l lpl tk by blast
qed

end
