(* ===== verification/Booti.thy ===== *)
theory Booti
  imports Atag Usb
begin

text \<open>
  The \<^verbatim>\<open>booti\<close> command (\<^verbatim>\<open>common/cmd_bootm.c\<close>, with \<^verbatim>\<open>SIGNATURE_BYPASS\<close>): it lets the identity area choose the
  partition, gives a host on the USB cable a moment for fastboot, loads kernel and ram disk of an Android boot image from the eMMC or from
  the memory, and starts the kernel. When the image is missing or bad it enters fastboot.

  The image header stays in the memory, and its fields are read where the code reads them, so that an image that is loaded over
  its own header acts as it does in the code. Addresses below the memory belong to no object (\<^const>\<open>None\<close>).

  \<open>junk\<close> is the value of the variable \<^verbatim>\<open>val\<close> that \<^verbatim>\<open>do_fastboot\<close> reads without setting it (see \<open>Usb\<close>); \<open>junk_hdr\<close> is the address
  the variable \<^verbatim>\<open>hdr\<close> of \<^verbatim>\<open>do_booti\<close> holds by chance, through which the branch for an image in the memory copies.
\<close>

definition KERNEL_PHY_LOAD_ADDRESS :: u32 where "KERNEL_PHY_LOAD_ADDRESS = 0x80008000"

definition ALIGN :: "u32 \<Rightarrow> u32 \<Rightarrow> u32" where
  "ALIGN n pagesz = (n + (pagesz - 1)) AND NOT (pagesz - 1)"

definition bad_magic :: "nat \<Rightarrow> byte list \<Rightarrow> bool option" where
  "bad_magic h ram = do { m \<leftarrow> load h 8 ram; Some (m \<noteq> BOOT_MAGIC) }"

text \<open>Reading a part of the image to the address the header gives; \<open>Inl\<close> is a failed read.\<close>

definition load_part :: "('s, 'u, 'c, 'w) plat \<Rightarrow> nat \<Rightarrow> u32 \<Rightarrow> u32 \<Rightarrow> u32 \<Rightarrow> ('s, 'u, 'c) world
    \<Rightarrow> ((unit, unit) sum \<times> ('s, 'u, 'c) world) option" where
  "load_part p mmcc sector addr n w = do {
     a \<leftarrow> ram_off addr;
     (r, ram, s) \<leftarrow> op_read (p_dev p) (w_dev w) mmcc sector (w_ram w) a n;
     Some (if r \<noteq> 1 then Inl () else Inr (), w\<lparr>w_dev := s, w_ram := ram\<rparr>) }"

text \<open>The branch for an image on the eMMC; \<open>Inr\<close> is the offset of the header.\<close>

definition booti_mmc :: "('s, 'u, 'c, 'w) plat \<Rightarrow> nat \<Rightarrow> byte list \<Rightarrow> ('s, 'u, 'c) world
    \<Rightarrow> ((unit, nat) sum \<times> ('s, 'u, 'c) world) option" where
  "booti_mmc p mmcc ptn w =
     (case find_ptn w ptn of
        None \<Rightarrow> Some (Inl (), w)
      | Some pte \<Rightarrow> do {
          (r, s) \<leftarrow> op_init (p_dev p) (w_dev w) mmcc;
          let w = w\<lparr>w_dev := s\<rparr>;
          if r \<noteq> 0 then Some (Inl (), w) else do {
          let la = KERNEL_PHY_LOAD_ADDRESS - CFG_FASTBOOT_MKBOOTIMAGE_PAGE_SIZE;
          let w = w\<lparr>w_env := (w_env w)\<lparr>load_addr := la\<rparr>\<rparr>;
          (r, w) \<leftarrow> load_part p mmcc (pt_start pte + 2) la CFG_FASTBOOT_MKBOOTIMAGE_PAGE_SIZE w;
          if r = Inl () then Some (Inl (), w) else do {
          h \<leftarrow> ram_off la;
          bad \<leftarrow> bad_magic h (w_ram w);
          if bad then Some (Inl (), w) else do {
          pagesz \<leftarrow> hdr_page_size h (w_ram w);
          ka \<leftarrow> hdr_kernel_addr h (w_ram w);
          ks \<leftarrow> hdr_kernel_size h (w_ram w);
          let sector = pt_start pte + 2 + pagesz div 512;
          (r, w) \<leftarrow> load_part p mmcc sector ka ks w;
          if r = Inl () then Some (Inl (), w) else do {
          pagesz \<leftarrow> hdr_page_size h (w_ram w);
          ks \<leftarrow> hdr_kernel_size h (w_ram w);
          ra \<leftarrow> hdr_ramdisk_addr h (w_ram w);
          rs \<leftarrow> hdr_ramdisk_size h (w_ram w);
          let sector = sector + ALIGN ks pagesz div 512;
          (r, w) \<leftarrow> load_part p mmcc sector ra rs w;
          Some (if r = Inl () then Inl () else Inr h, w) } } } } })"

text \<open>\<^verbatim>\<open>memmove\<close> between two addresses of the memory.\<close>

definition move_part :: "u32 \<Rightarrow> u32 \<Rightarrow> u32 \<Rightarrow> byte list \<Rightarrow> byte list option" where
  "move_part dst src n ram = do {
     d \<leftarrow> ram_off dst;
     a \<leftarrow> ram_off src;
     bs \<leftarrow> load a (unat n) ram;
     store d bs ram }"

text \<open>The branch for an image in the memory; \<open>Inl\<close> is the early return.\<close>

definition booti_mem :: "u32 \<Rightarrow> u32 \<Rightarrow> ('s, 'u, 'c) world \<Rightarrow> ((unit, nat) sum \<times> ('s, 'u, 'c) world) option" where
  "booti_mem junk_hdr addr w = do {
     h \<leftarrow> ram_off junk_hdr;
     a \<leftarrow> ram_off addr;
     bs \<leftarrow> load a HDR_SIZE (w_ram w);
     ram \<leftarrow> store h bs (w_ram w);
     let w = w\<lparr>w_ram := ram\<rparr>;
     bad \<leftarrow> bad_magic h ram;
     if bad then Some (Inl (), w) else do {
     pagesz \<leftarrow> hdr_page_size h ram;
     ks \<leftarrow> hdr_kernel_size h ram;
     ka \<leftarrow> hdr_kernel_addr h ram;
     let kaddr = addr + pagesz;
     let raddr = kaddr + ALIGN ks pagesz;
     ram \<leftarrow> move_part ka kaddr ks ram;
     ra \<leftarrow> hdr_ramdisk_addr h ram;
     rs \<leftarrow> hdr_ramdisk_size h ram;
     ram \<leftarrow> move_part ra raddr rs ram;
     Some (Inr h, w\<lparr>w_ram := ram\<rparr>) } }"

definition mmc_arg :: "byte list \<Rightarrow> nat option" where
  "mmc_arg a = (if strcmp_s a (bytes ''mmc0'') = 0 then Some 0 else if strcmp_s a (bytes ''mmc1'') = 0 then Some 1 else None)"

definition do_booti :: "('s, 'h usb, 'c, ('s, 'h usb, 'c) world) plat \<Rightarrow> 'h usb_hw \<Rightarrow> int \<Rightarrow> u32 \<Rightarrow> byte list list
    \<Rightarrow> ('s, 'h usb, 'c) world \<Rightarrow> (ret \<times> ('s, 'h usb, 'c) world) option" where
  "do_booti p c junk junk_hdr argv w = do {
     (_, ptn, i, s) \<leftarrow> idme_select_boot_image (p_slack p) (p_dev p) (p_gpio p) (bytes ''boot'') (w_idme w) (w_dev w);
     let w = w\<lparr>w_idme := i, w_dev := s\<rparr>;
     (x, w) \<leftarrow> (if w_gnUSBAttached w then do_fastboot p c junk 3 w else Some (Ret 0, w));
     case x of
       Halt h \<Rightarrow> Some (Halt h, w)
     | Ret _ \<Rightarrow>
         if length argv < 2 then Some (Ret (-1), w) else do {
         let ptn = (if length argv > 2 then argv ! 2 else ptn);
         (img, w) \<leftarrow> (case mmc_arg (argv ! 1) of
             Some mmcc \<Rightarrow> booti_mmc p mmcc ptn w
           | None \<Rightarrow> booti_mem junk_hdr (fst (simple_strtoul (argv ! 1) 16)) w);
         case img of
           Inl _ \<Rightarrow> if mmc_arg (argv ! 1) = None then Some (Ret 1, w) else do_fastboot p c junk 0 w
         | Inr h \<Rightarrow> do { (k, w) \<leftarrow> do_booti_linux p h w; Some (Halt k, w) } } }"

end
