(* ===== verification/BootiOk.thy ===== *)
theory BootiOk
  imports Booti IdmeStore
begin

text \<open>
  Booting from the eMMC, for any block device: the tag list \<^verbatim>\<open>do_booti_linux\<close> writes, and the memory \<^verbatim>\<open>booti mmc1\<close> leaves to the
  kernel.
\<close>

section \<open>Reading the identity area for the tags\<close>

lemma is_valid_board_info_True [simp]: "is_valid_board_info b"
proof (induction b rule: is_valid_board_info.induct)
  case (2 c cs)
  have "\<not> (c < 0x30 \<and> 0x39 < c)" by (simp add: word_less_nat_alt)
  with 2 show ?case by auto
qed simp

definition var :: "string \<Rightarrow> byte list \<Rightarrow> byte list" where
  "var name A = (case idme_find_var (bytes name) of Some nv \<Rightarrow> var_at nv A | None \<Rightarrow> [])"

text \<open>The variables that lie inside a block, with their sizes.\<close>

definition tag_vars :: "(string \<times> nat) list" where
  "tag_vars = [(''boardid'', 16), (''serial'', 16), (''mac'', 16), (''bt'', 16), (''sec'', 32), (''bootmode'', 16),
     (''postmode'', 16), (''gyrocal'', 36)]"

lemma tag_vars_ok: "(n, k) \<in> set tag_vars \<Longrightarrow> \<exists>nv. idme_find_var (bytes n) = Some nv \<and> nv \<in> set nvram_info \<and> in_block nv \<and> nv_size nv = k"
  unfolding tag_vars_def
  by (auto simp: nvram_info_def idme_find_var_find in_block_def IDME_BASE_ADDR_def)

lemma length_var: "(n, k) \<in> set tag_vars \<Longrightarrow> length A = CONFIG_IDME_SIZE \<Longrightarrow> length (var n A) = k"
  using tag_vars_ok[of n k] nvram_range by (fastforce simp: var_def var_at_def)

text \<open>
  The list the kernel is to find: \<open>bi\<close> is the board information, \<open>A\<close> the identity area, \<open>cmd\<close> the body of the command line
  tag (empty when there is none), then the address and the size of the ram disk.
\<close>

definition boot_tags :: "bd_info \<Rightarrow> byte list \<Rightarrow> byte list \<Rightarrow> u32 \<Rightarrow> u32 \<Rightarrow> (u32 \<times> byte list) list" where
  "boot_tags bi A cmd ra rs =
     [(ATAG_CORE, le32 0 @ le32 0 @ le32 0), (ATAG_REVISION, le32 (bi_board_revision bi)),
      (ATAG_REVISION16, var ''boardid'' A), (ATAG_SERIAL16, var ''serial'' A),
      (ATAG_MACADDR, var ''sec'' A @ var ''mac'' A @ var ''bt'' A), (ATAG_BOOTMODE, var ''bootmode'' A @ var ''postmode'' A),
      (ATAG_GYROCAL, var ''gyrocal'' A), (ATAG_MEM, le32 (snd (hd (bi_dram bi))) @ le32 (fst (hd (bi_dram bi))))]
     @ (if cmd = [] then [] else [(ATAG_CMDLINE, cmd)])
     @ (if rs = 0 then [] else [(ATAG_INITRD2, le32 ra @ le32 rs)])"

lemma boot_tags_cmd: "boot_tags bi A [] 0 0 @ (if cmd = [] then [] else [(ATAG_CMDLINE, cmd)]) = boot_tags bi A cmd 0 0"
  "boot_tags bi A cmd 0 0 @ (if rs = 0 then [] else [(ATAG_INITRD2, le32 ra @ le32 rs)]) = boot_tags bi A cmd ra rs"
  by (simp_all add: boot_tags_def)

context block_device
begin

lemma get_var_tag:
  assumes "inv s" "32 \<le> cap" "(n, k) \<in> set tag_vars" "length (gblock_buff i) = 512" "length buf = k + 1"
  shows "\<exists>i' s'. idme_get_var dev (bytes n) buf (k + 1) i s = Some (0, var n (idme_area (sect s 1) 0) @ [0], i', s')
    \<and> same_idme i i' \<and> inv s' \<and> part s' = 0 \<and> sect s' = sect s"
proof -
  obtain nv where nv: "idme_find_var (bytes n) = Some nv" "nv \<in> set nvram_info" "in_block nv" "nv_size nv = k"
    using tag_vars_ok[OF assms(3)] by blast
  then show ?thesis
    using idme_get_var_ok[OF assms(1,2) nv(1-3) assms(4), of buf] assms(5) by (fastforce simp: var_def)
qed

text \<open>What the tags need of the device and of the driver's buffers; the sectors are \<open>S\<close>.\<close>

definition idle :: "(nat \<Rightarrow> nat \<Rightarrow> byte list) \<Rightarrow> ('s, 'u, 'c) world \<Rightarrow> bool" where
  "idle S w \<longleftrightarrow> inv (w_dev w) \<and> part (w_dev w) = 0 \<and> sect (w_dev w) = S \<and> length (gblock_buff (w_idme w)) = 512
     \<and> length (board_id (w_idme w)) = 17 \<and> length (board_serial (w_idme w)) = 17"

lemma get_vars_ok:
  assumes "p_dev p = dev" "32 \<le> cap" "set vs \<subseteq> set tag_vars" "idle S w"
  shows "\<exists>i s. get_vars p vs w = Some (Some (map (\<lambda>(n, k). var n (idme_area (S 1) 0) @ [0]) vs), w\<lparr>w_idme := i, w_dev := s\<rparr>)
    \<and> idle S (w\<lparr>w_idme := i, w_dev := s\<rparr>)"
  using assms(3,4)
proof (induction vs arbitrary: w)
  case Nil
  have "w = w\<lparr>w_idme := w_idme w, w_dev := w_dev w\<rparr>" by simp
  with Nil show ?case by (metis get_vars.simps(1) list.simps(8))
next
  case (Cons v vs)
  obtain n k where v: "v = (n, k)" by (cases v)
  have w: "inv (w_dev w)" "sect (w_dev w) = S" "length (gblock_buff (w_idme w)) = 512" using Cons.prems by (auto simp: idle_def)
  obtain i s where st: "idme_get_var dev (bytes n) (replicate (k + 1) 0) (k + 1) (w_idme w) (w_dev w)
      = Some (0, var n (idme_area (S 1) 0) @ [0], i, s)" "same_idme (w_idme w) i" "inv s" "part s = 0" "sect s = S"
    using get_var_tag[OF w(1) assms(2) _ w(3), of n k "replicate (k + 1) 0"] Cons.prems(1) w(2) v by auto
  then have "idle S (w\<lparr>w_idme := i, w_dev := s\<rparr>)" using Cons.prems(2) by (auto simp: idle_def same_idme_def)
  from Cons.IH[OF _ this] obtain i' s' where
      r: "get_vars p vs (w\<lparr>w_idme := i, w_dev := s\<rparr>)
        = Some (Some (map (\<lambda>(n, k). var n (idme_area (S 1) 0) @ [0]) vs), w\<lparr>w_idme := i', w_dev := s'\<rparr>)"
      "idle S (w\<lparr>w_idme := i', w_dev := s'\<rparr>)"
    using Cons.prems(1) by auto
  then show ?case using st(1) assms(1) unfolding v by (intro exI[of _ i'] exI[of _ s']) (simp add: Let_def del: replicate_Suc)
qed

lemma get_board_info_ok:
  assumes "inv s" "32 \<le> cap" "(n, 16) \<in> set tag_vars" "length (gblock_buff i) = 512" "length b = 17"
  shows "\<exists>i' s'. get_board_info dev n b i s = Some (var n (idme_area (sect s 1) 0) @ [0], i', s')
    \<and> same_idme i i' \<and> inv s' \<and> part s' = 0 \<and> sect s' = sect s"
proof -
  have b: "store 0 (replicate 17 0) b = Some (replicate 17 0)" using assms(5) by (simp add: patch_def)
  obtain i' s' where r: "idme_get_var dev (bytes n) (replicate 17 0) (16 + 1) i s = Some (0, var n (idme_area (sect s 1) 0) @ [0], i', s')"
      "same_idme i i'" "inv s'" "part s' = 0" "sect s' = sect s"
    using get_var_tag[OF assms(1-4), of "replicate 17 0"] by auto
  have "length (var n (idme_area (sect s 1) 0)) = 16"
    using length_var[OF assms(3)] length_idme_area[OF inv_pre[OF assms(1)], of 1 0] by simp
  then have "store 16 [0] (var n (idme_area (sect s 1) 0) @ [0]) = Some (var n (idme_area (sect s 1) 0) @ [0])"
    by (simp add: patch_def)
  then show ?thesis using b r by (auto simp: get_board_info_def)
qed

section \<open>The tags\<close>

text \<open>From \<open>b\<close> to \<open>e\<close> the memory holds the tags \<open>ts\<close>; elsewhere it is the memory of \<open>w0\<close>.\<close>

definition tagged :: "(nat \<Rightarrow> nat \<Rightarrow> byte list) \<Rightarrow> ('s, 'u, 'c) world \<Rightarrow> nat \<Rightarrow> (u32 \<times> byte list) list \<Rightarrow> nat \<Rightarrow> ('s, 'u, 'c) world \<Rightarrow> bool" where
  "tagged S w0 b ts e w \<longleftrightarrow> chain (w_ram w) b ts e \<and> length (w_ram w) = length (w_ram w0)
     \<and> (\<forall>i. i < b \<or> e \<le> i \<longrightarrow> i < length (w_ram w0) \<longrightarrow> w_ram w ! i = w_ram w0 ! i) \<and> idle S w \<and> w_env w = w_env w0"

lemma tag_step_gen:
  assumes t: "tagged S w0 b ts e w" and body: "8 + length body \<le> 4 * unat sz" and room: "e + 4 * unat sz \<le> length (w_ram w0)"
  shows "\<exists>ram pl. world_tag (put_tag tag sz body) (e, w) = Some (e + 4 * unat sz, w\<lparr>w_ram := ram\<rparr>) \<and> length pl = 4 * unat sz - 8
    \<and> take (length body) pl = body \<and> tagged S w0 b (ts @ [(tag, pl)]) (e + 4 * unat sz) (w\<lparr>w_ram := ram\<rparr>)"
proof -
  have c: "chain (w_ram w) b ts e" "length (w_ram w) = length (w_ram w0)" using t by (simp_all add: tagged_def)
  have "2 \<le> sz" using body by (simp add: word_le_nat_alt)
  then obtain ram pl where r: "put_tag tag sz body e (w_ram w) = Some (e + 4 * unat sz, ram)" "length ram = length (w_ram w)"
      "chain ram b (ts @ [(tag, pl)]) (e + 4 * unat sz)" "length pl = 4 * unat sz - 8" "take (length body) pl = body"
      "\<forall>i. i < e \<or> e + 4 * unat sz \<le> i \<longrightarrow> i < length (w_ram w) \<longrightarrow> ram ! i = w_ram w ! i"
    using put_tag_ok[OF c(1) _ body, of tag] room c(2) by auto
  have "b \<le> e" by (rule chain_le[OF c(1)])
  then have "tagged S w0 b (ts @ [(tag, pl)]) (e + 4 * unat sz) (w\<lparr>w_ram := ram\<rparr>)"
    using t r by (auto simp: tagged_def idle_def)
  then show ?thesis using r by (auto simp: world_tag_def)
qed

lemma tag_step:
  assumes "tagged S w0 b ts e w" and "unat sz = (8 + length body) div 4" "length body mod 4 = 0" and "e + (8 + length body) \<le> length (w_ram w0)"
  shows "\<exists>ram. world_tag (put_tag tag sz body) (e, w) = Some (e + (8 + length body), w\<lparr>w_ram := ram\<rparr>)
    \<and> tagged S w0 b (ts @ [(tag, body)]) (e + (8 + length body)) (w\<lparr>w_ram := ram\<rparr>)"
proof -
  have "4 * unat sz = 8 + length body" using assms(2,3) by presburger
  then show ?thesis using tag_step_gen[OF assms(1), of body sz tag] assms(4) by fastforce
qed

lemma tagged_idme: "tagged S w0 b ts e w \<Longrightarrow> idle S (w\<lparr>w_idme := i, w_dev := s\<rparr>) \<Longrightarrow> tagged S w0 b ts e (w\<lparr>w_idme := i, w_dev := s\<rparr>)"
  by (simp add: tagged_def)

lemma tag_size_vals: "unat (tag_size 12) = 5" "unat (tag_size 4) = 3" "unat (tag_size 8) = 4" "unat (tag_size 16) = 6"
  "unat (tag_size 32) = 10" "unat (tag_size 36) = 11" "unat (tag_size 64) = 18"
  by (simp_all add: tag_size_def)

lemma area_length: "idle S w \<Longrightarrow> length (idme_area (S 1) 0) = CONFIG_IDME_SIZE"
  using length_idme_area[OF inv_pre, of "w_dev w" 1 0] by (auto simp: idle_def)

lemma revision16_step:
  assumes "p_dev p = dev" "32 \<le> cap" and t: "tagged S w0 b ts e w" and room: "e + 24 \<le> length (w_ram w0)"
  shows "\<exists>w'. setup_revision16_tag p (e, w) = Some (e + 24, w')
    \<and> tagged S w0 b (ts @ [(ATAG_REVISION16, var ''boardid'' (idme_area (S 1) 0))]) (e + 24) w'"
proof -
  have w: "idle S w" using t by (simp add: tagged_def)
  let ?v = "var ''boardid'' (idme_area (S 1) 0)"
  have l: "length ?v = 16" using area_length[OF w] by (intro length_var) (simp_all add: tag_vars_def)
  obtain i s where r: "get_board_info dev ''boardid'' (board_id (w_idme w)) (w_idme w) (w_dev w) = Some (?v @ [0], i, s)"
      "same_idme (w_idme w) i" "inv s" "part s = 0" "sect s = S"
    using get_board_info_ok[of "w_dev w" "''boardid''" "w_idme w" "board_id (w_idme w)"] w assms(2) by (auto simp: idle_def tag_vars_def)
  let ?w = "w\<lparr>w_idme := i\<lparr>board_id := ?v @ [0]\<rparr>, w_dev := s\<rparr>"
  have "tagged S w0 b ts e ?w" using t r w l by (intro tagged_idme) (auto simp: idle_def same_idme_def)
  from tag_step[OF this, of "tag_size 16" ?v ATAG_REVISION16] show ?thesis
    using r l room assms(1) by (auto simp: setup_revision16_tag_def idme_get_board_id_def tag_size_vals bslice_append1)
qed

lemma serial16_step:
  assumes "p_dev p = dev" "32 \<le> cap" and t: "tagged S w0 b ts e w" and room: "e + 24 \<le> length (w_ram w0)"
  shows "\<exists>w'. setup_serial16_tag p (e, w) = Some (e + 24, w')
    \<and> tagged S w0 b (ts @ [(ATAG_SERIAL16, var ''serial'' (idme_area (S 1) 0))]) (e + 24) w'"
proof -
  have w: "idle S w" using t by (simp add: tagged_def)
  let ?v = "var ''serial'' (idme_area (S 1) 0)"
  have l: "length ?v = 16" using area_length[OF w] by (intro length_var) (simp_all add: tag_vars_def)
  obtain i s where r: "get_board_info dev ''serial'' (board_serial (w_idme w)) (w_idme w) (w_dev w) = Some (?v @ [0], i, s)"
      "same_idme (w_idme w) i" "inv s" "part s = 0" "sect s = S"
    using get_board_info_ok[of "w_dev w" "''serial''" "w_idme w" "board_serial (w_idme w)"] w assms(2) by (auto simp: idle_def tag_vars_def)
  let ?w = "w\<lparr>w_idme := i\<lparr>board_serial := ?v @ [0]\<rparr>, w_dev := s\<rparr>"
  have "tagged S w0 b ts e ?w" using t r w l by (intro tagged_idme) (auto simp: idle_def same_idme_def)
  from tag_step[OF this, of "tag_size 16" ?v ATAG_SERIAL16] show ?thesis
    using r l room assms(1) by (auto simp: setup_serial16_tag_def idme_get_board_serial_def tag_size_vals bslice_append1)
qed

text \<open>The three tags made of variables.\<close>

lemma vars_step:
  assumes "p_dev p = dev" "32 \<le> cap" and t: "tagged S w0 b ts e w" and vs: "set vs \<subseteq> set tag_vars"
    and body: "length body = 4 * n" "unat sz = 2 + n" and room: "e + (8 + 4 * n) \<le> length (w_ram w0)"
  shows "\<exists>w' w''. get_vars p vs w = Some (Some (map (\<lambda>(n, k). var n (idme_area (S 1) 0) @ [0]) vs), w')
    \<and> world_tag (put_tag tag sz body) (e, w') = Some (e + (8 + 4 * n), w'') \<and> tagged S w0 b (ts @ [(tag, body)]) (e + (8 + 4 * n)) w''"
proof -
  have w: "idle S w" using t by (simp add: tagged_def)
  obtain i s where r: "get_vars p vs w = Some (Some (map (\<lambda>(n, k). var n (idme_area (S 1) 0) @ [0]) vs), w\<lparr>w_idme := i, w_dev := s\<rparr>)"
      "idle S (w\<lparr>w_idme := i, w_dev := s\<rparr>)"
    using get_vars_ok[OF assms(1,2) vs w] by auto
  show ?thesis using tag_step[OF tagged_idme[OF t r(2)], of sz body tag] r(1) body room by auto
qed

lemma macaddr_step:
  assumes "p_dev p = dev" "32 \<le> cap" and t: "tagged S w0 b ts e w" and room: "e + 72 \<le> length (w_ram w0)"
  defines "A \<equiv> idme_area (S 1) 0"
  shows "\<exists>w'. setup_macaddr_tag p (e, w) = Some (e + 72, w')
    \<and> tagged S w0 b (ts @ [(ATAG_MACADDR, var ''sec'' A @ var ''mac'' A @ var ''bt'' A)]) (e + 72) w'"
proof -
  have "length A = CONFIG_IDME_SIZE" using t area_length by (auto simp: A_def tagged_def)
  then have l: "length (var ''sec'' A) = 32" "length (var ''mac'' A) = 16" "length (var ''bt'' A) = 16"
    by (auto intro!: length_var simp: tag_vars_def)
  show ?thesis
    using vars_step[OF assms(1-3), folded A_def, of "[(''mac'', 16), (''bt'', 16), (''sec'', 32)]" "var ''sec'' A @ var ''mac'' A @ var ''bt'' A" 16
        "tag_size 64" ATAG_MACADDR] room l
    by (auto simp: setup_macaddr_tag_def tag_size_vals tag_vars_def simp del: get_vars.simps)
qed

lemma bootmode_step:
  assumes "p_dev p = dev" "32 \<le> cap" and t: "tagged S w0 b ts e w" and room: "e + 40 \<le> length (w_ram w0)"
  defines "A \<equiv> idme_area (S 1) 0"
  shows "\<exists>w'. setup_bootmode_tag p (e, w) = Some (e + 40, w')
    \<and> tagged S w0 b (ts @ [(ATAG_BOOTMODE, var ''bootmode'' A @ var ''postmode'' A)]) (e + 40) w'"
proof -
  have "length A = CONFIG_IDME_SIZE" using t area_length by (auto simp: A_def tagged_def)
  then have l: "length (var ''bootmode'' A) = 16" "length (var ''postmode'' A) = 16" by (auto intro!: length_var simp: tag_vars_def)
  show ?thesis
    using vars_step[OF assms(1-3), folded A_def, of "[(''bootmode'', 16), (''postmode'', 16)]" "var ''bootmode'' A @ var ''postmode'' A" 8 "tag_size 32"
        ATAG_BOOTMODE] room l
    by (auto simp: setup_bootmode_tag_def tag_size_vals tag_vars_def simp del: get_vars.simps)
qed

lemma gyrocal_step:
  assumes "p_dev p = dev" "32 \<le> cap" and t: "tagged S w0 b ts e w" and room: "e + 44 \<le> length (w_ram w0)"
  defines "A \<equiv> idme_area (S 1) 0"
  shows "\<exists>w'. setup_gyrocal_tag p (e, w) = Some (e + 44, w')
    \<and> tagged S w0 b (ts @ [(ATAG_GYROCAL, var ''gyrocal'' A)]) (e + 44) w'"
proof -
  have "length A = CONFIG_IDME_SIZE" using t area_length by (auto simp: A_def tagged_def)
  then have l: "length (var ''gyrocal'' A) = 36" by (auto intro!: length_var simp: tag_vars_def)
  show ?thesis
    using vars_step[OF assms(1-3), folded A_def, of "[(''gyrocal'', 36)]" "var ''gyrocal'' A" 9 "tag_size 36" ATAG_GYROCAL] room l
    by (auto simp: setup_gyrocal_tag_def tag_size_vals tag_vars_def simp del: get_vars.simps)
qed

lemma tagged_drop: "tagged S w0 b ts e w \<Longrightarrow> e \<le> k \<Longrightarrow> drop k (w_ram w) = drop k (w_ram w0)"
  by (intro nth_equalityI) (auto simp: tagged_def)

lemma hdr_word_tagged: "tagged S w0 b ts e w \<Longrightarrow> e \<le> h \<Longrightarrow> hdr_word off h (w_ram w) = hdr_word off h (w_ram w0)"
  using tagged_drop[of S w0 b ts e w "h + off"] by (auto simp: hdr_word_def load_def bslice_def tagged_def)

lemma commandline_step:
  assumes t: "tagged S w0 b ts e w" and s: "cstr_at k (w_ram w0) = Some s" "length s < 512" and room: "e + 540 \<le> k" "k \<le> length (w_ram w0)"
  defines "q \<equiv> dropWhile (\<lambda>c. c = 0x20) s"
  shows "\<exists>w' e' cmd. world_tag (setup_commandline_tag k) (e, w) = Some (e', w') \<and> e' \<le> e + 540 \<and> cstr_of cmd = q \<and> (cmd = [] \<longleftrightarrow> q = [])
    \<and> tagged S w0 b (ts @ (if cmd = [] then [] else [(ATAG_CMDLINE, cmd)])) e' w'"
proof (cases "q = []")
  case True
  have "cstr_at k (w_ram w) = Some s" using s(1) tagged_drop[OF t, of k] room by (simp add: cstr_at_def split: if_splits)
  then have "world_tag (setup_commandline_tag k) (e, w) = Some (e, w)"
    using True by (simp add: world_tag_def setup_commandline_tag_def q_def)
  then show ?thesis using True t by (intro exI[of _ w] exI[of _ e] exI[of _ "[]"]) (simp add: cstr_of_def)
next
  case False
  have c: "cstr_at k (w_ram w) = Some s" using s(1) tagged_drop[OF t, of k] room by (simp add: cstr_at_def split: if_splits)
  have lq: "length q \<le> length s" unfolding q_def by (rule length_dropWhile_le)
  let ?sz = "drop_bit 2 (8 + of_nat (length q) + 1 + 4) :: u32"
  have "8 + of_nat (length q) + 1 + 4 = (of_nat (length q + 13) :: u32)" by simp
  then have sz: "unat ?sz = (length q + 13) div 4"
    using unat_of_nat32[of "length q + 13"] lq s(2) by (simp only: unat_drop_bit_eq) (simp add: drop_bit_eq_div)
  have "9 + length q \<le> 4 * ((length q + 13) div 4)" "4 * ((length q + 13) div 4) \<le> length q + 13" by presburger+
  then have sz2: "8 + length (q @ [0]) \<le> 4 * unat ?sz" "e + 4 * unat ?sz \<le> length (w_ram w0)"
    unfolding sz using lq s(2) room by simp_all
  have z: "0 \<notin> set s" using s(1) by (auto simp: cstr_at_def cstr_of_def dest: set_takeWhileD split: if_splits)
  then have zq: "0 \<notin> set q" unfolding q_def using set_dropWhileD by fastforce
  obtain ram pl where r: "world_tag (put_tag ATAG_CMDLINE ?sz (q @ [0])) (e, w) = Some (e + 4 * unat ?sz, w\<lparr>w_ram := ram\<rparr>)"
      "length pl = 4 * unat ?sz - 8" "take (length (q @ [0])) pl = q @ [0]"
      "tagged S w0 b (ts @ [(ATAG_CMDLINE, pl)]) (e + 4 * unat ?sz) (w\<lparr>w_ram := ram\<rparr>)"
    using tag_step_gen[OF t sz2, of ATAG_CMDLINE] by blast
  have "pl = q @ [0] @ drop (length q + 1) pl" using r(3) append_take_drop_id[of "length q + 1" pl] by simp
  then have "cstr_of pl = q" "pl \<noteq> []" using cstr_of_term[of q "drop (length q + 1) pl"] zq by auto
  moreover have "world_tag (setup_commandline_tag k) (e, w) = Some (e + 4 * unat ?sz, w\<lparr>w_ram := ram\<rparr>)"
    using r(1) c False room lq s(2) by (simp add: world_tag_def setup_commandline_tag_def Let_def del: dropWhile_eq_Nil_conv flip: q_def)
  moreover have "e + 4 * unat ?sz \<le> e + 540" using sz lq s(2) by simp
  ultimately show ?thesis using r(4) False by (intro exI[of _ "w\<lparr>w_ram := ram\<rparr>"] exI[of _ "e + 4 * unat ?sz"] exI[of _ pl]) simp
qed

lemma end_step:
  assumes t: "tagged S w0 b ts e w" and room: "e + 8 \<le> length (w_ram w0)"
  shows "\<exists>ram. setup_end_tag e (w_ram w) = Some ram \<and> for_each_tag ram b = Some ts \<and> length ram = length (w_ram w0)
    \<and> (\<forall>i. i < b \<or> e + 8 \<le> i \<longrightarrow> i < length (w_ram w0) \<longrightarrow> ram ! i = w_ram w0 ! i)"
proof -
  have c: "chain (w_ram w) b ts e" "length (w_ram w) = length (w_ram w0)" using t by (simp_all add: tagged_def)
  let ?ram = "patch e (le32 0) (patch (e + 4) (le32 ATAG_NONE) (w_ram w))"
  have l: "length ?ram = length (w_ram w0)" using c(2) room by simp
  have n: "?ram ! i = w_ram w ! i" if "i < e \<or> e + 8 \<le> i" "i < length (w_ram w0)" for i
    using that room c(2) by (auto simp: nth_patch)
  have "chain ?ram b ts e" using c(1) by (rule chain_frame) (use l c n room in auto)
  moreover have "hdr_word 0 e ?ram = Some 0"
    using room c(2) bslice_patch_same[of e "le32 0" "patch (e + 4) (le32 ATAG_NONE) (w_ram w)"] by (simp add: hdr_word_def)
  ultimately have "for_each_tag ?ram b = Some ts" by (rule chain_walk)
  moreover have "?ram ! i = w_ram w0 ! i" if "i < b \<or> e + 8 \<le> i" "i < length (w_ram w0)" for i
    using that n[of i] t chain_le[OF c(1)] by (auto simp: tagged_def)
  ultimately show ?thesis using l c(2) room by (intro exI[of _ ?ram]) (simp add: setup_end_tag_def)
qed

lemma initrd_step:
  assumes t: "tagged S w0 b ts e w" and room: "e + 16 \<le> length (w_ram w0)"
  shows "\<exists>w' e'. (if rs \<noteq> 0 then world_tag (setup_initrd_tag ra (ra + rs)) (e, w) else Some (e, w)) = Some (e', w') \<and> e' \<le> e + 16
    \<and> tagged S w0 b (ts @ (if rs = 0 then [] else [(ATAG_INITRD2, le32 ra @ le32 rs)])) e' w'"
proof (cases "rs = 0")
  case False
  have "setup_initrd_tag ra (ra + rs) = put_tag ATAG_INITRD2 (tag_size 8) (le32 ra @ le32 rs)"
    by (intro ext) (simp add: setup_initrd_tag_def)
  then show ?thesis using tag_step[OF t, of "tag_size 8" "le32 ra @ le32 rs" ATAG_INITRD2] room False by (auto simp: tag_size_vals)
qed (use t in auto)

lemma first_tags:
  assumes "idle S w" and "ram_off (bi_boot_params bi) = Some b" and room: "b + 32 \<le> length (w_ram w)"
  shows "\<exists>ram w'. setup_start_tag bi (w_ram w) = Some (b + 20, ram)
    \<and> world_tag (setup_revision_tag bi) (b + 20, w\<lparr>w_ram := ram\<rparr>) = Some (b + 32, w')
    \<and> tagged S w b [(ATAG_CORE, le32 0 @ le32 0 @ le32 0), (ATAG_REVISION, le32 (bi_board_revision bi))] (b + 32) w'"
proof -
  have t0: "tagged S w b [] b w" using assms(1) by (simp add: tagged_def)
  obtain ram where r: "world_tag (put_tag ATAG_CORE (tag_size 12) (le32 0 @ le32 0 @ le32 0)) (b, w) = Some (b + 20, w\<lparr>w_ram := ram\<rparr>)"
      "tagged S w b [(ATAG_CORE, le32 0 @ le32 0 @ le32 0)] (b + 20) (w\<lparr>w_ram := ram\<rparr>)"
    using tag_step[OF t0, of "tag_size 12" "le32 0 @ le32 0 @ le32 0" ATAG_CORE] room by (auto simp: tag_size_vals)
  have "setup_start_tag bi (w_ram w) = Some (b + 20, ram)"
    using r(1) assms(2) by (auto simp: world_tag_def setup_start_tag_def opt_bind dest!: arg_cong[where f = w_ram])
  moreover have "setup_revision_tag bi = put_tag ATAG_REVISION (tag_size 4) (le32 (bi_board_revision bi))"
    by (intro ext) (simp add: setup_revision_tag_def)
  ultimately show ?thesis using tag_step[OF r(2), of "tag_size 4" "le32 (bi_board_revision bi)" ATAG_REVISION] room
    by (auto simp: tag_size_vals add.commute)
qed

lemma memory_step:
  assumes t: "tagged S w0 b ts e w" and room: "e + 16 \<le> length (w_ram w0)" and "bi_dram bi \<noteq> []"
  shows "\<exists>w'. world_tag (setup_memory_tags bi) (e, w) = Some (e + 16, w')
    \<and> tagged S w0 b (ts @ [(ATAG_MEM, le32 (snd (hd (bi_dram bi))) @ le32 (fst (hd (bi_dram bi))))]) (e + 16) w'"
proof -
  obtain st sz bs where d: "bi_dram bi = (st, sz) # bs" using assms(3) by (cases "bi_dram bi") auto
  then have "setup_memory_tags bi = put_tag ATAG_MEM (tag_size 8) (le32 sz @ le32 st)"
    by (intro ext) (auto simp: setup_memory_tags_def CONFIG_NR_DRAM_BANKS_def split: Option.bind_split)
  then show ?thesis using tag_step[OF t, of "tag_size 8" "le32 sz @ le32 st" ATAG_MEM] room d by (auto simp: tag_size_vals)
qed

lemma do_booti_linux_ok:
  assumes p: "p_dev p = dev" "32 \<le> cap" and w: "idle S w" and b: "ram_off (bi_boot_params bi) = Some b" and bi: "bi = bd (w_env w)"
    and dram: "bi_dram bi \<noteq> []" and room: "b + 1024 \<le> h" "h + HDR_SIZE \<le> length (w_ram w)"
    and f: "hdr_kernel_addr h (w_ram w) = Some ka" "hdr_ramdisk_addr h (w_ram w) = Some ra" "hdr_ramdisk_size h (w_ram w) = Some rs"
    and cmd: "cstr_at (h + HDR_CMDLINE) (w_ram w) = Some s" "length s < 512"
  shows "\<exists>w' cmd. do_booti_linux p h w = Some (Kernel ka (bi_arch_number bi) (bi_boot_params bi), w')
    \<and> for_each_tag (w_ram w') b = Some (boot_tags bi (idme_area (S 1) 0) cmd ra rs)
    \<and> cstr_of cmd = dropWhile (\<lambda>c. c = 0x20) s \<and> (cmd = [] \<longleftrightarrow> dropWhile (\<lambda>c. c = 0x20) s = [])
    \<and> length (w_ram w') = length (w_ram w) \<and> sect (w_dev w') = S
    \<and> (\<forall>i. i < b \<or> h \<le> i \<longrightarrow> i < length (w_ram w) \<longrightarrow> w_ram w' ! i = w_ram w ! i)"
proof -
  let ?A = "idme_area (S 1) 0"
  have lim: "HDR_SIZE = 608" "HDR_CMDLINE = 64" by (simp_all add: HDR_SIZE_def HDR_CMDLINE_def)
  obtain ram w2 where w2: "setup_start_tag bi (w_ram w) = Some (b + 20, ram)"
      "world_tag (setup_revision_tag bi) (b + 20, w\<lparr>w_ram := ram\<rparr>) = Some (b + 32, w2)"
      "tagged S w b [(ATAG_CORE, le32 0 @ le32 0 @ le32 0), (ATAG_REVISION, le32 (bi_board_revision bi))] (b + 32) w2"
    using first_tags[OF w b] room by auto
  obtain w3 where w3: "setup_revision16_tag p (b + 32, w2) = Some (b + 56, w3)" "tagged S w b
      [(ATAG_CORE, le32 0 @ le32 0 @ le32 0), (ATAG_REVISION, le32 (bi_board_revision bi)), (ATAG_REVISION16, var ''boardid'' ?A)] (b + 56) w3"
    using revision16_step[OF p w2(3)] room by (auto simp: add.commute)
  obtain w4 where w4: "setup_serial16_tag p (b + 56, w3) = Some (b + 80, w4)" "tagged S w b
      [(ATAG_CORE, le32 0 @ le32 0 @ le32 0), (ATAG_REVISION, le32 (bi_board_revision bi)), (ATAG_REVISION16, var ''boardid'' ?A),
       (ATAG_SERIAL16, var ''serial'' ?A)] (b + 80) w4"
    using serial16_step[OF p w3(2)] room by (auto simp: add.commute)
  obtain w5 where w5: "setup_macaddr_tag p (b + 80, w4) = Some (b + 152, w5)" "tagged S w b
      [(ATAG_CORE, le32 0 @ le32 0 @ le32 0), (ATAG_REVISION, le32 (bi_board_revision bi)), (ATAG_REVISION16, var ''boardid'' ?A),
       (ATAG_SERIAL16, var ''serial'' ?A), (ATAG_MACADDR, var ''sec'' ?A @ var ''mac'' ?A @ var ''bt'' ?A)] (b + 152) w5"
    using macaddr_step[OF p w4(2)] room by (auto simp: add.commute)
  obtain w6 where w6: "setup_bootmode_tag p (b + 152, w5) = Some (b + 192, w6)" "tagged S w b
      [(ATAG_CORE, le32 0 @ le32 0 @ le32 0), (ATAG_REVISION, le32 (bi_board_revision bi)), (ATAG_REVISION16, var ''boardid'' ?A),
       (ATAG_SERIAL16, var ''serial'' ?A), (ATAG_MACADDR, var ''sec'' ?A @ var ''mac'' ?A @ var ''bt'' ?A),
       (ATAG_BOOTMODE, var ''bootmode'' ?A @ var ''postmode'' ?A)] (b + 192) w6"
    using bootmode_step[OF p w5(2)] room by (auto simp: add.commute)
  obtain w7 where w7: "setup_gyrocal_tag p (b + 192, w6) = Some (b + 236, w7)" "tagged S w b
      [(ATAG_CORE, le32 0 @ le32 0 @ le32 0), (ATAG_REVISION, le32 (bi_board_revision bi)), (ATAG_REVISION16, var ''boardid'' ?A),
       (ATAG_SERIAL16, var ''serial'' ?A), (ATAG_MACADDR, var ''sec'' ?A @ var ''mac'' ?A @ var ''bt'' ?A),
       (ATAG_BOOTMODE, var ''bootmode'' ?A @ var ''postmode'' ?A), (ATAG_GYROCAL, var ''gyrocal'' ?A)] (b + 236) w7"
    using gyrocal_step[OF p w6(2)] room by (auto simp: add.commute)
  obtain w8 where w8: "world_tag (setup_memory_tags bi) (b + 236, w7) = Some (b + 252, w8)" "tagged S w b (boot_tags bi ?A [] 0 0) (b + 252) w8"
    using memory_step[OF w7(2) _ dram] room by (auto simp: boot_tags_def add.commute)
  obtain w9 e9 cmd where w9: "world_tag (setup_commandline_tag (h + HDR_CMDLINE)) (b + 252, w8) = Some (e9, w9)" "e9 \<le> b + 792"
      "cstr_of cmd = dropWhile (\<lambda>c. c = 0x20) s" "cmd = [] \<longleftrightarrow> dropWhile (\<lambda>c. c = 0x20) s = []" "tagged S w b (boot_tags bi ?A cmd 0 0) e9 w9"
    using commandline_step[OF w8(2) cmd(1,2), unfolded boot_tags_cmd] room lim by (auto simp: add.commute simp del: dropWhile_eq_Nil_conv)
  have rs: "hdr_ramdisk_size h (w_ram w9) = Some rs" using hdr_word_tagged[OF w9(5)] f(3) w9(2) room by simp
  obtain w10 e10 where w10: "(if rs \<noteq> 0 then world_tag (setup_initrd_tag ra (ra + rs)) (e9, w9) else Some (e9, w9)) = Some (e10, w10)"
      "e10 \<le> b + 808" "tagged S w b (boot_tags bi ?A cmd ra rs) e10 w10"
    using initrd_step[OF w9(5), of rs ra, unfolded boot_tags_cmd] room w9(2) by fastforce
  obtain ram' where r: "setup_end_tag e10 (w_ram w10) = Some ram'" "for_each_tag ram' b = Some (boot_tags bi ?A cmd ra rs)"
      "length ram' = length (w_ram w)" "\<forall>i. i < b \<or> e10 + 8 \<le> i \<longrightarrow> i < length (w_ram w) \<longrightarrow> ram' ! i = w_ram w ! i"
    using end_step[OF w10(3)] room w10(2) by auto
  have "do_booti_linux p h w = Some (Kernel ka (bi_arch_number bi) (bi_boot_params bi), w10\<lparr>w_ram := ram', w_is_recovery_mode := False\<rparr>)"
    unfolding do_booti_linux_def bi[symmetric]
    using f w2(1,2) w3(1) w4(1) w5(1) w6(1) w7(1) w8(1) w9(1) rs w10(1) r(1) by (simp only: Option.bind.bind_lunit prod.case Let_def)
  moreover have "sect (w_dev w10) = S" using w10(3) by (simp add: tagged_def idle_def)
  ultimately show ?thesis using r w9(3,4) w10(2) room by (intro exI[of _ "w10\<lparr>w_ram := ram', w_is_recovery_mode := False\<rparr>"] exI[of _ cmd]) auto
qed

end

section \<open>The image\<close>

text \<open>
  An Android boot image on the sectors from \<open>a\<close> on: the header with its magic number, then the kernel from the next page on, then the
  ram disk from the next page on.
\<close>

record boot_img =
  im_kernel_size :: u32
  im_kernel_addr :: u32
  im_ramdisk_size :: u32
  im_ramdisk_addr :: u32
  im_page_size :: u32
  im_cmdline :: "byte list"

definition image_at :: "(nat \<Rightarrow> byte list) \<Rightarrow> nat \<Rightarrow> boot_img \<Rightarrow> bool" where
  "image_at D a im \<longleftrightarrow> (let h = sectors D a 4 in
     bslice 0 8 h = BOOT_MAGIC \<and> bslice 8 4 h = le32 (im_kernel_size im) \<and> bslice 12 4 h = le32 (im_kernel_addr im)
     \<and> bslice 16 4 h = le32 (im_ramdisk_size im) \<and> bslice 20 4 h = le32 (im_ramdisk_addr im) \<and> bslice 36 4 h = le32 (im_page_size im)
     \<and> 0 \<in> set (bslice 64 512 h) \<and> im_cmdline im = cstr_of (bslice 64 512 h))"

definition kernel_sector :: "nat \<Rightarrow> boot_img \<Rightarrow> nat" where
  "kernel_sector a im = a + unat (im_page_size im) div 512"

definition ramdisk_sector :: "nat \<Rightarrow> boot_img \<Rightarrow> nat" where
  "ramdisk_sector a im = kernel_sector a im + unat (ALIGN (im_kernel_size im) (im_page_size im)) div 512"

text \<open>The image fits the device of \<open>cap\<close> sectors and a memory of \<open>n\<close> bytes, with the parts behind the header and apart.\<close>

definition image_fits :: "nat \<Rightarrow> nat \<Rightarrow> nat \<Rightarrow> boot_img \<Rightarrow> bool" where
  "image_fits cap n a im \<longleftrightarrow>
     (let ks = unat (im_kernel_size im); rs = unat (im_ramdisk_size im) in
      case (ram_off (im_kernel_addr im), ram_off (im_ramdisk_addr im)) of
        (Some ko, Some ro) \<Rightarrow> 0 < ks \<and> 0 < rs \<and> ks + 511 < 2 ^ 32 \<and> rs + 511 < 2 ^ 32
          \<and> a + 4 \<le> cap \<and> kernel_sector a im + nsect ks \<le> cap \<and> ramdisk_sector a im + nsect rs \<le> cap
          \<and> 0x8000 \<le> ko \<and> 0x8000 \<le> ro \<and> ko + 512 * nsect ks \<le> n \<and> ro + 512 * nsect rs \<le> n
          \<and> (ko + 512 * nsect ks \<le> ro \<or> ro + 512 * nsect rs \<le> ko)
      | _ \<Rightarrow> False)"

lemma cstr_of_shorter: "0 \<in> set xs \<Longrightarrow> length (cstr_of xs) < length xs"
  by (induction xs) (auto simp: cstr_of_def)

lemma mmc_arg1: "mmc_arg (bytes ''mmc1'') = Some 1"
  by (simp add: mmc_arg_def)

lemma loaded_parts:
  assumes "ko + length K \<le> ro \<or> ro + length R \<le> ko" and "ko + length K \<le> length m" "ro + length R \<le> length m"
    and "k \<le> length K" "r \<le> length R"
  shows "bslice ko k (patch ro R (patch ko K m)) = take k K" "bslice ro r (patch ro R (patch ko K m)) = take r R"
proof -
  show "bslice ko k (patch ro R (patch ko K m)) = take k K"
    using assms by (intro nth_equalityI) (auto simp: nth_bslice nth_patch)
  show "bslice ro r (patch ro R (patch ko K m)) = take r R"
    using assms by (intro nth_equalityI) (auto simp: nth_bslice nth_patch)
qed

lemma unat_add_small: "unat a + unat b < 2 ^ 32 \<Longrightarrow> unat (a + b :: u32) = unat a + unat b"
  by (simp add: unat_add_lem[THEN iffD1])

context block_device
begin

lemma load_part_ok:
  assumes "p_dev p = dev" and w: "idle S w" and "ram_off addr = Some a" and "0 < n" "unat n + 511 < 2 ^ 32"
    and "unat sector + nsect (unat n) \<le> cap" and "a + 512 * nsect (unat n) \<le> length (w_ram w)"
  shows "\<exists>s. load_part p 1 sector addr n w = Some (Inr (), w\<lparr>w_dev := s, w_ram := patch a (sectors (S 0) (unat sector) (nsect (unat n))) (w_ram w)\<rparr>)
    \<and> idle S (w\<lparr>w_dev := s, w_ram := r\<rparr>)"
proof -
  have "inv (w_dev w)" "part (w_dev w) = 0" "sect (w_dev w) = S" using w by (simp_all add: idle_def)
  then show ?thesis using read_ok[of "w_dev w" n sector a "w_ram w"] assms by (auto simp: load_part_def idle_def)
qed

lemma hdr_word_at: "bslice (h + off) 4 ram = le32 x \<Longrightarrow> h + off + 4 \<le> length ram \<Longrightarrow> hdr_word off h ram = Some x"
  by (simp add: hdr_word_def)

text \<open>The header in the memory, also after the parts have been loaded behind it.\<close>

lemma header_loaded:
  assumes "image_at D a im" and "length (sectors D a 4) = 2048" and "bslice 0x7800 2048 ram = sectors D a 4" and "0x8000 \<le> length ram"
  shows "bad_magic 0x7800 ram = Some False" "hdr_kernel_size 0x7800 ram = Some (im_kernel_size im)"
    "hdr_kernel_addr 0x7800 ram = Some (im_kernel_addr im)" "hdr_ramdisk_size 0x7800 ram = Some (im_ramdisk_size im)"
    "hdr_ramdisk_addr 0x7800 ram = Some (im_ramdisk_addr im)" "hdr_page_size 0x7800 ram = Some (im_page_size im)"
    "cstr_at (0x7800 + HDR_CMDLINE) ram = Some (im_cmdline im)" "length (im_cmdline im) < 512"
proof -
  have sl: "bslice (0x7800 + i) n ram = bslice i n (sectors D a 4)" if "i + n \<le> 2048" for i n
    using bslice_sub[OF that, where off = "0x7800" and x = ram] assms(3) by simp
  have f: "bslice 0 8 (sectors D a 4) = BOOT_MAGIC" "0 \<in> set (bslice 64 512 (sectors D a 4))" "im_cmdline im = cstr_of (bslice 64 512 (sectors D a 4))"
    "bslice 8 4 (sectors D a 4) = le32 (im_kernel_size im)" "bslice 12 4 (sectors D a 4) = le32 (im_kernel_addr im)"
    "bslice 16 4 (sectors D a 4) = le32 (im_ramdisk_size im)" "bslice 20 4 (sectors D a 4) = le32 (im_ramdisk_addr im)"
    "bslice 36 4 (sectors D a 4) = le32 (im_page_size im)"
    using assms(1) by (simp_all add: image_at_def Let_def)
  show "bad_magic 0x7800 ram = Some False" using sl[of 0 8] f(1) assms(4) by (simp add: bad_magic_def)
  show "hdr_kernel_size 0x7800 ram = Some (im_kernel_size im)" "hdr_kernel_addr 0x7800 ram = Some (im_kernel_addr im)"
    "hdr_ramdisk_size 0x7800 ram = Some (im_ramdisk_size im)" "hdr_ramdisk_addr 0x7800 ram = Some (im_ramdisk_addr im)"
    "hdr_page_size 0x7800 ram = Some (im_page_size im)"
    using sl[of 8 4] sl[of 12 4] sl[of 16 4] sl[of 20 4] sl[of 36 4] f assms(4) by (simp_all add: hdr_word_def)
  have d: "drop (0x7800 + 64) ram = bslice 64 512 (sectors D a 4) @ drop (0x7800 + 64 + 512) ram"
    using sl[of 64 512] append_take_drop_id[of 512 "drop (0x7800 + 64) ram"] by (simp add: bslice_def)
  show "cstr_at (0x7800 + HDR_CMDLINE) ram = Some (im_cmdline im)"
    unfolding cstr_at_def HDR_CMDLINE_def d using f(2,3) by (simp add: cstr_of_def takeWhile_append1)
  have "length (cstr_of (bslice 64 512 (sectors D a 4))) < length (bslice 64 512 (sectors D a 4))"
    using f(2) by (rule cstr_of_shorter)
  then show "length (im_cmdline im) < 512" using f(3) assms(2) by simp
qed

text \<open>Reading the header of an image below the place of the kernel.\<close>

lemma header_read:
  assumes p: "p_dev p = dev" and w: "idle S w" and mbr: "plain_mbr (S 0 0)" and a: "a = unat (pt_start pte) + 2" "a + 4 \<le> cap"
    and big: "0x8000 \<le> length (w_ram w)"
  defines "la \<equiv> KERNEL_PHY_LOAD_ADDRESS - CFG_FASTBOOT_MKBOOTIMAGE_PAGE_SIZE"
  shows "\<exists>s1 s2. op_init dev (w_dev w) 1 = Some (0, s1) \<and> unat (pt_start pte + 2) = a \<and> ram_off la = Some 0x7800
    \<and> load_part p 1 (pt_start pte + 2) la CFG_FASTBOOT_MKBOOTIMAGE_PAGE_SIZE (w\<lparr>w_dev := s1, w_env := (w_env w)\<lparr>load_addr := la\<rparr>\<rparr>)
        = Some (Inr (), w\<lparr>w_env := (w_env w)\<lparr>load_addr := la\<rparr>, w_dev := s2, w_ram := patch 0x7800 (sectors (S 0) a 4) (w_ram w)\<rparr>)
    \<and> idle S (w\<lparr>w_env := (w_env w)\<lparr>load_addr := la\<rparr>, w_dev := s2, w_ram := patch 0x7800 (sectors (S 0) a 4) (w_ram w)\<rparr>)"
proof -
  have iv: "inv (w_dev w)" "part (w_dev w) = 0" "sect (w_dev w) = S" using w by (simp_all add: idle_def)
  obtain s1 where s1: "op_init dev (w_dev w) 1 = Some (0, s1)" "inv s1" "part s1 = 0" "sect s1 = S"
    using init_ok[OF inv_pre[OF iv(1)]] mbr iv(3) by auto
  have la: "ram_off la = Some 0x7800"
    by (simp add: la_def ram_off_def KERNEL_PHY_LOAD_ADDRESS_def CFG_FASTBOOT_MKBOOTIMAGE_PAGE_SIZE_def PHYS_SDRAM_1_def)
  let ?w1 = "w\<lparr>w_dev := s1, w_env := (w_env w)\<lparr>load_addr := la\<rparr>\<rparr>"
  have i1: "idle S ?w1" using w s1 by (simp add: idle_def)
  have u2: "unat (pt_start pte + 2) = a" using unat_add_small[of "pt_start pte" 2] a cap_bound by simp
  have "unat CFG_FASTBOOT_MKBOOTIMAGE_PAGE_SIZE = 2048" "nsect 2048 = 4" by (simp_all add: CFG_FASTBOOT_MKBOOTIMAGE_PAGE_SIZE_def nsect_def)
  then show ?thesis
    using s1(1) la u2 load_part_ok[OF p i1 la, of CFG_FASTBOOT_MKBOOTIMAGE_PAGE_SIZE "pt_start pte + 2" "patch 0x7800 (sectors (S 0) a 4) (w_ram w)"] a(2) big
    by (auto simp: CFG_FASTBOOT_MKBOOTIMAGE_PAGE_SIZE_def)
qed

lemma booti_mmc_bad:
  assumes p: "p_dev p = dev" and w: "idle S w" and mbr: "plain_mbr (S 0 0)" and f: "find_ptn w ptn = Some pte"
    and a: "a = unat (pt_start pte) + 2" "a + 4 \<le> cap" and big: "0x8000 \<le> length (w_ram w)" and bad: "bslice 0 8 (sectors (S 0) a 4) \<noteq> BOOT_MAGIC"
  shows "\<exists>w'. booti_mmc p 1 ptn w = Some (Inl (), w') \<and> idle S w'"
proof -
  let ?h = "sectors (S 0) a 4" and ?la = "KERNEL_PHY_LOAD_ADDRESS - CFG_FASTBOOT_MKBOOTIMAGE_PAGE_SIZE"
  obtain s1 s2 where s: "op_init dev (w_dev w) 1 = Some (0, s1)" "ram_off ?la = Some 0x7800"
      "load_part p 1 (pt_start pte + 2) ?la CFG_FASTBOOT_MKBOOTIMAGE_PAGE_SIZE (w\<lparr>w_dev := s1, w_env := (w_env w)\<lparr>load_addr := ?la\<rparr>\<rparr>)
        = Some (Inr (), w\<lparr>w_env := (w_env w)\<lparr>load_addr := ?la\<rparr>, w_dev := s2, w_ram := patch 0x7800 ?h (w_ram w)\<rparr>)"
      "idle S (w\<lparr>w_env := (w_env w)\<lparr>load_addr := ?la\<rparr>, w_dev := s2, w_ram := patch 0x7800 ?h (w_ram w)\<rparr>)"
    using header_read[OF p w mbr a big] by blast
  have "length (S q n) = 512" for q n using w sect_length[OF inv_pre, of "w_dev w" q n] by (auto simp: idle_def)
  then have lh: "length ?h = 2048" by (simp add: length_sectors)
  have "bslice 0x7800 8 (patch 0x7800 ?h (w_ram w)) = bslice 0 8 ?h"
    using bslice_sub[of 0 8 2048 "0x7800" "patch 0x7800 ?h (w_ram w)"] bslice_patch_same[of "0x7800" ?h "w_ram w"] lh big by simp
  then have "bad_magic 0x7800 (patch 0x7800 ?h (w_ram w)) = Some True" using bad big lh by (simp add: bad_magic_def)
  then have "booti_mmc p 1 ptn w = Some (Inl (), w\<lparr>w_env := (w_env w)\<lparr>load_addr := ?la\<rparr>, w_dev := s2, w_ram := patch 0x7800 ?h (w_ram w)\<rparr>)"
    unfolding booti_mmc_def f option.case p using s(1-3) by (simp add: Let_def)
  then show ?thesis using s(4) by blast
qed

lemma booti_mmc_ok:
  assumes p: "p_dev p = dev" and w: "idle S w" and mbr: "plain_mbr (S 0 0)" and f: "find_ptn w ptn = Some pte"
    and im: "image_at (S 0) a im" "image_fits cap (length (w_ram w)) a im" and a: "a = unat (pt_start pte) + 2"
    and ko: "ram_off (im_kernel_addr im) = Some ko" and ro: "ram_off (im_ramdisk_addr im) = Some ro"
  defines "K \<equiv> sectors (S 0) (kernel_sector a im) (nsect (unat (im_kernel_size im)))"
    and "R \<equiv> sectors (S 0) (ramdisk_sector a im) (nsect (unat (im_ramdisk_size im)))"
  defines "ram \<equiv> patch ro R (patch ko K (patch 0x7800 (sectors (S 0) a 4) (w_ram w)))"
  shows "\<exists>w'. booti_mmc p 1 ptn w = Some (Inr 0x7800, w') \<and> w_ram w' = ram \<and> idle S w' \<and> bd (w_env w') = bd (w_env w)"
proof -
  let ?h = "sectors (S 0) a 4"
  have fit: "0 < im_kernel_size im" "0 < im_ramdisk_size im" "unat (im_kernel_size im) + 511 < 2 ^ 32" "unat (im_ramdisk_size im) + 511 < 2 ^ 32"
      "a + 4 \<le> cap" "kernel_sector a im + nsect (unat (im_kernel_size im)) \<le> cap" "ramdisk_sector a im + nsect (unat (im_ramdisk_size im)) \<le> cap"
      "0x8000 \<le> ko" "0x8000 \<le> ro" "ko + 512 * nsect (unat (im_kernel_size im)) \<le> length (w_ram w)" "ro + 512 * nsect (unat (im_ramdisk_size im)) \<le> length (w_ram w)"
    using im(2) ko ro by (auto simp: image_fits_def Let_def word_gt_0 unat_gt_0)
  have iv: "inv (w_dev w)" "part (w_dev w) = 0" "sect (w_dev w) = S" using w by (simp_all add: idle_def)
  have S512: "length (S q n) = 512" for q n using sect_length[OF inv_pre[OF iv(1)], of q n] iv(3) by simp
  have lh: "length ?h = 2048" and lK: "length K = 512 * nsect (unat (im_kernel_size im))" and lR: "length R = 512 * nsect (unat (im_ramdisk_size im))"
    unfolding K_def R_def using S512 by (simp_all add: length_sectors)
  have cap: "cap < 2 ^ 31" using cap_bound by simp
  have big: "0x8000 \<le> length (w_ram w)" using fit(8,10) by simp
  let ?la = "KERNEL_PHY_LOAD_ADDRESS - CFG_FASTBOOT_MKBOOTIMAGE_PAGE_SIZE"
  obtain s1 s2 where s1: "op_init dev (w_dev w) 1 = Some (0, s1)" and u2: "unat (pt_start pte + 2) = a" and la: "ram_off ?la = Some 0x7800"
    and s2: "load_part p 1 (pt_start pte + 2) ?la CFG_FASTBOOT_MKBOOTIMAGE_PAGE_SIZE (w\<lparr>w_dev := s1, w_env := (w_env w)\<lparr>load_addr := ?la\<rparr>\<rparr>)
        = Some (Inr (), w\<lparr>w_env := (w_env w)\<lparr>load_addr := ?la\<rparr>, w_dev := s2, w_ram := patch 0x7800 ?h (w_ram w)\<rparr>)"
      "idle S (w\<lparr>w_env := (w_env w)\<lparr>load_addr := ?la\<rparr>, w_dev := s2, w_ram := patch 0x7800 ?h (w_ram w)\<rparr>)"
    using header_read[OF p w mbr a fit(5) big] by blast
  let ?w2 = "w\<lparr>w_env := (w_env w)\<lparr>load_addr := ?la\<rparr>, w_dev := s2, w_ram := patch 0x7800 ?h (w_ram w)\<rparr>"
  have l2: "length (w_ram ?w2) = length (w_ram w)" using big lh by simp
  have "bslice 0x7800 2048 (w_ram ?w2) = ?h" using bslice_patch_same[of "0x7800" ?h "w_ram w"] lh big by simp
  note h2 = header_loaded[OF im(1) lh this, unfolded l2, OF big]
  let ?sec = "pt_start pte + 2 + im_page_size im div 512"
  have us: "unat ?sec = kernel_sector a im"
    using unat_add_small[of "pt_start pte + 2" "im_page_size im div 512"] u2 fit(6) cap by (simp add: kernel_sector_def unat_div)
  obtain s3 where s3: "load_part p 1 ?sec (im_kernel_addr im) (im_kernel_size im) ?w2 = Some (Inr (), ?w2\<lparr>w_dev := s3, w_ram := patch ko K (w_ram ?w2)\<rparr>)"
      "idle S (?w2\<lparr>w_dev := s3, w_ram := patch ko K (w_ram ?w2)\<rparr>)"
    using load_part_ok[OF p s2(2) ko fit(1,3), of ?sec "patch ko K (w_ram ?w2)"] us fit(6,10) l2 by (auto simp: K_def)
  let ?w3 = "?w2\<lparr>w_dev := s3, w_ram := patch ko K (w_ram ?w2)\<rparr>"
  have l3: "length (w_ram ?w3) = length (w_ram w)" using l2 lK fit(10) by simp
  have "bslice 0x7800 2048 (w_ram ?w3) = ?h"
    using bslice_patch_disjoint[of ko K "w_ram ?w2" "0x7800" 2048] bslice_patch_same[of "0x7800" ?h "w_ram w"] lh lK fit(8,10) big l2 by simp
  note h3 = header_loaded[OF im(1) lh this, unfolded l3, OF big]
  let ?sec2 = "?sec + ALIGN (im_kernel_size im) (im_page_size im) div 512"
  have us2: "unat ?sec2 = ramdisk_sector a im"
    using unat_add_small[of ?sec "ALIGN (im_kernel_size im) (im_page_size im) div 512"] us fit(7) cap by (simp add: ramdisk_sector_def unat_div)
  obtain s4 where s4: "load_part p 1 ?sec2 (im_ramdisk_addr im) (im_ramdisk_size im) ?w3 = Some (Inr (), ?w3\<lparr>w_dev := s4, w_ram := patch ro R (w_ram ?w3)\<rparr>)"
      "idle S (?w3\<lparr>w_dev := s4, w_ram := patch ro R (w_ram ?w3)\<rparr>)"
    using load_part_ok[OF p s3(2) ro fit(2,4), of ?sec2 "patch ro R (w_ram ?w3)"] us2 fit(7,11) l3 by (auto simp: R_def)
  have "booti_mmc p 1 ptn w = Some (Inr 0x7800, ?w3\<lparr>w_dev := s4, w_ram := patch ro R (w_ram ?w3)\<rparr>)"
    unfolding booti_mmc_def f option.case p
    using s1 s2(1) s3(1) s4(1) la h2 h3 by (simp add: Let_def)
  then show ?thesis using s4(2) by (auto simp: ram_def)
qed

lemma do_booti_ok:
  assumes p: "p_dev p = dev" "0 < p_slack p" and w: "inv (w_dev w)" "part (w_dev w) = 0" "length (gblock_buff (w_idme w)) = 512"
      "length (board_id (w_idme w)) = 17" "length (board_serial (w_idme w)) = 17" "\<not> w_gnUSBAttached w"
    and room: "1056 \<le> cap" and mbr: "plain_mbr (sect (w_dev w) 0 0)"
    and argv: "argv = cmd # bytes ''mmc1'' # args" and f: "find_ptn w ptn = Some pte"
  defines "A \<equiv> idme_area (sect (w_dev w) 1) 0"
  defines "B \<equiv> if idme_magic A then A else default_area"
  defines "a \<equiv> unat (pt_start pte) + 2" and "bi \<equiv> bd (w_env w)"
  assumes ptn: "ptn = (case args of [] \<Rightarrow> boot_choice (p_gpio p) (B ! 0x1008) (bytes ''boot'') | n # _ \<Rightarrow> n)"
    and im: "image_at (sect (w_dev w) 0) a im" "image_fits cap (length (w_ram w)) a im"
    and apart: "USER_BLOCK + 32 \<le> a"
    and b: "ram_off (bi_boot_params bi) = Some b" "b + 1024 \<le> 0x7800" and dram: "bi_dram bi \<noteq> []"
    and ko: "ram_off (im_kernel_addr im) = Some ko" and ro: "ram_off (im_ramdisk_addr im) = Some ro"
  defines "ks \<equiv> unat (im_kernel_size im)" and "rs \<equiv> unat (im_ramdisk_size im)"
  shows "\<exists>w' cmd'. do_booti p c junk junk_hdr argv w = Some (Halt (Kernel (im_kernel_addr im) (bi_arch_number bi) (bi_boot_params bi)), w')
    \<and> bslice ko ks (w_ram w') = take ks (sectors (sect (w_dev w) 0) (kernel_sector a im) (nsect ks))
    \<and> bslice ro rs (w_ram w') = take rs (sectors (sect (w_dev w) 0) (ramdisk_sector a im) (nsect rs))
    \<and> for_each_tag (w_ram w') b = Some (boot_tags bi (idme_area (sect (w_dev w') 1) 0) cmd' (im_ramdisk_addr im) (im_ramdisk_size im))
    \<and> cstr_of cmd' = dropWhile (\<lambda>c. c = 0x20) (im_cmdline im)
    \<and> idme_area (sect (w_dev w') 1) 0 = (let P = patch 0x1018 (pad 16 [1]) B
        in if B ! 0x1008 = 0x37 then patch 0x1008 (pad 16 (bytes ''1'')) P else P)"
proof -
  obtain i s where sel: "idme_select_boot_image (p_slack p) dev (p_gpio p) (bytes ''boot'') (w_idme w) (w_dev w)
        = Some (0, boot_choice (p_gpio p) (B ! 0x1008) (bytes ''boot''), i, s)"
      "inv s" "part s = 0" "same_idme (w_idme w) i"
      "idme_area (sect s 1) 0 = (let P = patch 0x1018 (pad 16 [1]) B in if B ! 0x1008 = 0x37 then patch 0x1008 (pad 16 (bytes ''1'')) P else P)"
      "\<forall>j. j < USER_BLOCK \<or> USER_BLOCK + 32 \<le> j \<longrightarrow> sect s 0 j = sect (w_dev w) 0 j"
    using select_boot_image_ok(1)[OF w(1,2) room w(3) p(2), of "p_gpio p" "bytes ''boot''"] unfolding A_def B_def by blast
  let ?S = "sect s" and ?w1 = "w\<lparr>w_idme := i, w_dev := s\<rparr>"
  have w1: "idle ?S ?w1" using sel w by (auto simp: idle_def same_idme_def)
  have sec: "sectors (?S 0) x n = sectors (sect (w_dev w) 0) x n" if "USER_BLOCK + 32 \<le> x" for x n
    using sel(6) that by (intro sectors_cong) simp
  have ge: "USER_BLOCK + 32 \<le> kernel_sector a im" "USER_BLOCK + 32 \<le> ramdisk_sector a im"
    using apart by (simp_all add: kernel_sector_def ramdisk_sector_def)
  define K where "K = sectors (sect (w_dev w) 0) (kernel_sector a im) (nsect ks)"
  define R where "R = sectors (sect (w_dev w) 0) (ramdisk_sector a im) (nsect rs)"
  let ?H = "sectors (sect (w_dev w) 0) a 4"
  let ?ram = "patch ro R (patch ko K (patch 0x7800 ?H (w_ram w)))"
  have im1: "image_at (?S 0) a im" using im(1) sec[OF apart] by (simp add: image_at_def)
  have f1: "find_ptn ?w1 ptn = Some pte" using f by (simp add: find_ptn_def)
  have mbr1: "plain_mbr (?S 0 0)" using mbr sel(6) by simp
  obtain w2 where w2: "booti_mmc p 1 ptn ?w1 = Some (Inr 0x7800, w2)" "w_ram w2 = ?ram" "idle ?S w2" "bd (w_env w2) = bi"
    using booti_mmc_ok[OF p(1) w1 mbr1 f1 im1 _ a_def[THEN meta_eq_to_obj_eq] ko ro] im(2) sec[OF ge(1)] sec[OF ge(2)] sec[OF apart]
    by (auto simp: bi_def K_def R_def ks_def rs_def)
  have len: "length (sect (w_dev w) q n) = 512" for q n by (rule sect_length[OF inv_pre[OF w(1)]])
  have lh: "length ?H = 2048" and lK: "length K = 512 * nsect ks" and lR: "length R = 512 * nsect rs"
    unfolding K_def R_def using len by (simp_all add: length_sectors)
  have fit: "0x8000 \<le> ko" "0x8000 \<le> ro" "ko + 512 * nsect ks \<le> length (w_ram w)" "ro + 512 * nsect rs \<le> length (w_ram w)"
      "ko + 512 * nsect ks \<le> ro \<or> ro + 512 * nsect rs \<le> ko"
    using im(2) ko ro by (auto simp: image_fits_def Let_def ks_def rs_def)
  have l2: "length ?ram = length (w_ram w)" using fit lh lK lR by simp
  have sizes: "ks \<le> 512 * nsect ks" "rs \<le> 512 * nsect rs" by (simp_all add: nsect_def)
  have hl: "bslice 0x7800 2048 ?ram = ?H"
    using bslice_patch_disjoint[of ko K "patch 0x7800 ?H (w_ram w)" "0x7800" 2048]
      bslice_patch_disjoint[of ro R "patch ko K (patch 0x7800 ?H (w_ram w))" "0x7800" 2048]
      bslice_patch_same[of "0x7800" ?H "w_ram w"] lh lK lR fit by simp
  note hd = header_loaded[OF im(1) lh hl, unfolded l2]
  have big: "0x8000 \<le> length (w_ram w)" using fit(1,3) by simp
  have "32 \<le> cap" using room by simp
  then obtain w3 cmd' where w3: "do_booti_linux p 0x7800 w2 = Some (Kernel (im_kernel_addr im) (bi_arch_number bi) (bi_boot_params bi), w3)"
      "for_each_tag (w_ram w3) b = Some (boot_tags bi (idme_area (?S 1) 0) cmd' (im_ramdisk_addr im) (im_ramdisk_size im))"
      "cstr_of cmd' = dropWhile (\<lambda>c. c = 0x20) (im_cmdline im)" "length (w_ram w3) = length ?ram" "sect (w_dev w3) = ?S"
      "\<forall>i. i < b \<or> 0x7800 \<le> i \<longrightarrow> i < length ?ram \<longrightarrow> w_ram w3 ! i = ?ram ! i"
    using do_booti_linux_ok[OF p(1) _ w2(3) b(1) w2(4)[symmetric] dram b(2), of "im_kernel_addr im" "im_ramdisk_addr im" "im_ramdisk_size im" "im_cmdline im"]
      hd big unfolding w2(2) l2 by (auto simp: HDR_SIZE_def)
  have same: "bslice x n (w_ram w3) = bslice x n ?ram" if "0x7800 \<le> x" "x + n \<le> length (w_ram w)" for x n
    using that w3(4,6) l2 by (intro nth_equalityI) (auto simp: nth_bslice)
  have k: "bslice ko ks ?ram = take ks K" and r: "bslice ro rs ?ram = take rs R"
    using loaded_parts[OF fit(5)[folded lK lR], of "patch 0x7800 ?H (w_ram w)" ks rs] sizes fit lK lR lh by simp_all
  have "do_booti p c junk junk_hdr argv w = Some (Halt (Kernel (im_kernel_addr im) (bi_arch_number bi) (bi_boot_params bi)), w3)"
    using sel(1) w2(1) w3(1) w(6) ptn unfolding do_booti_def argv p
    by (cases args) (simp_all add: mmc_arg1 Let_def del: bytes_Cons)
  then show ?thesis using w3 sel(5) k r same[of ko ks] same[of ro rs] fit sizes
    by (intro exI[of _ w3] exI[of _ cmd']) (auto simp: K_def R_def)
qed

text \<open>Without a free byte behind the array of the boot mode the command writes outside.\<close>

lemma do_booti_overrun:
  assumes "p_dev p = dev" "p_slack p = 0" and "inv (w_dev w)" "part (w_dev w) = 0" "1056 \<le> cap" "length (gblock_buff (w_idme w)) = 512"
  shows "do_booti p c junk junk_hdr argv w = None"
  using select_boot_image_ok(2)[OF assms(3-6)] assms(1,2) by (simp add: do_booti_def)

text \<open>Without a partition of that name, or without the magic number in it, the command enters fastboot.\<close>

lemma do_booti_bad:
  assumes p: "p_dev p = dev" "0 < p_slack p" and w: "inv (w_dev w)" "part (w_dev w) = 0" "length (gblock_buff (w_idme w)) = 512"
      "length (board_id (w_idme w)) = 17" "length (board_serial (w_idme w)) = 17" "\<not> w_gnUSBAttached w"
    and room: "1056 \<le> cap" and mbr: "plain_mbr (sect (w_dev w) 0 0)" and big: "0x8000 \<le> length (w_ram w)"
  defines "A \<equiv> idme_area (sect (w_dev w) 1) 0"
  defines "B \<equiv> if idme_magic A then A else default_area"
  assumes ptn: "ptn = (case args of [] \<Rightarrow> boot_choice (p_gpio p) (B ! 0x1008) (bytes ''boot'') | n # _ \<Rightarrow> n)"
    and bad: "case find_ptn w ptn of None \<Rightarrow> True | Some pte \<Rightarrow> (let a = unat (pt_start pte) + 2 in
        USER_BLOCK + 32 \<le> a \<and> a + 4 \<le> cap \<and> bslice 0 8 (sectors (sect (w_dev w) 0) a 4) \<noteq> BOOT_MAGIC)"
  shows "\<exists>w'. do_booti p c junk junk_hdr (cmd # bytes ''mmc1'' # args) w = do_fastboot p c junk 0 w' \<and> inv (w_dev w') \<and> part (w_dev w') = 0
    \<and> (\<forall>j. j < USER_BLOCK \<or> USER_BLOCK + 32 \<le> j \<longrightarrow> sect (w_dev w') 0 j = sect (w_dev w) 0 j)"
proof -
  obtain i s where sel: "idme_select_boot_image (p_slack p) dev (p_gpio p) (bytes ''boot'') (w_idme w) (w_dev w)
        = Some (0, boot_choice (p_gpio p) (B ! 0x1008) (bytes ''boot''), i, s)"
      "inv s" "part s = 0" "same_idme (w_idme w) i"
      "\<forall>j. j < USER_BLOCK \<or> USER_BLOCK + 32 \<le> j \<longrightarrow> sect s 0 j = sect (w_dev w) 0 j"
    using select_boot_image_ok(1)[OF w(1,2) room w(3) p(2), of "p_gpio p" "bytes ''boot''"] unfolding A_def B_def by blast
  let ?w1 = "w\<lparr>w_idme := i, w_dev := s\<rparr>"
  have w1: "idle (sect s) ?w1" using sel w by (auto simp: idle_def same_idme_def)
  have f1: "find_ptn ?w1 ptn = find_ptn w ptn" by (simp add: find_ptn_def)
  have mbr1: "plain_mbr (sect s 0 0)" using mbr sel(5) by simp
  obtain w2 where w2: "booti_mmc p 1 ptn ?w1 = Some (Inl (), w2)" "idle (sect s) w2"
  proof (cases "find_ptn w ptn")
    case None
    then have "booti_mmc p 1 ptn ?w1 = Some (Inl (), ?w1)" by (simp add: booti_mmc_def f1)
    then show ?thesis using w1 that by blast
  next
    case (Some pte)
    let ?a = "unat (pt_start pte) + 2"
    have a: "USER_BLOCK + 32 \<le> ?a" "?a + 4 \<le> cap" "bslice 0 8 (sectors (sect (w_dev w) 0) ?a 4) \<noteq> BOOT_MAGIC"
      using bad Some by (simp_all add: Let_def)
    have "sectors (sect s 0) ?a 4 = sectors (sect (w_dev w) 0) ?a 4" using sel(5) a(1) by (intro sectors_cong) simp
    then show ?thesis using booti_mmc_bad[OF p(1) w1 mbr1, of ptn pte ?a] f1 Some a big that by auto
  qed
  have "do_booti p c junk junk_hdr (cmd # bytes ''mmc1'' # args) w = do_fastboot p c junk 0 w2"
    using sel(1) w2(1) w(6) ptn unfolding do_booti_def p by (cases args) (simp_all add: mmc_arg1 Let_def del: bytes_Cons)
  then show ?thesis using w2(2) sel(5) by (auto simp: idle_def)
qed

end

end
