(* ===== verification/Command.thy ===== *)
theory Command
  imports Booti
begin

text \<open>
  The command line (\<^verbatim>\<open>common/main.c\<close>, \<^verbatim>\<open>find_cmd\<close> of \<^verbatim>\<open>common/command.c\<close>) and \<^verbatim>\<open>do_bootd\<close> of \<^verbatim>\<open>common/cmd_bootm.c\<close>: reading a
  line, splitting it at semicolons, replacing variables, splitting it into arguments, looking the command up and calling it; and the main
  loop with the automatic boot.

  Strings are lists of bytes without a terminator. The command table, which the linker collects, is the list \<open>sh_tbl\<close>; the other fields of
  \<open>shell\<close> are the console (\<^verbatim>\<open>common/console.c\<close>) and the completion of commands at a tab. A command gets the flags and its arguments.
\<close>

definition CFG_CBSIZE :: nat where "CFG_CBSIZE = 256"
definition CFG_MAXARGS :: nat where "CFG_MAXARGS = 16"
definition CMD_FLAG_REPEAT :: u32 where "CMD_FLAG_REPEAT = 1"
definition CMD_FLAG_BOOTD :: u32 where "CMD_FLAG_BOOTD = 2"

text \<open>\<open>is_bootd\<close> stands for the comparison of the function pointer with \<^verbatim>\<open>do_bootd\<close>.\<close>

record 'w cmd_tbl =
  cmd_name :: "byte list"
  maxargs :: nat
  repeatable :: bool
  cmd_fun :: "u32 \<Rightarrow> byte list list \<Rightarrow> 'w \<Rightarrow> (ret \<times> 'w) option"
  is_bootd :: bool

record 'w shell =
  sh_tbl :: "'w cmd_tbl list"
  sh_clear_ctrlc :: "'w \<Rightarrow> 'w"
  sh_had_ctrlc :: "'w \<Rightarrow> bool"
  sh_tstc :: "'w \<Rightarrow> bool \<times> 'w"
  sh_getc :: "'w \<Rightarrow> byte \<times> 'w"
  sh_complete :: "byte list \<Rightarrow> 'w \<Rightarrow> byte list option \<times> 'w"

section \<open>Arguments and variables\<close>

text \<open>
  The arguments of a line, at most \<open>n\<close>. When that many have been found and a blank follows the last one, the code prints a
  message and leaves \<^verbatim>\<open>argv[nargs]\<close> unset.
\<close>

fun parse_line :: "nat \<Rightarrow> byte list \<Rightarrow> byte list list" where
  "parse_line 0 line = []"
| "parse_line (Suc n) line =
     (let line = dropWhile is_blank line in
      if line = [] then [] else
      (let arg = takeWhile (\<lambda>c. \<not> is_blank c) line; line = dropWhile (\<lambda>c. \<not> is_blank c) line in
       if line = [] then [arg] else arg # parse_line n (tl line)))"

text \<open>
  One turn of \<^verbatim>\<open>process_macros\<close> on the character \<open>c\<close>, behind the removal of an escape: \<open>input\<close> is what follows, \<open>vs\<close> the input
  from \<^verbatim>\<open>varname_start\<close> on. The name of a variable is taken from the input as it stands, with its escapes. The room left is
  \<^verbatim>\<open>CFG_CBSIZE\<close> less the output so far.
\<close>

definition macro_step :: "(byte list \<Rightarrow> byte list option option) \<Rightarrow> byte \<Rightarrow> byte list \<Rightarrow> byte \<Rightarrow> nat \<Rightarrow> byte list \<Rightarrow> byte list
    \<Rightarrow> (nat \<times> byte list \<times> byte list) option" where
  "macro_step get c input prev state vs out =
     (if state = 0 then
        if c = 0x27 \<and> prev \<noteq> 0x5c then Some (3, vs, out)
        else if c = 0x24 \<and> prev \<noteq> 0x5c then Some (1, vs, out)
        else Some (0, vs, out @ [c])
      else if state = 1 then
        if c = 0x28 \<or> c = 0x7b then Some (2, input, out)
        else Some (0, vs, take CFG_CBSIZE (out @ [0x24, c]))
      else if state = 2 then
        if c = 0x29 \<or> c = 0x7d then do {
          v \<leftarrow> get (take (length vs - length input - 1) vs);
          Some (0, vs, case v of None \<Rightarrow> out | Some v \<Rightarrow> take CFG_CBSIZE (out @ v)) }
        else Some (2, vs, out)
      else if c = 0x27 \<and> prev \<noteq> 0x5c then Some (0, vs, out)
      else Some (3, vs, out @ [c]))"

fun macro_loop :: "(byte list \<Rightarrow> byte list option option) \<Rightarrow> byte list \<Rightarrow> byte \<Rightarrow> nat \<Rightarrow> byte list \<Rightarrow> byte list \<Rightarrow> byte list option" where
  "macro_loop get [] prev state vs out = Some out"
| "macro_loop get (c # input) prev state vs out =
     (if length out \<ge> CFG_CBSIZE then Some out
      else if state \<noteq> 3 \<and> c = 0x5c \<and> prev \<noteq> 0x5c then
        (case input of
           [] \<Rightarrow> Some out
         | d # input \<Rightarrow> do {
             (state, vs, out) \<leftarrow> macro_step get d input c state vs out;
             macro_loop get input d state vs out })
      else do {
        (state, vs, out) \<leftarrow> macro_step get c input prev state vs out;
        macro_loop get input c state vs out })"

text \<open>The output is not terminated when it fills the buffer; reading it then leaves the buffer.\<close>

definition process_macros :: "(byte list \<Rightarrow> byte list option option) \<Rightarrow> byte list \<Rightarrow> byte list option" where
  "process_macros get input = do {
     out \<leftarrow> macro_loop get input 0 0 [] [];
     if length out < CFG_CBSIZE then Some out else None }"

section \<open>Finding the command\<close>

definition name_len :: "byte list \<Rightarrow> nat" where
  "name_len c = length (takeWhile (\<lambda>x. x \<noteq> 0x2e) c)"

fun find_cmd_loop :: "'w cmd_tbl list \<Rightarrow> byte list \<Rightarrow> nat \<Rightarrow> 'w cmd_tbl option \<Rightarrow> nat \<Rightarrow> 'w cmd_tbl option" where
  "find_cmd_loop [] c len temp n_found = (if n_found = 1 then temp else None)"
| "find_cmd_loop (t # ts) c len temp n_found =
     (if strncmp_s c (cmd_name t) len = 0 then
        if len = length (cmd_name t) then Some t else find_cmd_loop ts c len (Some t) (n_found + 1)
      else find_cmd_loop ts c len temp n_found)"

definition find_cmd :: "'w cmd_tbl list \<Rightarrow> byte list \<Rightarrow> 'w cmd_tbl option" where
  "find_cmd tbl c = find_cmd_loop tbl c (name_len c) None 0"

section \<open>Running a line\<close>

text \<open>
  The text up to the next separator, and what follows the separator if there is one. \<open>prev\<close> is the character before; before the start of the
  line there is none, and a quote there makes the code read it.
\<close>

fun find_sep :: "bool \<Rightarrow> byte option \<Rightarrow> bool \<Rightarrow> byte list \<Rightarrow> (byte list \<times> byte list option) option" where
  "find_sep inquotes prev start [] = Some ([], None)"
| "find_sep inquotes prev start (c # cs) = do {
     q \<leftarrow> (if c = 0x27 then do { b \<leftarrow> prev; Some (if b \<noteq> 0x5c then \<not> inquotes else inquotes) } else Some inquotes);
     stop \<leftarrow> (if \<not> q \<and> c = 0x3b \<and> \<not> start then do { b \<leftarrow> prev; Some (b \<noteq> 0x5c) } else Some False);
     if stop then Some ([], Some cs) else do {
     (token, rst) \<leftarrow> find_sep q (Some c) False cs;
     Some (c # token, rst) } }"

lemma find_sep_length: "find_sep q b st s = Some (t, Some r) \<Longrightarrow> length r < length s"
  by (induction q b st s arbitrary: t rule: find_sep.induct) (auto split: if_splits simp: opt_bind less_SucI)

text \<open>One command; \<open>Inl\<close> is a result the loop goes on with, as the new value of \<^verbatim>\<open>rc\<close>, or none when it keeps its value.\<close>

definition run_token :: "('s, 'u, 'c) world shell \<Rightarrow> byte list \<Rightarrow> u32 \<Rightarrow> ('s, 'u, 'c) world
    \<Rightarrow> (((int option \<times> bool) + ret) \<times> u32 \<times> ('s, 'u, 'c) world) option" where
  "run_token sh token flag w = do {
     finaltoken \<leftarrow> process_macros (\<lambda>n. getenv n (w_env w)) token;
     let argv = parse_line CFG_MAXARGS finaltoken;
     if argv = [] then Some (Inl (Some (-1), True), flag, w) else
     (case find_cmd (sh_tbl sh) (argv ! 0) of
        None \<Rightarrow> Some (Inl (Some (-1), True), flag, w)
      | Some t \<Rightarrow>
          if length argv > maxargs t then Some (Inl (Some (-1), True), flag, w)
          else if is_bootd t \<and> flag AND CMD_FLAG_BOOTD \<noteq> 0 then Some (Inl (Some (-1), True), flag, w)
          else do {
            let flag = (if is_bootd t then flag OR CMD_FLAG_BOOTD else flag);
            (r, w) \<leftarrow> cmd_fun t flag argv w;
            case r of
              Halt h \<Rightarrow> Some (Inr (Halt h), flag, w)
            | Ret x \<Rightarrow>
                if sh_had_ctrlc sh w then Some (Inr (Ret 0), flag, w)
                else Some (Inl (if x \<noteq> 0 then Some (-1) else None, repeatable t), flag, w) }) }"

function run_loop :: "('s, 'u, 'c) world shell \<Rightarrow> byte option \<Rightarrow> byte list \<Rightarrow> u32 \<Rightarrow> int \<Rightarrow> bool \<Rightarrow> ('s, 'u, 'c) world
    \<Rightarrow> (ret \<times> ('s, 'u, 'c) world) option" where
  "run_loop sh prev str flag rc rep w =
     (if str = [] then Some (Ret (if rc \<noteq> 0 then rc else of_bool rep), w)
      else (case find_sep False prev True str of
        None \<Rightarrow> None
      | Some (token, rst) \<Rightarrow> do {
          (x, flag, w) \<leftarrow> run_token sh token flag w;
          case x of
            Inr r \<Rightarrow> Some (r, w)
          | Inl (y, again) \<Rightarrow> do {
              let rc = (case y of None \<Rightarrow> rc | Some z \<Rightarrow> z);
              case rst of
                None \<Rightarrow> Some (Ret (if rc \<noteq> 0 then rc else of_bool (rep \<and> again)), w)
              | Some str \<Rightarrow> run_loop sh (Some 0) str flag rc (rep \<and> again) w } }))"
  by pat_completeness auto
termination
  by (relation "measure (\<lambda>(sh, prev, str, flag, rc, rep, w). length str)") (auto dest: find_sep_length)

declare run_loop.simps [simp del]

definition run_command :: "('s, 'u, 'c) world shell \<Rightarrow> byte list option \<Rightarrow> u32 \<Rightarrow> ('s, 'u, 'c) world
    \<Rightarrow> (ret \<times> ('s, 'u, 'c) world) option" where
  "run_command sh cmd flag w =
     (let w = sh_clear_ctrlc sh w in
      case cmd of
        None \<Rightarrow> Some (Ret (-1), w)
      | Some s \<Rightarrow> if s = [] then Some (Ret (-1), w)
          else if length s \<ge> CFG_CBSIZE then Some (Ret (-1), w)
          else run_loop sh None s flag 0 True w)"

fun run_vars :: "('s, 'u, 'c) world shell \<Rightarrow> byte list list \<Rightarrow> u32 \<Rightarrow> ('s, 'u, 'c) world \<Rightarrow> (ret \<times> ('s, 'u, 'c) world) option" where
  "run_vars sh [] flag w = Some (Ret 0, w)"
| "run_vars sh (a # as) flag w = do {
     arg \<leftarrow> getenv a (w_env w);
     case arg of
       None \<Rightarrow> Some (Ret 1, w)
     | Some _ \<Rightarrow> do {
         (r, w) \<leftarrow> run_command sh arg flag w;
         if r = Ret (-1) then Some (Ret 1, w)
         else case r of Halt h \<Rightarrow> Some (Halt h, w) | Ret _ \<Rightarrow> run_vars sh as flag w } }"

definition do_run :: "('s, 'u, 'c) world shell \<Rightarrow> u32 \<Rightarrow> byte list list \<Rightarrow> ('s, 'u, 'c) world \<Rightarrow> (ret \<times> ('s, 'u, 'c) world) option" where
  "do_run sh flag argv w = (if length argv < 2 then Some (Ret 1, w) else run_vars sh (drop 1 argv) flag w)"

definition do_bootd :: "('s, 'u, 'c) world shell \<Rightarrow> u32 \<Rightarrow> ('s, 'u, 'c) world \<Rightarrow> (ret \<times> ('s, 'u, 'c) world) option" where
  "do_bootd sh flag w = do {
     s \<leftarrow> getenv (bytes ''bootcmd'') (w_env w);
     (r, w) \<leftarrow> run_command sh s flag w;
     case r of Halt h \<Rightarrow> Some (Halt h, w) | Ret x \<Rightarrow> Some (Ret (if x < 0 then 1 else 0), w) }"

section \<open>Reading a line\<close>

text \<open>The characters typed so far are \<open>buf\<close>; the display is left out.\<close>

definition delete_char :: "byte list \<Rightarrow> byte list" where
  "delete_char buf = butlast buf"

function delete_word :: "byte list \<Rightarrow> byte list" where
  "delete_word buf =
     (if buf = [] then []
      else if delete_char buf \<noteq> [] \<and> last buf \<noteq> 0x20 then delete_word (delete_char buf) else delete_char buf)"
  by pat_completeness auto
termination by (relation "measure length") (auto simp: delete_char_def)

declare delete_word.simps [simp del]

text \<open>The result is \<^const>\<open>None\<close> for a break.\<close>

partial_function (option) readline :: "'w shell \<Rightarrow> byte list \<Rightarrow> 'w \<Rightarrow> (byte list option \<times> 'w) option" where
  "readline sh buf w =
     (let (c, w) = sh_getc sh w in
      if c = 13 \<or> c = 10 then Some (Some buf, w)
      else if c = 0 then readline sh buf w
      else if c = 3 then Some (None, w)
      else if c = 0x15 then readline sh [] w
      else if c = 0x17 then readline sh (delete_word buf) w
      else if c = 8 \<or> c = 0x7f then readline sh (delete_char buf) w
      else if length buf < CFG_CBSIZE - 2 then
        if c = 9 then
          (case sh_complete sh buf w of
             (Some buf, w) \<Rightarrow> readline sh buf w
           | (None, w) \<Rightarrow> readline sh (buf @ [c]) w)
        else readline sh (buf @ [c]) w
      else readline sh buf w)"

section \<open>The main loop\<close>

text \<open>Watching for a key: \<open>n\<close> polls of 10 ms, then \<open>bootdelay\<close> seconds of 100 polls.\<close>

fun key_polls :: "'w shell \<Rightarrow> nat \<Rightarrow> 'w \<Rightarrow> bool \<times> 'w" where
  "key_polls sh 0 w = (False, w)"
| "key_polls sh (Suc n) w =
     (let (k, w) = sh_tstc sh w in if k then (True, snd (sh_getc sh w)) else key_polls sh n w)"

fun delay_loop :: "'w shell \<Rightarrow> nat \<Rightarrow> 'w \<Rightarrow> bool \<times> 'w" where
  "delay_loop sh 0 w = (False, w)"
| "delay_loop sh (Suc n) w = (let (k, w) = key_polls sh 100 w in if k then (True, w) else delay_loop sh n w)"

definition abortboot :: "'w shell \<Rightarrow> int \<Rightarrow> 'w \<Rightarrow> bool \<times> 'w" where
  "abortboot sh bootdelay w =
     (let (k, w) = (if bootdelay \<ge> 0 then
          (let (k, w) = sh_tstc sh w in if k then (True, snd (sh_getc sh w)) else (False, w)) else (False, w))
      in if k then (True, w) else delay_loop sh (nat bootdelay) w)"

partial_function (option) main_cmds :: "('s, 'u, 'c) world shell \<Rightarrow> byte list \<Rightarrow> int \<Rightarrow> ('s, 'u, 'c) world \<Rightarrow> (halt \<times> ('s, 'u, 'c) world) option" where
  "main_cmds sh lastcommand rc w = do {
     (line, w) \<leftarrow> readline sh [] w;
     case line of
       None \<Rightarrow> main_cmds sh (if rc \<le> 0 then [] else lastcommand) rc w
     | Some s \<Rightarrow> do {
         let lastcommand = (if s \<noteq> [] then s else lastcommand);
         (r, w) \<leftarrow> run_command sh (Some lastcommand) (if s = [] then CMD_FLAG_REPEAT else 0) w;
         case r of
           Halt h \<Rightarrow> Some (h, w)
         | Ret rc \<Rightarrow> main_cmds sh (if rc \<le> 0 then [] else lastcommand) rc w } }"

text \<open>What the boot message asks for: the variable with the command, and whether it is the recovery system.\<close>

definition boot_env_of :: "byte list option \<Rightarrow> byte list \<times> bool" where
  "boot_env_of m = (case m of
       Some c \<Rightarrow> if strcmp_s c BOOTMSG_COMMAND_RECOVERY = 0 then (bytes ''recoverycmd'', True) else (bytes ''bootcmd'', False)
     | None \<Rightarrow> (bytes ''bootcmd'', False))"

definition autoboot :: "('s, 'u, 'c, 'w) plat \<Rightarrow> ('s, 'u, 'c) world shell \<Rightarrow> ('s, 'u, 'c) world \<Rightarrow> (ret \<times> ('s, 'u, 'c) world) option" where
  "autoboot p sh w = do {
     s \<leftarrow> getenv (bytes ''bootdelay'') (w_env w);
     let bootdelay = (case s of Some s \<Rightarrow> sint (fst (simple_strtol s 10)) | None \<Rightarrow> 1);
     (m, w) \<leftarrow> bootmsg_get_command p w;
     let w = (if snd (boot_env_of m) then w\<lparr>w_is_recovery_mode := True\<rparr> else w);
     s \<leftarrow> getenv (fst (boot_env_of m)) (w_env w);
     if bootdelay \<ge> 0 \<and> s \<noteq> None then
       (let (k, w) = abortboot sh bootdelay w in if k then Some (Ret 0, w) else run_command sh s 0 w)
     else Some (Ret 0, w) }"

definition main_loop :: "('s, 'h usb, 'c, 'w) plat \<Rightarrow> 'h usb_hw \<Rightarrow> ('s, 'h usb, 'c) world shell \<Rightarrow> ('s, 'h usb, 'c) world
    \<Rightarrow> (halt \<times> ('s, 'h usb, 'c) world) option" where
  "main_loop p c sh w = do {
     (r, w) \<leftarrow> fastboot_preboot p c w;
     (x, w) \<leftarrow> (if r \<noteq> 0 then run_command sh (Some (bytes ''fastboot'')) 0 w else Some (Ret 0, w));
     case x of
       Halt h \<Rightarrow> Some (h, w)
     | Ret _ \<Rightarrow> do {
         (x, w) \<leftarrow> autoboot p sh w;
         case x of Halt h \<Rightarrow> Some (h, w) | Ret _ \<Rightarrow> main_cmds sh [] 1 w } }"

end
