(* ===== verification/CommandOk.thy ===== *)
theory CommandOk
  imports Command "HOL-Library.Sublist"
begin

text \<open>
  What the pieces of the command line compute: the arguments are the words of the line, a command is found by its name or by an
  abbreviation only it has, and variables are replaced by their values.
\<close>

section \<open>Arguments\<close>

text \<open>Cutting a line at every blank.\<close>

fun split_blank :: "byte list \<Rightarrow> byte list list" where
  "split_blank [] = [[]]"
| "split_blank (c # cs) = (if is_blank c then [] # split_blank cs else (c # hd (split_blank cs)) # tl (split_blank cs))"

definition line_words :: "byte list \<Rightarrow> byte list list" where
  "line_words s = filter (\<lambda>x. x \<noteq> []) (split_blank s)"

lemma split_blank_ne [simp]: "split_blank s \<noteq> []"
  by (cases s) auto

lemma split_blank_word: "\<forall>c\<in>set x. \<not> is_blank c \<Longrightarrow> split_blank (x @ s) = (x @ hd (split_blank s)) # tl (split_blank s)"
  by (induction x) auto

lemma line_words_blank: "line_words (dropWhile is_blank s) = line_words s"
  by (induction s) (auto simp: line_words_def)

lemma line_words_cons:
  assumes "\<forall>c\<in>set x. \<not> is_blank c" and "x \<noteq> []" and "s = [] \<or> is_blank (hd s)"
  shows "line_words (x @ s) = x # line_words (tl s)"
  using assms split_blank_word[OF assms(1), of s] by (cases s) (auto simp: line_words_def)

lemma parse_line_eq: "parse_line n s = take n (line_words s)"
proof (induction n arbitrary: s)
  case (Suc n)
  let ?l = "dropWhile is_blank s"
  show ?case
  proof (cases "?l = []")
    case True
    then show ?thesis using line_words_blank[of s] by (simp add: line_words_def del: dropWhile_eq_Nil_conv)
  next
    case False
    let ?x = "takeWhile (\<lambda>c. \<not> is_blank c) ?l" and ?r = "dropWhile (\<lambda>c. \<not> is_blank c) ?l"
    have x: "\<forall>c\<in>set ?x. \<not> is_blank c" "?x \<noteq> []" "?r = [] \<or> is_blank (hd ?r)"
      using False hd_dropWhile[OF False] hd_dropWhile[of "\<lambda>c. \<not> is_blank c" ?l]
      by (auto dest: set_takeWhileD simp: takeWhile_eq_Nil_iff)
    have "line_words s = ?x # line_words (tl ?r)"
      using line_words_cons[OF x] line_words_blank[of s] by simp
    moreover have "parse_line (Suc n) s = ?x # parse_line n (tl ?r)"
    proof (cases "?r = []")
      case True
      have "parse_line n [] = []" by (cases n) auto
      then show ?thesis using False True by (simp add: Let_def del: dropWhile_eq_Nil_conv)
    next
      case r: False
      then show ?thesis using False by (simp add: Let_def del: dropWhile_eq_Nil_conv)
    qed
    ultimately show ?thesis using Suc.IH[of "tl ?r"] by simp
  qed
qed simp

text \<open>
  C32. Splitting a line into arguments: \<^verbatim>\<open>parse_line\<close> gives the words of the line, that is what lies between blanks and is not
  empty, in their order, and no more than the limit.
\<close>

theorem parse_line_words: "parse_line CFG_MAXARGS s = take 16 (filter (\<lambda>x. x \<noteq> []) (split_blank s))"
  by (simp add: parse_line_eq line_words_def CFG_MAXARGS_def)

section \<open>Variables\<close>

datatype segment = Lit "byte list" | Var "byte list"

fun render :: "segment \<Rightarrow> byte list" where
  "render (Lit s) = s"
| "render (Var n) = [0x24, 0x28] @ n @ [0x29]"

fun seg_ok :: "segment \<Rightarrow> bool" where
  "seg_ok (Lit s) \<longleftrightarrow> set s \<inter> {0x24, 0x27, 0x5c} = {}"
| "seg_ok (Var n) \<longleftrightarrow> set n \<inter> {0x29, 0x7d, 0x5c} = {}"

fun seg_val :: "(byte list \<Rightarrow> byte list option) \<Rightarrow> segment \<Rightarrow> byte list" where
  "seg_val env (Lit s) = s"
| "seg_val env (Var n) = (case env n of None \<Rightarrow> [] | Some v \<Rightarrow> v)"

lemma macro_lit:
  assumes "set s \<inter> {0x24, 0x27, 0x5c} = {}" and "length out + length s < CFG_CBSIZE" and "prev \<noteq> 0x5c"
  shows "\<exists>prev'. prev' \<noteq> 0x5c \<and> macro_loop get (s @ r) prev 0 vs out = macro_loop get r prev' 0 vs (out @ s)"
  using assms
proof (induction s arbitrary: prev out)
  case (Cons c s)
  then show ?case using Cons.IH[of "out @ [c]" c] by (auto simp: macro_step_def)
qed auto

lemma macro_name:
  assumes "set n \<inter> {0x29, 0x7d, 0x5c} = {}" and "length out < CFG_CBSIZE" and "prev \<noteq> 0x5c"
  shows "\<exists>prev'. prev' \<noteq> 0x5c \<and> macro_loop get (n @ r) prev 2 vs out = macro_loop get r prev' 2 vs out"
  using assms
proof (induction n arbitrary: prev)
  case (Cons c n)
  then show ?case using Cons.IH[of c] by (auto simp: macro_step_def)
qed auto

lemma macro_var:
  assumes "set n \<inter> {0x29, 0x7d, 0x5c} = {}" and "length out + length v < CFG_CBSIZE" and "prev \<noteq> 0x5c"
    and "get n = Some x" and "v = (case x of None \<Rightarrow> [] | Some v \<Rightarrow> v)"
  shows "\<exists>prev' vs'. prev' \<noteq> 0x5c \<and> macro_loop get (render (Var n) @ r) prev 0 vs out = macro_loop get r prev' 0 vs' (out @ v)"
proof -
  have o: "length out < CFG_CBSIZE" using assms(2) by simp
  let ?vs = "n @ 0x29 # r"
  have "macro_loop get (render (Var n) @ r) prev 0 vs out = macro_loop get (n @ 0x29 # r) 0x28 2 ?vs out"
    using o assms(3) by (simp add: macro_step_def)
  moreover obtain q where q: "q \<noteq> 0x5c" "macro_loop get (n @ 0x29 # r) 0x28 2 ?vs out = macro_loop get (0x29 # r) q 2 ?vs out"
    using macro_name[OF assms(1) o, of "0x28" get "0x29 # r" ?vs] by auto
  moreover have "macro_loop get (0x29 # r) q 2 ?vs out = macro_loop get r 0x29 0 ?vs (out @ v)"
    using o assms(2,4,5) by (auto simp: macro_step_def split: option.split)
  ultimately show ?thesis by (intro exI[of _ "0x29"] exI[of _ ?vs]) simp
qed

lemma macro_segments:
  assumes "list_all seg_ok segs" and "\<forall>n. get n = Some (env n)" and "length out + length (concat (map (seg_val env) segs)) < CFG_CBSIZE"
    and "prev \<noteq> 0x5c"
  shows "macro_loop get (concat (map render segs)) prev 0 vs out = Some (out @ concat (map (seg_val env) segs))"
  using assms(1,3,4)
proof (induction segs arbitrary: prev vs out)
  case (Cons s segs)
  have l: "length out + length (seg_val env s) < CFG_CBSIZE" using Cons.prems(2) by simp
  obtain q vs' where q: "q \<noteq> 0x5c" "macro_loop get (render s @ concat (map render segs)) prev 0 vs out
      = macro_loop get (concat (map render segs)) q 0 vs' (out @ seg_val env s)"
  proof (cases s)
    case (Lit x)
    then show ?thesis using that macro_lit[of x out prev get "concat (map render segs)" vs] Cons.prems l by auto
  next
    case (Var n)
    then show ?thesis using that macro_var[of n out "seg_val env s" prev get "env n" "concat (map render segs)" vs] Cons.prems l assms(2)
      by (auto simp del: render.simps split: option.splits)
  qed
  then show ?case using Cons.IH[of "out @ seg_val env s" q vs'] Cons.prems by simp
qed simp

text \<open>
  C30. The variables of a command: in a line that is plain text with \<^verbatim>\<open>$(name)\<close> between, each variable is replaced by its value, or
  by nothing when it is not set, and the text stays, as long as the result fits the buffer of 256 bytes.
\<close>

theorem macros_expand:
  assumes "list_all seg_ok segs" and "\<forall>n. get n = Some (env n)" and "length (concat (map (seg_val env) segs)) < CFG_CBSIZE"
  shows "process_macros get (concat (map render segs)) = Some (concat (map (seg_val env) segs))"
  using macro_segments[OF assms(1,2), of "[]" 0 "[]"] assms(3) by (simp add: process_macros_def)

theorem macros_expand_witness:
  "process_macros (\<lambda>n. Some (if n = bytes ''part'' then Some (bytes ''recovery'') else None)) (bytes ''booti mmc1 $(part)$(x);'')
     = Some (bytes ''booti mmc1 recovery;'')"
proof -
  let ?env = "\<lambda>n. if n = bytes ''part'' then Some (bytes ''recovery'') else None"
  have "process_macros (\<lambda>n. Some (?env n)) (concat (map render [Lit (bytes ''booti mmc1 ''), Var (bytes ''part''), Var (bytes ''x''), Lit (bytes '';'')]))
     = Some (concat (map (seg_val ?env) [Lit (bytes ''booti mmc1 ''), Var (bytes ''part''), Var (bytes ''x''), Lit (bytes '';'')]))"
    by (rule macros_expand) (simp_all add: CFG_CBSIZE_def)
  then show ?thesis by simp
qed

section \<open>Commands\<close>

text \<open>The part of the first argument that is looked up: up to the first dot.\<close>

definition cmd_key :: "byte list \<Rightarrow> byte list" where
  "cmd_key c = takeWhile (\<lambda>x. x \<noteq> 0x2e) c"

lemma cmd_key_take: "cmd_key c = take (name_len c) c"
  by (simp add: cmd_key_def name_len_def flip: takeWhile_eq_take)

lemma cmd_match:
  assumes "0 \<notin> set c" and "0 \<notin> set n"
  shows "strncmp_s c n (name_len c) = 0 \<longleftrightarrow> prefix (cmd_key c) n"
    and "strncmp_s c n (name_len c) = 0 \<and> name_len c = length n \<longleftrightarrow> n = cmd_key c"
proof -
  have l: "length (cmd_key c) = name_len c" by (simp add: cmd_key_def name_len_def)
  have "strncmp_s c n (name_len c) = 0 \<longleftrightarrow> cmd_key c = take (name_len c) n"
    by (simp add: strncmp_s_zero[OF assms] cmd_key_take)
  moreover have "cmd_key c = take (name_len c) n \<longleftrightarrow> prefix (cmd_key c) n"
    using l by (metis append_eq_conv_conj prefix_def take_is_prefix)
  ultimately show 1: "strncmp_s c n (name_len c) = 0 \<longleftrightarrow> prefix (cmd_key c) n" by simp
  show "strncmp_s c n (name_len c) = 0 \<and> name_len c = length n \<longleftrightarrow> n = cmd_key c"
    unfolding 1 using l by (auto simp: prefix_def)
qed

lemma find_cmd_loop_eq:
  assumes "0 \<notin> set c" and "\<forall>t\<in>set tbl. 0 \<notin> set (cmd_name t)"
  shows "find_cmd_loop tbl c (name_len c) temp k =
    (case find (\<lambda>t. cmd_name t = cmd_key c) tbl of
       Some t \<Rightarrow> Some t
     | None \<Rightarrow> (let ts = filter (\<lambda>t. prefix (cmd_key c) (cmd_name t)) tbl in
         if k + length ts = 1 then (if ts = [] then temp else Some (last ts)) else None))"
  using assms(2)
proof (induction tbl arbitrary: temp k)
  case (Cons t tbl)
  have 0: "0 \<notin> set (cmd_name t)" using Cons.prems by simp
  show ?case using Cons cmd_match[OF assms(1) 0]
    by (cases "prefix (cmd_key c) (cmd_name t)") (auto simp: Let_def split: option.split)
qed (auto split: if_splits)

text \<open>
  C31. Looking a command up: what counts is the first argument up to its first dot. The first entry of the table with exactly that name is
  found; when there is none, an entry whose name begins with it is found provided it is the only one, and otherwise nothing is.
\<close>

theorem find_cmd_spec:
  assumes "0 \<notin> set c" and "\<forall>t\<in>set tbl. 0 \<notin> set (cmd_name t)"
  shows "find_cmd tbl c =
    (case find (\<lambda>t. cmd_name t = cmd_key c) tbl of
       Some t \<Rightarrow> Some t
     | None \<Rightarrow> (case filter (\<lambda>t. prefix (cmd_key c) (cmd_name t)) tbl of [t] \<Rightarrow> Some t | _ \<Rightarrow> None))"
proof -
  have "(let ts = filter P tbl in if 0 + length ts = 1 then (if ts = [] then None else Some (last ts)) else None)
      = (case filter P tbl of [t] \<Rightarrow> Some t | _ \<Rightarrow> None)" for P
    by (auto simp: Let_def split: list.split)
  then show ?thesis unfolding find_cmd_def find_cmd_loop_eq[OF assms] by (simp split: option.split)
qed

definition some_cmd :: "byte list \<Rightarrow> unit cmd_tbl" where
  "some_cmd n = \<lparr>cmd_name = n, maxargs = 1, repeatable = True, cmd_fun = (\<lambda>_ _ w. Some (Ret 0, w)), is_bootd = False\<rparr>"

theorem find_cmd_spec_witness:
  "let tbl = map some_cmd [bytes ''bootd'', bytes ''boot'', bytes ''booti'', bytes ''md''] in
     find_cmd tbl (bytes ''boot'') = Some (some_cmd (bytes ''boot'')) \<and> find_cmd tbl (bytes ''boo'') = None
     \<and> find_cmd tbl (bytes ''m.b'') = Some (some_cmd (bytes ''md''))"
  unfolding Let_def
  by (subst find_cmd_spec; simp add: some_cmd_def cmd_key_def)+

end
