(* ===== verification/Boot.thy ===== *)
theory Boot
  imports BootiOk CommandOk EnvStore Stack
begin

text \<open>
  The boot loader put together: the table of commands, the calls by which fastboot and the commands run each other, and the way from the
  main loop to the kernel.
\<close>

section \<open>The commands\<close>

text \<open>
  The entries the sources declare with \<^verbatim>\<open>U_BOOT_CMD\<close>. The functions that run commands themselves are arguments; \<open>p\<close> gives the
  drivers. The commands that are not modelled are appended below.
\<close>

definition entry :: "string \<Rightarrow> nat \<Rightarrow> bool \<Rightarrow> (u32 \<Rightarrow> byte list list \<Rightarrow> 'w \<Rightarrow> (ret \<times> 'w) option) \<Rightarrow> 'w cmd_tbl" where
  "entry name n rep f = \<lparr>cmd_name = bytes name, maxargs = n, repeatable = rep, cmd_fun = f, is_bootd = False\<rparr>"

definition commands :: "('s, 'h usb, 'c, ('s, 'h usb, 'c) world) plat \<Rightarrow> (u32 \<Rightarrow> ('s, 'h usb, 'c) world \<Rightarrow> (ret \<times> ('s, 'h usb, 'c) world) option)
    \<Rightarrow> (u32 \<Rightarrow> byte list list \<Rightarrow> ('s, 'h usb, 'c) world \<Rightarrow> (ret \<times> ('s, 'h usb, 'c) world) option)
    \<Rightarrow> (byte list list \<Rightarrow> ('s, 'h usb, 'c) world \<Rightarrow> (ret \<times> ('s, 'h usb, 'c) world) option)
    \<Rightarrow> (int \<Rightarrow> ('s, 'h usb, 'c) world \<Rightarrow> (ret \<times> ('s, 'h usb, 'c) world) option) \<Rightarrow> ('s, 'h usb, 'c) world cmd_tbl list" where
  "commands p bootd run booti fastboot =
     [(entry ''boot'' 1 True (\<lambda>flag argv. bootd flag))\<lparr>is_bootd := True\<rparr>,
      (entry ''bootd'' 1 True (\<lambda>flag argv. bootd flag))\<lparr>is_bootd := True\<rparr>,
      entry ''booti'' 3 True (\<lambda>flag. booti),
      entry ''fastboot'' 1 True (\<lambda>flag argv. fastboot (uint flag)),
      entry ''idme'' 3 True (\<lambda>flag argv w. do {
        (r, _, i, s) \<leftarrow> do_idme (p_dev p) True (length argv) argv (w_idme w) (w_dev w);
        Some (Ret r, w\<lparr>w_idme := i, w_dev := s\<rparr>) }),
      entry ''mmcinit'' 6 True (\<lambda>flag argv w. do { (r, w) \<leftarrow> do_mmc p False argv w; Some (Ret r, w) }),
      entry ''printenv'' CFG_MAXARGS True (\<lambda>flag argv w. do {
        (r, c) \<leftarrow> do_printenv (p_io p) argv (w_env w) (w_con w);
        Some (Ret r, w\<lparr>w_con := c\<rparr>) }),
      entry ''setenv'' CFG_MAXARGS False (\<lambda>flag argv w. do {
        (r, e, c) \<leftarrow> do_setenv (p_io p) (map Some argv) (w_env w) (w_con w);
        Some (Ret r, w\<lparr>w_env := e, w_con := c\<rparr>) }),
      entry ''saveenv'' 2 False (\<lambda>flag argv w. do {
        (r, c) \<leftarrow> do_saveenv (p_io p) argv (w_con w);
        Some (Ret r, w\<lparr>w_con := c\<rparr>) }),
      entry ''run'' CFG_MAXARGS True run]"

text \<open>
  A board: the drivers, the USB controller, the two values the code reads without setting them, and the console with the commands that are
  not modelled.
\<close>

record ('s, 'h, 'c) board =
  bo_plat :: "('s, 'h usb, 'c, ('s, 'h usb, 'c) world) plat"
  bo_usb :: "'h usb_hw"
  bo_junk :: int
  bo_junk_hdr :: u32
  bo_shell :: "('s, 'h usb, 'c) world shell"

text \<open>
  Commands and fastboot call each other: \<^verbatim>\<open>booti\<close> enters fastboot, which runs \<^verbatim>\<open>booti\<close> and \<^verbatim>\<open>boot\<close> for the host, and \<^verbatim>\<open>run\<close> and
  \<^verbatim>\<open>boot\<close> run lines. \<open>system b n\<close> is the boot loader with calls nested up to depth \<open>n\<close>; a deeper call does not return
  (\<^const>\<open>None\<close>).
\<close>

fun system :: "('s, 'h, 'c) board \<Rightarrow> nat \<Rightarrow> ('s, 'h usb, 'c, ('s, 'h usb, 'c) world) plat \<times> ('s, 'h usb, 'c) world shell" where
  "system b 0 = ((bo_plat b)\<lparr>p_bootd := (\<lambda>_. None), p_booti := (\<lambda>_ _. None)\<rparr>,
     (bo_shell b)\<lparr>sh_tbl := commands (bo_plat b) (\<lambda>_ _. None) (\<lambda>_ _ _. None) (\<lambda>_ _. None) (\<lambda>_ _. None) @ sh_tbl (bo_shell b)\<rparr>)"
| "system b (Suc n) =
     (let (p, sh) = system b n; booti = do_booti p (bo_usb b) (bo_junk b) (bo_junk_hdr b) in
      ((bo_plat b)\<lparr>p_bootd := do_bootd sh 0, p_booti := booti\<rparr>,
       (bo_shell b)\<lparr>sh_tbl := commands (bo_plat b) (do_bootd sh) (do_run sh) booti (do_fastboot p (bo_usb b) (bo_junk b)) @ sh_tbl (bo_shell b)\<rparr>))"

definition u_boot :: "('s, 'h, 'c) board \<Rightarrow> nat \<Rightarrow> ('s, 'h usb, 'c) world \<Rightarrow> (halt \<times> ('s, 'h usb, 'c) world) option" where
  "u_boot b n = main_loop (fst (system b n)) (bo_usb b) (snd (system b n))"

section \<open>Running one command\<close>

text \<open>A line without quotes, escapes, variables and separators.\<close>

definition plain_line :: "byte list \<Rightarrow> bool" where
  "plain_line s \<longleftrightarrow> s \<noteq> [] \<and> length s < CFG_CBSIZE \<and> set s \<inter> {0x24, 0x27, 0x3b, 0x5c} = {}"

lemma CFG_MAXARGS_pos: "0 < CFG_MAXARGS" by (simp add: CFG_MAXARGS_def)

lemma find_sep_plain: "0x27 \<notin> set s \<Longrightarrow> 0x3b \<notin> set s \<Longrightarrow> find_sep False prev st s = Some (s, None)"
  by (induction s arbitrary: prev st) auto

lemma process_plain: "plain_line s \<Longrightarrow> process_macros get s = Some s"
  using macro_lit[of s "[]" 0 get "[]" "[]"] by (auto simp: plain_line_def process_macros_def)

lemma run_plain_line:
  assumes s: "plain_line s" and sh: "sh_clear_ctrlc sh w = w"
    and a: "take CFG_MAXARGS (line_words s) = a # as" and t: "find_cmd (sh_tbl sh) a = Some t" "length (a # as) \<le> maxargs t" "\<not> is_bootd t"
  shows "run_command sh (Some s) flag w = do {
      (r, w) \<leftarrow> cmd_fun t flag (a # as) w;
      case r of
        Halt h \<Rightarrow> Some (Halt h, w)
      | Ret x \<Rightarrow> Some (Ret (if sh_had_ctrlc sh w then 0 else if x \<noteq> 0 then -1 else of_bool (repeatable t)), w) }"
proof -
  have f: "find_sep False None True s = Some (s, None)" using s by (intro find_sep_plain) (auto simp: plain_line_def)
  have "run_command sh (Some s) flag w = run_loop sh None s flag 0 True w" using s sh by (simp add: run_command_def plain_line_def)
  also have "\<dots> = do {
      (r, w) \<leftarrow> cmd_fun t flag (a # as) w;
      case r of
        Halt h \<Rightarrow> Some (Halt h, w)
      | Ret x \<Rightarrow> Some (Ret (if sh_had_ctrlc sh w then 0 else if x \<noteq> 0 then -1 else of_bool (repeatable t)), w) }"
    using s t f process_plain[OF s] a CFG_MAXARGS_pos
    by (subst run_loop.simps) (auto simp: run_token_def parse_line_eq plain_line_def Let_def split: Option.bind_split ret.split)
  finally show ?thesis .
qed

lemma system_Suc: "system b (Suc n) = ((bo_plat b)\<lparr>p_bootd := do_bootd (snd (system b n)) 0,
       p_booti := do_booti (fst (system b n)) (bo_usb b) (bo_junk b) (bo_junk_hdr b)\<rparr>,
     (bo_shell b)\<lparr>sh_tbl := commands (bo_plat b) (do_bootd (snd (system b n))) (do_run (snd (system b n)))
       (do_booti (fst (system b n)) (bo_usb b) (bo_junk b) (bo_junk_hdr b))
       (do_fastboot (fst (system b n)) (bo_usb b) (bo_junk b)) @ sh_tbl (bo_shell b)\<rparr>)"
  by (simp add: split_def Let_def)

lemma system_plat [simp]: "p_dev (fst (system b n)) = p_dev (bo_plat b)" "p_gpio (fst (system b n)) = p_gpio (bo_plat b)"
  "p_slack (fst (system b n)) = p_slack (bo_plat b)"
  "sh_clear_ctrlc (snd (system b n)) = sh_clear_ctrlc (bo_shell b)" "sh_tstc (snd (system b n)) = sh_tstc (bo_shell b)"
  by (cases n; simp add: split_def Let_def)+

text \<open>The two lines of the environment that start a kernel.\<close>

lemma boot_lines:
  "plain_line (bytes ''booti mmc1'')" "take CFG_MAXARGS (line_words (bytes ''booti mmc1'')) = [bytes ''booti'', bytes ''mmc1'']"
  "plain_line (bytes ''booti mmc1 recovery'')"
  "take CFG_MAXARGS (line_words (bytes ''booti mmc1 recovery'')) = [bytes ''booti'', bytes ''mmc1'', bytes ''recovery'']"
proof -
  show "plain_line (bytes ''booti mmc1'')" "plain_line (bytes ''booti mmc1 recovery'')"
    by (simp_all add: plain_line_def CFG_CBSIZE_def)
  have n: "line_words [] = []" by (simp add: line_words_def)
  have w: "line_words (bytes ''recovery'' @ []) = [bytes ''recovery'']" "line_words (bytes ''mmc1'' @ []) = [bytes ''mmc1'']"
    "line_words (bytes ''mmc1'' @ 0x20 # bytes ''recovery'') = bytes ''mmc1'' # line_words (bytes ''recovery'')"
    "line_words (bytes ''booti'' @ 0x20 # bytes ''mmc1'') = bytes ''booti'' # line_words (bytes ''mmc1'')"
    "line_words (bytes ''booti'' @ 0x20 # bytes ''mmc1 recovery'') = bytes ''booti'' # line_words (bytes ''mmc1 recovery'')"
    by (subst line_words_cons; simp add: is_blank_def n)+
  then show "take CFG_MAXARGS (line_words (bytes ''booti mmc1'')) = [bytes ''booti'', bytes ''mmc1'']"
    "take CFG_MAXARGS (line_words (bytes ''booti mmc1 recovery'')) = [bytes ''booti'', bytes ''mmc1'', bytes ''recovery'']"
    by (simp_all add: CFG_MAXARGS_def)
qed

lemma find_booti:
  "find_cmd (sh_tbl (snd (system b (Suc n)))) (bytes ''booti'')
     = Some (entry ''booti'' 3 True (\<lambda>flag. do_booti (fst (system b n)) (bo_usb b) (bo_junk b) (bo_junk_hdr b)))"
  by (simp add: system_Suc commands_def entry_def find_cmd_def name_len_def strncmp_s_def del: system.simps)

lemma run_booti:
  assumes "sh_clear_ctrlc (bo_shell b) w = w"
    and "do_booti (fst (system b n)) (bo_usb b) (bo_junk b) (bo_junk_hdr b) (bytes ''booti'' # bytes ''mmc1'' # args) w = Some (Halt h, w')"
    and "args = [] \<and> s = bytes ''booti mmc1'' \<or> args = [bytes ''recovery''] \<and> s = bytes ''booti mmc1 recovery''"
  shows "run_command (snd (system b (Suc n))) (Some s) 0 w = Some (Halt h, w')"
proof -
  have l: "plain_line s" "take CFG_MAXARGS (line_words s) = bytes ''booti'' # bytes ''mmc1'' # args" "length args \<le> 1"
    using assms(3) boot_lines by (auto simp del: bytes_Cons)
  show ?thesis
    using run_plain_line[OF l(1) _ l(2) find_booti[of b n], of w 0] assms(1,2) l(3) by (simp add: entry_def del: system.simps bytes_Cons)
qed

section \<open>From the image to the kernel\<close>

text \<open>The identity area on the device, and the one a boot goes on with: a blank area is formatted first.\<close>

definition area_of :: "(emmc mmc, 'u, 'c) world \<Rightarrow> byte list" where
  "area_of w = idme_area (emmc_sect (w_dev w) 1) 0"

definition good_area :: "byte list \<Rightarrow> byte list" where
  "good_area A = (if idme_magic A then A else default_area)"

text \<open>What a boot needs of the variables: the device idle, the buffers at their sizes, no cable, and a place for the tags below the header.\<close>

definition boot_ready :: "(emmc mmc, 'u, 'c) world \<Rightarrow> bool" where
  "boot_ready w \<longleftrightarrow> emmc_inv (w_dev w) \<and> emmc_part (w_dev w) = 0 \<and> plain_mbr (emmc_sect (w_dev w) 0 0)
     \<and> length (gblock_buff (w_idme w)) = 512 \<and> length (board_id (w_idme w)) = 17 \<and> length (board_serial (w_idme w)) = 17
     \<and> \<not> w_gnUSBAttached w \<and> bi_dram (bd (w_env w)) \<noteq> []
     \<and> (case ram_off (bi_boot_params (bd (w_env w))) of Some b \<Rightarrow> b + 1024 \<le> 0x7800 | None \<Rightarrow> False)"

text \<open>A partition that holds an image which can be loaded; the image starts two sectors into the partition.\<close>

definition image_sector :: "fastboot_ptentry \<Rightarrow> nat" where
  "image_sector pte = unat (pt_start pte) + 2"

definition bootable :: "(emmc mmc, 'u, 'c) world \<Rightarrow> fastboot_ptentry \<Rightarrow> boot_img \<Rightarrow> bool" where
  "bootable w pte im \<longleftrightarrow> image_at (emmc_sect (w_dev w) 0) (image_sector pte) im
     \<and> image_fits EMMC_SECTORS (length (w_ram w)) (image_sector pte) im \<and> USER_BLOCK + 32 \<le> image_sector pte"

text \<open>
  What the kernel finds: itself and the ram disk in the memory, and the list of tags with the identity variables, the command
  line of the image and the place of the ram disk. In the identity area the boot count is set, and a request for
  one start of the recovery image taken back.
\<close>

definition loaded :: "(emmc mmc, 'u, 'c) world \<Rightarrow> nat \<Rightarrow> u32 \<Rightarrow> u32 \<Rightarrow> byte list \<Rightarrow> bool" where
  "loaded w sector addr n ram \<longleftrightarrow> (case ram_off addr of
     Some a \<Rightarrow> bslice a (unat n) ram = take (unat n) (sectors (emmc_sect (w_dev w) 0) sector (nsect (unat n)))
   | None \<Rightarrow> False)"

definition tags_left :: "(emmc mmc, 'u, 'c) world \<Rightarrow> boot_img \<Rightarrow> (emmc mmc, 'u, 'c) world \<Rightarrow> bool" where
  "tags_left w im w' \<longleftrightarrow> (\<exists>b cmd. ram_off (bi_boot_params (bd (w_env w))) = Some b
     \<and> for_each_tag (w_ram w') b = Some (boot_tags (bd (w_env w)) (area_of w') cmd (im_ramdisk_addr im) (im_ramdisk_size im))
     \<and> cstr_of cmd = dropWhile (\<lambda>c. c = 0x20) (im_cmdline im))"

definition kernel_state :: "(emmc mmc, 'u, 'c) world \<Rightarrow> fastboot_ptentry \<Rightarrow> boot_img \<Rightarrow> (emmc mmc, 'u, 'c) world \<Rightarrow> bool" where
  "kernel_state w pte im w' \<longleftrightarrow>
     loaded w (kernel_sector (image_sector pte) im) (im_kernel_addr im) (im_kernel_size im) (w_ram w')
     \<and> loaded w (ramdisk_sector (image_sector pte) im) (im_ramdisk_addr im) (im_ramdisk_size im) (w_ram w')
     \<and> tags_left w im w'
     \<and> area_of w' = (let B = good_area (area_of w); P = patch 0x1018 (pad 16 [1]) B
         in if B ! 0x1008 = 0x37 then patch 0x1008 (pad 16 (bytes ''1'')) P else P)"

definition kernel_call :: "(emmc mmc, 'u, 'c) world \<Rightarrow> boot_img \<Rightarrow> halt" where
  "kernel_call w im = Kernel (im_kernel_addr im) (bi_arch_number (bd (w_env w))) (bi_boot_params (bd (w_env w)))"

lemma booti_kernel:
  assumes "p_dev p = mmc_ops hsmmc" "0 < p_slack p" and w: "boot_ready w" and "find_ptn w ptn = Some pte" and im: "bootable w pte im"
    and ptn: "ptn = (case args of [] \<Rightarrow> boot_choice (p_gpio p) (good_area (area_of w) ! 0x1008) (bytes ''boot'') | n # _ \<Rightarrow> n)"
  shows "\<exists>w'. do_booti p c junk junk_hdr (cmd # bytes ''mmc1'' # args) w = Some (Halt (kernel_call w im), w') \<and> kernel_state w pte im w'"
proof -
  have d: "emmc_inv (w_dev w)" "emmc_part (w_dev w) = 0" "length (gblock_buff (w_idme w)) = 512" "length (board_id (w_idme w)) = 17"
      "length (board_serial (w_idme w)) = 17" "\<not> w_gnUSBAttached w"
    and m: "plain_mbr (emmc_sect (w_dev w) 0 0)" and r: "bi_dram (bd (w_env w)) \<noteq> []"
    using w by (simp_all add: boot_ready_def)
  obtain b where b: "ram_off (bi_boot_params (bd (w_env w))) = Some b" "b + 1024 \<le> 0x7800"
    using w by (auto simp: boot_ready_def split: option.splits)
  note i = im[unfolded bootable_def image_sector_def, THEN conjunct1] im[unfolded bootable_def image_sector_def, THEN conjunct2, THEN conjunct1]
    im[unfolded bootable_def image_sector_def, THEN conjunct2, THEN conjunct2]
  obtain ko ro where k: "ram_off (im_kernel_addr im) = Some ko" "ram_off (im_ramdisk_addr im) = Some ro"
    using i(2) by (auto simp: image_fits_def Let_def split: option.splits)
  have cap: "1056 \<le> EMMC_SECTORS" by (simp add: EMMC_SECTORS_def)
  note res = block_device.do_booti_ok[OF emmc.block_device_axioms assms(1,2) d cap m refl assms(4)
      ptn[unfolded good_area_def area_of_def] i b r k, of c junk junk_hdr cmd]
  then obtain w' cmd' where w': "do_booti p c junk junk_hdr (cmd # bytes ''mmc1'' # args) w = Some (Halt (kernel_call w im), w')"
      "loaded w (kernel_sector (image_sector pte) im) (im_kernel_addr im) (im_kernel_size im) (w_ram w')"
      "loaded w (ramdisk_sector (image_sector pte) im) (im_ramdisk_addr im) (im_ramdisk_size im) (w_ram w')"
      "for_each_tag (w_ram w') b = Some (boot_tags (bd (w_env w)) (area_of w') cmd' (im_ramdisk_addr im) (im_ramdisk_size im))"
      "cstr_of cmd' = dropWhile (\<lambda>c. c = 0x20) (im_cmdline im)"
      "area_of w' = (let B = good_area (area_of w); P = patch 0x1018 (pad 16 [1]) B
         in if B ! 0x1008 = 0x37 then patch 0x1008 (pad 16 (bytes ''1'')) P else P)"
    unfolding kernel_call_def loaded_def area_of_def good_area_def image_sector_def k option.case Let_def by blast
  then show ?thesis using b by (auto simp: kernel_state_def tags_left_def)
qed

section \<open>From the main loop to the kernel\<close>

text \<open>Whether the running system has asked for the recovery image, in the first 31 bytes of the misc partition.\<close>

definition recovery_asked :: "(emmc mmc, 'u, 'c) world \<Rightarrow> bool" where
  "recovery_asked w \<longleftrightarrow> (case find_ptn w CFG_BOOTMSG_PARTITION of
     None \<Rightarrow> False
   | Some m \<Rightarrow> cstr_of (take 31 (emmc_sect (w_dev w) 0 (unat (pt_start m)))) = BOOTMSG_COMMAND_RECOVERY)"

text \<open>Two states that differ in the drivers' own variables only.\<close>

definition same_boot :: "(emmc mmc, 'u, 'c) world \<Rightarrow> (emmc mmc, 'u, 'c) world \<Rightarrow> bool" where
  "same_boot w w' \<longleftrightarrow> emmc_inv (w_dev w') \<and> emmc_part (w_dev w') = 0 \<and> emmc_sect (w_dev w') = emmc_sect (w_dev w)
     \<and> w_ram w' = w_ram w \<and> w_gpt w' = w_gpt w \<and> w_idme w' = w_idme w \<and> w_env w' = w_env w \<and> w_gnUSBAttached w' = w_gnUSBAttached w"

lemma same_boot_eqs:
  assumes "same_boot w w'"
  shows "boot_ready w \<Longrightarrow> boot_ready w'" "find_ptn w' n = find_ptn w n" "bootable w' pte im = bootable w pte im" "area_of w' = area_of w"
    "kernel_call w' im = kernel_call w im" "kernel_state w' pte im v = kernel_state w pte im v" "recovery_asked w' = recovery_asked w"
    "w_env w' = w_env w"
proof -
  have e: "emmc_sect (w_dev w') = emmc_sect (w_dev w)" "w_ram w' = w_ram w" "w_gpt w' = w_gpt w" "w_idme w' = w_idme w" "w_env w' = w_env w"
      "w_gnUSBAttached w' = w_gnUSBAttached w"
    and i: "emmc_inv (w_dev w')" "emmc_part (w_dev w') = 0" using assms by (simp_all add: same_boot_def)
  show f: "find_ptn w' n = find_ptn w n" for n unfolding find_ptn_def e ..
  show "boot_ready w \<Longrightarrow> boot_ready w'" unfolding boot_ready_def e using i by simp
  show "bootable w' pte im = bootable w pte im" "area_of w' = area_of w" "kernel_call w' im = kernel_call w im" "recovery_asked w' = recovery_asked w"
    "kernel_state w' pte im v = kernel_state w pte im v" "w_env w' = w_env w"
    unfolding bootable_def area_of_def kernel_call_def kernel_state_def loaded_def tags_left_def recovery_asked_def e f by (rule refl)+
qed

lemma cstr_of_cut: "cstr_of (xs @ 0 # ys) = cstr_of xs"
  by (induction xs) (simp_all add: cstr_of_def)

lemma bootmsg_command:
  assumes "p_dev p = mmc_ops hsmmc" and w: "emmc_inv (w_dev w)" "emmc_part (w_dev w) = 0" "length (w_bootmsg w) = 512"
    and m: "\<forall>m. find_ptn w CFG_BOOTMSG_PARTITION = Some m \<longrightarrow> unat (pt_start m) < EMMC_SECTORS"
  shows "\<exists>c w'. bootmsg_get_command p w = Some (c, w') \<and> boot_env_of c = (if recovery_asked w then (bytes ''recoverycmd'', True) else (bytes ''bootcmd'', False))
    \<and> same_boot w w'"
proof (cases "find_ptn w CFG_BOOTMSG_PARTITION")
  case None
  then show ?thesis using w by (auto simp: bootmsg_get_command_def boot_env_of_def recovery_asked_def same_boot_def find_ptn_def)
next
  case (Some pte)
  let ?b = "emmc_sect (w_dev w) 0 (unat (pt_start pte))"
  have l: "length ?b = 512" using emmc.sect_length[OF emmc.inv_pre[OF w(1)]] .
  obtain s where s: "op_read (mmc_ops hsmmc) (w_dev w) 1 (pt_start pte) (w_bootmsg w) 0 512 = Some (1, ?b, s)" "emmc_inv s" "emmc_part s = 0"
      "emmc_sect s = emmc_sect (w_dev w)"
    using emmc.read_block[OF w(1), of "pt_start pte" "w_bootmsg w"] m Some w by auto
  have c: "cstr_of (patch 31 [0] ?b) = cstr_of (take 31 ?b)" using l by (simp add: patch_def cstr_of_cut)
  have z: "0 \<notin> set (cstr_of (take 31 ?b))" "0 \<notin> set BOOTMSG_COMMAND_RECOVERY"
    by (auto simp: cstr_of_def BOOTMSG_COMMAND_RECOVERY_def dest: set_takeWhileD)
  have "bootmsg_get_command p w = Some (Some (cstr_of (take 31 ?b)), w\<lparr>w_dev := s, w_bootmsg := patch 31 [0] ?b\<rparr>)"
    using Some s(1) assms(1) l c unfolding bootmsg_get_command_def find_ptn_def[symmetric] by (simp add: COMMAND_SIZE_def)
  moreover have "boot_env_of (Some (cstr_of (take 31 ?b))) = (if recovery_asked w then (bytes ''recoverycmd'', True) else (bytes ''bootcmd'', False))"
    using Some z by (simp add: boot_env_of_def strcmp_s_zero recovery_asked_def del: bytes_Cons)
  moreover have "same_boot w (w\<lparr>w_dev := s, w_bootmsg := patch 31 [0] ?b\<rparr>)"
    using s w by (simp add: same_boot_def)
  ultimately show ?thesis by blast
qed

lemma default_getenv:
  assumes "env_rep default_entries (env_arr e)"
  shows "getenv (bytes ''bootdelay'') e = Some (Some (bytes ''1''))" "getenv (bytes ''bootcmd'') e = Some (Some (bytes ''booti mmc1''))"
    "getenv (bytes ''recoverycmd'') e = Some (Some (bytes ''booti mmc1 recovery''))"
proof -
  have n: "name_ok (bytes ''bootdelay'')" "name_ok (bytes ''bootcmd'')" "name_ok (bytes ''recoverycmd'')" by (simp_all add: name_ok_def EQ_def)
  show "getenv (bytes ''bootdelay'') e = Some (Some (bytes ''1''))" "getenv (bytes ''bootcmd'') e = Some (Some (bytes ''booti mmc1''))"
    "getenv (bytes ''recoverycmd'') e = Some (Some (bytes ''booti mmc1 recovery''))"
    using getenv_rep[OF n(1) assms] getenv_rep[OF n(2) assms] getenv_rep[OF n(3) assms]
    by (simp_all add: lookup_map_of default_entries_vars default_vars_def)
qed

lemma quiet_key: "\<forall>w. sh_tstc sh w = (False, w) \<Longrightarrow> abortboot sh n w = (False, w)"
proof -
  assume q: "\<forall>w. sh_tstc sh w = (False, w)"
  have k: "key_polls sh i w = (False, w)" for i w by (induction i) (simp_all add: q)
  have "delay_loop sh i w = (False, w)" for i w by (induction i) (simp_all add: k del: key_polls.simps)
  then show ?thesis by (simp add: abortboot_def q)
qed

lemma delay_one: "sint (fst (simple_strtol (bytes ''1'') 10)) = 1"
proof -
  have "simple_strtol [0x31] 10 = (1, [])" by code_simp
  then show ?thesis by simp
qed

lemma autoboot_kernel:
  assumes dev: "p_dev (bo_plat b) = mmc_ops hsmmc" "0 < p_slack (bo_plat b)" and quiet: "\<forall>w. sh_tstc (bo_shell b) w = (False, w)" "\<forall>w. sh_clear_ctrlc (bo_shell b) w = w"
    and w: "boot_ready w" "length (w_bootmsg w) = 512" "env_rep default_entries (env_arr (w_env w))"
    and m: "\<forall>m. find_ptn w CFG_BOOTMSG_PARTITION = Some m \<longrightarrow> unat (pt_start m) < EMMC_SECTORS"
    and ptn: "ptn = (if recovery_asked w then bytes ''recovery'' else boot_choice (p_gpio (bo_plat b)) (good_area (area_of w) ! 0x1008) (bytes ''boot''))"
    and f: "find_ptn w ptn = Some pte" "bootable w pte im"
  shows "\<exists>w'. autoboot (fst (system b (Suc n))) (snd (system b (Suc n))) w = Some (Halt (kernel_call w im), w') \<and> kernel_state w pte im w'"
proof -
  have p: "p_dev (fst (system b n)) = mmc_ops hsmmc" for n using dev(1) by simp
  have sl: "0 < p_slack (fst (system b n))" using dev(2) by simp
  have e: "emmc_inv (w_dev w)" "emmc_part (w_dev w) = 0" using w(1) by (simp_all add: boot_ready_def)
  obtain c w1 where c: "bootmsg_get_command (fst (system b (Suc n))) w = Some (c, w1)"
      "boot_env_of c = (if recovery_asked w then (bytes ''recoverycmd'', True) else (bytes ''bootcmd'', False))" "same_boot w w1"
    using bootmsg_command[OF p[of "Suc n"] e w(2) m] by blast
  let ?w2 = "if recovery_asked w then w1\<lparr>w_is_recovery_mode := True\<rparr> else w1"
  have s2: "same_boot w ?w2" using c(3) by (simp add: same_boot_def)
  note eqs = same_boot_eqs[OF s2]
  let ?args = "if recovery_asked w then [bytes ''recovery''] else []"
  let ?s = "if recovery_asked w then bytes ''booti mmc1 recovery'' else bytes ''booti mmc1''"
  have "find_ptn ?w2 ptn = Some pte" "bootable ?w2 pte im" using f eqs by auto
  moreover have "ptn = (case ?args of [] \<Rightarrow> boot_choice (p_gpio (fst (system b n))) (good_area (area_of ?w2) ! 0x1008) (bytes ''boot'') | n # _ \<Rightarrow> n)"
    unfolding eqs(4) using ptn by simp
  ultimately obtain w' where w': "do_booti (fst (system b n)) (bo_usb b) (bo_junk b) (bo_junk_hdr b) (bytes ''booti'' # bytes ''mmc1'' # ?args) ?w2
        = Some (Halt (kernel_call w im), w')" "kernel_state w pte im w'"
    using booti_kernel[OF p[of n] sl eqs(1)[OF w(1)]] unfolding eqs(5,6) by blast
  have run: "run_command (snd (system b (Suc n))) (Some ?s) 0 ?w2 = Some (Halt (kernel_call w im), w')"
    using quiet(2) by (intro run_booti[OF _ w'(1)]) simp_all
  have g: "getenv (fst (boot_env_of c)) (w_env ?w2) = Some (Some ?s)"
    unfolding eqs(8) c(2) using default_getenv[OF w(3)] by simp
  have q: "abortboot (snd (system b (Suc n))) d v = (False, v)" for d v using quiet(1) by (intro quiet_key) (simp del: system.simps)
  have "autoboot (fst (system b (Suc n))) (snd (system b (Suc n))) w = run_command (snd (system b (Suc n))) (Some ?s) 0 ?w2"
    unfolding autoboot_def using default_getenv(1)[OF w(3)] c(1,2) g delay_one
    by (cases "recovery_asked w") (simp_all add: Let_def q del: system.simps bytes_Cons)
  then show ?thesis using run w'(2) by (simp del: system.simps)
qed

text \<open>A cold start: no key is pressed, the reset button is up, and the chip has not been restarted by software.\<close>

definition cold_start :: "musb \<Rightarrow> bool" where
  "cold_start h \<longleftrightarrow> mregs h KBD_STATEMACHINE = 0 \<and> mregs h GPIO4_DATAIN AND 0x100 = 0 \<and> mregs h PRM_RSTST AND 2 = 0"

lemma other_reg:
  assumes "r \<in> {CONTROL_PBIAS_LITE, CONTROL_GPIOWK, KBD_STATEMACHINE, GPIO4_DATAIN, PRM_RSTST}"
  shows "musb_rd h r = (mregs h r, h)" "musb_wr h r v = h\<lparr>mregs := (mregs h)(r := v)\<rparr>"
proof -
  have "r \<notin> {USB_RXCSR, USB_RXCOUNT, USB_FIFO_1, USB_CSR0, USB_COUNT0, USB_FIFO_0, USB_TXCSR, USB_INTRUSB, USB_INTRRX, USB_DEVCTL, DMA_CNTL}"
    using assms by (auto simp: usb_regs CONTROL_PBIAS_LITE_def CONTROL_GPIOWK_def KBD_STATEMACHINE_def GPIO4_DATAIN_def PRM_RSTST_def)
  then show "musb_rd h r = (mregs h r, h)" "musb_wr h r v = h\<lparr>mregs := (mregs h)(r := v)\<rparr>" by (simp_all add: musb_rd_def musb_wr_def)
qed

lemma gpio_wk_regs:
  assumes "r = GPIO4_DATAIN \<or> r = PRM_RSTST"
  shows "mregs (u_hw (gpio_wk_init musb_hw u)) r = mregs (u_hw u) r"
proof -
  have "r \<noteq> CONTROL_PBIAS_LITE" "r \<noteq> CONTROL_GPIOWK"
    using assms by (auto simp: CONTROL_PBIAS_LITE_def CONTROL_GPIOWK_def GPIO4_DATAIN_def PRM_RSTST_def)
  then show ?thesis by (simp add: gpio_wk_init_def Let_def set_bits_def clr_bits_def rmw_def usb_wr_def other_reg)
qed

lemma preboot_overrun:
  assumes "p_dev p = mmc_ops hsmmc" "p_slack p = 0" and "emmc_inv (w_dev w)" "emmc_part (w_dev w) = 0"
  shows "fastboot_preboot p c w = None"
  using block_device.getbootmode_ok(2)[OF emmc.block_device_axioms assms(3,4)] assms(1,2) by (simp add: fastboot_preboot_def EMMC_SECTORS_def)

lemma preboot_cold:
  assumes "p_dev p = mmc_ops hsmmc" "0 < p_slack p" and w: "emmc_inv (w_dev w)" "emmc_part (w_dev w) = 0" "area_of w ! 0x1008 \<noteq> 0x35"
    "cold_start (u_hw (w_usb w))"
  shows "\<exists>w'. fastboot_preboot p musb_hw w = Some (0, w') \<and> same_boot w w' \<and> w_bootmsg w' = w_bootmsg w"
proof -
  obtain s where s: "getbootmode (p_slack p) (mmc_ops hsmmc) (w_dev w) = Some (uint (area_of w ! 0x1008) - 48, s)" "emmc_inv s" "emmc_part s = 0"
      "emmc_sect s = emmc_sect (w_dev w)"
    using block_device.getbootmode_ok(1)[OF emmc.block_device_axioms w(1,2) _ assms(2)] by (auto simp: EMMC_SECTORS_def area_of_def)
  have m: "uint (area_of w ! 0x1008) - 48 \<noteq> 5"
  proof
    assume "uint (area_of w ! 0x1008) - 48 = 5"
    then have "uint (area_of w ! 0x1008) = uint (0x35 :: byte)" by simp
    then show False using w(3) by (simp only: word_uint_eq_iff[symmetric])
  qed
  show ?thesis using s m assms(1) w(4)
    by (simp add: fastboot_preboot_def preboot_reset_def usb_rd_def other_reg gpio_wk_regs cold_start_def Let_def same_boot_def)
qed

section \<open>A device with a recovery image\<close>

definition demo_header :: "byte list" where
  "demo_header = BOOT_MAGIC @ le32 512 @ le32 0x80008000 @ le32 512 @ le32 0x80009000 @ le32 0 @ le32 0 @ le32 0 @ le32 2048 @ replicate 24 0
     @ bytes ''quiet'' @ replicate 443 0"

definition demo_disk :: "nat \<Rightarrow> nat \<Rightarrow> byte list" where
  "demo_disk q n = (if q = 0 \<and> n = 2050 then demo_header else if q = 0 \<and> n = 3000 then bytes ''boot-recovery'' @ replicate 499 0 else replicate 512 0)"

definition demo_entry :: "string \<Rightarrow> u32 \<Rightarrow> fastboot_ptentry" where
  "demo_entry name s = \<lparr>pt_name = bytes name @ replicate (16 - length name) 0, pt_start = s, pt_length = 1048576, pt_flags = 0\<rparr>"

definition demo_start :: "(emmc mmc, musb usb, unit) world" where
  "demo_start = (demo_world 1048576 [])\<lparr>w_dev := emmc_on demo_disk, w_ram := replicate 0x10000 0, w_env := started_env, w_bootmsg := replicate 512 0,
     w_idme := \<lparr>gblock_buff = replicate 512 0, gidme_buff = [], gidme_buff_valid = 0, board_id = replicate 17 0, board_serial = replicate 17 0\<rparr>,
     w_gpt := (demo_gpt 1048576)\<lparr>gp_ptn := \<lparr>ptable = [demo_entry ''recovery'' 2048, demo_entry ''misc'' 3000] @ replicate 14 (demo_entry ''misc'' 3000),
       pcount = 2\<rparr>\<rparr>\<rparr>"

definition demo_board :: "(emmc mmc, musb, unit) board" where
  "demo_board = \<lparr>bo_plat = demo_plat, bo_usb = musb_hw, bo_junk = 0, bo_junk_hdr = 0,
     bo_shell = \<lparr>sh_tbl = [], sh_clear_ctrlc = (\<lambda>w. w), sh_had_ctrlc = (\<lambda>_. False), sh_tstc = (\<lambda>w. (False, w)), sh_getc = (\<lambda>w. (13, w)),
       sh_complete = (\<lambda>_ w. (None, w))\<rparr>\<rparr>"

definition demo_img :: boot_img where
  "demo_img = \<lparr>im_kernel_size = 512, im_kernel_addr = 0x80008000, im_ramdisk_size = 512, im_ramdisk_addr = 0x80009000, im_page_size = 2048,
     im_cmdline = bytes ''quiet''\<rparr>"

lemma length_demo_disk: "length (demo_disk q n) = 512"
  by (simp add: demo_disk_def demo_header_def BOOT_MAGIC_def)

lemma demo_image_at: "image_at (demo_disk 0) 2050 demo_img"
proof -
  have s: "sectors (demo_disk 0) 2050 4 = demo_header @ concat (map (demo_disk 0) [2051..<2054])"
    by (simp add: sectors_def upt_conv_Cons demo_disk_def)
  show ?thesis unfolding image_at_def s
    by (simp add: Let_def demo_header_def BOOT_MAGIC_def demo_img_def bslice_def cstr_of_def takeWhile_append)
qed

lemma demo_area: "i < 16384 \<Longrightarrow> idme_area (demo_disk (Suc 0)) 0 ! i = 0"
proof -
  have "length (idme_area (demo_disk (Suc 0)) 0) = 16384" unfolding idme_area_def using length_demo_disk by (simp add: length_sectors)
  moreover have "set (idme_area (demo_disk (Suc 0)) 0) \<subseteq> {0}" by (auto simp: idme_area_def sectors_def demo_disk_def)
  ultimately show "i < 16384 \<Longrightarrow> idme_area (demo_disk (Suc 0)) 0 ! i = 0" by (metis nth_mem singletonD subsetD)
qed

lemma demo_ptns:
  "find_ptn demo_start (bytes ''recovery'') = Some (demo_entry ''recovery'' 2048)"
  "find_ptn demo_start CFG_BOOTMSG_PARTITION = Some (demo_entry ''misc'' 3000)"
  by (simp_all add: find_ptn_def demo_start_def demo_entry_def fastboot_flash_find_ptn_def CFG_BOOTMSG_PARTITION_def cstr_of_def takeWhile_append)

lemma demo_sels: "w_dev demo_start = emmc_on demo_disk" "w_env demo_start = started_env" "w_usb demo_start = demo_usb []"
  "length (w_ram demo_start) = 0x10000"
  by (simp_all add: demo_start_def)

lemma demo_ready: "boot_ready demo_start"
proof -
  have "plain_mbr (demo_disk 0 0)" using emmc_zeros(3) by (simp add: demo_disk_def zeros_def)
  then show ?thesis
    using length_demo_disk
    by (simp add: boot_ready_def demo_sels emmc_on_inv started_env_def ram_off_def PHYS_SDRAM_1_def) (simp add: demo_start_def demo_world_def)
qed

section \<open>The boot\<close>

text \<open>
  C2. From the entry of \<^verbatim>\<open>main_loop\<close> to the kernel, on the reference eMMC and USB controllers, with the eMMC initialised, the partition table loaded and
  the built-in environment in place: when no key is pressed and
  nobody types, the main loop starts the kernel of the image it should start. That is the image of the partition \<^verbatim>\<open>recovery\<close> when the boot message
  asks for it, and otherwise of the partition the boot mode of the identity area chooses. The kernel and the ram disk are in the memory, and the list of tags
  is complete. All of this takes a compiler that leaves a byte unused behind the array \<^verbatim>\<open>bootmode\<close>: without one the code writes outside its array before it
  comes to the image, and there is no result.
\<close>

theorem main_loop_boots:
  assumes "bo_plat b = usb_plat (mmc_ops hsmmc) io gpio slack bootd booti" "bo_usb b = musb_hw"
    and quiet: "\<forall>w. sh_tstc (bo_shell b) w = (False, w)" "\<forall>w. sh_clear_ctrlc (bo_shell b) w = w"
    and w: "boot_ready w" "length (w_bootmsg w) = 512" "env_rep default_entries (env_arr (w_env w))"
    and start: "cold_start (u_hw (w_usb w))" "area_of w ! 0x1008 \<noteq> 0x35"
    and misc: "\<forall>m. find_ptn w CFG_BOOTMSG_PARTITION = Some m \<longrightarrow> unat (pt_start m) < EMMC_SECTORS"
    and ptn: "ptn = (if recovery_asked w then bytes ''recovery'' else boot_choice gpio (good_area (area_of w) ! 0x1008) (bytes ''boot''))"
    and img: "find_ptn w ptn = Some pte" "bootable w pte im"
  shows "if slack = 0 then u_boot b (Suc n) w = None
    else \<exists>w'. u_boot b (Suc n) w = Some (kernel_call w im, w') \<and> kernel_state w pte im w'"
proof -
  have p: "p_dev (bo_plat b) = mmc_ops hsmmc" "p_gpio (bo_plat b) = gpio" "p_slack (bo_plat b) = slack" using assms(1) by simp_all
  have e: "emmc_inv (w_dev w)" "emmc_part (w_dev w) = 0" using w(1) by (simp_all add: boot_ready_def)
  show ?thesis
  proof (cases "slack = 0")
    case True
    then have "fastboot_preboot (fst (system b (Suc n))) (bo_usb b) w = None"
      using p(1,3) by (intro preboot_overrun e) (simp_all del: system.simps)
    then show ?thesis using True by (simp add: u_boot_def main_loop_def del: system.simps)
  next
    case False
    then have sl: "0 < p_slack (bo_plat b)" using p(3) by simp
    obtain w1 where w1: "fastboot_preboot (fst (system b (Suc n))) musb_hw w = Some (0, w1)" "same_boot w w1" "w_bootmsg w1 = w_bootmsg w"
      using preboot_cold[OF _ _ e start(2,1), of "fst (system b (Suc n))"] p(1) sl by (auto simp del: system.simps)
    note eqs = same_boot_eqs[OF w1(2)]
    obtain w' where "autoboot (fst (system b (Suc n))) (snd (system b (Suc n))) w1 = Some (Halt (kernel_call w im), w')" "kernel_state w pte im w'"
      using autoboot_kernel[OF p(1) sl quiet eqs(1)[OF w(1)], of ptn pte im n] w(2,3) misc ptn img p(2) unfolding eqs(2-8) w1(3) by blast
    then show ?thesis using w1(1) assms(2) False by (simp add: u_boot_def main_loop_def del: system.simps)
  qed
qed

theorem main_loop_boots_witness:
  "\<exists>w'. u_boot demo_board 1 demo_start = Some (Kernel 0x80008000 2967 0x80000100, w')
     \<and> kernel_state demo_start (demo_entry ''recovery'' 2048) demo_img w'"
proof -
  have k: "kernel_call demo_start demo_img = Kernel 0x80008000 2967 0x80000100"
    by (simp add: kernel_call_def demo_sels started_env_def demo_img_def)
  note demo_ready
  moreover have r: "recovery_asked demo_start"
    by (simp add: recovery_asked_def demo_ptns demo_sels demo_entry_def demo_disk_def BOOTMSG_COMMAND_RECOVERY_def cstr_of_def takeWhile_append)
  moreover have "bootable demo_start (demo_entry ''recovery'' 2048) demo_img"
    using demo_image_at by (simp add: bootable_def image_sector_def demo_entry_def demo_sels image_fits_def demo_img_def ram_off_def PHYS_SDRAM_1_def
        kernel_sector_def ramdisk_sector_def ALIGN_def nsect_def EMMC_SECTORS_def)
  moreover have "env_rep default_entries (env_arr (w_env demo_start))" using started_env_rep by (simp add: demo_sels)
  moreover have "cold_start (u_hw (w_usb demo_start))" by (simp add: demo_sels cold_start_def demo_usb_def)
  moreover have "area_of demo_start ! 0x1008 \<noteq> 0x35" using demo_area by (simp add: area_of_def demo_sels)
  moreover have "length (w_bootmsg demo_start) = 512" by (simp add: demo_start_def)
  ultimately show ?thesis
    using main_loop_boots[of demo_board demo_io "\<lambda>_. 1" 3 "\<lambda>_. None" "\<lambda>_ _. None" demo_start "bytes ''recovery''" "demo_entry ''recovery'' 2048" demo_img 0]
    by (simp add: k demo_ptns demo_board_def demo_plat_def demo_entry_def EMMC_SECTORS_def del: bytes_Cons)
qed

text \<open>
  C21. \<^verbatim>\<open>booti mmc1\<close> without an image: when no partition has the chosen name, or the partition does not begin with the magic number of a boot
  image two sectors in, the command starts no kernel but serves fastboot, with the device idle and no sector of the user area changed outside
  the copy of the identity area. Without an unused byte behind the array \<^verbatim>\<open>bootmode\<close> the command writes outside that array instead, and has no result.
\<close>

theorem booti_without_image:
  assumes "p_dev p = mmc_ops hsmmc" and w: "boot_ready w" "0x8000 \<le> length (w_ram w)"
    and ptn: "ptn = (case args of [] \<Rightarrow> boot_choice (p_gpio p) (good_area (area_of w) ! 0x1008) (bytes ''boot'') | n # _ \<Rightarrow> n)"
    and bad: "case find_ptn w ptn of None \<Rightarrow> True | Some pte \<Rightarrow> USER_BLOCK + 32 \<le> image_sector pte \<and> image_sector pte + 4 \<le> EMMC_SECTORS
        \<and> bslice 0 8 (sectors (emmc_sect (w_dev w) 0) (image_sector pte) 4) \<noteq> BOOT_MAGIC"
  shows "if p_slack p = 0 then do_booti p c junk junk_hdr (cmd # bytes ''mmc1'' # args) w = None
    else \<exists>w'. do_booti p c junk junk_hdr (cmd # bytes ''mmc1'' # args) w = do_fastboot p c junk 0 w'
      \<and> emmc_inv (w_dev w') \<and> emmc_part (w_dev w') = 0
      \<and> (\<forall>j. j < USER_BLOCK \<or> USER_BLOCK + 32 \<le> j \<longrightarrow> emmc_sect (w_dev w') 0 j = emmc_sect (w_dev w) 0 j)"
proof -
  have d: "emmc_inv (w_dev w)" "emmc_part (w_dev w) = 0" "length (gblock_buff (w_idme w)) = 512" "length (board_id (w_idme w)) = 17"
      "length (board_serial (w_idme w)) = 17" "\<not> w_gnUSBAttached w" and m: "plain_mbr (emmc_sect (w_dev w) 0 0)"
    using w(1) by (simp_all add: boot_ready_def)
  have cap: "1056 \<le> EMMC_SECTORS" by (simp add: EMMC_SECTORS_def)
  show ?thesis
  proof (cases "p_slack p = 0")
    case True
    then show ?thesis using block_device.do_booti_overrun[OF emmc.block_device_axioms assms(1) True d(1,2) cap d(3)] by simp
  next
    case False
    then have "0 < p_slack p" by simp
    then show ?thesis
      using block_device.do_booti_bad[OF emmc.block_device_axioms assms(1) _ d cap m w(2) ptn[unfolded good_area_def area_of_def], of c junk junk_hdr cmd]
        bad False unfolding image_sector_def Let_def by simp
  qed
qed

theorem booti_without_image_witness:
  "\<exists>w'. do_booti demo_plat musb_hw 0 0 [bytes ''booti'', bytes ''mmc1'', bytes ''misc''] demo_start = do_fastboot demo_plat musb_hw 0 0 w'
     \<and> emmc_sect (w_dev w') 0 2050 = demo_header"
proof -
  have "find_ptn demo_start (bytes ''misc'') = Some (demo_entry ''misc'' 3000)"
    using demo_ptns(2) unfolding CFG_BOOTMSG_PARTITION_def .
  moreover have "bslice 0 8 (sectors (demo_disk 0) 3002 4) \<noteq> BOOT_MAGIC"
  proof -
    have "bslice 0 8 (sectors (demo_disk 0) 3002 4) = replicate 8 0" by (simp add: sectors_def upt_conv_Cons demo_disk_def bslice_def)
    moreover have "hd BOOT_MAGIC \<noteq> 0" by (simp add: BOOT_MAGIC_def)
    ultimately show ?thesis by (metis hd_replicate zero_neq_numeral)
  qed
  ultimately show ?thesis
    using booti_without_image[of demo_plat demo_start "bytes ''misc''" "[bytes ''misc'']" musb_hw 0 0 "bytes ''booti''"] demo_ready
    by (auto simp: demo_plat_def image_sector_def demo_entry_def EMMC_SECTORS_def demo_sels demo_disk_def simp del: bytes_Cons)
qed

end
