(* ===== verification/Battery.thy ===== *)
theory Battery
  imports World "HOL-Library.Signed_Division"
begin

text \<open>
  The gas gauge (\<^verbatim>\<open>drivers/bq27541.c\<close>), the calls of the power chip it goes with (\<^verbatim>\<open>drivers/twl6030.c\<close>) and the check of the battery before the boot
  (\<^verbatim>\<open>drivers/battery_loop.c\<close>): a flat battery is charged in a loop, until it is good enough or something is wrong and the device is switched off.

  \<open>pw\<close> lists what this code calls: the I2C bus, the registers of the chip, the display (a datatype names its calls) and the delay (delays in a row are one delay); \<open>pw_off\<close> says whether the power chip has
  cut the power, after which nothing runs. A read of the bus returns its status and the bytes it has stored, fewer when it failed on
  the way.
\<close>

datatype lcd_call = Init_LCD | Show_devicetoohot | Show_charging | Show_lowbattery | Show_Logo | Set_Brightness u32
  | Power_off_LCD | Power_on_LCD | Display_disable | Display_reinit | Prcm_reinit u32 | Scale_reinit u32

record 'h pw =
  pw_select :: "int \<Rightarrow> int \<Rightarrow> 'h \<Rightarrow> int \<times> 'h"
  pw_read :: "byte \<Rightarrow> byte \<Rightarrow> nat \<Rightarrow> 'h \<Rightarrow> int \<times> byte list \<times> 'h"
  pw_write :: "byte \<Rightarrow> byte \<Rightarrow> byte list \<Rightarrow> 'h \<Rightarrow> int \<times> 'h"
  pw_rd32 :: "u32 \<Rightarrow> 'h \<Rightarrow> u32 \<times> 'h"
  pw_wr32 :: "u32 \<Rightarrow> u32 \<Rightarrow> 'h \<Rightarrow> 'h"
  pw_lcd :: "lcd_call \<Rightarrow> 'h \<Rightarrow> 'h"
  pw_delay :: "nat \<Rightarrow> 'h \<Rightarrow> 'h"
  pw_off :: "'h \<Rightarrow> bool"

section \<open>The gas gauge\<close>

definition BQ27541_I2C_BUS :: int where "BQ27541_I2C_BUS = 2"
definition BQ27541_ADDR :: byte where "BQ27541_ADDR = 0x55"
definition BQ27541_REG_CONTROL :: byte where "BQ27541_REG_CONTROL = 0"
definition BQ27541_REG_TEMP :: byte where "BQ27541_REG_TEMP = 0x06"
definition BQ27541_REG_VOLTAGE :: byte where "BQ27541_REG_VOLTAGE = 0x08"
definition BQ27541_REG_FLAGS :: byte where "BQ27541_REG_FLAGS = 0x0a"
definition BQ27541_REG_CURRENT :: byte where "BQ27541_REG_CURRENT = 0x14"
definition BQ27541_REG_SOC :: byte where "BQ27541_REG_SOC = 0x2c"

text \<open>A device on another bus: the bus is switched there and back. The same steps stand in the drivers of the gauge and of the temperature sensor.\<close>

definition bus_read :: "'h pw \<Rightarrow> int \<Rightarrow> byte \<Rightarrow> byte \<Rightarrow> byte list \<Rightarrow> 'h \<Rightarrow> int \<times> byte list \<times> 'h" where
  "bus_read b bus chip reg buffer h =
     (let (r, h) = pw_select b bus 100 h;
          (status, buffer, h) = (if r \<noteq> 0 then (-1, buffer, h)
            else let (status, bs, h) = pw_read b chip reg (length buffer) h in (status, patch 0 bs buffer, h))
      in (status, buffer, snd (pw_select b 0 100 h)))"

definition bus_write :: "'h pw \<Rightarrow> int \<Rightarrow> byte \<Rightarrow> byte \<Rightarrow> byte list \<Rightarrow> 'h \<Rightarrow> int \<times> 'h" where
  "bus_write b bus chip reg buffer h =
     (let (r, h) = pw_select b bus 100 h;
          (status, h) = (if r \<noteq> 0 then (-1, h) else pw_write b chip reg buffer h)
      in (status, snd (pw_select b 0 100 h)))"

definition bq27541_i2c_read :: "'h pw \<Rightarrow> byte \<Rightarrow> byte list \<Rightarrow> 'h \<Rightarrow> int \<times> byte list \<times> 'h" where
  "bq27541_i2c_read b = bus_read b BQ27541_I2C_BUS BQ27541_ADDR"

definition bq27541_i2c_write :: "'h pw \<Rightarrow> byte \<Rightarrow> byte list \<Rightarrow> 'h \<Rightarrow> int \<times> 'h" where
  "bq27541_i2c_write b = bus_write b BQ27541_I2C_BUS BQ27541_ADDR"

definition bq27541_device_type :: "'h pw \<Rightarrow> 'h \<Rightarrow> int \<times> 'h" where
  "bq27541_device_type b h =
     (let (r, h) = bq27541_i2c_write b BQ27541_REG_CONTROL [1, 0] h in
      if r \<noteq> 0 then (-1, h)
      else let (_, cmd, h) = bq27541_i2c_read b BQ27541_REG_CONTROL [1, 0] h
           in (if cmd ! 1 = 0x05 \<and> cmd ! 0 = 0x41 then 0 else 1, h))"

text \<open>A value of 16 bits, read over the variable that is to hold it: a read that fails may have changed its low byte.\<close>

definition gauge_read :: "'h pw \<Rightarrow> byte \<Rightarrow> u16 \<Rightarrow> 'h \<Rightarrow> int \<times> u16 \<times> 'h" where
  "gauge_read b reg v h = (let (r, bs, h) = bq27541_i2c_read b reg (le16 v) h in (if r \<noteq> 0 then -1 else 0, of_le bs, h))"

definition bq27541_capacity :: "'h pw \<Rightarrow> u16 \<Rightarrow> 'h \<Rightarrow> int \<times> u16 \<times> 'h" where
  "bq27541_capacity b = gauge_read b BQ27541_REG_SOC"

definition bq27541_voltage :: "'h pw \<Rightarrow> u16 \<Rightarrow> 'h \<Rightarrow> int \<times> u16 \<times> 'h" where
  "bq27541_voltage b = gauge_read b BQ27541_REG_VOLTAGE"

definition bq27541_current :: "'h pw \<Rightarrow> u16 \<Rightarrow> 'h \<Rightarrow> int \<times> u16 \<times> 'h" where
  "bq27541_current b = gauge_read b BQ27541_REG_CURRENT"

definition bq27541_flags :: "'h pw \<Rightarrow> u16 \<Rightarrow> 'h \<Rightarrow> int \<times> u16 \<times> 'h" where
  "bq27541_flags b = gauge_read b BQ27541_REG_FLAGS"

text \<open>Tenths of a kelvin become degrees; the difference is cut to 16 bits before the division.\<close>

definition to_celsius :: "u16 \<Rightarrow> u16" where
  "to_celsius v = word_of_int (sint (v - 2731) sdiv 10)"

definition bq27541_temperature :: "'h pw \<Rightarrow> u16 \<Rightarrow> 'h \<Rightarrow> int \<times> u16 \<times> 'h" where
  "bq27541_temperature b t h =
     (let (r, v, h) = gauge_read b BQ27541_REG_TEMP 0 h in if r \<noteq> 0 then (-1, t, h) else (0, to_celsius v, h))"

section \<open>The power chip and the temperature sensor\<close>

definition TWL6030_CHIP_PM :: byte where "TWL6030_CHIP_PM = 0x48"
definition TWL6030_CHIP_CHARGER :: byte where "TWL6030_CHIP_CHARGER = 0x49"
definition CONTROLLER_STAT1 :: byte where "CONTROLLER_STAT1 = 0xE3"
definition PHOENIX_STS_HW_CONDITION :: byte where "PHOENIX_STS_HW_CONDITION = 0x21"
definition TWL6030_PHONIX_DEV_ON :: byte where "TWL6030_PHONIX_DEV_ON = 0x25"
definition PHONIX_APP_DEVOFF :: byte where "PHONIX_APP_DEVOFF = 1"

definition twl6030_i2c_write_u8 :: "'h pw \<Rightarrow> byte \<Rightarrow> byte \<Rightarrow> byte \<Rightarrow> 'h \<Rightarrow> int \<times> 'h" where
  "twl6030_i2c_write_u8 b chip v reg h = pw_write b chip reg [v] h"

definition twl6030_i2c_read_u8 :: "'h pw \<Rightarrow> byte \<Rightarrow> byte \<Rightarrow> byte \<Rightarrow> 'h \<Rightarrow> int \<times> byte \<times> 'h" where
  "twl6030_i2c_read_u8 b chip v reg h = (let (r, bs, h) = pw_read b chip reg 1 h in (r, patch 0 bs [v] ! 0, h))"

definition twl6030_shutdown :: "'h pw \<Rightarrow> 'h \<Rightarrow> 'h" where
  "twl6030_shutdown b h = snd (twl6030_i2c_write_u8 b TWL6030_CHIP_PM PHONIX_APP_DEVOFF TWL6030_PHONIX_DEV_ON h)"

definition twl6030_get_vbus_status :: "'h pw \<Rightarrow> 'h \<Rightarrow> byte \<times> 'h" where
  "twl6030_get_vbus_status b h =
     (let (_, d, h) = twl6030_i2c_read_u8 b TWL6030_CHIP_CHARGER 0 CONTROLLER_STAT1 h in (drop_bit 2 (d AND 4), h))"

definition MISC2 :: byte where "MISC2 = 0xE5"
definition VUSB_CFG_GRP :: byte where "VUSB_CFG_GRP = 0xa0"
definition VUSB_CFG_TRANS :: byte where "VUSB_CFG_TRANS = 0xa1"
definition VUSB_CFG_STATE :: byte where "VUSB_CFG_STATE = 0xA2"
definition VUSB_CFG_VOLTAGE :: byte where "VUSB_CFG_VOLTAGE = 0xa3"

definition vusb_writes :: "'h pw \<Rightarrow> byte \<Rightarrow> 'h \<Rightarrow> 'h" where
  "vusb_writes b state = fold (\<lambda>(reg, v) h. snd (twl6030_i2c_write_u8 b TWL6030_CHIP_PM v reg h))
     [(VUSB_CFG_VOLTAGE, 0x18), (VUSB_CFG_GRP, 0), (VUSB_CFG_TRANS, 0), (VUSB_CFG_STATE, state)]"

definition misc2_update :: "'h pw \<Rightarrow> (byte \<Rightarrow> byte) \<Rightarrow> 'h \<Rightarrow> 'h" where
  "misc2_update b f h =
     (let (_, d, h) = twl6030_i2c_read_u8 b TWL6030_CHIP_PM 0 MISC2 h in snd (twl6030_i2c_write_u8 b TWL6030_CHIP_PM (f d) MISC2 h))"

definition twl6030_enable_vusb :: "'h pw \<Rightarrow> 'h \<Rightarrow> 'h" where
  "twl6030_enable_vusb b h = vusb_writes b 1 (misc2_update b (\<lambda>d. d OR 0x10) h)"

definition twl6030_disable_vusb :: "'h pw \<Rightarrow> 'h \<Rightarrow> 'h" where
  "twl6030_disable_vusb b h = misc2_update b (\<lambda>d. d AND NOT 0x18) (vusb_writes b 0 h)"

definition TMP103_I2C_BUS :: int where "TMP103_I2C_BUS = 2"
definition TMP103_ADDR :: byte where "TMP103_ADDR = 0x70"

definition tmp103_temperature_read :: "'h pw \<Rightarrow> byte list \<Rightarrow> 'h \<Rightarrow> int \<times> byte list \<times> 'h" where
  "tmp103_temperature_read b = bus_read b TMP103_I2C_BUS TMP103_ADDR 0"

section \<open>The charge loop\<close>

definition TEMPERATURE_COLD_LIMIT :: int where "TEMPERATURE_COLD_LIMIT = -19"
definition TEMPERATURE_HOT_LIMIT :: int where "TEMPERATURE_HOT_LIMIT = 59"
definition LOW_BATTERY_CAPACITY_LIMIT :: u16 where "LOW_BATTERY_CAPACITY_LIMIT = 2"
definition LOW_BATTERY_VOLTAGE_LIMIT :: u16 where "LOW_BATTERY_VOLTAGE_LIMIT = 3430"
definition LOW_BATTERY_SPLASH_VOLTAGE_LIMIT :: u16 where "LOW_BATTERY_SPLASH_VOLTAGE_LIMIT = 3100"
definition DEVICE_TEMP_BOOT_LIMIT :: byte where "DEVICE_TEMP_BOOT_LIMIT = 64"
definition LP8552_BRT_LEVEL2 :: u32 where "LP8552_BRT_LEVEL2 = 0x0A"
definition BATTERY_CHRG_ON :: u32 where "BATTERY_CHRG_ON = 1"
definition BATTERY_CHRG_OFF :: u32 where "BATTERY_CHRG_OFF = 0"

text \<open>The variables of the check and of the loop; the current and the temperature are signed.\<close>

record chg =
  voltage :: u16
  capacity :: u16
  current :: u16
  temperature :: u16
  sec :: int
  discharge_count :: int
  charge_screen_displayed :: bool

text \<open>The four readings in their order; the first that fails ends them.\<close>

definition read_battery :: "'h pw \<Rightarrow> chg \<Rightarrow> 'h \<Rightarrow> bool \<times> chg \<times> 'h" where
  "read_battery b c h =
     (let (r, v, h) = bq27541_voltage b (voltage c) h; c = c\<lparr>voltage := v\<rparr> in
      if r \<noteq> 0 then (False, c, h)
      else let (r, v, h) = bq27541_capacity b (capacity c) h; c = c\<lparr>capacity := v\<rparr> in
      if r \<noteq> 0 then (False, c, h)
      else let (r, v, h) = bq27541_current b (current c) h; c = c\<lparr>current := v\<rparr> in
      if r \<noteq> 0 then (False, c, h)
      else let (r, v, h) = bq27541_temperature b (temperature c) h; c = c\<lparr>temperature := v\<rparr> in
      (r = 0, c, h))"

definition battery_good :: "chg \<Rightarrow> bool" where
  "battery_good c \<longleftrightarrow> voltage c \<ge> LOW_BATTERY_VOLTAGE_LIMIT \<and> capacity c \<ge> LOW_BATTERY_CAPACITY_LIMIT"

datatype verdict = Shutdown | Charged | Wait

definition charge_check :: "'h pw \<Rightarrow> chg \<Rightarrow> 'h \<Rightarrow> verdict \<times> chg \<times> 'h" where
  "charge_check b c h =
     (if sint (temperature c) > TEMPERATURE_HOT_LIMIT \<or> sint (temperature c) < TEMPERATURE_COLD_LIMIT then (Shutdown, c, h)
      else let (vbus, h) = twl6030_get_vbus_status b h in
      if vbus = 0 then (Shutdown, c, h)
      else let c = (if sint (current c) \<le> 0 then c\<lparr>discharge_count := discharge_count c + 1\<rparr> else c) in
      if sint (current c) \<le> 0 \<and> discharge_count c > 10 then (Shutdown, c, h)
      else let c = (if sint (current c) > 0 then c\<lparr>discharge_count := 0\<rparr> else c) in
      if sec c > 30 * 60 * 5 * 2 then (Shutdown, c, h)
      else if battery_good c then (Charged, c, h)
      else (Wait, c, h))"

text \<open>Watching the power button for about a second, \<open>n\<close> polls still to come: whether it changed, and the value of \<^verbatim>\<open>ms\<close>.\<close>

fun button_loop :: "'h pw \<Rightarrow> nat \<Rightarrow> nat \<Rightarrow> byte \<Rightarrow> 'h \<Rightarrow> bool \<times> nat \<times> 'h" where
  "button_loop b 0 ms button_state h = (False, ms, h)"
| "button_loop b (Suc n) ms button_state h =
     (let (_, d, h) = twl6030_i2c_read_u8 b TWL6030_CHIP_PM 0 PHOENIX_STS_HW_CONDITION h; d = d AND 1 in
      if button_state XOR d \<noteq> 0 then (True, ms, h)
      else button_loop b n (ms + 1) d (pw_delay b 50000 h))"

definition lcd_calls :: "'h pw \<Rightarrow> (lcd_call \<times> nat) list \<Rightarrow> 'h \<Rightarrow> 'h" where
  "lcd_calls b = fold (\<lambda>(call, ms) h. pw_delay b (1000 * ms) (pw_lcd b call h))"

definition show_battery :: "chg \<Rightarrow> lcd_call" where
  "show_battery c = (if sint (current c) > 0 then Show_charging else Show_lowbattery)"

text \<open>
  The wait at the end of a turn, from the label \<^verbatim>\<open>skip\<close> on. When a reading has failed, the jump to that label passes the declaration of
  \<^verbatim>\<open>button_state\<close> and \<^verbatim>\<open>pressed\<close>, which then hold what is left on the stack: \<open>junk\<close>.
\<close>

definition charge_wait :: "'h pw \<Rightarrow> byte \<Rightarrow> bool \<Rightarrow> chg \<Rightarrow> 'h \<Rightarrow> chg \<times> 'h" where
  "charge_wait b button_state pressed c h =
     (let (k, ms, h) = button_loop b 20 0 button_state h;
          c = c\<lparr>sec := sec c + 5\<rparr>
      in if (pressed \<or> k \<or> \<not> charge_screen_displayed c) \<and> voltage c > LOW_BATTERY_SPLASH_VOLTAGE_LIMIT
         then (c\<lparr>charge_screen_displayed := True\<rparr>,
           lcd_calls b [(Init_LCD, 0), (Power_on_LCD, 200), (Display_reinit, 100), (show_battery c, 0), (Set_Brightness LP8552_BRT_LEVEL2, 5000 - ms * 50),
             (Set_Brightness 0, 100), (Power_off_LCD, 100), (Display_disable, 0)] h)
         else (c, h))"

partial_function (option) charge_turns :: "'h pw \<Rightarrow> ('h \<Rightarrow> byte \<times> bool) \<Rightarrow> chg \<Rightarrow> 'h \<Rightarrow> (bool \<times> chg \<times> 'h) option" where
  "charge_turns b junk c h =
     (let (ok, c, h) = read_battery b c h in
      if \<not> ok then
        (let (button_state, pressed) = junk h; (c, h) = charge_wait b button_state pressed c h in charge_turns b junk c h)
      else
        (let (v, c, h) = charge_check b c h in
         if v = Charged then Some (True, c, h)
         else if v = Wait then (let (c, h) = charge_wait b 1 False c h in charge_turns b junk c h)
         else (let h = twl6030_shutdown b h in if pw_off b h then Some (False, c, h) else charge_turns b junk c h)))"

text \<open>The result is whether the loop was left, and not the device switched off.\<close>

definition battery_charge_loop :: "'h pw \<Rightarrow> ('h \<Rightarrow> byte \<times> bool) \<Rightarrow> bool \<Rightarrow> 'h \<Rightarrow> (bool \<times> chg \<times> 'h) option" where
  "battery_charge_loop b junk screen h =
     charge_turns b junk \<lparr>voltage = 0, capacity = 0, current = 0, temperature = 0, sec = 0, discharge_count = 0, charge_screen_displayed = screen\<rparr> h"

definition too_hot :: "'h pw \<Rightarrow> 'h \<Rightarrow> 'h" where
  "too_hot b h = twl6030_shutdown b (lcd_calls b [(Init_LCD, 0), (Show_devicetoohot, 0), (Set_Brightness LP8552_BRT_LEVEL2, 4000)] h)"

text \<open>The check; the last readings are returned with the result.\<close>

definition check_battery_condition :: "'h pw \<Rightarrow> ('h \<Rightarrow> byte \<times> bool) \<Rightarrow> int \<Rightarrow> bool \<Rightarrow> 'h \<Rightarrow> (ret \<times> chg \<times> 'h) option" where
  "check_battery_condition b junk wall_charger screen h =
     (let (ok, c, h) = read_battery b \<lparr>voltage = 0, capacity = 0, current = 0, temperature = 0, sec = 0, discharge_count = 0, charge_screen_displayed = screen\<rparr> h in
      if \<not> ok then Some (Ret (-1), c, h)
      else let (_, t, h) = tmp103_temperature_read b [0] h;
               h = (if t ! 0 \<ge> DEVICE_TEMP_BOOT_LIMIT then too_hot b h else h) in
      if t ! 0 \<ge> DEVICE_TEMP_BOOT_LIMIT \<and> pw_off b h then Some (Halt Power_Off, c, h)
      else if battery_good c then Some (Ret 0, c, h)
      else do {
        let shown = (voltage c > LOW_BATTERY_SPLASH_VOLTAGE_LIMIT \<or> wall_charger \<noteq> 0 \<or> sint (current c) \<le> 0);
        let h = (if shown then lcd_calls b [(Init_LCD, 0), (show_battery c, 0), (Set_Brightness LP8552_BRT_LEVEL2, 5000), (Set_Brightness 0, 100),
            (Power_off_LCD, 100), (Display_disable, 100)] h else h);
        let h = lcd_calls b [(Prcm_reinit BATTERY_CHRG_ON, 0), (Scale_reinit BATTERY_CHRG_ON, 0)] h;
        (charged, c, h) \<leftarrow> battery_charge_loop b junk (screen \<or> shown) h;
        if \<not> charged then Some (Halt Power_Off, c, h)
        else Some (Ret 0, c, lcd_calls b [(Scale_reinit BATTERY_CHRG_OFF, 0), (Prcm_reinit BATTERY_CHRG_OFF, 0), (Init_LCD, 0), (Power_on_LCD, 200),
          (Display_reinit, 100), (Show_Logo, 0)] h) })"

section \<open>What the check does\<close>

lemma read_battery_keeps: "read_battery b c h = (r, c', h') \<Longrightarrow> sec c' = sec c"
  by (auto simp: read_battery_def Let_def split: prod.splits if_splits)

lemma charge_check_keeps: "charge_check b c h = (v, c', h') \<Longrightarrow> sec c' = sec c"
  by (auto simp: charge_check_def Let_def split: prod.splits if_splits)

lemma charge_check_wait: "charge_check b c h = (Wait, c', h') \<Longrightarrow> sec c \<le> 18000"
  by (auto simp: charge_check_def Let_def split: prod.splits if_splits)

lemma charge_check_charged:
  "charge_check b c h = (Charged, c', h') \<Longrightarrow> battery_good c' \<and> sec c' \<le> 18000
    \<and> TEMPERATURE_COLD_LIMIT \<le> sint (temperature c') \<and> sint (temperature c') \<le> TEMPERATURE_HOT_LIMIT"
  by (auto simp: charge_check_def Let_def battery_good_def split: prod.splits if_splits)

lemma charge_wait_sec: "charge_wait b s k c h = (c', h') \<Longrightarrow> sec c' = sec c + 5"
  by (auto simp: charge_wait_def Let_def split: prod.splits if_splits)

text \<open>Every turn that waits adds five seconds, and none waits beyond the limit.\<close>

lemma charge_turns_ends:
  assumes gauge: "\<forall>c h. fst (read_battery b c h)" and off: "\<forall>h. pw_off b (twl6030_shutdown b h)"
  shows "\<exists>charged c' h'. charge_turns b junk c h = Some (charged, c', h')"
proof (induction "nat (18005 - sec c)" arbitrary: c h rule: less_induct)
  case less
  obtain c1 h1 where r: "read_battery b c h = (True, c1, h1)" using gauge by (metis prod.collapse)
  obtain v c2 h2 where k: "charge_check b c1 h1 = (v, c2, h2)" by (metis prod_cases3)
  show ?case
  proof (cases v)
    case Wait
    obtain c3 h3 where w: "charge_wait b 1 False c2 h2 = (c3, h3)" by fastforce
    have "sec c3 = sec c + 5" "sec c \<le> 18000"
      using r k w Wait read_battery_keeps charge_check_keeps charge_check_wait charge_wait_sec by metis+
    then have "nat (18005 - sec c3) < nat (18005 - sec c)" by simp
    from less[OF this] show ?thesis using r k w Wait by (subst charge_turns.simps) simp
  next
    case Shutdown
    then show ?thesis using r k off by (subst charge_turns.simps) auto
  next
    case Charged
    then show ?thesis using r k by (subst charge_turns.simps) auto
  qed
qed

definition charge_result :: "bool \<times> chg \<times> 'h \<Rightarrow> bool" where
  "charge_result r = (case r of (charged, c, h) \<Rightarrow> charged \<longrightarrow> battery_good c \<and> sec c \<le> 18000
     \<and> TEMPERATURE_COLD_LIMIT \<le> sint (temperature c) \<and> sint (temperature c) \<le> TEMPERATURE_HOT_LIMIT)"

lemma charge_turns_safe:
  fixes b :: "'h pw"
  assumes "charge_turns b junk c h = Some r"
  shows "charge_result r"
proof (rule charge_turns.raw_induct[of "\<lambda>b junk c h r. charge_result r", OF _ assms])
  fix f :: "'h pw \<Rightarrow> ('h \<Rightarrow> byte \<times> bool) \<Rightarrow> chg \<Rightarrow> 'h \<Rightarrow> (bool \<times> chg \<times> 'h) option" and b :: "'h pw" and junk c h r
  assume IH: "\<And>b junk c h r. f b junk c h = Some r \<Longrightarrow> charge_result r"
    and eq: "(let (ok, c, h) = read_battery b c h in
      if \<not> ok then
        (let (button_state, pressed) = junk h; (c, h) = charge_wait b button_state pressed c h in f b junk c h)
      else
        (let (v, c, h) = charge_check b c h in
         if v = Charged then Some (True, c, h)
         else if v = Wait then (let (c, h) = charge_wait b 1 False c h in f b junk c h)
         else (let h = twl6030_shutdown b h in if pw_off b h then Some (False, c, h) else f b junk c h))) = Some r"
  obtain ok c1 h1 where r: "read_battery b c h = (ok, c1, h1)" by (metis prod_cases3)
  obtain v c2 h2 where k: "charge_check b c1 h1 = (v, c2, h2)" by (metis prod_cases3)
  show "charge_result r"
    using IH eq r k charge_check_charged[of b c1 h1 c2 h2]
    by (cases v) (auto simp: Let_def charge_result_def split: prod.splits if_splits)
qed

lemma charge_turns_silent:
  fixes b :: "'h pw"
  assumes "\<forall>c h. \<not> fst (read_battery b c h)"
  shows "charge_turns b junk c h = None"
proof (rule ccontr)
  assume "charge_turns b junk c h \<noteq> None"
  then obtain r where "charge_turns b junk c h = Some r" by blast
  then have "b \<noteq> b"
  proof (rule charge_turns.raw_induct[of "\<lambda>b' junk c h r. b' \<noteq> b", rotated])
    fix f :: "'h pw \<Rightarrow> ('h \<Rightarrow> byte \<times> bool) \<Rightarrow> chg \<Rightarrow> 'h \<Rightarrow> (bool \<times> chg \<times> 'h) option" and b' :: "'h pw" and junk c h r
    assume IH: "\<And>b' junk c h r. f b' junk c h = Some r \<Longrightarrow> b' \<noteq> b"
      and eq: "(let (ok, c, h) = read_battery b' c h in
        if \<not> ok then
          (let (button_state, pressed) = junk h; (c, h) = charge_wait b' button_state pressed c h in f b' junk c h)
        else
          (let (v, c, h) = charge_check b' c h in
           if v = Charged then Some (True, c, h)
           else if v = Wait then (let (c, h) = charge_wait b' 1 False c h in f b' junk c h)
           else (let h = twl6030_shutdown b' h in if pw_off b' h then Some (False, c, h) else f b' junk c h))) = Some r"
    obtain c1 h1 where "read_battery b c h = (False, c1, h1)" using assms by (metis prod.collapse)
    then show "b' \<noteq> b" using eq by (auto split: prod.splits dest: IH)
  qed
  then show False by simp
qed

text \<open>A flat battery without a charger: the device is switched off.\<close>

definition flat_battery :: "bool pw" where
  "flat_battery = \<lparr>pw_select = (\<lambda>_ _ h. (0, h)), pw_read = (\<lambda>chip reg n h. (0, replicate n 0, h)),
     pw_write = (\<lambda>chip reg bs h. (0, chip = 0x48 \<and> reg = 0x25 \<and> bs = [1] \<or> h)), pw_rd32 = (\<lambda>_ h. (0, h)), pw_wr32 = (\<lambda>_ _ h. h), pw_lcd = (\<lambda>_ h. h), pw_delay = (\<lambda>_ h. h), pw_off = (\<lambda>h. h)\<rparr>"

lemmas gauge_defs = read_battery_def bq27541_voltage_def bq27541_capacity_def bq27541_current_def bq27541_temperature_def gauge_read_def
  bq27541_i2c_read_def bus_read_def

text \<open>
  C27. The battery check ends: when the gauge answers and the power chip obeys, either the boot goes on, and then only with at least 3.43 V and 2 percent in the last
  readings, or the device has been switched off. The charge loop needs no other help: the five hours it may take are counted by itself.
\<close>

theorem battery_check_ends:
  assumes gauge: "\<forall>c h. fst (read_battery b c h)" and off: "\<forall>h. pw_off b (twl6030_shutdown b h)"
  shows "\<exists>r c' h'. check_battery_condition b junk wall screen h = Some (r, c', h') \<and> (r = Ret 0 \<and> battery_good c' \<or> r = Halt Power_Off)"
proof -
  let ?c0 = "\<lparr>voltage = 0, capacity = 0, current = 0, temperature = 0, sec = 0, discharge_count = 0, charge_screen_displayed = screen\<rparr>"
  obtain c1 h1 where r: "read_battery b ?c0 h = (True, c1, h1)" using gauge by (metis prod.collapse)
  have loop: "\<exists>ok c' h'. battery_charge_loop b junk s h = Some (ok, c', h') \<and> (ok \<longrightarrow> battery_good c')" for s h
    using charge_turns_ends[OF gauge off] charge_turns_safe unfolding battery_charge_loop_def charge_result_def by fastforce
  obtain s t h2 where t: "tmp103_temperature_read b [0] h1 = (s, t, h2)" by (metis prod_cases3)
  show ?thesis
  proof (cases "t ! 0 \<ge> DEVICE_TEMP_BOOT_LIMIT \<or> battery_good c1")
    case True
    then show ?thesis using r t off by (auto simp: check_battery_condition_def too_hot_def)
  next
    case False
    let ?shown = "voltage c1 > LOW_BATTERY_SPLASH_VOLTAGE_LIMIT \<or> wall \<noteq> 0 \<or> sint (current c1) \<le> 0"
    let ?h3 = "lcd_calls b [(Prcm_reinit BATTERY_CHRG_ON, 0), (Scale_reinit BATTERY_CHRG_ON, 0)]
      (if ?shown then lcd_calls b [(Init_LCD, 0), (show_battery c1, 0), (Set_Brightness LP8552_BRT_LEVEL2, 5000), (Set_Brightness 0, 100),
         (Power_off_LCD, 100), (Display_disable, 100)] h2 else h2)"
    obtain ok c' h' where l: "battery_charge_loop b junk (screen \<or> ?shown) ?h3 = Some (ok, c', h')" "ok \<longrightarrow> battery_good c'" using loop by blast
    have "check_battery_condition b junk wall screen h = do {
        (charged, c, h) \<leftarrow> battery_charge_loop b junk (screen \<or> ?shown) ?h3;
        if \<not> charged then Some (Halt Power_Off, c, h)
        else Some (Ret 0, c, lcd_calls b [(Scale_reinit BATTERY_CHRG_OFF, 0), (Prcm_reinit BATTERY_CHRG_OFF, 0), (Init_LCD, 0), (Power_on_LCD, 200),
          (Display_reinit, 100), (Show_Logo, 0)] h) }"
      using False r t unfolding check_battery_condition_def by (simp only: Let_def prod.case not_True_eq_False if_False de_Morgan_disj simp_thms)
    then show ?thesis using l by (cases ok) simp_all
  qed
qed

theorem battery_check_ends_witness:
  "\<exists>r c' h'. check_battery_condition flat_battery (\<lambda>_. (0, False)) 0 False False = Some (r, c', h') \<and> (r = Ret 0 \<and> battery_good c' \<or> r = Halt Power_Off)"
  by (rule battery_check_ends)
    (simp_all add: gauge_defs flat_battery_def twl6030_shutdown_def twl6030_i2c_write_u8_def TWL6030_CHIP_PM_def PHONIX_APP_DEVOFF_def TWL6030_PHONIX_DEV_ON_def)

text \<open>
  C29. A gauge that falls silent while the battery is charged keeps the device in the charge loop for ever: a failed reading jumps past every check, that of the charging
  time included.
\<close>

theorem silent_gauge_hangs:
  assumes "\<forall>c h. \<not> fst (read_battery b c h)"
  shows "battery_charge_loop b junk screen h = None"
  unfolding battery_charge_loop_def by (rule charge_turns_silent[OF assms])

theorem silent_gauge_hangs_witness:
  "battery_charge_loop (flat_battery\<lparr>pw_read := (\<lambda>_ _ _ h. (1, [], h))\<rparr>) (\<lambda>_. (0, False)) False False = None"
  by (rule silent_gauge_hangs) (simp add: gauge_defs flat_battery_def)

end
