(* ===== verification/I2c.thy ===== *)
theory I2c
  imports Battery
begin

text \<open>
  The driver of the I2C controllers (\<^verbatim>\<open>drivers/omap24xx_i2c.c\<close>), register access by register access. \<open>'h i2c\<close> holds its two static variables
  and the hardware; \<open>i2c_io\<close> lists the accesses to the hardware. A loop \<^verbatim>\<open>while (c && n--)\<close> is a recursion on \<open>n\<close> that returns what is left
  in the counter, which is \<open>-1\<close> when the counter ended it. \<^verbatim>\<open>flush_fifo\<close> and the wait for the end of a reset have no bound of
  their own: they are partial.
\<close>

record 'h i2c_io =
  io_rd16 :: "u32 \<Rightarrow> 'h \<Rightarrow> u16 \<times> 'h"
  io_wr16 :: "u32 \<Rightarrow> u16 \<Rightarrow> 'h \<Rightarrow> 'h"
  io_rd8 :: "u32 \<Rightarrow> 'h \<Rightarrow> byte \<times> 'h"
  io_wr8 :: "u32 \<Rightarrow> byte \<Rightarrow> 'h \<Rightarrow> 'h"
  io_delay :: "nat \<Rightarrow> 'h \<Rightarrow> 'h"

record 'h i2c =
  i2c_hw :: 'h
  i2c_base :: u32
  i2c_speed :: int

section \<open>Registers\<close>

definition I2C_IE :: u32 where "I2C_IE = 0x2C"
definition I2C_STAT :: u32 where "I2C_STAT = 0x28"
definition I2C_CNT :: u32 where "I2C_CNT = 0x98"
definition I2C_DATA :: u32 where "I2C_DATA = 0x9C"
definition I2C_SYSC :: u32 where "I2C_SYSC = 0x10"
definition I2C_CON :: u32 where "I2C_CON = 0xA4"
definition I2C_OA :: u32 where "I2C_OA = 0xA8"
definition I2C_SA :: u32 where "I2C_SA = 0xAC"
definition I2C_PSC :: u32 where "I2C_PSC = 0xB0"
definition I2C_SCLL :: u32 where "I2C_SCLL = 0xB4"
definition I2C_SCLH :: u32 where "I2C_SCLH = 0xB8"
definition I2C_SYSTEST :: u32 where "I2C_SYSTEST = 0xBC"
definition I2C_SYSS :: u32 where "I2C_SYSS = 0x90"
definition I2C_IE_XRDY_IE :: u16 where "I2C_IE_XRDY_IE = 0x10"
definition I2C_IE_RRDY_IE :: u16 where "I2C_IE_RRDY_IE = 0x8"
definition I2C_IE_ARDY_IE :: u16 where "I2C_IE_ARDY_IE = 0x4"
definition I2C_IE_NACK_IE :: u16 where "I2C_IE_NACK_IE = 0x2"
definition I2C_IE_AL_IE :: u16 where "I2C_IE_AL_IE = 0x1"
definition I2C_STAT_BB :: u16 where "I2C_STAT_BB = 0x1000"
definition I2C_STAT_ROVR :: u16 where "I2C_STAT_ROVR = 0x800"
definition I2C_STAT_XUDF :: u16 where "I2C_STAT_XUDF = 0x400"
definition I2C_STAT_XRDY :: u16 where "I2C_STAT_XRDY = 0x10"
definition I2C_STAT_RRDY :: u16 where "I2C_STAT_RRDY = 0x8"
definition I2C_STAT_ARDY :: u16 where "I2C_STAT_ARDY = 0x4"
definition I2C_STAT_NACK :: u16 where "I2C_STAT_NACK = 0x2"
definition I2C_STAT_AL :: u16 where "I2C_STAT_AL = 0x1"
definition I2C_CON_EN :: u16 where "I2C_CON_EN = 0x8000"
definition I2C_CON_MST :: u16 where "I2C_CON_MST = 0x400"
definition I2C_CON_TRX :: u16 where "I2C_CON_TRX = 0x200"
definition I2C_CON_STP :: u16 where "I2C_CON_STP = 0x2"
definition I2C_CON_STT :: u16 where "I2C_CON_STT = 0x1"
definition I2C_SYSTEST_ST_EN :: u16 where "I2C_SYSTEST_ST_EN = 0x8000"
definition I2C_SYSTEST_TMODE_TEST :: u16 where "I2C_SYSTEST_TMODE_TEST = 0x2000"
definition I2C_SYSC_SRST :: u16 where "I2C_SYSC_SRST = 0x2"
definition I2C_SYSS_RDONE :: u16 where "I2C_SYSS_RDONE = 0x1"
definition OMAP_I2C_STANDARD :: int where "OMAP_I2C_STANDARD = 100"
definition OMAP_I2C_FAST_MODE :: int where "OMAP_I2C_FAST_MODE = 400"
definition OMAP_I2C_HIGH_SPEED :: int where "OMAP_I2C_HIGH_SPEED = 3400"
definition I2C_IP_CLK :: int where "I2C_IP_CLK = 96000"
definition I2C_PSC_MAX :: int where "I2C_PSC_MAX = 15"
definition I2C_BASE1 :: u32 where "I2C_BASE1 = 0x48070000"
definition I2C_BASE2 :: u32 where "I2C_BASE2 = 0x48072000"
definition I2C_BASE3 :: u32 where "I2C_BASE3 = 0x48060000"
definition I2C_BASE4 :: u32 where "I2C_BASE4 = 0x48350000"
definition I2C_NUM_IF :: int where "I2C_NUM_IF = 4"
definition CFG_I2C_SLAVE :: u16 where "CFG_I2C_SLAVE = 1"

definition inw :: "'h i2c_io \<Rightarrow> u32 \<Rightarrow> 'h i2c \<Rightarrow> u16 \<times> 'h i2c" where
  "inw c a s = (let (v, h) = io_rd16 c (i2c_base s + a) (i2c_hw s) in (v, s\<lparr>i2c_hw := h\<rparr>))"

definition outw :: "'h i2c_io \<Rightarrow> u16 \<Rightarrow> u32 \<Rightarrow> 'h i2c \<Rightarrow> 'h i2c" where
  "outw c v a s = s\<lparr>i2c_hw := io_wr16 c (i2c_base s + a) v (i2c_hw s)\<rparr>"

definition inb :: "'h i2c_io \<Rightarrow> u32 \<Rightarrow> 'h i2c \<Rightarrow> byte \<times> 'h i2c" where
  "inb c a s = (let (v, h) = io_rd8 c (i2c_base s + a) (i2c_hw s) in (v, s\<lparr>i2c_hw := h\<rparr>))"

definition outb :: "'h i2c_io \<Rightarrow> byte \<Rightarrow> u32 \<Rightarrow> 'h i2c \<Rightarrow> 'h i2c" where
  "outb c v a s = s\<lparr>i2c_hw := io_wr8 c (i2c_base s + a) v (i2c_hw s)\<rparr>"

definition i2c_udelay :: "'h i2c_io \<Rightarrow> nat \<Rightarrow> 'h i2c \<Rightarrow> 'h i2c" where
  "i2c_udelay c us s = s\<lparr>i2c_hw := io_delay c us (i2c_hw s)\<rparr>"

section \<open>Waiting\<close>

partial_function (option) flush_fifo :: "'h i2c_io \<Rightarrow> 'h i2c \<Rightarrow> 'h i2c option" where
  "flush_fifo c s =
     (let (stat, s) = inw c I2C_STAT s in
      if stat = I2C_STAT_RRDY then (let (_, s) = inb c I2C_DATA s in flush_fifo c (outw c I2C_STAT_RRDY I2C_STAT s))
      else Some s)"

text \<open>The wait for the bit \<^verbatim>\<open>ARDY\<close>, with a delay of \<open>us\<close> microseconds in each turn.\<close>

fun ready_loop :: "'h i2c_io \<Rightarrow> nat \<Rightarrow> nat \<Rightarrow> 'h i2c \<Rightarrow> int \<times> 'h i2c" where
  "ready_loop c us n s =
     (let (stat, s) = inw c I2C_STAT s in
      if stat AND I2C_STAT_ARDY \<noteq> 0 then (int n, s)
      else case n of 0 \<Rightarrow> (-1, s) | Suc m \<Rightarrow> ready_loop c us m (i2c_udelay c us s))"

text \<open>The test \<^verbatim>\<open>inw(I2C_STAT) || (inw(I2C_CON) & I2C_CON_MST)\<close>, and the loop that clears the status until it fails, for at most \<open>n + 1\<close> turns.\<close>

definition pending :: "'h i2c_io \<Rightarrow> 'h i2c \<Rightarrow> bool \<times> 'h i2c" where
  "pending c s =
     (let (stat, s) = inw c I2C_STAT s in
      if stat \<noteq> 0 then (True, s)
      else let (con, s) = inw c I2C_CON s in (con AND I2C_CON_MST \<noteq> 0, s))"

fun clear_loop :: "'h i2c_io \<Rightarrow> nat \<Rightarrow> nat \<Rightarrow> 'h i2c \<Rightarrow> 'h i2c" where
  "clear_loop c us n s =
     (let (p, s) = pending c s in
      if \<not> p then s
      else let s = outw c 0xFFFF I2C_STAT (if us = 0 then s else i2c_udelay c us s) in
      case n of 0 \<Rightarrow> s | Suc m \<Rightarrow> clear_loop c us m s)"

fun bb_loop :: "'h i2c_io \<Rightarrow> nat \<Rightarrow> 'h i2c \<Rightarrow> int \<times> 'h i2c" where
  "bb_loop c n s =
     (let (v, s) = inw c I2C_STAT s; stat = v AND I2C_STAT_BB in
      if stat = 0 then (int n, s)
      else case n of 0 \<Rightarrow> (-1, s) | Suc m \<Rightarrow> bb_loop c m (outw c stat I2C_STAT s))"

definition PIN_MASK :: u16 where
  "PIN_MASK = I2C_STAT_ROVR OR I2C_STAT_XUDF OR I2C_STAT_XRDY OR I2C_STAT_RRDY OR I2C_STAT_ARDY OR I2C_STAT_NACK OR I2C_STAT_AL"

fun pin_loop :: "'h i2c_io \<Rightarrow> nat \<Rightarrow> 'h i2c \<Rightarrow> u16 \<times> int \<times> 'h i2c" where
  "pin_loop c n s =
     (let (status, s) = inw c I2C_STAT s in
      if status AND PIN_MASK \<noteq> 0 then (status, int n, s)
      else case n of 0 \<Rightarrow> (status, -1, s) | Suc m \<Rightarrow> pin_loop c m s)"

definition wait_for_pin :: "'h i2c_io \<Rightarrow> 'h i2c \<Rightarrow> u16 \<times> 'h i2c" where
  "wait_for_pin c s =
     (let (status, timeout, s) = pin_loop c 2000 s in
      (status, if timeout \<le> 0 then outw c 0xFFFF I2C_STAT (snd (inw c I2C_STAT s)) else s))"

section \<open>Set-up\<close>

fun disable_loop :: "'h i2c_io \<Rightarrow> nat \<Rightarrow> 'h i2c \<Rightarrow> int \<times> 'h i2c" where
  "disable_loop c n s =
     (let (con, s) = inw c I2C_CON s in
      if con AND I2C_CON_EN = 0 then (int n, s)
      else case n of 0 \<Rightarrow> (-1, s) | Suc m \<Rightarrow> disable_loop c m (outw c 0 I2C_CON s))"

text \<open>The wait for the end of the reset goes on with the counter of the loop before. When that loop has run out, the counter is
  negative, and this one does not end without the bit.\<close>

partial_function (option) reset_loop :: "'h i2c_io \<Rightarrow> int \<Rightarrow> 'h i2c \<Rightarrow> 'h i2c option" where
  "reset_loop c reset_timeout s =
     (let (v, s) = inw c I2C_SYSS s in
      if v AND I2C_SYSS_RDONE \<noteq> 0 then Some s
      else if reset_timeout = 0 then Some s
      else reset_loop c (reset_timeout - 1) (i2c_udelay c 1000 s))"

text \<open>The search for a prescaler, from \<open>psc\<close> downwards, that gives the clock without a remainder; \<open>scl_lh\<close> is kept from turn to turn.\<close>

definition scl_try :: "int \<Rightarrow> int \<Rightarrow> int \<Rightarrow> int" where
  "scl_try speed psc scl_lh =
     (let iclk = I2C_IP_CLK sdiv (psc + 1);
          scl_lh = (if speed = OMAP_I2C_STANDARD then (iclk * 10) sdiv (OMAP_I2C_STANDARD * 2)
                    else if speed = OMAP_I2C_HIGH_SPEED \<or> speed = OMAP_I2C_FAST_MODE then (iclk * 10) sdiv (OMAP_I2C_FAST_MODE * 2)
                    else scl_lh)
      in if scl_lh smod 10 \<noteq> 0 then -1 else scl_lh sdiv 10 - 7)"

fun psc_search :: "int \<Rightarrow> nat \<Rightarrow> int \<Rightarrow> (int \<times> int) option" where
  "psc_search speed psc scl_lh =
     (let scl_lh = scl_try speed (int psc) scl_lh in
      if scl_lh \<ge> 0 then Some (int psc, scl_lh)
      else case psc of 0 \<Rightarrow> None | Suc p \<Rightarrow> psc_search speed p scl_lh)"

definition scl_of :: "int \<Rightarrow> int \<Rightarrow> int \<Rightarrow> int" where
  "scl_of speed iclk scl_lh =
     (if speed = OMAP_I2C_STANDARD then (iclk sdiv (OMAP_I2C_STANDARD * 2) - 7) AND 0xFF
      else if speed = OMAP_I2C_HIGH_SPEED then
        push_bit 8 ((I2C_IP_CLK sdiv (OMAP_I2C_HIGH_SPEED * 2) - 7) AND 0xFF) OR ((iclk sdiv (OMAP_I2C_FAST_MODE * 2) - 7) AND 0xFF)
      else if speed = OMAP_I2C_FAST_MODE then scl_lh OR ((iclk sdiv (OMAP_I2C_FAST_MODE * 2) - 7) AND 0xFF)
      else scl_lh)"

definition i2c_init :: "'h i2c_io \<Rightarrow> int \<Rightarrow> u16 \<Rightarrow> 'h i2c \<Rightarrow> 'h i2c option" where
  "i2c_init c speed slaveadd s =
     (let (reset_timeout, s) = disable_loop c 100 s;
          s = i2c_udelay c 1000 (outw c I2C_SYSC_SRST I2C_SYSC s) in
      case psc_search speed (nat I2C_PSC_MAX) 0 of
        None \<Rightarrow> Some s
      | Some (psc, scl_lh) \<Rightarrow> do {
          let scl_lh = scl_of speed (I2C_IP_CLK sdiv (psc + 1)) scl_lh;
          s \<leftarrow> reset_loop c reset_timeout (outw c I2C_CON_EN I2C_CON s);
          let s = outw c (word_of_int psc) I2C_PSC (outw c 0 I2C_CON s);
          let s = outw c (word_of_int scl_lh) I2C_SCLH (outw c (word_of_int scl_lh) I2C_SCLL s);
          let s = outw c I2C_CON_EN I2C_CON (outw c slaveadd I2C_OA s);
          let s = outw c (I2C_IE_XRDY_IE OR I2C_IE_RRDY_IE OR I2C_IE_ARDY_IE OR I2C_IE_NACK_IE OR I2C_IE_AL_IE) I2C_IE s;
          s \<leftarrow> flush_fifo c (i2c_udelay c 1000 s);
          Some ((outw c 0 I2C_CNT (outw c 0xFFFF I2C_STAT s))\<lparr>i2c_speed := speed\<rparr>) })"

definition bus_base :: "int \<Rightarrow> u32" where
  "bus_base bus = (if bus = 3 then I2C_BASE4 else if bus = 2 then I2C_BASE3 else if bus = 1 then I2C_BASE2 else I2C_BASE1)"

definition select_bus :: "'h i2c_io \<Rightarrow> int \<Rightarrow> int \<Rightarrow> 'h i2c \<Rightarrow> (int \<times> 'h i2c) option" where
  "select_bus c bus speed s =
     (if bus < 0 \<or> bus \<ge> I2C_NUM_IF then Some (-1, s)
      else if speed \<noteq> OMAP_I2C_STANDARD \<and> speed \<noteq> OMAP_I2C_FAST_MODE \<and> speed \<noteq> OMAP_I2C_HIGH_SPEED then Some (-1, s)
      else do {
        s \<leftarrow> i2c_init c speed CFG_I2C_SLAVE (s\<lparr>i2c_base := bus_base bus\<rparr>);
        Some (0, s) })"

definition wait_for_bb :: "'h i2c_io \<Rightarrow> 'h i2c \<Rightarrow> 'h i2c option" where
  "wait_for_bb c s =
     (let (timeout, s) = bb_loop c 5000 (outw c 0xFFFF I2C_STAT s) in
      if timeout > 0 then Some (outw c 0xFFFF I2C_STAT s)
      else do {
        let (_, s) = inw c I2C_STAT s;
        let (w, s) = inw c I2C_SYSTEST s;
        let s = outw c (I2C_SYSTEST_ST_EN OR I2C_SYSTEST_TMODE_TEST) I2C_SYSTEST (outw c I2C_CON_EN I2C_CON s);
        let s = outw c 0 I2C_CON (outw c w I2C_SYSTEST (i2c_udelay c 1000 s));
        s \<leftarrow> i2c_init c (i2c_speed s) CFG_I2C_SLAVE s;
        Some (outw c 0xFFFF I2C_STAT (snd (bb_loop c 5000 s))) })"

section \<open>Transfers\<close>

text \<open>The value of the control register that starts a transfer, and the end of every transfer.\<close>

definition con_start :: "'h i2c \<Rightarrow> u16 \<Rightarrow> u16" where
  "con_start s bits = I2C_CON_EN OR (if i2c_speed s = OMAP_I2C_HIGH_SPEED then 0x1000 else 0) OR I2C_CON_MST OR I2C_CON_STT OR bits"

definition finish :: "'h i2c_io \<Rightarrow> 'h i2c \<Rightarrow> 'h i2c option" where
  "finish c s = do { s \<leftarrow> flush_fifo c s; Some (outw c 0 I2C_CNT (outw c 0xFFFF I2C_STAT s)) }"

text \<open>The first half of \<^verbatim>\<open>i2c_read_byte\<close> sends the number of the register, the second reads a byte: whether an error occurred, and the byte
  if one has been stored.\<close>

definition send_offset :: "'h i2c_io \<Rightarrow> byte \<Rightarrow> byte \<Rightarrow> 'h i2c \<Rightarrow> bool \<times> 'h i2c" where
  "send_offset c devaddr regoffset s =
     (let s = outw c (ucast devaddr) I2C_SA (outw c 1 I2C_CNT s);
          (status, s) = wait_for_pin c (outw c (con_start s I2C_CON_TRX) I2C_CON s) in
      if status AND I2C_STAT_XRDY \<noteq> 0 then
        let (err, s) = ready_loop c 1 20000 (outb c regoffset I2C_DATA s) in
        if err \<le> 0 then (True, s)
        else let (stat, s) = inw c I2C_STAT s in (stat AND I2C_STAT_NACK \<noteq> 0, s)
      else (True, s))"

definition fetch_byte :: "'h i2c_io \<Rightarrow> byte \<Rightarrow> 'h i2c \<Rightarrow> bool \<times> byte option \<times> 'h i2c" where
  "fetch_byte c devaddr s =
     (let s = outw c 1 I2C_CNT (outw c (ucast devaddr) I2C_SA (clear_loop c 0 2000 s));
          (status, s) = wait_for_pin c (outw c (con_start s I2C_CON_STP) I2C_CON s) in
      if status AND I2C_STAT_RRDY \<noteq> 0 then
        let (v, s) = inb c I2C_DATA s; (err, s) = ready_loop c 1 20000 s in
        if err \<le> 0 then (True, Some v, s) else (False, Some v, clear_loop c 0 2000 (outw c I2C_CON_EN I2C_CON s))
      else (True, None, s))"

definition i2c_read_byte :: "'h i2c_io \<Rightarrow> byte \<Rightarrow> byte \<Rightarrow> 'h i2c \<Rightarrow> (bool \<times> byte option \<times> 'h i2c) option" where
  "i2c_read_byte c devaddr regoffset s = do {
     s \<leftarrow> wait_for_bb c s;
     let (err, s) = send_offset c devaddr regoffset s;
     let (err, v, s) = (if err then (True, None, s) else fetch_byte c devaddr s);
     s \<leftarrow> finish c s;
     Some (err, v, s) }"

text \<open>After the second byte, \<^verbatim>\<open>ARDY\<close> is awaited and the acknowledgement tested whether or not it could be sent.\<close>

definition send_pair :: "'h i2c_io \<Rightarrow> byte \<Rightarrow> byte \<Rightarrow> 'h i2c \<Rightarrow> bool \<times> 'h i2c" where
  "send_pair c regoffset v s =
     (let (status, s) = wait_for_pin c (outw c I2C_STAT_XRDY I2C_STAT (outb c regoffset I2C_DATA s));
          err = (status AND I2C_STAT_XRDY = 0);
          s = (if err then s else outw c I2C_STAT_XRDY I2C_STAT (outb c v I2C_DATA s));
          (_, s) = ready_loop c 100 500 s;
          (stat, s) = inw c I2C_STAT s
      in (err \<or> stat AND I2C_STAT_NACK \<noteq> 0, s))"

definition i2c_write_byte :: "'h i2c_io \<Rightarrow> byte \<Rightarrow> byte \<Rightarrow> byte \<Rightarrow> 'h i2c \<Rightarrow> (bool \<times> 'h i2c) option" where
  "i2c_write_byte c devaddr regoffset v s = do {
     s \<leftarrow> wait_for_bb c s;
     let s = outw c (ucast devaddr) I2C_SA (outw c 2 I2C_CNT s);
     let (status, s) = wait_for_pin c (outw c (con_start s (I2C_CON_TRX OR I2C_CON_STP)) I2C_CON s);
     let (err, s) = (if status AND I2C_STAT_XRDY \<noteq> 0 then send_pair c regoffset v s else (True, s));
     let s = (if err then s else clear_loop c 1000 199 (outw c I2C_CON_EN I2C_CON s));
     s \<leftarrow> finish c s;
     Some (err, s) }"

text \<open>Reading and writing registers; the bytes stored are returned, with those before an error.\<close>

fun read_bytes :: "'h i2c_io \<Rightarrow> byte \<Rightarrow> u32 \<Rightarrow> nat \<Rightarrow> 'h i2c \<Rightarrow> (int \<times> byte list \<times> 'h i2c) option" where
  "read_bytes c chip addr 0 s = Some (0, [], s)"
| "read_bytes c chip addr (Suc n) s = do {
     (err, v, s) \<leftarrow> i2c_read_byte c chip (ucast addr) s;
     let bs = (case v of None \<Rightarrow> [] | Some b \<Rightarrow> [b]);
     if err then do { s \<leftarrow> i2c_init c (i2c_speed s) CFG_I2C_SLAVE s; Some (1, bs, s) }
     else do { (r, cs, s) \<leftarrow> read_bytes c chip (addr + 1) n s; Some (r, bs @ cs, s) } }"

definition i2c_read :: "'h i2c_io \<Rightarrow> byte \<Rightarrow> u32 \<Rightarrow> int \<Rightarrow> nat \<Rightarrow> 'h i2c \<Rightarrow> (int \<times> byte list \<times> 'h i2c) option" where
  "i2c_read c chip addr alen n s =
     (if alen > 1 \<or> addr + of_nat n > 256 then Some (1, [], s) else read_bytes c chip addr n s)"

fun write_bytes :: "'h i2c_io \<Rightarrow> byte \<Rightarrow> u32 \<Rightarrow> byte list \<Rightarrow> 'h i2c \<Rightarrow> (int \<times> 'h i2c) option" where
  "write_bytes c chip addr [] s = Some (0, s)"
| "write_bytes c chip addr (b # bs) s = do {
     (err, s) \<leftarrow> i2c_write_byte c chip (ucast addr) b s;
     if err then do { s \<leftarrow> i2c_init c (i2c_speed s) CFG_I2C_SLAVE s; Some (1, s) }
     else write_bytes c chip (addr + 1) bs s }"

definition i2c_write :: "'h i2c_io \<Rightarrow> byte \<Rightarrow> u32 \<Rightarrow> int \<Rightarrow> byte list \<Rightarrow> 'h i2c \<Rightarrow> (int \<times> 'h i2c) option" where
  "i2c_write c chip addr alen bs s =
     (if alen > 1 \<or> addr + of_nat (length bs) > 256 then Some (1, s) else write_bytes c chip addr bs s)"

definition i2c_probe :: "'h i2c_io \<Rightarrow> byte \<Rightarrow> 'h i2c \<Rightarrow> (int \<times> 'h i2c) option" where
  "i2c_probe c chip s =
     (let (oa, s) = inw c I2C_OA s in
      if ucast chip = oa then Some (1, s)
      else do {
        s \<leftarrow> wait_for_bb c s;
        let s = outw c (ucast chip) I2C_SA (outw c 1 I2C_CNT s);
        let (_, s) = ready_loop c 100 500 (outw c (con_start s I2C_CON_STP) I2C_CON s);
        let (stat, s) = inw c I2C_STAT s;
        (res, s) \<leftarrow> (if stat AND I2C_STAT_NACK = 0 then do {
            s \<leftarrow> flush_fifo c s;
            Some (0, outw c 0xFFFF I2C_STAT s) }
          else do {
            let (con, s) = inw c I2C_CON (outw c 0xFFFF I2C_STAT s);
            let (_, s) = ready_loop c 100 200 (outw c (con OR I2C_CON_STP) I2C_CON s);
            s \<leftarrow> wait_for_bb c s;
            Some (1, s) });
        s \<leftarrow> flush_fifo c s;
        Some (res, outw c 0xFFFF I2C_STAT (outw c 0 I2C_CNT s)) })"

section \<open>Devices without registers\<close>

fun generic_read_loop :: "'h i2c_io \<Rightarrow> nat \<Rightarrow> 'h i2c \<Rightarrow> bool \<times> byte list \<times> 'h i2c" where
  "generic_read_loop c 0 s = (False, [], s)"
| "generic_read_loop c (Suc n) s =
     (let (status, s) = wait_for_pin c s in
      if status AND I2C_STAT_RRDY \<noteq> 0 then
        let (v, s) = inb c I2C_DATA s; (err, bs, s) = generic_read_loop c n s in (err, v # bs, s)
      else (True, [], s))"

definition generic_i2c_read :: "'h i2c_io \<Rightarrow> byte \<Rightarrow> byte \<Rightarrow> 'h i2c \<Rightarrow> (bool \<times> byte list \<times> 'h i2c) option" where
  "generic_i2c_read c devaddr len s = do {
     s \<leftarrow> wait_for_bb c s;
     let s = outw c (ucast len) I2C_CNT (outw c (ucast devaddr) I2C_SA s);
     let (err, bs, s) = generic_read_loop c (unat len) (outw c (con_start s I2C_CON_STP) I2C_CON s);
     let s = (if err then s else clear_loop c 10000 10 (outw c I2C_CON_EN I2C_CON s));
     s \<leftarrow> finish c s;
     Some (err, bs, s) }"

fun generic_write_loop :: "'h i2c_io \<Rightarrow> byte list \<Rightarrow> 'h i2c \<Rightarrow> bool \<times> 'h i2c" where
  "generic_write_loop c [] s = (False, s)"
| "generic_write_loop c (v # vs) s =
     (let (status, s) = wait_for_pin c s in
      if status AND I2C_STAT_XRDY \<noteq> 0 then generic_write_loop c vs (outb c v I2C_DATA s) else (True, s))"

definition generic_i2c_write :: "'h i2c_io \<Rightarrow> byte \<Rightarrow> byte list \<Rightarrow> 'h i2c \<Rightarrow> (bool \<times> 'h i2c) option" where
  "generic_i2c_write c devaddr vs s = do {
     s \<leftarrow> wait_for_bb c s;
     let s = outw c (ucast devaddr) I2C_SA (outw c (of_nat (length vs)) I2C_CNT s);
     let (err, s) = generic_write_loop c vs (outw c (con_start s (I2C_CON_TRX OR I2C_CON_STP)) I2C_CON s);
     let (_, s) = ready_loop c 100 500 s;
     let (stat, s) = inw c I2C_STAT s;
     let err = (err \<or> stat AND I2C_STAT_NACK \<noteq> 0);
     let s = (if err then s else clear_loop c 1000 199 (outw c I2C_CON_EN I2C_CON s));
     s \<leftarrow> finish c s;
     Some (err, s) }"

end
