(* ===== verification/Charger.thy ===== *)
theory Charger
  imports Battery
begin

text \<open>
  The battery charger (\<^verbatim>\<open>drivers/smb347.c\<close>): its registers over I2C, the detection of the power source, the set-up at the start, and the
  command \<^verbatim>\<open>smb347\<close>. What the command prints is left out.

  In the set-up a failed access jumps to the end of the function. \<open>steps\<close> chains accesses that way: \<^const>\<open>None\<close> is the jump.
\<close>

unbundle bit_operations_syntax

record 'h smb =
  s_hw :: 'h
  smb347_addr :: byte
  gnUSBAttached :: bool

definition on_hw :: "('h \<Rightarrow> 'h) \<Rightarrow> 'h smb \<Rightarrow> 'h smb" where
  "on_hw f s = s\<lparr>s_hw := f (s_hw s)\<rparr>"

definition steps :: "('s \<Rightarrow> 'a option \<times> 's) \<Rightarrow> ('a \<Rightarrow> 's \<Rightarrow> 'b option \<times> 's) \<Rightarrow> 's \<Rightarrow> 'b option \<times> 's" where
  "steps f g s = (case f s of (None, s) \<Rightarrow> (None, s) | (Some x, s) \<Rightarrow> g x s)"

section \<open>Registers\<close>

definition SMB347_I2C_BUS :: int where "SMB347_I2C_BUS = 2"
definition SMB347_ADDR_ORIG :: byte where "SMB347_ADDR_ORIG = 0x06"
definition SMB347_ADDR :: byte where "SMB347_ADDR = 0x5F"
definition SMB347_COMMAND_REG_A :: byte where "SMB347_COMMAND_REG_A = 0x30"
definition SMB347_COMMAND_REG_B :: byte where "SMB347_COMMAND_REG_B = 0x31"
definition SMB347_COMMAND_REG_C :: byte where "SMB347_COMMAND_REG_C = 0x33"
definition SMB347_STATUS_REG_A :: byte where "SMB347_STATUS_REG_A = 0x3b"
definition SMB347_STATUS_REG_B :: byte where "SMB347_STATUS_REG_B = 0x3c"
definition SMB347_STATUS_REG_C :: byte where "SMB347_STATUS_REG_C = 0x3d"
definition SMB347_STATUS_REG_D :: byte where "SMB347_STATUS_REG_D = 0x3e"
definition SMB347_STATUS_REG_E :: byte where "SMB347_STATUS_REG_E = 0x3f"
definition SMB347_APSD_RESULT_DCP :: int where "SMB347_APSD_RESULT_DCP = 2"
definition SMB347_APSD_RESULT_OTHER :: int where "SMB347_APSD_RESULT_OTHER = 3"

definition smb347_i2c_probe :: "'h pw \<Rightarrow> 'h smb \<Rightarrow> byte \<times> 'h smb" where
  "smb347_i2c_probe b s =
     (let (r, h) = pw_select b SMB347_I2C_BUS 100 (s_hw s);
          (a, h) = (if r \<noteq> 0 then (smb347_addr s, h)
            else let (st, _, h) = pw_read b SMB347_ADDR 0 1 h in
              if st = 0 then (SMB347_ADDR, h)
              else let (st, _, h) = pw_read b SMB347_ADDR_ORIG 0 1 h in (if st = 0 then SMB347_ADDR_ORIG else smb347_addr s, h));
          h = snd (pw_select b 0 100 h)
      in (a, s\<lparr>s_hw := h, smb347_addr := a\<rparr>))"

definition smb347_i2c_read :: "'h pw \<Rightarrow> byte \<Rightarrow> 'h smb \<Rightarrow> byte option \<times> 'h smb" where
  "smb347_i2c_read b reg s =
     (let (st, bs, h) = bus_read b SMB347_I2C_BUS (smb347_addr s) reg [0] (s_hw s)
      in (if st \<noteq> 0 then None else Some (bs ! 0), s\<lparr>s_hw := h\<rparr>))"

definition smb347_i2c_write :: "'h pw \<Rightarrow> byte \<Rightarrow> byte \<Rightarrow> 'h smb \<Rightarrow> unit option \<times> 'h smb" where
  "smb347_i2c_write b reg v s =
     (let (st, h) = bus_write b SMB347_I2C_BUS (smb347_addr s) reg [v] (s_hw s)
      in (if st \<noteq> 0 then None else Some (), s\<lparr>s_hw := h\<rparr>))"

text \<open>Read, change, write.\<close>

definition smb347_update :: "'h pw \<Rightarrow> byte \<Rightarrow> (byte \<Rightarrow> byte) \<Rightarrow> 'h smb \<Rightarrow> unit option \<times> 'h smb" where
  "smb347_update b reg f = steps (smb347_i2c_read b reg) (\<lambda>v. smb347_i2c_write b reg (f v))"

definition smb347_aicl_current :: "byte \<Rightarrow> int" where
  "smb347_aicl_current reg = (if reg AND 0x10 \<noteq> 0
     then [300, 500, 700, 900, 1200, 1500, 1800, 2000, 2200, 2500, 2500, 2500, 2500, 2500, 2500, 2500] ! unat (reg AND 0xf) else -1)"

definition smb347_apsd_result :: "byte \<Rightarrow> int" where
  "smb347_apsd_result reg = (if reg AND 8 \<noteq> 0 then uint (reg AND 7) else -1)"

definition smb347_charging_current :: "byte \<Rightarrow> int" where
  "smb347_charging_current reg = (if reg AND 0x20 \<noteq> 0
     then [700, 900, 1200, 1500, 1800, 2000, 2200, 2500] ! unat (reg AND 7)
     else [100, 150, 200, 250] ! unat (drop_bit 3 reg AND 3))"

definition smb347_config_enable :: "'h pw \<Rightarrow> bool \<Rightarrow> 'h smb \<Rightarrow> unit option \<times> 'h smb" where
  "smb347_config_enable b flag = smb347_update b SMB347_COMMAND_REG_A (\<lambda>v. if flag then v OR 0x80 else v AND NOT 0x80)"

section \<open>Detection of the power source\<close>

text \<open>Polling for the result, \<open>n\<close> times at most; \<^const>\<open>None\<close> is a failed read or the time out.\<close>

fun apsd_loop :: "'h pw \<Rightarrow> nat \<Rightarrow> 'h smb \<Rightarrow> byte option \<times> 'h smb" where
  "apsd_loop b 0 s = (None, s)"
| "apsd_loop b (Suc n) s = steps (smb347_i2c_read b SMB347_STATUS_REG_D)
     (\<lambda>v s. if smb347_apsd_result v \<noteq> -1 then (Some v, s) else apsd_loop b n (on_hw (pw_delay b 1000) s)) s"

definition pause :: "'h pw \<Rightarrow> ('h smb \<Rightarrow> 'a option \<times> 'h smb) \<Rightarrow> 'h smb \<Rightarrow> 'a option \<times> 'h smb" where
  "pause b f s = f (on_hw (pw_delay b 1000) s)"

definition smb347_redo_apsd :: "'h pw \<Rightarrow> 'h smb \<Rightarrow> byte option \<times> 'h smb" where
  "smb347_redo_apsd b =
     steps (smb347_config_enable b True) (\<lambda>_.
     steps (pause b (smb347_i2c_read b 4)) (\<lambda>val.
     steps (pause b (smb347_i2c_write b 4 (val AND NOT 4))) (\<lambda>_.
     steps (pause b (smb347_i2c_write b 4 ((val AND NOT 4) OR 4))) (\<lambda>_.
     steps (pause b (smb347_config_enable b False)) (\<lambda>_.
     pause b (apsd_loop b 101))))))"

section \<open>The set-up\<close>

definition CONTROL_USB2PHYCORE :: u32 where "CONTROL_USB2PHYCORE = 0x4A100000 + 0x0620"
definition SMB_DEV_CONF :: u32 where "SMB_DEV_CONF = 0x4A100000 + 0x2300"

definition rmw32 :: "'h pw \<Rightarrow> u32 \<Rightarrow> (u32 \<Rightarrow> u32) \<Rightarrow> 'h \<Rightarrow> 'h" where
  "rmw32 b r f h = (let (v, h) = pw_rd32 b r h in pw_wr32 b r (f v) h)"

text \<open>The first start: the flag in register 6, no thermistor, the taper current, USB5 mode, and a new detection. The result is register 6 and what was detected.\<close>

definition first_boot :: "'h pw \<Rightarrow> byte \<Rightarrow> 'h smb \<Rightarrow> (byte \<times> byte option) option \<times> 'h smb" where
  "first_boot b val =
     (let val = ((val AND NOT 1) AND NOT 0x60) OR 0x20 in
      steps (smb347_i2c_read b 7) (\<lambda>mode.
      steps (smb347_config_enable b True) (\<lambda>_.
      steps (smb347_i2c_write b 6 val) (\<lambda>_.
      steps (smb347_i2c_write b 7 (mode OR 0x10)) (\<lambda>_.
      steps (smb347_update b 0 (\<lambda>t. (t AND NOT 4) OR 3)) (\<lambda>_.
      steps (smb347_config_enable b False) (\<lambda>_.
      steps (smb347_update b SMB347_COMMAND_REG_B (\<lambda>m. (m AND NOT 1) OR 2)) (\<lambda>_ s.
      (let (apsd, s) = smb347_redo_apsd b s in (Some (val, apsd), s))))))))))"

definition second_boot :: "'h pw \<Rightarrow> byte \<Rightarrow> 'h smb \<Rightarrow> (byte \<times> byte option) option \<times> 'h smb" where
  "second_boot b val = steps (smb347_i2c_read b SMB347_STATUS_REG_D) (\<lambda>apsd s. (Some (val, Some apsd), s))"

text \<open>
  What was detected: a wall charger is reported, and another port gets the high current unless the gauge does not answer. The reading of the
  capacity goes to the gauge. The report survives a failure behind it.
\<close>

definition apsd_action :: "'h pw \<Rightarrow> byte option \<Rightarrow> int \<Rightarrow> 'h smb \<Rightarrow> int \<times> unit option \<times> 'h smb" where
  "apsd_action b apsd wall s =
     (case apsd of
        None \<Rightarrow> (wall, Some (), s)
      | Some v \<Rightarrow>
          if smb347_apsd_result v = SMB347_APSD_RESULT_DCP then (1, Some (), s)
          else if smb347_apsd_result v = SMB347_APSD_RESULT_OTHER then
            (wall, steps (smb347_i2c_read b SMB347_COMMAND_REG_B) (\<lambda>mode s.
               (let (r, _, h) = bq27541_capacity b 0 (s_hw s) in
                smb347_i2c_write b SMB347_COMMAND_REG_B (if r \<noteq> 0 then mode OR 2 else mode OR 3) (s\<lparr>s_hw := h\<rparr>))) s)
          else (wall, Some (), s))"

definition init_usb :: "'h pw \<Rightarrow> int \<Rightarrow> 'h smb \<Rightarrow> int \<times> unit option \<times> 'h smb" where
  "init_usb b wall s =
     (let s = on_hw (rmw32 b SMB_DEV_CONF (\<lambda>v. v OR 1)) s;
          s = on_hw (twl6030_enable_vusb b) (on_hw (twl6030_disable_vusb b) s);
          (_, s) = smb347_i2c_probe b s;
          (r, s) = steps (smb347_i2c_read b 6) (\<lambda>val. if val AND 1 \<noteq> 0 then first_boot b val else second_boot b val) s
      in case r of
           None \<Rightarrow> (wall, None, s)
         | Some (val, apsd) \<Rightarrow>
             (let (r, s) =
                 steps (smb347_i2c_read b 7) (\<lambda>mode.
                 steps (smb347_config_enable b True) (\<lambda>_.
                 steps (smb347_i2c_write b 6 ((val OR 1) AND NOT 0x10)) (\<lambda>_.
                 steps (smb347_i2c_write b 7 (mode AND NOT 0x10)) (\<lambda>_.
                 steps (smb347_update b 0x30 (\<lambda>m. m AND NOT 4)) (\<lambda>_.
                 smb347_config_enable b False))))) s
              in if r = None then (wall, None, s) else apsd_action b apsd wall s))"

text \<open>\<open>wall_charger\<close> is the variable the caller passes; its value is returned behind the status.\<close>

definition smb347_init :: "'h pw \<Rightarrow> int \<Rightarrow> 'h smb \<Rightarrow> int \<times> int \<times> 'h smb" where
  "smb347_init b wall_charger s =
     (let s = on_hw (rmw32 b CONTROL_USB2PHYCORE (\<lambda>v. v OR 0x40000000)) s;
          (st, vusb, h) = twl6030_i2c_read_u8 b TWL6030_CHIP_CHARGER 0 CONTROLLER_STAT1 (s_hw s);
          s = s\<lparr>s_hw := h\<rparr>;
          usb_detect = (st = 0 \<and> vusb AND 4 \<noteq> 0);
          (wall, r, s) = (if st \<noteq> 0 then (wall_charger, None, s) else if vusb AND 4 = 0 then (wall_charger, Some (), s)
            else init_usb b wall_charger s);
          s = on_hw (rmw32 b SMB_DEV_CONF (\<lambda>v. v AND NOT 1)) s
      in (if r = None then -1 else 0, wall, if usb_detect \<and> wall \<noteq> 1 then s\<lparr>gnUSBAttached := True\<rparr> else s))"

section \<open>The command\<close>

definition status_reg :: "byte list \<Rightarrow> byte option" where
  "status_reg a =
     (let is_arg = (\<lambda>x. strcmp_s a (bytes x) = 0) in
      if is_arg ''a'' \<or> is_arg ''3b'' then Some SMB347_STATUS_REG_A
      else if is_arg ''b'' \<or> is_arg ''3c'' then Some SMB347_STATUS_REG_B
      else if is_arg ''c'' \<or> is_arg ''3d'' then Some SMB347_STATUS_REG_C
      else if is_arg ''d'' \<or> is_arg ''3e'' then Some SMB347_STATUS_REG_D
      else if is_arg ''e'' \<or> is_arg ''3f'' then Some SMB347_STATUS_REG_E
      else None)"

definition do_smb347_status_register :: "'h pw \<Rightarrow> byte list list \<Rightarrow> 'h smb \<Rightarrow> int \<times> 'h smb" where
  "do_smb347_status_register b argv s =
     (if length argv < 3 then (-1, s)
      else case status_reg (argv ! 2) of
        None \<Rightarrow> (-1, s)
      | Some reg \<Rightarrow> (let (r, s) = smb347_i2c_read b reg s in (if r = None then -1 else 0, s)))"

definition do_smb347_config_register :: "'h pw \<Rightarrow> byte list list \<Rightarrow> 'h smb \<Rightarrow> int \<times> 'h smb" where
  "do_smb347_config_register b argv s =
     (let status = (\<lambda>(r, s). (if r = None then -1 else 0, s));
          reg = sint (fst (simple_strtol (argv ! 2) 16)) in
      if length argv < 3 then (-1, s)
      else if strcmp_s (argv ! 2) (bytes ''enable'') = 0 then status (smb347_config_enable b True s)
      else if strcmp_s (argv ! 2) (bytes ''disable'') = 0 then status (smb347_config_enable b False s)
      else if length argv = 3 then
        if reg < 0 \<or> reg > 0x0e then (-1, s)
        else (let (r, s) = smb347_i2c_read b (word_of_int reg) s in (if r = None then -1 else 0, s))
      else if length argv = 4 then
        if reg < 0 \<or> reg > 0x0e then (-1, s)
        else status (smb347_i2c_write b (word_of_int reg) (ucast (fst (simple_strtol (argv ! 3) 16))) s)
      else (-1, s))"

definition do_smb347_command_register :: "'h pw \<Rightarrow> byte list list \<Rightarrow> 'h smb \<Rightarrow> int \<times> 'h smb" where
  "do_smb347_command_register b argv s =
     (let is_arg = (\<lambda>x. strcmp_s (argv ! 2) (bytes x) = 0);
          reg = (if is_arg ''a'' \<or> is_arg ''30'' then Some SMB347_COMMAND_REG_A
            else if is_arg ''b'' \<or> is_arg ''31'' then Some SMB347_COMMAND_REG_B
            else if is_arg ''c'' \<or> is_arg ''33'' then Some SMB347_COMMAND_REG_C else None) in
      if length argv < 3 then (-1, s)
      else case reg of
        None \<Rightarrow> (-1, s)
      | Some reg \<Rightarrow>
          if length argv = 3 then (let (r, s) = smb347_i2c_read b reg s in (if r = None then -1 else 0, s))
          else if length argv = 4 then
            (let (r, s) = smb347_i2c_write b reg (ucast (fst (simple_strtol (argv ! 3) 16))) s in (if r = None then -1 else 0, s))
          else (-1, s))"

definition do_smb347_commands :: "'h pw \<Rightarrow> byte list list \<Rightarrow> 'h smb \<Rightarrow> int \<times> 'h smb" where
  "do_smb347_commands b argv s =
     (let is_arg = (\<lambda>x. strcmp_s (bytes x) (argv ! 1) = 0); argc = length argv in
      if argc \<ge> 3 \<and> is_arg ''status'' then do_smb347_status_register b argv s
      else if argc \<ge> 3 \<and> is_arg ''config'' then do_smb347_config_register b argv s
      else if argc \<ge> 3 \<and> is_arg ''command'' then do_smb347_command_register b argv s
      else if argc = 2 \<and> is_arg ''apsd'' then (0, snd (smb347_redo_apsd b s))
      else (-1, s))"

section \<open>Devices that keep what is written\<close>

text \<open>The reference bus: every device is a file of registers.\<close>

record reg_file =
  f_regs :: "byte \<Rightarrow> byte \<Rightarrow> byte"
  f_raw :: "u32 \<Rightarrow> u32"

definition file_bus :: "reg_file pw" where
  "file_bus = \<lparr>pw_select = (\<lambda>_ _ h. (0, h)),
     pw_read = (\<lambda>chip reg n h. (0, map (\<lambda>i. f_regs h chip (reg + of_nat i)) [0..<n], h)),
     pw_write = (\<lambda>chip reg bs h. (0, h\<lparr>f_regs := (f_regs h)(chip := fold (\<lambda>i g. g(reg + of_nat i := bs ! i)) [0..<length bs] (f_regs h chip))\<rparr>)),
     pw_rd32 = (\<lambda>a h. (f_raw h a, h)), pw_wr32 = (\<lambda>a v h. h\<lparr>f_raw := (f_raw h)(a := v)\<rparr>), pw_lcd = (\<lambda>_ h. h), pw_delay = (\<lambda>_ h. h), pw_off = (\<lambda>_. False)\<rparr>"

definition set_reg :: "byte \<Rightarrow> byte \<Rightarrow> reg_file smb \<Rightarrow> reg_file smb" where
  "set_reg r v s = s\<lparr>s_hw := (s_hw s)\<lparr>f_regs := (f_regs (s_hw s))(smb347_addr s := (f_regs (s_hw s) (smb347_addr s))(r := v))\<rparr>\<rparr>"

definition get_reg :: "byte \<Rightarrow> reg_file smb \<Rightarrow> byte" where
  "get_reg r s = f_regs (s_hw s) (smb347_addr s) r"

lemma get_set [simp]: "get_reg r (set_reg q v s) = (if r = q then v else get_reg r s)"
  by (simp add: get_reg_def set_reg_def)

lemma addr_set [simp]: "smb347_addr (set_reg q v s) = smb347_addr s" "gnUSBAttached (set_reg q v s) = gnUSBAttached s"
  by (simp_all add: set_reg_def)

text \<open>A bit that is set and cleared again.\<close>

lemma set_clear: "((x :: byte) OR 0x80) AND NOT 0x80 = x AND NOT 0x80"
proof -
  have p: "(0x80 :: byte) = 2 ^ 7" by simp
  show ?thesis unfolding p by (rule bit_word_eqI) (auto simp: bit_simps)
qed

lemmas set_clear_num [simp] = set_clear[simplified]

lemma file_read [simp]: "smb347_i2c_read file_bus r s = (Some (get_reg r s), s)"
  by (simp add: smb347_i2c_read_def bus_read_def file_bus_def get_reg_def patch_def)

lemma file_write [simp]: "smb347_i2c_write file_bus r v s = (Some (), set_reg r v s)"
  by (simp add: smb347_i2c_write_def bus_write_def file_bus_def set_reg_def)

lemma file_steps [simp]: "steps f g s = (case f s of (None, s) \<Rightarrow> (None, s) | (Some x, s) \<Rightarrow> g x s)"
  by (rule steps_def)

lemma file_update [simp]: "smb347_update file_bus r f s = (Some (), set_reg r (f (get_reg r s)) s)"
  by (simp add: smb347_update_def)

lemma file_enable [simp]:
  "smb347_config_enable file_bus flag s = (Some (), set_reg 0x30 (if flag then get_reg 0x30 s OR 0x80 else get_reg 0x30 s AND NOT 0x80) s)"
  by (simp add: smb347_config_enable_def SMB347_COMMAND_REG_A_def)

lemma file_delay [simp]: "on_hw (pw_delay file_bus n) s = s"
  by (simp add: on_hw_def file_bus_def)

lemma file_pause [simp]: "pause file_bus f s = f s"
  by (simp add: pause_def)

lemma apsd_result_ne: "smb347_apsd_result v \<noteq> -1 \<longleftrightarrow> v AND 8 \<noteq> 0"
proof -
  have "0 \<le> uint (v AND 7)" by simp
  then have "uint (v AND 7) \<noteq> -1" by linarith
  then show ?thesis by (simp add: smb347_apsd_result_def)
qed

lemma file_apsd: "get_reg 0x3e s AND 8 \<noteq> 0 \<Longrightarrow> 0 < n \<Longrightarrow> apsd_loop file_bus n s = (Some (get_reg 0x3e s), s)"
  by (cases n) (simp_all add: apsd_result_ne SMB347_STATUS_REG_D_def)

lemma file_redo:
  assumes "get_reg 0x3e s AND 8 \<noteq> 0"
  shows "\<exists>s'. smb347_redo_apsd file_bus s = (Some (get_reg 0x3e s), s') \<and> smb347_addr s' = smb347_addr s \<and> gnUSBAttached s' = gnUSBAttached s
    \<and> (\<forall>r. r \<noteq> 4 \<and> r \<noteq> 0x30 \<longrightarrow> get_reg r s' = get_reg r s) \<and> get_reg 0x30 s' = get_reg 0x30 s AND NOT 0x80"
  using assms by (simp add: smb347_redo_apsd_def file_apsd)

text \<open>What the set-up does to the power chip and the registers of the processor leaves the charger alone.\<close>

lemma file_start_up:
  "\<exists>h. on_hw (twl6030_enable_vusb file_bus) (on_hw (twl6030_disable_vusb file_bus) (on_hw (rmw32 file_bus r f) s)) = s\<lparr>s_hw := h\<rparr>
    \<and> (\<forall>c. c \<noteq> 0x48 \<longrightarrow> f_regs h c = f_regs (s_hw s) c)"
  by (intro exI[of _ "twl6030_enable_vusb file_bus (twl6030_disable_vusb file_bus (rmw32 file_bus r f (s_hw s)))"])
    (simp add: on_hw_def twl6030_enable_vusb_def twl6030_disable_vusb_def vusb_writes_def misc2_update_def twl6030_i2c_write_u8_def
      twl6030_i2c_read_u8_def rmw32_def file_bus_def TWL6030_CHIP_PM_def)

lemma capacity_file: "\<exists>x. bq27541_capacity file_bus v h = (0, x, h)"
  by (simp add: bq27541_capacity_def gauge_read_def bq27541_i2c_read_def bus_read_def file_bus_def)

lemma uint_byte_eq: "uint (x :: byte) = 2 \<longleftrightarrow> x = 2" "uint (x :: byte) = 3 \<longleftrightarrow> x = 3"
  using word_uint_eq_iff[of x 2] word_uint_eq_iff[of x 3] by simp_all

lemma apsd_file:
  assumes "v AND 8 \<noteq> 0"
  shows "\<exists>s'. apsd_action file_bus (Some v) wall s = (if v AND 7 = 2 then 1 else wall, Some (), s') \<and> smb347_addr s' = smb347_addr s
    \<and> gnUSBAttached s' = gnUSBAttached s \<and> (\<forall>r. r \<noteq> 0x31 \<longrightarrow> get_reg r s' = get_reg r s)"
proof -
  obtain x where x: "bq27541_capacity file_bus 0 (s_hw s) = (0, x, s_hw s)" using capacity_file by blast
  have "smb347_apsd_result v = uint (v AND 7)" using assms by (simp add: smb347_apsd_result_def)
  then show ?thesis
    by (simp add: apsd_action_def SMB347_APSD_RESULT_DCP_def SMB347_APSD_RESULT_OTHER_def uint_byte_eq x SMB347_COMMAND_REG_B_def)
qed

lemma boot_file:
  assumes "get_reg 0x3e s AND 8 \<noteq> 0" and "v = get_reg 6 s"
  shows "\<exists>s'. (if v AND 1 \<noteq> 0 then first_boot file_bus v s else second_boot file_bus v s)
        = (Some (if v AND 1 \<noteq> 0 then ((v AND NOT 1) AND NOT 0x60) OR 0x20 else v, Some (get_reg 0x3e s)), s')
    \<and> smb347_addr s' = smb347_addr s \<and> gnUSBAttached s' = gnUSBAttached s
    \<and> get_reg 7 s' = (if v AND 1 \<noteq> 0 then get_reg 7 s OR 0x10 else get_reg 7 s)
    \<and> get_reg 0x30 s' AND NOT 0x80 = get_reg 0x30 s AND NOT 0x80"
proof (cases "v AND 1 = 0")
  case True
  then show ?thesis by (simp add: second_boot_def SMB347_STATUS_REG_D_def)
next
  case False
  let ?w = "((v AND NOT 1) AND NOT 0x60) OR 0x20"
  let ?s1 = "set_reg 7 (get_reg 7 s OR 0x10) (set_reg 6 ?w (set_reg 0x30 (get_reg 0x30 s OR 0x80) s))"
  let ?s2 = "set_reg 0x30 (get_reg 0x30 s AND NOT 0x80) (set_reg 0 ((get_reg 0 s AND NOT 4) OR 3) ?s1)"
  let ?s3 = "set_reg 0x31 ((get_reg 0x31 s AND NOT 1) OR 2) ?s2"
  have "get_reg 0x3e ?s3 AND 8 \<noteq> 0" using assms(1) by simp
  then obtain s' where s': "smb347_redo_apsd file_bus ?s3 = (Some (get_reg 0x3e ?s3), s')" "smb347_addr s' = smb347_addr ?s3"
      "gnUSBAttached s' = gnUSBAttached ?s3" "\<forall>r. r \<noteq> 4 \<and> r \<noteq> 0x30 \<longrightarrow> get_reg r s' = get_reg r ?s3"
      "get_reg 0x30 s' = get_reg 0x30 ?s3 AND NOT 0x80"
    using file_redo by blast
  have "first_boot file_bus v s = (Some (?w, Some (get_reg 0x3e s)), s')"
    using s'(1) by (simp add: first_boot_def Let_def SMB347_COMMAND_REG_B_def)
  then show ?thesis using False s'(2-5) by simp
qed

text \<open>The bit of the suspend mode and the one of volatile writes.\<close>

lemma clear_both: "((((x :: byte) OR 0x80) AND NOT 4) AND NOT 0x80) = (x AND NOT 0x80) AND NOT 4"
proof -
  have p: "(0x80 :: byte) = 2 ^ 7" "(4 :: byte) = 2 ^ 2" by simp_all
  show ?thesis unfolding p by (rule bit_word_eqI) (auto simp: bit_simps)
qed

lemma set_clear_bit4: "((x :: byte) OR 0x10) AND NOT 0x10 = x AND NOT 0x10"
proof -
  have p: "(0x10 :: byte) = 2 ^ 4" by simp
  show ?thesis unfolding p by (rule bit_word_eqI) (auto simp: bit_simps)
qed

lemma file_probe: "smb347_i2c_probe file_bus s = (0x5F, s\<lparr>smb347_addr := 0x5F\<rparr>)"
  by (simp add: smb347_i2c_probe_def file_bus_def SMB347_ADDR_def)

lemma file_rmw:
  "smb347_addr (on_hw (rmw32 file_bus r f) s) = smb347_addr s" "gnUSBAttached (on_hw (rmw32 file_bus r f) s) = gnUSBAttached s"
  "f_regs (s_hw (on_hw (rmw32 file_bus r f) s)) = f_regs (s_hw s)" "get_reg q (on_hw (rmw32 file_bus r f) s) = get_reg q s"
  by (simp_all add: on_hw_def rmw32_def file_bus_def get_reg_def)

lemma vbus_file: "twl6030_i2c_read_u8 file_bus chip v reg h = (0, f_regs h chip reg, h)"
  by (simp add: twl6030_i2c_read_u8_def file_bus_def patch_def)

lemma init_usb_file:
  fixes s :: "reg_file smb"
  defines "R \<equiv> f_regs (s_hw s) 0x5F"
  assumes apsd: "R 0x3e AND 8 \<noteq> 0"
  shows "\<exists>s'. init_usb file_bus wall s = (if R 0x3e AND 7 = 2 then 1 else wall, Some (), s') \<and> smb347_addr s' = 0x5F
    \<and> gnUSBAttached s' = gnUSBAttached s
    \<and> get_reg 6 s' = ((if R 6 AND 1 \<noteq> 0 then ((R 6 AND NOT 1) AND NOT 0x60) OR 0x20 else R 6) OR 1) AND NOT 0x10
    \<and> get_reg 7 s' = R 7 AND NOT 0x10 \<and> get_reg 0x30 s' = (R 0x30 AND NOT 0x80) AND NOT 4"
proof -
  obtain h where h: "on_hw (twl6030_enable_vusb file_bus) (on_hw (twl6030_disable_vusb file_bus) (on_hw (rmw32 file_bus SMB_DEV_CONF (\<lambda>v. v OR 1)) s))
      = s\<lparr>s_hw := h\<rparr>" "f_regs h 0x5F = R"
    using file_start_up[of SMB_DEV_CONF "\<lambda>v. v OR 1" s] by (auto simp: R_def)
  let ?s1 = "s\<lparr>s_hw := h, smb347_addr := 0x5F\<rparr>"
  have g: "get_reg r ?s1 = R r" for r using h(2) by (simp add: get_reg_def)
  define w where "w = (if R 6 AND 1 \<noteq> 0 then ((R 6 AND NOT 1) AND NOT 0x60) OR 0x20 else R 6)"
  obtain s2 where s2: "(if R 6 AND 1 \<noteq> 0 then first_boot file_bus (R 6) ?s1 else second_boot file_bus (R 6) ?s1) = (Some (w, Some (R 0x3e)), s2)"
      "smb347_addr s2 = 0x5F" "gnUSBAttached s2 = gnUSBAttached s" "get_reg 7 s2 = (if R 6 AND 1 \<noteq> 0 then R 7 OR 0x10 else R 7)"
      "get_reg 0x30 s2 AND NOT 0x80 = R 0x30 AND NOT 0x80"
    using boot_file[of ?s1 "R 6"] apsd unfolding g w_def by auto
  define s3 where "s3 = set_reg 0x30 ((get_reg 0x30 s2 AND NOT 0x80) AND NOT 4)
    (set_reg 0x30 ((get_reg 0x30 s2 OR 0x80) AND NOT 4) (set_reg 7 (R 7 AND NOT 0x10) (set_reg 6 ((w OR 1) AND NOT 0x10)
      (set_reg 0x30 (get_reg 0x30 s2 OR 0x80) s2))))"
  have r7: "get_reg 7 s2 AND NOT 0x10 = R 7 AND NOT 0x10" unfolding s2(4) using set_clear_bit4 by auto
  have s3: "(steps (smb347_i2c_read file_bus 7) (\<lambda>mode. steps (smb347_config_enable file_bus True) (\<lambda>_.
      steps (smb347_i2c_write file_bus 6 ((w OR 1) AND NOT 0x10)) (\<lambda>_. steps (smb347_i2c_write file_bus 7 (mode AND NOT 0x10)) (\<lambda>_.
      steps (smb347_update file_bus 0x30 (\<lambda>m. m AND NOT 4)) (\<lambda>_. smb347_config_enable file_bus False))))) s2) = (Some (), s3)"
    unfolding s3_def using r7 clear_both[of "get_reg 0x30 s2"] by simp
  obtain s4 where s4: "apsd_action file_bus (Some (R 0x3e)) wall s3 = (if R 0x3e AND 7 = 2 then 1 else wall, Some (), s4)"
      "smb347_addr s4 = smb347_addr s3" "gnUSBAttached s4 = gnUSBAttached s3" "\<forall>r. r \<noteq> 0x31 \<longrightarrow> get_reg r s4 = get_reg r s3"
    using apsd_file[OF apsd] by blast
  have b: "steps (smb347_i2c_read file_bus 6) (\<lambda>val. if val AND 1 \<noteq> 0 then first_boot file_bus val else second_boot file_bus val) ?s1
      = (Some (w, Some (R 0x3e)), s2)"
    using s2(1) g by (cases "R 6 AND 1 = 0") simp_all
  have "init_usb file_bus wall s = (if R 0x3e AND 7 = 2 then 1 else wall, Some (), s4)"
    unfolding init_usb_def Let_def h(1) file_probe prod.case using b s3 s4(1) by (simp del: file_steps)
  then show ?thesis using s4(2-4) s2(2,3,5) by (simp add: s3_def flip: w_def)
qed

text \<open>
  C28. The set-up of the charger, with a cable, on devices that keep what is written: it succeeds; a wall charger is reported exactly when the detection gave the result 2; the
  cable is noted when there is no wall charger; and in the charger the start flag is set, the charging mode is under register control after a first start,
  the thermistor is monitored, the suspend mode is off and the registers are locked again.
\<close>

theorem charger_set_up:
  fixes s :: "reg_file smb"
  defines "R \<equiv> f_regs (s_hw s) 0x5F"
  assumes vbus: "f_regs (s_hw s) 0x49 0xE3 AND 4 \<noteq> 0" and apsd: "R 0x3e AND 8 \<noteq> 0"
  shows "\<exists>wall' s'. smb347_init file_bus wall s = (0, wall', s') \<and> smb347_addr s' = 0x5F
    \<and> wall' = (if R 0x3e AND 7 = 2 then 1 else wall) \<and> gnUSBAttached s' = (gnUSBAttached s \<or> wall' \<noteq> 1)
    \<and> get_reg 6 s' = ((if R 6 AND 1 \<noteq> 0 then ((R 6 AND NOT 1) AND NOT 0x60) OR 0x20 else R 6) OR 1) AND NOT 0x10
    \<and> get_reg 7 s' = R 7 AND NOT 0x10 \<and> get_reg 0x30 s' = (R 0x30 AND NOT 0x80) AND NOT 4"
proof -
  let ?s0 = "on_hw (rmw32 file_bus CONTROL_USB2PHYCORE (\<lambda>v. v OR 0x40000000)) s"
  have f: "f_regs (s_hw ?s0) = f_regs (s_hw s)" "gnUSBAttached ?s0 = gnUSBAttached s" by (simp_all add: file_rmw)
  obtain s' where s': "init_usb file_bus wall ?s0 = (if R 0x3e AND 7 = 2 then 1 else wall, Some (), s')" "smb347_addr s' = 0x5F"
      "gnUSBAttached s' = gnUSBAttached s"
      "get_reg 6 s' = ((if R 6 AND 1 \<noteq> 0 then ((R 6 AND NOT 1) AND NOT 0x60) OR 0x20 else R 6) OR 1) AND NOT 0x10"
      "get_reg 7 s' = R 7 AND NOT 0x10" "get_reg 0x30 s' = (R 0x30 AND NOT 0x80) AND NOT 4"
    using init_usb_file[of ?s0 wall] apsd unfolding f R_def by blast
  let ?wall = "if R 0x3e AND 7 = 2 then 1 else wall"
  let ?s2 = "on_hw (rmw32 file_bus SMB_DEV_CONF (\<lambda>v. v AND NOT 1)) s'"
  have "smb347_init file_bus wall s = (0, ?wall, if ?wall \<noteq> 1 then ?s2\<lparr>gnUSBAttached := True\<rparr> else ?s2)"
    using vbus s'(1) f unfolding smb347_init_def Let_def TWL6030_CHIP_CHARGER_def CONTROLLER_STAT1_def by (simp add: vbus_file)
  moreover have "get_reg r (x\<lparr>gnUSBAttached := y\<rparr>) = get_reg r x" for r y and x :: "reg_file smb" by (simp add: get_reg_def)
  ultimately show ?thesis using s'(2-6) by (simp add: file_rmw)
qed

text \<open>A first start at a wall charger.\<close>

definition demo_charger :: "reg_file smb" where
  "demo_charger = \<lparr>s_hw = \<lparr>f_regs = (\<lambda>chip reg. if chip = 0x49 then 4 else if reg = 0x3e then 10 else if reg = 6 then 0x71 else 0), f_raw = (\<lambda>_. 0)\<rparr>,
     smb347_addr = 0, gnUSBAttached = False\<rparr>"

theorem charger_set_up_witness:
  "\<exists>s'. smb347_init file_bus (-1) demo_charger = (0, 1, s') \<and> \<not> gnUSBAttached s' \<and> get_reg 6 s' = 0x21"
proof -
  have "f_regs (s_hw demo_charger) 0x49 0xE3 AND 4 \<noteq> 0" "f_regs (s_hw demo_charger) 0x5F 0x3e AND 8 \<noteq> 0" by (simp_all add: demo_charger_def)
  from charger_set_up[OF this, of "-1"] show ?thesis by (auto simp: demo_charger_def)
qed

end
