(* ===== verification/I2cHw.thy ===== *)
theory I2cHw
  imports I2c Charger
begin

text \<open>
  Reference hardware for the I2C driver: four controllers, each with its transfer state, and chips with registers, each wired to one of the
  controllers. It is written from what the driver relies on: \<^verbatim>\<open>XRDY\<close> and \<^verbatim>\<open>RRDY\<close> are levels, \<^verbatim>\<open>ARDY\<close> and \<^verbatim>\<open>NACK\<close> are kept
  until they are cleared, \<^verbatim>\<open>BB\<close> shows a transfer that has not been stopped, and a transfer takes no time. The first byte of a
  transfer to a chip is the number of a register, those behind it are stored from there on.

  On this hardware the driver implements the bus \<open>file_bus\<close> of the theory \<open>Charger\<close>.
\<close>

section \<open>Controllers and chips\<close>

record ctl =
  k_con :: u16
  k_stat :: u16
  k_cnt :: u16
  k_sa :: u16
  k_tx :: nat
  k_sent :: "byte list"
  k_fifo :: "byte list"
  k_other :: "u32 \<Rightarrow> u16"

record i2c_board =
  ctls :: "u32 \<Rightarrow> ctl"
  chip_regs :: "byte \<Rightarrow> byte \<Rightarrow> byte"
  chip_ptr :: "byte \<Rightarrow> byte"
  wired :: "byte \<Rightarrow> u32 option"

definition stat_of :: "ctl \<Rightarrow> u16" where
  "stat_of k = k_stat k OR (if k_tx k > 0 then I2C_STAT_XRDY else 0) OR (if k_fifo k \<noteq> [] then I2C_STAT_RRDY else 0)
     OR (if k_con k AND I2C_CON_MST \<noteq> 0 then I2C_STAT_BB else 0)"

definition ctl_rd :: "u32 \<Rightarrow> ctl \<Rightarrow> u16" where
  "ctl_rd a k = (if a = I2C_STAT then stat_of k else if a = I2C_CON then k_con k else if a = I2C_CNT then k_cnt k
     else if a = I2C_SA then k_sa k else if a = I2C_SYSS then (if k_con k AND I2C_CON_EN \<noteq> 0 then I2C_SYSS_RDONE else 0)
     else k_other k a)"

definition quiet :: "ctl \<Rightarrow> ctl" where
  "quiet k = k\<lparr>k_stat := 0, k_tx := 0, k_sent := [], k_fifo := []\<rparr>"

definition store_regs :: "(byte \<Rightarrow> byte) \<Rightarrow> byte \<Rightarrow> byte list \<Rightarrow> byte \<Rightarrow> byte" where
  "store_regs g p vs = fold (\<lambda>i g. g(p + of_nat i := vs ! i)) [0..<length vs] g"

definition receive :: "byte \<Rightarrow> byte list \<Rightarrow> i2c_board \<Rightarrow> i2c_board" where
  "receive chip bs h = (case bs of [] \<Rightarrow> h | p # vs \<Rightarrow>
     h\<lparr>chip_regs := (chip_regs h)(chip := store_regs (chip_regs h chip) p vs), chip_ptr := (chip_ptr h)(chip := p + of_nat (length vs))\<rparr>)"

definition set_ctl :: "u32 \<Rightarrow> ctl \<Rightarrow> i2c_board \<Rightarrow> i2c_board" where
  "set_ctl b k h = h\<lparr>ctls := (ctls h)(b := k)\<rparr>"

definition con_wr :: "u32 \<Rightarrow> u16 \<Rightarrow> i2c_board \<Rightarrow> i2c_board" where
  "con_wr b v h =
     (let k = ctls h b; chip = ucast (k_sa k) :: byte; n = unat (k_cnt k);
          open = k\<lparr>k_con := v AND NOT I2C_CON_STT\<rparr>;
          stopped = k\<lparr>k_con := v AND NOT (I2C_CON_STT OR I2C_CON_MST OR I2C_CON_STP), k_stat := k_stat k OR I2C_STAT_ARDY\<rparr> in
      if v AND I2C_CON_EN = 0 then set_ctl b ((quiet k)\<lparr>k_con := v\<rparr>) h
      else if v AND I2C_CON_MST = 0 then set_ctl b (k\<lparr>k_con := v, k_tx := 0\<rparr>) h
      else if v AND I2C_CON_STT \<noteq> 0 then
        if wired h chip \<noteq> Some b then set_ctl b (open\<lparr>k_stat := k_stat k OR I2C_STAT_NACK OR I2C_STAT_ARDY, k_tx := 0, k_fifo := []\<rparr>) h
        else if v AND I2C_CON_TRX \<noteq> 0 then set_ctl b (open\<lparr>k_tx := n, k_sent := []\<rparr>) h
        else set_ctl b ((if v AND I2C_CON_STP \<noteq> 0 then stopped else open\<lparr>k_stat := k_stat k OR I2C_STAT_ARDY\<rparr>)
               \<lparr>k_fifo := map (\<lambda>i. chip_regs h chip (chip_ptr h chip + of_nat i)) [0..<n]\<rparr>)
             (h\<lparr>chip_ptr := (chip_ptr h)(chip := chip_ptr h chip + of_nat n)\<rparr>)
      else if v AND I2C_CON_STP \<noteq> 0 then set_ctl b stopped h
      else set_ctl b (k\<lparr>k_con := v\<rparr>) h)"

definition data_wr :: "u32 \<Rightarrow> byte \<Rightarrow> i2c_board \<Rightarrow> i2c_board" where
  "data_wr b v h =
     (let k = ctls h b; sent = k_sent k @ [v] in
      if k_tx k = 0 then h
      else if k_tx k > 1 then set_ctl b (k\<lparr>k_sent := sent, k_tx := k_tx k - 1\<rparr>) h
      else set_ctl b (k\<lparr>k_sent := [], k_tx := 0, k_stat := k_stat k OR I2C_STAT_ARDY,
             k_con := (if k_con k AND I2C_CON_STP \<noteq> 0 then k_con k AND NOT (I2C_CON_MST OR I2C_CON_STP) else k_con k)\<rparr>)
           (receive (ucast (k_sa k)) sent h))"

definition data_rd :: "u32 \<Rightarrow> i2c_board \<Rightarrow> byte \<times> i2c_board" where
  "data_rd b h = (case k_fifo (ctls h b) of [] \<Rightarrow> (0, h) | v # vs \<Rightarrow> (v, set_ctl b ((ctls h b)\<lparr>k_fifo := vs\<rparr>) h))"

definition ctl_wr :: "u32 \<Rightarrow> u32 \<Rightarrow> u16 \<Rightarrow> i2c_board \<Rightarrow> i2c_board" where
  "ctl_wr b a v h =
     (let k = ctls h b in
      if a = I2C_CON then con_wr b v h
      else set_ctl b
        (if a = I2C_STAT then k\<lparr>k_stat := k_stat k AND NOT v\<rparr> else if a = I2C_CNT then k\<lparr>k_cnt := v\<rparr> else if a = I2C_SA then k\<lparr>k_sa := v\<rparr>
         else if a = I2C_SYSC \<and> v AND I2C_SYSC_SRST \<noteq> 0 then (quiet k)\<lparr>k_con := 0\<rparr> else k\<lparr>k_other := (k_other k)(a := v)\<rparr>) h)"

text \<open>A controller takes a block of 4096 addresses.\<close>

definition blk_of :: "u32 \<Rightarrow> u32" where "blk_of a = a AND NOT 0xFFF"
definition ofs_of :: "u32 \<Rightarrow> u32" where "ofs_of a = a AND 0xFFF"

definition i2c_ref :: "i2c_board i2c_io" where
  "i2c_ref = \<lparr>io_rd16 = (\<lambda>a h. (ctl_rd (ofs_of a) (ctls h (blk_of a)), h)), io_wr16 = (\<lambda>a. ctl_wr (blk_of a) (ofs_of a)),
     io_rd8 = (\<lambda>a. data_rd (blk_of a)), io_wr8 = (\<lambda>a. data_wr (blk_of a)), io_delay = (\<lambda>_ h. h)\<rparr>"

section \<open>The selected controller\<close>

definition bases :: "u32 set" where "bases = {I2C_BASE1, I2C_BASE2, I2C_BASE3, I2C_BASE4}"

definition here :: "i2c_board i2c \<Rightarrow> ctl" where "here s = ctls (i2c_hw s) (i2c_base s)"
definition put :: "ctl \<Rightarrow> i2c_board i2c \<Rightarrow> i2c_board i2c" where "put k s = s\<lparr>i2c_hw := set_ctl (i2c_base s) k (i2c_hw s)\<rparr>"
definition on_chips :: "(i2c_board \<Rightarrow> i2c_board) \<Rightarrow> i2c_board i2c \<Rightarrow> i2c_board i2c" where "on_chips f s = s\<lparr>i2c_hw := f (i2c_hw s)\<rparr>"

definition moved :: "byte \<Rightarrow> byte \<Rightarrow> i2c_board \<Rightarrow> i2c_board" where "moved chip p h = h\<lparr>chip_ptr := (chip_ptr h)(chip := p)\<rparr>"

definition bus_ok :: "i2c_board i2c \<Rightarrow> bool" where "bus_ok s \<longleftrightarrow> i2c_base s \<in> bases"

lemmas i2c_regs = I2C_IE_def I2C_STAT_def I2C_CNT_def I2C_DATA_def I2C_SYSC_def I2C_CON_def I2C_OA_def I2C_SA_def I2C_PSC_def I2C_SCLL_def
  I2C_SCLH_def I2C_SYSTEST_def I2C_SYSS_def

lemmas i2c_bits = I2C_STAT_BB_def I2C_STAT_ROVR_def I2C_STAT_XUDF_def I2C_STAT_XRDY_def I2C_STAT_RRDY_def I2C_STAT_ARDY_def I2C_STAT_NACK_def
  I2C_STAT_AL_def I2C_CON_EN_def I2C_CON_MST_def I2C_CON_TRX_def I2C_CON_STP_def I2C_CON_STT_def I2C_SYSC_SRST_def I2C_SYSS_RDONE_def

lemma addr_parts:
  assumes "b \<in> bases" "a \<in> {I2C_IE, I2C_STAT, I2C_CNT, I2C_DATA, I2C_SYSC, I2C_CON, I2C_OA, I2C_SA, I2C_PSC, I2C_SCLL, I2C_SCLH, I2C_SYSTEST, I2C_SYSS}"
  shows "blk_of (b + a) = b" "ofs_of (b + a) = a"
  using assms by (auto simp: bases_def i2c_regs I2C_BASE1_def I2C_BASE2_def I2C_BASE3_def I2C_BASE4_def blk_of_def ofs_of_def)

lemma put_simps [simp]:
  "here (put k s) = k" "put k' (put k s) = put k' s" "i2c_base (put k s) = i2c_base s" "i2c_speed (put k s) = i2c_speed s"
  "bus_ok (put k s) = bus_ok s" "put (here s) s = s" "chip_regs (i2c_hw (put k s)) = chip_regs (i2c_hw s)"
  "chip_ptr (i2c_hw (put k s)) = chip_ptr (i2c_hw s)" "wired (i2c_hw (put k s)) = wired (i2c_hw s)"
  by (simp_all add: here_def put_def set_ctl_def bus_ok_def)

lemma inw_ref:
  assumes "bus_ok s" "a \<in> {I2C_STAT, I2C_CON, I2C_OA, I2C_SYSTEST, I2C_SYSS}"
  shows "inw i2c_ref a s = (ctl_rd a (here s), s)"
  using addr_parts[of "i2c_base s" a] assms by (auto simp: inw_def i2c_ref_def here_def bus_ok_def)

lemma word_clear: "x AND NOT 0xFFFF = (0 :: u16)"
proof -
  have "(0xFFFF :: u16) = - 1" by simp
  then have "NOT (0xFFFF :: u16) = NOT (- 1)" by (rule arg_cong)
  then show ?thesis by (simp only: bit.compl_one bit.conj_zero_right)
qed

lemmas word_clear_num [simp] = word_clear[simplified]

lemma chip_address [simp]: "ucast (ucast b :: u16) = (b :: byte)" "ucast (ucast b :: u32) = (b :: byte)"
  by (rule bit_word_eqI, simp add: bit_simps)+

lemma outw_ref:
  assumes "bus_ok s"
  shows "outw i2c_ref v I2C_STAT s = put ((here s)\<lparr>k_stat := k_stat (here s) AND NOT v\<rparr>) s"
    and "outw i2c_ref v I2C_CNT s = put ((here s)\<lparr>k_cnt := v\<rparr>) s"
    and "outw i2c_ref v I2C_SA s = put ((here s)\<lparr>k_sa := v\<rparr>) s"
    and "outw i2c_ref v I2C_CON s = s\<lparr>i2c_hw := con_wr (i2c_base s) v (i2c_hw s)\<rparr>"
    and "outw i2c_ref 2 I2C_SYSC s = put ((quiet (here s))\<lparr>k_con := 0\<rparr>) s"
    and "a \<in> {I2C_IE, I2C_OA, I2C_PSC, I2C_SCLL, I2C_SCLH, I2C_SYSTEST} \<Longrightarrow>
      outw i2c_ref v a s = put ((here s)\<lparr>k_other := (k_other (here s))(a := v)\<rparr>) s"
proof -
  have w: "outw i2c_ref v a s = s\<lparr>i2c_hw := ctl_wr (i2c_base s) a v (i2c_hw s)\<rparr>"
    if "a \<in> {I2C_IE, I2C_STAT, I2C_CNT, I2C_DATA, I2C_SYSC, I2C_CON, I2C_OA, I2C_SA, I2C_PSC, I2C_SCLL, I2C_SCLH, I2C_SYSTEST, I2C_SYSS}" for a v
    using addr_parts[OF _ that] assms by (simp add: outw_def i2c_ref_def bus_ok_def)
  show "outw i2c_ref v I2C_STAT s = put ((here s)\<lparr>k_stat := k_stat (here s) AND NOT v\<rparr>) s"
    and "outw i2c_ref v I2C_CNT s = put ((here s)\<lparr>k_cnt := v\<rparr>) s"
    and "outw i2c_ref v I2C_SA s = put ((here s)\<lparr>k_sa := v\<rparr>) s"
    and "outw i2c_ref v I2C_CON s = s\<lparr>i2c_hw := con_wr (i2c_base s) v (i2c_hw s)\<rparr>"
    and "outw i2c_ref 2 I2C_SYSC s = put ((quiet (here s))\<lparr>k_con := 0\<rparr>) s"
    by (simp_all add: w ctl_wr_def here_def put_def i2c_regs I2C_SYSC_SRST_def Let_def)
  show "outw i2c_ref v a s = put ((here s)\<lparr>k_other := (k_other (here s))(a := v)\<rparr>) s"
    if "a \<in> {I2C_IE, I2C_OA, I2C_PSC, I2C_SCLL, I2C_SCLH, I2C_SYSTEST}"
    using that w[of a v] by (auto simp: ctl_wr_def here_def put_def i2c_regs Let_def)
qed

lemma data_ref:
  assumes "bus_ok s"
  shows "outb i2c_ref v I2C_DATA s = s\<lparr>i2c_hw := data_wr (i2c_base s) v (i2c_hw s)\<rparr>"
    and "k_fifo (here s) = b # bs \<Longrightarrow> inb i2c_ref I2C_DATA s = (b, put ((here s)\<lparr>k_fifo := bs\<rparr>) s)"
    and "i2c_udelay i2c_ref us s = s"
  using assms addr_parts[of "i2c_base s"] unfolding bus_ok_def
  by (simp_all add: outb_def inb_def i2c_udelay_def i2c_ref_def here_def put_def data_rd_def Let_def)

lemma con_ref:
  assumes "bus_ok s"
  shows "outw i2c_ref 0 I2C_CON s = put ((quiet (here s))\<lparr>k_con := 0\<rparr>) s"
    and "outw i2c_ref 0x8000 I2C_CON s = put ((here s)\<lparr>k_con := 0x8000, k_tx := 0\<rparr>) s"
  using assms by (simp_all add: outw_ref con_wr_def Let_def here_def put_def i2c_bits)

lemmas ctl_ref = outw_ref(1-3,5,6) con_ref

text \<open>Starting a transfer to a chip on the selected bus, and to one that is not there.\<close>

lemma start_ref:
  assumes "bus_ok s" "i2c_speed s = OMAP_I2C_STANDARD" "k_sa (here s) = ucast chip"
  shows "wired (i2c_hw s) chip = Some (i2c_base s) \<Longrightarrow> outw i2c_ref (con_start s 0x200) I2C_CON s
      = put ((here s)\<lparr>k_con := 0x8600, k_tx := unat (k_cnt (here s)), k_sent := []\<rparr>) s"
    and "wired (i2c_hw s) chip = Some (i2c_base s) \<Longrightarrow> outw i2c_ref (con_start s 0x202) I2C_CON s
      = put ((here s)\<lparr>k_con := 0x8602, k_tx := unat (k_cnt (here s)), k_sent := []\<rparr>) s"
    and "wired (i2c_hw s) chip = Some (i2c_base s) \<Longrightarrow> k_cnt (here s) = 1 \<Longrightarrow> outw i2c_ref (con_start s 2) I2C_CON s
      = put ((here s)\<lparr>k_con := 0x8000, k_stat := k_stat (here s) OR 4,
          k_fifo := [chip_regs (i2c_hw s) chip (chip_ptr (i2c_hw s) chip)]\<rparr>) (on_chips (moved chip (chip_ptr (i2c_hw s) chip + 1)) s)"
    and "wired (i2c_hw s) chip \<noteq> Some (i2c_base s) \<Longrightarrow> outw i2c_ref (con_start s 0x200) I2C_CON s
      = put ((here s)\<lparr>k_con := 0x8600, k_stat := k_stat (here s) OR 6, k_tx := 0, k_fifo := []\<rparr>) s"
    and "wired (i2c_hw s) chip \<noteq> Some (i2c_base s) \<Longrightarrow> outw i2c_ref (con_start s 0x202) I2C_CON s
      = put ((here s)\<lparr>k_con := 0x8602, k_stat := k_stat (here s) OR 6, k_tx := 0, k_fifo := []\<rparr>) s"
    and "wired (i2c_hw s) chip \<noteq> Some (i2c_base s) \<Longrightarrow> outw i2c_ref (con_start s 2) I2C_CON s
      = put ((here s)\<lparr>k_con := 0x8402, k_stat := k_stat (here s) OR 6, k_tx := 0, k_fifo := []\<rparr>) s"
  using assms
  by (auto simp: outw_ref con_wr_def Let_def here_def put_def on_chips_def moved_def set_ctl_def con_start_def i2c_bits
      OMAP_I2C_STANDARD_def OMAP_I2C_HIGH_SPEED_def)

section \<open>The loops\<close>

lemma stat_ref:
  assumes "bus_ok s"
  shows "inw i2c_ref I2C_STAT s = (stat_of (here s), s)" "inw i2c_ref I2C_CON s = (k_con (here s), s)"
    "inw i2c_ref I2C_SYSS s = (if k_con (here s) AND I2C_CON_EN \<noteq> 0 then I2C_SYSS_RDONE else 0, s)"
  using inw_ref[OF assms] by (simp_all add: ctl_rd_def i2c_regs)

lemma flush_ref: "bus_ok s \<Longrightarrow> stat_of (here s) \<noteq> I2C_STAT_RRDY \<Longrightarrow> flush_fifo i2c_ref s = Some s"
  by (subst flush_fifo.simps) (simp add: stat_ref)

lemma ready_ref: "bus_ok s \<Longrightarrow> stat_of (here s) AND I2C_STAT_ARDY \<noteq> 0 \<Longrightarrow> ready_loop i2c_ref us n s = (int n, s)"
  by (simp add: stat_ref)

lemma pin_ref: "bus_ok s \<Longrightarrow> stat_of (here s) AND PIN_MASK \<noteq> 0 \<Longrightarrow> wait_for_pin i2c_ref s = (stat_of (here s), s)"
  by (simp add: wait_for_pin_def stat_ref)

lemma stat_same: "k_stat k = 0 \<Longrightarrow> k\<lparr>k_stat := 0\<rparr> = k"
  by (cases k) simp

lemma clear_ref:
  assumes "bus_ok s" "k_tx (here s) = 0" "k_fifo (here s) = []"
  shows "clear_loop i2c_ref us n s = put ((here s)\<lparr>k_stat := 0\<rparr>) s"
  using assms
proof (induction n arbitrary: s)
  case (0 s)
  show ?case
  proof (cases "stat_of (here s) = 0 \<and> k_con (here s) AND I2C_CON_MST = 0")
    case True
    then have "k_stat (here s) = 0" using 0 by (simp add: stat_of_def split: if_splits)
    then show ?thesis using True 0 by (simp add: pending_def stat_ref stat_same)
  qed (use 0 in \<open>auto simp: pending_def stat_ref outw_ref data_ref\<close>)
next
  case (Suc n s)
  show ?case
  proof (cases "stat_of (here s) = 0 \<and> k_con (here s) AND I2C_CON_MST = 0")
    case True
    then have "k_stat (here s) = 0" using Suc.prems by (simp add: stat_of_def split: if_splits)
    then show ?thesis using True Suc.prems by (simp add: pending_def stat_ref stat_same)
  next
    case False
    then have "clear_loop i2c_ref us (Suc n) s = clear_loop i2c_ref us n (put ((here s)\<lparr>k_stat := 0\<rparr>) s)"
      using Suc.prems by (subst clear_loop.simps) (auto simp: pending_def stat_ref outw_ref data_ref)
    then show ?thesis using Suc by (simp del: clear_loop.simps)
  qed
qed

lemma wait_bb_ref:
  assumes "bus_ok s" "k_con (here s) AND I2C_CON_MST = 0"
  shows "wait_for_bb i2c_ref s = Some (put ((here s)\<lparr>k_stat := 0\<rparr>) s)"
proof -
  have "stat_of ((here s)\<lparr>k_stat := 0\<rparr>) AND I2C_STAT_BB = 0" using assms(2) by (simp add: stat_of_def i2c_bits)
  then show ?thesis using assms(1) by (simp add: wait_for_bb_def outw_ref stat_ref)
qed

declare ready_loop.simps [simp del] pin_loop.simps [simp del] clear_loop.simps [simp del] bb_loop.simps [simp del]

section \<open>A byte\<close>

definition idle :: "ctl \<Rightarrow> bool" where
  "idle k \<longleftrightarrow> k_con k = I2C_CON_EN \<and> k_stat k = 0 \<and> k_tx k = 0 \<and> k_fifo k = []"

definition i2c_idle :: "i2c_board i2c \<Rightarrow> bool" where
  "i2c_idle s \<longleftrightarrow> bus_ok s \<and> i2c_speed s = OMAP_I2C_STANDARD \<and> idle (here s)"

lemma chips_put [simp]:
  "put k' (on_chips (receive chip bs) (put k s)) = put k' (on_chips (receive chip bs) s)"
  "put k' (on_chips (moved chip p) (put k s)) = put k' (on_chips (moved chip p) s)"
  "put k' (on_chips (moved chip p) (on_chips (moved chip q) s)) = put k' (on_chips (moved chip p) s)"
  by (simp_all add: put_def on_chips_def receive_def moved_def set_ctl_def split: list.splits)

lemma chips_simps [simp]:
  "i2c_base (on_chips f s) = i2c_base s" "i2c_speed (on_chips f s) = i2c_speed s" "bus_ok (on_chips f s) = bus_ok s"
  "wired (i2c_hw (on_chips (receive chip bs) s)) = wired (i2c_hw s)" "wired (i2c_hw (on_chips (moved chip p) s)) = wired (i2c_hw s)"
  "chip_regs (i2c_hw (on_chips (moved chip p) s)) = chip_regs (i2c_hw s)"
  "chip_ptr (i2c_hw (on_chips (moved chip p) s)) = (chip_ptr (i2c_hw s))(chip := p)"
  "here (on_chips (receive chip bs) s) = here s" "here (on_chips (moved chip p) s) = here s"
  by (simp_all add: on_chips_def receive_def moved_def bus_ok_def here_def split: list.splits)

lemma receive_number: "receive chip [p] = moved chip p"
  by (simp add: receive_def moved_def fun_eq_iff store_regs_def)

lemma data_last:
  assumes "bus_ok s" "k_tx (here s) = 1"
  shows "outb i2c_ref v I2C_DATA s = put ((here s)\<lparr>k_sent := [], k_tx := 0, k_stat := k_stat (here s) OR I2C_STAT_ARDY,
     k_con := (if k_con (here s) AND I2C_CON_STP \<noteq> 0 then k_con (here s) AND NOT (I2C_CON_MST OR I2C_CON_STP) else k_con (here s))\<rparr>)
     (on_chips (receive (ucast (k_sa (here s))) (k_sent (here s) @ [v])) s)"
  using assms by (simp add: data_ref data_wr_def here_def put_def on_chips_def Let_def)

lemma data_first:
  assumes "bus_ok s" "k_tx (here s) = 2"
  shows "outb i2c_ref v I2C_DATA s = put ((here s)\<lparr>k_sent := k_sent (here s) @ [v], k_tx := 1\<rparr>) s"
  using assms by (simp add: data_ref data_wr_def here_def put_def Let_def)

lemma send_offset_ref:
  assumes "i2c_idle s" "wired (i2c_hw s) chip = Some (i2c_base s)"
  shows "send_offset i2c_ref chip reg s = (False, put ((here s)\<lparr>k_con := 0x8600, k_stat := I2C_STAT_ARDY, k_cnt := 1, k_sa := ucast chip, k_sent := [], k_tx := 0\<rparr>)
     (on_chips (moved chip reg) s))"
  using assms unfolding i2c_idle_def idle_def
  by (cases "here s") (simp add: send_offset_def Let_def ctl_ref start_ref pin_ref ready_ref data_last stat_ref receive_number stat_of_def i2c_bits PIN_MASK_def)

lemma fetch_byte_ref:
  assumes "bus_ok s" "i2c_speed s = OMAP_I2C_STANDARD" "wired (i2c_hw s) chip = Some (i2c_base s)" "k_tx (here s) = 0" "k_fifo (here s) = []"
  shows "fetch_byte i2c_ref chip s = (False, Some (chip_regs (i2c_hw s) chip (chip_ptr (i2c_hw s) chip)),
     put ((here s)\<lparr>k_con := I2C_CON_EN, k_stat := 0, k_cnt := 1, k_sa := ucast chip, k_tx := 0, k_fifo := []\<rparr>)
       (on_chips (moved chip (chip_ptr (i2c_hw s) chip + 1)) s))"
  using assms
  by (cases "here s") (simp add: fetch_byte_def Let_def ctl_ref start_ref clear_ref pin_ref ready_ref data_ref stat_ref stat_of_def i2c_bits PIN_MASK_def)

lemma finish_ref:
  "bus_ok s \<Longrightarrow> stat_of (here s) \<noteq> I2C_STAT_RRDY \<Longrightarrow> finish i2c_ref s = Some (put ((here s)\<lparr>k_stat := 0, k_cnt := 0\<rparr>) s)"
  by (simp add: finish_def flush_ref ctl_ref)

lemma read_byte_ref:
  assumes "i2c_idle s" "wired (i2c_hw s) chip = Some (i2c_base s)"
  obtains k where "i2c_read_byte i2c_ref chip reg s = Some (False, Some (chip_regs (i2c_hw s) chip reg), put k (on_chips (moved chip (reg + 1)) s))" "idle k"
proof -
  have w: "wait_for_bb i2c_ref s = Some s"
    using wait_bb_ref[of s] assms(1) by (simp add: i2c_idle_def idle_def i2c_bits stat_same)
  show thesis
    by (rule that[of "(here s)\<lparr>k_con := I2C_CON_EN, k_stat := 0, k_cnt := 0, k_sa := ucast chip, k_sent := [], k_tx := 0, k_fifo := []\<rparr>"])
      (use assms in \<open>simp_all add: i2c_read_byte_def w send_offset_ref fetch_byte_ref finish_ref i2c_idle_def idle_def stat_of_def i2c_bits\<close>, (cases "here s", simp)?)
qed

lemma write_byte_ref:
  assumes "i2c_idle s" "wired (i2c_hw s) chip = Some (i2c_base s)"
  obtains k where "i2c_write_byte i2c_ref chip reg v s = Some (False, put k (on_chips (receive chip [reg, v]) s))" "idle k"
proof -
  have w: "wait_for_bb i2c_ref s = Some s"
    using wait_bb_ref[of s] assms(1) by (simp add: i2c_idle_def idle_def i2c_bits stat_same)
  show thesis
    by (rule that[of "(here s)\<lparr>k_con := I2C_CON_EN, k_stat := 0, k_cnt := 0, k_sa := ucast chip, k_sent := [], k_tx := 0, k_fifo := []\<rparr>"])
      (use assms in \<open>simp_all add: i2c_write_byte_def send_pair_def Let_def w ctl_ref start_ref pin_ref ready_ref data_first data_last stat_ref clear_ref finish_ref
         i2c_idle_def idle_def stat_of_def i2c_bits PIN_MASK_def\<close>, (cases "here s", simp)?)
qed

section \<open>Set-up and bus selection\<close>

lemma disable_ref: "bus_ok s \<Longrightarrow> 0 < n \<Longrightarrow> \<exists>t k. disable_loop i2c_ref n s = (t, put k s)"
proof (cases n)
  case (Suc m)
  assume ok: "bus_ok s"
  show ?thesis
  proof (cases "k_con (here s) AND I2C_CON_EN = 0")
    case True
    then show ?thesis using ok by (intro exI[of _ "int n"] exI[of _ "here s"]) (simp add: stat_ref)
  next
    case False
    let ?s = "put ((quiet (here s))\<lparr>k_con := 0\<rparr>) s"
    have "disable_loop i2c_ref m ?s = (int m, ?s)" using ok by (subst disable_loop.simps) (simp add: stat_ref)
    then show ?thesis using ok False by (subst disable_loop.simps) (auto simp: stat_ref ctl_ref Suc)
  qed
qed simp

lemma standard_clock: "psc_search OMAP_I2C_STANDARD (nat I2C_PSC_MAX) 0 = Some (15, 23)" "scl_of OMAP_I2C_STANDARD (I2C_IP_CLK sdiv 16) 23 = 23"
  by (simp_all add: scl_try_def scl_of_def OMAP_I2C_STANDARD_def I2C_PSC_MAX_def I2C_IP_CLK_def signed_divide_int_def signed_modulo_int_def)

declare disable_loop.simps [simp del] psc_search.simps [simp del]

lemma init_ref:
  assumes "bus_ok s"
  obtains k where "i2c_init i2c_ref OMAP_I2C_STANDARD a s = Some ((put k s)\<lparr>i2c_speed := OMAP_I2C_STANDARD\<rparr>)" "idle k"
    "k_other k I2C_PSC = 15" "k_other k I2C_SCLL = 23" "k_other k I2C_SCLH = 23" "k_other k I2C_OA = a"
proof -
  obtain t k0 where d: "disable_loop i2c_ref 100 s = (t, put k0 s)" using disable_ref[OF assms, of 100] by auto
  have r: "reset_loop i2c_ref t (put k s) = Some (put k s)" if "k_con k = 0x8000" for k
    using assms that by (subst reset_loop.simps) (simp add: stat_ref i2c_bits)
  show thesis
  proof (rule that[of "(quiet k0)\<lparr>k_con := 0x8000, k_other := (k_other k0)(I2C_PSC := 15, I2C_SCLL := 23, I2C_SCLH := 23, I2C_OA := a, I2C_IE := 0x1F), k_cnt := 0\<rparr>"])
    show "i2c_init i2c_ref OMAP_I2C_STANDARD a s = Some ((put ((quiet k0)\<lparr>k_con := 0x8000,
        k_other := (k_other k0)(I2C_PSC := 15, I2C_SCLL := 23, I2C_SCLH := 23, I2C_OA := a, I2C_IE := 0x1F), k_cnt := 0\<rparr>) s)\<lparr>i2c_speed := OMAP_I2C_STANDARD\<rparr>)"
      using assms by (cases k0) (simp add: i2c_init_def d standard_clock Let_def ctl_ref data_ref r flush_ref stat_of_def i2c_bits quiet_def I2C_IE_XRDY_IE_def
         I2C_IE_RRDY_IE_def I2C_IE_ARDY_IE_def I2C_IE_NACK_IE_def I2C_IE_AL_IE_def)
  qed (simp_all add: quiet_def idle_def i2c_bits i2c_regs)
qed

definition regs_of :: "(u32 \<Rightarrow> u32) \<Rightarrow> i2c_board i2c \<Rightarrow> reg_file" where
  "regs_of raw s = \<lparr>f_regs = chip_regs (i2c_hw s), f_raw = raw\<rparr>"

definition same_bus :: "i2c_board i2c \<Rightarrow> i2c_board i2c \<Rightarrow> bool" where
  "same_bus s s' \<longleftrightarrow> i2c_base s' = i2c_base s \<and> wired (i2c_hw s') = wired (i2c_hw s)"

lemma bus_base_ok: "bus_base bus \<in> bases"
  by (simp add: bus_base_def bases_def)

lemma select_ref:
  assumes "0 \<le> bus" "bus < 4"
  obtains s' where "select_bus i2c_ref bus 100 s = Some (0, s')" "i2c_idle s'" "i2c_base s' = bus_base bus"
    "chip_regs (i2c_hw s') = chip_regs (i2c_hw s)" "wired (i2c_hw s') = wired (i2c_hw s)" "k_other (here s') I2C_OA = CFG_I2C_SLAVE"
proof -
  let ?s = "s\<lparr>i2c_base := bus_base bus\<rparr>"
  have ok: "bus_ok ?s" by (simp add: bus_ok_def bus_base_ok)
  obtain k where k: "i2c_init i2c_ref OMAP_I2C_STANDARD CFG_I2C_SLAVE ?s = Some ((put k ?s)\<lparr>i2c_speed := OMAP_I2C_STANDARD\<rparr>)" "idle k"
      "k_other k I2C_OA = CFG_I2C_SLAVE"
    by (rule init_ref[OF ok])
  then show thesis
    by (intro that[of "(put k ?s)\<lparr>i2c_speed := OMAP_I2C_STANDARD\<rparr>"])
      (use assms ok in \<open>simp_all add: select_bus_def I2C_NUM_IF_def OMAP_I2C_STANDARD_def i2c_idle_def bus_ok_def here_def put_def set_ctl_def\<close>)
qed

section \<open>Registers\<close>

lemma addr_next [simp]: "(ucast (a + 1 :: u32) :: byte) = ucast a + 1"
proof -
  have "uint (a + 1) = take_bit 32 (uint a + 1)" by (simp add: uint_word_ariths take_bit_eq_mod)
  then have "(ucast (a + 1) :: byte) = word_of_int (take_bit 32 (uint a + 1))" by (simp only: ucast_eq)
  also have "\<dots> = word_of_int (uint a + 1)" by (simp only: word_of_int_eq_iff take_bit_take_bit) simp
  also have "\<dots> = ucast a + 1" by (simp only: of_int_add of_int_1 ucast_eq)
  finally show ?thesis .
qed

lemma read_bytes_ref:
  assumes "i2c_idle s" "wired (i2c_hw s) chip = Some (i2c_base s)"
  shows "\<exists>s'. read_bytes i2c_ref chip addr n s = Some (0, map (\<lambda>i. chip_regs (i2c_hw s) chip (ucast addr + of_nat i)) [0..<n], s')
    \<and> i2c_idle s' \<and> same_bus s s' \<and> chip_regs (i2c_hw s') = chip_regs (i2c_hw s)"
  using assms
proof (induction n arbitrary: addr s)
  case (Suc n)
  obtain k where k: "i2c_read_byte i2c_ref chip (ucast addr) s = Some (False, Some (chip_regs (i2c_hw s) chip (ucast addr)),
      put k (on_chips (moved chip (ucast addr + 1)) s))" "idle k"
    by (rule read_byte_ref[OF Suc.prems])
  let ?s = "put k (on_chips (moved chip (ucast addr + 1)) s)"
  have "i2c_idle ?s" "wired (i2c_hw ?s) chip = Some (i2c_base ?s)" using Suc.prems k(2) by (simp_all add: i2c_idle_def)
  from Suc.IH[OF this, of "addr + 1"] show ?case
    using k(1) by (auto simp: same_bus_def map_upt_Suc add.assoc simp del: upt_Suc)
qed (auto simp: same_bus_def)

lemma store_regs_Cons: "store_regs g p (v # vs) = store_regs (g(p := v)) (p + 1) vs"
  by (simp add: store_regs_def upt_conv_Cons map_Suc_upt[symmetric] fold_map comp_def add.assoc del: upt_Suc)

lemma write_bytes_ref:
  assumes "i2c_idle s" "wired (i2c_hw s) chip = Some (i2c_base s)"
  shows "\<exists>s'. write_bytes i2c_ref chip addr bs s = Some (0, s') \<and> i2c_idle s' \<and> same_bus s s'
    \<and> chip_regs (i2c_hw s') = (chip_regs (i2c_hw s))(chip := store_regs (chip_regs (i2c_hw s) chip) (ucast addr) bs)"
  using assms
proof (induction bs arbitrary: addr s)
  case (Cons b bs)
  obtain k where k: "i2c_write_byte i2c_ref chip (ucast addr) b s = Some (False, put k (on_chips (receive chip [ucast addr, b]) s))" "idle k"
    by (rule write_byte_ref[OF Cons.prems])
  let ?s = "put k (on_chips (receive chip [ucast addr, b]) s)"
  have r: "chip_regs (i2c_hw ?s) = (chip_regs (i2c_hw s))(chip := (chip_regs (i2c_hw s) chip)(ucast addr := b))"
    by (simp add: on_chips_def receive_def store_regs_def)
  have "i2c_idle ?s" "wired (i2c_hw ?s) chip = Some (i2c_base ?s)" using Cons.prems k(2) by (simp_all add: i2c_idle_def)
  from Cons.IH[OF this, of "addr + 1"] obtain s' where "write_bytes i2c_ref chip (addr + 1) bs ?s = Some (0, s')" "i2c_idle s'" "same_bus ?s s'"
      "chip_regs (i2c_hw s') = (chip_regs (i2c_hw s))(chip := store_regs (chip_regs (i2c_hw s) chip) (ucast addr) (b # bs))"
    unfolding r store_regs_Cons by (simp del: fun_upd_apply) (simp only: fun_upd_same, blast)
  then show ?case using k(1) by (simp add: same_bus_def del: fun_upd_apply)
qed (simp add: same_bus_def store_regs_def)

lemma range_ok: "unat reg + n \<le> 256 \<Longrightarrow> \<not> 256 < (ucast (reg :: byte) :: u32) + of_nat n"
proof -
  assume a: "unat reg + n \<le> 256"
  have "(ucast reg :: u32) + of_nat n = of_nat (unat reg + n)" by simp
  moreover have "unat (of_nat (unat reg + n) :: u32) = unat reg + n" using a by (simp only: unsigned_of_nat) (simp add: take_bit_nat_eq_self)
  ultimately show ?thesis using a unfolding word_less_nat_alt by simp
qed

text \<open>A transfer to a chip that does not answer; the set-up after it leaves the bus idle.\<close>

lemma reg_byte_missing:
  assumes "i2c_idle s" "wired (i2c_hw s) chip \<noteq> Some (i2c_base s)"
  obtains k where "i2c_read_byte i2c_ref chip reg s = Some (True, None, put k s)"
proof -
  have w: "wait_for_bb i2c_ref s = Some s"
    using wait_bb_ref[of s] assms(1) by (simp add: i2c_idle_def idle_def i2c_bits stat_same)
  show thesis
    by (rule that[of "(here s)\<lparr>k_cnt := 0, k_sa := ucast chip, k_con := 0x8600, k_stat := 0, k_tx := 0, k_fifo := []\<rparr>"])
      (use assms in \<open>cases "here s", simp add: i2c_read_byte_def send_offset_def Let_def w ctl_ref start_ref pin_ref finish_ref
         i2c_idle_def idle_def stat_of_def i2c_bits PIN_MASK_def\<close>)
qed

lemma write_byte_missing:
  assumes "i2c_idle s" "wired (i2c_hw s) chip \<noteq> Some (i2c_base s)"
  obtains k where "i2c_write_byte i2c_ref chip reg v s = Some (True, put k s)"
proof -
  have w: "wait_for_bb i2c_ref s = Some s"
    using wait_bb_ref[of s] assms(1) by (simp add: i2c_idle_def idle_def i2c_bits stat_same)
  show thesis
    by (rule that[of "(here s)\<lparr>k_cnt := 0, k_sa := ucast chip, k_con := 0x8602, k_stat := 0, k_tx := 0, k_fifo := []\<rparr>"])
      (use assms in \<open>cases "here s", simp add: i2c_write_byte_def Let_def w ctl_ref start_ref pin_ref finish_ref
         i2c_idle_def idle_def stat_of_def i2c_bits PIN_MASK_def\<close>)
qed

text \<open>Probing: the byte that has been read is still in the buffer and is thrown away by the second flush.\<close>

lemma flush_one:
  assumes "bus_ok s" "k_fifo (here s) = [b]" "k_stat (here s) = 0" "k_tx (here s) = 0" "k_con (here s) AND I2C_CON_MST = 0"
  shows "flush_fifo i2c_ref s = Some (put ((here s)\<lparr>k_fifo := [], k_stat := 0\<rparr>) s)"
proof -
  let ?s = "put ((here s)\<lparr>k_fifo := [], k_stat := 0\<rparr>) s"
  have "flush_fifo i2c_ref ?s = Some ?s" using assms by (intro flush_ref) (simp_all add: stat_of_def i2c_bits)
  then show ?thesis using assms by (subst flush_fifo.simps) (simp add: stat_ref data_ref outw_ref stat_of_def)
qed

lemma stop_ref:
  assumes "bus_ok s"
  shows "outw i2c_ref 0x8402 I2C_CON s = put ((here s)\<lparr>k_con := 0x8000, k_stat := k_stat (here s) OR 4\<rparr>) s"
  using assms by (simp add: outw_ref con_wr_def Let_def here_def put_def i2c_bits)

lemma own_address_ref: "bus_ok s \<Longrightarrow> inw i2c_ref I2C_OA s = (k_other (here s) I2C_OA, s)"
  by (simp add: inw_ref ctl_rd_def i2c_regs)

lemma probe_ref:
  assumes "i2c_idle s" "ucast chip \<noteq> k_other (here s) I2C_OA"
  shows "\<exists>s'. i2c_probe i2c_ref chip s = Some (if wired (i2c_hw s) chip = Some (i2c_base s) then 0 else 1, s')
    \<and> i2c_idle s' \<and> same_bus s s' \<and> chip_regs (i2c_hw s') = chip_regs (i2c_hw s)"
proof -
  have w: "wait_for_bb i2c_ref s = Some s"
    using wait_bb_ref[of s] assms(1) by (simp add: i2c_idle_def idle_def i2c_bits stat_same)
  show ?thesis
    using assms by (cases "here s", cases "wired (i2c_hw s) chip = Some (i2c_base s)")
      (simp_all add: i2c_probe_def own_address_ref w Let_def ctl_ref start_ref ready_ref stat_ref flush_ref flush_one stop_ref wait_bb_ref
        i2c_idle_def idle_def same_bus_def stat_of_def i2c_bits)
qed

section \<open>The driver as a bus\<close>

text \<open>
  C22. The I2C driver implements the bus the drivers of the battery and the charger are written against: after \<^verbatim>\<open>select_bus\<close>,
  \<^verbatim>\<open>i2c_read\<close> and \<^verbatim>\<open>i2c_write\<close> of a range of registers of a chip on that bus end without error, return and store what \<open>file_bus\<close> returns and
  stores, and leave the bus idle; \<^verbatim>\<open>i2c_probe\<close> finds the chip.
\<close>

theorem i2c_implements_bus:
  assumes "0 \<le> bus" "bus < 4" "wired (i2c_hw s) chip = Some (bus_base bus)" "chip \<noteq> 1" "unat reg + length bs \<le> 256"
  shows "\<exists>s1. select_bus i2c_ref bus 100 s = Some (0, s1) \<and> regs_of raw s1 = regs_of raw s
    \<and> (\<exists>s2. i2c_read i2c_ref chip (ucast reg) 1 (length bs) s1 = Some (0, fst (snd (pw_read file_bus chip reg (length bs) (regs_of raw s))), s2)
         \<and> regs_of raw s2 = regs_of raw s \<and> i2c_idle s2)
    \<and> (\<exists>s2. i2c_write i2c_ref chip (ucast reg) 1 bs s1 = Some (0, s2)
         \<and> regs_of raw s2 = snd (pw_write file_bus chip reg bs (regs_of raw s)) \<and> i2c_idle s2)
    \<and> (\<exists>s2. i2c_probe i2c_ref chip s1 = Some (0, s2) \<and> regs_of raw s2 = regs_of raw s \<and> i2c_idle s2)"
proof -
  obtain s1 where s1: "select_bus i2c_ref bus 100 s = Some (0, s1)" "i2c_idle s1" "i2c_base s1 = bus_base bus"
      "chip_regs (i2c_hw s1) = chip_regs (i2c_hw s)" "wired (i2c_hw s1) = wired (i2c_hw s)" "k_other (here s1) I2C_OA = CFG_I2C_SLAVE"
    by (rule select_ref[OF assms(1,2)])
  have w: "wired (i2c_hw s1) chip = Some (i2c_base s1)" using assms(3) s1 by simp
  have "ucast chip \<noteq> (1 :: u16)" using assms(4) by (metis chip_address unsigned_1)
  then have own: "ucast chip \<noteq> k_other (here s1) I2C_OA" using s1(6) by (simp add: CFG_I2C_SLAVE_def)
  have rd: "\<exists>s2. i2c_read i2c_ref chip (ucast reg) 1 (length bs) s1 = Some (0, fst (snd (pw_read file_bus chip reg (length bs) (regs_of raw s))), s2)
      \<and> regs_of raw s2 = regs_of raw s \<and> i2c_idle s2"
    using read_bytes_ref[OF s1(2) w, of "ucast reg" "length bs"] range_ok[OF assms(5)] s1(4)
    by (auto simp: i2c_read_def file_bus_def regs_of_def)
  have wr: "\<exists>s2. i2c_write i2c_ref chip (ucast reg) 1 bs s1 = Some (0, s2)
      \<and> regs_of raw s2 = snd (pw_write file_bus chip reg bs (regs_of raw s)) \<and> i2c_idle s2"
    using write_bytes_ref[OF s1(2) w, of "ucast reg" bs] range_ok[OF assms(5)] s1(4)
    by (auto simp: i2c_write_def file_bus_def regs_of_def store_regs_def)
  show ?thesis using rd wr s1 w probe_ref[OF s1(2) own] by (auto simp: regs_of_def)
qed

text \<open>
  C23. A chip that is not on the selected bus: reading and writing report an error, \<^verbatim>\<open>i2c_probe\<close> does not find it, no register of any chip
  changes, and the bus is idle again.
\<close>

theorem i2c_missing_chip:
  fixes reg :: byte
  assumes "0 \<le> bus" "bus < 4" "wired (i2c_hw s) chip \<noteq> Some (bus_base bus)" "chip \<noteq> 1" "unat reg + length bs \<le> 256" "bs \<noteq> []"
  shows "\<exists>s1. select_bus i2c_ref bus 100 s = Some (0, s1)
    \<and> (\<exists>s2. i2c_read i2c_ref chip (ucast reg) 1 (length bs) s1 = Some (1, [], s2) \<and> regs_of raw s2 = regs_of raw s \<and> i2c_idle s2)
    \<and> (\<exists>s2. i2c_write i2c_ref chip (ucast reg) 1 bs s1 = Some (1, s2) \<and> regs_of raw s2 = regs_of raw s \<and> i2c_idle s2)
    \<and> (\<exists>s2. i2c_probe i2c_ref chip s1 = Some (1, s2) \<and> regs_of raw s2 = regs_of raw s \<and> i2c_idle s2)"
proof -
  obtain s1 where s1: "select_bus i2c_ref bus 100 s = Some (0, s1)" "i2c_idle s1" "i2c_base s1 = bus_base bus"
      "chip_regs (i2c_hw s1) = chip_regs (i2c_hw s)" "wired (i2c_hw s1) = wired (i2c_hw s)" "k_other (here s1) I2C_OA = CFG_I2C_SLAVE"
    by (rule select_ref[OF assms(1,2)])
  have w: "wired (i2c_hw s1) chip \<noteq> Some (i2c_base s1)" using assms(3) s1 by simp
  have "ucast chip \<noteq> (1 :: u16)" using assms(4) by (metis chip_address unsigned_1)
  then have own: "ucast chip \<noteq> k_other (here s1) I2C_OA" using s1(6) by (simp add: CFG_I2C_SLAVE_def)
  have again: "\<exists>s2. i2c_init i2c_ref (i2c_speed (put k s1)) CFG_I2C_SLAVE (put k s1) = Some s2 \<and> regs_of raw s2 = regs_of raw s \<and> i2c_idle s2" for k
  proof -
    have ok: "bus_ok (put k s1)" and sp: "i2c_speed (put k s1) = OMAP_I2C_STANDARD" using s1(2) by (simp_all add: i2c_idle_def)
    show ?thesis unfolding sp by (rule init_ref[OF ok, of CFG_I2C_SLAVE]) (use ok s1(4) in \<open>auto simp: regs_of_def i2c_idle_def bus_ok_def here_def put_def set_ctl_def\<close>)
  qed
  obtain b bs' where bs: "bs = b # bs'" using assms(6) by (cases bs) auto
  obtain k where k: "i2c_read_byte i2c_ref chip reg s1 = Some (True, None, put k s1)" by (rule reg_byte_missing[OF s1(2) w])
  obtain k' where k': "i2c_write_byte i2c_ref chip reg b s1 = Some (True, put k' s1)" by (rule write_byte_missing[OF s1(2) w])
  show ?thesis
    using s1 w probe_ref[OF s1(2) own] again[of k] again[of k'] k k' range_ok[OF assms(5)]
    by (auto simp: i2c_read_def i2c_write_def bs regs_of_def)
qed

text \<open>A board with the charger and the power chip on the first bus, the gauge on the third.\<close>

definition tate_board :: "i2c_board i2c" where
  "tate_board = \<lparr>i2c_hw = \<lparr>ctls = (\<lambda>_. \<lparr>k_con = 0x8402, k_stat = 0x1234, k_cnt = 7, k_sa = 0, k_tx = 3, k_sent = [], k_fifo = [1, 2], k_other = (\<lambda>_. 0)\<rparr>),
     chip_regs = (\<lambda>chip reg. chip + reg), chip_ptr = (\<lambda>_. 0),
     wired = [0x5F \<mapsto> I2C_BASE1, 0x48 \<mapsto> I2C_BASE1, BQ27541_ADDR \<mapsto> I2C_BASE3]\<rparr>, i2c_base = I2C_BASE1, i2c_speed = 400\<rparr>"

theorem i2c_implements_bus_witness:
  "\<exists>s1 s2. select_bus i2c_ref 2 100 tate_board = Some (0, s1) \<and> i2c_read i2c_ref BQ27541_ADDR 8 1 (Suc (Suc 0)) s1 = Some (0, [0x5D, 0x5E], s2)"
  using i2c_implements_bus[of 2 tate_board BQ27541_ADDR 8 "[0, 0]" "\<lambda>_. 0"]
  by (auto simp: tate_board_def bus_base_def BQ27541_ADDR_def file_bus_def regs_of_def upt_rec)

theorem i2c_missing_chip_witness:
  "\<exists>s1 s2. select_bus i2c_ref 1 100 tate_board = Some (0, s1) \<and> i2c_read i2c_ref BQ27541_ADDR 8 1 (Suc (Suc 0)) s1 = Some (1, [], s2)"
  using i2c_missing_chip[of 1 tate_board BQ27541_ADDR 8 "[0, 0]" "\<lambda>_. 0"]
  by (auto simp: tate_board_def bus_base_def BQ27541_ADDR_def I2C_BASE2_def I2C_BASE3_def)

end
