(* ===== verification/Fat.thy ===== *)
theory Fat
  imports BlockDev
begin

text \<open>
  The FAT file system reader, \<^verbatim>\<open>fs/fat/fat.c\<close> with \<^verbatim>\<open>include/fat.h\<close>: the cached table, clusters, the contents of a file by runs of
  clusters, short and long names, directories and the path from the root.

  The block read function of the device is the argument \<open>rd\<close>, as in the theory \<open>PartDos\<close>. \<open>'s fat\<close> holds the device, the static variables
  of the file with its three block buffers, and the parameters of the volume that \<^verbatim>\<open>do_fat_read\<close> keeps on its stack. A directory entry is
  its 32 bytes. Names on the stack are lists of characters without the terminator; an access outside a buffer has no result, nor has a
  loop that does not end. What is printed of a listing is kept as data.
\<close>

section \<open>Data\<close>

definition FS_BLOCK_SIZE :: nat where "FS_BLOCK_SIZE = 512"
definition DIRENTSPERBLOCK :: nat where "DIRENTSPERBLOCK = FS_BLOCK_SIZE div 32"
definition FATBUFBLOCKS :: u32 where "FATBUFBLOCKS = 6"
definition FATBUFSIZE :: u32 where "FATBUFSIZE = 512 * FATBUFBLOCKS"
definition FAT12BUFSIZE :: u32 where "FAT12BUFSIZE = (FATBUFSIZE * 2) div 3"
definition FAT16BUFSIZE :: u32 where "FAT16BUFSIZE = FATBUFSIZE div 2"
definition FAT32BUFSIZE :: u32 where "FAT32BUFSIZE = FATBUFSIZE div 4"
definition FAT12_SIGN :: "byte list" where "FAT12_SIGN = bytes ''FAT12   ''"
definition FAT16_SIGN :: "byte list" where "FAT16_SIGN = bytes ''FAT16   ''"
definition FAT32_SIGN :: "byte list" where "FAT32_SIGN = bytes ''FAT32   ''"
definition SIGNLEN :: nat where "SIGNLEN = 8"
definition ATTR_VOLUME :: byte where "ATTR_VOLUME = 8"
definition ATTR_DIR :: byte where "ATTR_DIR = 16"
definition ATTR_VFAT :: byte where "ATTR_VFAT = 15"
definition DELETED_FLAG :: byte where "DELETED_FLAG = 0xe5"
definition aRING :: byte where "aRING = 0x05"
definition LAST_LONG_ENTRY_MASK :: byte where "LAST_LONG_ENTRY_MASK = 0x40"
definition LS_NO :: int where "LS_NO = 0"
definition LS_YES :: int where "LS_YES = 1"
definition LS_ROOT :: int where "LS_ROOT = 2"

record fsdata =
  fatsize :: int
  fatlength :: u16
  fat_sect :: u16
  rootdir_sect :: u16
  clust_size :: u16
  data_begin :: u16
  fatbuf :: "byte list"
  fatbufnum :: u32

datatype ls_line = Ls_file u32 "byte list" | Ls_dir "byte list" | Ls_total int int

record 's fat =
  f_dev :: 's
  f_vars :: fat_vars
  fs :: fsdata
  get_vfatname_block :: "byte list"
  get_dentfromdir_block :: "byte list"
  do_fat_read_block :: "byte list"
  listing :: "ls_line list"

text \<open>The fields of a directory entry, and of a slot with a part of a long name.\<close>

definition d_name :: "byte list \<Rightarrow> byte list" where "d_name d = bslice 0 8 d"
definition d_ext :: "byte list \<Rightarrow> byte list" where "d_ext d = bslice 8 3 d"
definition d_attr :: "byte list \<Rightarrow> byte" where "d_attr d = d ! 11"
definition d_starthi :: "byte list \<Rightarrow> u16" where "d_starthi d = of_le (bslice 20 2 d)"
definition d_start :: "byte list \<Rightarrow> u16" where "d_start d = of_le (bslice 26 2 d)"
definition d_size :: "byte list \<Rightarrow> u32" where "d_size d = of_le (bslice 28 4 d)"
definition slot_id :: "byte list \<Rightarrow> byte" where "slot_id d = d ! 0"
definition alias_checksum :: "byte list \<Rightarrow> byte" where "alias_checksum d = d ! 13"
definition slot_chars :: "byte list \<Rightarrow> byte list" where
  "slot_chars d = map (\<lambda>j. d ! (1 + 2 * j)) [0..<5] @ map (\<lambda>j. d ! (14 + 2 * j)) [0..<6] @ map (\<lambda>j. d ! (28 + 2 * j)) [0..<2]"

definition START :: "int \<Rightarrow> byte list \<Rightarrow> u32" where
  "START fsz d = ucast (d_start d) + (if fsz \<noteq> 32 then 0 else push_bit 16 (ucast (d_starthi d)))"

definition CHECK_CLUST :: "u32 \<Rightarrow> int \<Rightarrow> bool" where
  "CHECK_CLUST x fsz \<longleftrightarrow> x \<le> 1 \<or> x \<ge> (if fsz \<noteq> 32 then 0xfff0 else 0xffffff0)"

definition ISDIRDELIM :: "byte \<Rightarrow> bool" where "ISDIRDELIM c \<longleftrightarrow> c = 0x2F \<or> c = 0x5C"

definition TOLOWER :: "byte \<Rightarrow> byte" where "TOLOWER c = (if 0x41 \<le> c \<and> c \<le> 0x5A then c + 0x20 else c)"

section \<open>Names\<close>

definition downcase :: "byte list \<Rightarrow> byte list" where "downcase = map TOLOWER"

fun dirdelim :: "byte list \<Rightarrow> nat option" where
  "dirdelim [] = None"
| "dirdelim (c # cs) = (if ISDIRDELIM c then Some 0 else map_option Suc (dirdelim cs))"

definition compare_sign :: "byte list \<Rightarrow> byte list \<Rightarrow> int" where
  "compare_sign str1 str2 = (if take SIGNLEN str1 = take SIGNLEN str2 then 0 else -1)"

text \<open>The mark of a deleted entry empties a name; the stand-in for the character of that mark is replaced by it.\<close>

definition unmark :: "byte list \<Rightarrow> byte list" where
  "unmark s = (case s of [] \<Rightarrow> [] | c # cs \<Rightarrow> if c = DELETED_FLAG then [] else if c = aRING then 0xe5 # cs else s)"

definition upto_blank :: "byte list \<Rightarrow> byte list" where "upto_blank = takeWhile (\<lambda>c. c \<noteq> 0 \<and> c \<noteq> 0x20)"

definition get_name :: "byte list \<Rightarrow> byte list" where
  "get_name d =
     (let n = upto_blank (d_name d);
          e = d_ext d ! 0;
          n = (if e \<noteq> 0 \<and> e \<noteq> 0x20 then n @ 0x2E # upto_blank (d_ext d) else n)
      in downcase (unmark n))"

definition mkcksum :: "byte list \<Rightarrow> byte" where
  "mkcksum str = fold (\<lambda>c ret. (push_bit 7 (ret AND 1) OR drop_bit 1 (ret AND 0xfe)) + c) (take 11 str) 0"

text \<open>A part of a long name is appended to \<^verbatim>\<open>l_name\<close>, an array of 256; the flag says that it ends there.\<close>

definition slot2str :: "byte list \<Rightarrow> byte list \<Rightarrow> (bool \<times> byte list) option" where
  "slot2str slot l_name =
     (let t = takeWhile (\<lambda>c. c \<noteq> 0) (slot_chars slot); ended = (length t < 13) in
      if length l_name + length t + (if ended then 1 else 0) \<le> 256 then Some (ended, l_name @ t) else None)"

section \<open>Sectors, table and clusters\<close>

definition disk_read :: "'s bread \<Rightarrow> u32 \<Rightarrow> u32 \<Rightarrow> byte list \<Rightarrow> 's fat \<Rightarrow> (int \<times> byte list \<times> 's fat) option" where
  "disk_read rd startblock getsize buf st =
     (case cur_dev (f_vars st) of
        None \<Rightarrow> Some (-1, buf, st)
      | Some _ \<Rightarrow> do {
          (r, buf, d) \<leftarrow> rd (f_dev st) (startblock + part_offset (f_vars st)) getsize buf;
          Some (sint r, buf, st\<lparr>f_dev := d\<rparr>) })"

definition fat_bufsize :: "int \<Rightarrow> u32 option" where
  "fat_bufsize fsz = (if fsz = 32 then Some FAT32BUFSIZE else if fsz = 16 then Some FAT16BUFSIZE else if fsz = 12 then Some FAT12BUFSIZE else None)"

definition buf16 :: "byte list \<Rightarrow> nat \<Rightarrow> u16 option" where
  "buf16 buf i = map_option of_le (load (2 * i) 2 buf)"

definition fat12_ent :: "byte list \<Rightarrow> nat \<Rightarrow> u32 option" where
  "fat12_ent buf offset = do {
     let off16 = (offset * 3) div 4;
     v \<leftarrow> buf16 buf off16;
     if offset mod 4 = 0 then Some (ucast v AND 0xfff)
     else if offset mod 4 = 1 then do {
       v2 \<leftarrow> buf16 buf (off16 + 1);
       Some (push_bit 4 (ucast (v2 AND 0x00ff)) OR drop_bit 12 (ucast (v AND 0xf000))) }
     else if offset mod 4 = 2 then do {
       v2 \<leftarrow> buf16 buf (off16 + 1);
       Some (push_bit 8 (ucast (v2 AND 0x000f)) OR drop_bit 8 (ucast (v AND 0xff00))) }
     else Some (drop_bit 4 (ucast v AND 0xfff0)) }"

definition fat_ent :: "int \<Rightarrow> byte list \<Rightarrow> nat \<Rightarrow> u32 option" where
  "fat_ent fsz buf offset =
     (if fsz = 32 then map_option of_le (load (4 * offset) 4 buf)
      else if fsz = 16 then map_option ucast (buf16 buf offset)
      else fat12_ent buf offset)"

text \<open>Reading the block \<open>bufnum\<close> of the table into the cache.\<close>

definition fat_load :: "'s bread \<Rightarrow> u32 \<Rightarrow> 's fat \<Rightarrow> (bool \<times> 's fat) option" where
  "fat_load rd bufnum st = do {
     let len = ucast (fatlength (fs st)) * 512;
     let getsize = (if FATBUFSIZE div 512 > len then len else FATBUFSIZE div 512);
     (r, buf, st) \<leftarrow> disk_read rd (bufnum * FATBUFBLOCKS + ucast (fat_sect (fs st))) getsize (fatbuf (fs st)) st;
     let st = st\<lparr>fs := (fs st)\<lparr>fatbuf := buf\<rparr>\<rparr>;
     if r < 0 then Some (False, st) else Some (True, st\<lparr>fs := (fs st)\<lparr>fatbufnum := bufnum\<rparr>\<rparr>) }"

definition get_fatent :: "'s bread \<Rightarrow> u32 \<Rightarrow> 's fat \<Rightarrow> (u32 \<times> 's fat) option" where
  "get_fatent rd entry st =
     (case fat_bufsize (fatsize (fs st)) of
        None \<Rightarrow> Some (0, st)
      | Some n \<Rightarrow> do {
          let bufnum = entry div n;
          (ok, st) \<leftarrow> (if bufnum \<noteq> fatbufnum (fs st) then fat_load rd bufnum st else Some (True, st));
          if \<not> ok then Some (0, st)
          else do { v \<leftarrow> fat_ent (fatsize (fs st)) (fatbuf (fs st)) (unat (entry - bufnum * n)); Some (v, st) } })"

text \<open>Reading to the place \<open>off\<close> of a buffer.\<close>

definition read_to :: "'s bread \<Rightarrow> u32 \<Rightarrow> u32 \<Rightarrow> byte list \<Rightarrow> nat \<Rightarrow> 's fat \<Rightarrow> (int \<times> byte list \<times> 's fat) option" where
  "read_to rd startblock getsize buf off st =
     (if off > length buf then None else do {
        (r, b, st) \<leftarrow> disk_read rd startblock getsize (drop off buf) st;
        Some (r, take off buf @ b, st) })"

definition clust_sect :: "fsdata \<Rightarrow> u32 \<Rightarrow> u32" where
  "clust_sect f clustnum = (if clustnum > 0 then scast (data_begin f) + clustnum * ucast (clust_size f) else ucast (rootdir_sect f))"

definition get_cluster :: "'s bread \<Rightarrow> u32 \<Rightarrow> byte list \<Rightarrow> nat \<Rightarrow> u32 \<Rightarrow> 's fat \<Rightarrow> (int \<times> byte list \<times> 's fat) option" where
  "get_cluster rd clustnum buf off sz st = do {
     let startsect = clust_sect (fs st) clustnum;
     (r, buf, st) \<leftarrow> read_to rd startsect (sz div 512) buf off st;
     if r < 0 then Some (-1, buf, st)
     else if sz mod 512 = 0 then Some (0, buf, st)
     else do {
       (r, tmp, st) \<leftarrow> disk_read rd (startsect + sz div 512) 1 (stack_buf 512) st;
       if r < 0 then Some (-1, buf, st)
       else do {
         buf \<leftarrow> store (off + 512 * unat (sz div 512)) (take (unat (sz mod 512)) tmp) buf;
         Some (0, buf, st) } } }"

section \<open>The contents of a file\<close>

text \<open>The search for consecutive clusters ends at the size that is wanted, at a gap, or at an entry that names no cluster.\<close>

datatype run = Whole | Getit | Invalid

partial_function (option) cluster_run :: "'s bread \<Rightarrow> u32 \<Rightarrow> u32 \<Rightarrow> u32 \<Rightarrow> u32 \<Rightarrow> 's fat \<Rightarrow> (run \<times> u32 \<times> u32 \<times> 's fat) option" where
  "cluster_run rd bytesperclust filesize endclust actsize st =
     (if actsize < filesize then do {
        (newclust, st) \<leftarrow> get_fatent rd endclust st;
        if newclust - 1 \<noteq> endclust then Some (Getit, endclust, actsize, st)
        else if CHECK_CLUST newclust (fatsize (fs st)) then Some (Invalid, endclust, actsize, st)
        else cluster_run rd bytesperclust filesize newclust (actsize + bytesperclust) st }
      else Some (Whole, endclust, actsize, st))"

partial_function (option) contents_loop ::
  "'s bread \<Rightarrow> u32 \<Rightarrow> u32 \<Rightarrow> u32 \<Rightarrow> u32 \<Rightarrow> byte list \<Rightarrow> nat \<Rightarrow> 's fat \<Rightarrow> (int \<times> byte list \<times> 's fat) option" where
  "contents_loop rd bytesperclust filesize gotsize curclust buf off st = do {
     (r, endclust, actsize, st) \<leftarrow> cluster_run rd bytesperclust filesize curclust bytesperclust st;
     if r = Invalid then Some (sint gotsize, buf, st)
     else if r = Whole then do {
       let actsize = actsize - bytesperclust;
       (e, buf, st) \<leftarrow> get_cluster rd curclust buf off actsize st;
       if e \<noteq> 0 then Some (-1, buf, st)
       else do {
         let gotsize = gotsize + actsize;
         let filesize = filesize - actsize;
         (e, buf, st) \<leftarrow> get_cluster rd endclust buf (off + unat actsize) filesize st;
         Some (if e \<noteq> 0 then -1 else sint (gotsize + filesize), buf, st) } }
     else do {
       (e, buf, st) \<leftarrow> get_cluster rd curclust buf off actsize st;
       if e \<noteq> 0 then Some (-1, buf, st)
       else do {
         (next, st) \<leftarrow> get_fatent rd endclust st;
         if CHECK_CLUST next (fatsize (fs st)) then Some (sint (gotsize + actsize), buf, st)
         else contents_loop rd bytesperclust (filesize - actsize) (gotsize + actsize) next buf (off + unat actsize) st } } }"

definition get_contents :: "'s bread \<Rightarrow> byte list \<Rightarrow> byte list \<Rightarrow> u32 \<Rightarrow> 's fat \<Rightarrow> (int \<times> byte list \<times> 's fat) option" where
  "get_contents rd dent buf maxsize st =
     contents_loop rd (ucast (clust_size (fs st)) * 512) (if maxsize > 0 \<and> d_size dent > maxsize then maxsize else d_size dent) 0
       (START (fatsize (fs st)) dent) buf 0 st"

section \<open>Long names\<close>

text \<open>The slots of a long name from entry \<open>i\<close> on, at most to the end of the cluster (\<open>k\<close> entries): the entry behind them, or an error.\<close>

fun slot_scan :: "byte list \<Rightarrow> nat \<Rightarrow> nat \<Rightarrow> byte \<Rightarrow> nat option option" where
  "slot_scan bl 0 i counter = Some (Some i)"
| "slot_scan bl (Suc k) i counter =
     (if counter = 0 then Some (Some i)
      else do {
        slot \<leftarrow> load (32 * i) 32 bl;
        if slot_id slot AND NOT LAST_LONG_ENTRY_MASK \<noteq> counter then Some None
        else slot_scan bl k (i + 1) (counter - 1) })"

text \<open>The slots at the start of the next cluster: the search for the first of them, and the collection of their text from there backwards.\<close>

partial_function (option) first_slot :: "byte list \<Rightarrow> nat \<Rightarrow> nat option" where
  "first_slot bl i = do {
     slot \<leftarrow> load (32 * i) 32 bl;
     if slot_id slot > 1 then first_slot bl (i + 1) else Some i }"

fun slots_back :: "byte list \<Rightarrow> nat \<Rightarrow> byte list \<Rightarrow> byte list option" where
  "slots_back bl i l_name = do {
     slot \<leftarrow> load (32 * i) 32 bl;
     (_, l_name) \<leftarrow> slot2str slot l_name;
     case i of 0 \<Rightarrow> Some l_name | Suc j \<Rightarrow> slots_back bl j l_name }"

text \<open>The slots before entry \<open>i\<close>, down to the one that is marked as the last part of the name.\<close>

fun name_loop :: "byte list \<Rightarrow> nat \<Rightarrow> byte list \<Rightarrow> byte list option" where
  "name_loop bl 0 l_name = None"
| "name_loop bl (Suc i) l_name = do {
     slot \<leftarrow> load (32 * i) 32 bl;
     (ended, l_name) \<leftarrow> slot2str slot l_name;
     if ended \<or> slot_id slot AND LAST_LONG_ENTRY_MASK \<noteq> 0 then Some l_name else name_loop bl i l_name }"

text \<open>
  \<^verbatim>\<open>get_vfatname\<close> at entry \<open>i\<close> of a block: on success the entry is overwritten with the one the name belongs to. The result is the block and the
  name; the return code is ignored by both callers. When the slots reach the end of the cluster, the last of them is skipped.
\<close>

definition long_name :: "byte list \<Rightarrow> nat \<Rightarrow> byte list \<Rightarrow> byte list \<Rightarrow> nat \<Rightarrow> (byte list \<times> byte list) option" where
  "long_name bl e l_name realdent i = do {
     l_name \<leftarrow> name_loop bl e l_name;
     if length l_name > 255 then None
     else do { bl \<leftarrow> store (32 * i) realdent bl; Some (bl, downcase (unmark l_name)) } }"

definition get_vfatname :: "'s bread \<Rightarrow> u32 \<Rightarrow> byte list \<Rightarrow> nat \<Rightarrow> 's fat \<Rightarrow> (byte list \<times> byte list \<times> 's fat) option" where
  "get_vfatname rd curclust bl i st = do {
     let n = unat (clust_size (fs st)) * 16;
     slot \<leftarrow> load (32 * i) 32 bl;
     e \<leftarrow> slot_scan bl (n - i) i (slot_id slot AND NOT LAST_LONG_ENTRY_MASK);
     case e of
       None \<Rightarrow> Some (bl, [], st)
     | Some e \<Rightarrow>
         if e \<ge> n then do {
           (next, st) \<leftarrow> get_fatent rd curclust st;
           if CHECK_CLUST next (fatsize (fs st)) then Some (bl, [], st)
           else do {
             (r, vb, st) \<leftarrow> get_cluster rd next (get_vfatname_block st) 0 (ucast (clust_size (fs st)) * 512) st;
             let st = st\<lparr>get_vfatname_block := vb\<rparr>;
             if r \<noteq> 0 then Some (bl, [], st)
             else do {
               j \<leftarrow> first_slot vb 0;
               realdent \<leftarrow> load (32 * (j + 1)) 32 vb;
               l_name \<leftarrow> slots_back vb j [];
               (bl, l_name) \<leftarrow> long_name bl (e - 1) l_name realdent i;
               Some (bl, l_name, st) } } }
         else do {
           realdent \<leftarrow> load (32 * e) 32 bl;
           (bl, l_name) \<leftarrow> long_name bl e [] realdent i;
           Some (bl, l_name, st) } }"

section \<open>Directories\<close>

record ls =
  ls_files :: int
  ls_dirs :: int
  prevcksum :: u16

definition ls0 :: ls where "ls0 = \<lparr>ls_files = 0, ls_dirs = 0, prevcksum = 0xffff\<rparr>"

definition is_dir :: "byte list \<Rightarrow> bool" where "is_dir d \<longleftrightarrow> d_attr d AND ATTR_DIR \<noteq> 0"

text \<open>A line of a listing; \<open>anydir\<close>: a directory is listed whatever its name is.\<close>

definition ls_entry :: "bool \<Rightarrow> byte list \<Rightarrow> byte list \<Rightarrow> ls \<Rightarrow> 's fat \<Rightarrow> ls \<times> 's fat" where
  "ls_entry anydir d name l st =
     (if is_dir d then
        if anydir \<or> name \<noteq> [] then (l\<lparr>ls_dirs := ls_dirs l + 1\<rparr>, st\<lparr>listing := listing st @ [Ls_dir name]\<rparr>) else (l, st)
      else if name \<noteq> [] then (l\<lparr>ls_files := ls_files l + 1\<rparr>, st\<lparr>listing := listing st @ [Ls_file (d_size d) name]\<rparr>)
      else (l, st))"

definition ls_total :: "ls \<Rightarrow> 's fat \<Rightarrow> 's fat" where
  "ls_total l st = st\<lparr>listing := listing st @ [Ls_total (ls_files l) (ls_dirs l)]\<rparr>"

definition has_name :: "byte list \<Rightarrow> byte list \<Rightarrow> byte list \<Rightarrow> bool" where
  "has_name filename s_name l_name \<longleftrightarrow> strcmp_s filename s_name = 0 \<or> strcmp_s filename l_name = 0"

definition is_volume :: "byte list \<Rightarrow> bool" where "is_volume d \<longleftrightarrow> d_attr d AND ATTR_VOLUME \<noteq> 0"

definition is_slot :: "byte list \<Rightarrow> bool" where
  "is_slot d \<longleftrightarrow> d_attr d AND ATTR_VFAT \<noteq> 0 \<and> d ! 0 AND LAST_LONG_ENTRY_MASK \<noteq> 0"

datatype search = Match "byte list" | Stop int | More

text \<open>One entry of a subdirectory, and the loop over the \<open>k\<close> entries from \<open>i\<close> on of the cluster \<open>curclust\<close>.\<close>

definition dent_step :: "'s bread \<Rightarrow> byte list \<Rightarrow> int \<Rightarrow> u32 \<Rightarrow> nat \<Rightarrow> ls \<Rightarrow> 's fat \<Rightarrow> (search \<times> ls \<times> 's fat) option" where
  "dent_step rd filename dols curclust i l st = do {
     d0 \<leftarrow> load (32 * i) 32 (get_dentfromdir_block st);
     if d0 ! 0 = DELETED_FLAG \<or> is_volume d0 \<and> \<not> is_slot d0 then Some (More, l, st)
     else do {
       (d, l_name, l, st) \<leftarrow> (if is_volume d0 then do {
           (bl, l_name, st) \<leftarrow> get_vfatname rd curclust (get_dentfromdir_block st) i st;
           d \<leftarrow> load (32 * i) 32 bl;
           Some (d, l_name, l\<lparr>prevcksum := ucast (alias_checksum d0)\<rparr>, st\<lparr>get_dentfromdir_block := bl\<rparr>) }
         else Some (d0, [], l, st));
       if is_volume d0 \<and> dols \<noteq> 0 then Some (More, ls_entry True d l_name l st)
       else if d ! 0 = 0 then Some (Stop 0, l, if dols \<noteq> 0 then ls_total l st else st)
       else if dols \<noteq> 0 \<and> ucast (mkcksum d) = prevcksum l then Some (More, l, st)
       else if dols \<noteq> 0 then Some (More, ls_entry True d (get_name d) l st)
       else Some (if has_name filename (get_name d) l_name then Match d else More, l, st) } }"

fun dent_loop :: "'s bread \<Rightarrow> byte list \<Rightarrow> int \<Rightarrow> u32 \<Rightarrow> nat \<Rightarrow> nat \<Rightarrow> ls \<Rightarrow> 's fat \<Rightarrow> (search \<times> ls \<times> 's fat) option" where
  "dent_loop rd filename dols curclust 0 i l st = Some (More, l, st)"
| "dent_loop rd filename dols curclust (Suc k) i l st = do {
     (r, l, st) \<leftarrow> dent_step rd filename dols curclust i l st;
     if r = More then dent_loop rd filename dols curclust k (i + 1) l st else Some (r, l, st) }"

text \<open>The clusters of the directory; the result is the entry that has the name.\<close>

partial_function (option) dir_loop :: "'s bread \<Rightarrow> byte list \<Rightarrow> int \<Rightarrow> u32 \<Rightarrow> ls \<Rightarrow> 's fat \<Rightarrow> (byte list option \<times> 's fat) option" where
  "dir_loop rd filename dols curclust l st = do {
     (r, bl, st) \<leftarrow> get_cluster rd curclust (get_dentfromdir_block st) 0 (ucast (clust_size (fs st)) * 512) st;
     let st = st\<lparr>get_dentfromdir_block := bl\<rparr>;
     if r \<noteq> 0 then Some (None, st)
     else do {
       (r, l, st) \<leftarrow> dent_loop rd filename dols curclust (unat (clust_size (fs st)) * 16) 0 l st;
       case r of
         Match d \<Rightarrow> Some (Some d, st)
       | Stop _ \<Rightarrow> Some (None, st)
       | More \<Rightarrow> do {
           (next, st) \<leftarrow> get_fatent rd curclust st;
           if CHECK_CLUST next (fatsize (fs st)) then Some (None, st) else dir_loop rd filename dols next l st } } }"

definition get_dentfromdir :: "'s bread \<Rightarrow> byte list \<Rightarrow> byte list \<Rightarrow> int \<Rightarrow> 's fat \<Rightarrow> (byte list option \<times> 's fat) option" where
  "get_dentfromdir rd filename retdent dols st = dir_loop rd filename dols (START (fatsize (fs st)) retdent) ls0 st"

section \<open>The volume\<close>

record boot_sector =
  cluster_size :: byte
  reserved :: u16
  fats :: byte
  dir_entries :: "byte list"
  fat_length :: u16
  fat32_length :: u32
  root_cluster :: u32

definition boot_fields :: "byte list \<Rightarrow> boot_sector" where
  "boot_fields b = \<lparr>cluster_size = b ! 13, reserved = of_le (bslice 14 2 b), fats = b ! 16, dir_entries = bslice 17 2 b,
     fat_length = of_le (bslice 22 2 b), fat32_length = of_le (bslice 36 4 b), root_cluster = of_le (bslice 44 4 b)\<rparr>"

text \<open>Result code, fields, width of the table, and the volume information.\<close>

definition read_bootsectandvi :: "'s bread \<Rightarrow> 's fat \<Rightarrow> (int \<times> boot_sector \<times> int \<times> byte list \<times> 's fat) option" where
  "read_bootsectandvi rd st = do {
     (r, b, st) \<leftarrow> disk_read rd 0 1 (stack_buf 512) st;
     let bs = boot_fields b;
     let vi = bslice (if fat_length bs = 0 then 64 else 36) 27 b;
     let sign = bslice 18 8 vi;
     if r < 0 then Some (-1, bs, 0, [], st)
     else if fat_length bs = 0 then Some (if compare_sign FAT32_SIGN sign = 0 then 0 else -1, bs, 32, vi, st)
     else if compare_sign FAT12_SIGN sign = 0 then Some (0, bs, 12, vi, st)
     else if compare_sign FAT16_SIGN sign = 0 then Some (0, bs, 16, vi, st)
     else Some (-1, bs, 0, vi, st) }"

definition volume :: "boot_sector \<Rightarrow> int \<Rightarrow> byte list \<Rightarrow> fsdata" where
  "volume bs fsz buf =
     (let flen = (if fsz = 32 then ucast (fat32_length bs) else fat_length bs);
          root = reserved bs + flen * ucast (fats bs);
          clust = ucast (cluster_size bs);
          rootdir_size = (if fsz = 32 then 0 else (unat (dir_entries bs ! 1) * 256 + unat (dir_entries bs ! 0)) * 32 div 512)
      in \<lparr>fatsize = fsz, fatlength = flen, fat_sect = reserved bs, rootdir_sect = root, clust_size = clust,
          data_begin = root + of_nat rootdir_size - clust * 2, fatbuf = buf, fatbufnum = -1\<rparr>)"

section \<open>Reading a file\<close>

text \<open>One entry of the root directory.\<close>

definition root_step :: "'s bread \<Rightarrow> byte list \<Rightarrow> int \<Rightarrow> bool \<Rightarrow> nat \<Rightarrow> ls \<Rightarrow> 's fat \<Rightarrow> (search \<times> ls \<times> 's fat) option" where
  "root_step rd name dols isdir i l st = do {
     d0 \<leftarrow> load (32 * i) 32 (do_fat_read_block st);
     if is_volume d0 \<and> \<not> is_slot d0 then Some (More, l, st)
     else do {
       (d, l_name, l, st) \<leftarrow> (if is_volume d0 then do {
           (bl, l_name, st) \<leftarrow> get_vfatname rd 0 (do_fat_read_block st) i st;
           d \<leftarrow> load (32 * i) 32 bl;
           Some (d, l_name, l\<lparr>prevcksum := ucast (alias_checksum d0)\<rparr>, st\<lparr>do_fat_read_block := bl\<rparr>) }
         else Some (d0, [], l, st));
       if is_volume d0 \<and> dols = LS_ROOT then Some (More, ls_entry True d l_name l st)
       else if \<not> is_volume d0 \<and> d ! 0 = 0 then Some (if dols = LS_ROOT then (Stop 0, l, ls_total l st) else (Stop (-1), l, st))
       else if \<not> is_volume d0 \<and> dols = LS_ROOT \<and> ucast (mkcksum d) = prevcksum l then Some (More, l, st)
       else if dols = LS_ROOT then Some (More, ls_entry False d (get_name d) l st)
       else if \<not> has_name name (get_name d) l_name then Some (More, l, st)
       else Some (if isdir \<and> \<not> is_dir d then Stop (-1) else Match d, l, st) } }"

fun root_entries :: "'s bread \<Rightarrow> byte list \<Rightarrow> int \<Rightarrow> bool \<Rightarrow> nat \<Rightarrow> nat \<Rightarrow> ls \<Rightarrow> 's fat \<Rightarrow> (search \<times> ls \<times> 's fat) option" where
  "root_entries rd name dols isdir 0 i l st = Some (More, l, st)"
| "root_entries rd name dols isdir (Suc k) i l st = do {
     (r, l, st) \<leftarrow> root_step rd name dols isdir i l st;
     if r = More then root_entries rd name dols isdir k (i + 1) l st else Some (r, l, st) }"

partial_function (option) root_loop ::
  "'s bread \<Rightarrow> byte list \<Rightarrow> int \<Rightarrow> bool \<Rightarrow> u32 \<Rightarrow> u32 \<Rightarrow> u32 \<Rightarrow> ls \<Rightarrow> 's fat \<Rightarrow> (search \<times> 's fat) option" where
  "root_loop rd name dols isdir cursect root_clust j l st = do {
     (r, bl, st) \<leftarrow> disk_read rd cursect (ucast (clust_size (fs st))) (do_fat_read_block st) st;
     let st = st\<lparr>do_fat_read_block := bl\<rparr>;
     if r < 0 then Some (Stop (-1), st)
     else do {
       (r, l, st) \<leftarrow> root_entries rd name dols isdir DIRENTSPERBLOCK 0 l st;
       if r \<noteq> More then Some (r, st)
       else if fatsize (fs st) = 32 \<and> j + 1 = ucast (clust_size (fs st)) then do {
         (next, st) \<leftarrow> get_fatent rd root_clust st;
         root_loop rd name dols isdir (scast (data_begin (fs st)) + next * ucast (clust_size (fs st))) next 0 l st }
       else root_loop rd name dols isdir (cursect + 1) root_clust (if fatsize (fs st) = 32 then j + 1 else j) l st } }"

text \<open>The directories of the path behind the root; the result is the entry of the file, or the value to return.\<close>

partial_function (option) path_loop ::
  "'s bread \<Rightarrow> int \<Rightarrow> bool \<Rightarrow> byte list \<Rightarrow> byte list \<Rightarrow> 's fat \<Rightarrow> (search \<times> 's fat) option" where
  "path_loop rd dols firsttime subname dent st = do {
     let idx = dirdelim subname;
     let nextname = (case idx of None \<Rightarrow> [] | Some k \<Rightarrow> dropWhile ISDIRDELIM (drop (k + 1) subname));
     let isdir = (idx \<noteq> None \<or> dols \<noteq> 0 \<and> firsttime);
     let firsttime = (firsttime \<and> \<not> (dols \<noteq> 0 \<and> (if idx = None then True else nextname = [])));
     (d, st) \<leftarrow> get_dentfromdir rd (case idx of None \<Rightarrow> subname | Some k \<Rightarrow> take k subname) dent (if isdir then 0 else dols) st;
     case d of
       None \<Rightarrow> Some (Stop (if dols \<noteq> 0 \<and> \<not> isdir then 0 else -1), st)
     | Some d \<Rightarrow>
         if idx \<noteq> None \<and> \<not> is_dir d then Some (Stop (-1), st)
         else if isdir then path_loop rd dols firsttime (if idx = None then subname else nextname) d st
         else Some (Match d, st) }"

definition do_fat_read :: "'s bread \<Rightarrow> byte list \<Rightarrow> byte list \<Rightarrow> u32 \<Rightarrow> int \<Rightarrow> 's fat \<Rightarrow> (int \<times> byte list \<times> 's fat) option" where
  "do_fat_read rd filename buf maxsize dols st = do {
     (r, bs, fsz, _, st) \<leftarrow> read_bootsectandvi rd st;
     if r \<noteq> 0 then Some (-1, buf, st)
     else do {
       let st = st\<lparr>fs := volume bs fsz (fatbuf (fs st))\<rparr>;
       let filename = dropWhile ISDIRDELIM filename;
       if length filename \<ge> 2048 then None
       else do {
         let name = downcase filename;
         let idx = dirdelim name;
         if name = [] \<and> dols = 0 then Some (-1, buf, st)
         else do {
           let isdir = (name \<noteq> [] \<and> (idx \<noteq> None \<or> dols \<noteq> 0));
           let dols = (if name = [] then LS_ROOT else dols);
           let subname = (case idx of None \<Rightarrow> [] | Some k \<Rightarrow> dropWhile ISDIRDELIM (drop (k + 1) name));
           let top = (case idx of None \<Rightarrow> name | Some k \<Rightarrow> take k name);
           (r, st) \<leftarrow> root_loop rd top dols isdir (ucast (rootdir_sect (fs st))) (root_cluster bs) 0 ls0 st;
           (r, st) \<leftarrow> (case r of Match d \<Rightarrow> if isdir then path_loop rd dols True subname d st else Some (r, st) | _ \<Rightarrow> Some (r, st));
           case r of
             Match d \<Rightarrow> get_contents rd d buf maxsize st
           | Stop v \<Rightarrow> Some (v, buf, st)
           | More \<Rightarrow> None } } } }"

definition file_fat_detectfs :: "'s bread \<Rightarrow> 's fat \<Rightarrow> (int \<times> (byte list \<times> byte list) option \<times> 's fat) option" where
  "file_fat_detectfs rd st =
     (if cur_dev (f_vars st) = None then Some (1, None, st)
      else do {
        (r, _, _, vi, st) \<leftarrow> read_bootsectandvi rd st;
        if r \<noteq> 0 then Some (1, None, st)
        else Some (0, Some (takeWhile (\<lambda>c. c \<noteq> 0) (bslice 18 5 vi), takeWhile (\<lambda>c. c \<noteq> 0) (bslice 7 11 vi)), st) })"

definition file_fat_ls :: "'s bread \<Rightarrow> byte list \<Rightarrow> 's fat \<Rightarrow> (int \<times> 's fat) option" where
  "file_fat_ls rd dir st = do { (r, _, st) \<leftarrow> do_fat_read rd dir [] 0 LS_YES st; Some (r, st) }"

definition file_fat_read :: "'s bread \<Rightarrow> byte list \<Rightarrow> byte list \<Rightarrow> u32 \<Rightarrow> 's fat \<Rightarrow> (int \<times> byte list \<times> 's fat) option" where
  "file_fat_read rd filename buf maxsize st = do_fat_read rd filename buf maxsize LS_NO st"

end
