(* ===== verification/FatOk.thy ===== *)
theory FatOk
  imports Fat EmmcHw
begin

text \<open>
  What the FAT reader computes. The locale \<open>fat_disk\<close> states what it needs of a block device: reading sectors that do not change. On it the
  cached table is the table on the disk, and the contents of a file, read by runs of consecutive clusters, are the clusters of its
  chain one after the other. The driver of the eMMC provides such a device.
\<close>

section \<open>The table\<close>

text \<open>Entry \<open>n\<close> of a table: 32, 16 or 12 bits wide; in the last case the 12 bits from bit \<open>12 * n\<close> on.\<close>

definition ent :: "int \<Rightarrow> byte list \<Rightarrow> nat \<Rightarrow> u32" where
  "ent fsz T n =
     (if fsz = 32 then of_le (bslice (4 * n) 4 T)
      else if fsz = 16 then of_le (bslice (2 * n) 2 T)
      else drop_bit (12 * n mod 8) (of_le (bslice (12 * n div 8) 2 T)) AND 0xfff)"

lemma of_le_two: "length T \<ge> i + 2 \<Longrightarrow> (of_le (bslice i 2 T) :: 'w::len word) = ucast (T ! i) OR push_bit 8 (ucast (T ! (i + 1)))"
proof -
  assume "length T \<ge> i + 2"
  then have "bslice i 2 T = [T ! i, T ! (i + 1)]"
    by (auto simp: bslice_def list_eq_iff_nth_eq nth_Cons' less_2_cases_iff)
  then show ?thesis by simp
qed

lemma ucast_of_le: "(ucast (of_le bs :: u16) :: u32) = of_le bs" if "length bs \<le> 2"
  using that by (intro bit_word_eqI) (auto simp: bit_simps bit_of_le)

lemma fat12_masks:
  "(0xfff :: u32) = mask 12" "(0xfff0 :: u32) = push_bit 4 (mask 12)" "(0xf000 :: u16) = push_bit 12 (mask 4)"
  "(0xff00 :: u16) = push_bit 8 (mask 8)" "(0x00ff :: u16) = mask 8" "(0x000f :: u16) = mask 4"
  by (simp_all add: mask_eq_exp_minus_1 push_bit_eq_mult)

lemma fat12_pairs:
  fixes a b c d :: byte
  shows "(ucast (ucast a OR push_bit 8 (ucast b) :: u16) :: u32) AND 0xfff = (ucast a OR push_bit 8 (ucast b)) AND 0xfff"
    and "push_bit 4 (ucast ((ucast c OR push_bit 8 (ucast d) :: u16) AND 0xff)) OR drop_bit 12 (ucast ((ucast a OR push_bit 8 (ucast b) :: u16) AND 0xf000))
      = (drop_bit 4 (ucast b OR push_bit 8 (ucast c)) AND 0xfff :: u32)"
    and "push_bit 8 (ucast ((ucast c OR push_bit 8 (ucast d) :: u16) AND 0xf)) OR drop_bit 8 (ucast ((ucast a OR push_bit 8 (ucast b) :: u16) AND 0xff00))
      = ((ucast b OR push_bit 8 (ucast c)) AND 0xfff :: u32)"
    and "drop_bit 4 (ucast (ucast a OR push_bit 8 (ucast b) :: u16) AND 0xfff0) = (drop_bit 4 (ucast a OR push_bit 8 (ucast b)) AND 0xfff :: u32)"
proof -
  have len: "\<not> bit (x :: byte) n" if "8 \<le> n" for x n using that bit_imp_le_length[of x n] by auto
  have cases: "n < 4 \<or> 4 \<le> n \<and> n < 8 \<or> 8 \<le> n \<and> n < 12 \<or> 12 \<le> n" for n :: nat by linarith
  show "(ucast (ucast a OR push_bit 8 (ucast b) :: u16) :: u32) AND 0xfff = (ucast a OR push_bit 8 (ucast b)) AND 0xfff"
    unfolding fat12_masks by (rule bit_word_eqI) (auto simp: bit_simps)
  show "push_bit 4 (ucast ((ucast c OR push_bit 8 (ucast d) :: u16) AND 0xff)) OR drop_bit 12 (ucast ((ucast a OR push_bit 8 (ucast b) :: u16) AND 0xf000))
      = (drop_bit 4 (ucast b OR push_bit 8 (ucast c)) AND 0xfff :: u32)"
    unfolding fat12_masks
  proof (rule bit_word_eqI)
    fix n assume "n < LENGTH(32)"
    then show "bit (push_bit 4 (ucast ((ucast c OR push_bit 8 (ucast d) :: u16) AND mask 8)) OR drop_bit 12 (ucast ((ucast a OR push_bit 8 (ucast b) :: u16) AND push_bit 12 (mask 4))) :: u32) n
      = bit (drop_bit 4 (ucast b OR push_bit 8 (ucast c)) AND mask 12 :: u32) n"
      using cases[of n] by (elim disjE) (auto simp: bit_simps len)
  qed
  show "push_bit 8 (ucast ((ucast c OR push_bit 8 (ucast d) :: u16) AND 0xf)) OR drop_bit 8 (ucast ((ucast a OR push_bit 8 (ucast b) :: u16) AND 0xff00))
      = ((ucast b OR push_bit 8 (ucast c)) AND 0xfff :: u32)"
    unfolding fat12_masks
  proof (rule bit_word_eqI)
    fix n assume "n < LENGTH(32)"
    then show "bit (push_bit 8 (ucast ((ucast c OR push_bit 8 (ucast d) :: u16) AND mask 4)) OR drop_bit 8 (ucast ((ucast a OR push_bit 8 (ucast b) :: u16) AND push_bit 8 (mask 8))) :: u32) n
      = bit ((ucast b OR push_bit 8 (ucast c)) AND mask 12 :: u32) n"
      using cases[of n] by (elim disjE) (auto simp: bit_simps len)
  qed
  show "drop_bit 4 (ucast (ucast a OR push_bit 8 (ucast b) :: u16) AND 0xfff0) = (drop_bit 4 (ucast a OR push_bit 8 (ucast b)) AND 0xfff :: u32)"
    unfolding fat12_masks
  proof (rule bit_word_eqI)
    fix n assume "n < LENGTH(32)"
    then show "bit (drop_bit 4 (ucast (ucast a OR push_bit 8 (ucast b) :: u16) AND push_bit 4 (mask 12)) :: u32) n
      = bit (drop_bit 4 (ucast a OR push_bit 8 (ucast b)) AND mask 12 :: u32) n"
      using cases[of n] by (elim disjE) (auto simp: bit_simps len)
  qed
qed

lemma fat12_ent_ok:
  assumes "2 * ((n * 3) div 4) + 4 \<le> length T \<or> n mod 4 = 3 \<and> 2 * ((n * 3) div 4) + 2 \<le> length T"
  shows "fat12_ent T n = Some (ent 12 T n)"
proof -
  define q where "q = n div 4"
  have b: "buf16 T i = Some (ucast (T ! (2 * i)) OR push_bit 8 (ucast (T ! (2 * i + 1))))" if "2 * i + 2 \<le> length T" for i
    using that of_le_two[of "2 * i" T] by (simp add: buf16_def)
  have "n = 4 * q + n mod 4" by (simp add: q_def)
  moreover have "n mod 4 < 4" by simp
  ultimately consider "n = 4 * q" | "n = 4 * q + 1" | "n = 4 * q + 2" | "n = 4 * q + 3" by linarith
  then show ?thesis
  proof cases
    case 1
    have d: "(n * 3) div 4 = 3 * q" "12 * n div 8 = 6 * q" "12 * n mod 8 = 0" "n mod 4 = 0" using 1 by simp_all
    show ?thesis using assms unfolding fat12_ent_def ent_def d by (simp add: b of_le_two fat12_pairs)
  next
    case 2
    have d: "(n * 3) div 4 = 3 * q" "12 * n div 8 = 6 * q + 1" "12 * n mod 8 = 4" "n mod 4 = 1" using 2 by presburger+
    show ?thesis using assms fat12_pairs(2)[of "T ! (6 * q + 2)" "T ! Suc (Suc (Suc (6 * q)))" "T ! (6 * q)" "T ! (6 * q + 1)"]
      unfolding fat12_ent_def ent_def d by (simp add: b of_le_two)
  next
    case 3
    have d: "(n * 3) div 4 = 3 * q + 1" "12 * n div 8 = 6 * q + 3" "12 * n mod 8 = 0" "n mod 4 = 2" using 3 by presburger+
    have n: "6 * q + 3 = Suc (Suc (Suc (6 * q)))" "6 * q + 4 = Suc (Suc (Suc (Suc (6 * q))))" "4 + 6 * q = Suc (Suc (Suc (Suc (6 * q))))"
      "6 * q + 5 = Suc (Suc (Suc (Suc (Suc (6 * q)))))" by simp_all
    show ?thesis using assms fat12_pairs(3)[of "T ! (6 * q + 4)" "T ! (6 * q + 5)" "T ! (6 * q + 2)" "T ! (6 * q + 3)"]
      unfolding fat12_ent_def ent_def d by (simp add: b of_le_two n)
  next
    case 4
    have d: "(n * 3) div 4 = 3 * q + 2" "12 * n div 8 = 6 * q + 4" "12 * n mod 8 = 4" "n mod 4 = 3" using 4 by presburger+
    have L: "6 * q + 6 \<le> length T" using assms unfolding d by auto
    have n: "2 * (3 * q + 2) = 6 * q + 4" "2 * (3 * q + 2) + 1 = 6 * q + 5" "6 * q + 4 + 1 = 6 * q + 5" by simp_all
    have v: "buf16 T (3 * q + 2) = Some (ucast (T ! (6 * q + 4)) OR push_bit 8 (ucast (T ! (6 * q + 5))))"
      using b[of "3 * q + 2"] L unfolding n by simp
    have w: "(of_le (bslice (6 * q + 4) 2 T) :: u32) = ucast (T ! (6 * q + 4)) OR push_bit 8 (ucast (T ! (6 * q + 5)))"
      using of_le_two[of "6 * q + 4" T, where 'w = 32] L unfolding n by simp
    show ?thesis unfolding fat12_ent_def ent_def d v w using fat12_pairs(4)[of "T ! (6 * q + 4)" "T ! (6 * q + 5)"] by (simp add: v del: drop_bit_or add_2_eq_Suc add_2_eq_Suc')
  qed
qed

section \<open>A disk\<close>

lemma bslice_table_sector:
  assumes "\<And>i. length (d i) = 512" "i + k \<le> n" "x + y \<le> 512 * k"
  shows "bslice (512 * i + x) y (sectors d a n) = bslice x y (sectors d (a + i) k)"
proof -
  have l: "length (sectors d b m) = 512 * m" for b m by (rule length_sectors) (rule assms(1))
  have "sectors d a n = sectors d a i @ sectors d (a + i) k @ sectors d (a + i + k) (n - i - k)"
    using sectors_add[of d a i "n - i"] sectors_add[of d "a + i" k "n - i - k"] assms(2) by simp
  then show ?thesis using assms(3) by (simp add: bslice_append2 bslice_append1 l)
qed

text \<open>The entries one block of the cache holds.\<close>

definition fat_per_block :: "int \<Rightarrow> nat" where
  "fat_per_block fsz = (if fsz = 32 then 768 else if fsz = 16 then 1536 else 2048)"

definition fat_ready :: "('s \<Rightarrow> bool) \<Rightarrow> 's fat \<Rightarrow> bool" where
  "fat_ready dok st \<longleftrightarrow> dok (f_dev st) \<and> cur_dev (f_vars st) \<noteq> None"

text \<open>The table lies from sector \<open>table_at\<close> on; \<open>fat_table\<close> is what the disk \<open>img\<close> of \<open>cap\<close> sectors holds from there to its end.\<close>

definition table_at :: "'s fat \<Rightarrow> nat" where
  "table_at st = unat (ucast (fat_sect (fs st)) + part_offset (f_vars st))"

definition fat_table :: "(nat \<Rightarrow> byte list) \<Rightarrow> nat \<Rightarrow> 's fat \<Rightarrow> byte list" where
  "fat_table img cap st = sectors img (table_at st) (cap - table_at st)"

definition cache_ok :: "(nat \<Rightarrow> byte list) \<Rightarrow> nat \<Rightarrow> 's fat \<Rightarrow> bool" where
  "cache_ok img cap st \<longleftrightarrow> length (fatbuf (fs st)) = 12288 \<and> fatlength (fs st) \<noteq> 0 \<and>
     (fatbufnum (fs st) = -1 \<or> take 3072 (fatbuf (fs st)) = sectors img (table_at st + 6 * unat (fatbufnum (fs st))) 6
        \<and> table_at st + 6 * unat (fatbufnum (fs st)) + 6 \<le> cap)"

text \<open>Two states that differ in the device, the cache and the listing only.\<close>

definition same_vol :: "'s fat \<Rightarrow> 's fat \<Rightarrow> bool" where
  "same_vol st st' \<longleftrightarrow> f_vars st' = f_vars st \<and> get_vfatname_block st' = get_vfatname_block st \<and> get_dentfromdir_block st' = get_dentfromdir_block st
     \<and> do_fat_read_block st' = do_fat_read_block st \<and> listing st' = listing st
     \<and> (fs st')\<lparr>fatbuf := [], fatbufnum := 0\<rparr> = (fs st)\<lparr>fatbuf := [], fatbufnum := 0\<rparr>"

lemma same_volD:
  assumes "same_vol st st'"
  shows "f_vars st' = f_vars st" "fatsize (fs st') = fatsize (fs st)" "clust_size (fs st') = clust_size (fs st)" "data_begin (fs st') = data_begin (fs st)"
    "fat_sect (fs st') = fat_sect (fs st)" "rootdir_sect (fs st') = rootdir_sect (fs st)" "fatlength (fs st') = fatlength (fs st)"
    "table_at st' = table_at st" "fat_table img cap st' = fat_table img cap st" "do_fat_read_block st' = do_fat_read_block st"
proof -
  have f: "(fs st')\<lparr>fatbuf := [], fatbufnum := 0\<rparr> = (fs st)\<lparr>fatbuf := [], fatbufnum := 0\<rparr>" using assms by (simp add: same_vol_def)
  show v: "f_vars st' = f_vars st" "do_fat_read_block st' = do_fat_read_block st" using assms by (simp_all add: same_vol_def)
  show "fatsize (fs st') = fatsize (fs st)" "clust_size (fs st') = clust_size (fs st)" "data_begin (fs st') = data_begin (fs st)"
    "rootdir_sect (fs st') = rootdir_sect (fs st)" "fatlength (fs st') = fatlength (fs st)"
    using f by (cases "fs st"; cases "fs st'"; simp)+
  show s: "fat_sect (fs st') = fat_sect (fs st)" using f by (cases "fs st"; cases "fs st'"; simp)
  show "table_at st' = table_at st" "fat_table img cap st' = fat_table img cap st" using v s by (simp_all add: fat_table_def table_at_def)
qed

lemma same_vol_trans: "same_vol a b \<Longrightarrow> same_vol b c \<Longrightarrow> same_vol a c"
  by (simp add: same_vol_def)

lemma same_vol_refl [simp]: "same_vol a a"
  by (simp add: same_vol_def)

lemma same_vol_dev [simp]: "same_vol a (a\<lparr>f_dev := d\<rparr>)"
  by (simp add: same_vol_def)

locale fat_disk =
  fixes rd :: "'s bread" and dok :: "'s \<Rightarrow> bool" and img :: "nat \<Rightarrow> byte list" and cap :: nat
  assumes img_length: "dok s \<Longrightarrow> length (img k) = 512"
    and cap_bound: "cap < 2 ^ 31"
    and read: "dok s \<Longrightarrow> unat a + unat n \<le> cap \<Longrightarrow> 512 * unat n + 511 < 2 ^ 32 \<Longrightarrow> 512 * unat n \<le> length buf
      \<Longrightarrow> \<exists>s'. rd s a n buf = Some (1, patch 0 (sectors img (unat a) (unat n)) buf, s') \<and> dok s'"
begin

lemma sectors_length: "dok s \<Longrightarrow> length (sectors img a n) = 512 * n"
  using length_sectors img_length by blast

lemma disk_read_ok:
  assumes "fat_ready dok st" "unat (a + part_offset (f_vars st)) + unat n \<le> cap" "512 * unat n + 511 < 2 ^ 32" "512 * unat n \<le> length buf"
  shows "\<exists>d. disk_read rd a n buf st = Some (1, patch 0 (sectors img (unat (a + part_offset (f_vars st))) (unat n)) buf, st\<lparr>f_dev := d\<rparr>) \<and> dok d"
proof -
  obtain d where "rd (f_dev st) (a + part_offset (f_vars st)) n buf
      = Some (1, patch 0 (sectors img (unat (a + part_offset (f_vars st))) (unat n)) buf, d)" "dok d"
    using read[of "f_dev st" "a + part_offset (f_vars st)" n buf] assms by (auto simp: fat_ready_def)
  then show ?thesis using assms(1) by (auto simp: disk_read_def fat_ready_def)
qed

lemma read_to_ok:
  assumes "fat_ready dok st" "unat (a + part_offset (f_vars st)) + unat n \<le> cap" "512 * unat n + 511 < 2 ^ 32" "off + 512 * unat n \<le> length buf"
  shows "\<exists>d. read_to rd a n buf off st = Some (1, patch off (sectors img (unat (a + part_offset (f_vars st))) (unat n)) buf, st\<lparr>f_dev := d\<rparr>) \<and> dok d"
proof -
  have "512 * unat n \<le> length (drop off buf)" using assms(4) by simp
  then obtain d where "disk_read rd a n (drop off buf) st
      = Some (1, patch 0 (sectors img (unat (a + part_offset (f_vars st))) (unat n)) (drop off buf), st\<lparr>f_dev := d\<rparr>)" "dok d"
    using disk_read_ok[OF assms(1-3)] by blast
  then show ?thesis using assms(4) by (auto simp: read_to_def patch_def add.commute)
qed

section \<open>The cached table\<close>

lemma fat_load_ok:
  assumes "fat_ready dok st" "cache_ok img cap st" "table_at st + 6 * unat b + 6 \<le> cap"
  shows "\<exists>st'. fat_load rd b st = Some (True, st') \<and> fat_ready dok st' \<and> same_vol st st' \<and> cache_ok img cap st' \<and> fatbufnum (fs st') = b"
proof -
  have fl: "fatlength (fs st) \<noteq> 0" using assms(2) by (simp add: cache_ok_def)
  have f: "0 < unat (fatlength (fs st))" using fl by (simp add: unat_gt_0)
  have h: "unat (fatlength (fs st)) < 65536" using unsigned_less[of "fatlength (fs st)", where 'a = nat] by simp
  have "unat (ucast (fatlength (fs st)) * 512 :: u32) = unat (fatlength (fs st)) * 512"
    using h by (simp add: unat_word_ariths unsigned_ucast_eq take_bit_nat_eq_self)
  then have g: "\<not> ucast (fatlength (fs st)) * 512 < (6 :: u32)"
    using f by (simp add: word_less_nat_alt)
  let ?a = "b * 6 + ucast (fat_sect (fs st)) :: u32"
  have u: "unat (?a + part_offset (f_vars st)) = table_at st + 6 * unat b"
  proof -
    have lt: "table_at st + 6 * unat b < 2 ^ 32" using assms(3) cap_bound by simp
    have "?a + part_offset (f_vars st) = of_nat (table_at st + 6 * unat b)" by (simp add: table_at_def)
    then show ?thesis using lt by (simp only: unsigned_of_nat) (simp add: take_bit_nat_eq_self)
  qed
  obtain d where d: "disk_read rd ?a 6 (fatbuf (fs st)) st = Some (1, patch 0 (sectors img (table_at st + 6 * unat b) 6) (fatbuf (fs st)), st\<lparr>f_dev := d\<rparr>)" "dok d"
    using disk_read_ok[OF assms(1), of ?a 6 "fatbuf (fs st)"] assms(2,3) unfolding u by (auto simp: cache_ok_def)
  have l: "length (sectors img (table_at st + 6 * unat b) 6) = 3072" using sectors_length[of "f_dev st"] assms(1) by (simp add: fat_ready_def)
  show ?thesis
    using assms d l g by (auto simp: fat_load_def FATBUFSIZE_def FATBUFBLOCKS_def Let_def same_vol_def fat_ready_def cache_ok_def table_at_def patch_def)
qed

lemma fat_ent_cached:
  assumes "length bf = 12288" "take 3072 bf = bslice (3072 * b) 3072 T" "3072 * b + 3072 \<le> length T" "x < fat_per_block fsz" "fsz \<in> {12, 16, 32}"
  shows "fat_ent fsz bf x = Some (ent fsz T (fat_per_block fsz * b + x))"
proof -
  have sl: "bslice y k bf = bslice (3072 * b + y) k T" if "y + k \<le> 3072" for y k
  proof -
    have "bslice y k bf = bslice y k (take 3072 bf)" using that by (simp add: bslice_def take_drop min_def)
    then show ?thesis using that by (simp add: assms(2) bslice_sub)
  qed
  consider "fsz = 32" | "fsz = 16" | "fsz = 12" using assms(5) by auto
  then show ?thesis
  proof cases
    case 1
    then show ?thesis using assms(1,4) sl[of "4 * x" 4] by (simp add: fat_ent_def ent_def fat_per_block_def distrib_left)
  next
    case 2
    then show ?thesis using assms(1,4) sl[of "2 * x" 2] by (simp add: fat_ent_def ent_def fat_per_block_def buf16_def distrib_left ucast_of_le bslice_def)
  next
    case 3
    have x: "x < 2048" using assms(4) 3 by (simp add: fat_per_block_def)
    have "fat12_ent bf x = Some (ent 12 bf x)" using assms(1) x by (intro fat12_ent_ok) auto
    moreover have "ent 12 bf x = ent 12 T (2048 * b + x)"
    proof -
      have m: "12 * (2048 * b + x) = 12 * x + 3072 * b * 8" by simp
      have e: "12 * (2048 * b + x) div 8 = 3072 * b + 12 * x div 8" "12 * (2048 * b + x) mod 8 = 12 * x mod 8"
        unfolding m by (rule div_mult_self1, simp) (rule mod_mult_self1)
      have "12 * x div 8 + 2 \<le> 3072" using x by linarith
      then show ?thesis using sl[of "12 * x div 8" 2] unfolding ent_def e by simp
    qed
    ultimately show ?thesis using 3 by (simp add: fat_ent_def fat_per_block_def)
  qed
qed

text \<open>The lookup of an entry gives the entry of the table on the disk, whatever block was cached.\<close>

lemma get_fatent_ok:
  assumes "fat_ready dok st" "cache_ok img cap st" "fatsize (fs st) \<in> {12, 16, 32}"
    and "table_at st + 6 * (unat e div fat_per_block (fatsize (fs st))) + 6 \<le> cap"
  shows "\<exists>st'. get_fatent rd e st = Some (ent (fatsize (fs st)) (fat_table img cap st) (unat e), st')
    \<and> fat_ready dok st' \<and> same_vol st st' \<and> cache_ok img cap st'"
proof -
  let ?fsz = "fatsize (fs st)" and ?p = "fat_per_block (fatsize (fs st))"
  obtain n where n: "fat_bufsize ?fsz = Some n" "unat n = ?p" "?p > 1"
    using assms(3) by (auto simp: fat_bufsize_def FAT32BUFSIZE_def FAT16BUFSIZE_def FAT12BUFSIZE_def FATBUFSIZE_def FATBUFBLOCKS_def fat_per_block_def)
  let ?b = "e div n"
  have ub: "unat ?b = unat e div ?p" by (simp add: unat_div n(2))
  have x: "unat (e - ?b * n) = unat e mod ?p"
    using n(2) by (metis minus_div_mult_eq_mod unat_mod)
  have "unat ?b < 2 ^ 31"
  proof -
    have "unat e div ?p \<le> unat e div 2" using n(3) by (intro div_le_mono2) auto
    then show ?thesis unfolding ub using unsigned_less[of e, where 'a = nat] by simp
  qed
  then have b: "?b \<noteq> -1" by (auto simp: unsigned_minus_1_eq_mask mask_eq_exp_minus_1)
  have "\<exists>st'. (if ?b \<noteq> fatbufnum (fs st) then fat_load rd ?b st else Some (True, st)) = Some (True, st')
      \<and> fat_ready dok st' \<and> same_vol st st' \<and> cache_ok img cap st' \<and> fatbufnum (fs st') = ?b"
    using fat_load_ok[OF assms(1,2), of ?b] assms(1,2,4) unfolding ub by auto
  then obtain st' where st': "(if ?b \<noteq> fatbufnum (fs st) then fat_load rd ?b st else Some (True, st)) = Some (True, st')"
      "fat_ready dok st'" "same_vol st st'" "cache_ok img cap st'" "fatbufnum (fs st') = ?b" by blast
  note sv = same_volD[OF st'(3)]
  have t: "take 3072 (fatbuf (fs st')) = sectors img (table_at st + 6 * unat ?b) 6" "table_at st + 6 * unat ?b + 6 \<le> cap"
    using st'(4,5) b sv by (auto simp: cache_ok_def)
  have il: "length (img k) = 512" for k using img_length st'(2) by (auto simp: fat_ready_def)
  have tl: "length (fat_table img cap st) = 512 * (cap - table_at st)" unfolding fat_table_def by (rule length_sectors) (rule il)
  have T: "take 3072 (fatbuf (fs st')) = bslice (3072 * unat ?b) 3072 (fat_table img cap st)"
    using bslice_table_sector[of img "6 * unat ?b" 6 "cap - table_at st" 0 3072 "table_at st"] t il
      length_sectors[of 6 img "table_at st + 6 * unat ?b"] by (simp add: fat_table_def)
  have "fat_ent ?fsz (fatbuf (fs st')) (unat e mod ?p) = Some (ent ?fsz (fat_table img cap st) (?p * unat ?b + unat e mod ?p))"
    using st'(4) T tl t(2) assms(3) n(3) by (intro fat_ent_cached) (auto simp: cache_ok_def)
  then show ?thesis using st' sv n x ub by (auto simp: get_fatent_def)
qed

end

end
