(* ===== verification/FatFile.thy ===== *)
theory FatFile
  imports FatOk
begin

text \<open>
  The contents of a file. A chain of clusters is a list of them in which each is the entry of the one before in the table; the contents are
  the bytes of its clusters, cut at the size. \<^verbatim>\<open>get_contents\<close> reads them by runs of consecutive clusters.
\<close>

section \<open>Clusters\<close>

definition clust_at :: "'s fat \<Rightarrow> u32 \<Rightarrow> nat" where
  "clust_at st c = unat (clust_sect (fs st) c + part_offset (f_vars st))"

definition sects_per_clust :: "'s fat \<Rightarrow> nat" where "sects_per_clust st = unat (clust_size (fs st))"

definition cluster_bytes :: "(nat \<Rightarrow> byte list) \<Rightarrow> 's fat \<Rightarrow> u32 \<Rightarrow> byte list" where
  "cluster_bytes img st c = sectors img (clust_at st c) (sects_per_clust st)"

fun fat_chain :: "int \<Rightarrow> byte list \<Rightarrow> u32 list \<Rightarrow> bool" where
  "fat_chain fsz T (c # d # cs) \<longleftrightarrow> ent fsz T (unat c) = d \<and> \<not> CHECK_CLUST d fsz \<and> fat_chain fsz T (d # cs)"
| "fat_chain fsz T _ \<longleftrightarrow> True"

text \<open>A cluster that lies on the disk, with its entry in the table.\<close>

definition clust_ok :: "nat \<Rightarrow> 's fat \<Rightarrow> u32 \<Rightarrow> bool" where
  "clust_ok cap st c \<longleftrightarrow> 0 < c \<and> clust_at st c + sects_per_clust st \<le> cap
     \<and> table_at st + 6 * (unat c div fat_per_block (fatsize (fs st))) + 6 \<le> cap"

fun contig :: "u32 list \<Rightarrow> bool" where
  "contig (c # d # cs) \<longleftrightarrow> d = c + 1 \<and> contig (d # cs)"
| "contig _ \<longleftrightarrow> True"

lemma sint_small: "n < 2 ^ 31 \<Longrightarrow> sint (of_nat n :: u32) = int n"
  by (simp add: signed_of_nat signed_take_bit_int_eq_self)

lemma fat_chain_append:
  "fat_chain fsz T (e # ys @ z # zs) \<Longrightarrow> ent fsz T (unat (last (e # ys))) = z \<and> \<not> CHECK_CLUST z fsz \<and> fat_chain fsz T (z # zs)"
  by (induction ys arbitrary: e) auto

lemma same_vol_clust:
  assumes "same_vol st st'"
  shows "clust_at st' c = clust_at st c" "sects_per_clust st' = sects_per_clust st" "cluster_bytes img st' = cluster_bytes img st"
    "clust_ok cap st' = clust_ok cap st" "clust_sect (fs st') c = clust_sect (fs st) c"
  using same_volD[OF assms] by (auto simp: clust_at_def sects_per_clust_def cluster_bytes_def clust_ok_def clust_sect_def fun_eq_iff)

lemma clust_next:
  assumes "clust_at st c + sects_per_clust st < 2 ^ 32" "0 < c" "0 < c + 1"
  shows "clust_at st (c + 1) = clust_at st c + sects_per_clust st"
proof -
  let ?x = "clust_sect (fs st) c + part_offset (f_vars st)" and ?y = "ucast (clust_size (fs st)) :: u32"
  have e: "clust_sect (fs st) (c + 1) + part_offset (f_vars st) = ?x + ?y"
    using assms(2,3) by (simp add: clust_sect_def algebra_simps)
  have y: "unat ?y = sects_per_clust st"
    using unsigned_less[of "clust_size (fs st)", where 'a = nat] by (simp add: sects_per_clust_def unsigned_ucast_eq take_bit_nat_eq_self)
  have "unat (?x + ?y) = unat ?x + unat ?y"
    using assms(1) y by (subst unat_add_lem[THEN iffD1]) (simp_all add: clust_at_def)
  then show ?thesis unfolding y by (simp add: clust_at_def e)
qed

lemma contig_bytes:
  assumes "contig (c # cs)" "\<forall>d\<in>set (c # cs). clust_ok cap st d" "cap < 2 ^ 31"
  shows "clust_at st (last (c # cs)) = clust_at st c + sects_per_clust st * length cs
    \<and> concat (map (cluster_bytes img st) (c # cs)) = sectors img (clust_at st c) (sects_per_clust st * (length cs + 1))"
  using assms(1,2)
proof (induction cs arbitrary: c)
  case (Cons d cs)
  have d: "d = c + 1" using Cons.prems by simp
  have "clust_at st d = clust_at st c + sects_per_clust st"
    unfolding d using Cons.prems assms(3) by (intro clust_next) (auto simp: clust_ok_def d)
  moreover have "clust_at st (last (d # cs)) = clust_at st d + sects_per_clust st * length cs"
    "concat (map (cluster_bytes img st) (d # cs)) = sectors img (clust_at st d) (sects_per_clust st * (length cs + 1))"
    using Cons.IH[of d] Cons.prems by auto
  moreover have "sectors img (clust_at st c) (sects_per_clust st * (length (d # cs) + 1))
      = cluster_bytes img st c @ sectors img (clust_at st c + sects_per_clust st) (sects_per_clust st * (length cs + 1))"
    using sectors_add[of img "clust_at st c" "sects_per_clust st"] by (simp add: cluster_bytes_def)
  ultimately show ?case by simp
qed (simp add: cluster_bytes_def)

lemma take_sectors: "n \<le> 512 * m \<Longrightarrow> m \<le> k \<Longrightarrow> (\<And>i. length (d i) = 512) \<Longrightarrow> take n (sectors d a m) = take n (sectors d a k)"
  using sectors_add[of d a m "k - m"] length_sectors[of m d a] by simp

context fat_disk begin

lemma img512: "fat_ready dok st \<Longrightarrow> length (img k) = 512"
  using img_length by (auto simp: fat_ready_def)

lemma get_cluster_ok:
  assumes "fat_ready dok st" "clust_at st c + nsect (unat sz) \<le> cap" "off + unat sz \<le> length buf" "unat sz < 2 ^ 31"
  shows "\<exists>d. get_cluster rd c buf off sz st
      = Some (0, patch off (take (unat sz) (sectors img (clust_at st c) (nsect (unat sz)))) buf, st\<lparr>f_dev := d\<rparr>) \<and> dok d"
proof -
  define q m where "q = unat (sz div 512)" and "m = unat (sz mod 512)"
  have qm: "q = unat sz div 512" "m = unat sz mod 512" by (simp_all add: q_def m_def unat_div unat_mod)
  have sz: "unat sz = 512 * q + m" "m < 512" by (simp_all add: qm)
  have n: "nsect (unat sz) = (if m = 0 then q else q + 1)" using sz by (auto simp: nsect_def)
  have L: "length (sectors img a k) = 512 * k" for a k by (rule length_sectors) (rule img512[OF assms(1)])
  have a: "unat (clust_sect (fs st) c + part_offset (f_vars st)) + unat (sz div 512) \<le> cap"
    using assms(2) n by (simp add: clust_at_def q_def split: if_splits)
  obtain d1 where d1: "read_to rd (clust_sect (fs st) c) (sz div 512) buf off st
      = Some (1, patch off (sectors img (clust_at st c) q) buf, st\<lparr>f_dev := d1\<rparr>)" "dok d1"
    using read_to_ok[OF assms(1) a, of off buf] assms(3,4) sz by (auto simp: q_def[symmetric] clust_at_def)
  show ?thesis
  proof (cases "sz mod 512 = 0")
    case True
    then have "m = 0" by (simp add: m_def)
    then show ?thesis using d1 True n sz L by (auto simp: get_cluster_def)
  next
    case False
    then have m: "m \<noteq> 0" by (simp add: m_def unat_eq_0)
    have r1: "fat_ready dok (st\<lparr>f_dev := d1\<rparr>)" using assms(1) d1(2) by (simp add: fat_ready_def)
    let ?s = "clust_sect (fs st) c + sz div 512"
    have e: "unat (?s + part_offset (f_vars st)) = clust_at st c + q"
    proof -
      have "clust_at st c + q < 2 ^ 32" using assms(2) n m cap_bound by simp
      then have "unat ((clust_sect (fs st) c + part_offset (f_vars st)) + sz div 512) = clust_at st c + q"
        by (subst unat_add_lem[THEN iffD1]) (simp_all add: clust_at_def q_def)
      then show ?thesis by (simp add: algebra_simps)
    qed
    obtain d2 where d2: "disk_read rd ?s 1 (stack_buf 512) (st\<lparr>f_dev := d1\<rparr>) = Some (1, img (clust_at st c + q), st\<lparr>f_dev := d2\<rparr>)" "dok d2"
      using disk_read_ok[OF r1, of ?s 1 "stack_buf 512"] e assms(2) n m img512[OF assms(1)] by (auto simp: patch_def)
    have st: "store (off + 512 * q) (take m (img (clust_at st c + q))) (patch off (sectors img (clust_at st c) q) buf)
        = Some (patch off (sectors img (clust_at st c) q @ take m (img (clust_at st c + q))) buf)"
      using patch_append[of off "sectors img (clust_at st c) q" "take m (img (clust_at st c + q))" buf] assms(3) sz L img512[OF assms(1)] by simp
    have "take (unat sz) (sectors img (clust_at st c) (q + 1)) = sectors img (clust_at st c) q @ take m (img (clust_at st c + q))"
      using sectors_add[of img "clust_at st c" q 1] sz L by simp
    then show ?thesis using d1 d2 st n m False by (simp add: get_cluster_def q_def[symmetric] m_def[symmetric]) blast
  qed
qed

lemma get_fatent_chain:
  assumes "fat_ready dok st" "cache_ok img cap st" "fatsize (fs st) \<in> {12, 16, 32}" "clust_ok cap st c"
  obtains st' where "get_fatent rd c st = Some (ent (fatsize (fs st)) (fat_table img cap st) (unat c), st')"
    "fat_ready dok st'" "same_vol st st'" "cache_ok img cap st'"
  using get_fatent_ok[OF assms(1-3)] assms(4) by (auto simp: clust_ok_def)

section \<open>Runs of clusters\<close>

text \<open>The search goes through the consecutive clusters \<open>ys\<close> at the start of the chain.\<close>

lemma cluster_run_ok:
  assumes "fat_ready dok st" "cache_ok img cap st" "fatsize (fs st) \<in> {12, 16, 32}" "\<forall>c\<in>set (e # cs). clust_ok cap st c"
    and "fat_chain (fatsize (fs st)) (fat_table img cap st) (e # cs)"
    and "F \<le> b * (k + length cs)" "cs = [] \<or> b * (k + length cs - 1) < F" "F + b < 2 ^ 32" "b * k < F + b"
  shows "\<exists>ys zs st'. cs = ys @ zs \<and> contig (e # ys) \<and> fat_ready dok st' \<and> cache_ok img cap st' \<and> same_vol st st'
    \<and> cluster_run rd (of_nat b) (of_nat F) e (of_nat (b * k)) st
        = Some (if zs = [] then Whole else Getit, last (e # ys), of_nat (b * (k + length ys)), st')"
  using assms
proof (induction cs arbitrary: e k st)
  case Nil
  have "\<not> (of_nat (b * k) :: u32) < of_nat F"
    using Nil.prems(6,8,9) by (simp add: word_less_nat_alt unat_of_nat32 del: of_nat_mult)
  then have "cluster_run rd (of_nat b) (of_nat F) e (of_nat (b * k)) st = Some (Whole, e, of_nat (b * k), st)"
    by (subst cluster_run.simps) simp
  then show ?case using Nil.prems by (intro exI[of _ "[]"] exI[of _ st]) simp
next
  case (Cons d cs)
  have lt: "b * k < F" using Cons.prems(7) by (auto intro: le_less_trans[of _ "b * (k + length cs)"])
  then have less: "(of_nat (b * k) :: u32) < of_nat F"
    using Cons.prems(8) by (simp add: word_less_nat_alt unat_of_nat32 del: of_nat_mult)
  obtain st1 where g: "get_fatent rd e st = Some (d, st1)" "fat_ready dok st1" "same_vol st st1" "cache_ok img cap st1"
    using get_fatent_chain[OF Cons.prems(1-3), of e] Cons.prems(4,5) by auto
  note sv = same_volD[OF g(3)] same_vol_clust[OF g(3)]
  show ?case
  proof (cases "d = e + 1")
    case False
    then have "d - 1 \<noteq> e" by (auto simp: algebra_simps)
    then have "cluster_run rd (of_nat b) (of_nat F) e (of_nat (b * k)) st = Some (Getit, e, of_nat (b * k), st1)"
      using less g(1) by (subst cluster_run.simps) simp
    then show ?thesis using g by (intro exI[of _ "[]"] exI[of _ "d # cs"] exI[of _ st1]) simp
  next
    case True
    have ck: "\<not> CHECK_CLUST d (fatsize (fs st1))" using Cons.prems(5) sv by simp
    have step: "cluster_run rd (of_nat b) (of_nat F) e (of_nat (b * k)) st
        = cluster_run rd (of_nat b) (of_nat F) d (of_nat (b * (k + 1))) st1"
      using less g(1) True ck by (subst cluster_run.simps) (simp add: algebra_simps)
    have k1: "F \<le> b * (k + 1 + length cs)" "cs = [] \<or> b * (k + 1 + length cs - 1) < F" "b * (k + 1) < F + b"
      using Cons.prems(6,7) lt by (auto simp: algebra_simps)
    obtain ys zs st' where r: "cs = ys @ zs" "contig (d # ys)" "fat_ready dok st'" "cache_ok img cap st'" "same_vol st1 st'"
        "cluster_run rd (of_nat b) (of_nat F) d (of_nat (b * (k + 1))) st1
          = Some (if zs = [] then Whole else Getit, last (d # ys), of_nat (b * (k + 1 + length ys)), st')"
      using Cons.IH[OF g(2,4), of d "k + 1"] Cons.prems(3-5,8) k1 sv by auto
    show ?thesis
      using r step True same_vol_trans[OF g(3) r(5)]
      by (intro exI[of _ "d # ys"] exI[of _ zs] exI[of _ st']) (simp add: algebra_simps)
  qed
qed

lemma contents_loop_ok:
  assumes "fat_ready dok st" "cache_ok img cap st" "fatsize (fs st) \<in> {12, 16, 32}" "\<forall>c\<in>set (e # cs). clust_ok cap st c"
    and "fat_chain (fatsize (fs st)) (fat_table img cap st) (e # cs)"
    and "b = 512 * sects_per_clust st" "F \<le> b * (1 + length cs)" "cs = [] \<or> b * length cs < F" "got + F < 2 ^ 31" "off + F \<le> length buf"
  shows "\<exists>st'. contents_loop rd (of_nat b) (of_nat F) (of_nat got) e buf off st
      = Some (int (got + F), patch off (take F (concat (map (cluster_bytes img st) (e # cs)))) buf, st')"
  using assms
proof (induction cs arbitrary: e F got off buf st rule: length_induct)
  case (1 cs)
  note p = "1.prems"
  have b31: "b < 2 ^ 26" using unsigned_less[of "clust_size (fs st)", where 'a = nat] by (simp add: p(6) sects_per_clust_def)
  have "F + b < 2 ^ 32" "b * 1 < F + b \<or> F = 0 \<and> cs = []" using p(7,8,9) b31 by auto
  moreover have "b * 1 \<le> F + b" by simp
  have "\<exists>ys zs st'. cs = ys @ zs \<and> contig (e # ys) \<and> fat_ready dok st' \<and> cache_ok img cap st' \<and> same_vol st st'
      \<and> cluster_run rd (of_nat b) (of_nat F) e (of_nat (b * 1)) st
        = Some (if zs = [] then Whole else Getit, last (e # ys), of_nat (b * (1 + length ys)), st')"
  proof (cases "F = 0")
    case True
    then have cs: "cs = []" using p(8) by simp
    have "cluster_run rd (of_nat b) (of_nat F) e (of_nat (b * 1)) st = Some (Whole, e, of_nat b, st)"
      using True by (subst cluster_run.simps) simp
    then show ?thesis using p cs by (intro exI[of _ "[]"] exI[of _ st]) simp
  next
    case False
    then show ?thesis using p calculation(1) by (intro cluster_run_ok) auto
  qed
  then obtain ys zs st1 where run: "cs = ys @ zs" "contig (e # ys)" "fat_ready dok st1" "cache_ok img cap st1" "same_vol st st1"
      "cluster_run rd (of_nat b) (of_nat F) e (of_nat b) st
        = Some (if zs = [] then Whole else Getit, last (e # ys), of_nat (b * (1 + length ys)), st1)" by auto
  note sv = same_volD[OF run(5)] same_vol_clust[OF run(5)]
  have ok: "\<forall>c\<in>set (e # ys). clust_ok cap st c" using p(4) run(1) by auto
  have cb: "clust_at st (last (e # ys)) = clust_at st e + sects_per_clust st * length ys"
    "concat (map (cluster_bytes img st) (e # ys)) = sectors img (clust_at st e) (sects_per_clust st * (length ys + 1))"
    using contig_bytes[OF run(2) ok cap_bound] by blast+
  have lastok: "clust_ok cap st (last (e # ys))" using ok last_in_set[of "e # ys"] by blast
  then have fits: "clust_at st e + sects_per_clust st * (length ys + 1) \<le> cap" using cb(1) by (simp add: clust_ok_def algebra_simps)
  have il: "length (img i) = 512" for i by (rule img512[OF p(1)])
  have L: "length (sectors img a k) = 512 * k" for a k by (rule length_sectors) (rule il)
  show ?case
  proof (cases "zs = []")
    case True
    define A where "A = b * length ys"
    have cs: "cs = ys" using True run(1) by simp
    have A: "A \<le> F" "F - A \<le> b" using p(7,8) cs by (auto simp: A_def algebra_simps)
    have uA: "unat (of_nat A :: u32) = A" "unat (of_nat (F - A) :: u32) = F - A"
      by (rule unat_of_nat32, use A(1) p(9) in simp)+
    have nA: "nsect A = sects_per_clust st * length ys"
      using nsect_exact[of "sects_per_clust st * length ys"] by (simp only: A_def p(6) mult.assoc)
    have nB: "nsect (F - A) \<le> sects_per_clust st" using A(2) by (auto simp: nsect_def p(6))
    have lA: "length (sectors img (clust_at st e) (nsect A)) = A" unfolding nA L by (simp add: A_def p(6))
    obtain d1 where d1: "get_cluster rd e buf off (of_nat A) st1 = Some (0, patch off (sectors img (clust_at st e) (nsect A)) buf, st1\<lparr>f_dev := d1\<rparr>)" "dok d1"
      using get_cluster_ok[OF run(3), of e "of_nat A" off buf] fits A(1) p(9,10) sv lA unfolding uA nA by auto
    have r2: "fat_ready dok (st1\<lparr>f_dev := d1\<rparr>)" using run(3) d1(2) by (simp add: fat_ready_def)
    have e2: "clust_at (st1\<lparr>f_dev := d1\<rparr>) = clust_at st" using sv by (simp add: clust_at_def fun_eq_iff)
    have fA: "F - A < 2 ^ 31" using p(9) by simp
    let ?tail = "take (F - A) (sectors img (clust_at st (last (e # ys))) (nsect (F - A)))"
    obtain d2 where d2: "get_cluster rd (last (e # ys)) (patch off (sectors img (clust_at st e) (nsect A)) buf) (off + A) (of_nat (F - A)) (st1\<lparr>f_dev := d1\<rparr>)
        = Some (0, patch (off + A) ?tail (patch off (sectors img (clust_at st e) (nsect A)) buf), st1\<lparr>f_dev := d2\<rparr>)"
      using get_cluster_ok[OF r2, of "last (e # ys)" "of_nat (F - A)" "off + A" "patch off (sectors img (clust_at st e) (nsect A)) buf"]
        lastok nB A(1) fA p(10) lA unfolding uA e2 clust_ok_def by auto
    have "?tail = take (F - A) (cluster_bytes img st (last (e # ys)))"
      unfolding cluster_bytes_def by (rule take_sectors) (use nB il in \<open>auto simp: nsect_def\<close>)
    moreover have "sectors img (clust_at st e) (sects_per_clust st * (length ys + 1))
        = sectors img (clust_at st e) (nsect A) @ sectors img (clust_at st (last (e # ys))) (sects_per_clust st)"
      unfolding nA cb(1) distrib_left mult_1_right by (rule sectors_add)
    ultimately have "sectors img (clust_at st e) (nsect A) @ ?tail = take F (concat (map (cluster_bytes img st) (e # ys)))"
      unfolding cb(2) using lA A(1) by (simp add: cluster_bytes_def)
    moreover have "patch (off + A) ?tail (patch off (sectors img (clust_at st e) (nsect A)) buf)
        = patch off (sectors img (clust_at st e) (nsect A) @ ?tail) buf"
      using patch_append[of off "sectors img (clust_at st e) (nsect A)" ?tail buf] lA A(1) p(10) L by simp
    moreover have "sint (of_nat got + of_nat A + of_nat (F - A) :: u32) = int (got + F)"
    proof -
      have "(of_nat got + of_nat A + of_nat (F - A) :: u32) = of_nat (got + F)" unfolding of_nat_add[symmetric] using A(1) by simp
      then show ?thesis using p(9) by (simp only: sint_small)
    qed
    moreover have "(of_nat b * (1 + of_nat (length ys)) - of_nat b :: u32) = of_nat A" by (simp add: A_def algebra_simps)
    moreover have "(of_nat F - of_nat A :: u32) = of_nat (F - A)" using A(1) by simp
    ultimately show ?thesis
      using run(6) True d1(1) d2 cs uA by (subst contents_loop.simps) (simp add: algebra_simps)
  next
    case False
    then obtain z zs' where zs: "zs = z # zs'" by (cases zs) auto
    define A where "A = b * (1 + length ys)"
    have A: "A < F" using p(8) run(1) zs by (auto simp: A_def algebra_simps intro: le_less_trans)
    have uA: "unat (of_nat A :: u32) = A" by (rule unat_of_nat32) (use A p(9) in simp)
    have nA: "nsect A = sects_per_clust st * (length ys + 1)"
      using nsect_exact[of "sects_per_clust st * (length ys + 1)"] by (simp only: A_def p(6) mult.assoc add.commute)
    let ?data = "concat (map (cluster_bytes img st) (e # ys))"
    have lA: "length ?data = A" unfolding cb(2) using L by (simp add: A_def p(6))
    obtain d1 where d1: "get_cluster rd e buf off (of_nat A) st1 = Some (0, patch off ?data buf, st1\<lparr>f_dev := d1\<rparr>)" "dok d1"
      using get_cluster_ok[OF run(3), of e "of_nat A" off buf] fits nA A p(9,10) sv lA unfolding uA cb(2) by auto
    let ?st1 = "st1\<lparr>f_dev := d1\<rparr>"
    have r2: "fat_ready dok ?st1" "cache_ok img cap ?st1" using run(3,4) d1(2) by (simp_all add: fat_ready_def cache_ok_def table_at_def)
    have sv1: "same_vol st ?st1" using same_vol_trans[OF run(5) same_vol_dev] .
    note sv' = same_volD[OF sv1] same_vol_clust[OF sv1]
    have ch: "ent (fatsize (fs st)) (fat_table img cap st) (unat (last (e # ys))) = z" "\<not> CHECK_CLUST z (fatsize (fs st))"
        "fat_chain (fatsize (fs st)) (fat_table img cap st) (z # zs')"
      using fat_chain_append p(5) unfolding run(1) zs by blast+
    have f3: "fatsize (fs ?st1) \<in> {12, 16, 32}" "clust_ok cap ?st1 (last (e # ys))" using p(3) lastok unfolding sv' .
    obtain st2 where g: "get_fatent rd (last (e # ys)) ?st1 = Some (z, st2)" "fat_ready dok st2" "same_vol ?st1 st2" "cache_ok img cap st2"
      using get_fatent_chain[OF r2 f3] ch(1) unfolding sv' by blast
    have sv2: "same_vol st st2" using same_vol_trans[OF sv1 g(3)] .
    note s2 = same_volD[OF sv2] same_vol_clust[OF sv2]
    have "length zs' < length cs" using run(1) zs by simp
    moreover have "F - A \<le> b * (1 + length zs')" using p(7) run(1) zs by (simp add: A_def algebra_simps)
    moreover have "zs' = [] \<or> b * length zs' < F - A" using p(8) run(1) zs by (auto simp: A_def algebra_simps)
    moreover have "got + A + (F - A) < 2 ^ 31" "off + A + (F - A) \<le> length (patch off ?data buf)" using A p(9,10) lA by auto
    moreover have "\<forall>c\<in>set (z # zs'). clust_ok cap st c" using p(4) run(1) zs by auto
    ultimately obtain st3 where st3: "contents_loop rd (of_nat b) (of_nat (F - A)) (of_nat (got + A)) z (patch off ?data buf) (off + A) st2
        = Some (int (got + A + (F - A)), patch (off + A) (take (F - A) (concat (map (cluster_bytes img st) (z # zs')))) (patch off ?data buf), st3)"
      using "1.IH"[rule_format, of zs' st2 z "F - A" "got + A" "off + A" "patch off ?data buf"] g p(3,6) ch(3) unfolding s2 by blast
    have "patch (off + A) (take (F - A) (concat (map (cluster_bytes img st) (z # zs')))) (patch off ?data buf)
        = patch off (?data @ take (F - A) (concat (map (cluster_bytes img st) (z # zs')))) buf"
      using patch_append[of off ?data "take (F - A) (concat (map (cluster_bytes img st) (z # zs')))" buf] lA A p(10) by simp
    moreover have "?data @ take (F - A) (concat (map (cluster_bytes img st) (z # zs'))) = take F (concat (map (cluster_bytes img st) (e # cs)))"
      using lA A by (simp add: run(1) zs)
    moreover have run6: "cluster_run rd (of_nat b) (of_nat F) e (of_nat b) st = Some (Getit, last (e # ys), of_nat A, st1)"
      using run(6) False by (simp only: A_def if_False)
    moreover have ck: "\<not> CHECK_CLUST z (fatsize (fs st2))" using ch(2) unfolding s2 .
    moreover have "(of_nat F - of_nat A :: u32) = of_nat (F - A)" "(of_nat got + of_nat A :: u32) = of_nat (got + A)" "got + A + (F - A) = got + F"
      using A by simp_all
    ultimately show ?thesis
      using d1(1) g(1) st3 by (subst contents_loop.simps) (simp add: uA del: of_nat_mult of_nat_add of_nat_diff)
  qed
qed

end

end
