(* ===== verification/FatRead.thy ===== *)
theory FatRead
  imports FatFile
begin

text \<open>
  Reading a file of the root directory: the reference lookup in the list of directory entries, the root directory in its sectors, and the
  whole of \<^verbatim>\<open>file_fat_read\<close> on any disk, with the driver of the eMMC as one.
\<close>

section \<open>The reference\<close>

text \<open>The volume a boot sector describes.\<close>

definition fat_detect :: "byte list \<Rightarrow> (boot_sector \<times> int) option" where
  "fat_detect b =
     (let bs = boot_fields b; sign = bslice 18 8 (bslice (if fat_length bs = 0 then 64 else 36) 27 b) in
      if fat_length bs = 0 then if sign = FAT32_SIGN then Some (bs, 32) else None
      else if sign = FAT12_SIGN then Some (bs, 12)
      else if sign = FAT16_SIGN then Some (bs, 16)
      else None)"

definition sector_entries :: "byte list \<Rightarrow> byte list list" where
  "sector_entries b = map (\<lambda>i. bslice (32 * i) 32 b) [0..<16]"

text \<open>The first entry with the name; labels are passed over and an entry without a name ends the directory.\<close>

fun root_find :: "byte list \<Rightarrow> byte list list \<Rightarrow> search" where
  "root_find name [] = More"
| "root_find name (d # ds) =
     (if is_volume d then root_find name ds
      else if d ! 0 = 0 then Stop (-1)
      else if get_name d = name then Match d
      else root_find name ds)"

lemma root_find_append: "root_find name (xs @ ys) = (if root_find name xs = More then root_find name ys else root_find name xs)"
  by (induction xs) auto

lemma get_name_no_nul: "0 \<notin> set (get_name d)"
proof -
  have u: "0 \<notin> set (upto_blank xs)" for xs by (auto simp: upto_blank_def dest: set_takeWhileD)
  have d: "0 \<notin> set (downcase xs)" if "0 \<notin> set xs" for xs
  proof -
    have "TOLOWER c \<noteq> 0" if "c \<noteq> 0" for c
    proof
      assume "TOLOWER c = 0"
      then have "0x41 \<le> c" "c \<le> 0x5A" "c + 0x20 = 0" using that by (auto simp: TOLOWER_def split: if_splits)
      moreover have "c = - 0x20" using \<open>c + 0x20 = 0\<close> by (simp add: eq_neg_iff_add_eq_0)
      ultimately show False by simp
    qed
    then show ?thesis using that unfolding downcase_def by (metis imageE list.set_map)
  qed
  have m: "0 \<notin> set (unmark xs)" if "0 \<notin> set xs" for xs using that by (auto simp: unmark_def split: list.splits)
  show ?thesis unfolding get_name_def Let_def using u by (intro d m) auto
qed

lemma has_name_root: "0 \<notin> set name \<Longrightarrow> name \<noteq> [] \<Longrightarrow> has_name name (get_name d) [] \<longleftrightarrow> get_name d = name"
  using strcmp_s_zero[of name "get_name d"] strcmp_s_zero[of name "[]"] get_name_no_nul[of d] by (auto simp: has_name_def)

lemma detect_read:
  assumes "disk_read rd 0 1 (stack_buf 512) st = Some (1, b, st')" "fat_detect b = Some (bs, fsz)"
  shows "\<exists>vi. read_bootsectandvi rd st = Some (0, bs, fsz, vi, st')"
proof -
  have c: "compare_sign x y = 0 \<longleftrightarrow> y = x" if "length x = 8" "length y = 8" for x y using that by (auto simp: compare_sign_def SIGNLEN_def)
  show ?thesis
  proof (cases "26 \<le> length (bslice (if fat_length (boot_fields b) = 0 then 64 else 36) 27 b)")
    case True
    then have "length (bslice 18 8 (bslice (if fat_length (boot_fields b) = 0 then 64 else 36) 27 b)) = 8" by simp
    then show ?thesis using assms c
      by (auto simp: read_bootsectandvi_def fat_detect_def Let_def FAT32_SIGN_def FAT12_SIGN_def FAT16_SIGN_def split: if_splits)
  next
    case False
    then have "length (bslice 18 8 (bslice (if fat_length (boot_fields b) = 0 then 64 else 36) 27 b)) \<noteq> 8" by (auto simp: bslice_def)
    then have "fat_detect b = None" by (auto simp: fat_detect_def Let_def FAT32_SIGN_def FAT12_SIGN_def FAT16_SIGN_def split: if_splits)
    then show ?thesis using assms(2) by simp
  qed
qed

section \<open>The root directory\<close>

lemma root_step_ok:
  assumes "load (32 * i) 32 (do_fat_read_block st) = Some d" "is_volume d \<longrightarrow> \<not> is_slot d" "0 \<notin> set name" "name \<noteq> []"
  shows "root_step rd name LS_NO False i l st = Some (root_find name [d], l, st)"
  using assms has_name_root[OF assms(3,4), of d] by (auto simp: root_step_def LS_NO_def LS_ROOT_def)

lemma root_entries_ok:
  assumes "\<forall>j < k. load (32 * (i + j)) 32 (do_fat_read_block st) = Some (ds ! j)" "length ds = k"
    and "\<forall>d\<in>set ds. is_volume d \<longrightarrow> \<not> is_slot d" "0 \<notin> set name" "name \<noteq> []"
  shows "root_entries rd name LS_NO False k i l st = Some (root_find name ds, l, st)"
  using assms
proof (induction k arbitrary: i ds)
  case (Suc k)
  obtain d es where ds: "ds = d # es" using Suc.prems(2) by (cases ds) auto
  have "load (32 * i) 32 (do_fat_read_block st) = Some d" using Suc.prems(1)[rule_format, of 0] ds by simp
  then have s: "root_step rd name LS_NO False i l st = Some (root_find name [d], l, st)"
    using Suc.prems(3-5) ds by (intro root_step_ok) auto
  have "\<forall>j<k. load (32 * (i + 1 + j)) 32 (do_fat_read_block st) = Some (es ! j)"
    using Suc.prems(1)[rule_format, of "Suc _"] ds by simp
  then have "root_entries rd name LS_NO False k (i + 1) l st = Some (root_find name es, l, st)"
    using Suc.prems(2-5) ds by (intro Suc.IH) auto
  then show ?case using s root_find_append[of name "[d]" es] by (auto simp: ds)
qed simp

context fat_disk begin

lemma root_loop_ok:
  assumes "fat_ready dok st" "root_find name (concat (map (\<lambda>n. sector_entries (img n)) [R..<R + m])) = r" "r \<noteq> More"
    and "\<forall>n\<in>{R..<R + m}. \<forall>d\<in>set (sector_entries (img n)). is_volume d \<longrightarrow> \<not> is_slot d"
    and "R = unat (cursect + part_offset (f_vars st))" "R + m + unat (clust_size (fs st)) \<le> cap"
    and "fatsize (fs st) = 32 \<longrightarrow> unat j + m \<le> unat (clust_size (fs st))"
    and "length (do_fat_read_block st) = 65536" "0 < unat (clust_size (fs st))" "unat (clust_size (fs st)) \<le> 128" "0 \<notin> set name" "name \<noteq> []"
  shows "\<exists>bl d. root_loop rd name LS_NO False cursect rc j l st = Some (r, st\<lparr>f_dev := d, do_fat_read_block := bl\<rparr>) \<and> dok d"
  using assms
proof (induction m arbitrary: R cursect j st)
  case (Suc m)
  note p = Suc.prems
  let ?n = "ucast (clust_size (fs st)) :: u32"
  have n: "unat ?n = unat (clust_size (fs st))"
    using p(10) by (simp add: unsigned_ucast_eq take_bit_nat_eq_self)
  have il: "length (img k) = 512" for k by (rule img512[OF p(1)])
  obtain d where d: "disk_read rd cursect ?n (do_fat_read_block st) st
      = Some (1, patch 0 (sectors img R (unat ?n)) (do_fat_read_block st), st\<lparr>f_dev := d\<rparr>)" "dok d"
    using disk_read_ok[OF p(1), of cursect ?n "do_fat_read_block st"] p(6,8,10) n unfolding p(5)[symmetric] by auto
  define bl where "bl = patch 0 (sectors img R (unat ?n)) (do_fat_read_block st)"
  have L: "length (sectors img R (unat ?n)) = 512 * unat ?n" by (rule length_sectors) (rule il)
  have lb: "length bl = 65536" using p(8,10) L n by (simp add: bl_def)
  have first: "bslice (32 * i) 32 bl = bslice (32 * i) 32 (img R)" if "i < 16" for i
  proof -
    have "sectors img R (unat ?n) = img R @ sectors img (Suc R) (unat ?n - 1)"
      using sectors_Suc[of img R "unat ?n - 1"] p(9) n by simp
    then show ?thesis using that il by (simp add: bl_def patch_def bslice_append1)
  qed
  let ?st = "st\<lparr>f_dev := d, do_fat_read_block := bl\<rparr>"
  have e: "root_entries rd name LS_NO False DIRENTSPERBLOCK 0 l ?st = Some (root_find name (sector_entries (img R)), l, ?st)"
  proof (rule root_entries_ok)
    show "\<forall>j<DIRENTSPERBLOCK. load (32 * (0 + j)) 32 (do_fat_read_block ?st) = Some (sector_entries (img R) ! j)"
      using lb first by (simp add: DIRENTSPERBLOCK_def FS_BLOCK_SIZE_def sector_entries_def)
    show "length (sector_entries (img R)) = DIRENTSPERBLOCK" by (simp add: sector_entries_def DIRENTSPERBLOCK_def FS_BLOCK_SIZE_def)
    show "\<forall>d\<in>set (sector_entries (img R)). is_volume d \<longrightarrow> \<not> is_slot d" using p(4) by auto
  qed (use p in auto)
  have split: "concat (map (\<lambda>n. sector_entries (img n)) [R..<R + Suc m])
      = sector_entries (img R) @ concat (map (\<lambda>n. sector_entries (img n)) [Suc R..<Suc R + m])"
    by (simp add: upt_conv_Cons del: upt_Suc)
  show ?case
  proof (cases "root_find name (sector_entries (img R)) = More")
    case False
    then show ?thesis using d e p(2) unfolding split root_find_append
      by (subst root_loop.simps) (auto simp: bl_def[symmetric])
  next
    case True
    have r': "root_find name (concat (map (\<lambda>n. sector_entries (img n)) [Suc R..<Suc R + m])) = r"
      using p(2) True unfolding split root_find_append by simp
    then have m0: "m \<noteq> 0" using p(3) by (metis add.right_neutral concat.simps(1) list.map(1) root_find.simps(1) upt_rec less_irrefl)
    have nj: "\<not> (fatsize (fs st) = 32 \<and> j + 1 = ?n)"
    proof
      assume a: "fatsize (fs st) = 32 \<and> j + 1 = ?n"
      then have "unat j + Suc m \<le> unat (clust_size (fs st))" using p(7) by simp
      moreover have "unat (j + 1) \<le> unat j + 1" by (simp add: unat_word_ariths)
      ultimately show False using a n m0 by simp
    qed
    have R1: "Suc R = unat (cursect + 1 + part_offset (f_vars ?st))"
    proof -
      have "R + 1 < 2 ^ 32" using p(6) cap_bound by simp
      then have "unat (cursect + part_offset (f_vars st) + 1) = R + 1"
        using p(5) by (subst unat_add_lem[THEN iffD1]) auto
      then show ?thesis by (simp add: algebra_simps)
    qed
    have j1: "fatsize (fs ?st) = 32 \<longrightarrow> unat (if fatsize (fs st) = 32 then j + 1 else j) + m \<le> unat (clust_size (fs ?st))"
    proof
      assume f: "fatsize (fs ?st) = 32"
      then have "unat j + Suc m \<le> 128" "unat j + Suc m \<le> unat (clust_size (fs st))" using p(7,10) by auto
      moreover from this have "unat (j + 1) = unat j + 1" by (subst unat_add_lem[THEN iffD1]) auto
      ultimately show "unat (if fatsize (fs st) = 32 then j + 1 else j) + m \<le> unat (clust_size (fs ?st))" using f by simp
    qed
    have "\<exists>bl' d'. root_loop rd name LS_NO False (cursect + 1) rc (if fatsize (fs st) = 32 then j + 1 else j) l ?st
        = Some (r, ?st\<lparr>f_dev := d', do_fat_read_block := bl'\<rparr>) \<and> dok d'"
    proof (rule Suc.IH)
      show "fat_ready dok ?st" using p(1) d(2) by (simp add: fat_ready_def)
      show "root_find name (concat (map (\<lambda>n. sector_entries (img n)) [Suc R..<Suc R + m])) = r" by (rule r')
      show "\<forall>n\<in>{Suc R..<Suc R + m}. \<forall>d\<in>set (sector_entries (img n)). is_volume d \<longrightarrow> \<not> is_slot d" using p(4) by auto
      show "Suc R = unat (cursect + 1 + part_offset (f_vars ?st))" by (rule R1)
      show "fatsize (fs ?st) = 32 \<longrightarrow> unat (if fatsize (fs st) = 32 then j + 1 else j) + m \<le> unat (clust_size (fs ?st))" by (rule j1)
    qed (use p(3,6,9-12) lb in simp_all)
    then show ?thesis using d e True nj by (subst root_loop.simps) (auto simp: bl_def[symmetric])
  qed
qed simp

end

section \<open>The volume and its files\<close>

definition fat_volume :: "(nat \<Rightarrow> byte list) \<Rightarrow> 's fat \<Rightarrow> 's fat option" where
  "fat_volume img st = map_option (\<lambda>(bs, fsz). st\<lparr>fs := volume bs fsz (fatbuf (fs st))\<rparr>) (fat_detect (img (unat (part_offset (f_vars st)))))"

definition vol_ok :: "nat \<Rightarrow> 's fat \<Rightarrow> bool" where
  "vol_ok cap V \<longleftrightarrow> unat (part_offset (f_vars V)) < cap \<and> fatlength (fs V) \<noteq> 0 \<and> 0 < sects_per_clust V \<and> sects_per_clust V \<le> 128
     \<and> length (fatbuf (fs V)) = 12288 \<and> length (do_fat_read_block V) = 65536"

text \<open>The first \<open>m\<close> sectors of the root directory; it may hold labels, but no long names.\<close>

definition root_at :: "'s fat \<Rightarrow> nat" where "root_at V = unat (ucast (rootdir_sect (fs V)) + part_offset (f_vars V))"

definition root_dir :: "(nat \<Rightarrow> byte list) \<Rightarrow> 's fat \<Rightarrow> nat \<Rightarrow> byte list list" where
  "root_dir img V m = concat (map (\<lambda>n. sector_entries (img n)) [root_at V..<root_at V + m])"

definition root_ok :: "(nat \<Rightarrow> byte list) \<Rightarrow> nat \<Rightarrow> 's fat \<Rightarrow> nat \<Rightarrow> bool" where
  "root_ok img cap V m \<longleftrightarrow> root_at V + m + sects_per_clust V \<le> cap \<and> (fatsize (fs V) = 32 \<longrightarrow> m \<le> sects_per_clust V)
     \<and> (\<forall>d\<in>set (root_dir img V m). is_volume d \<longrightarrow> \<not> is_slot d)"

text \<open>The clusters \<open>cs\<close> hold the first \<open>n\<close> bytes of the file with the entry \<open>d\<close>.\<close>

definition fat_file :: "(nat \<Rightarrow> byte list) \<Rightarrow> nat \<Rightarrow> 's fat \<Rightarrow> byte list \<Rightarrow> u32 list \<Rightarrow> nat \<Rightarrow> bool" where
  "fat_file img cap V d cs n \<longleftrightarrow> cs \<noteq> [] \<and> hd cs = START (fatsize (fs V)) d \<and> fat_chain (fatsize (fs V)) (fat_table img cap V) cs
     \<and> (\<forall>c\<in>set cs. clust_ok cap V c) \<and> n \<le> 512 * sects_per_clust V * length cs
     \<and> (length cs = 1 \<or> 512 * sects_per_clust V * (length cs - 1) < n) \<and> n < 2 ^ 31"

definition plain_name :: "byte list \<Rightarrow> bool" where
  "plain_name name \<longleftrightarrow> name \<noteq> [] \<and> length name < 2048 \<and> (\<forall>c\<in>set name. c \<noteq> 0 \<and> \<not> ISDIRDELIM c)"

definition wanted :: "u32 \<Rightarrow> byte list \<Rightarrow> nat" where
  "wanted maxsize d = (if 0 < maxsize \<and> maxsize < d_size d then unat maxsize else unat (d_size d))"

lemma tolower_plain: "c \<noteq> 0 \<Longrightarrow> \<not> ISDIRDELIM c \<Longrightarrow> TOLOWER c \<noteq> 0 \<and> \<not> ISDIRDELIM (TOLOWER c)"
proof -
  assume c: "c \<noteq> 0" "\<not> ISDIRDELIM c"
  show ?thesis
  proof (cases "0x41 \<le> c \<and> c \<le> 0x5A")
    case True
    then have "65 \<le> unat c" "unat c \<le> 90" by (simp_all add: word_le_nat_alt)
    then have "unat (c + 0x20) = unat c + 32" by (subst unat_add_lem[THEN iffD1]) auto
    with \<open>65 \<le> unat c\<close> have u: "97 \<le> unat (c + 0x20)" by simp
    have "c + 0x20 \<noteq> 0" "c + 0x20 \<noteq> 0x2F" "c + 0x20 \<noteq> 0x5C" using u by (auto dest: arg_cong[of _ _ unat])
    then show ?thesis using True by (simp add: TOLOWER_def ISDIRDELIM_def)
  next
    case False
    then have "TOLOWER c = c" unfolding TOLOWER_def by auto
    then show ?thesis using c by simp
  qed
qed

lemma plain_name_lower: "plain_name name \<Longrightarrow> plain_name (downcase name)"
  using tolower_plain by (auto simp: plain_name_def downcase_def)

lemma plain_nameD:
  assumes "plain_name name"
  shows "dirdelim name = None" "dropWhile ISDIRDELIM name = name" "0 \<notin> set name" "name \<noteq> []"
proof -
  have "(\<forall>c\<in>set xs. \<not> ISDIRDELIM c) \<Longrightarrow> dirdelim xs = None" for xs by (induction xs) auto
  then show "dirdelim name = None" using assms by (simp add: plain_name_def)
  show "dropWhile ISDIRDELIM name = name" using assms by (cases name) (auto simp: plain_name_def)
qed (use assms in \<open>auto simp: plain_name_def\<close>)

lemma root_find_stop: "root_find name ds = Stop v \<Longrightarrow> v = -1"
  by (induction ds) (auto split: if_splits)

context fat_disk begin

text \<open>\<^verbatim>\<open>do_fat_read\<close> up to the entry in the root directory.\<close>

lemma fat_read_root:
  assumes "fat_ready dok st" "fat_volume img st = Some V" "vol_ok cap V" "root_ok img cap V m" "plain_name name"
    and "root_find (downcase name) (root_dir img V m) = r" "r \<noteq> More"
  shows "\<exists>d bl. file_fat_read rd name buf maxsize st
      = (case r of Match e \<Rightarrow> get_contents rd e buf maxsize (V\<lparr>f_dev := d, do_fat_read_block := bl\<rparr>)
         | Stop v \<Rightarrow> Some (v, buf, V\<lparr>f_dev := d, do_fat_read_block := bl\<rparr>) | More \<Rightarrow> None) \<and> dok d"
proof -
  obtain bs fsz where v: "fat_detect (img (unat (part_offset (f_vars st)))) = Some (bs, fsz)" "V = st\<lparr>fs := volume bs fsz (fatbuf (fs st))\<rparr>"
    using assms(2) by (auto simp: fat_volume_def)
  have V: "f_vars V = f_vars st" "f_dev V = f_dev st" "do_fat_read_block V = do_fat_read_block st" by (simp_all add: v(2))
  obtain d1 where d1: "disk_read rd 0 1 (stack_buf 512) st = Some (1, img (unat (part_offset (f_vars st))), st\<lparr>f_dev := d1\<rparr>)" "dok d1"
    using disk_read_ok[OF assms(1), of 0 1 "stack_buf 512"] assms(3) img512[OF assms(1)] V by (auto simp: vol_ok_def patch_def)
  obtain vi where bsr: "read_bootsectandvi rd st = Some (0, bs, fsz, vi, st\<lparr>f_dev := d1\<rparr>)" using detect_read[OF d1(1) v(1)] by blast
  let ?V1 = "V\<lparr>f_dev := d1\<rparr>"
  have r1: "fat_ready dok ?V1" using assms(1) d1(2) V by (simp add: fat_ready_def)
  note low = plain_nameD[OF plain_name_lower[OF assms(5)]] and nm = plain_nameD[OF assms(5)]
  have "\<exists>bl d. root_loop rd (downcase name) LS_NO False (ucast (rootdir_sect (fs ?V1))) (root_cluster bs) 0 ls0 ?V1
      = Some (r, ?V1\<lparr>f_dev := d, do_fat_read_block := bl\<rparr>) \<and> dok d"
  proof (rule root_loop_ok[OF r1])
    show "root_find (downcase name) (concat (map (\<lambda>n. sector_entries (img n)) [root_at V..<root_at V + m])) = r" using assms(6) by (simp add: root_dir_def)
    show "\<forall>n\<in>{root_at V..<root_at V + m}. \<forall>d\<in>set (sector_entries (img n)). is_volume d \<longrightarrow> \<not> is_slot d"
      using assms(4) by (fastforce simp: root_ok_def root_dir_def)
    show "root_at V = unat (ucast (rootdir_sect (fs ?V1)) + part_offset (f_vars ?V1))" by (simp add: root_at_def)
  qed (use assms(3,4,7) low in \<open>auto simp: vol_ok_def root_ok_def sects_per_clust_def\<close>)
  then obtain bl d where rl: "root_loop rd (downcase name) LS_NO False (ucast (rootdir_sect (fs ?V1))) (root_cluster bs) 0 ls0 ?V1
      = Some (r, V\<lparr>f_dev := d, do_fat_read_block := bl\<rparr>)" "dok d" by auto
  have fsV: "volume bs fsz (fatbuf (fs st)) = fs V" by (simp add: v(2))
  have V1: "st\<lparr>f_dev := d1, fs := fs V\<rparr> = ?V1" by (simp add: v(2))
  have "file_fat_read rd name buf maxsize st
      = (case r of Match e \<Rightarrow> get_contents rd e buf maxsize (V\<lparr>f_dev := d, do_fat_read_block := bl\<rparr>)
         | Stop v \<Rightarrow> Some (v, buf, V\<lparr>f_dev := d, do_fat_read_block := bl\<rparr>) | More \<Rightarrow> None)"
    using bsr rl(1) low nm assms(5,7) V1 fsV by (cases r) (simp_all add: file_fat_read_def do_fat_read_def LS_NO_def plain_name_def Let_def)
  then show ?thesis using rl(2) by blast
qed

lemma fat_read_ok:
  assumes "fat_ready dok st" "fat_volume img st = Some V" "vol_ok cap V" "root_ok img cap V m" "plain_name name"
    and "root_find (downcase name) (root_dir img V m) = Match d" "fat_file img cap V d cs (wanted maxsize d)" "wanted maxsize d \<le> length buf"
  shows "\<exists>st'. file_fat_read rd name buf maxsize st
    = Some (int (wanted maxsize d), patch 0 (take (wanted maxsize d) (concat (map (cluster_bytes img V) cs))) buf, st')"
proof -
  obtain dv bl where r: "file_fat_read rd name buf maxsize st = get_contents rd d buf maxsize (V\<lparr>f_dev := dv, do_fat_read_block := bl\<rparr>)" "dok dv"
    using fat_read_root[OF assms(1-6), of buf maxsize] by auto
  let ?V = "V\<lparr>f_dev := dv, do_fat_read_block := bl\<rparr>"
  obtain c cs' where cs: "cs = c # cs'" using assms(7) by (cases cs) (auto simp: fat_file_def)
  have V: "\<exists>bs fsz. V = st\<lparr>fs := volume bs fsz (fatbuf (fs st))\<rparr> \<and> fsz \<in> {12, 16, 32}"
    using assms(2) by (auto simp: fat_volume_def fat_detect_def Let_def split: if_splits)
  then have fz: "fatsize (fs V) \<in> {12, 16, 32}" "fatbufnum (fs V) = -1" "cur_dev (f_vars V) = cur_dev (f_vars st)"
    by (auto simp: volume_def Let_def)
  have e: "clust_at ?V = clust_at V" "sects_per_clust ?V = sects_per_clust V" "table_at ?V = table_at V"
    by (simp_all add: clust_at_def sects_per_clust_def table_at_def fun_eq_iff)
  have e2: "cluster_bytes img ?V = cluster_bytes img V" "clust_ok cap ?V = clust_ok cap V" "fat_table img cap ?V = fat_table img cap V"
    by (simp_all add: cluster_bytes_def clust_ok_def fat_table_def e fun_eq_iff)
  have w: "(if maxsize > 0 \<and> d_size d > maxsize then maxsize else d_size d) = of_nat (wanted maxsize d)" by (simp add: wanted_def)
  have b: "(ucast (clust_size (fs ?V)) * 512 :: u32) = of_nat (512 * sects_per_clust V)" by (simp add: sects_per_clust_def)
  have "\<exists>st'. contents_loop rd (of_nat (512 * sects_per_clust V)) (of_nat (wanted maxsize d)) (of_nat 0) c buf 0 ?V
      = Some (int (0 + wanted maxsize d), patch 0 (take (wanted maxsize d) (concat (map (cluster_bytes img ?V) (c # cs')))) buf, st')"
  proof (rule contents_loop_ok)
    show "fat_ready dok ?V" using assms(1) r(2) fz by (simp add: fat_ready_def)
    show "cache_ok img cap ?V" using assms(3) fz by (simp add: cache_ok_def vol_ok_def)
  qed (use assms(7,8) fz cs in \<open>auto simp: fat_file_def e e2\<close>)
  then show ?thesis using r(1) assms(7) cs unfolding get_contents_def w b e2 by (simp add: fat_file_def del: of_nat_mult)
qed

end

section \<open>The eMMC\<close>

interpretation emmc_fat: fat_disk "mmc_bread hsmmc 1" "\<lambda>s. emmc_inv s \<and> emmc_sect s (emmc_part s) = img" img EMMC_SECTORS for img
proof unfold_locales
  show "EMMC_SECTORS < 2 ^ 31" by (simp add: EMMC_SECTORS_def)
next
  fix s k assume "emmc_inv s \<and> emmc_sect s (emmc_part s) = img"
  then show "length (img k) = 512" by (auto simp: emmc_defs card_ok_def)
next
  fix s and a n :: u32 and buf :: "byte list"
  assume a: "emmc_inv s \<and> emmc_sect s (emmc_part s) = img" "unat a + unat n \<le> EMMC_SECTORS" "512 * unat n + 511 < 2 ^ 32" "512 * unat n \<le> length buf"
  show "\<exists>s'. mmc_bread hsmmc 1 s a n buf = Some (1, patch 0 (sectors img (unat a) (unat n)) buf, s') \<and> emmc_inv s' \<and> emmc_sect s' (emmc_part s') = img"
  proof (cases "n = 0")
    case True
    then show ?thesis using a(1) by (auto simp: mmc_bread_def mmc_read_at_def omap_mmc_read_sect_def num_sec_def patch_def emmc_defs)
  next
    case False
    have u: "unat (n * 512) = 512 * unat n" using a(3) by (subst mult.commute, subst unat_mult_lem[THEN iffD1]) auto
    have "0 < unat n" using False by (simp add: unat_gt_0)
    then have "0 < n * 512" unfolding word_less_nat_alt u by simp
    then show ?thesis using read_at_hs[of s "n * 512" a 0 buf] a u by (auto simp: mmc_bread_def)
  qed
qed

section \<open>Properties\<close>

text \<open>
  C24. Reading a file: on a disk with a FAT12, FAT16 or FAT32 volume, a file of the root directory is found by its name in upper or lower case, and
  the buffer gets its bytes, cluster after cluster along its chain in the table, up to its size or to the limit the caller gives; the number of
  bytes is returned. The reads by runs of consecutive clusters and the cached table make no difference.
\<close>

theorem fat_read_file:
  assumes "fat_disk rd dok img cap" "fat_ready dok st" "fat_volume img st = Some V" "vol_ok cap V" "root_ok img cap V m" "plain_name name"
    and "root_find (downcase name) (root_dir img V m) = Match d" "fat_file img cap V d cs (wanted maxsize d)" "wanted maxsize d \<le> length buf"
  shows "\<exists>st'. file_fat_read rd name buf maxsize st
    = Some (int (wanted maxsize d), patch 0 (take (wanted maxsize d) (concat (map (cluster_bytes img V) cs))) buf, st')"
  by (rule fat_disk.fat_read_ok[OF assms])

text \<open>
  C26. A file that is not in the root directory: the search ends at the first entry without a name, \<^verbatim>\<open>-1\<close> is returned and the buffer is untouched.
\<close>

theorem fat_missing_file:
  assumes "fat_disk rd dok img cap" "fat_ready dok st" "fat_volume img st = Some V" "vol_ok cap V" "root_ok img cap V m" "plain_name name"
    and "root_find (downcase name) (root_dir img V m) = Stop v"
  shows "\<exists>st'. file_fat_read rd name buf maxsize st = Some (-1, buf, st')"
  using fat_disk.fat_read_root[OF assms, of buf maxsize] root_find_stop[OF assms(7)] by auto

text \<open>
  A FAT16 volume: the boot sector, whose partition entry covers the disk from sector 0 on, one sector of table, one of root directory, and the data from sector 3 on. The file \<^verbatim>\<open>HELLO.TXT\<close> of 600 bytes lies in the
  clusters 2 and 4.
\<close>

definition demo_fat_img :: "nat \<Rightarrow> byte list" where
  "demo_fat_img n =
     (if n = 0 then replicate 13 0 @ [1, 1, 0, 1, 16, 0, 0, 0, 0, 1, 0] @ replicate 30 0 @ FAT16_SIGN @ replicate 388 0 @ [6] @ replicate 59 0 @ [0x55, 0xaa]
      else if n = 1 then [0, 0, 0, 0, 4, 0, 0, 0, 0xff, 0xff] @ replicate 502 0
      else if n = 2 then bytes ''HELLO   TXT'' @ replicate 15 0 @ [2, 0, 0x58, 2, 0, 0] @ replicate 480 0
      else replicate 512 (of_nat n))"

definition demo_fat :: "'s \<Rightarrow> 's fat" where
  "demo_fat s = \<lparr>f_dev = s, f_vars = \<lparr>cur_dev = Some 1, part_offset = 0, cur_part = 1\<rparr>,
     fs = \<lparr>fatsize = 0, fatlength = 0, fat_sect = 0, rootdir_sect = 0, clust_size = 0, data_begin = 0, fatbuf = replicate 12288 0, fatbufnum = 0\<rparr>,
     get_vfatname_block = replicate 65536 0, get_dentfromdir_block = replicate 65536 0, do_fat_read_block = replicate 65536 0, listing = []\<rparr>"

lemma demo_fat_length: "length (demo_fat_img n) = 512"
  by (simp add: demo_fat_img_def FAT16_SIGN_def)

lemma demo_fat_ready: "fat_ready (\<lambda>s. emmc_inv s \<and> emmc_sect s (emmc_part s) = demo_fat_img) (demo_fat (emmc_on (\<lambda>_. demo_fat_img)))"
  using demo_fat_length by (simp add: fat_ready_def demo_fat_def emmc_on_inv)

lemma of_le_zeros: "of_le (replicate n 0) = (0 :: 'w::len word)"
  by (induction n) simp_all

lemma demo_fat_boot: "boot_fields (demo_fat_img 0) = \<lparr>cluster_size = 1, reserved = 1, fats = 1, dir_entries = [16, 0], fat_length = 1, fat32_length = 0, root_cluster = 0\<rparr>"
  by (simp add: boot_fields_def demo_fat_img_def bslice_def nth_append of_le_zeros)

definition demo_vol :: "emmc mmc fat" where
  "demo_vol = (demo_fat (emmc_on (\<lambda>_. demo_fat_img)))\<lparr>fs := \<lparr>fatsize = 16, fatlength = 1, fat_sect = 1, rootdir_sect = 2, clust_size = 1, data_begin = 1,
     fatbuf = replicate 12288 0, fatbufnum = -1\<rparr>\<rparr>"

definition demo_dent :: "byte list" where
  "demo_dent = bytes ''HELLO   TXT'' @ replicate 15 0 @ [2, 0, 0x58, 2, 0, 0]"

lemma demo_fat_volume: "fat_volume demo_fat_img (demo_fat (emmc_on (\<lambda>_. demo_fat_img))) = Some demo_vol"
proof -
  have "bslice 18 8 (bslice 36 27 (demo_fat_img 0)) = FAT16_SIGN"
    by (simp add: demo_fat_img_def bslice_def FAT16_SIGN_def)
  then have "fat_detect (demo_fat_img 0) = Some (boot_fields (demo_fat_img 0), 16)"
    by (simp add: fat_detect_def demo_fat_boot FAT16_SIGN_def FAT12_SIGN_def)
  then show ?thesis by (simp add: fat_volume_def demo_fat_def demo_fat_boot volume_def demo_vol_def)
qed

lemma demo_fat_root: "root_dir demo_fat_img demo_vol 1 = demo_dent # replicate 15 (replicate 32 0)"
proof -
  have "root_at demo_vol = 2" by (simp add: root_at_def demo_vol_def demo_fat_def)
  moreover have "sector_entries (demo_fat_img 2) = demo_dent # replicate 15 (replicate 32 0)"
    by (simp add: sector_entries_def demo_fat_img_def demo_dent_def bslice_def upt_rec numeral_eq_Suc)
  ultimately show ?thesis by (simp add: root_dir_def)
qed

lemma demo_fat_find: "root_find (downcase (bytes ''Hello.txt'')) (root_dir demo_fat_img demo_vol 1) = Match demo_dent"
  "root_find (downcase (bytes ''none'')) (root_dir demo_fat_img demo_vol 1) = Stop (-1)"
proof -
  have n: "get_name demo_dent = bytes ''hello.txt''"
    by (simp add: get_name_def d_name_def d_ext_def demo_dent_def bslice_def upto_blank_def unmark_def downcase_def TOLOWER_def DELETED_FLAG_def aRING_def)
  have v: "\<not> is_volume demo_dent" "demo_dent ! 0 \<noteq> 0" by (simp_all add: is_volume_def d_attr_def demo_dent_def ATTR_VOLUME_def nth_append)
  have z: "\<not> is_volume (replicate 32 0)" by (simp add: is_volume_def d_attr_def)
  show "root_find (downcase (bytes ''Hello.txt'')) (root_dir demo_fat_img demo_vol 1) = Match demo_dent"
    unfolding demo_fat_root using n v by (simp add: downcase_def TOLOWER_def)
  have "replicate 15 (replicate 32 (0 :: byte)) = replicate 32 0 # replicate 14 (replicate 32 0)" by (simp add: numeral_eq_Suc)
  then show "root_find (downcase (bytes ''none'')) (root_dir demo_fat_img demo_vol 1) = Stop (-1)"
    unfolding demo_fat_root using n v z by (simp add: downcase_def TOLOWER_def)
qed

lemma demo_fat_ok: "vol_ok EMMC_SECTORS demo_vol" "root_ok demo_fat_img EMMC_SECTORS demo_vol 1"
proof -
  show "vol_ok EMMC_SECTORS demo_vol" by (simp add: vol_ok_def demo_vol_def demo_fat_def sects_per_clust_def EMMC_SECTORS_def)
  have "\<not> is_volume demo_dent" "\<not> is_volume (replicate 32 0)" by (simp_all add: is_volume_def d_attr_def demo_dent_def ATTR_VOLUME_def nth_append)
  then show "root_ok demo_fat_img EMMC_SECTORS demo_vol 1"
    unfolding root_ok_def demo_fat_root by (auto simp: root_at_def demo_vol_def demo_fat_def sects_per_clust_def EMMC_SECTORS_def)
qed

lemma demo_fat_clusters: "clust_at demo_vol 2 = 3" "clust_at demo_vol 4 = 5" "sects_per_clust demo_vol = 1" "table_at demo_vol = 1" "fatsize (fs demo_vol) = 16"
  by (simp_all add: clust_at_def clust_sect_def demo_vol_def demo_fat_def sects_per_clust_def table_at_def)

lemma demo_fat_file: "wanted 0 demo_dent = 600" "fat_file demo_fat_img EMMC_SECTORS demo_vol demo_dent [2, 4] 600"
proof -
  show "wanted 0 demo_dent = 600" by (simp add: wanted_def d_size_def demo_dent_def bslice_def)
  have "ent 16 (fat_table demo_fat_img EMMC_SECTORS demo_vol) 2 = 4"
  proof -
    have "bslice 4 2 (sectors demo_fat_img 1 (EMMC_SECTORS - 1)) = bslice 4 2 (sectors demo_fat_img 1 1)"
      using bslice_table_sector[of demo_fat_img 0 1 "EMMC_SECTORS - 1" 4 2 1] demo_fat_length by (simp add: EMMC_SECTORS_def)
    also have "\<dots> = [4, 0]" by (simp add: demo_fat_img_def bslice_def)
    finally show ?thesis by (simp add: ent_def fat_table_def demo_fat_clusters)
  qed
  moreover have "\<not> (4 :: u32) \<le> 1" by (simp add: word_le_nat_alt)
  ultimately show "fat_file demo_fat_img EMMC_SECTORS demo_vol demo_dent [2, 4] 600"
    by (simp add: fat_file_def demo_fat_clusters START_def d_start_def demo_dent_def bslice_def CHECK_CLUST_def clust_ok_def fat_per_block_def EMMC_SECTORS_def)
qed

theorem fat_read_file_witness:
  "\<exists>st'. file_fat_read (mmc_bread hsmmc 1) (bytes ''Hello.txt'') (replicate 600 0) 0 (demo_fat (emmc_on (\<lambda>_. demo_fat_img)))
    = Some (600, replicate 512 3 @ replicate 88 5, st')"
proof -
  have p: "plain_name (bytes ''Hello.txt'')" by (simp add: plain_name_def ISDIRDELIM_def)
  have "take 600 (concat (map (cluster_bytes demo_fat_img demo_vol) [2, 4])) = replicate 512 3 @ replicate 88 5"
    by (simp add: cluster_bytes_def demo_fat_clusters demo_fat_img_def)
  then show ?thesis
    using fat_read_file[OF emmc_fat.fat_disk_axioms demo_fat_ready demo_fat_volume demo_fat_ok p demo_fat_find(1), of "[2, 4]" 0 "replicate 600 0"] demo_fat_file
    by (simp add: patch_def)
qed

theorem fat_missing_file_witness:
  "\<exists>st'. file_fat_read (mmc_bread hsmmc 1) (bytes ''none'') [] 0 (demo_fat (emmc_on (\<lambda>_. demo_fat_img))) = Some (-1, [], st')"
proof -
  have p: "plain_name (bytes ''none'')" by (simp add: plain_name_def ISDIRDELIM_def)
  show ?thesis by (rule fat_missing_file[OF emmc_fat.fat_disk_axioms demo_fat_ready demo_fat_volume demo_fat_ok p demo_fat_find(2)])
qed

end
