(* ===== verification/FatCmd.thy ===== *)
theory FatCmd
  imports FatRead EnvStore MmcCmd
begin

text \<open>
  The commands \<^verbatim>\<open>fatload\<close>, \<^verbatim>\<open>fatls\<close> and \<^verbatim>\<open>fatinfo\<close> (\<^verbatim>\<open>common/cmd_fat.c\<close>) on the driver of the eMMC. The state of the block
  device is that of the FAT reader around that of the driver; the registration changes \<^verbatim>\<open>cur_dev\<close>, \<^verbatim>\<open>part_offset\<close> and
  \<^verbatim>\<open>cur_part\<close>, which \<^verbatim>\<open>mmc_init\<close> sets in the same way. \<open>fatload_ok\<close> takes a file from the disk to the memory and the
  environment.
\<close>

section \<open>The commands\<close>

text \<open>The block read function of a registered device; a device number other than 0 and 1 indexes past the arrays of the driver.\<close>

definition fat_bread :: "'h hw \<Rightarrow> u32 \<Rightarrow> 'h mmc bread" where
  "fat_bread c n = (\<lambda>s blknr blkcnt dst. if n > 1 then None else mmc_bread c (unat n) s blknr blkcnt dst)"

definition mmc_get_dev :: "u32 \<Rightarrow> nat option" where
  "mmc_get_dev dev = (if dev = 0 \<or> dev = 1 then Some (unat dev) else None)"

definition get_dev :: "byte list \<Rightarrow> u32 \<Rightarrow> nat option" where
  "get_dev ifname dev = (if strncmp_s ifname (bytes ''mmc'') 3 = 0 then mmc_get_dev dev else None)"

text \<open>The arguments for interface, device and partition, with which the three commands begin.\<close>

definition dev_args :: "byte list list \<Rightarrow> (nat \<times> u32) option" where
  "dev_args argv =
     (let (dev, ep) = simple_strtoul (argv ! 2) 16 in
      case get_dev (argv ! 1) dev of
        None \<Rightarrow> None
      | Some k \<Rightarrow>
          if ep = [] then Some (k, 1)
          else if hd ep \<noteq> 0x3A then None
          else Some (k, fst (simple_strtoul (tl ep) 16)))"

text \<open>
  Registering device \<open>k\<close>: the result and the state with the new variables. \<^verbatim>\<open>block_read\<close> is set by \<^verbatim>\<open>mmc_init\<close> together with the
  interface type, which is 0 before.
\<close>

definition use_dev :: "'h hw \<Rightarrow> nat \<Rightarrow> u32 \<Rightarrow> 'h mmc fat \<Rightarrow> (int \<times> 'h mmc fat) option" where
  "use_dev c k part st =
     (let d = mmc_blk_dev (f_dev st) k in
      if if_type d \<noteq> IF_TYPE_MMC then Some (-1, st)
      else do {
        (r, fv, m) \<leftarrow> fat_register_device (fat_bread c (bd_dev d)) d part (m_fat (f_dev st)) (f_dev st);
        Some (r, st\<lparr>f_dev := m\<lparr>m_fat := fv\<rparr>, f_vars := fv\<rparr>) })"

definition dev_bread :: "'h hw \<Rightarrow> nat \<Rightarrow> 'h mmc fat \<Rightarrow> 'h mmc bread" where
  "dev_bread c k st = fat_bread c (bd_dev (mmc_blk_dev (f_dev st) k))"

definition do_fat_fsload :: "'c env_io \<Rightarrow> 'h hw \<Rightarrow> byte list list \<Rightarrow> ('h mmc fat, 'u, 'c) world \<Rightarrow> (int \<times> ('h mmc fat, 'u, 'c) world) option" where
  "do_fat_fsload io c argv w =
     (if length argv < 5 then Some (1, w)
      else case dev_args argv of
        None \<Rightarrow> Some (1, w)
      | Some (k, part) \<Rightarrow> do {
          (r, st) \<leftarrow> use_dev c k part (w_dev w);
          if r \<noteq> 0 then Some (1, w\<lparr>w_dev := st\<rparr>)
          else do {
            let count = (if length argv = 6 then fst (simple_strtoul (argv ! 5) 16) else 0);
            let off = (case ram_off (fst (simple_strtoul (argv ! 3) 16)) of None \<Rightarrow> length (w_ram w) | Some a \<Rightarrow> a);
            (sz, buf, st) \<leftarrow> file_fat_read (dev_bread c k st) (argv ! 4) (drop off (w_ram w)) count st;
            let w = w\<lparr>w_dev := st, w_ram := take off (w_ram w) @ buf\<rparr>;
            if sz = -1 then Some (1, w)
            else do {
              buf \<leftarrow> sprintf ''%lX'' [VInt (of_int sz)];
              (e, con) \<leftarrow> setenv io (bytes ''filesize'') (Some buf) (w_env w) (w_con w);
              Some (0, w\<lparr>w_env := e, w_con := con\<rparr>) } } })"

definition do_fat_ls :: "'h hw \<Rightarrow> byte list list \<Rightarrow> ('h mmc fat, 'u, 'c) world \<Rightarrow> (int \<times> ('h mmc fat, 'u, 'c) world) option" where
  "do_fat_ls c argv w =
     (if length argv < 3 then Some (0, w)
      else case dev_args argv of
        None \<Rightarrow> Some (1, w)
      | Some (k, part) \<Rightarrow> do {
          (r, st) \<leftarrow> use_dev c k part (w_dev w);
          if r \<noteq> 0 then Some (1, w\<lparr>w_dev := st\<rparr>)
          else do {
            (ret, st) \<leftarrow> file_fat_ls (dev_bread c k st) (if length argv = 4 then argv ! 3 else bytes ''/'') st;
            Some (ret, w\<lparr>w_dev := st\<rparr>) } })"

text \<open>With one argument \<^verbatim>\<open>fatinfo\<close> goes on and reads through the null pointer behind its arguments.\<close>

definition do_fat_fsinfo :: "'h hw \<Rightarrow> byte list list \<Rightarrow> ('h mmc fat, 'u, 'c) world \<Rightarrow> (int \<times> ('h mmc fat, 'u, 'c) world) option" where
  "do_fat_fsinfo c argv w =
     (if length argv < 2 then Some (0, w)
      else if length argv = 2 then None
      else case dev_args argv of
        None \<Rightarrow> Some (1, w)
      | Some (k, part) \<Rightarrow> do {
          (r, st) \<leftarrow> use_dev c k part (w_dev w);
          if r \<noteq> 0 then Some (1, w\<lparr>w_dev := st\<rparr>)
          else do { (ret, _, st) \<leftarrow> file_fat_detectfs (dev_bread c k st) st; Some (ret, w\<lparr>w_dev := st\<rparr>) } })"

section \<open>Printing the size\<close>

text \<open>The hexadecimal numeral in upper case.\<close>

definition HEXS :: "u32 \<Rightarrow> byte list" where
  "HEXS n = (if n = 0 then [0x30] else rev (number_digits (digits True) 16 (unat n)))"

lemma sprintf_lX: "sprintf ''%lX'' [VInt n] = Some (HEXS n)"
proof -
  have "number n 16 (-1) (-1) (no_flags\<lparr>LARGE := True\<rparr>) = Some (HEXS n)"
    by (auto simp: number_def no_flags_def HEXS_def Let_def)
  then show ?thesis by (simp add: sprintf_eval no_flags_def)
qed

lemma HEXS_xdigit: "c \<in> set (HEXS n) \<Longrightarrow> isxdigit c"
  by (auto simp: HEXS_def simp del: isxdigit_iff split: if_splits dest!: set_number_digits[rotated 2]) simp_all

lemma length_HEXS: "length (HEXS n) \<le> 8"
proof -
  have "unat n < 16 ^ 8" using unsigned_less[of n] by simp
  then have "length (number_digits (digits True) 16 (unat n)) \<le> 8" by (intro number_digits_length) simp_all
  then show ?thesis by (simp add: HEXS_def)
qed

lemma HEXS_no_nul: "0 \<notin> set (HEXS n)"
  using HEXS_xdigit[of 0 n] by auto

lemma strtoul_HEXS: "simple_strtoul (HEXS n) 16 = (n, [])"
proof -
  have d: "strtoul_digits 16 0 (HEXS n) = (n, [])"
    using strtoul_digits_number[of 16 0 True "unat n" "[]"] by (cases "n = 0") (simp_all add: HEXS_def)
  have x: "c \<in> set (HEXS n) \<Longrightarrow> c \<noteq> 0x78" for c using HEXS_xdigit[of c n] by auto
  show ?thesis
  proof (cases "HEXS n")
    case (Cons a as)
    then have "chr0 as \<noteq> 0x78" using x by (cases as) auto
    then show ?thesis using d Cons by (auto simp: simple_strtoul_def)
  qed (use d in \<open>simp add: simple_strtoul_def\<close>)
qed

section \<open>Loading a file from the eMMC\<close>

text \<open>Where the file system begins: on the whole disk, or in a primary partition.\<close>

definition fat_start :: "byte list \<Rightarrow> u32 \<Rightarrow> (u32 \<times> u32) option" where
  "fat_start b part =
     (if \<not> dos_magic b then None
      else if fat_at DOS_FS_TYPE_OFFSET b then Some (0, 1)
      else case find_part 0 part (dos_entries b) 1 of
        Inl pt \<Rightarrow> Some (le32_to_int (start4 pt), part)
      | Inr _ \<Rightarrow> None)"

definition vars_at :: "u32 \<times> u32 \<Rightarrow> fat_vars" where
  "vars_at a = \<lparr>cur_dev = Some 1, part_offset = fst a, cur_part = snd a\<rparr>"

definition fat_card :: "(nat \<Rightarrow> byte list) \<Rightarrow> emmc mmc \<Rightarrow> bool" where
  "fat_card img m \<longleftrightarrow> emmc_inv m \<and> emmc_sect m (emmc_part m) = img"

lemma fat_card_fat [simp]: "fat_card img (m\<lparr>m_fat := fv\<rparr>) = fat_card img m"
  by (simp add: fat_card_def emmc_defs)

lemma fat_card_read:
  assumes "fat_card img m" "unat a + unat n \<le> EMMC_SECTORS" "512 * unat n + 511 < 2 ^ 32" "512 * unat n \<le> length buf"
  shows "\<exists>m'. mmc_bread hsmmc 1 m a n buf = Some (1, patch 0 (sectors img (unat a) (unat n)) buf, m') \<and> fat_card img m'"
  using emmc_fat.read[OF assms(1)[unfolded fat_card_def] assms(2-4)] by (simp add: fat_card_def)

lemma fat_bread_1: "fat_bread c 1 = mmc_bread c 1"
  by (simp add: fat_bread_def fun_eq_iff)

lemma use_dev_ok:
  assumes "fat_card img (f_dev st)" "if_type (mmc_blk_dev (f_dev st) 1) = IF_TYPE_MMC" "part_type (mmc_blk_dev (f_dev st) 1) = PART_TYPE_DOS"
    and "fat_start (img 0) part = Some a"
  shows "\<exists>m. use_dev hsmmc 1 part st = Some (0, st\<lparr>f_dev := m, f_vars := vars_at a\<rparr>) \<and> fat_card img m
    \<and> dev_bread hsmmc 1 (st\<lparr>f_dev := m, f_vars := vars_at a\<rparr>) = mmc_bread hsmmc 1"
proof -
  let ?d = "mmc_blk_dev (f_dev st) 1" and ?rd = "mmc_bread hsmmc 1"
  have b: "bd_dev (mmc_blk_dev m 1) = 1" if "fat_card img m" for m using that by (simp add: fat_card_def emmc_inv_def)
  have l: "length (img k) = 512" for k using assms(1) by (auto simp: fat_card_def emmc_defs card_ok_def)
  have rd: "\<exists>m'. ?rd m 0 1 (stack_buf 512) = Some (1, img 0, m') \<and> fat_card img m'" if "fat_card img m" for m
    using fat_card_read[OF that, of 0 1 "stack_buf 512"] l by (auto simp: EMMC_SECTORS_def patch_def)
  obtain m1 where m1: "?rd (f_dev st) 0 1 (stack_buf 512) = Some (1, img 0, m1)" "fat_card img m1" using rd[OF assms(1)] by blast
  obtain m2 where m2: "?rd m1 0 1 (stack_buf 512) = Some (1, img 0, m2)" "fat_card img m2" using rd[OF m1(2)] by blast
  have mg: "dos_magic (img 0)" using assms(4) by (auto simp: fat_start_def split: if_splits)
  have reg: "\<exists>m. fat_register_device ?rd ?d part (m_fat (f_dev st)) (f_dev st) = Some (0, vars_at a, m) \<and> fat_card img m"
  proof (cases "fat_at DOS_FS_TYPE_OFFSET (img 0)")
    case True
    then have "a = (0, 1)" using assms(4) mg by (simp add: fat_start_def)
    then show ?thesis using True mg m1 b[OF assms(1)] by (cases "m_fat (f_dev st)") (simp add: fat_register_device_def vars_at_def)
  next
    case False
    then obtain pt where pt: "find_part 0 part (dos_entries (img 0)) 1 = Inl pt" "a = (le32_to_int (start4 pt), part)"
      using assms(4) mg by (auto simp: fat_start_def split: sum.splits)
    obtain i where i: "fill_info ?d 0 pt part = Some i" using fill_info_Some by blast
    then have "dp_start i = le32_to_int (start4 pt)" by (auto simp: fill_info_def opt_bind)
    moreover have "get_partition_info ?rd ?d part m1 = Some (Some i, m2)"
      using assms(3) m2(1) mg pt(1) i by (simp add: get_partition_info_def get_partition_info_dos_def) (subst get_partition_info_extended.simps, simp)
    ultimately show ?thesis
      using False mg m1(1) m2(2) b[OF assms(1)] pt(2) by (cases "m_fat (f_dev st)") (simp add: fat_register_device_def vars_at_def)
  qed
  obtain m where m: "fat_register_device ?rd ?d part (m_fat (f_dev st)) (f_dev st) = Some (0, vars_at a, m)" "fat_card img m" using reg by (elim exE conjE)
  then have "fat_card img (m\<lparr>m_fat := vars_at a\<rparr>)" by simp
  with m show ?thesis using assms(2) b[OF assms(1)] b[of "m\<lparr>m_fat := vars_at a\<rparr>"]
    by (auto simp: use_dev_def dev_bread_def fat_bread_1 simp del: fat_card_fat)
qed

text \<open>What is said of a volume does not depend on the state of the device.\<close>

lemma volume_dev [simp]:
  "vol_ok cap (V\<lparr>f_dev := d\<rparr>) = vol_ok cap V" "root_dir img (V\<lparr>f_dev := d\<rparr>) = root_dir img V"
  "root_ok img cap (V\<lparr>f_dev := d\<rparr>) = root_ok img cap V" "fat_file img cap (V\<lparr>f_dev := d\<rparr>) = fat_file img cap V"
  "cluster_bytes img (V\<lparr>f_dev := d\<rparr>) = cluster_bytes img V"
proof -
  have e: "clust_at (V\<lparr>f_dev := d\<rparr>) = clust_at V" "sects_per_clust (V\<lparr>f_dev := d\<rparr>) = sects_per_clust V" "table_at (V\<lparr>f_dev := d\<rparr>) = table_at V"
    "root_at (V\<lparr>f_dev := d\<rparr>) = root_at V"
    by (simp_all add: clust_at_def sects_per_clust_def table_at_def root_at_def fun_eq_iff)
  show "vol_ok cap (V\<lparr>f_dev := d\<rparr>) = vol_ok cap V" by (simp add: vol_ok_def e)
  show r: "root_dir img (V\<lparr>f_dev := d\<rparr>) = root_dir img V" by (simp add: root_dir_def fun_eq_iff e)
  show "root_ok img cap (V\<lparr>f_dev := d\<rparr>) = root_ok img cap V" by (simp add: root_ok_def fun_eq_iff e r)
  show "cluster_bytes img (V\<lparr>f_dev := d\<rparr>) = cluster_bytes img V" by (simp add: cluster_bytes_def fun_eq_iff e)
  show "fat_file img cap (V\<lparr>f_dev := d\<rparr>) = fat_file img cap V"
    by (simp add: fat_file_def fun_eq_iff e clust_ok_def fat_table_def)
qed

lemma fat_volume_dev: "fat_volume img (st\<lparr>f_vars := fv\<rparr>) = Some V \<Longrightarrow> fat_volume img (st\<lparr>f_dev := m, f_vars := fv\<rparr>) = Some (V\<lparr>f_dev := m\<rparr>)"
  by (auto simp: fat_volume_def)

text \<open>The environment after \<^verbatim>\<open>setenv\<close>.\<close>

lemma setenv_filesize:
  assumes "env_rep es (env_arr e)" "env_fits (bytes ''filesize'') (HEXS n) es"
  shows "\<exists>e'. setenv io (bytes ''filesize'') (Some (HEXS n)) e c = Some (e', c)
    \<and> (\<forall>x. name_ok x \<longrightarrow> getenv x e' = (if x = bytes ''filesize'' then Some (Some (HEXS n)) else getenv x e))"
proof -
  have n: "EnvStore.plain_name (bytes ''filesize'')" "EQ \<notin> set (bytes ''filesize'')"
    by (simp_all add: EnvStore.plain_name_def name_ok_def EQ_def)
  obtain e' where e': "do_setenv io [Some (bytes ''setenv''), Some (bytes ''filesize''), Some (HEXS n)] e c = Some (0, e', c)"
      "env_rep (del_var (bytes ''filesize'') es @ [bytes ''filesize'' @ EQ # HEXS n]) (env_arr e')"
    using do_setenv_rep[OF assms(1) n(1) HEXS_no_nul, of io "bytes ''setenv''" n c] assms(2) by (auto simp del: bytes_Cons)
  have "getenv x e' = (if x = bytes ''filesize'' then Some (Some (HEXS n)) else getenv x e)" if "name_ok x" for x
    unfolding getenv_rep[OF that e'(2)] getenv_rep[OF that assms(1)] using n(2) by (simp add: lookup_set del: bytes_Cons)
  then show ?thesis using e'(1) by (auto simp: setenv_def do_setenv_def simp del: bytes_Cons)
qed

text \<open>
  \<^verbatim>\<open>fatload\<close> of a file in the root directory puts its bytes into the memory and its size into the environment.
\<close>

definition fatload_file :: "(nat \<Rightarrow> byte list) \<Rightarrow> byte list list \<Rightarrow> nat \<Rightarrow> emmc mmc fat \<Rightarrow> byte list \<Rightarrow> byte list \<Rightarrow> bool" where
  "fatload_file img argv m st d bs \<longleftrightarrow>
     (\<exists>part a V cs. dev_args argv = Some (1, part) \<and> fat_start (img 0) part = Some a
        \<and> fat_volume img (st\<lparr>f_vars := vars_at a\<rparr>) = Some V \<and> vol_ok EMMC_SECTORS V \<and> root_ok img EMMC_SECTORS V m
        \<and> FatRead.plain_name (argv ! 4) \<and> root_find (downcase (argv ! 4)) (root_dir img V m) = Match d
        \<and> fat_file img EMMC_SECTORS V d cs (unat (d_size d))
        \<and> bs = take (unat (d_size d)) (concat (map (cluster_bytes img V) cs)))"

lemma fatload_ok:
  assumes "fat_card img (f_dev (w_dev w))" "if_type (mmc_blk_dev (f_dev (w_dev w)) 1) = IF_TYPE_MMC"
    "part_type (mmc_blk_dev (f_dev (w_dev w)) 1) = PART_TYPE_DOS"
    and "length argv = 5" "fatload_file img argv m (w_dev w) d bs"
    and "ram_off (fst (simple_strtoul (argv ! 3) 16)) = Some off" "off + unat (d_size d) \<le> length (w_ram w)"
    and "env_rep es (env_arr (w_env w))" "env_fits (bytes ''filesize'') (HEXS (d_size d)) es"
  shows "\<exists>w'. do_fat_fsload io hsmmc argv w = Some (0, w') \<and> w_ram w' = patch off bs (w_ram w) \<and> w_con w' = w_con w
    \<and> (\<forall>x. name_ok x \<longrightarrow> getenv x (w_env w') = (if x = bytes ''filesize'' then Some (Some (HEXS (d_size d))) else getenv x (w_env w)))"
proof -
  obtain part a V cs where p: "dev_args argv = Some (1, part)" "fat_start (img 0) part = Some a"
      "fat_volume img ((w_dev w)\<lparr>f_vars := vars_at a\<rparr>) = Some V" "vol_ok EMMC_SECTORS V" "root_ok img EMMC_SECTORS V m"
      "FatRead.plain_name (argv ! 4)" "root_find (downcase (argv ! 4)) (root_dir img V m) = Match d"
      "fat_file img EMMC_SECTORS V d cs (unat (d_size d))" "bs = take (unat (d_size d)) (concat (map (cluster_bytes img V) cs))"
    using assms(5) by (auto simp: fatload_file_def)
  obtain dm where dm: "use_dev hsmmc 1 part (w_dev w) = Some (0, (w_dev w)\<lparr>f_dev := dm, f_vars := vars_at a\<rparr>)" "fat_card img dm"
      "dev_bread hsmmc 1 ((w_dev w)\<lparr>f_dev := dm, f_vars := vars_at a\<rparr>) = mmc_bread hsmmc 1"
    using use_dev_ok[OF assms(1-3) p(2)] by blast
  let ?st = "(w_dev w)\<lparr>f_dev := dm, f_vars := vars_at a\<rparr>"
  have ready: "fat_ready (\<lambda>s. emmc_inv s \<and> emmc_sect s (emmc_part s) = img) ?st"
    using dm(2) by (simp add: fat_ready_def fat_card_def vars_at_def)
  have le: "unat (d_size d) \<le> length (w_ram w) - off" using assms(7) by linarith
  have w: "wanted 0 d = unat (d_size d)" by (simp add: wanted_def)
  obtain st' where st': "file_fat_read (mmc_bread hsmmc 1) (argv ! 4) (drop off (w_ram w)) 0 ?st
      = Some (int (unat (d_size d)), patch 0 bs (drop off (w_ram w)), st')"
    using emmc_fat.fat_read_ok[OF ready fat_volume_dev[OF p(3)], of m "argv ! 4" d cs 0 "drop off (w_ram w)"] p(4-9) le by (auto simp: w)
  have bs: "length bs \<le> unat (d_size d)" by (simp add: p(9))
  have ram: "take off (w_ram w) @ patch 0 bs (drop off (w_ram w)) = patch off bs (w_ram w)" by (simp add: patch_def add.commute)
  have sz: "of_int (int (unat (d_size d))) = d_size d" "int (unat (d_size d)) \<noteq> -1" using of_nat_0_le_iff[of "unat (d_size d)", where 'a = int] by (simp, linarith)
  obtain e' where e': "setenv io (bytes ''filesize'') (Some (HEXS (d_size d))) (w_env w) (w_con w) = Some (e', w_con w)"
      "\<forall>x. name_ok x \<longrightarrow> getenv x e' = (if x = bytes ''filesize'' then Some (Some (HEXS (d_size d))) else getenv x (w_env w))"
    using setenv_filesize[OF assms(8,9), of io "w_con w"] by blast
  have "do_fat_fsload io hsmmc argv w = Some (0, w\<lparr>w_dev := st', w_ram := patch off bs (w_ram w), w_env := e'\<rparr>)"
    using assms(4,6) p(1) dm(1,3) st' e'(1) ram sz
    by (simp add: do_fat_fsload_def sprintf_lX Let_def del: bytes_Cons of_int_of_nat_eq)
  then show ?thesis using e'(2) by (auto simp del: bytes_Cons)
qed

end
