(* ===== verification/FatBoot.thy ===== *)
theory FatBoot
  imports FatCmd Boot
begin

text \<open>
  The FAT commands in the boot loader: the eMMC under the FAT reader is still the block device the other commands work on
  (interpretation \<open>fat_emmc\<close>), the table of commands has their entries, and a \<^verbatim>\<open>fatload\<close> line loads a file.
\<close>

section \<open>The device below the reader\<close>

definition on_dev :: "('x \<times> 's) option \<Rightarrow> 's fat \<Rightarrow> ('x \<times> 's fat) option" where
  "on_dev r st = map_option (\<lambda>(x, d). (x, st\<lparr>f_dev := d\<rparr>)) r"

definition fat_ops :: "'s blk_ops \<Rightarrow> 's fat blk_ops" where
  "fat_ops dev = \<lparr>op_init = (\<lambda>st k. on_dev (op_init dev (f_dev st) k) st),
     op_read = (\<lambda>st k a buf off n. map_option (\<lambda>(r, buf, d). (r, buf, st\<lparr>f_dev := d\<rparr>)) (op_read dev (f_dev st) k a buf off n)),
     op_write = (\<lambda>st k buf off a n. on_dev (op_write dev (f_dev st) k buf off a n) st),
     op_erase = (\<lambda>st k a n. on_dev (op_erase dev (f_dev st) k a n) st),
     op_info = (\<lambda>st. op_info dev (f_dev st)),
     op_sw_part = (\<lambda>st k q. on_dev (op_sw_part dev (f_dev st) k q) st)\<rparr>"

lemma fat_ops_device:
  assumes "block_device dev pre ok part sect cap"
  shows "block_device (fat_ops dev) (\<lambda>st. pre (f_dev st)) (\<lambda>st. ok (f_dev st)) (\<lambda>st. part (f_dev st)) (\<lambda>st. sect (f_dev st)) cap"
proof -
  note laws = block_device.sect_length[OF assms] block_device.inv_pre[OF assms] block_device.cap_bound[OF assms]
  show ?thesis
  proof (unfold_locales, goal_cases)
    case (4 st)
    then show ?case using block_device.init_ok[OF assms, of "f_dev st"] by (auto simp: fat_ops_def on_dev_def)
  next
    case (5 st sz a off buf)
    then show ?case using block_device.read_ok[OF assms, of "f_dev st" sz a off buf] by (auto simp: fat_ops_def)
  next
    case (6 st sz a off buf)
    then show ?case using block_device.write_ok[OF assms, of "f_dev st" sz a off buf] by (auto simp: fat_ops_def on_dev_def)
  next
    case (7 st buf off a)
    then show ?case using block_device.write_none[OF assms, of "f_dev st" buf off a] by (simp add: fat_ops_def on_dev_def)
  next
    case (8 st sz a)
    then show ?case using block_device.erase_ok[OF assms, of "f_dev st" sz a] by (auto simp: fat_ops_def on_dev_def)
  next
    case (9 st)
    then show ?case using block_device.info_ok[OF assms, of "f_dev st"] by (simp add: fat_ops_def)
  next
    case (10 st q)
    then show ?case using block_device.sw_part_ok[OF assms, of "f_dev st" q] by (auto simp: fat_ops_def on_dev_def)
  qed (use laws in auto)
qed

interpretation fat_emmc: block_device "fat_ops (mmc_ops hsmmc)" "\<lambda>st. emmc_pre (f_dev st)" "\<lambda>st. emmc_inv (f_dev st)"
    "\<lambda>st. emmc_part (f_dev st)" "\<lambda>st. emmc_sect (f_dev st)" EMMC_SECTORS
  by (rule fat_ops_device[OF emmc.block_device_axioms])

section \<open>The entries of the table\<close>

definition as_cmd :: "(byte list list \<Rightarrow> 'w \<Rightarrow> (int \<times> 'w) option) \<Rightarrow> u32 \<Rightarrow> byte list list \<Rightarrow> 'w \<Rightarrow> (ret \<times> 'w) option" where
  "as_cmd f flag argv w = map_option (\<lambda>(r, w). (Ret r, w)) (f argv w)"

definition fat_commands :: "'c env_io \<Rightarrow> 'h hw \<Rightarrow> ('h mmc fat, 'u, 'c) world cmd_tbl list" where
  "fat_commands io c =
     [entry ''fatload'' 6 False (as_cmd (do_fat_fsload io c)),
      entry ''fatls'' 4 True (as_cmd (do_fat_ls c)),
      entry ''fatinfo'' 3 True (as_cmd (do_fat_fsinfo c))]"

lemma find_fatload:
  assumes "sh_tbl (bo_shell b) = fat_commands io c @ others"
  shows "find_cmd (sh_tbl (snd (system b n))) (bytes ''fatload'') = Some (entry ''fatload'' 6 False (as_cmd (do_fat_fsload io c)))"
  by (cases n) (simp_all add: assms system_Suc commands_def fat_commands_def entry_def find_cmd_def name_len_def strncmp_s_def Let_def split_def)

section \<open>Properties\<close>

text \<open>
  C25. \<^verbatim>\<open>fatload\<close> at the prompt: a line \<^verbatim>\<open>fatload mmc 1 <address> <file>\<close> registers the file system of the partition, finds the file in its
  root directory, copies its bytes to the address, changes no other byte of the memory, and sets the variable \<^verbatim>\<open>filesize\<close> to the size, in a
  form that \<^verbatim>\<open>simple_strtoul\<close> reads back.
\<close>

theorem fatload_command:
  assumes "sh_tbl (bo_shell b) = fat_commands io hsmmc @ others" "sh_clear_ctrlc (bo_shell b) w = w"
    and "plain_line line" "line_words line = argv" "length argv = 5" "argv ! 0 = bytes ''fatload''"
    and "fat_card img (f_dev (w_dev w))" "if_type (mmc_blk_dev (f_dev (w_dev w)) 1) = IF_TYPE_MMC"
    and "part_type (mmc_blk_dev (f_dev (w_dev w)) 1) = PART_TYPE_DOS"
    and "fatload_file img argv m (w_dev w) d bs"
    and "ram_off (fst (simple_strtoul (argv ! 3) 16)) = Some off" "off + unat (d_size d) \<le> length (w_ram w)"
    and "env_rep es (env_arr (w_env w))" "env_fits (bytes ''filesize'') (HEXS (d_size d)) es"
  shows "\<exists>w' v. run_command (snd (system b n)) (Some line) flag w = Some (Ret 0, w') \<and> w_ram w' = patch off bs (w_ram w)
    \<and> getenv (bytes ''filesize'') (w_env w') = Some (Some v) \<and> simple_strtoul v 16 = (d_size d, [])"
proof -
  obtain w' where w': "do_fat_fsload io hsmmc argv w = Some (0, w')" "w_ram w' = patch off bs (w_ram w)"
      "\<forall>x. name_ok x \<longrightarrow> getenv x (w_env w') = (if x = bytes ''filesize'' then Some (Some (HEXS (d_size d))) else getenv x (w_env w))"
    using fatload_ok[OF assms(7-9,5,10-14), of io] by blast
  obtain as where a: "argv = bytes ''fatload'' # as" using assms(5,6) by (cases argv) auto
  have t: "take CFG_MAXARGS (line_words line) = bytes ''fatload'' # as" using assms(4,5) a by (simp add: CFG_MAXARGS_def del: bytes_Cons)
  have "run_command (snd (system b n)) (Some line) flag w = Some (Ret 0, w')"
    using run_plain_line[OF assms(3) _ t find_fatload[OF assms(1), of n], of w flag] assms(2,5) a w'(1)
    by (simp add: entry_def as_cmd_def del: bytes_Cons system.simps)
  moreover have "name_ok (bytes ''filesize'')" by (simp add: name_ok_def EQ_def)
  ultimately show ?thesis using w'(2,3) strtoul_HEXS[of "d_size d"] by (intro exI[of _ w'] exI[of _ "HEXS (d_size d)"]) (simp del: bytes_Cons)
qed

text \<open>A board with the FAT commands and the disk of \<open>demo_fat_img\<close>.\<close>

definition fat_world :: "(emmc mmc fat, musb usb, unit) world" where
  "fat_world = \<lparr>w_dev = demo_fat (emmc_on (\<lambda>_. demo_fat_img)), w_usb = demo_usb [], w_con = (), w_ram = replicate 4096 0, w_gpt = demo_gpt 1048576,
     w_idme = w_idme demo_start, w_sparse = w_sparse demo_start, w_env = started_env, w_mmc_flag = [False, True], w_bootmsg = replicate 512 0, w_sar = [], w_prm = [],
     w_fb = demo_fb, w_is_recovery_mode = False, w_gnUSBAttached = False\<rparr>"

definition fat_board :: "(emmc mmc fat, musb, unit) board" where
  "fat_board = \<lparr>bo_plat = usb_plat (fat_ops (mmc_ops hsmmc)) quiet_io (\<lambda>_. 1) 3 (\<lambda>_. None) (\<lambda>_ _. None), bo_usb = musb_hw, bo_junk = 0, bo_junk_hdr = 0,
     bo_shell = \<lparr>sh_tbl = fat_commands quiet_io hsmmc, sh_clear_ctrlc = (\<lambda>w. w), sh_had_ctrlc = (\<lambda>_. False), sh_tstc = (\<lambda>w. (False, w)),
       sh_getc = (\<lambda>w. (13, w)), sh_complete = (\<lambda>_ w. (None, w))\<rparr>\<rparr>"

lemma fat_line: "plain_line (bytes ''fatload mmc 1 80000100 Hello.txt'')"
  "line_words (bytes ''fatload mmc 1 80000100 Hello.txt'') = [bytes ''fatload'', bytes ''mmc'', bytes ''1'', bytes ''80000100'', bytes ''Hello.txt'']"
proof -
  show "plain_line (bytes ''fatload mmc 1 80000100 Hello.txt'')" by (simp add: plain_line_def CFG_CBSIZE_def)
  have n: "line_words [] = []" by (simp add: line_words_def)
  have "line_words (bytes ''Hello.txt'' @ []) = [bytes ''Hello.txt'']"
    "line_words (bytes ''80000100'' @ 0x20 # bytes ''Hello.txt'') = bytes ''80000100'' # line_words (bytes ''Hello.txt'')"
    "line_words (bytes ''1'' @ 0x20 # bytes ''80000100 Hello.txt'') = bytes ''1'' # line_words (bytes ''80000100 Hello.txt'')"
    "line_words (bytes ''mmc'' @ 0x20 # bytes ''1 80000100 Hello.txt'') = bytes ''mmc'' # line_words (bytes ''1 80000100 Hello.txt'')"
    "line_words (bytes ''fatload'' @ 0x20 # bytes ''mmc 1 80000100 Hello.txt'') = bytes ''fatload'' # line_words (bytes ''mmc 1 80000100 Hello.txt'')"
    by (subst line_words_cons; simp add: is_blank_def n)+
  then show "line_words (bytes ''fatload mmc 1 80000100 Hello.txt'') = [bytes ''fatload'', bytes ''mmc'', bytes ''1'', bytes ''80000100'', bytes ''Hello.txt'']"
    by simp
qed

lemma demo_dent_size: "d_size demo_dent = 600"
  by (simp add: d_size_def demo_dent_def bslice_def)

lemma fat_demo_start: "fat_start (demo_fat_img 0) 1 = Some (0, 1)"
proof -
  have "dos_magic (demo_fat_img 0)"
    by (simp add: dos_magic_def DOS_PART_MAGIC_OFFSET_def demo_fat_img_def FAT16_SIGN_def nth_append)
  moreover have "\<not> fat_at DOS_FS_TYPE_OFFSET (demo_fat_img 0)"
    by (simp add: fat_at_def DOS_FS_TYPE_OFFSET_def demo_fat_img_def FAT16_SIGN_def bslice_def strncmp_s_def numeral_3_eq_3)
  moreover have "find_part 0 1 (dos_entries (demo_fat_img 0)) 1 = Inl (bslice 0x1be 16 (demo_fat_img 0))" "le32_to_int (start4 (bslice 0x1be 16 (demo_fat_img 0))) = 0"
    by (simp_all add: dos_entries_def DOS_PART_TBL_OFFSET_def demo_fat_img_def FAT16_SIGN_def bslice_def upt_conv_Cons sys_ind_def is_extended_def
        start4_def le32_to_int_def nth_append)
  ultimately show ?thesis by (simp add: fat_start_def)
qed

lemma fat_demo_file: "fatload_file demo_fat_img [bytes ''fatload'', bytes ''mmc'', bytes ''1'', bytes ''80000100'', bytes ''Hello.txt''] 1
    (w_dev fat_world) demo_dent (replicate 512 3 @ replicate 88 5)"
proof -
  have "dev_args [bytes ''fatload'', bytes ''mmc'', bytes ''1'', bytes ''80000100'', bytes ''Hello.txt''] = Some (1, 1)"
    by code_simp
  moreover have "(w_dev fat_world)\<lparr>f_vars := vars_at (0, 1)\<rparr> = demo_fat (emmc_on (\<lambda>_. demo_fat_img))"
    by (simp add: fat_world_def demo_fat_def vars_at_def)
  moreover have "replicate 512 3 @ replicate 88 5 = take 600 (concat (map (cluster_bytes demo_fat_img demo_vol) [2, 4]))"
    by (simp add: cluster_bytes_def demo_fat_clusters demo_fat_img_def)
  moreover have "FatRead.plain_name (bytes ''Hello.txt'')" by (simp add: FatRead.plain_name_def ISDIRDELIM_def)
  ultimately show ?thesis
    unfolding fatload_file_def using fat_demo_start demo_fat_volume demo_fat_ok demo_fat_find(1) demo_fat_file(2) demo_dent_size
    by (intro exI[of _ 1] exI[of _ "(0, 1)"] exI[of _ demo_vol] exI[of _ "[2, 4]"]) (simp del: bytes_Cons)
qed

theorem fatload_command_witness:
  "\<exists>w' v. run_command (snd (system fat_board 0)) (Some (bytes ''fatload mmc 1 80000100 Hello.txt'')) 0 fat_world = Some (Ret 0, w')
    \<and> w_ram w' = replicate 256 0 @ replicate 512 3 @ replicate 88 5 @ replicate 3240 0
    \<and> getenv (bytes ''filesize'') (w_env w') = Some (Some v) \<and> simple_strtoul v 16 = (600, [])"
proof -
  have c: "fat_card demo_fat_img (f_dev (w_dev fat_world))" "if_type (mmc_blk_dev (f_dev (w_dev fat_world)) 1) = IF_TYPE_MMC"
      "part_type (mmc_blk_dev (f_dev (w_dev fat_world)) 1) = PART_TYPE_DOS"
    using demo_fat_length by (simp_all add: fat_card_def fat_world_def demo_fat_def emmc_on_inv) (simp_all add: emmc_on_def)
  have b: "sh_tbl (bo_shell fat_board) = fat_commands quiet_io hsmmc @ []" "sh_clear_ctrlc (bo_shell fat_board) fat_world = fat_world"
    by (simp_all add: fat_board_def)
  have w: "w_ram fat_world = replicate 4096 0" "w_env fat_world = started_env" by (simp_all add: fat_world_def)
  have r: "ram_off (fst (simple_strtoul (bytes ''80000100'') 16)) = Some 256"
  proof -
    have "simple_strtoul (bytes ''80000100'') 16 = (0x80000100, [])" by code_simp
    then show ?thesis by (simp add: ram_off_def PHYS_SDRAM_1_def del: bytes_Cons)
  qed
  have e: "env_fits (bytes ''filesize'') (HEXS 600) default_entries"
    using length_HEXS[of 600] by (simp add: env_fits_def del_var_def default_entries_def key_of_def EQ_def entry_bytes_def ENV_SIZE_def CFG_ENV_SIZE_def)
  have p: "patch 256 (replicate 512 3 @ replicate 88 5) (replicate 4096 0) = replicate 256 0 @ replicate 512 3 @ replicate 88 5 @ (replicate 3240 0 :: byte list)"
    by (simp add: patch_def)
  show ?thesis
    using fatload_command[OF b fat_line _ _ c fat_demo_file, of 256 default_entries 0 0] r e p w started_env_rep demo_dent_size
    by (simp del: bytes_Cons system.simps)
qed

end
