(* ===== verification/Spec2Isabelle.thy ===== *)
theory Spec2Isabelle
  imports EmmcHw IdmeStore EnvStore Stack Boot I2cHw FatBoot
begin

text \<open>
  \<^bold>\<open>The boot loader of the tate device.\<close> The program is the U-Boot under \<^verbatim>\<open>src/CustomUboot\<close> in the
  configuration \<^verbatim>\<open>include/configs/tate.h\<close> (board \<^verbatim>\<open>board/bowser\<close>, processor \<^verbatim>\<open>cpu/omap4\<close>). It starts the eMMC, reads the
  identity area of the device to choose what to boot, loads the partition table, and either boots an image or serves the
  fastboot protocol, by which a host formats, erases and flashes the device over USB.

  \<^bold>\<open>How the code is modelled.\<close> Functions without effects are functions on words and lists of bytes. Functions with
  effects take the state and return it, in the option monad: \<^const>\<open>None\<close> is a run that does not return (a register that is
  polled for ever) or an access outside an object, so that a theorem with \<^const>\<open>Some\<close> in its conclusion shows that the code
  returns and stays inside its buffers. Loops over data are recursive functions; loops that poll hardware are partial functions,
  with no bound on the number of turns. Error codes are the integers of the code. Sizes and addresses are words of the width the
  code has, so that sums wrap around. Messages on the console are left out where nothing depends on them.

  One width is not in the source. \<^verbatim>\<open>idme_select_boot_image\<close> and \<^verbatim>\<open>getbootmode\<close> (\<^verbatim>\<open>common/cmd_idme.c\<close>) declare
  \<^verbatim>\<open>char bootmode[17]\<close> and write a zero to \<^verbatim>\<open>bootmode[17]\<close>. What lies there depends on the compiler, which may leave unused bytes behind the
  array to align the next variable. Their number is the argument \<open>slack\<close> (\<open>p_slack\<close> of the platform), and nothing is assumed of it:
  with \<open>slack = 0\<close> both functions give \<^const>\<open>None\<close> as soon as they have read the identity area, with \<open>0 < slack\<close> the write
  changes nothing else. The theorems on what runs through them state both cases.

  The hardware is an argument: the registers of the eMMC controller (\<open>hw\<close> of \<open>Mmc\<close>), those of the USB controller (\<open>usb_hw\<close> of
  \<open>Usb\<close>), the console (\<open>env_io\<close> of \<open>Env\<close>), the I2C bus with the display and the delays (\<open>pw\<close> of \<open>Battery\<close>), the registers of the I2C controllers
  (\<open>i2c_io\<close> of \<open>I2c\<close>). \<open>EmmcHw\<close>, \<open>UsbHw\<close> and \<open>I2cHw\<close> hold reference devices, written from the behaviour
  the drivers rely on, and the theorems down to the registers are about them.

  \<^bold>\<open>The theories.\<close>

  \<^item> \<open>Prelude\<close>: words, byte lists, reading and writing inside a buffer (\<open>load\<close>, \<open>store\<close>, \<open>patch\<close>), little-endian numbers.
  \<^item> \<open>CString\<close> (\<^verbatim>\<open>lib_generic/string.c\<close>): the string library, on a memory of bytes; each routine is shown equal to its
    meaning on lists, and the clients use the list versions \<open>strcmp_s\<close>, \<open>strncmp_s\<close>, \<open>memcmp_s\<close>.
  \<^item> \<open>Vsprintf\<close> (\<^verbatim>\<open>lib_generic/vsprintf.c\<close>, \<^verbatim>\<open>ctype.c\<close>): number parsing and formatted printing.
  \<^item> \<open>Crc32\<close> (\<^verbatim>\<open>lib_generic/crc32.c\<close>): the unrolled table version and the shift register it computes.
  \<^item> \<open>BlockDev\<close>: the interface of the eMMC as a record of operations, and the locale \<open>block_device\<close> with its laws.
  \<^item> \<open>PartDos\<close> (\<^verbatim>\<open>disk/part_dos.c\<close>, \<^verbatim>\<open>fs/fat/fat.c\<close>: \<^verbatim>\<open>fat_register_device\<close>), \<open>Mmc\<close> (\<^verbatim>\<open>cpu/omap4/mmc.c\<close>): the driver,
    register by register. \<open>EmmcHw\<close>: the reference controller with its card, and the interpretation \<open>emmc\<close> of \<open>block_device\<close>
    on the driver.
  \<^item> \<open>Ptn\<close> (the partition table of \<^verbatim>\<open>common/cmd_fastboot.c\<close>), \<open>Gpt\<close> (\<^verbatim>\<open>board/bowser/mmc.c\<close>: formatting and loading the table on the
    disk), \<open>Sparse\<close> (\<^verbatim>\<open>cpu/omap4/sparse.c\<close>: streaming expansion of sparse images).
  \<^item> \<open>Idme\<close>, \<open>IdmeStore\<close> (\<^verbatim>\<open>common/cmd_idme.c\<close>): the identity variables, their commands and the choice of the boot image.
  \<^item> \<open>Env\<close>, \<open>EnvStore\<close> (\<^verbatim>\<open>common/cmd_nvedit.c\<close>, \<^verbatim>\<open>env_common.c\<close>, \<^verbatim>\<open>env_nowhere.c\<close>): the environment on its array, and the
    list of entries it implements.
  \<^item> \<open>World\<close>: the state of the whole program; \<open>MmcCmd\<close> (\<^verbatim>\<open>common/cmd_mmc.c\<close>, \<^verbatim>\<open>common/bootmsg.c\<close>).
  \<^item> \<open>Fastboot\<close> (\<^verbatim>\<open>common/cmd_fastboot.c\<close>): the packet handler with one definition per command. \<open>FastbootInv\<close>: its invariant,
    and the locale \<open>fb_rel\<close> of relations every command keeps, with two interpretations. \<open>FastbootSession\<close>: sequences of
    packets (downloads, flashing, chunks) over the locales \<open>fb_link\<close> (a link that sends status packets) and \<open>fb_flash\<close> (a link and a disk).
  \<^item> \<open>Usb\<close> (\<^verbatim>\<open>drivers/fastboot.c\<close> and what it calls): the USB driver, register by register, and \<^verbatim>\<open>do_fastboot\<close>. \<open>UsbHw\<close>: the
    reference controller, the interpretations \<open>link\<close> and \<open>board\<close>, and the refinement of the polling loop to the delivery of
    packets. \<open>UsbInv\<close>: the sizes of the driver's arrays. \<open>Stack\<close>: the properties of the whole path from the USB
    packets to the sectors of the eMMC.
  \<^item> \<open>Atag\<close> (\<^verbatim>\<open>lib_arm/armlinux.c\<close>): the list of tags for the kernel, in memory; \<open>Booti\<close> (\<^verbatim>\<open>do_booti\<close> of \<^verbatim>\<open>common/cmd_bootm.c\<close>): loading and starting an
    Android boot image; \<open>BootiOk\<close>: both on any block device.
  \<^item> \<open>Command\<close> (\<^verbatim>\<open>common/main.c\<close>, \<^verbatim>\<open>common/command.c\<close>): reading, splitting, expanding and running a line, and the main loop;
    \<open>CommandOk\<close>: what the steps compute. \<open>Boot\<close>: the table of commands, the calls that go from command to command (\<open>system b n\<close>, nested up to depth \<open>n\<close>), and the way
    from the entry of \<open>main_loop\<close> to the kernel.
  \<^item> \<open>Battery\<close> (\<^verbatim>\<open>drivers/bq27541.c\<close>, \<^verbatim>\<open>twl6030.c\<close>, \<^verbatim>\<open>battery_loop.c\<close>): the gas gauge, the power chip and the charge loop; \<open>Charger\<close>
    (\<^verbatim>\<open>drivers/smb347.c\<close>): the charger, with a bus of register files (\<open>file_bus\<close>) as reference. \<open>I2c\<close>
    (\<^verbatim>\<open>drivers/omap24xx_i2c.c\<close>): the driver of the bus, register by register; \<open>I2cHw\<close>: reference controllers with chips, on which the driver implements
    \<open>file_bus\<close>.
  \<^item> \<open>Fat\<close> (\<^verbatim>\<open>fs/fat/fat.c\<close>): the FAT12, FAT16 and FAT32 reader with its cached table, runs of clusters, long names, directories and
    listings. \<open>FatOk\<close>: the table, over the locale \<open>fat_disk\<close> (a disk whose sectors are read and do not change); \<open>FatFile\<close>: clusters and the
    contents of a file; \<open>FatRead\<close>: the root directory, reading a file, and the interpretation \<open>emmc_fat\<close> on the driver of the eMMC. \<open>FatCmd\<close>
    (\<^verbatim>\<open>common/cmd_fat.c\<close>): \<^verbatim>\<open>fatload\<close>, \<^verbatim>\<open>fatls\<close> and \<^verbatim>\<open>fatinfo\<close>; \<open>FatBoot\<close>: their entries in the table of commands, the interpretation
    \<open>fat_emmc\<close> by which the other commands work on the device below the reader, and a \<^verbatim>\<open>fatload\<close> line from the prompt to the memory.

  \<^bold>\<open>What the theorems show.\<close> The drivers: reading, writing and erasing through the registers do what they say to the sectors,
  initialisation ends, and the polling loop delivers each packet once and in order. Above them: the sparse expansion writes what the
  chunk list means, whatever the cut into sections; formatting and loading agree on the table up to the
  entries the loader misses; identity variables and environment are stores with the usual laws, up to the overruns that
  are stated as theorems of their own; the fastboot commands write the downloaded image to the partition and nothing else, and
  the handler keeps its invariant for every packet a host can send. Entered with the eMMC initialised and the partition
  table loaded, the main loop starts the kernel of the right image with a complete list of tags, for any depth of at least one call; without an image it
  serves fastboot. Both need a byte behind the array \<open>bootmode\<close> (see above), and both theorems say that without one the run is
  undefined. The battery check ends with a good battery or the
  power off as long as the gauge answers, and the charger is set up as the code means to; the I2C driver reads and writes the registers of the chips, and reports a chip that
  does not answer. The FAT reader returns the bytes of a file along its chain of clusters, and -1 for a file that is missing; \<^verbatim>\<open>fatload\<close> puts them into the memory and the size into the environment. The string, number and checksum routines under them
  meet their specifications. Where the code has a flaw, the theorem states what the code does.

  \<^bold>\<open>Not modelled.\<close> Clock, pin and memory set-up of the board (constant register sequences), the display (its calls are recorded by name) and the
  keypad, the working directory of \<^verbatim>\<open>fs/fat/file.c\<close>, which nothing calls, the printing functions of the partition code, the console with command line completion, the commands other than those in \<open>Boot\<close> (a parameter there), the boot of uImage files, and everything the configuration does not compile: other boards,
  processors, drivers and file systems.
\<close>

section \<open>Clients of the eMMC\<close>






lemma zeros_area: "idme_area (zeros p) a = replicate CONFIG_IDME_SIZE 0" "\<not> idme_magic (idme_area (zeros p) a)"
proof -
  have "concat (replicate n (replicate m x)) = replicate (n * m) x" for n m and x :: byte
    by (induction n) (simp_all add: replicate_add)
  then show z: "idme_area (zeros p) a = replicate CONFIG_IDME_SIZE 0"
    by (simp add: idme_area_def zeros_def sectors_def CONFIG_IDME_SIZE_def map_replicate_const)
  show "\<not> idme_magic (idme_area (zeros p) a)"
    by (simp add: z idme_magic_iff CONFIG_IDME_SIZE_def IDME_MAGIC_NUMBER_def list_eq_iff_nth_eq)
      (rule exI[of _ 0], simp)
qed

definition idme0 :: idme where
  "idme0 = \<lparr>gblock_buff = replicate 512 0, gidme_buff = replicate CONFIG_IDME_SIZE 0, gidme_buff_valid = 0,
     board_id = replicate 17 0, board_serial = replicate 17 0\<rparr>"

text \<open>
  C5. Which image boots: \<^verbatim>\<open>idme_select_boot_image\<close> reads the identity area of the boot partition
  (default contents are written when its magic number is missing), chooses the diagnostic kernel for mode 2
  or 6, recovery for mode 3 or 7 or the volume-up key and leaves the caller's choice otherwise; it
  mirrors the area to the user copy, turns mode 7 into mode 1, and changes no other sector of the user area. The whole of
  the post mode is cleared before the boot count 1 is written to it (the comment in the code says that only the count is
  copied). All of this needs a byte behind the array \<^verbatim>\<open>bootmode[17]\<close>, to which the code writes a zero: in an
  array of 17 bytes with nothing behind it, the function leaves the array, and this is so for every content of the disk.
\<close>

theorem boot_image_selection:
  assumes "block_device dev pre ok part sect cap"
    and "ok s" "part s = 0" and "1056 \<le> cap" and "length (gblock_buff i) = 512"
  shows "if slack = 0 then idme_select_boot_image slack dev gpio ptn i s = None
    else \<exists>i' s'. let B = (if idme_magic (idme_area (sect s 1) 0) then idme_area (sect s 1) 0 else default_area);
        P = patch 0x1018 (pad 16 [1]) B
      in idme_select_boot_image slack dev gpio ptn i s = Some (0, boot_choice gpio (B ! 0x1008) ptn, i', s')
        \<and> ok s' \<and> part s' = 0 \<and> idme_area (sect s' 0) USER_BLOCK = B
        \<and> idme_area (sect s' 1) 0 = (if B ! 0x1008 = 0x37 then patch 0x1008 (pad 16 (bytes ''1'')) P else P)
        \<and> (\<forall>j. j < USER_BLOCK \<or> USER_BLOCK + 32 \<le> j \<longrightarrow> sect s' 0 j = sect s 0 j)"
  using block_device.select_boot_image_ok(1)[OF assms, of slack gpio ptn] block_device.select_boot_image_ok(2)[OF assms, of gpio ptn]
  unfolding Let_def by (cases "slack = 0") auto

theorem boot_image_selection_witness:
  "(\<exists>i' s'. idme_select_boot_image 3 (mmc_ops hsmmc) (\<lambda>_. 1) (bytes ''boot'') idme0 (emmc_on zeros)
      = Some (0, bytes ''dkernel'', i', s') \<and> emmc_inv s')
    \<and> idme_select_boot_image 0 (mmc_ops hsmmc) (\<lambda>_. 1) (bytes ''boot'') idme0 (emmc_on zeros) = None"
proof -
  have "default_area ! 0x1008 = 0x32"
  proof -
    have "default_area ! 0x1008 = var_at nv_bootmode default_area ! 0"
      using default_area_values(1) by (simp add: var_at_def nth_bslice IDME_BASE_ADDR_def CONFIG_IDME_SIZE_def)
    then show ?thesis using default_area_values(3)[OF nv_modes(3)] by (simp add: default_value_def pad_def)
  qed
  then show ?thesis
    using boot_image_selection[OF emmc.block_device_axioms emmc_zeros(1), of idme0 3 "\<lambda>_. 1" "bytes ''boot''"]
      boot_image_selection[OF emmc.block_device_axioms emmc_zeros(1), of idme0 0 "\<lambda>_. 1" "bytes ''boot''"] zeros_area(2)[of 1 0]
    by (auto simp: idme0_def EMMC_SECTORS_def boot_choice_def Let_def)
qed

text \<open>
  C6. The identity variables form a store: after \<^verbatim>\<open>idme_update_var\<close> of a variable, \<^verbatim>\<open>idme_get_var\<close> returns
  the new value, cut and zero-padded to the variable's size, for this variable, and the
  previous value for every other one; the user area is not touched. This holds for the variables
  that lie within one block of the area.
\<close>

theorem idme_store_law:
  assumes "block_device dev pre ok part sect cap" and "ok s" and "32 \<le> cap"
    and "v \<in> set nvram_info" "in_block v" and "w \<in> set nvram_info" "in_block w"
    and "length (gblock_buff i) = 512" "nv_size w < length buf"
  shows "\<exists>i' s' i'' s''. idme_update_var dev (bytes (nv_name v)) (Some x) i s = Some (1, i', s')
    \<and> idme_get_var dev (bytes (nv_name w)) buf (length buf) i' s'
        = Some (0, (if w = v then pad (nv_size v) x else var_at w (idme_area (sect s 1) 0)) @ [0] @ drop (nv_size w + 1) buf, i'', s'')
    \<and> ok s'' \<and> part s'' = 0 \<and> sect s'' = sect s' \<and> sect s' 0 = sect s 0"
  by (rule block_device.update_then_get[OF assms])

theorem idme_store_law_witness:
  "\<exists>i' s' i'' s''. idme_update_var (mmc_ops hsmmc) (bytes ''bootmode'') (Some (bytes ''5'')) idme0 (emmc_on zeros) = Some (1, i', s')
    \<and> idme_get_var (mmc_ops hsmmc) (bytes ''bootmode'') (replicate 17 1) 17 i' s' = Some (0, bytes ''5'' @ replicate 16 0, i'', s'')"
proof -
  have "pad 16 (bytes ''5'') @ [0] = bytes ''5'' @ replicate 16 0" by (simp add: pad_def replicate_app_Cons_same flip: replicate_Suc)
  then show ?thesis
    using idme_store_law[OF emmc.block_device_axioms emmc_zeros(1) _ nv_modes(3,5,3,5), of idme0 "replicate 17 1" "bytes ''5''"]
    by (auto simp: idme0_def EMMC_SECTORS_def)
qed

text \<open>
  C7. The update requested by the running system: \<^verbatim>\<open>idme_update_vars_ex\<close> does nothing without the magic
  number (-1) or without the signature (0) in the user copy. With them, each variable whose bit is set
  in the bitmap is taken from the user copy, each other one keeps its value of the boot area, and the
  signature and the bitmap of the user copy are cleared, so that the update happens once.
\<close>

theorem idme_user_update:
  assumes "block_device dev pre ok part sect cap" and "ok s" "part s = 0" and "1056 \<le> cap"
  shows "\<exists>r s'. let U = idme_area (sect s 0) USER_BLOCK; A = idme_area (sect s 1) 0 in
    idme_update_vars_ex dev s = Some (r, s') \<and> ok s' \<and> part s' = 0
    \<and> (if \<not> idme_magic U then r = -1 \<and> sect s' = sect s
       else if bslice 0x1f8 12 U \<noteq> bytes ''adbdefg12345'' then r = 0 \<and> sect s' = sect s
       else r = 0 \<and> idme_area (sect s' 0) USER_BLOCK = patch 0x204 (le32 0) (patch 0x1f8 (replicate 12 0) U)
         \<and> take 8 (idme_area (sect s' 1) 0) = take 8 A
         \<and> (\<forall>j<length nvram_info. var_at (nvram_info ! j) (idme_area (sect s' 1) 0)
              = var_at (nvram_info ! j) (if (of_le (bslice 0x204 4 U) :: u32) AND push_bit j 1 \<noteq> 0 then U else A)))"
  using block_device.update_vars_ex_ok[OF assms] unfolding Let_def .

theorem idme_user_update_witness:
  "\<exists>s'. idme_update_vars_ex (mmc_ops hsmmc) (emmc_on zeros) = Some (-1, s') \<and> emmc_sect s' = zeros"
  using idme_user_update[OF emmc.block_device_axioms emmc_zeros(1)] zeros_area(2)[of 0 USER_BLOCK]
  by (auto simp: EMMC_SECTORS_def Let_def)


definition gpt0 :: gpt where
  "gpt0 = \<lparr>the_ptable = replicate PTABLE_SIZE 0, gp_data = replicate 512 0, gp_entry = replicate 512 0,
     gp_ptn = \<lparr>ptable = replicate 16 \<lparr>pt_name = replicate 16 0, pt_start = 0, pt_length = 0, pt_flags = 0\<rparr>, pcount = 0\<rparr>\<rparr>"

lemma gpt0_ok: "length (gp_entry gpt0) = 512" "length (gp_data gpt0) = 512" "ptab_inv (gp_ptn gpt0)"
  by (simp_all add: gpt0_def ptab_inv_def MAX_PTN_def)

text \<open>
  C13. Formatting: \<^verbatim>\<open>do_format\<close> on an eMMC with more than 3627008 sectors writes the table of the device's
  layout, with its two checksums, to the first 34 sectors, keeps every other sector, and leaves the layout in the
  partition table of fastboot.
\<close>

theorem format_writes_layout:
  assumes "block_device dev pre ok part sect cap" and "pre s" "plain_mbr (sect s 0 0)" and "3627008 < cap"
    and "length (gp_entry g) = 512" "length (gp_data g) = 512" "ptab_inv (gp_ptn g)"
  shows "\<exists>g' s'. do_format dev g s = Some (0, g', s') \<and> ok s' \<and> part s' = 0
    \<and> sect s' = (sect s)(0 := upd_sectors (sect s 0) 0 (table (of_nat cap - 1) (area (layout (of_nat cap)))))
    \<and> ptab_inv (gp_ptn g') \<and> ptab_entries (gp_ptn g') = map to_pt (layout (of_nat cap))"
  by (rule block_device.format_ok[OF assms])

theorem format_writes_layout_witness:
  "\<exists>g' s'. do_format (mmc_ops hsmmc) gpt0 (emmc_on zeros) = Some (0, g', s') \<and> length (ptab_entries (gp_ptn g')) = 13"
  using format_writes_layout[OF emmc.block_device_axioms, of "emmc_on zeros" gpt0] emmc_zeros gpt0_ok
  by (auto simp: EMMC_SECTORS_def)

text \<open>
  C14. Loading: from a disk that carries a table of up to 128 entries, \<^verbatim>\<open>load_ptbl\<close> adds the first 124 of them, in
  order, to the partition table of fastboot and changes nothing on the disk. (The loop starts at the
  sector of the header, so that the last four entries are not read.)
\<close>

theorem load_reads_table:
  assumes "block_device dev pre ok part sect cap" and "ok s"
    and "length (gp_entry g) = 512" "length (gp_data g) = 512" and "list_all ent_ok es" "length es \<le> 128"
    and "\<And>i. i < 34 \<Longrightarrow> sect s (part s) i = bslice (512 * i) 512 (table n (area es))" and "34 \<le> cap"
  shows "\<exists>g' s'. load_ptbl dev g s = Some (0, g', s') \<and> ok s' \<and> part s' = part s \<and> sect s' = sect s
    \<and> the_ptable g' = the_ptable g \<and> gp_ptn g' = foldl fastboot_flash_add_ptn (gp_ptn g) (map to_pt (take 124 es))"
  by (rule block_device.load_table[OF assms])

definition demo_ents :: "efi_ent list" where
  "demo_ents = [(2048, 4095, bytes ''boot''), (4096, 8191, bytes ''system'')]"

definition demo_disk :: "nat \<Rightarrow> nat \<Rightarrow> byte list" where
  "demo_disk = (\<lambda>p n. if n < 34 then bslice (512 * n) 512 (table 0 (area demo_ents)) else replicate 512 0)"

theorem load_reads_table_witness:
  "\<exists>g' s'. load_ptbl (mmc_ops hsmmc) gpt0 (emmc_on demo_disk) = Some (0, g', s')
    \<and> fastboot_flash_find_ptn (gp_ptn g') (bytes ''system'') = Some (to_pt (4096, 8191, bytes ''system''))"
proof -
  have es: "list_all ent_ok demo_ents" "length demo_ents \<le> 128" by (simp_all add: demo_ents_def ent_ok_def EFI_NAMELEN_def)
  then have "length (table 0 (area demo_ents)) = 17408" by simp
  then have l: "length (demo_disk p n) = 512" for p n by (simp add: demo_disk_def)
  have iv: "emmc_inv (emmc_on demo_disk)" by (rule emmc_on_inv) (rule l)
  obtain g' s' where g: "load_ptbl (mmc_ops hsmmc) gpt0 (emmc_on demo_disk) = Some (0, g', s')"
      "gp_ptn g' = foldl fastboot_flash_add_ptn (gp_ptn gpt0) (map to_pt (take 124 demo_ents))"
    using load_reads_table[OF emmc.block_device_axioms iv gpt0_ok(1,2) es, where n = 0]
    by (auto simp: demo_disk_def EMMC_SECTORS_def)
  have "ptab_entries (gp_ptn gpt0) = []" by (simp add: ptab_entries_def gpt0_def)
  then have e: "ptab_entries (gp_ptn g') = map to_pt demo_ents"
    unfolding g(2) ptab.adds_entries[OF gpt0_ok(3)] by (simp add: demo_ents_def)
  have i: "ptab_inv (gp_ptn g')" unfolding g(2) by (rule ptab.adds_inv[OF gpt0_ok(3)])
  have "cstr_of (pt_name (to_pt (4096, 8191, bytes ''system''))) = bytes ''system''"
    "cstr_of (pt_name (to_pt (2048, 4095, bytes ''boot''))) = bytes ''boot''"
    by (rule cstr_to_pt; simp)+
  then have "fastboot_flash_find_ptn (gp_ptn g') (bytes ''system'') = Some (to_pt (4096, 8191, bytes ''system''))"
    using ptab.find_entries[OF i, of "bytes ''system''"] by (simp add: e demo_ents_def)
  with g(1) show ?thesis by blast
qed

text \<open>
  C15. What \<^verbatim>\<open>do_format\<close> leaves in the partition table is sound: on an eMMC with more than 3627008 sectors the partitions lie in
  ascending order without overlap, behind the 34 sectors of the table and inside the device, and each of them
  is found by \<^verbatim>\<open>fastboot_flash_find_ptn\<close> under its name (no other hides it), so that flashing one of them writes
  neither to another nor to the table.
\<close>

theorem format_partitions_sound:
  assumes "block_device dev pre ok part sect cap" and "pre s" "plain_mbr (sect s 0 0)" and "3627008 < cap"
    and "length (gp_entry g) = 512" "length (gp_data g) = 512" "ptab_inv (gp_ptn g)"
  shows "\<exists>g' s'. do_format dev g s = Some (0, g', s')
    \<and> sorted_wrt (\<lambda>p q. pt_end p \<le> unat (pt_start q)) (ptab_entries (gp_ptn g'))
    \<and> list_all (\<lambda>p. 34 \<le> unat (pt_start p) \<and> 512 \<le> unat (pt_length p) \<and> pt_end p \<le> cap) (ptab_entries (gp_ptn g'))
    \<and> length (ptab_entries (gp_ptn g')) = 13
    \<and> list_all (\<lambda>p. fastboot_flash_find_ptn (gp_ptn g') (cstr_of (pt_name p)) = Some p) (ptab_entries (gp_ptn g'))"
proof -
  obtain g' s' where f: "do_format dev g s = Some (0, g', s')" "ptab_inv (gp_ptn g')"
      "ptab_entries (gp_ptn g') = map to_pt (layout (of_nat cap))"
    using block_device.format_ok[OF assms] by blast
  note lp = layout_partitions[OF assms(4) conjunct2[OF block_device.cap_bound[OF assms(1)]]]
  have "list_all (\<lambda>p. fastboot_flash_find_ptn (gp_ptn g') (cstr_of (pt_name p)) = Some p) (ptab_entries (gp_ptn g'))"
    using ptab.find_distinct[OF f(2)] lp(3) by (simp add: list_all_iff f(3))
  then show ?thesis using f lp(1,2) by (intro exI[of _ g'] exI[of _ s']) (simp add: list_all_iff)
qed

theorem format_partitions_sound_witness:
  "\<exists>g' s'. do_format (mmc_ops hsmmc) gpt0 (emmc_on zeros) = Some (0, g', s')
    \<and> list_all (\<lambda>p. pt_end p \<le> EMMC_SECTORS) (ptab_entries (gp_ptn g'))"
proof -
  obtain g' s' where "do_format (mmc_ops hsmmc) gpt0 (emmc_on zeros) = Some (0, g', s')"
      "list_all (\<lambda>p. 34 \<le> unat (pt_start p) \<and> 512 \<le> unat (pt_length p) \<and> pt_end p \<le> EMMC_SECTORS) (ptab_entries (gp_ptn g'))"
    using format_partitions_sound[OF emmc.block_device_axioms, of "emmc_on zeros" gpt0] emmc_zeros gpt0_ok
    by (auto simp: EMMC_SECTORS_def)
  then show ?thesis by (auto simp: list_all_iff)
qed

text \<open>
  C16. A disk without a table: \<^verbatim>\<open>load_ptbl\<close> formats it, loads the new table and returns -1; \<^verbatim>\<open>do_format\<close> and
  \<^verbatim>\<open>load_ptbl\<close>, which call each other, come to an end.
\<close>

theorem unformatted_disk:
  assumes "block_device dev pre ok part sect cap" and "ok s" "part s = 0" "plain_mbr (sect s 0 0)" and "3627008 < cap"
    and "length (gp_entry g) = 512" "length (gp_data g) = 512" "ptab_inv (gp_ptn g)"
    and "take 8 (sect s 0 1) \<noteq> bytes ''EFI PART''"
  shows "\<exists>g' s'. load_ptbl dev g s = Some (-1, g', s') \<and> ok s' \<and> part s' = 0
    \<and> sect s' = (sect s)(0 := upd_sectors (sect s 0) 0 (table (of_nat cap - 1) (area (layout (of_nat cap)))))
    \<and> ptab_inv (gp_ptn g') \<and> ptab_entries (gp_ptn g') = map to_pt (layout (of_nat cap))"
  by (rule block_device.load_unformatted[OF assms])

theorem unformatted_disk_witness:
  "\<exists>g' s'. load_ptbl (mmc_ops hsmmc) gpt0 (emmc_on zeros) = Some (-1, g', s')
    \<and> ptab_entries (gp_ptn g') = map to_pt (layout (of_nat EMMC_SECTORS))"
proof -
  have "take 8 (zeros 0 1) ! 0 \<noteq> bytes ''EFI PART'' ! 0" by (simp add: zeros_def)
  then have "take 8 (emmc_sect (emmc_on zeros) 0 1) \<noteq> bytes ''EFI PART''" unfolding emmc_on_sel by metis
  then show ?thesis
    using unformatted_disk[OF emmc.block_device_axioms, of "emmc_on zeros" gpt0] emmc_zeros gpt0_ok
    by (auto simp: EMMC_SECTORS_def)
qed


section \<open>The eMMC driver on its hardware\<close>

text \<open>
  C17. Reading: \<^verbatim>\<open>mmc_read\<close> of any positive size, down to the register accesses, fills the buffer with the
  sectors from the address on, rounded up to whole sectors, and changes neither the rest of the buffer nor the card.
\<close>

theorem driver_read:
  assumes "emmc_inv s" and "0 < sz" and "unat sz + 511 < 2 ^ 32" and "unat a + nsect (unat sz) \<le> EMMC_SECTORS"
    and "off + 512 * nsect (unat sz) \<le> length buf"
  shows "\<exists>s'. mmc_read hsmmc s 1 a buf off sz
      = Some (1, patch off (sectors (emmc_sect s (emmc_part s)) (unat a) (nsect (unat sz))) buf, s')
    \<and> emmc_inv s' \<and> emmc_part s' = emmc_part s \<and> emmc_sect s' = emmc_sect s"
  using emmc.read_ok[OF assms] by (simp add: mmc_ops_def)

theorem driver_read_witness:
  "\<exists>s'. mmc_read hsmmc (emmc_on zeros) 1 5 (replicate 1024 1) 0 600 = Some (1, replicate 1024 0, s')"
proof -
  have "nsect 600 = 2" by (simp add: nsect_def)
  moreover have "sectors (zeros 0) 5 2 = replicate 1024 0"
    using sectors_add[of "zeros 0" 5 1 1] unfolding one_add_one by (simp add: zeros_def flip: replicate_add)
  ultimately show ?thesis
    using driver_read[OF emmc_zeros(1), of 600 5 0 "replicate 1024 1"] by (auto simp: EMMC_SECTORS_def patch_def)
qed

text \<open>
  C18. Writing: \<^verbatim>\<open>mmc_write\<close> puts the bytes of the buffer, rounded up to whole sectors, on the sectors from the address on and
  keeps every other sector and the other partitions; \<^verbatim>\<open>mmc_read\<close> of the same range then gives the bytes back.
\<close>

theorem driver_write_read:
  assumes "emmc_inv s" and "0 < sz" and "unat sz + 511 < 2 ^ 32" and "unat a + nsect (unat sz) \<le> EMMC_SECTORS"
    and "off + 512 * nsect (unat sz) \<le> length buf" and "off' + 512 * nsect (unat sz) \<le> length buf'"
  shows "\<exists>s' s''. mmc_write hsmmc s 1 buf off a sz = Some (1, s')
    \<and> emmc_sect s' = (emmc_sect s)(emmc_part s := upd_sectors (emmc_sect s (emmc_part s)) (unat a)
          (bslice off (512 * nsect (unat sz)) buf))
    \<and> mmc_read hsmmc s' 1 a buf' off' sz = Some (1, patch off' (bslice off (512 * nsect (unat sz)) buf) buf', s'')
    \<and> emmc_inv s'' \<and> emmc_part s'' = emmc_part s \<and> emmc_sect s'' = emmc_sect s'"
proof -
  obtain s' where w: "mmc_write hsmmc s 1 buf off a sz = Some (1, s')" "emmc_inv s'" "emmc_part s' = emmc_part s"
      "emmc_sect s' = (emmc_sect s)(emmc_part s := upd_sectors (emmc_sect s (emmc_part s)) (unat a)
          (bslice off (512 * nsect (unat sz)) buf))"
    using mmc_write_hs[OF assms(1-5)] by blast
  moreover have "sectors (emmc_sect s' (emmc_part s')) (unat a) (nsect (unat sz)) = bslice off (512 * nsect (unat sz)) buf"
    using assms(5) by (simp add: w(3,4) sectors_upd_sectors)
  ultimately show ?thesis
    using emmc.read_ok[OF w(2) assms(2-4,6)] by (auto simp: mmc_ops_def)
qed

theorem driver_write_read_witness:
  "\<exists>s' s''. mmc_write hsmmc (emmc_on zeros) 1 (replicate 512 9) 0 7 512 = Some (1, s')
    \<and> mmc_read hsmmc s' 1 7 (replicate 512 0) 0 512 = Some (1, replicate 512 9, s'')"
  using driver_write_read[OF emmc_zeros(1), of 512 7 0 "replicate 512 9" 0 "replicate 512 0"]
  by (auto simp: EMMC_SECTORS_def patch_def)

text \<open>
  C19. Erasing: \<^verbatim>\<open>mmc_erase\<close> fills the sectors of the range with ones and keeps the others.
\<close>

theorem driver_erase:
  assumes "emmc_inv s" and "0 < sz" and "unat sz + 511 < 2 ^ 31" and "unat a + nsect (unat sz) \<le> EMMC_SECTORS"
  shows "\<exists>s'. mmc_erase hsmmc s 1 a sz = Some (1, s') \<and> emmc_inv s' \<and> emmc_part s' = emmc_part s
    \<and> emmc_sect s' = (emmc_sect s)(emmc_part s := upd_sectors (emmc_sect s (emmc_part s)) (unat a)
          (replicate (512 * nsect (unat sz)) 0xFF))"
  by (rule mmc_erase_hs[OF assms])

theorem driver_erase_witness:
  "\<exists>s'. mmc_erase hsmmc (emmc_on zeros) 1 100 512 = Some (1, s') \<and> emmc_sect s' 0 100 = replicate 512 0xFF"
proof -
  have "unat (100 :: u32) = 100" by simp
  moreover have "upd_sectors d a (replicate 512 0xFF) a = replicate 512 0xFF" for d a
    by (simp add: upd_sectors_one)
  ultimately show ?thesis using driver_erase[OF emmc_zeros(1), of 512 100] by (auto simp: EMMC_SECTORS_def)
qed

text \<open>
  C20. Initialisation: \<^verbatim>\<open>mmc_init\<close> resets and identifies the card, sets it to its sector addressing, speed and bus width,
  reads its size and registers the FAT device; it ends with the user area selected and no sector changed. The
  master boot record must hold no extended partition.
\<close>

theorem driver_init:
  assumes "emmc_pre s" and "plain_mbr (emmc_sect s 0 0)"
  shows "\<exists>s'. mmc_init hsmmc s 1 = Some (0, s') \<and> emmc_inv s' \<and> emmc_part s' = 0 \<and> emmc_sect s' = emmc_sect s"
  by (rule mmc_init_hs[OF assms])

theorem driver_init_witness: "\<exists>s'. mmc_init hsmmc (emmc_on zeros) 1 = Some (0, s') \<and> emmc_inv s'"
  using driver_init[OF emmc_zeros(2)] emmc_zeros(3)[of 0 0] by auto


section \<open>The services below\<close>

text \<open>
  C33. \<^verbatim>\<open>crc32\<close>, with its table and its unrolled loop, computes the checksum of the bit-wise shift register with the
  polynomial 0xedb88320.
\<close>

theorem crc32_is_reference:
  assumes "len \<le> length buf"
  shows "crc32 crc buf len = crc_ref crc (take len buf)"
  by (rule crc32_ref[OF assms])

theorem crc32_is_reference_witness: "crc32 0 (bytes ''123456789'') 9 = crc_ref 0 (bytes ''123456789'')"
  using crc32_is_reference[of 9 "bytes ''123456789''" 0] by simp

text \<open>
  The constant table of the checksum is the one \<^verbatim>\<open>make_crc_table\<close> computes.
\<close>

lemma crc_table_computed: "crc_table = make_crc_table"
  by (rule crc_table_make)

text \<open>
  \<^verbatim>\<open>memmove\<close> copies the source as it was before the call, also when the areas overlap, and writes nothing else.
\<close>

lemma memmove_overlap:
  assumes "blk m src bs" and "mapped m dest (length bs)"
  shows "\<exists>m'. memmove m dest src (length bs) = Some (m', dest) \<and> blk m' dest bs
    \<and> (\<forall>p. p < dest \<or> dest + length bs \<le> p \<longrightarrow> m' p = m p)"
  using memmove_eq[OF assms] blk_upd_blk[of m dest bs] by (auto simp: upd_blk_def)

text \<open>
  Printing a number with \<^verbatim>\<open>0x%x\<close> and reading it with \<^verbatim>\<open>simple_strtoul\<close> gives the number, in any base that is asked for.
\<close>

lemma hex_round_trip: "\<exists>t. sprintf ''0x%x'' [VInt n] = Some t \<and> simple_strtoul t b = (n, [])"
  using sprintf_0x[of n] strtoul_0x[of n b] by simp

text \<open>
  The answer \<^verbatim>\<open>DATA%08x\<close> of the download command has 12 characters, and its digits read back as the size.
\<close>

lemma data_reply:
  "\<exists>t. sprintf ''DATA%08x'' [VInt n] = Some (bytes ''DATA'' @ t) \<and> length t = 8 \<and> simple_strtoul t 16 = (n, [])"
  using sprintf_DATA[of n] length_hexs[of n] strtoul_hex[of "8 - length (hexs n)" n] by simp

text \<open>
  C38. The partition table: after a reset and any number of additions, looking a name up finds the first of the
  first 16 entries with this name, and nothing else.
\<close>

theorem ptn_lookup:
  assumes "ptab_inv t" and "0 \<notin> set name"
  shows "fastboot_flash_find_ptn (foldl fastboot_flash_add_ptn (fastboot_flash_reset_ptn t) es) name
    = List.find (\<lambda>e. cstr_of (pt_name e) = name) (take 16 es)"
  by (rule ptab.find_adds[OF assms])

theorem ptn_lookup_witness:
  "fastboot_flash_find_ptn (foldl fastboot_flash_add_ptn (fastboot_flash_reset_ptn (gp_ptn gpt0)) []) (bytes ''boot'') = None"
  using ptn_lookup[OF gpt0_ok(3), of "bytes ''boot''" "[]"] by simp

text \<open>
  C39. A master boot record on the card that holds only empty and extended entries, the first extended one of them with start 0 (so
  that it refers to the record itself), sends \<^verbatim>\<open>get_partition_info_extended\<close> into an endless recursion: it reads sector 0 through the
  driver of the eMMC again and again, and \<^verbatim>\<open>mmc_init\<close>, which looks for a FAT file system behind such a record, never
  returns, from every state in which the driver can be called. (The record must not pass for a FAT boot sector itself.)
\<close>

theorem extended_partition_loop:
  assumes "emmc_pre s" and "self_extended (emmc_sect s 0 0)" "\<not> fat_at DOS_FS_TYPE_OFFSET (emmc_sect s 0 0)"
  shows "mmc_init hsmmc s 1 = None
    \<and> (emmc_inv s \<and> emmc_part s = 0 \<longrightarrow> get_partition_info_extended (mmc_bread hsmmc 1) d 0 0 n which s = None)"
proof -
  let ?ok = "\<lambda>t. emmc_inv t \<and> emmc_part t = 0 \<and> emmc_sect t = emmc_sect s"
  have rd: "\<exists>t'. mmc_bread hsmmc 1 t 0 1 (stack_buf 512) = Some (1, emmc_sect s 0 0, t') \<and> ?ok t'" if "?ok t" for t
    using bread_hs[of t] that by auto
  have "get_partition_info_extended (mmc_bread hsmmc 1) d 0 0 n which s = None" if "emmc_inv s" "emmc_part s = 0"
    using that by (intro get_partition_info_self[where ok = ?ok and rd = "mmc_bread hsmmc 1" and buf = "emmc_sect s 0 0", OF rd assms(2)]) auto
  then show ?thesis using mmc_init_self[OF assms] by blast
qed

definition loop_mbr :: "byte list" where
  "loop_mbr = replicate 446 0 @ [0, 0, 0, 0, 5, 0, 0, 0, 0, 0, 0, 0, 0, 0, 0, 0] @ replicate 48 0 @ [0x55, 0xaa]"

definition loop_disk :: "nat \<Rightarrow> nat \<Rightarrow> byte list" where
  "loop_disk = (\<lambda>p n. if n = 0 then loop_mbr else replicate 512 0)"

lemma loop_mbr_self: "self_extended loop_mbr" "\<not> fat_at DOS_FS_TYPE_OFFSET loop_mbr"
proof -
  have e: "dos_entries loop_mbr = [[0, 0, 0, 0, 5, 0, 0, 0, 0, 0, 0, 0, 0, 0, 0, 0], replicate 16 0, replicate 16 0, replicate 16 0]"
    by (simp add: loop_mbr_def dos_entries_def bslice_def DOS_PART_TBL_OFFSET_def upt_conv_Cons)
  have "dos_magic loop_mbr"
    by (simp add: loop_mbr_def dos_magic_def DOS_PART_MAGIC_OFFSET_def nth_append)
  then show "self_extended loop_mbr"
    by (simp add: self_extended_def e sys_ind_def is_extended_def start4_def le32_to_int_def bslice_def)
  show "\<not> fat_at DOS_FS_TYPE_OFFSET loop_mbr"
    by (simp add: fat_at_def DOS_FS_TYPE_OFFSET_def loop_mbr_def bslice_def bytes_def strncmp_s_def numeral_3_eq_3)
qed

theorem extended_partition_loop_witness:
  "mmc_init hsmmc (emmc_on loop_disk) 1 = None
    \<and> get_partition_info_extended (mmc_bread hsmmc 1) (mmc_blk_dev (emmc_on loop_disk) 1) 0 0 1 1 (emmc_on loop_disk) = None"
proof -
  have l: "length (loop_disk p n) = 512" for p n by (simp add: loop_disk_def loop_mbr_def)
  have i: "emmc_inv (emmc_on loop_disk)" by (rule emmc_on_inv) (rule l)
  have s: "emmc_sect (emmc_on loop_disk) 0 0 = loop_mbr" "emmc_part (emmc_on loop_disk) = 0" by (simp_all add: loop_disk_def)
  show ?thesis
    using extended_partition_loop[of "emmc_on loop_disk"] emmc.inv_pre[OF i] loop_mbr_self i s by simp
qed

text \<open>
  The default contents of the identity area: the magic number, the version, the default board id, boot mode 2, an empty post
  mode, and zero digits in every other variable.
\<close>

lemma default_contents:
  assumes "length pbuf = CONFIG_IDME_SIZE"
  shows "\<exists>D. idme_generate_default_vars pbuf = Some (0, D) \<and> idme_magic D
    \<and> list_all (\<lambda>v. var_at v D = default_value v) nvram_info"
  using generate_default[OF assms] default_area_values
  by (auto simp: idme_magic_iff CONFIG_IDME_SIZE_def list_all_iff)

text \<open>
  C40. The variables that leave their block (\<^verbatim>\<open>camcal\<close> and \<^verbatim>\<open>mfg\<close>) take \<^verbatim>\<open>idme_update_var\<close> and \<^verbatim>\<open>idme_get_var\<close> out of the 512 bytes
  of \<^verbatim>\<open>gblock_buff\<close>.
\<close>

theorem idme_buffer_overrun:
  assumes "block_device dev pre ok part sect cap" and "ok s" and "32 \<le> cap"
    and "nv \<in> set nvram_info" "\<not> in_block nv" and "length (gblock_buff i) = 512" "nv_size nv < length buf"
  shows "idme_update_var dev (bytes (nv_name nv)) x i s = None
    \<and> idme_get_var dev (bytes (nv_name nv)) buf (length buf) i s = None"
  using block_device.var_overrun[OF assms] by blast

theorem idme_buffer_overrun_witness:
  "idme_update_var (mmc_ops hsmmc) (bytes ''mfg'') (Some (bytes ''x'')) idme0 (emmc_on zeros) = None"
proof -
  have "\<lparr>nv_name = ''mfg'', nv_offset = 0x1A20, nv_size = 512\<rparr> \<in> set nvram_info"
    "\<not> in_block \<lparr>nv_name = ''mfg'', nv_offset = 0x1A20, nv_size = 512\<rparr>"
    by (simp_all add: nvram_info_def in_block_def IDME_BASE_ADDR_def)
  then show ?thesis
    using idme_buffer_overrun[OF emmc.block_device_axioms emmc_zeros(1), of "\<lparr>nv_name = ''mfg'', nv_offset = 0x1A20, nv_size = 512\<rparr>"
      idme0 "replicate 600 0" "Some (bytes ''x'')"] by (simp add: idme0_def EMMC_SECTORS_def)
qed

text \<open>
  \<^verbatim>\<open>simple_atoi\<close> reads back what \<^verbatim>\<open>simple_itoa\<close> prints.
\<close>

lemma decimal_round_trip: "simple_atoi (simple_itoa i) = i"
  by (rule atoi_itoa)

end
